(* ===== verification/Prelude.thy ===== *)
theory Prelude
  imports Main "HOL-Library.AList" "HOL-Library.Product_Lexorder" "HOL-Library.List_Lexorder"
    "HOL-Library.Char_ord"
begin

text \<open>
  Shared vocabulary of the development: the types that stand for Python's strings, instants,
  dates and JSON values, the tables of the database as lists of rows, and the two interfaces the
  services rely on. \<open>row_store\<close> is what a mapped table promises (a row is read by its primary
  key and written back under the same key); \<open>optimistic_lock\<close> is the optimistic-locking
  contract that every \<open>expectedVersion\<close> endpoint follows, with the lost-update theorems proved
  once from it.
\<close>

named_theorems tbl \<open>definitions of table reads and writes\<close>

section \<open>Values\<close>

text \<open>Primary keys, enum codes and dictionary keys are ASCII strings in the program.\<close>

type_synonym ident = string

text \<open>Free text (titles, bodies, reasons) is a Python \<open>str\<close>: a list of Unicode code points.\<close>

type_synonym pystr = "int list"

text \<open>Aware datetimes are instants, counted in microseconds since 1970-01-01T00:00:00Z.\<close>

type_synonym instant = int

text \<open>A \<open>date\<close> is its proleptic Gregorian ordinal (\<open>date.toordinal\<close>).\<close>

type_synonym date = int

definition lit :: "string \<Rightarrow> pystr" where
  "lit s = map of_char s"

definition minutes :: "int \<Rightarrow> int" where
  "minutes m = m * 60 * 1000000"

definition seconds :: "int \<Rightarrow> int" where
  "seconds s = s * 1000000"

text \<open>
  The whitespace \<open>str.strip()\<close> removes: the code points for which \<open>str.isspace\<close> holds.
\<close>

definition py_space :: "int \<Rightarrow> bool" where
  "py_space c \<longleftrightarrow> c \<in> {9, 10, 11, 12, 13, 28, 29, 30, 31, 32, 133, 160, 5760,
     8192, 8193, 8194, 8195, 8196, 8197, 8198, 8199, 8200, 8201, 8202, 8232, 8233, 8239, 8287, 12288}"

definition py_strip :: "pystr \<Rightarrow> pystr" where
  "py_strip s = rev (dropWhile py_space (rev (dropWhile py_space s)))"

text \<open>\<open>btrim(text)\<close> of PostgreSQL strips spaces only.\<close>

definition pg_btrim :: "pystr \<Rightarrow> pystr" where
  "pg_btrim s = rev (dropWhile (\<lambda>c. c = 32) (rev (dropWhile (\<lambda>c. c = 32) s)))"

lemma py_strip_Nil [simp]: "py_strip [] = []"
  by (simp add: py_strip_def)

lemma pg_btrim_Nil [simp]: "pg_btrim [] = []"
  by (simp add: pg_btrim_def)

lemma strip_empty_iff: "rev (dropWhile P (rev (dropWhile P s))) = [] \<longleftrightarrow> (\<forall>c\<in>set s. P c)"
proof
  assume "rev (dropWhile P (rev (dropWhile P s))) = []"
  then have "\<forall>c\<in>set (dropWhile P s). P c" by simp
  then have "dropWhile P s = []"
    using hd_dropWhile [of P s] by (metis hd_in_set)
  then show "\<forall>c\<in>set s. P c" by simp
qed (auto dest: set_dropWhileD)

lemma py_strip_empty_iff: "py_strip s = [] \<longleftrightarrow> (\<forall>c\<in>set s. py_space c)"
  unfolding py_strip_def by (rule strip_empty_iff)

lemma pg_btrim_empty_iff: "pg_btrim s = [] \<longleftrightarrow> (\<forall>c\<in>set s. c = 32)"
  unfolding pg_btrim_def by (rule strip_empty_iff)

text \<open>What PostgreSQL sees as blank, Python sees as blank too (the converse fails: a line break).\<close>

lemma btrim_blank_strip_blank: "pg_btrim s = [] \<Longrightarrow> py_strip s = []"
  by (auto simp: py_strip_empty_iff pg_btrim_empty_iff py_space_def)

section \<open>JSON values and dictionaries\<close>

text \<open>
  A JSONB column holds a JSON value; a Python \<open>dict\<close> read from it is an association list with
  distinct keys. Updating keeps the position of a key that is present and appends a new one.
\<close>

datatype json = JNull | JBool bool | JInt int | JStr pystr | JList "json list"
  | JObj "(string \<times> json) list"

type_synonym dict = "(string \<times> json) list"

fun truthy :: "json \<Rightarrow> bool" where
  "truthy JNull = False"
| "truthy (JBool b) = b"
| "truthy (JInt n) = (n \<noteq> 0)"
| "truthy (JStr s) = (s \<noteq> [])"
| "truthy (JList xs) = (xs \<noteq> [])"
| "truthy (JObj kvs) = (kvs \<noteq> [])"

text \<open>\<open>{**a, **b}\<close>\<close>

definition dict_merge :: "('k \<times> 'v) list \<Rightarrow> ('k \<times> 'v) list \<Rightarrow> ('k \<times> 'v) list" where
  "dict_merge a b = fold (\<lambda>(k, v). AList.update k v) b a"

lemma map_of_fold_update:
  "map_of (fold (\<lambda>(k, v). AList.update k v) b a) = map_of a ++ map_of (rev b)"
  by (induction b arbitrary: a) (auto simp: update_conv' map_add_upd split: prod.splits)

lemma map_of_dict_merge: "map_of (dict_merge a b) = map_of a ++ map_of (rev b)"
  by (simp add: dict_merge_def map_of_fold_update)

lemma dict_merge_keeps: "k \<notin> fst ` set b \<Longrightarrow> map_of (dict_merge a b) k = map_of a k"
  by (simp add: map_of_dict_merge map_add_def map_of_eq_None_iff split: option.splits)
    (metis image_set map_of_eq_None_iff option.distinct(1) set_rev)

lemma update_new: "k \<notin> fst ` set xs \<Longrightarrow> AList.update k v xs = xs @ [(k, v)]"
  by (induction xs) auto

lemma dict_merge_distinct:
  "distinct (map fst (xs @ kvs)) \<Longrightarrow> dict_merge xs kvs = xs @ kvs"
  unfolding dict_merge_def
proof (induction kvs arbitrary: xs)
  case (Cons kv kvs)
  obtain k v where kv: "kv = (k, v)" by (cases kv)
  have "AList.update k v xs = xs @ [(k, v)]" using Cons.prems kv by (intro update_new) auto
  moreover have "distinct (map fst ((xs @ [(k, v)]) @ kvs))" using Cons.prems kv by simp
  ultimately show ?case using Cons.IH [of "xs @ [(k, v)]"] kv by simp
qed simp

section \<open>Results\<close>

text \<open>A request either raises or commits; a raise rolls the session back.\<close>

definition and_then :: "'e + 'a \<Rightarrow> ('a \<Rightarrow> 'e + 'b) \<Rightarrow> 'e + 'b" where
  "and_then m f = (case m of Inl e \<Rightarrow> Inl e | Inr a \<Rightarrow> f a)"

lemma and_then_Inl [simp]: "and_then (Inl e) f = Inl e"
  by (simp add: and_then_def)

lemma and_then_Inr [simp]: "and_then (Inr a) f = f a"
  by (simp add: and_then_def)

lemma and_then_eq_Inr: "and_then m f = Inr b \<longleftrightarrow> (\<exists>a. m = Inr a \<and> f a = Inr b)"
  by (cases m) auto

lemma and_then_InrE:
  assumes "and_then m f = Inr b"
  obtains a where "m = Inr a" "f a = Inr b"
  using assms by (auto simp: and_then_eq_Inr)

section \<open>Tables\<close>

definition get_row :: "('r \<Rightarrow> ident) \<Rightarrow> 'r list \<Rightarrow> ident \<Rightarrow> 'r option" where
  "get_row key rows i = find (\<lambda>r. key r = i) rows"

definition put_row :: "('r \<Rightarrow> ident) \<Rightarrow> 'r \<Rightarrow> 'r list \<Rightarrow> 'r list" where
  "put_row key r rows = map (\<lambda>x. if key x = key r then r else x) rows"

lemma get_row_Nil [simp]: "get_row key [] i = None"
  by (simp add: get_row_def)

lemma get_row_Cons [simp]:
  "get_row key (r # rs) i = (if key r = i then Some r else get_row key rs i)"
  by (simp add: get_row_def)

lemma put_row_Nil [simp]: "put_row key r [] = []"
  by (simp add: put_row_def)

lemma put_row_Cons [simp]:
  "put_row key r (x # xs) = (if key x = key r then r else x) # put_row key r xs"
  by (simp add: put_row_def)

lemma get_row_SomeD: "get_row key rows i = Some r \<Longrightarrow> key r = i \<and> r \<in> set rows"
  by (induction rows) (auto split: if_splits)

lemma get_row_key: "get_row key rows i = Some r \<Longrightarrow> key r = i"
  by (simp add: get_row_SomeD)

lemma get_row_None_iff: "get_row key rows i = None \<longleftrightarrow> i \<notin> key ` set rows"
  by (induction rows) auto

lemma get_row_append:
  "get_row key (xs @ ys) i = (case get_row key xs i of None \<Rightarrow> get_row key ys i | Some r \<Rightarrow> Some r)"
  by (induction xs) auto

lemma get_put_row_other: "i \<noteq> key r \<Longrightarrow> get_row key (put_row key r rows) i = get_row key rows i"
  by (induction rows) auto

lemma get_put_row:
  "get_row key rows (key r) = Some r0 \<Longrightarrow>
   get_row key (put_row key r rows) i = (if i = key r then Some r else get_row key rows i)"
  by (induction rows) (auto simp: get_put_row_other split: if_splits)

lemma map_key_put_row [simp]: "map key (put_row key r rows) = map key rows"
  by (induction rows) auto

lemma get_row_distinct:
  "distinct (map key rows) \<Longrightarrow> r \<in> set rows \<Longrightarrow> get_row key rows (key r) = Some r"
  by (induction rows) auto

lemma set_put_row: "set (put_row key r rows) \<subseteq> insert r {x \<in> set rows. key x \<noteq> key r}"
  by (induction rows) auto

lemma put_row_memE:
  assumes "x \<in> set (put_row key r rows)"
  obtains "x = r" | "x \<in> set rows" "key x \<noteq> key r"
  using assms set_put_row [of key r rows] by auto

lemma get_row_map:
  "(\<And>x. key (f x) = key x) \<Longrightarrow> get_row key (map f rows) i = map_option f (get_row key rows i)"
  by (induction rows) auto

text \<open>Sorting and selecting commute with a change of rows that keeps the sort key and the condition.\<close>

lemma insort_key_map: "(\<forall>y \<in> set (x # xs). k (f y) = k y) \<Longrightarrow> insort_key k (f x) (map f xs) = map f (insort_key k x xs)"
  by (induction xs) auto

lemma sort_key_map: "(\<forall>x \<in> set xs. k (f x) = k x) \<Longrightarrow> sort_key k (map f xs) = map f (sort_key k xs)"
proof (induction xs)
  case (Cons x xs)
  then show ?case using insort_key_map [of x "sort_key k xs" k f] by simp
qed simp

lemma filter_map_same: "(\<forall>x \<in> set xs. P (f x) \<longleftrightarrow> P x) \<Longrightarrow> filter P (map f xs) = map f (filter P xs)"
  by (induction xs) auto

text \<open>The interface of a mapped table: primary-key lookup and writing a loaded row back.\<close>

locale row_store =
  fixes key :: "'r \<Rightarrow> ident"
    and get :: "'db \<Rightarrow> ident \<Rightarrow> 'r option"
    and put :: "'r \<Rightarrow> 'db \<Rightarrow> 'db"
  assumes get_key: "get d i = Some r \<Longrightarrow> key r = i"
    and get_put: "get d (key r) = Some r0 \<Longrightarrow> get (put r d) i = (if i = key r then Some r else get d i)"
begin

lemma get_put_same: "get d i = Some r0 \<Longrightarrow> key r = i \<Longrightarrow> get (put r d) i = Some r"
  using get_put by fastforce

lemma get_put_other: "get d j = Some r0 \<Longrightarrow> key r = j \<Longrightarrow> i \<noteq> j \<Longrightarrow> get (put r d) i = get d i"
  using get_put by fastforce

lemma put_overwrites:
  "get d i = Some r0 \<Longrightarrow> key r = i \<Longrightarrow> key s = i \<Longrightarrow> get (put s (put r d)) i = Some s"
  using get_put_same by blast

end

section \<open>Optimistic locking\<close>

text \<open>
  A family of requests on one row that carry the version the client saw. The contract: a request
  succeeds only when the version is current, and then the stored version is one higher. A failed
  request changes nothing, so a run threads the database through the successes only.
\<close>

locale optimistic_lock =
  fixes get :: "'db \<Rightarrow> ident \<Rightarrow> 'r option"
    and ver :: "'r \<Rightarrow> int"
    and wf :: "'db \<Rightarrow> bool"
    and exec :: "'q \<Rightarrow> ident \<Rightarrow> int \<Rightarrow> 'db \<Rightarrow> 'e + 'db"
  assumes checked: "exec q i v d = Inr d' \<Longrightarrow> \<exists>r. get d i = Some r \<and> ver r = v"
    and bumped: "wf d \<Longrightarrow> exec q i v d = Inr d' \<Longrightarrow> \<exists>r. get d' i = Some r \<and> ver r = v + 1"
    and kept: "wf d \<Longrightarrow> exec q i v d = Inr d' \<Longrightarrow> wf d'"
begin

fun run :: "ident \<Rightarrow> 'db \<Rightarrow> ('q \<times> int) list \<Rightarrow> 'db" where
  "run i d [] = d"
| "run i d ((q, v) # qs) = (case exec q i v d of Inl e \<Rightarrow> run i d qs | Inr d' \<Rightarrow> run i d' qs)"

fun wins :: "ident \<Rightarrow> 'db \<Rightarrow> ('q \<times> int) list \<Rightarrow> nat" where
  "wins i d [] = 0"
| "wins i d ((q, v) # qs) =
     (case exec q i v d of Inl e \<Rightarrow> wins i d qs | Inr d' \<Rightarrow> Suc (wins i d' qs))"

lemma stale_rejected:
  assumes "get d i = Some r" and "ver r \<noteq> v"
  shows "\<exists>e. exec q i v d = Inl e"
  using assms checked by (cases "exec q i v d") fastforce+

lemma second_rejected:
  assumes "wf d" and "exec q i v d = Inr d'"
  shows "\<exists>e. exec q' i v d' = Inl e"
  using bumped [OF assms] stale_rejected by fastforce

lemma no_wins_when_stale:
  assumes "get d i = Some r" and "ver r \<noteq> v" and "\<forall>(q, w) \<in> set qs. w = v"
  shows "wins i d qs = 0 \<and> run i d qs = d"
  using assms
proof (induction qs)
  case Nil
  then show ?case by simp
next
  case (Cons p qs)
  obtain q where p: "p = (q, v)" using Cons.prems(3) by (cases p) auto
  from Cons.prems(1,2) obtain e where "exec q i v d = Inl e" using stale_rejected by blast
  with Cons p show ?case by simp
qed

text \<open>Of the requests that carry the same version, at most one takes effect.\<close>

lemma at_most_one_win:
  assumes "wf d" and "\<forall>(q, w) \<in> set qs. w = v"
  shows "wins i d qs \<le> 1"
  using assms
proof (induction qs)
  case Nil
  then show ?case by simp
next
  case (Cons p qs)
  obtain q where p: "p = (q, v)" using Cons.prems(2) by (cases p) auto
  show ?case
  proof (cases "exec q i v d")
    case (Inl e)
    with Cons p show ?thesis by simp
  next
    case (Inr d')
    then obtain r where "get d' i = Some r" "ver r = v + 1" using bumped Cons.prems(1) by blast
    then have "wins i d' qs = 0" using no_wins_when_stale [of d' i r v qs] Cons.prems by simp
    with Inr p show ?thesis by simp
  qed
qed

text \<open>The stored version counts the successful requests: no update is lost.\<close>

lemma version_counts_wins:
  assumes "wf d" and "get d i = Some r"
  shows "\<exists>r'. get (run i d qs) i = Some r' \<and> ver r' = ver r + int (wins i d qs)"
  using assms
proof (induction qs arbitrary: d r)
  case Nil
  then show ?case by simp
next
  case (Cons p qs)
  obtain q v where p: "p = (q, v)" by (cases p)
  show ?case
  proof (cases "exec q i v d")
    case (Inl e)
    with Cons p show ?thesis by simp
  next
    case (Inr d')
    then obtain r' where r': "get d' i = Some r'" "ver r' = v + 1"
      using bumped Cons.prems(1) by blast
    have "ver r = v" using checked [OF Inr] Cons.prems(2) by simp
    with Cons.IH [OF kept [OF Cons.prems(1) Inr] r'(1)] r' Inr p show ?thesis by auto
  qed
qed

end

text \<open>Requests on the rows of a table, by primary key.\<close>

locale versioned_requests = row_store key get put + optimistic_lock get ver wf exec
  for key :: "'r \<Rightarrow> ident" and get :: "'db \<Rightarrow> ident \<Rightarrow> 'r option" and put :: "'r \<Rightarrow> 'db \<Rightarrow> 'db"
    and ver :: "'r \<Rightarrow> int" and wf :: "'db \<Rightarrow> bool" and exec :: "'q \<Rightarrow> ident \<Rightarrow> int \<Rightarrow> 'db \<Rightarrow> 'e + 'db"

end
