(* ===== verification/Enums.thy ===== *)
theory Enums
  imports Prelude
begin

text \<open>
  The domain enumerations of \<open>app/core/enums.py\<close>, one datatype per \<open>CodeEnum\<close> with the members
  in the order of the source. A member whose name another enumeration uses too carries a prefix.
  The stored and transmitted value of a member is its name; \<open>code_enum\<close> states what reading a
  stored code back relies on, and is interpreted for the enumerations whose codes the services
  write into JSON or parse.
\<close>

section \<open>Clubs\<close>

datatype invitation_status = Invitation_PENDING | Invitation_ACCEPTED | Invitation_EXPIRED

datatype member_role = OWNER | MANAGER | MEMBER

text \<open>The roles that may use the service.\<close>

definition SERVICE_ROLES :: "member_role list" where
  "SERVICE_ROLES = [OWNER, MANAGER]"

datatype member_status = Member_PENDING | Member_ACTIVE

datatype club_category = Category_ACADEMIC | Category_SPORTS | Category_VOLUNTEER | Category_HOBBY
  | Category_ETC

section \<open>Events\<close>

datatype event_status = PLANNING | ON_GOING | COMPLETE | CANCELLING | CANCELLED

datatype plan_review_status = Review_NOT_REQUESTED | Review_REVIEWING | Review_DONE
  | Review_FAILED

datatype event_type = Type_MT | Type_WELCOME | Type_PICNIC | Type_ACADEMIC | Type_WORKSHOP
  | Type_ETC

datatype step_phase = PREPARATION | RECRUITING | EXECUTION | CANCELLATION

datatype step_code = ASSIGN_ROLES | RESEARCH_VENUE | DEMAND_SURVEY | RECRUIT_NOTICE
  | CHECK_RESPONSES | CONFIRM_DETAILS | BOOK_VENUE | COLLECT_FEES | PRE_EVENT_NOTICE | EVENT_DAY
  | SETTLE_EXPENSES | REFUND_FEES | RECORD_FEEDBACK | CANCEL_NOTIFY_PARTICIPANTS | CANCEL_VENUE
  | CANCEL_REFUND | CANCEL_RECORD

datatype step_actor = Actor_AI | Actor_APPROVAL_REQUIRED | Actor_MANUAL

datatype step_state = Step_DONE | Step_CURRENT | Step_TODO

datatype action_type = EXTERNAL_SEND | TRANSFER | EXPENSE | CONTRACT | NOTICE | CONFIRMATION

datatype action_status = PENDING | APPROVED | DENIED | DONE | FAILED

datatype action_content_status = Content_NONE | Content_DRAFTING | Content_READY | Content_FAILED

datatype action_content_source = Source_AI | Source_USER

section \<open>Records\<close>

datatype record_category = Record_LEDGER | Record_ETC | Record_RULES | Record_EVENT_HISTORY
  | Record_RECEIPT

datatype record_file_type = File_XLSX | File_CSV | File_HWP | File_PDF | File_IMAGE

datatype record_parse_status = Parse_QUEUED | Parse_PARSING | Parse_NEEDS_REVIEW | Parse_COMPLETED
  | Parse_INDEXED | Parse_FAILED

datatype record_parse_error_reason = Reason_COLUMN_MISMATCH | Reason_IMAGE_NOT_READABLE
  | Reason_UNSUPPORTED_FORMAT | Reason_UNKNOWN

section \<open>Accounting\<close>

datatype currency_code = KRW

datatype receipt_import_type = EXPENSE_CSV | RECEIPT_IMAGE

datatype receipt_import_status = Import_QUEUED | Import_PROCESSING | Import_NEEDS_REVIEW
  | Import_CONFIRMED | Import_FAILED

datatype expense_source = Expense_MANUAL | Expense_CSV_IMPORT | Expense_OCR_IMPORT
  | Expense_ACTION

section \<open>Meetings\<close>

datatype meeting_status = Meeting_RECORDING | Meeting_FINALIZING | Meeting_COMPLETED
  | Meeting_FAILED

datatype judge_route = Route_RAG | Route_LLM | Route_NONE | Route_ERROR

datatype judge_kind = Kind_NO_LOOKUP | Kind_ANSWER | Kind_NOT_FOUND | Kind_FAILED

section \<open>Discord\<close>

datatype discord_connection_mode = Discord_LIVE | Discord_FIXTURE

datatype discord_connection_status = Discord_MONITORING | Discord_PAUSED | Discord_DISCONNECTED

section \<open>Context assistant\<close>

datatype context_source_type = MEETING_TRANSCRIPT | DISCORD_MESSAGE

datatype context_decision_status = Decision_SUCCEEDED | Decision_STALE | Decision_PARTIAL
  | Decision_FAILED

datatype task_suggestion_status = Suggestion_PROPOSED | Suggestion_ACCEPTED

section \<open>Agent\<close>

datatype agent_feature = Feature_PLANNING | Feature_RETRIEVAL | Feature_OPERATIONS

datatype agent_run_status = Run_RUNNING | Run_SUCCEEDED | Run_FAILED

datatype agent_job_kind = Job_RECEIPT_OCR | Job_MEETING_STT | Job_MEETING_REVIEW
  | Job_CONTEXT_DECISION | Job_DISCORD_SYNC

datatype agent_job_status = JobStatus_QUEUED | JobStatus_RUNNING | JobStatus_SUCCEEDED
  | JobStatus_FAILED

datatype agent_job_stage = Stage_OCR | Stage_TRANSCRIBING | Stage_DECIDING | Stage_RETRIEVING
  | Stage_GENERATING | Stage_DETECTING_TASK

datatype character_state = Character_IDLE | Character_WORKING | Character_ATTENTION

section \<open>Chat\<close>

datatype message_role = Role_USER | Role_ASSISTANT | Role_SYSTEM

section \<open>Codes\<close>

text \<open>\<open>CodeEnum(s)\<close>: the member whose value is the given code, if there is one.\<close>

definition code_parse :: "'a list \<Rightarrow> ('a \<Rightarrow> string) \<Rightarrow> string \<Rightarrow> 'a option" where
  "code_parse members val_of s = find (\<lambda>m. val_of m = s) members"

locale code_enum =
  fixes members :: "'a list" and val_of :: "'a \<Rightarrow> string"
  assumes all_members: "set members = UNIV"
    and distinct_codes: "distinct (map val_of members)"
begin

lemma val_inject: "val_of a = val_of b \<longleftrightarrow> a = b"
proof
  assume "val_of a = val_of b"
  moreover have "inj_on val_of (set members)" using distinct_codes by (simp add: distinct_map)
  ultimately show "a = b" using all_members by (auto dest: inj_onD)
qed simp

lemma parse_value: "code_parse members val_of (val_of a) = Some a"
proof -
  have "a \<in> set members" using all_members by simp
  then show ?thesis
    unfolding code_parse_def by (induction members) (auto simp: val_inject)
qed

lemma parse_SomeD: "code_parse members val_of s = Some a \<Longrightarrow> val_of a = s"
  unfolding code_parse_def by (auto simp: find_Some_iff)

end

definition step_code_members :: "step_code list" where
  "step_code_members =
     [ASSIGN_ROLES, RESEARCH_VENUE, DEMAND_SURVEY, RECRUIT_NOTICE, CHECK_RESPONSES,
      CONFIRM_DETAILS, BOOK_VENUE, COLLECT_FEES, PRE_EVENT_NOTICE, EVENT_DAY,
      SETTLE_EXPENSES, REFUND_FEES, RECORD_FEEDBACK, CANCEL_NOTIFY_PARTICIPANTS,
      CANCEL_VENUE, CANCEL_REFUND, CANCEL_RECORD]"

fun step_code_value :: "step_code \<Rightarrow> string" where
  "step_code_value ASSIGN_ROLES = ''ASSIGN_ROLES''"
| "step_code_value RESEARCH_VENUE = ''RESEARCH_VENUE''"
| "step_code_value DEMAND_SURVEY = ''DEMAND_SURVEY''"
| "step_code_value RECRUIT_NOTICE = ''RECRUIT_NOTICE''"
| "step_code_value CHECK_RESPONSES = ''CHECK_RESPONSES''"
| "step_code_value CONFIRM_DETAILS = ''CONFIRM_DETAILS''"
| "step_code_value BOOK_VENUE = ''BOOK_VENUE''"
| "step_code_value COLLECT_FEES = ''COLLECT_FEES''"
| "step_code_value PRE_EVENT_NOTICE = ''PRE_EVENT_NOTICE''"
| "step_code_value EVENT_DAY = ''EVENT_DAY''"
| "step_code_value SETTLE_EXPENSES = ''SETTLE_EXPENSES''"
| "step_code_value REFUND_FEES = ''REFUND_FEES''"
| "step_code_value RECORD_FEEDBACK = ''RECORD_FEEDBACK''"
| "step_code_value CANCEL_NOTIFY_PARTICIPANTS = ''CANCEL_NOTIFY_PARTICIPANTS''"
| "step_code_value CANCEL_VENUE = ''CANCEL_VENUE''"
| "step_code_value CANCEL_REFUND = ''CANCEL_REFUND''"
| "step_code_value CANCEL_RECORD = ''CANCEL_RECORD''"

interpretation step_code: code_enum step_code_members step_code_value
proof
  show "set step_code_members = UNIV"
  proof -
    have "x \<in> set step_code_members" for x by (cases x) (simp_all add: step_code_members_def)
    then show ?thesis by auto
  qed
  show "distinct (map step_code_value step_code_members)" by (simp add: step_code_members_def)
qed

definition action_type_members :: "action_type list" where
  "action_type_members =
     [EXTERNAL_SEND, TRANSFER, EXPENSE, CONTRACT, NOTICE, CONFIRMATION]"

fun action_type_value :: "action_type \<Rightarrow> string" where
  "action_type_value EXTERNAL_SEND = ''EXTERNAL_SEND''"
| "action_type_value TRANSFER = ''TRANSFER''"
| "action_type_value EXPENSE = ''EXPENSE''"
| "action_type_value CONTRACT = ''CONTRACT''"
| "action_type_value NOTICE = ''NOTICE''"
| "action_type_value CONFIRMATION = ''CONFIRMATION''"

interpretation action_type: code_enum action_type_members action_type_value
proof
  show "set action_type_members = UNIV"
  proof -
    have "x \<in> set action_type_members" for x by (cases x) (simp_all add: action_type_members_def)
    then show ?thesis by auto
  qed
  show "distinct (map action_type_value action_type_members)" by (simp add: action_type_members_def)
qed

definition action_status_members :: "action_status list" where
  "action_status_members =
     [PENDING, APPROVED, DENIED, DONE, FAILED]"

fun action_status_value :: "action_status \<Rightarrow> string" where
  "action_status_value PENDING = ''PENDING''"
| "action_status_value APPROVED = ''APPROVED''"
| "action_status_value DENIED = ''DENIED''"
| "action_status_value DONE = ''DONE''"
| "action_status_value FAILED = ''FAILED''"

interpretation action_status: code_enum action_status_members action_status_value
proof
  show "set action_status_members = UNIV"
  proof -
    have "x \<in> set action_status_members" for x by (cases x) (simp_all add: action_status_members_def)
    then show ?thesis by auto
  qed
  show "distinct (map action_status_value action_status_members)" by (simp add: action_status_members_def)
qed

end
