(* ===== verification/Errors.thy ===== *)
theory Errors
  imports Enums
begin

text \<open>
  The API errors of \<open>app/core/exceptions.py\<close> and of the services modelled here, one constructor per
  exception class. \<open>ValidationFailed\<close> and \<open>PlanIncomplete\<close> carry the names of the offending
  fields (the keys of \<open>fields\<close>); the Korean messages are fixed texts and are left out.
  \<open>action_service\<close> declares \<open>ActionNotFound\<close> and \<open>StepNotFound\<close> a second time with the same
  status and code, so each is one constructor. \<open>Unhandled\<close> is a Python or database exception that no
  handler turns into an \<open>ApiError\<close>: the framework answers 500 and the transaction is rolled back.
\<close>

datatype api_error =
    EventNotFound
  | Unauthorized
  | Forbidden
  | InvitationUnavailable
  | VersionConflict
  | IdempotencyConflict
  | IdempotencyInProgress
  | ExpenseNotFound
  | ReceiptImportNotFound
  | ImportNotReady
  | StepNotFound
  | ActionNotFound
  | NotEditable
  | ValidationFailed "string list"
  | AIUnavailable
  | AIMisconfigured
  | PlanningStateConflict
  | EventNotPlanning
  | PlanNotGenerated
  | EventNotOnGoing
  | PlanIncomplete "string list"
  | AlreadyResolved
  | StepAlreadyCompleted
  | EventIncomplete
  | EventCancelNotAllowed
  | CancelTaskNotFound
  | CancelTaskOutOfOrder
  | DraftNotAllowed
  | AgentJobNotFound
  | TaskSuggestionNotFound
  | TaskSuggestionNotProposed
  | TaskSuggestionStale
  | ConfirmedTaskNotFound
  | ReminderDispatchInProgress
  | ConfirmedTaskCancelled
  | PushNotConfigured
  | PushSubscriptionNotFound
  | PushSubscriptionConflict
  | PushNoSubscription
  | RecordNotFound
  | MeetingNotFound
  | MeetingNotRecording
  | ChunkConflict
  | AudioStreamActive
  | HttpAudioNotImplemented
  | ReviewConflict
  | CaseNotFound
  | CaseInProgress
  | AnswerRequired
  | DiarizationUnavailable string
  | Unhandled string

fun status_code :: "api_error \<Rightarrow> nat" where
  "status_code EventNotFound = 404"
| "status_code Unauthorized = 401"
| "status_code Forbidden = 403"
| "status_code InvitationUnavailable = 503"
| "status_code VersionConflict = 409"
| "status_code IdempotencyConflict = 409"
| "status_code IdempotencyInProgress = 409"
| "status_code ExpenseNotFound = 404"
| "status_code ReceiptImportNotFound = 404"
| "status_code ImportNotReady = 409"
| "status_code StepNotFound = 404"
| "status_code ActionNotFound = 404"
| "status_code NotEditable = 409"
| "status_code (ValidationFailed fs) = 422"
| "status_code AIUnavailable = 503"
| "status_code AIMisconfigured = 500"
| "status_code PlanningStateConflict = 409"
| "status_code EventNotPlanning = 409"
| "status_code PlanNotGenerated = 409"
| "status_code EventNotOnGoing = 409"
| "status_code (PlanIncomplete fs) = 409"
| "status_code AlreadyResolved = 409"
| "status_code StepAlreadyCompleted = 409"
| "status_code EventIncomplete = 409"
| "status_code EventCancelNotAllowed = 409"
| "status_code CancelTaskNotFound = 404"
| "status_code CancelTaskOutOfOrder = 409"
| "status_code DraftNotAllowed = 409"
| "status_code AgentJobNotFound = 404"
| "status_code TaskSuggestionNotFound = 404"
| "status_code TaskSuggestionNotProposed = 409"
| "status_code TaskSuggestionStale = 409"
| "status_code ConfirmedTaskNotFound = 404"
| "status_code ReminderDispatchInProgress = 409"
| "status_code ConfirmedTaskCancelled = 409"
| "status_code PushNotConfigured = 503"
| "status_code PushSubscriptionNotFound = 404"
| "status_code PushSubscriptionConflict = 409"
| "status_code PushNoSubscription = 409"
| "status_code RecordNotFound = 404"
| "status_code MeetingNotFound = 404"
| "status_code MeetingNotRecording = 409"
| "status_code ChunkConflict = 409"
| "status_code AudioStreamActive = 409"
| "status_code HttpAudioNotImplemented = 501"
| "status_code ReviewConflict = 409"
| "status_code CaseNotFound = 404"
| "status_code CaseInProgress = 409"
| "status_code AnswerRequired = 409"
| "status_code (DiarizationUnavailable c) = 503"
| "status_code (Unhandled ex) = 500"

fun error_code :: "api_error \<Rightarrow> string" where
  "error_code EventNotFound = ''EVENT_NOT_FOUND''"
| "error_code Unauthorized = ''UNAUTHORIZED''"
| "error_code Forbidden = ''FORBIDDEN''"
| "error_code InvitationUnavailable = ''INVITATION_UNAVAILABLE''"
| "error_code VersionConflict = ''VERSION_CONFLICT''"
| "error_code IdempotencyConflict = ''IDEMPOTENCY_CONFLICT''"
| "error_code IdempotencyInProgress = ''IDEMPOTENCY_IN_PROGRESS''"
| "error_code ExpenseNotFound = ''EXPENSE_NOT_FOUND''"
| "error_code ReceiptImportNotFound = ''RECEIPT_IMPORT_NOT_FOUND''"
| "error_code ImportNotReady = ''IMPORT_NOT_READY''"
| "error_code StepNotFound = ''STEP_NOT_FOUND''"
| "error_code ActionNotFound = ''ACTION_NOT_FOUND''"
| "error_code NotEditable = ''NOT_EDITABLE''"
| "error_code (ValidationFailed fs) = ''VALIDATION_FAILED''"
| "error_code AIUnavailable = ''AI_UNAVAILABLE''"
| "error_code AIMisconfigured = ''AI_MISCONFIGURED''"
| "error_code PlanningStateConflict = ''PLANNING_STATE_CONFLICT''"
| "error_code EventNotPlanning = ''EVENT_NOT_PLANNING''"
| "error_code PlanNotGenerated = ''PLAN_NOT_GENERATED''"
| "error_code EventNotOnGoing = ''EVENT_NOT_ON_GOING''"
| "error_code (PlanIncomplete fs) = ''PLAN_INCOMPLETE''"
| "error_code AlreadyResolved = ''ALREADY_RESOLVED''"
| "error_code StepAlreadyCompleted = ''STEP_ALREADY_COMPLETED''"
| "error_code EventIncomplete = ''EVENT_INCOMPLETE''"
| "error_code EventCancelNotAllowed = ''EVENT_CANCEL_NOT_ALLOWED''"
| "error_code CancelTaskNotFound = ''CANCEL_TASK_NOT_FOUND''"
| "error_code CancelTaskOutOfOrder = ''CANCEL_TASK_OUT_OF_ORDER''"
| "error_code DraftNotAllowed = ''DRAFT_NOT_ALLOWED''"
| "error_code AgentJobNotFound = ''AGENT_JOB_NOT_FOUND''"
| "error_code TaskSuggestionNotFound = ''TASK_SUGGESTION_NOT_FOUND''"
| "error_code TaskSuggestionNotProposed = ''TASK_SUGGESTION_NOT_PROPOSED''"
| "error_code TaskSuggestionStale = ''TASK_SUGGESTION_STALE''"
| "error_code ConfirmedTaskNotFound = ''CONFIRMED_TASK_NOT_FOUND''"
| "error_code ReminderDispatchInProgress = ''REMINDER_DISPATCH_IN_PROGRESS''"
| "error_code ConfirmedTaskCancelled = ''CONFIRMED_TASK_CANCELLED''"
| "error_code PushNotConfigured = ''PUSH_NOT_CONFIGURED''"
| "error_code PushSubscriptionNotFound = ''PUSH_SUBSCRIPTION_NOT_FOUND''"
| "error_code PushSubscriptionConflict = ''PUSH_SUBSCRIPTION_CONFLICT''"
| "error_code PushNoSubscription = ''PUSH_NO_SUBSCRIPTION''"
| "error_code RecordNotFound = ''RECORD_NOT_FOUND''"
| "error_code MeetingNotFound = ''MEETING_NOT_FOUND''"
| "error_code MeetingNotRecording = ''MEETING_NOT_RECORDING''"
| "error_code ChunkConflict = ''CHUNK_CONFLICT''"
| "error_code AudioStreamActive = ''AUDIO_STREAM_ACTIVE''"
| "error_code HttpAudioNotImplemented = ''HTTP_AUDIO_NOT_IMPLEMENTED''"
| "error_code ReviewConflict = ''MEETING_REVIEW_CONFLICT''"
| "error_code CaseNotFound = ''OPERATION_CASE_NOT_FOUND''"
| "error_code CaseInProgress = ''OPERATION_IN_PROGRESS''"
| "error_code AnswerRequired = ''OPERATION_ANSWER_REQUIRED''"
| "error_code (DiarizationUnavailable c) = c"
| "error_code (Unhandled ex) = ''INTERNAL_ERROR''"

text \<open>\<open>ApiError.body\<close>: the code, and the field names when the error carries \<open>fields\<close>.\<close>

fun error_fields :: "api_error \<Rightarrow> string list option" where
  "error_fields (ValidationFailed fs) = Some fs"
| "error_fields (PlanIncomplete fs) = Some fs"
| "error_fields e = None"

definition body :: "api_error \<Rightarrow> string \<times> string list option" where
  "body e = (error_code e, error_fields e)"

lemma status_code_error: "400 \<le> status_code e \<and> status_code e < 600"
  by (cases e) simp_all

section \<open>Failures of the AI module\<close>

text \<open>
  The exceptions an AI call can end with: the hierarchy of \<open>app/ai/errors.py\<close>, pydantic's
  \<open>ValidationError\<close>, and any other exception. \<open>isinstance\<close> follows the class hierarchy.
\<close>

datatype ai_exn = AIError | AIConfigError | AIEmptyRecordError | AIRetryableError | AITimeoutError
  | AIInvalidResponseError | AIOutputLimitError | PydanticValidationError | OtherException

definition is_invalid_response :: "ai_exn \<Rightarrow> bool" where
  "is_invalid_response e \<longleftrightarrow> e \<in> {AIInvalidResponseError, AIOutputLimitError}"

definition is_retryable :: "ai_exn \<Rightarrow> bool" where
  "is_retryable e \<longleftrightarrow> e \<in> {AIRetryableError, AITimeoutError, AIInvalidResponseError, AIOutputLimitError}"

definition is_ai_error :: "ai_exn \<Rightarrow> bool" where
  "is_ai_error e \<longleftrightarrow> e \<noteq> PydanticValidationError \<and> e \<noteq> OtherException"

end
