(* ===== verification/Models.thy ===== *)
theory Models
  imports Errors
begin

text \<open>
  The rows of the database (\<open>app/models\<close>) as records, one field per column, and the database as a
  record of tables. A table is the list of its rows; \<open>find_x\<close> is \<open>session.get\<close> or a select by
  primary key, \<open>put_x\<close> writes a loaded row back when the session flushes, \<open>add_x\<close> inserts one.
  The columns the server fills (\<open>created_at\<close>, \<open>modified_at\<close>) are kept where the program reads or
  writes them. Random identifiers come from \<open>rnd\<close>: the stream of \<open>nanoid\<close> results and of
  \<open>uuid4().hex\<close> values, drawn by position, with \<open>draws\<close> the number drawn so far.
  \<open>running\<close> is the process's set of background draft tasks (\<open>action_draft_service._running\<close>),
  each named by its action and attempt.
\<close>

section \<open>Rows\<close>

text \<open>\<open>Club\<close> of \<open>models/clubs.py\<close>.\<close>

record club =
  cl_id :: ident
  cl_name :: pystr
  cl_category :: "club_category option"
  cl_description :: "pystr option"

text \<open>\<open>Member\<close> of \<open>models/clubs.py\<close>.\<close>

record member =
  mb_id :: ident
  mb_club_id :: ident
  mb_account_id :: "ident option"
  mb_name :: pystr
  mb_role :: member_role
  mb_status :: member_status
  mb_student_no :: "pystr option"
  mb_phone :: "pystr option"
  mb_notify_approval_pending :: bool
  mb_notify_step_delay :: bool

text \<open>\<open>Event\<close> of \<open>models/events.py\<close>. The excluded steps are the code and the reason of each.\<close>

record event =
  ev_id :: ident
  ev_club_id :: ident
  ev_title :: pystr
  ev_status :: event_status
  ev_event_type :: "event_type option"
  ev_location :: "pystr option"
  ev_start_date :: "date option"
  ev_end_date :: "date option"
  ev_expected_headcount :: "int option"
  ev_budget_total :: "int option"
  ev_fee_per_person :: "int option"
  ev_plan_warnings :: "json option"
  ev_plan_excluded_steps :: "(string \<times> pystr option) list option"
  ev_saved_at :: "instant option"
  ev_plan_revision :: int
  ev_created_at :: instant
  ev_modified_at :: instant

text \<open>\<open>EventCancelTask\<close>.\<close>

record cancel_task =
  ct_id :: ident
  ct_event_id :: ident
  ct_task_order :: int
  ct_name :: pystr
  ct_description :: pystr
  ct_message :: "pystr option"
  ct_completed_at :: "instant option"
  ct_completed_by :: "ident option"
  ct_created_at :: instant

text \<open>\<open>Step\<close>.\<close>

record step =
  st_id :: ident
  st_event_id :: ident
  st_step_order :: int
  st_phase :: step_phase
  st_code :: step_code
  st_name :: pystr
  st_actor :: step_actor
  st_starts_at :: "instant option"
  st_deadline :: "instant option"
  st_completed_at :: "instant option"
  st_completed_by :: "ident option"
  st_version :: int

text \<open>\<open>Action\<close>.\<close>

record action =
  ac_id :: ident
  ac_event_id :: ident
  ac_step_id :: "ident option"
  ac_type :: action_type
  ac_title :: pystr
  ac_subtitle :: "pystr option"
  ac_content :: "pystr option"
  ac_content_status :: action_content_status
  ac_content_source :: "action_content_source option"
  ac_content_unknowns :: "pystr list"
  ac_draft_attempt_id :: "string option"
  ac_draft_started_at :: "instant option"
  ac_draft_error_code :: "string option"
  ac_irreversible :: bool
  ac_approve_needed :: bool
  ac_status :: action_status
  ac_version :: int
  ac_amount :: "int option"
  ac_due_date :: "date option"
  ac_payload :: "dict option"
  ac_deny_reason :: "pystr option"
  ac_resolved_at :: "instant option"
  ac_resolved_by :: "ident option"
  ac_created_at :: instant

text \<open>\<open>Conversation\<close> of \<open>models/chat.py\<close>.\<close>

record conversation =
  cv_id :: ident
  cv_member_id :: ident
  cv_event_id :: ident
  cv_title :: "pystr option"
  cv_base_revision :: int
  cv_resume_state :: "json option"
  cv_generation_readiness :: "json option"
  cv_last_record_lookup :: "json option"
  cv_record_lookup_history :: "json option"
  cv_created_at :: instant

text \<open>One action of a plan snapshot (the dictionaries of \<open>plan_review_service.snapshot_plan\<close>).\<close>

record snap_action =
  sa_type :: string
  sa_title :: pystr
  sa_amount :: "int option"
  sa_due_date :: "date option"

text \<open>One step of a plan snapshot.\<close>

record snap_step =
  ss_code :: string
  ss_starts_at :: "instant option"
  ss_deadline :: "instant option"
  ss_actions :: "snap_action list"

text \<open>One remark of an AI review.\<close>

record review_item =
  ri_step_codes :: "string list"
  ri_kind :: string
  ri_message :: pystr
  ri_suggestion :: "pystr option"

text \<open>\<open>PlanReview\<close>, one row per event.\<close>

record plan_review =
  pr_event_id :: ident
  pr_baseline :: "snap_step list"
  pr_generated_revision :: int
  pr_status :: plan_review_status
  pr_request_id :: "string option"
  pr_reviewed_revision :: "int option"
  pr_outcome :: "string option"
  pr_items :: "review_item list option"
  pr_error_code :: "string option"
  pr_requested_at :: "instant option"
  pr_finished_at :: "instant option"

text \<open>\<open>Expense\<close> of \<open>models/accounting.py\<close>.\<close>

record expense =
  ex_id :: ident
  ex_club_id :: ident
  ex_event_id :: "ident option"
  ex_spent_at :: instant
  ex_merchant :: "pystr option"
  ex_amount :: int
  ex_currency :: currency_code
  ex_category :: "pystr option"
  ex_description :: "pystr option"
  ex_source :: expense_source
  ex_receipt_record_id :: "ident option"
  ex_action_id :: "ident option"
  ex_created_by :: ident
  ex_version :: int

text \<open>\<open>ReceiptImport\<close>. The error holds its \<open>reason\<close>.\<close>

record receipt_import =
  rim_id :: ident
  rim_club_id :: ident
  rim_event_id :: "ident option"
  rim_record_id :: "ident option"
  rim_type :: receipt_import_type
  rim_status :: receipt_import_status
  rim_version :: int
  rim_job_id :: "ident option"
  rim_extraction_result :: "json option"
  rim_error :: "string option"
  rim_confirmed_by :: "ident option"
  rim_confirmed_at :: "instant option"
  rim_created_by :: ident
  rim_created_at :: instant

text \<open>\<open>ReceiptImportRow\<close>. \<open>validation_errors\<close> is the list of the keys of the dictionary.\<close>

record receipt_row =
  rr_id :: ident
  rr_import_id :: ident
  rr_row_no :: int
  rr_spent_at :: "instant option"
  rr_merchant :: "pystr option"
  rr_amount :: "int option"
  rr_currency :: currency_code
  rr_category :: "pystr option"
  rr_description :: "pystr option"
  rr_raw_fields :: "(pystr \<times> json) list option"
  rr_draft_fields :: "dict option"
  rr_validation_errors :: "string list option"
  rr_confirmed_expense_id :: "ident option"

text \<open>\<open>AgentJob\<close> of \<open>models/agent.py\<close>.\<close>

record agent_job =
  jb_id :: ident
  jb_club_id :: ident
  jb_kind :: agent_job_kind
  jb_status :: agent_job_status
  jb_stage :: "agent_job_stage option"
  jb_result :: "dict option"
  jb_error :: "dict option"
  jb_started_at :: "instant option"
  jb_finished_at :: "instant option"
  jb_created_by :: "ident option"

text \<open>\<open>ActivityEvent\<close>; the identity column is the position in the table.\<close>

record activity_event =
  ae_club_id :: ident
  ae_job_id :: "ident option"
  ae_kind :: agent_job_kind
  ae_status :: agent_job_status
  ae_stage :: "agent_job_stage option"

text \<open>\<open>Record\<close> of \<open>models/records.py\<close>.\<close>

record record_row =
  rc_id :: ident
  rc_club_id :: ident
  rc_event_id :: "ident option"
  rc_file_name :: pystr
  rc_file_type :: record_file_type
  rc_category :: record_category
  rc_storage_key :: pystr
  rc_size :: nat
  rc_parse_status :: record_parse_status
  rc_parse_result :: "dict option"
  rc_parse_error :: "dict option"
  rc_index_error :: "dict option"
  rc_created_at :: instant

section \<open>The database\<close>

record db =
  clubs :: "club list"
  members :: "member list"
  events :: "event list"
  cancel_tasks :: "cancel_task list"
  steps :: "step list"
  actions :: "action list"
  conversations :: "conversation list"
  plan_reviews :: "plan_review list"
  expenses :: "expense list"
  receipt_imports :: "receipt_import list"
  receipt_rows :: "receipt_row list"
  agent_jobs :: "agent_job list"
  activity_events :: "activity_event list"
  records :: "record_row list"
  running :: "(ident \<times> string) list"
  draws :: nat

definition empty_db :: db where
  "empty_db = \<lparr>clubs = [], members = [], events = [], cancel_tasks = [], steps = [],
     actions = [], conversations = [], plan_reviews = [], expenses = [],
     receipt_imports = [], receipt_rows = [], agent_jobs = [], activity_events = [], records = [],
     running = [], draws = 0\<rparr>"

record rnd =
  nanoid :: "nat \<Rightarrow> string"
  uuid4_hex :: "nat \<Rightarrow> string"

text \<open>\<open>new_id(prefix)\<close> of \<open>app/db/base.py\<close>, at the current draw.\<close>

definition new_id :: "rnd \<Rightarrow> db \<Rightarrow> string \<Rightarrow> ident" where
  "new_id g d prefix = prefix @ ''_'' @ nanoid g (draws d)"

definition drawn :: "db \<Rightarrow> db" where
  "drawn d = d\<lparr>draws := Suc (draws d)\<rparr>"

definition find_club :: "db \<Rightarrow> ident \<Rightarrow> club option" where
  [tbl]: "find_club d i = get_row cl_id (clubs d) i"

definition put_club :: "club \<Rightarrow> db \<Rightarrow> db" where
  [tbl]: "put_club r d = d\<lparr>clubs := put_row cl_id r (clubs d)\<rparr>"

definition find_member :: "db \<Rightarrow> ident \<Rightarrow> member option" where
  [tbl]: "find_member d i = get_row mb_id (members d) i"

definition put_member :: "member \<Rightarrow> db \<Rightarrow> db" where
  [tbl]: "put_member r d = d\<lparr>members := put_row mb_id r (members d)\<rparr>"

definition find_event :: "db \<Rightarrow> ident \<Rightarrow> event option" where
  [tbl]: "find_event d i = get_row ev_id (events d) i"

definition put_event :: "event \<Rightarrow> db \<Rightarrow> db" where
  [tbl]: "put_event r d = d\<lparr>events := put_row ev_id r (events d)\<rparr>"

definition find_cancel_task :: "db \<Rightarrow> ident \<Rightarrow> cancel_task option" where
  [tbl]: "find_cancel_task d i = get_row ct_id (cancel_tasks d) i"

definition put_cancel_task :: "cancel_task \<Rightarrow> db \<Rightarrow> db" where
  [tbl]: "put_cancel_task r d = d\<lparr>cancel_tasks := put_row ct_id r (cancel_tasks d)\<rparr>"

definition find_step :: "db \<Rightarrow> ident \<Rightarrow> step option" where
  [tbl]: "find_step d i = get_row st_id (steps d) i"

definition put_step :: "step \<Rightarrow> db \<Rightarrow> db" where
  [tbl]: "put_step r d = d\<lparr>steps := put_row st_id r (steps d)\<rparr>"

definition find_action :: "db \<Rightarrow> ident \<Rightarrow> action option" where
  [tbl]: "find_action d i = get_row ac_id (actions d) i"

definition put_action :: "action \<Rightarrow> db \<Rightarrow> db" where
  [tbl]: "put_action r d = d\<lparr>actions := put_row ac_id r (actions d)\<rparr>"

definition find_conversation :: "db \<Rightarrow> ident \<Rightarrow> conversation option" where
  [tbl]: "find_conversation d i = get_row cv_id (conversations d) i"

definition put_conversation :: "conversation \<Rightarrow> db \<Rightarrow> db" where
  [tbl]: "put_conversation r d = d\<lparr>conversations := put_row cv_id r (conversations d)\<rparr>"

definition find_plan_review :: "db \<Rightarrow> ident \<Rightarrow> plan_review option" where
  [tbl]: "find_plan_review d i = get_row pr_event_id (plan_reviews d) i"

definition put_plan_review :: "plan_review \<Rightarrow> db \<Rightarrow> db" where
  [tbl]: "put_plan_review r d = d\<lparr>plan_reviews := put_row pr_event_id r (plan_reviews d)\<rparr>"

definition find_expense :: "db \<Rightarrow> ident \<Rightarrow> expense option" where
  [tbl]: "find_expense d i = get_row ex_id (expenses d) i"

definition put_expense :: "expense \<Rightarrow> db \<Rightarrow> db" where
  [tbl]: "put_expense r d = d\<lparr>expenses := put_row ex_id r (expenses d)\<rparr>"

definition find_receipt_import :: "db \<Rightarrow> ident \<Rightarrow> receipt_import option" where
  [tbl]: "find_receipt_import d i = get_row rim_id (receipt_imports d) i"

definition put_receipt_import :: "receipt_import \<Rightarrow> db \<Rightarrow> db" where
  [tbl]: "put_receipt_import r d = d\<lparr>receipt_imports := put_row rim_id r (receipt_imports d)\<rparr>"

definition find_receipt_row :: "db \<Rightarrow> ident \<Rightarrow> receipt_row option" where
  [tbl]: "find_receipt_row d i = get_row rr_id (receipt_rows d) i"

definition put_receipt_row :: "receipt_row \<Rightarrow> db \<Rightarrow> db" where
  [tbl]: "put_receipt_row r d = d\<lparr>receipt_rows := put_row rr_id r (receipt_rows d)\<rparr>"

definition find_agent_job :: "db \<Rightarrow> ident \<Rightarrow> agent_job option" where
  [tbl]: "find_agent_job d i = get_row jb_id (agent_jobs d) i"

definition put_agent_job :: "agent_job \<Rightarrow> db \<Rightarrow> db" where
  [tbl]: "put_agent_job r d = d\<lparr>agent_jobs := put_row jb_id r (agent_jobs d)\<rparr>"

definition find_record :: "db \<Rightarrow> ident \<Rightarrow> record_row option" where
  [tbl]: "find_record d i = get_row rc_id (records d) i"

definition put_record :: "record_row \<Rightarrow> db \<Rightarrow> db" where
  [tbl]: "put_record r d = d\<lparr>records := put_row rc_id r (records d)\<rparr>"

section \<open>Constraints\<close>

text \<open>
  Inserting a row whose primary key is taken raises \<open>IntegrityError\<close>. Every error of the driver
  is an unhandled exception for the services: the request answers 500 and nothing is committed.
\<close>

definition insert_row :: "('r \<Rightarrow> ident) \<Rightarrow> 'r \<Rightarrow> 'r list \<Rightarrow> api_error + 'r list" where
  "insert_row key r rows =
     (if key r \<in> key ` set rows then Inl (Unhandled ''IntegrityError'') else Inr (rows @ [r]))"

text \<open>An \<open>Integer\<close> column holds 32 bits, a \<open>String(n)\<close> column at most \<open>n\<close> characters.\<close>

definition fits_int4 :: "int option \<Rightarrow> bool" where
  "fits_int4 v = (case v of None \<Rightarrow> True | Some n \<Rightarrow> - 2147483648 \<le> n \<and> n \<le> 2147483647)"

definition fits_varchar :: "nat \<Rightarrow> pystr option \<Rightarrow> bool" where
  "fits_varchar n v = (case v of None \<Rightarrow> True | Some s \<Rightarrow> length s \<le> n)"

lemma insert_row_Inr:
  "insert_row key r rows = Inr rows' \<longleftrightarrow> key r \<notin> key ` set rows \<and> rows' = rows @ [r]"
  by (auto simp: insert_row_def)

lemma insert_row_distinct:
  "insert_row key r rows = Inr rows' \<Longrightarrow> distinct (map key rows) \<Longrightarrow> distinct (map key rows')"
  by (auto simp: insert_row_Inr)

lemma insert_row_get:
  assumes "insert_row key r rows = Inr rows'"
  shows "get_row key rows' i = (if i = key r then Some r else get_row key rows i)"
proof -
  from assms have rows': "rows' = rows @ [r]" and none: "get_row key rows (key r) = None"
    by (simp_all add: insert_row_Inr get_row_None_iff)
  show ?thesis by (cases "get_row key rows i") (auto simp: rows' none get_row_append)
qed

text \<open>\<open>offset((page - 1) * size).limit(size)\<close>, for the \<open>page\<close> and \<open>size\<close> of at least 1 the routers admit.\<close>

definition paginate :: "int \<Rightarrow> int \<Rightarrow> 'a list \<Rightarrow> 'a list" where
  "paginate page sz rows = take (nat sz) (drop (nat ((page - 1) * sz)) rows)"

section \<open>The tables are row stores\<close>

interpretation club_table: row_store cl_id find_club put_club
  by unfold_locales (auto simp: tbl get_put_row dest: get_row_key)

interpretation member_table: row_store mb_id find_member put_member
  by unfold_locales (auto simp: tbl get_put_row dest: get_row_key)

interpretation event_table: row_store ev_id find_event put_event
  by unfold_locales (auto simp: tbl get_put_row dest: get_row_key)

interpretation cancel_task_table: row_store ct_id find_cancel_task put_cancel_task
  by unfold_locales (auto simp: tbl get_put_row dest: get_row_key)

interpretation step_table: row_store st_id find_step put_step
  by unfold_locales (auto simp: tbl get_put_row dest: get_row_key)

interpretation action_table: row_store ac_id find_action put_action
  by unfold_locales (auto simp: tbl get_put_row dest: get_row_key)

interpretation conversation_table: row_store cv_id find_conversation put_conversation
  by unfold_locales (auto simp: tbl get_put_row dest: get_row_key)

interpretation plan_review_table: row_store pr_event_id find_plan_review put_plan_review
  by unfold_locales (auto simp: tbl get_put_row dest: get_row_key)

interpretation expense_table: row_store ex_id find_expense put_expense
  by unfold_locales (auto simp: tbl get_put_row dest: get_row_key)

interpretation receipt_import_table: row_store rim_id find_receipt_import put_receipt_import
  by unfold_locales (auto simp: tbl get_put_row dest: get_row_key)

interpretation receipt_row_table: row_store rr_id find_receipt_row put_receipt_row
  by unfold_locales (auto simp: tbl get_put_row dest: get_row_key)

interpretation agent_job_table: row_store jb_id find_agent_job put_agent_job
  by unfold_locales (auto simp: tbl get_put_row dest: get_row_key)

interpretation record_table: row_store rc_id find_record put_record
  by unfold_locales (auto simp: tbl get_put_row dest: get_row_key)

lemmas table_get_put =
  club_table.get_put_same
  member_table.get_put_same
  event_table.get_put_same
  cancel_task_table.get_put_same
  step_table.get_put_same
  action_table.get_put_same
  conversation_table.get_put_same
  plan_review_table.get_put_same
  expense_table.get_put_same
  receipt_import_table.get_put_same
  receipt_row_table.get_put_same
  agent_job_table.get_put_same
  record_table.get_put_same

section \<open>Queries several services share\<close>

text \<open>\<open>select(Step).where(Step.event_id == event_id).order_by(Step.step_order)\<close>\<close>

definition ordered_steps :: "db \<Rightarrow> ident \<Rightarrow> step list" where
  "ordered_steps d eid = sort_key st_step_order (filter (\<lambda>s. st_event_id s = eid) (steps d))"

text \<open>The statuses an action waits in before it is executed or dropped.\<close>

definition open_status :: "action_status \<Rightarrow> bool" where
  "open_status s \<longleftrightarrow> s = PENDING \<or> s = APPROVED"

text \<open>The actions of a step.\<close>

definition step_actions :: "db \<Rightarrow> ident \<Rightarrow> action list" where
  "step_actions d sid = filter (\<lambda>a. ac_step_id a = Some sid) (actions d)"

text \<open>
  The latest conversation of an event:
  \<open>order_by(Conversation.created_at.desc()).limit(1)\<close>.
\<close>

definition latest_conversation :: "db \<Rightarrow> ident \<Rightarrow> conversation option" where
  "latest_conversation d eid =
     (case sort_key (\<lambda>c. - cv_created_at c) (filter (\<lambda>c. cv_event_id c = eid) (conversations d)) of
        [] \<Rightarrow> None | c # _ \<Rightarrow> Some c)"

lemma latest_conversation_SomeD:
  assumes "latest_conversation d eid = Some c"
  shows "c \<in> set (conversations d)" and "cv_event_id c = eid"
proof -
  let ?xs = "filter (\<lambda>c. cv_event_id c = eid) (conversations d)"
  obtain cs where eq: "sort_key (\<lambda>c. - cv_created_at c) ?xs = c # cs"
    using assms by (auto simp: latest_conversation_def split: list.splits)
  have "c \<in> set (sort_key (\<lambda>c. - cv_created_at c) ?xs)"
    unfolding eq by simp
  then show "c \<in> set (conversations d)" and "cv_event_id c = eid" by auto
qed

lemma set_ordered_steps: "set (ordered_steps d eid) = {s \<in> set (steps d). st_event_id s = eid}"
  by (auto simp: ordered_steps_def)

end
