(* ===== verification/Event_Rules.thy ===== *)
theory Event_Rules
  imports Models
begin

text \<open>
  The deterministic rules of the event domain, \<open>app/services/event_rules.py\<close>: pure functions that
  the services and the routers use as they are. The lemmas say how the rules partition the states
  of an action, when two of them exclude each other, and what the progress states of a list of
  steps look like.
\<close>

section \<open>Rules on actions\<close>

text \<open>Actions with an outside effect that cannot be undone.\<close>

definition IRREVERSIBLE_AND_APPROVAL :: "action_type list" where
  "IRREVERSIBLE_AND_APPROVAL = [EXTERNAL_SEND, TRANSFER, EXPENSE, CONTRACT]"

definition APPROVAL_ONLY :: "action_type list" where
  "APPROVAL_ONLY = [NOTICE]"

text \<open>The pair \<open>(irreversible, approve_needed)\<close>.\<close>

definition action_defaults :: "action_type \<Rightarrow> bool \<times> bool" where
  "action_defaults t =
     (if t \<in> set IRREVERSIBLE_AND_APPROVAL then (True, True)
      else if t \<in> set APPROVAL_ONLY then (False, True)
      else (False, False))"

definition RESOLVER_ROLES :: "member_role list" where
  "RESOLVER_ROLES = SERVICE_ROLES"

definition can_resolve :: "member_role \<Rightarrow> action_status \<Rightarrow> bool" where
  "can_resolve role status \<longleftrightarrow> role \<in> set RESOLVER_ROLES \<and> status = PENDING"

definition is_operating :: "event_status \<Rightarrow> bool" where
  "is_operating s \<longleftrightarrow> s = ON_GOING"

definition is_confirmation :: "action_type \<Rightarrow> bool" where
  "is_confirmation t \<longleftrightarrow> t = CONFIRMATION"

definition can_approve ::
  "member_role \<Rightarrow> action_status \<Rightarrow> action_type \<Rightarrow> bool \<Rightarrow> event_status \<Rightarrow> bool" where
  "can_approve role status t approve_needed es \<longleftrightarrow>
     can_resolve role status \<and> is_operating es \<and> (is_confirmation t \<or> approve_needed)"

definition can_mark_done :: "action_status \<Rightarrow> bool \<Rightarrow> bool" where
  "can_mark_done status approve_needed =
     (if status = APPROVED then True else status = PENDING \<and> \<not> approve_needed)"

definition is_step_done :: "action_status list \<Rightarrow> bool" where
  "is_step_done ss \<longleftrightarrow> ss \<noteq> [] \<and> list_all (\<lambda>s. s = DONE) ss"

definition is_editable :: "action_status \<Rightarrow> bool" where
  "is_editable status \<longleftrightarrow> status \<in> {PENDING, APPROVED}"

definition records_expense :: "action_type \<Rightarrow> int option \<Rightarrow> bool" where
  "records_expense t amount \<longleftrightarrow>
     t = TRANSFER \<and> (case amount of None \<Rightarrow> False | Some n \<Rightarrow> 0 < n)"

definition is_step_editable :: "instant option \<Rightarrow> bool" where
  "is_step_editable completed_at \<longleftrightarrow> completed_at = None"

section \<open>Rules on drafts\<close>

definition DRAFT_ACTION_TYPES :: "action_type list" where
  "DRAFT_ACTION_TYPES = [NOTICE, EXTERNAL_SEND]"

definition DRAFT_TIMEOUT :: int where
  "DRAFT_TIMEOUT = minutes 3"

definition is_draft_stale :: "action_content_status \<Rightarrow> instant option \<Rightarrow> instant \<Rightarrow> bool" where
  "is_draft_stale cs started now =
     (if cs \<noteq> Content_DRAFTING then False
      else case started of None \<Rightarrow> True | Some t \<Rightarrow> now - t \<ge> DRAFT_TIMEOUT)"

definition shown_content_status ::
  "action_content_status \<Rightarrow> instant option \<Rightarrow> instant \<Rightarrow> action_content_status" where
  "shown_content_status cs started now =
     (if is_draft_stale cs started now then Content_FAILED else cs)"

definition can_request_draft ::
  "event_status \<Rightarrow> action_status \<Rightarrow> action_type \<Rightarrow> action_content_status
     \<Rightarrow> action_content_source option \<Rightarrow> instant option \<Rightarrow> instant \<Rightarrow> bool" where
  "can_request_draft es status t cs source started now =
     (if cs = Content_NONE then False
      else if cs = Content_DRAFTING \<and> \<not> is_draft_stale cs started now then False
      else is_operating es \<and> status = PENDING \<and> t \<in> set DRAFT_ACTION_TYPES
           \<and> source \<noteq> Some Source_USER)"

section \<open>Progress of the steps\<close>

text \<open>
  The loop over the steps in \<open>step_order\<close>, with \<open>reached_current\<close> threaded through. The result is
  the dictionary in insertion order.
\<close>

fun step_states_loop :: "bool \<Rightarrow> step list \<Rightarrow> (ident \<times> step_state) list" where
  "step_states_loop reached [] = []"
| "step_states_loop reached (s # ss) =
     (if reached then (st_id s, Step_TODO) # step_states_loop reached ss
      else if st_completed_at s = None then (st_id s, Step_CURRENT) # step_states_loop True ss
      else (st_id s, Step_DONE) # step_states_loop reached ss)"

definition step_states :: "step list \<Rightarrow> event_status \<Rightarrow> (ident \<times> step_state) list" where
  "step_states ss es =
     (if es = PLANNING then map (\<lambda>s. (st_id s, Step_TODO)) ss else step_states_loop False ss)"

definition dday :: "date option \<Rightarrow> date \<Rightarrow> int option" where
  "dday start today = map_option (\<lambda>d. d - today) start"

text \<open>\<open>next((s for s in steps if states[s.id] == StepState.CURRENT), None)\<close>\<close>

definition current_step :: "step list \<Rightarrow> (ident \<times> step_state) list \<Rightarrow> step option" where
  "current_step ss states = find (\<lambda>s. map_of states (st_id s) = Some Step_CURRENT) ss"

section \<open>Lemmas\<close>

lemmas rule_defs = can_resolve_def is_operating_def is_confirmation_def can_approve_def
  can_mark_done_def is_editable_def open_status_def

lemma irreversible_needs_approval: "fst (action_defaults t) \<Longrightarrow> snd (action_defaults t)"
  by (simp add: action_defaults_def split: if_splits)

lemma action_defaults_approval: "snd (action_defaults t) \<longleftrightarrow> t \<noteq> CONFIRMATION"
  by (cases t) (simp_all add: action_defaults_def IRREVERSIBLE_AND_APPROVAL_def APPROVAL_ONLY_def)

lemma can_mark_done_open: "can_mark_done s n \<Longrightarrow> open_status s"
  by (auto simp: rule_defs split: if_splits)

lemma can_mark_done_approval: "can_mark_done s True \<longleftrightarrow> s = APPROVED"
  by (auto simp: rule_defs)

lemma is_editable_open: "is_editable s \<longleftrightarrow> open_status s"
  by (auto simp: rule_defs)

lemma records_expenseD: "records_expense t amount \<Longrightarrow> t = TRANSFER \<and> (\<exists>n. amount = Some n \<and> 0 < n)"
  by (auto simp: records_expense_def split: option.splits)

text \<open>A shown draft status is stale exactly when the stored one hangs; then it can be retried.\<close>

lemma shown_content_status_DRAFTING:
  "shown_content_status cs st now = Content_DRAFTING \<longleftrightarrow> cs = Content_DRAFTING \<and> \<not> is_draft_stale cs st now"
  by (auto simp: shown_content_status_def is_draft_stale_def)

lemma is_draft_stale_mono:
  "is_draft_stale cs st now \<Longrightarrow> now \<le> now' \<Longrightarrow> is_draft_stale cs st now'"
  by (auto simp: is_draft_stale_def split: option.splits if_splits)

lemma can_request_draft_iff:
  "can_request_draft es s t cs src st now \<longleftrightarrow>
     is_operating es \<and> s = PENDING \<and> t \<in> set DRAFT_ACTION_TYPES \<and> src \<noteq> Some Source_USER \<and>
     cs \<noteq> Content_NONE \<and> shown_content_status cs st now \<noteq> Content_DRAFTING"
  by (auto simp: can_request_draft_def shown_content_status_DRAFTING)

text \<open>The keys of the progress dictionary are the step ids, in order.\<close>

lemma step_states_loop_keys: "map fst (step_states_loop r ss) = map st_id ss"
  by (induction r ss rule: step_states_loop.induct) auto

lemma step_states_keys: "map fst (step_states ss es) = map st_id ss"
  by (simp add: step_states_def step_states_loop_keys comp_def)

lemma step_states_loop_True: "step_states_loop True ss = map (\<lambda>s. (st_id s, Step_TODO)) ss"
  by (induction ss) auto

text \<open>The loop in one line: the completed prefix is done, the next one current, the rest to do.\<close>

lemma step_states_loop_False:
  "step_states_loop False ss =
     (let done = takeWhile (\<lambda>s. st_completed_at s \<noteq> None) ss;
          rest = dropWhile (\<lambda>s. st_completed_at s \<noteq> None) ss
      in map (\<lambda>s. (st_id s, Step_DONE)) done @
         (case rest of [] \<Rightarrow> []
          | s # todo \<Rightarrow> (st_id s, Step_CURRENT) # map (\<lambda>s. (st_id s, Step_TODO)) todo))"
  by (induction ss) (auto simp: step_states_loop_True Let_def)

lemma map_of_todo: "map_of (map (\<lambda>s. (st_id s, Step_TODO)) ss) i \<noteq> Some Step_CURRENT"
  by (induction ss) auto

text \<open>The current step is the first one that is not complete, once the event has started.\<close>

lemma current_step_eq:
  assumes "distinct (map st_id ss)"
  shows "current_step ss (step_states ss es) =
           (if es = PLANNING then None else find (\<lambda>s. st_completed_at s = None) ss)"
proof (cases "es = PLANNING")
  case True
  then show ?thesis
    by (auto simp: current_step_def step_states_def map_of_todo find_None_iff)
next
  case False
  have "find (\<lambda>s. map_of (step_states_loop False ss) (st_id s) = Some Step_CURRENT) ss
          = find (\<lambda>s. st_completed_at s = None) ss"
    using assms
  proof (induction ss)
    case Nil
    then show ?case by simp
  next
    case (Cons s ss)
    show ?case
    proof (cases "st_completed_at s = None")
      case True
      then show ?thesis by simp
    next
      case notNone: False
      then obtain c where c: "st_completed_at s = Some c" by auto
      then have "find (\<lambda>x. map_of (step_states_loop False (s # ss)) (st_id x) = Some Step_CURRENT) (s # ss)
            = find (\<lambda>x. map_of (step_states_loop False (s # ss)) (st_id x) = Some Step_CURRENT) ss"
        by simp
      also have "\<dots> = find (\<lambda>x. map_of (step_states_loop False ss) (st_id x) = Some Step_CURRENT) ss"
        using Cons.prems c by (intro find_cong) (auto simp: rev_image_eqI)
      also have "\<dots> = find (\<lambda>x. st_completed_at x = None) ss"
        using Cons by simp
      finally show ?thesis using c by simp
    qed
  qed
  with False show ?thesis by (simp add: current_step_def step_states_def)
qed

end
