(* ===== verification/Action_Draft.thy ===== *)
theory Action_Draft
  imports Event_Rules
begin

text \<open>
  Body drafts of notice and send actions, \<open>app/services/action_draft_service.py\<close>. A request marks an
  action as being drafted under a fresh attempt id, commits, and starts a background task; the task
  reads its input, calls the model without a transaction, and stores the outcome only if the attempt
  is still the latest and nobody has touched the action in between. The model call is a parameter,
  \<open>draft_action_content\<close>. A task in flight is an element of \<open>running\<close>; one that is lost with the
  process leaves the mark behind, which the three-minute rule of \<open>event_rules\<close> covers.
\<close>

section \<open>Starting drafts\<close>

definition spawn_draft :: "ident \<Rightarrow> string \<Rightarrow> db \<Rightarrow> db" where
  "spawn_draft aid att d = d\<lparr>running := running d @ [(aid, att)]\<rparr>"

text \<open>\<open>_forget\<close>, the callback when a task ends.\<close>

definition forget :: "ident \<Rightarrow> string \<Rightarrow> db \<Rightarrow> db" where
  "forget aid att d = d\<lparr>running := remove1 (aid, att) (running d)\<rparr>"

definition mark_drafting :: "string \<Rightarrow> instant \<Rightarrow> action \<Rightarrow> action" where
  "mark_drafting att now a =
     a\<lparr>ac_content_status := Content_DRAFTING, ac_draft_attempt_id := Some att,
       ac_draft_started_at := Some now, ac_draft_error_code := None\<rparr>"

text \<open>
  The actions of the current step that get a first draft, in creation order. A null body counts as
  blank (\<open>coalesce(btrim(content), '') = ''\<close>).
\<close>

definition needs_draft :: "ident \<Rightarrow> action \<Rightarrow> bool" where
  "needs_draft sid a \<longleftrightarrow> ac_step_id a = Some sid \<and> ac_type a \<in> set DRAFT_ACTION_TYPES \<and>
     ac_status a = PENDING \<and> ac_content_status a = Content_NONE \<and>
     (case ac_content a of None \<Rightarrow> True | Some s \<Rightarrow> pg_btrim s = [])"

definition draft_candidates :: "db \<Rightarrow> ident \<Rightarrow> action list" where
  "draft_candidates d sid = sort_key (\<lambda>a. (ac_created_at a, ac_id a)) (filter (needs_draft sid) (actions d))"

fun mark_all :: "rnd \<Rightarrow> instant \<Rightarrow> action list \<Rightarrow> db \<Rightarrow> db \<times> (ident \<times> string) list" where
  "mark_all g now [] d = (d, [])"
| "mark_all g now (a # as) d =
     (let att = uuid4_hex g (draws d);
          (d', started) = mark_all g now as (put_action (mark_drafting att now a) (drawn d))
      in (d', (ac_id a, att) # started))"

text \<open>\<open>_mark_current_step\<close>: nothing unless the event is operating and has a current step.\<close>

definition mark_current_step ::
  "rnd \<Rightarrow> instant \<Rightarrow> ident \<Rightarrow> db \<Rightarrow> db \<times> (ident \<times> string) list" where
  "mark_current_step g now eid d =
     (case find_event d eid of
        None \<Rightarrow> (d, [])
      | Some e \<Rightarrow>
          if \<not> is_operating (ev_status e) then (d, [])
          else let ss = ordered_steps d eid in
            (case current_step ss (step_states ss (ev_status e)) of
               None \<Rightarrow> (d, [])
             | Some cur \<Rightarrow> mark_all g now (draft_candidates d (st_id cur)) d))"

text \<open>\<open>request_current_step_drafts\<close>: mark, commit, then start one task per marked action.\<close>

definition request_current_step_drafts :: "rnd \<Rightarrow> instant \<Rightarrow> ident \<Rightarrow> db \<Rightarrow> db" where
  "request_current_step_drafts g now eid d =
     (case mark_current_step g now eid d of
        (d', started) \<Rightarrow> fold (\<lambda>(aid, att). spawn_draft aid att) started d')"

section \<open>Asking for a draft again\<close>

definition request_redraft :: "rnd \<Rightarrow> instant \<Rightarrow> ident \<Rightarrow> int \<Rightarrow> db \<Rightarrow> api_error + db" where
  "request_redraft g now aid expected d =
     (case find_action d aid of
        None \<Rightarrow> Inl ActionNotFound
      | Some a \<Rightarrow>
        (case find_event d (ac_event_id a) of
           None \<Rightarrow> Inl ActionNotFound
         | Some e \<Rightarrow>
             if \<not> can_request_draft (ev_status e) (ac_status a) (ac_type a) (ac_content_status a)
                   (ac_content_source a) (ac_draft_started_at a) now
             then Inl DraftNotAllowed
             else if ac_version a \<noteq> expected then Inl VersionConflict
             else let att = uuid4_hex g (draws d);
                      a' = (mark_drafting att now a)
                             \<lparr>ac_content := None, ac_content_source := None,
                              ac_content_unknowns := [], ac_version := ac_version a + 1\<rparr>
                  in Inr (spawn_draft aid att (put_action a' (drawn d)))))"

section \<open>The background task\<close>

text \<open>
  \<open>kst_date\<close>: the calendar day in Seoul. Korea has kept UTC+9 without daylight saving since October
  1988, so the offset is fixed for every instant the program meets.
\<close>

definition kst_date :: "instant option \<Rightarrow> date option" where
  "kst_date v = map_option (\<lambda>t. (t + seconds 32400) div seconds 86400 + 719163) v"

text \<open>\<open>event_service.today_kst\<close>\<close>

definition today_kst :: "instant \<Rightarrow> date" where
  "today_kst now = the (kst_date (Some now))"

record draft_request =
  dq_club_name :: pystr
  dq_title :: pystr
  dq_event_type :: "event_type option"
  dq_start_date :: "date option"
  dq_end_date :: "date option"
  dq_location :: "pystr option"
  dq_expected_headcount :: "int option"
  dq_fee_per_person :: "int option"
  dq_step_code :: step_code
  dq_step_name :: pystr
  dq_starts_on :: "date option"
  dq_deadline :: "date option"
  dq_action_type :: action_type
  dq_action_title :: pystr
  dq_due_date :: "date option"
  dq_amount :: "int option"
  dq_today :: date

definition build_request :: "action \<Rightarrow> event \<Rightarrow> club \<Rightarrow> step \<Rightarrow> date \<Rightarrow> draft_request" where
  "build_request a e c s today =
     \<lparr>dq_club_name = cl_name c, dq_title = ev_title e, dq_event_type = ev_event_type e,
      dq_start_date = ev_start_date e, dq_end_date = ev_end_date e, dq_location = ev_location e,
      dq_expected_headcount = ev_expected_headcount e, dq_fee_per_person = ev_fee_per_person e,
      dq_step_code = st_code s, dq_step_name = st_name s, dq_starts_on = kst_date (st_starts_at s),
      dq_deadline = kst_date (st_deadline s), dq_action_type = ac_type a,
      dq_action_title = ac_title a, dq_due_date = ac_due_date a, dq_amount = ac_amount a,
      dq_today = today\<rparr>"

definition draft_error_code :: "ai_exn \<Rightarrow> string" where
  "draft_error_code ex =
     (if is_invalid_response ex then ''AI_INVALID_RESPONSE''
      else if is_retryable ex then ''AI_UNAVAILABLE''
      else ''INTERNAL_ERROR'')"

text \<open>The body and the placeholders of a draft, or the code of a failure.\<close>

datatype draft_outcome = Draft_Result pystr "pystr list" | Draft_Error string

definition blank :: "pystr option \<Rightarrow> bool" where
  "blank c \<longleftrightarrow> py_strip (case c of None \<Rightarrow> [] | Some s \<Rightarrow> s) = []"

text \<open>The storing conditions of \<open>_finish\<close>.\<close>

definition writable :: "event \<Rightarrow> action \<Rightarrow> bool" where
  "writable e a \<longleftrightarrow> is_operating (ev_status e) \<and> ac_status a = PENDING \<and>
     (blank (ac_content a) \<or> ac_content_source a = Some Source_AI)"

definition store_outcome :: "draft_outcome \<Rightarrow> action \<Rightarrow> action" where
  "store_outcome oc a =
     (case oc of
        Draft_Result content unknowns \<Rightarrow>
          a\<lparr>ac_content := Some content, ac_content_source := Some Source_AI,
            ac_content_unknowns := unknowns, ac_content_status := Content_READY,
            ac_draft_error_code := None, ac_version := ac_version a + 1\<rparr>
      | Draft_Error code \<Rightarrow>
          a\<lparr>ac_content_status := Content_FAILED, ac_draft_error_code := Some code\<rparr>)"

definition finish :: "ident \<Rightarrow> string \<Rightarrow> draft_outcome \<Rightarrow> db \<Rightarrow> db" where
  "finish aid att oc d =
     (case find_action d aid of
        None \<Rightarrow> d
      | Some a \<Rightarrow>
        (case find_event d (ac_event_id a) of
           None \<Rightarrow> d
         | Some e \<Rightarrow>
             if ac_draft_attempt_id a \<noteq> Some att then d
             else if \<not> writable e a then
               (if ac_content_status a = Content_DRAFTING
                then put_action (a\<lparr>ac_content_status := Content_NONE\<rparr>) d else d)
             else put_action (store_outcome oc a) d))"

text \<open>The first half of \<open>_run_draft\<close>: the request, read in a session that is closed again.\<close>

definition draft_input :: "ident \<Rightarrow> date \<Rightarrow> db \<Rightarrow> draft_request option" where
  "draft_input aid today d =
     (case find_action d aid of
        None \<Rightarrow> None
      | Some a \<Rightarrow>
        (case Option.bind (ac_step_id a) (find_step d) of
           None \<Rightarrow> None
         | Some s \<Rightarrow>
           (case find_event d (ac_event_id a) of
              None \<Rightarrow> None
            | Some e \<Rightarrow>
                map_option (\<lambda>c. build_request a e c s today) (find_club d (ev_club_id e)))))"

text \<open>What the model's answer to a request becomes.\<close>

definition draft_outcome_of ::
  "(draft_request \<Rightarrow> ai_exn + (pystr \<times> pystr list)) \<Rightarrow> draft_request \<Rightarrow> draft_outcome" where
  "draft_outcome_of ai rq =
     (case ai rq of
        Inl ex \<Rightarrow> Draft_Error (draft_error_code ex)
      | Inr (content, unknowns) \<Rightarrow> Draft_Result content unknowns)"

text \<open>
  The second half: the outcome for the input read at the start is stored in whatever state the
  database has reached since. Without an input (no action or no step) nothing is stored.
\<close>

definition run_draft ::
  "(draft_request \<Rightarrow> ai_exn + (pystr \<times> pystr list)) \<Rightarrow> draft_request option
     \<Rightarrow> ident \<Rightarrow> string \<Rightarrow> db \<Rightarrow> db" where
  "run_draft ai input aid att d =
     forget aid att (case input of None \<Rightarrow> d | Some rq \<Rightarrow> finish aid att (draft_outcome_of ai rq) d)"

section \<open>What the background machinery leaves alone\<close>

text \<open>Primary keys of actions and steps are unique (the tables' primary key constraints).\<close>

definition pk_actions :: "db \<Rightarrow> bool" where
  "pk_actions d \<longleftrightarrow> distinct (map ac_id (actions d))"

lemma pk_actions_get: "pk_actions d \<Longrightarrow> a \<in> set (actions d) \<Longrightarrow> find_action d (ac_id a) = Some a"
  by (simp add: pk_actions_def find_action_def get_row_distinct)

lemma mark_drafting_keeps [simp]:
  "ac_id (mark_drafting att now a) = ac_id a"
  "ac_event_id (mark_drafting att now a) = ac_event_id a"
  "ac_step_id (mark_drafting att now a) = ac_step_id a"
  "ac_type (mark_drafting att now a) = ac_type a"
  "ac_status (mark_drafting att now a) = ac_status a"
  "ac_version (mark_drafting att now a) = ac_version a"
  "ac_content (mark_drafting att now a) = ac_content a"
  "ac_content_source (mark_drafting att now a) = ac_content_source a"
  "ac_approve_needed (mark_drafting att now a) = ac_approve_needed a"
  "ac_amount (mark_drafting att now a) = ac_amount a"
  "ac_title (mark_drafting att now a) = ac_title a"
  by (simp_all add: mark_drafting_def)

text \<open>Marking and spawning write the action rows, the random draws and the running tasks only.\<close>

lemma mark_all_frame: "\<exists>as' n. fst (mark_all g now as d) = d\<lparr>actions := as', draws := n\<rparr>"
proof (induction as arbitrary: d)
  case Nil
  have "d = d\<lparr>actions := actions d, draws := draws d\<rparr>" by simp
  then show ?case by (metis fst_conv mark_all.simps(1))
next
  case (Cons a as)
  obtain as' n where "fst (mark_all g now as (put_action (mark_drafting (uuid4_hex g (draws d)) now a) (drawn d)))
      = (put_action (mark_drafting (uuid4_hex g (draws d)) now a) (drawn d))\<lparr>actions := as', draws := n\<rparr>"
    using Cons.IH by blast
  then show ?case by (auto simp: Let_def case_prod_unfold put_action_def drawn_def)
qed

lemma spawn_all:
  "fold (\<lambda>(aid, att). spawn_draft aid att) st d = d\<lparr>running := running d @ st\<rparr>"
  by (induction st arbitrary: d) (auto simp: spawn_draft_def)

lemma mark_current_step_frame:
  "\<exists>as' n. fst (mark_current_step g now eid d) = d\<lparr>actions := as', draws := n\<rparr>"
proof -
  have "\<exists>as' n. d = d\<lparr>actions := as', draws := n\<rparr>"
    by (rule exI [of _ "actions d"], rule exI [of _ "draws d"]) simp
  then show ?thesis
    using mark_all_frame by (simp add: mark_current_step_def Let_def split: option.split)
qed

lemma request_current_step_drafts_eq:
  "request_current_step_drafts g now eid d =
     (fst (mark_current_step g now eid d))
       \<lparr>running := running d @ snd (mark_current_step g now eid d)\<rparr>"
proof -
  obtain as' n where "fst (mark_current_step g now eid d) = d\<lparr>actions := as', draws := n\<rparr>"
    using mark_current_step_frame by blast
  then show ?thesis
    unfolding request_current_step_drafts_def
    by (cases "mark_current_step g now eid d") (simp add: spawn_all)
qed

lemma request_current_step_drafts_frame:
  "\<exists>as' rs n. request_current_step_drafts g now eid d = d\<lparr>actions := as', draws := n, running := rs\<rparr>"
proof -
  obtain as' n where "fst (mark_current_step g now eid d) = d\<lparr>actions := as', draws := n\<rparr>"
    using mark_current_step_frame by blast
  then show ?thesis unfolding request_current_step_drafts_eq by auto
qed

lemma request_current_step_drafts_tables [simp]:
  "members (request_current_step_drafts g now eid d) = members d"
  "events (request_current_step_drafts g now eid d) = events d"
  "cancel_tasks (request_current_step_drafts g now eid d) = cancel_tasks d"
  "steps (request_current_step_drafts g now eid d) = steps d"
  "conversations (request_current_step_drafts g now eid d) = conversations d"
  "plan_reviews (request_current_step_drafts g now eid d) = plan_reviews d"
  "expenses (request_current_step_drafts g now eid d) = expenses d"
proof -
  obtain as' rs n where "request_current_step_drafts g now eid d = d\<lparr>actions := as', draws := n, running := rs\<rparr>"
    using request_current_step_drafts_frame by blast
  then show
    "members (request_current_step_drafts g now eid d) = members d"
    "events (request_current_step_drafts g now eid d) = events d"
    "cancel_tasks (request_current_step_drafts g now eid d) = cancel_tasks d"
    "steps (request_current_step_drafts g now eid d) = steps d"
    "conversations (request_current_step_drafts g now eid d) = conversations d"
    "plan_reviews (request_current_step_drafts g now eid d) = plan_reviews d"
    "expenses (request_current_step_drafts g now eid d) = expenses d"
    by simp_all
qed

text \<open>
  The rows: an action is either untouched or one of the marked ones, and keys stay in place.
\<close>

lemma mark_all_keys: "map ac_id (actions (fst (mark_all g now as d))) = map ac_id (actions d)"
  by (induction as arbitrary: d) (simp_all add: Let_def case_prod_unfold put_action_def drawn_def)

lemma mark_all_row:
  assumes "a' \<in> set (actions (fst (mark_all g now as d)))"
  shows "a' \<in> set (actions d) \<or> (\<exists>b \<in> set as. \<exists>att. a' = mark_drafting att now b)"
  using assms
proof (induction as arbitrary: d)
  case Nil
  then show ?case by simp
next
  case (Cons b bs)
  let ?d = "put_action (mark_drafting (uuid4_hex g (draws d)) now b) (drawn d)"
  have "a' \<in> set (actions ?d) \<or> (\<exists>b \<in> set bs. \<exists>att. a' = mark_drafting att now b)"
    using Cons by (simp add: Let_def case_prod_unfold)
  then show ?case
    using set_put_row by (fastforce simp: put_action_def drawn_def)
qed

lemma mark_current_step_row:
  assumes "a' \<in> set (actions (fst (mark_current_step g now eid d)))"
  shows "a' \<in> set (actions d) \<or>
         (\<exists>b \<in> set (actions d). \<exists>sid att. needs_draft sid b \<and> a' = mark_drafting att now b)"
proof (cases "a' \<in> set (actions d)")
  case False
  then obtain sid where "a' \<in> set (actions (fst (mark_all g now (draft_candidates d sid) d)))"
    using assms by (auto simp: mark_current_step_def Let_def split: option.splits if_splits)
  with False obtain b att where "b \<in> set (draft_candidates d sid)" "a' = mark_drafting att now b"
    using mark_all_row by blast
  then show ?thesis by (auto simp: draft_candidates_def)
qed simp

lemma mark_current_step_keys:
  "map ac_id (actions (fst (mark_current_step g now eid d))) = map ac_id (actions d)"
  by (simp add: mark_current_step_def Let_def mark_all_keys split: option.split)

lemma request_current_step_drafts_actions:
  "actions (request_current_step_drafts g now eid d) = actions (fst (mark_current_step g now eid d))"
  by (simp add: request_current_step_drafts_eq)

lemma request_current_step_drafts_pk [simp]:
  "pk_actions (request_current_step_drafts g now eid d) = pk_actions d"
  by (simp add: pk_actions_def request_current_step_drafts_actions mark_current_step_keys)

text \<open>Every action survives the request for drafts, unchanged or freshly marked.\<close>

lemma request_current_step_drafts_find:
  assumes "pk_actions d" and "find_action d i = Some a"
  obtains "find_action (request_current_step_drafts g now eid d) i = Some a"
  | sid att where "find_action (request_current_step_drafts g now eid d) i = Some (mark_drafting att now a)"
      and "needs_draft sid a"
proof -
  let ?d = "request_current_step_drafts g now eid d"
  have keys: "map ac_id (actions ?d) = map ac_id (actions d)"
    by (simp add: request_current_step_drafts_actions mark_current_step_keys)
  have "i \<in> set (map ac_id (actions ?d))"
    using assms(2) unfolding keys by (auto simp: find_action_def dest!: get_row_SomeD)
  then obtain a' where a': "a' \<in> set (actions ?d)" "ac_id a' = i" by auto
  then have found: "find_action ?d i = Some a'"
    using pk_actions_get [of ?d a'] assms(1) by simp
  have only: "b = a" if "b \<in> set (actions d)" "ac_id b = i" for b
    using pk_actions_get [OF assms(1) that(1)] assms(2) that(2) by simp
  from a'(1) consider "a' \<in> set (actions d)"
    | b sid att where "b \<in> set (actions d)" "needs_draft sid b" "a' = mark_drafting att now b"
    unfolding request_current_step_drafts_actions using mark_current_step_row by blast
  then show thesis
  proof cases
    case 1
    with a' only found show thesis using that(1) by blast
  next
    case (2 b sid att)
    with a' have "b = a" using only by simp
    with 2 found show thesis using that(2) by blast
  qed
qed

end
