(* ===== verification/Accounting.thy ===== *)
theory Accounting
  imports Event_Rules
begin

text \<open>
  The expense ledger of \<open>app/services/accounting_service.py\<close>: manual entry, the entry a completed
  transfer leaves, reading, editing under a version check, deletion and the paged list. The unique
  constraint on \<open>expenses.action_id\<close> is part of the insertion: an action is booked once.
\<close>

section \<open>Operations\<close>

text \<open>Flushing a new expense row: the primary key and the unique \<open>action_id\<close>.\<close>

definition insert_expense :: "expense \<Rightarrow> db \<Rightarrow> api_error + db" where
  "insert_expense x d =
     (if ex_action_id x \<noteq> None \<and> ex_action_id x \<in> ex_action_id ` set (expenses d)
      then Inl (Unhandled ''IntegrityError'')
      else and_then (insert_row ex_id x (expenses d)) (\<lambda>rows. Inr (d\<lparr>expenses := rows\<rparr>)))"

text \<open>\<open>_ensure_club_event\<close>\<close>

definition ensure_club_event :: "ident \<Rightarrow> ident \<Rightarrow> db \<Rightarrow> api_error + unit" where
  "ensure_club_event club eid d =
     (case find_event d eid of
        None \<Rightarrow> Inl (ValidationFailed [''eventId''])
      | Some e \<Rightarrow> if ev_club_id e \<noteq> club then Inl (ValidationFailed [''eventId'']) else Inr ())"

definition create_expense ::
  "rnd \<Rightarrow> ident \<Rightarrow> ident option \<Rightarrow> instant \<Rightarrow> pystr option \<Rightarrow> int \<Rightarrow> currency_code
     \<Rightarrow> pystr option \<Rightarrow> pystr option \<Rightarrow> ident \<Rightarrow> db \<Rightarrow> api_error + (expense \<times> db)" where
  "create_expense g club eid spent merchant amount currency category descr created_by d =
     and_then (case eid of None \<Rightarrow> Inr () | Some e \<Rightarrow> ensure_club_event club e d) (\<lambda>_.
       let x = \<lparr>ex_id = new_id g d ''exp'', ex_club_id = club, ex_event_id = eid,
                ex_spent_at = spent, ex_merchant = merchant, ex_amount = amount,
                ex_currency = currency, ex_category = category, ex_description = descr,
                ex_source = Expense_MANUAL, ex_receipt_record_id = None, ex_action_id = None,
                ex_created_by = created_by, ex_version = 1\<rparr>
       in and_then (insert_expense x (drawn d)) (\<lambda>d'. Inr (x, d')))"

text \<open>
  \<open>add_action_expense\<close>: the ledger entry of a completed action, in the caller's transaction. The
  caller has checked that the action has an amount; a null one would violate the column.
\<close>

definition add_action_expense ::
  "rnd \<Rightarrow> action \<Rightarrow> ident \<Rightarrow> instant \<Rightarrow> ident \<Rightarrow> db \<Rightarrow> api_error + db" where
  "add_action_expense g a club spent created_by d =
     (case ac_amount a of
        None \<Rightarrow> Inl (Unhandled ''IntegrityError'')
      | Some amount \<Rightarrow>
          insert_expense
            \<lparr>ex_id = new_id g d ''exp'', ex_club_id = club, ex_event_id = Some (ac_event_id a),
             ex_spent_at = spent, ex_merchant = None, ex_amount = amount, ex_currency = KRW,
             ex_category = None, ex_description = Some (ac_title a), ex_source = Expense_ACTION,
             ex_receipt_record_id = None, ex_action_id = Some (ac_id a),
             ex_created_by = created_by, ex_version = 1\<rparr> (drawn d))"

definition get_expense :: "ident \<Rightarrow> ident \<Rightarrow> db \<Rightarrow> api_error + expense" where
  "get_expense club xid d =
     (case find_expense d xid of
        None \<Rightarrow> Inl ExpenseNotFound
      | Some x \<Rightarrow> if ex_club_id x \<noteq> club then Inl ExpenseNotFound else Inr x)"

text \<open>
  The fields of an update request: \<open>None\<close> when the field was not sent, \<open>Some None\<close> when it was
  sent as null.
\<close>

record expense_changes =
  xc_spent_at :: "instant option option"
  xc_merchant :: "pystr option option"
  xc_amount :: "int option option"
  xc_currency :: "currency_code option option"
  xc_category :: "pystr option option"
  xc_description :: "pystr option option"
  xc_event_id :: "ident option option"

definition no_changes :: expense_changes where
  "no_changes = \<lparr>xc_spent_at = None, xc_merchant = None, xc_amount = None, xc_currency = None,
     xc_category = None, xc_description = None, xc_event_id = None\<rparr>"

text \<open>\<open>_REQUIRED_EXPENSE_FIELDS\<close>: the required fields a request tries to clear.\<close>

definition missing_fields :: "expense_changes \<Rightarrow> string list" where
  "missing_fields c =
     (if xc_spent_at c = Some None then [''spentAt''] else []) @
     (if xc_amount c = Some None then [''amount''] else []) @
     (if xc_currency c = Some None then [''currency''] else [])"

text \<open>\<open>setattr\<close> of every sent field.\<close>

definition apply_changes :: "expense_changes \<Rightarrow> expense \<Rightarrow> expense" where
  "apply_changes c x =
     x\<lparr>ex_spent_at := (case xc_spent_at c of Some (Some v) \<Rightarrow> v | _ \<Rightarrow> ex_spent_at x),
       ex_merchant := (case xc_merchant c of Some v \<Rightarrow> v | None \<Rightarrow> ex_merchant x),
       ex_amount := (case xc_amount c of Some (Some v) \<Rightarrow> v | _ \<Rightarrow> ex_amount x),
       ex_currency := (case xc_currency c of Some (Some v) \<Rightarrow> v | _ \<Rightarrow> ex_currency x),
       ex_category := (case xc_category c of Some v \<Rightarrow> v | None \<Rightarrow> ex_category x),
       ex_description := (case xc_description c of Some v \<Rightarrow> v | None \<Rightarrow> ex_description x),
       ex_event_id := (case xc_event_id c of Some v \<Rightarrow> v | None \<Rightarrow> ex_event_id x)\<rparr>"

definition update_expense ::
  "expense_changes \<Rightarrow> ident \<Rightarrow> ident \<Rightarrow> int \<Rightarrow> db \<Rightarrow> api_error + (expense \<times> db)" where
  "update_expense c club xid expected d =
     (if missing_fields c \<noteq> [] then Inl (ValidationFailed (missing_fields c))
      else if c = no_changes then and_then (get_expense club xid d) (\<lambda>x. Inr (x, d))
      else (case find_expense d xid of
              None \<Rightarrow> Inl ExpenseNotFound
            | Some x \<Rightarrow>
                if ex_club_id x \<noteq> club then Inl ExpenseNotFound
                else if ex_version x \<noteq> expected then Inl VersionConflict
                else and_then
                  (case xc_event_id c of Some (Some e) \<Rightarrow> ensure_club_event club e d | _ \<Rightarrow> Inr ())
                  (\<lambda>_. let x' = (apply_changes c x)\<lparr>ex_version := ex_version x + 1\<rparr>
                       in Inr (x', put_expense x' d))))"

text \<open>Deleting an expense clears the confirmation link of its receipt row (\<open>SET NULL\<close>).\<close>

definition delete_expense :: "ident \<Rightarrow> ident \<Rightarrow> db \<Rightarrow> api_error + db" where
  "delete_expense club xid d =
     and_then (get_expense club xid d) (\<lambda>x.
       Inr (d\<lparr>expenses := filter (\<lambda>y. ex_id y \<noteq> ex_id x) (expenses d),
              receipt_rows := map (\<lambda>r. if rr_confirmed_expense_id r = Some (ex_id x)
                                         then r\<lparr>rr_confirmed_expense_id := None\<rparr> else r)
                                  (receipt_rows d)\<rparr>))"

definition list_expenses :: "ident \<Rightarrow> int \<Rightarrow> int \<Rightarrow> db \<Rightarrow> expense list \<times> nat" where
  "list_expenses club page sz d =
     (let rows = filter (\<lambda>x. ex_club_id x = club) (expenses d)
      in (paginate page sz (sort_key (\<lambda>x. - ex_spent_at x) rows), length rows))"

section \<open>Lemmas\<close>

text \<open>The ledger books an action at most once.\<close>

definition booked_once :: "db \<Rightarrow> bool" where
  "booked_once d \<longleftrightarrow> (\<forall>a. length (filter (\<lambda>x. ex_action_id x = Some a) (expenses d)) \<le> 1)"

lemma insert_expense_Inr:
  "insert_expense x d = Inr d' \<longleftrightarrow>
     (ex_action_id x = None \<or> ex_action_id x \<notin> ex_action_id ` set (expenses d)) \<and>
     ex_id x \<notin> ex_id ` set (expenses d) \<and> d' = d\<lparr>expenses := expenses d @ [x]\<rparr>"
  by (auto simp: insert_expense_def and_then_eq_Inr insert_row_Inr split: if_splits)

lemma insert_expense_booked_once:
  assumes "booked_once d" and "insert_expense x d = Inr d'"
  shows "booked_once d'"
  unfolding booked_once_def
proof
  fix a
  from assms(2) have eq: "expenses d' = expenses d @ [x]"
    and new: "ex_action_id x = None \<or> ex_action_id x \<notin> ex_action_id ` set (expenses d)"
    by (simp_all add: insert_expense_Inr)
  show "length (filter (\<lambda>x. ex_action_id x = Some a) (expenses d')) \<le> 1"
  proof (cases "ex_action_id x = Some a")
    case True
    with new have "filter (\<lambda>x. ex_action_id x = Some a) (expenses d) = []"
      by (force simp: filter_empty_conv image_iff)
    with True show ?thesis by (simp add: eq)
  next
    case False
    with assms(1) show ?thesis by (simp add: eq booked_once_def)
  qed
qed

lemma drawn_tables [simp]:
  "expenses (drawn d) = expenses d" "actions (drawn d) = actions d" "steps (drawn d) = steps d"
  "events (drawn d) = events d" "members (drawn d) = members d" "running (drawn d) = running d"
  "cancel_tasks (drawn d) = cancel_tasks d" "conversations (drawn d) = conversations d"
  "plan_reviews (drawn d) = plan_reviews d"
  by (simp_all add: drawn_def)

lemma add_action_expense_Inr:
  assumes "add_action_expense g a club spent by' d = Inr d'"
  obtains x where "d' = (drawn d)\<lparr>expenses := expenses d @ [x]\<rparr>"
    and "ex_action_id x = Some (ac_id a)" and "Some (ex_amount x) = ac_amount a"
    and "ex_club_id x = club" and "ex_event_id x = Some (ac_event_id a)"
    and "ex_source x = Expense_ACTION" and "ex_created_by x = by'" and "ex_spent_at x = spent"
    and "Some (ac_id a) \<notin> ex_action_id ` set (expenses d)"
    and "ex_id x \<notin> ex_id ` set (expenses d)" and "ex_description x = Some (ac_title a)"
  using assms
  by (auto simp: add_action_expense_def insert_expense_Inr split: option.splits)

text \<open>The list shows every expense of the club on exactly one page, newest first.\<close>

lemma paginate_concat:
  assumes "0 < sz"
  shows "concat (map (\<lambda>p. paginate (int p) sz rows) [1..<Suc n]) = take (n * nat sz) rows"
proof (induction n)
  case 0
  show ?case by simp
next
  case (Suc n)
  have "nat ((int (Suc n) - 1) * sz) = n * nat sz"
    using assms by (simp add: nat_mult_distrib)
  moreover have "take (Suc n * nat sz) rows = take (n * nat sz) rows @ take (nat sz) (drop (n * nat sz) rows)"
    by (metis add.commute mult_Suc take_add)
  ultimately show ?case
    using Suc by (simp add: paginate_def)
qed

end
