(* ===== verification/Access.thy ===== *)
theory Access
  imports Models
begin

text \<open>
  Membership checks of \<open>app/core/deps.py\<close>. A request acts for the account that
  \<open>get_current_account\<close> resolved from its token; here the account is given by its id.
\<close>

definition WRITER_ROLES :: "member_role list" where
  "WRITER_ROLES = SERVICE_ROLES"

text \<open>The member row of the account in the club.\<close>

definition membership :: "db \<Rightarrow> ident \<Rightarrow> ident \<Rightarrow> member option" where
  "membership d club account =
     find (\<lambda>m. mb_club_id m = club \<and> mb_account_id m = Some account) (members d)"

definition ensure_member ::
  "ident \<Rightarrow> ident \<Rightarrow> member_role list option \<Rightarrow> db \<Rightarrow> api_error + member" where
  "ensure_member club account allowed d =
     (case membership d club account of
        None \<Rightarrow> Inl Forbidden
      | Some m \<Rightarrow>
          if mb_status m \<noteq> Member_ACTIVE \<or> mb_role m \<notin> set SERVICE_ROLES then Inl Forbidden
          else if (case allowed of None \<Rightarrow> False | Some rs \<Rightarrow> mb_role m \<notin> set rs) then Inl Forbidden
          else Inr m)"

definition require_member :: "ident \<Rightarrow> ident \<Rightarrow> db \<Rightarrow> api_error + member" where
  "require_member club account d = ensure_member club account None d"

definition require_club_role ::
  "member_role list \<Rightarrow> ident \<Rightarrow> ident \<Rightarrow> db \<Rightarrow> api_error + member" where
  "require_club_role allowed club account d =
     and_then (require_member club account d) (\<lambda>m.
       if mb_role m \<notin> set allowed then Inl Forbidden else Inr m)"

definition require_service_account :: "ident \<Rightarrow> db \<Rightarrow> api_error + ident" where
  "require_service_account account d =
     (if \<exists>m \<in> set (members d). mb_account_id m = Some account \<and> mb_status m = Member_ACTIVE \<and>
           mb_role m \<in> set SERVICE_ROLES
      then Inr account else Inl Forbidden)"

lemma ensure_member_Inr:
  assumes "ensure_member club account allowed d = Inr m"
  shows "m \<in> set (members d)" and "mb_club_id m = club" and "mb_account_id m = Some account"
    and "mb_status m = Member_ACTIVE" and "mb_role m \<in> set SERVICE_ROLES"
  using assms
  by (auto simp: ensure_member_def membership_def find_Some_iff split: option.splits if_splits)

lemma ensure_member_role: "ensure_member club account allowed d = Inr m \<Longrightarrow> mb_role m \<in> {OWNER, MANAGER}"
  using ensure_member_Inr(5) by (auto simp: SERVICE_ROLES_def)

lemma ensure_member_Inl: "ensure_member club account allowed d = Inl e \<Longrightarrow> e = Forbidden"
  by (auto simp: ensure_member_def split: option.splits if_splits)

end
