(* ===== verification/Action_Service.thy ===== *)
theory Action_Service
  imports Action_Draft Accounting Access
begin

text \<open>
  Starting and finishing an event and the handling of its actions and steps:
  \<open>app/services/action_service.py\<close> and the routers \<open>actions.py\<close> and \<open>steps.py\<close>. Every operation reads
  the rows it locks, checks the state before the version, and either raises or returns the committed
  database. The calls that can move the current step end by requesting drafts in a session of their
  own.
\<close>

section \<open>Finding and locking\<close>

definition action_event :: "ident \<Rightarrow> db \<Rightarrow> api_error + event" where
  "action_event aid d =
     (case Option.bind (find_action d aid) (\<lambda>a. find_event d (ac_event_id a)) of
        None \<Rightarrow> Inl ActionNotFound | Some e \<Rightarrow> Inr e)"

definition step_event :: "ident \<Rightarrow> db \<Rightarrow> api_error + event" where
  "step_event sid d =
     (case Option.bind (find_step d sid) (\<lambda>s. find_event d (st_event_id s)) of
        None \<Rightarrow> Inl StepNotFound | Some e \<Rightarrow> Inr e)"

definition ensure_operating :: "event \<Rightarrow> api_error + unit" where
  "ensure_operating e = (if \<not> is_operating (ev_status e) then Inl EventNotOnGoing else Inr ())"

definition lock_operating_event :: "ident \<Rightarrow> db \<Rightarrow> api_error + event" where
  "lock_operating_event eid d =
     (case find_event d eid of
        None \<Rightarrow> Inl EventNotFound
      | Some e \<Rightarrow> and_then (ensure_operating e) (\<lambda>_. Inr e))"

definition lock_action :: "ident \<Rightarrow> db \<Rightarrow> api_error + action" where
  "lock_action aid d = (case find_action d aid of None \<Rightarrow> Inl ActionNotFound | Some a \<Rightarrow> Inr a)"

definition check_version :: "action \<Rightarrow> int \<Rightarrow> api_error + unit" where
  "check_version a expected = (if ac_version a \<noteq> expected then Inl VersionConflict else Inr ())"

definition not_confirmation :: "action \<Rightarrow> api_error + unit" where
  "not_confirmation a =
     (if is_confirmation (ac_type a) then Inl (ValidationFailed [''type'']) else Inr ())"

text \<open>A write to the events row also moves \<open>modified_at\<close> (\<open>onupdate\<close>).\<close>

definition touch :: "instant \<Rightarrow> event \<Rightarrow> event" where
  "touch now e = e\<lparr>ev_modified_at := now\<rparr>"

section \<open>The event\<close>

definition complete_event :: "instant \<Rightarrow> ident \<Rightarrow> db \<Rightarrow> api_error + db" where
  "complete_event now eid d =
     and_then (lock_operating_event eid d) (\<lambda>e.
       let remaining_steps =
             length (filter (\<lambda>s. st_event_id s = eid \<and> st_completed_at s = None) (steps d));
           remaining_actions =
             length (filter (\<lambda>a. ac_event_id a = eid \<and> open_status (ac_status a)) (actions d))
       in if remaining_steps \<noteq> 0 \<or> remaining_actions \<noteq> 0 then Inl EventIncomplete
          else Inr (put_event (touch now (e\<lparr>ev_status := COMPLETE\<rparr>)) d))"

definition start_event :: "rnd \<Rightarrow> instant \<Rightarrow> ident \<Rightarrow> db \<Rightarrow> api_error + db" where
  "start_event g now eid d =
     (case find_event d eid of
        None \<Rightarrow> Inl EventNotFound
      | Some e \<Rightarrow>
          if ev_status e \<noteq> PLANNING then Inl EventNotPlanning
          else let missing =
                 (if ev_start_date e = None then [''startDate''] else []) @
                 (if length (filter (\<lambda>s. st_event_id s = eid) (steps d)) = 0 then [''steps''] else [])
               in if missing \<noteq> [] then Inl (PlanIncomplete missing)
                  else Inr (request_current_step_drafts g now eid
                              (put_event (touch now (e\<lparr>ev_status := ON_GOING\<rparr>)) d)))"

section \<open>Actions\<close>

definition finish_step_if_done :: "instant \<Rightarrow> ident option \<Rightarrow> db \<Rightarrow> db" where
  "finish_step_if_done now sid d =
     (case sid of
        None \<Rightarrow> d
      | Some i \<Rightarrow>
        (case find_step d i of
           None \<Rightarrow> d
         | Some s \<Rightarrow>
             if st_completed_at s \<noteq> None then d
             else if is_step_done (map ac_status (step_actions d i))
                  then put_step (s\<lparr>st_completed_at := Some now\<rparr>) d
                  else d))"

definition set_resolution :: "instant \<Rightarrow> member \<Rightarrow> action_status \<Rightarrow> action \<Rightarrow> action" where
  "set_resolution now m status a =
     a\<lparr>ac_status := status, ac_resolved_at := Some now, ac_resolved_by := Some (mb_id m),
       ac_version := ac_version a + 1\<rparr>"

definition approve :: "instant \<Rightarrow> member \<Rightarrow> ident \<Rightarrow> int \<Rightarrow> db \<Rightarrow> api_error + db" where
  "approve now m aid expected d =
     and_then (lock_action aid d) (\<lambda>a.
     and_then (not_confirmation a) (\<lambda>_.
       if \<not> ac_approve_needed a then Inl (ValidationFailed [''actionId''])
       else if \<not> can_resolve (mb_role m) (ac_status a) then Inl AlreadyResolved
       else and_then (check_version a expected) (\<lambda>_.
         Inr (put_action (set_resolution now m APPROVED a) d))))"

text \<open>\<open>reason or None\<close>: an empty reason is stored as null.\<close>

definition deny ::
  "instant \<Rightarrow> member \<Rightarrow> pystr option \<Rightarrow> ident \<Rightarrow> int \<Rightarrow> db \<Rightarrow> api_error + db" where
  "deny now m reason aid expected d =
     and_then (lock_action aid d) (\<lambda>a.
     and_then (not_confirmation a) (\<lambda>_.
       if \<not> can_resolve (mb_role m) (ac_status a) then Inl AlreadyResolved
       else and_then (check_version a expected) (\<lambda>_.
         Inr (put_action ((set_resolution now m DENIED a)
                \<lparr>ac_deny_reason := (if reason = Some [] then None else reason)\<rparr>) d))))"

definition MANUAL_CHOICE :: pystr where
  "MANUAL_CHOICE = lit ''MANUAL''"

text \<open>
  \<open>{option.get("key") for option in options}\<close>: an element that is not an object has no \<open>get\<close>, and a
  list or an object as key cannot enter the set.
\<close>

fun keys_of_options :: "json list \<Rightarrow> api_error + json list" where
  "keys_of_options [] = Inr []"
| "keys_of_options (x # xs) =
     (case x of
        JObj kvs \<Rightarrow>
          (case (case map_of kvs ''key'' of None \<Rightarrow> JNull | Some k \<Rightarrow> k) of
             JList _ \<Rightarrow> Inl (Unhandled ''TypeError'')
           | JObj _ \<Rightarrow> Inl (Unhandled ''TypeError'')
           | k \<Rightarrow> and_then (keys_of_options xs) (\<lambda>ks. Inr (k # ks)))
      | _ \<Rightarrow> Inl (Unhandled ''AttributeError''))"

text \<open>\<open>payload.get("options") or []\<close>, iterated.\<close>

definition option_keys :: "dict \<Rightarrow> api_error + json list" where
  "option_keys payload =
     (case map_of payload ''options'' of
        None \<Rightarrow> Inr []
      | Some v \<Rightarrow>
          if \<not> truthy v then Inr []
          else (case v of
                  JList xs \<Rightarrow> keys_of_options xs
                | JStr _ \<Rightarrow> Inl (Unhandled ''AttributeError'')
                | JObj _ \<Rightarrow> Inl (Unhandled ''AttributeError'')
                | _ \<Rightarrow> Inl (Unhandled ''TypeError'')))"

definition check_choice ::
  "dict \<Rightarrow> json list \<Rightarrow> pystr \<Rightarrow> pystr option \<Rightarrow> api_error + unit" where
  "check_choice payload keys choice manual_value =
     (if choice = MANUAL_CHOICE then
        (if \<not> (case map_of payload ''allow_manual'' of None \<Rightarrow> False | Some v \<Rightarrow> truthy v)
         then Inl (ValidationFailed [''choice''])
         else if manual_value = None \<or> manual_value = Some []
         then Inl (ValidationFailed [''manualValue''])
         else Inr ())
      else if JStr choice \<notin> set keys then Inl (ValidationFailed [''choice''])
      else Inr ())"

definition answered_payload :: "dict \<Rightarrow> pystr \<Rightarrow> pystr option \<Rightarrow> dict" where
  "answered_payload payload choice manual_value =
     AList.update ''manual_value''
       (if choice = MANUAL_CHOICE
        then (case manual_value of None \<Rightarrow> JNull | Some v \<Rightarrow> JStr v) else JNull)
       (AList.update ''resolved_choice'' (JStr choice) payload)"

definition resolve ::
  "rnd \<Rightarrow> instant \<Rightarrow> member \<Rightarrow> pystr \<Rightarrow> pystr option \<Rightarrow> ident \<Rightarrow> int \<Rightarrow> db \<Rightarrow> api_error + db" where
  "resolve g now m choice manual_value aid expected d =
     and_then (lock_action aid d) (\<lambda>a.
       if \<not> is_confirmation (ac_type a) then Inl (ValidationFailed [''type''])
       else if \<not> can_resolve (mb_role m) (ac_status a) then Inl AlreadyResolved
       else and_then (check_version a expected) (\<lambda>_.
         let payload = (case ac_payload a of None \<Rightarrow> [] | Some p \<Rightarrow> p) in
         and_then (option_keys payload) (\<lambda>keys.
         and_then (check_choice payload keys choice manual_value) (\<lambda>_.
           let a' = set_resolution now m DONE
                      (a\<lparr>ac_payload := Some (answered_payload payload choice manual_value)\<rparr>)
           in Inr (request_current_step_drafts g now (ac_event_id a)
                     (finish_step_if_done now (ac_step_id a) (put_action a' d)))))))"

text \<open>
  The row \<open>mark_done\<close> writes: the approver stays the resolver; without one, whoever records the
  execution becomes it.
\<close>

definition done_row :: "instant \<Rightarrow> member \<Rightarrow> action \<Rightarrow> action" where
  "done_row now m a =
     (if ac_resolved_by a = None
      then a\<lparr>ac_resolved_by := Some (mb_id m), ac_resolved_at := Some now\<rparr> else a)
     \<lparr>ac_status := DONE, ac_version := ac_version a + 1\<rparr>"

definition mark_done ::
  "rnd \<Rightarrow> instant \<Rightarrow> member \<Rightarrow> ident \<Rightarrow> int \<Rightarrow> db \<Rightarrow> api_error + db" where
  "mark_done g now m aid expected d =
     and_then (lock_action aid d) (\<lambda>a.
     and_then (not_confirmation a) (\<lambda>_.
       if \<not> can_mark_done (ac_status a) (ac_approve_needed a) then Inl AlreadyResolved
       else and_then (check_version a expected) (\<lambda>_.
         let a2 = done_row now m a;
             d1 = put_action a2 d
         in and_then
              (if records_expense (ac_type a2) (ac_amount a2)
               then (case find_event d1 (ac_event_id a2) of
                       None \<Rightarrow> Inl (Unhandled ''AttributeError'')
                     | Some e \<Rightarrow> add_action_expense g a2 (ev_club_id e) now (mb_id m) d1)
               else Inr d1)
              (\<lambda>d2. Inr (request_current_step_drafts g now (ac_event_id a)
                           (finish_step_if_done now (ac_step_id a) d2))))))"

section \<open>Steps\<close>

text \<open>The result carries \<open>pending_action_count\<close>.\<close>

definition complete_step ::
  "rnd \<Rightarrow> instant \<Rightarrow> member \<Rightarrow> ident \<Rightarrow> db \<Rightarrow> api_error + (nat \<times> db)" where
  "complete_step g now m sid d =
     (case find_step d sid of
        None \<Rightarrow> Inl StepNotFound
      | Some s \<Rightarrow>
          if st_completed_at s \<noteq> None then Inl StepAlreadyCompleted
          else let d1 = put_step (s\<lparr>st_completed_at := Some now, st_completed_by := Some (mb_id m)\<rparr>) d;
                   pending = length (filter (\<lambda>a. open_status (ac_status a)) (step_actions d1 sid))
               in Inr (pending, request_current_step_drafts g now (st_event_id s) d1))"

section \<open>Endpoints\<close>

text \<open>\<open>_operating_member\<close> of \<open>routers/actions.py\<close>.\<close>

definition operating_member :: "ident \<Rightarrow> ident \<Rightarrow> db \<Rightarrow> api_error + (event \<times> member)" where
  "operating_member aid account d =
     and_then (action_event aid d) (\<lambda>e0.
     and_then (ensure_member (ev_club_id e0) account None d) (\<lambda>m.
     and_then (lock_operating_event (ev_id e0) d) (\<lambda>e. Inr (e, m))))"

definition approve_action :: "instant \<Rightarrow> ident \<Rightarrow> ident \<Rightarrow> int \<Rightarrow> db \<Rightarrow> api_error + db" where
  "approve_action now account aid expected d =
     and_then (operating_member aid account d) (\<lambda>(e, m). approve now m aid expected d)"

definition deny_action ::
  "instant \<Rightarrow> ident \<Rightarrow> pystr option \<Rightarrow> ident \<Rightarrow> int \<Rightarrow> db \<Rightarrow> api_error + db" where
  "deny_action now account reason aid expected d =
     and_then (operating_member aid account d) (\<lambda>(e, m). deny now m reason aid expected d)"

definition resolve_action ::
  "rnd \<Rightarrow> instant \<Rightarrow> ident \<Rightarrow> pystr \<Rightarrow> pystr option \<Rightarrow> ident \<Rightarrow> int \<Rightarrow> db \<Rightarrow> api_error + db" where
  "resolve_action g now account choice manual_value aid expected d =
     and_then (operating_member aid account d) (\<lambda>(e, m).
       resolve g now m choice manual_value aid expected d)"

definition mark_action_done ::
  "rnd \<Rightarrow> instant \<Rightarrow> ident \<Rightarrow> ident \<Rightarrow> int \<Rightarrow> db \<Rightarrow> api_error + db" where
  "mark_action_done g now account aid expected d =
     and_then (operating_member aid account d) (\<lambda>(e, m). mark_done g now m aid expected d)"

definition request_action_draft ::
  "rnd \<Rightarrow> instant \<Rightarrow> ident \<Rightarrow> ident \<Rightarrow> int \<Rightarrow> db \<Rightarrow> api_error + db" where
  "request_action_draft g now account aid expected d =
     and_then (action_event aid d) (\<lambda>e0.
     and_then (ensure_member (ev_club_id e0) account None d) (\<lambda>m.
       request_redraft g now aid expected d))"

text \<open>\<open>complete_step\<close> of \<open>routers/steps.py\<close>.\<close>

definition complete_step_endpoint ::
  "rnd \<Rightarrow> instant \<Rightarrow> ident \<Rightarrow> ident \<Rightarrow> db \<Rightarrow> api_error + (nat \<times> db)" where
  "complete_step_endpoint g now account sid d =
     and_then (step_event sid d) (\<lambda>e.
     and_then (ensure_member (ev_club_id e) account None d) (\<lambda>m.
     and_then (lock_operating_event (ev_id e) d) (\<lambda>_.
       complete_step g now m sid d)))"

section \<open>What a successful call means\<close>

lemma lock_action_Inr [simp]: "lock_action aid d = Inr a \<longleftrightarrow> find_action d aid = Some a"
  by (simp add: lock_action_def split: option.split)

lemma check_version_Inr [simp]: "check_version a v = Inr u \<longleftrightarrow> ac_version a = v"
  by (simp add: check_version_def)

lemma not_confirmation_Inr [simp]: "not_confirmation a = Inr u \<longleftrightarrow> \<not> is_confirmation (ac_type a)"
  by (simp add: not_confirmation_def)

lemma lock_operating_event_Inr:
  "lock_operating_event eid d = Inr e \<longleftrightarrow> find_event d eid = Some e \<and> ev_status e = ON_GOING"
  by (auto simp: lock_operating_event_def ensure_operating_def is_operating_def split: option.split if_splits)

lemma set_resolution_keeps [simp]:
  "ac_id (set_resolution now m s a) = ac_id a"
  "ac_event_id (set_resolution now m s a) = ac_event_id a"
  "ac_step_id (set_resolution now m s a) = ac_step_id a"
  "ac_status (set_resolution now m s a) = s"
  "ac_version (set_resolution now m s a) = ac_version a + 1"
  "ac_content (set_resolution now m s a) = ac_content a"
  by (simp_all add: set_resolution_def)

lemma find_action_id: "find_action d i = Some a \<Longrightarrow> ac_id a = i"
  by (simp add: action_table.get_key)

lemma approve_Inr:
  "approve now m aid v d = Inr d' \<longleftrightarrow>
     (\<exists>a. find_action d aid = Some a \<and> \<not> is_confirmation (ac_type a) \<and> ac_approve_needed a \<and>
          can_resolve (mb_role m) (ac_status a) \<and> ac_version a = v \<and>
          d' = put_action (set_resolution now m APPROVED a) d)"
  by (auto simp: approve_def and_then_eq_Inr split: if_splits)

lemma deny_Inr:
  "deny now m reason aid v d = Inr d' \<longleftrightarrow>
     (\<exists>a. find_action d aid = Some a \<and> \<not> is_confirmation (ac_type a) \<and>
          can_resolve (mb_role m) (ac_status a) \<and> ac_version a = v \<and>
          d' = put_action ((set_resolution now m DENIED a)
                 \<lparr>ac_deny_reason := (if reason = Some [] then None else reason)\<rparr>) d)"
  by (auto simp: deny_def and_then_eq_Inr split: if_splits)

lemma finish_step_if_done_frame:
  "\<exists>ss. finish_step_if_done now sid d = d\<lparr>steps := ss\<rparr>"
proof -
  have "d = d\<lparr>steps := steps d\<rparr>" by simp
  then show ?thesis
    by (auto simp: finish_step_if_done_def put_step_def split: option.splits intro: exI [of _ "steps d"])
qed

lemma finish_step_if_done_tables [simp]:
  "actions (finish_step_if_done now sid d) = actions d"
  "events (finish_step_if_done now sid d) = events d"
  "expenses (finish_step_if_done now sid d) = expenses d"
  "members (finish_step_if_done now sid d) = members d"
  "draws (finish_step_if_done now sid d) = draws d"
  "running (finish_step_if_done now sid d) = running d"
  "conversations (finish_step_if_done now sid d) = conversations d"
  "plan_reviews (finish_step_if_done now sid d) = plan_reviews d"
  "cancel_tasks (finish_step_if_done now sid d) = cancel_tasks d"
  by (auto simp: finish_step_if_done_def put_step_def split: option.splits)

lemma resolve_Inr:
  assumes "resolve g now m choice mv aid v d = Inr d'"
  obtains a keys payload where "find_action d aid = Some a" and "ac_type a = CONFIRMATION"
    and "can_resolve (mb_role m) (ac_status a)" and "ac_version a = v"
    and "payload = (case ac_payload a of None \<Rightarrow> [] | Some p \<Rightarrow> p)"
    and "option_keys payload = Inr keys" and "check_choice payload keys choice mv = Inr ()"
    and "d' = request_current_step_drafts g now (ac_event_id a) (finish_step_if_done now (ac_step_id a)
           (put_action (set_resolution now m DONE
              (a\<lparr>ac_payload := Some (answered_payload payload choice mv)\<rparr>)) d))"
  using assms
  by (auto simp: resolve_def and_then_eq_Inr Let_def is_confirmation_def split: if_splits)

lemma done_row_keeps [simp]:
  "ac_id (done_row now m a) = ac_id a" "ac_event_id (done_row now m a) = ac_event_id a"
  "ac_step_id (done_row now m a) = ac_step_id a" "ac_status (done_row now m a) = DONE"
  "ac_version (done_row now m a) = ac_version a + 1" "ac_type (done_row now m a) = ac_type a"
  "ac_amount (done_row now m a) = ac_amount a" "ac_title (done_row now m a) = ac_title a"
  "ac_approve_needed (done_row now m a) = ac_approve_needed a"
  "ac_content (done_row now m a) = ac_content a"
  by (simp_all add: done_row_def)

lemma mark_done_Inr:
  assumes "mark_done g now m aid v d = Inr d'"
  obtains a d2 where "find_action d aid = Some a" and "\<not> is_confirmation (ac_type a)"
    and "can_mark_done (ac_status a) (ac_approve_needed a)" and "ac_version a = v"
    and "if records_expense (ac_type a) (ac_amount a)
         then \<exists>e. find_event d (ac_event_id a) = Some e \<and>
                  add_action_expense g (done_row now m a) (ev_club_id e) now (mb_id m)
                    (put_action (done_row now m a) d) = Inr d2
         else d2 = put_action (done_row now m a) d"
    and "d' = request_current_step_drafts g now (ac_event_id a)
                (finish_step_if_done now (ac_step_id a) d2)"
proof -
  from assms obtain a where a: "find_action d aid = Some a" "\<not> is_confirmation (ac_type a)"
      "can_mark_done (ac_status a) (ac_approve_needed a)" "ac_version a = v"
    and r: "and_then
       (if records_expense (ac_type a) (ac_amount a)
        then (case find_event (put_action (done_row now m a) d) (ac_event_id a) of
                None \<Rightarrow> Inl (Unhandled ''AttributeError'')
              | Some e \<Rightarrow> add_action_expense g (done_row now m a) (ev_club_id e) now (mb_id m)
                            (put_action (done_row now m a) d))
        else Inr (put_action (done_row now m a) d))
       (\<lambda>d2. Inr (request_current_step_drafts g now (ac_event_id a)
                    (finish_step_if_done now (ac_step_id a) d2))) = Inr d'"
    unfolding mark_done_def Let_def
    by (elim and_then_InrE) (simp split: if_splits; elim and_then_InrE; simp)
  have fe: "find_event (put_action (done_row now m a) d) i = find_event d i" for i
    by (simp add: tbl)
  from r show thesis
    unfolding fe by (elim and_then_InrE) (auto split: if_splits option.splits intro: that [OF a])
qed

end
