(* ===== verification/Catalog.thy ===== *)
theory Catalog
  imports Enums
begin

text \<open>
  The fixed step catalogue: the names of \<open>app/ai/planning_catalog.py\<close> and the attributes of
  \<open>app/ai/features/planning/generation/catalog.py\<close>. Names are Korean texts, written as code points.
  The cancellation codes are outside the catalogue, so a lookup of one raises \<open>KeyError\<close>.
\<close>

fun PLANNING_STEP_NAMES :: "step_code \<Rightarrow> pystr option" where
  "PLANNING_STEP_NAMES ASSIGN_ROLES =
     Some [45812, 45817, 32, 51064, 50896, 32, 48176, 52824]"
| "PLANNING_STEP_NAMES RESEARCH_VENUE =
     Some [51109, 49548, 183, 44368, 53685, 32, 50508, 50500, 48372, 44592]"
| "PLANNING_STEP_NAMES DEMAND_SURVEY =
     Some [49324, 51204, 32, 49688, 50836, 32, 51312, 49324]"
| "PLANNING_STEP_NAMES RECRUIT_NOTICE =
     Some [47784, 51665, 32, 44277, 51648]"
| "PLANNING_STEP_NAMES CHECK_RESPONSES =
     Some [51025, 45813, 32, 54869, 51064]"
| "PLANNING_STEP_NAMES CONFIRM_DETAILS =
     Some [51064, 50896, 183, 51068, 51221, 32, 54869, 51221]"
| "PLANNING_STEP_NAMES BOOK_VENUE =
     Some [50696, 50557]"
| "PLANNING_STEP_NAMES COLLECT_FEES =
     Some [52280, 44032, 48708, 32, 49688, 44552]"
| "PLANNING_STEP_NAMES PRE_EVENT_NOTICE =
     Some [49324, 51204, 32, 50504, 45236]"
| "PLANNING_STEP_NAMES EVENT_DAY =
     Some [54665, 49324, 32, 45817, 51068]"
| "PLANNING_STEP_NAMES SETTLE_EXPENSES =
     Some [51648, 52636, 32, 51221, 49328]"
| "PLANNING_STEP_NAMES REFUND_FEES =
     Some [52280, 44032, 48708, 32, 54872, 44553]"
| "PLANNING_STEP_NAMES RECORD_FEEDBACK =
     Some [54588, 46300, 48177, 32, 44592, 47197]"
| "PLANNING_STEP_NAMES _ = None"

text \<open>The keys of \<open>PLANNING_STEP_NAMES\<close> in the order of the source.\<close>

definition planning_codes :: "step_code list" where
  "planning_codes =
     [ASSIGN_ROLES, RESEARCH_VENUE, DEMAND_SURVEY, RECRUIT_NOTICE,
      CHECK_RESPONSES, CONFIRM_DETAILS, BOOK_VENUE, COLLECT_FEES,
      PRE_EVENT_NOTICE, EVENT_DAY, SETTLE_EXPENSES, REFUND_FEES, RECORD_FEEDBACK]"

record catalog_step =
  cat_code :: step_code
  cat_name :: pystr
  cat_phase :: step_phase
  cat_actor :: step_actor
  cat_actions :: "action_type list"

definition catalog_entry ::
  "step_code \<Rightarrow> step_phase \<Rightarrow> step_actor \<Rightarrow> action_type list \<Rightarrow> catalog_step" where
  "catalog_entry c ph ac as =
     \<lparr>cat_code = c, cat_name = the (PLANNING_STEP_NAMES c), cat_phase = ph, cat_actor = ac,
      cat_actions = as\<rparr>"

definition CATALOG :: "catalog_step list" where
  "CATALOG =
     [catalog_entry ASSIGN_ROLES PREPARATION Actor_MANUAL [],
      catalog_entry RESEARCH_VENUE PREPARATION Actor_MANUAL [],
      catalog_entry DEMAND_SURVEY PREPARATION Actor_APPROVAL_REQUIRED [NOTICE],
      catalog_entry RECRUIT_NOTICE RECRUITING Actor_APPROVAL_REQUIRED [NOTICE],
      catalog_entry CHECK_RESPONSES RECRUITING Actor_APPROVAL_REQUIRED [NOTICE],
      catalog_entry CONFIRM_DETAILS RECRUITING Actor_AI [],
      catalog_entry BOOK_VENUE RECRUITING Actor_APPROVAL_REQUIRED [CONTRACT, TRANSFER],
      catalog_entry COLLECT_FEES RECRUITING Actor_AI [NOTICE, EXTERNAL_SEND],
      catalog_entry PRE_EVENT_NOTICE EXECUTION Actor_APPROVAL_REQUIRED [NOTICE],
      catalog_entry EVENT_DAY EXECUTION Actor_MANUAL [],
      catalog_entry SETTLE_EXPENSES EXECUTION Actor_APPROVAL_REQUIRED [EXPENSE],
      catalog_entry REFUND_FEES EXECUTION Actor_APPROVAL_REQUIRED [TRANSFER],
      catalog_entry RECORD_FEEDBACK EXECUTION Actor_AI []]"

text \<open>\<open>BY_CODE[code]\<close>; \<open>None\<close> is the \<open>KeyError\<close>.\<close>

definition BY_CODE :: "step_code \<Rightarrow> catalog_step option" where
  "BY_CODE c = find (\<lambda>s. cat_code s = c) CATALOG"

definition PHASE_ORDER :: "step_phase list" where
  "PHASE_ORDER = [PREPARATION, RECRUITING, EXECUTION]"

text \<open>\<open>phase_rank = {phase: rank for rank, phase in enumerate(PHASE_ORDER)}\<close>\<close>

definition phase_rank :: "step_phase \<Rightarrow> nat option" where
  "phase_rank p = map_of (zip PHASE_ORDER [0..<length PHASE_ORDER]) p"

lemma planning_codes_names: "PLANNING_STEP_NAMES c \<noteq> None \<longleftrightarrow> c \<in> set planning_codes"
  by (cases c) (simp_all add: planning_codes_def)

lemma BY_CODE_catalogued: "BY_CODE c \<noteq> None \<longleftrightarrow> c \<in> set planning_codes"
  by (cases c) (simp_all add: BY_CODE_def CATALOG_def catalog_entry_def planning_codes_def)

lemma BY_CODE_code: "BY_CODE c = Some s \<Longrightarrow> cat_code s = c"
  by (auto simp: BY_CODE_def find_Some_iff)

lemma BY_CODE_ranked: "BY_CODE c = Some s \<Longrightarrow> \<exists>r. phase_rank (cat_phase s) = Some r"
  by (cases c)
    (auto simp: BY_CODE_def CATALOG_def catalog_entry_def phase_rank_def PHASE_ORDER_def upt_rec)

lemma planning_codes_distinct: "distinct planning_codes"
  by (simp add: planning_codes_def)

text \<open>The catalogue never plans a confirmation request: those arise while an event is running.\<close>

lemma BY_CODE_no_confirmation: "BY_CODE c = Some s \<Longrightarrow> CONFIRMATION \<notin> set (cat_actions s)"
  by (cases c) (auto simp: BY_CODE_def CATALOG_def catalog_entry_def)

end
