(* ===== verification/Calendar.thy ===== *)
theory Calendar
  imports Prelude
begin

text \<open>
  Numbers as text and the calendar of Python's \<open>datetime\<close>: printing of integers, the conversion between
  ordinals and dates, and the dates that exist.
\<close>

section \<open>Printing and dates\<close>

text \<open>\<open>str(n)\<close> of an integer.\<close>

fun nat_digits :: "nat \<Rightarrow> pystr" where
  "nat_digits n = (if n < 10 then [48 + int n] else nat_digits (n div 10) @ [48 + int (n mod 10)])"

declare nat_digits.simps [simp del]

definition int_text :: "int \<Rightarrow> pystr" where
  "int_text n = (if n < 0 then 45 # nat_digits (nat (- n)) else nat_digits (nat n))"

text \<open>\<open>date.fromordinal\<close>, as the standard library computes it.\<close>

definition days_before_month :: "nat \<Rightarrow> int" where
  "days_before_month m = [0, 0, 31, 59, 90, 120, 151, 181, 212, 243, 273, 304, 334] ! m"

definition days_in_month :: "nat \<Rightarrow> int" where
  "days_in_month m = [0, 31, 28, 31, 30, 31, 30, 31, 31, 30, 31, 30, 31] ! m"

definition ord2ymd :: "date \<Rightarrow> int \<times> int \<times> int" where
  "ord2ymd ord =
     (let n = ord - 1; n400 = n div 146097; n = n mod 146097; year = n400 * 400 + 1;
          n100 = n div 36524; n = n mod 36524; n4 = n div 1461; n = n mod 1461;
          n1 = n div 365; n = n mod 365; year = year + n100 * 100 + n4 * 4 + n1
      in if n1 = 4 \<or> n100 = 4 then (year - 1, 12, 31)
         else let leap = (n1 = 3 \<and> (n4 \<noteq> 24 \<or> n100 = 3));
                  month = nat ((n + 50) div 32);
                  leapday = (if 2 < month \<and> leap then 1 else 0);
                  preceding = days_before_month month + leapday
              in if n < preceding
                 then let month' = month - 1;
                          preceding' = preceding - (days_in_month month' + (if month' = 2 \<and> leap then 1 else 0))
                      in (year, int month', n - preceding' + 1)
                 else (year, int month, n - preceding + 1))"

definition pad :: "nat \<Rightarrow> int \<Rightarrow> pystr" where
  "pad w n = (let s = int_text n in replicate (w - length s) 48 @ s)"

text \<open>\<open>date.isoformat\<close>\<close>

definition iso_date :: "date \<Rightarrow> pystr" where
  "iso_date ord = (case ord2ymd ord of (y, m, dd) \<Rightarrow> pad 4 y @ [45] @ pad 2 m @ [45] @ pad 2 dd)"

text \<open>\<open>datetime(y, m, d)\<close> exists, and its ordinal.\<close>

definition is_leap :: "int \<Rightarrow> bool" where
  "is_leap y \<longleftrightarrow> y mod 4 = 0 \<and> (y mod 100 \<noteq> 0 \<or> y mod 400 = 0)"

definition month_length :: "int \<Rightarrow> int \<Rightarrow> int" where
  "month_length y m = (if m = 2 \<and> is_leap y then 29 else days_in_month (nat m))"

definition valid_ymd :: "int \<Rightarrow> int \<Rightarrow> int \<Rightarrow> bool" where
  "valid_ymd y m dd \<longleftrightarrow> 1 \<le> y \<and> y \<le> 9999 \<and> 1 \<le> m \<and> m \<le> 12 \<and> 1 \<le> dd \<and> dd \<le> month_length y m"

definition ymd2ord :: "int \<Rightarrow> int \<Rightarrow> int \<Rightarrow> date" where
  "ymd2ord y m dd =
     (y - 1) * 365 + (y - 1) div 4 - (y - 1) div 100 + (y - 1) div 400 +
     days_before_month (nat m) + (if 2 < m \<and> is_leap y then 1 else 0) + dd"

text \<open>The instant of a date and a time of day in UTC; day 719163 is 1970-01-01.\<close>

definition utc_instant :: "date \<Rightarrow> int \<Rightarrow> int \<Rightarrow> int \<Rightarrow> instant" where
  "utc_instant ord h mi s = ((((ord - 719163) * 24 + h) * 60 + mi) * 60 + s) * 1000000"

section \<open>Digits\<close>

lemma nat_digits_not_Nil [simp]: "nat_digits n \<noteq> []"
  by (subst nat_digits.simps) simp

lemma nat_digits_range: "c \<in> set (nat_digits n) \<Longrightarrow> 48 \<le> c \<and> c \<le> 57"
proof (induction n rule: nat_digits.induct)
  case (1 n)
  then show ?case
    by (subst (asm) (2) nat_digits.simps) (auto split: if_splits)
qed

text \<open>Reading decimal digits from the left gives the number back.\<close>

definition digits_value :: "int list \<Rightarrow> int" where
  "digits_value ds = fold (\<lambda>c acc. 10 * acc + (c - 48)) ds 0"

lemma digits_value_nat_digits: "digits_value (nat_digits n) = int n"
proof (induction n rule: nat_digits.induct)
  case (1 n)
  show ?case
  proof (cases "n < 10")
    case True
    then show ?thesis by (subst nat_digits.simps) (simp add: digits_value_def)
  next
    case False
    then have "digits_value (nat_digits (n div 10)) = int (n div 10)" using 1 by simp
    moreover have "10 * int (n div 10) + int (n mod 10) = int n"
      using div_mult_mod_eq [of n 10] by linarith
    ultimately show ?thesis using False by (subst nat_digits.simps) (simp add: digits_value_def)
  qed
qed

lemma nat_digits_length: "0 < k \<Longrightarrow> n < 10 ^ k \<Longrightarrow> length (nat_digits n) \<le> k"
proof (induction n arbitrary: k rule: nat_digits.induct)
  case (1 n)
  show ?case
  proof (cases "n < 10")
    case True
    with 1(2) show ?thesis by (subst nat_digits.simps) simp
  next
    case False
    obtain k' where k: "k = Suc k'" using 1(2) by (cases k) auto
    have "0 < k'" using 1(3) False k by (cases k') auto
    moreover have "n div 10 < 10 ^ k'" using 1(3) k by (simp add: less_mult_imp_div_less mult.commute)
    ultimately have "length (nat_digits (n div 10)) \<le> k'" using 1(1) False by simp
    with False k show ?thesis by (subst nat_digits.simps) simp
  qed
qed

lemma pad_digits:
  assumes "0 \<le> n" and "n < 10 ^ w" and "0 < w"
  shows "length (pad w n) = w" and "digits_value (pad w n) = n" and "\<forall>c \<in> set (pad w n). 48 \<le> c \<and> c \<le> 57"
proof -
  have t: "pad w n = replicate (w - length (nat_digits (nat n))) 48 @ nat_digits (nat n)"
    using assms(1) by (simp add: pad_def int_text_def Let_def)
  have "nat n < 10 ^ w" using assms(1,2) by (simp add: nat_less_iff)
  then have "length (nat_digits (nat n)) \<le> w" by (rule nat_digits_length [OF assms(3)])
  then show "length (pad w n) = w" by (simp add: t)
  have "fold (\<lambda>c acc. 10 * acc + (c - 48)) (replicate k 48) (0 :: int) = 0" for k by (induction k) simp_all
  then show "digits_value (pad w n) = n"
    using digits_value_nat_digits [of "nat n"] assms(1) by (simp add: t digits_value_def)
  show "\<forall>c \<in> set (pad w n). 48 \<le> c \<and> c \<le> 57" by (auto simp: t dest: nat_digits_range)
qed

end
