(* ===== verification/Plan_Review.thy ===== *)
theory Plan_Review
  imports Action_Service Catalog Calendar
begin

text \<open>
  The plan's edit revision and its AI review, \<open>app/services/plan_review_service.py\<close>. A review request
  is two transactions around a model call: the first answers from the stored row or marks it
  \<open>REVIEWING\<close> under a fresh request id, the second stores the result only if that request is still
  the latest. In a snapshot the ISO strings of the JSON are kept as the instants and dates they
  denote (\<open>_iso\<close> and \<open>_dt\<close>, \<open>_d\<close> are inverse to each other). The model and the planning draft that
  the request carries are parameters.
\<close>

section \<open>Revision and snapshot\<close>

definition bump_plan_revision :: "instant \<Rightarrow> ident \<Rightarrow> db \<Rightarrow> db" where
  "bump_plan_revision now eid d =
     (case find_event d eid of
        None \<Rightarrow> d
      | Some e \<Rightarrow>
          if ev_status e = PLANNING
          then put_event (touch now (e\<lparr>ev_plan_revision := ev_plan_revision e + 1\<rparr>)) d else d)"

definition snapshot_action :: "action \<Rightarrow> snap_action" where
  "snapshot_action a =
     \<lparr>sa_type = action_type_value (ac_type a), sa_title = ac_title a, sa_amount = ac_amount a,
      sa_due_date = ac_due_date a\<rparr>"

definition snapshot_plan :: "ident \<Rightarrow> db \<Rightarrow> snap_step list" where
  "snapshot_plan eid d =
     (let acts = sort_key (\<lambda>a. (ac_created_at a, ac_id a))
                   (filter (\<lambda>a. ac_event_id a = eid \<and> ac_step_id a \<noteq> None) (actions d))
      in map (\<lambda>s. \<lparr>ss_code = step_code_value (st_code s), ss_starts_at = st_starts_at s,
                   ss_deadline = st_deadline s,
                   ss_actions = map snapshot_action (filter (\<lambda>a. ac_step_id a = Some (st_id s)) acts)\<rparr>)
             (ordered_steps d eid))"

text \<open>Insert or overwrite the event's review row (\<open>on_conflict_do_update\<close>).\<close>

definition reset_baseline :: "ident \<Rightarrow> int \<Rightarrow> db \<Rightarrow> db" where
  "reset_baseline eid revision d =
     (let r = \<lparr>pr_event_id = eid, pr_baseline = snapshot_plan eid d, pr_generated_revision = revision,
               pr_status = Review_NOT_REQUESTED, pr_request_id = None, pr_reviewed_revision = None,
               pr_outcome = None, pr_items = None, pr_error_code = None, pr_requested_at = None,
               pr_finished_at = None\<rparr>
      in case find_plan_review d eid of
           None \<Rightarrow> d\<lparr>plan_reviews := plan_reviews d @ [r]\<rparr>
         | Some _ \<Rightarrow> put_plan_review r d)"

section \<open>What the user changed\<close>

text \<open>Codes of one phase in order; \<open>BY_CODE[code]\<close> is defined for catalogued codes.\<close>

definition phase_of :: "step_code \<Rightarrow> step_phase option" where
  "phase_of c = map_option cat_phase (BY_CODE c)"

definition phase_sequences :: "step_code list \<Rightarrow> step_phase \<Rightarrow> step_code list" where
  "phase_sequences codes ph = filter (\<lambda>c. phase_of c = Some ph) codes"

text \<open>\<open>list.index\<close>, the first position of a value.\<close>

fun index_of :: "'a \<Rightarrow> 'a list \<Rightarrow> nat option" where
  "index_of x [] = None"
| "index_of x (y # ys) = (if x = y then Some 0 else map_option Suc (index_of x ys))"

definition moved_codes :: "step_code list \<Rightarrow> step_code list \<Rightarrow> step_code list" where
  "moved_codes current baseline =
     (let now = phase_sequences (filter (\<lambda>c. c \<in> set baseline) current);
          before = phase_sequences (filter (\<lambda>c. c \<in> set current) baseline)
      in filter (\<lambda>c. c \<in> set baseline \<and>
                  (case phase_of c of None \<Rightarrow> False
                   | Some ph \<Rightarrow> now ph \<noteq> before ph \<and> index_of c (now ph) \<noteq> index_of c (before ph)))
                current)"

datatype change_field = Field_amount | Field_due_date

record action_change =
  ch_code :: step_code
  ch_title :: pystr
  ch_field :: change_field
  ch_before :: "pystr option"
  ch_after :: "pystr option"

text \<open>\<open>NonBlankStr\<close> of the AI contracts: a blank text makes pydantic raise.\<close>

definition non_blank :: "pystr \<Rightarrow> api_error + pystr" where
  "non_blank s = (if py_strip s = [] then Inl (Unhandled ''ValidationError'') else Inr s)"

text \<open>\<open>{action["title"]: action for action in before}\<close>: the last action of a title counts.\<close>

definition by_title :: "snap_action list \<Rightarrow> pystr \<Rightarrow> snap_action option" where
  "by_title before t = map_of (rev (map (\<lambda>a. (sa_title a, a)) before)) t"

definition field_changes :: "step_code \<Rightarrow> snap_action \<Rightarrow> snap_action \<Rightarrow> pystr \<Rightarrow> action_change list" where
  "field_changes code previous a title =
     (if sa_amount previous \<noteq> sa_amount a
      then [\<lparr>ch_code = code, ch_title = title, ch_field = Field_amount,
             ch_before = map_option int_text (sa_amount previous),
             ch_after = map_option int_text (sa_amount a)\<rparr>] else []) @
     (if sa_due_date previous \<noteq> sa_due_date a
      then [\<lparr>ch_code = code, ch_title = title, ch_field = Field_due_date,
             ch_before = map_option iso_date (sa_due_date previous),
             ch_after = map_option iso_date (sa_due_date a)\<rparr>] else [])"

fun action_changes ::
  "step_code \<Rightarrow> snap_action list \<Rightarrow> snap_action list \<Rightarrow> api_error + action_change list" where
  "action_changes code before [] = Inr []"
| "action_changes code before (a # as) =
     (case by_title before (sa_title a) of
        None \<Rightarrow> action_changes code before as
      | Some previous \<Rightarrow>
          if sa_amount previous = sa_amount a \<and> sa_due_date previous = sa_due_date a
          then action_changes code before as
          else and_then (non_blank (sa_title a)) (\<lambda>title.
               and_then (action_changes code before as) (\<lambda>rest.
                 Inr (field_changes code previous a title @ rest))))"

section \<open>The review request\<close>

record review_action =
  ra_type :: action_type
  ra_title :: pystr
  ra_amount :: "int option"
  ra_due_date :: "date option"

record review_step =
  rs_code :: step_code
  rs_name :: pystr
  rs_phase :: step_phase
  rs_actor :: step_actor
  rs_starts_at :: "instant option"
  rs_deadline :: "instant option"
  rs_actions :: "review_action list"

datatype excluded_by = Excluded_ai | Excluded_user

record excluded_step =
  xs_code :: step_code
  xs_name :: pystr
  xs_by :: excluded_by
  xs_reason :: "pystr option"

record schedule_change =
  sc_code :: step_code
  sc_before_starts_at :: "instant option"
  sc_before_deadline :: "instant option"
  sc_after_starts_at :: "instant option"
  sc_after_deadline :: "instant option"

record change_set =
  cs_removed_codes :: "step_code list"
  cs_added_codes :: "step_code list"
  cs_moved_codes :: "step_code list"
  cs_schedule_changes :: "schedule_change list"
  cs_action_changes :: "action_change list"

record 'draft review_request =
  rq_draft :: 'draft
  rq_today :: date
  rq_included_steps :: "review_step list"
  rq_excluded_steps :: "excluded_step list"
  rq_changes :: change_set

text \<open>\<open>[f(x) for x in xs]\<close> where \<open>f\<close> may raise.\<close>

fun map_res :: "('a \<Rightarrow> 'e + 'b) \<Rightarrow> 'a list \<Rightarrow> 'e + 'b list" where
  "map_res f [] = Inr []"
| "map_res f (x # xs) = and_then (f x) (\<lambda>y. and_then (map_res f xs) (\<lambda>ys. Inr (y # ys)))"

definition step_code_of :: "string \<Rightarrow> api_error + step_code" where
  "step_code_of s = (case code_parse step_code_members step_code_value s of
     None \<Rightarrow> Inl (Unhandled ''ValueError'') | Some c \<Rightarrow> Inr c)"

definition action_type_of :: "string \<Rightarrow> api_error + action_type" where
  "action_type_of s = (case code_parse action_type_members action_type_value s of
     None \<Rightarrow> Inl (Unhandled ''ValueError'') | Some t \<Rightarrow> Inr t)"

text \<open>\<open>{StepCode(x["code"]): x for x in xs}\<close>\<close>

definition keyed_by_code :: "('a \<Rightarrow> string) \<Rightarrow> 'a list \<Rightarrow> api_error + (step_code \<times> 'a) list" where
  "keyed_by_code f xs =
     and_then (map_res (\<lambda>x. and_then (step_code_of (f x)) (\<lambda>c. Inr (c, x))) xs) (\<lambda>kvs.
       Inr (dict_merge [] kvs))"

definition review_action_of :: "snap_action \<Rightarrow> api_error + review_action" where
  "review_action_of a =
     and_then (action_type_of (sa_type a)) (\<lambda>t.
     and_then (non_blank (sa_title a)) (\<lambda>title.
       Inr \<lparr>ra_type = t, ra_title = title, ra_amount = sa_amount a, ra_due_date = sa_due_date a\<rparr>))"

definition review_step_of :: "step_code \<times> snap_step \<Rightarrow> api_error + review_step" where
  "review_step_of cs =
     (case cs of (c, s) \<Rightarrow>
        (case BY_CODE c of
           None \<Rightarrow> Inl (Unhandled ''KeyError'')
         | Some k \<Rightarrow>
             and_then (map_res review_action_of (ss_actions s)) (\<lambda>acts.
               Inr \<lparr>rs_code = c, rs_name = cat_name k, rs_phase = cat_phase k, rs_actor = cat_actor k,
                    rs_starts_at = ss_starts_at s, rs_deadline = ss_deadline s, rs_actions = acts\<rparr>)))"

definition excluded_steps ::
  "(step_code \<times> snap_step) list \<Rightarrow> (step_code \<times> pystr option) list \<Rightarrow> excluded_step list" where
  "excluded_steps now_steps ai_reasons =
     map (\<lambda>c. \<lparr>xs_code = c, xs_name = the (PLANNING_STEP_NAMES c),
               xs_by = (if map_of ai_reasons c \<noteq> None then Excluded_ai else Excluded_user),
               xs_reason = Option.bind (map_of ai_reasons c) id\<rparr>)
         (filter (\<lambda>c. map_of now_steps c = None) planning_codes)"

definition schedule_changes ::
  "(step_code \<times> snap_step) list \<Rightarrow> (step_code \<times> snap_step) list \<Rightarrow> schedule_change list" where
  "schedule_changes now_steps old_steps =
     concat (map (\<lambda>(c, s).
       case map_of old_steps c of
         None \<Rightarrow> []
       | Some old \<Rightarrow>
           if (ss_starts_at old, ss_deadline old) \<noteq> (ss_starts_at s, ss_deadline s)
           then [\<lparr>sc_code = c, sc_before_starts_at = ss_starts_at old,
                  sc_before_deadline = ss_deadline old, sc_after_starts_at = ss_starts_at s,
                  sc_after_deadline = ss_deadline s\<rparr>]
           else []) now_steps)"

definition all_action_changes ::
  "(step_code \<times> snap_step) list \<Rightarrow> (step_code \<times> snap_step) list \<Rightarrow> api_error + action_change list" where
  "all_action_changes now_steps old_steps =
     and_then (map_res (\<lambda>(c, s).
       case map_of old_steps c of
         None \<Rightarrow> Inr []
       | Some old \<Rightarrow> action_changes c (ss_actions old) (ss_actions s)) now_steps)
     (\<lambda>css. Inr (concat css))"

definition build_review_request ::
  "'draft \<Rightarrow> date \<Rightarrow> snap_step list \<Rightarrow> snap_step list \<Rightarrow> (string \<times> pystr option) list
     \<Rightarrow> api_error + 'draft review_request" where
  "build_review_request draft today current baseline ai_excluded =
     and_then (keyed_by_code ss_code current) (\<lambda>now_steps.
     and_then (keyed_by_code ss_code baseline) (\<lambda>old_steps.
     and_then (keyed_by_code fst ai_excluded) (\<lambda>ai_items.
     and_then (map_res review_step_of now_steps) (\<lambda>included.
     and_then (all_action_changes now_steps old_steps) (\<lambda>acts.
       Inr \<lparr>rq_draft = draft, rq_today = today, rq_included_steps = included,
            rq_excluded_steps = excluded_steps now_steps (map (\<lambda>(c, x). (c, snd x)) ai_items),
            rq_changes =
              \<lparr>cs_removed_codes = filter (\<lambda>c. map_of now_steps c = None) (map fst old_steps),
               cs_added_codes = filter (\<lambda>c. map_of old_steps c = None) (map fst now_steps),
               cs_moved_codes = moved_codes (map fst now_steps) (map fst old_steps),
               cs_schedule_changes = schedule_changes now_steps old_steps,
               cs_action_changes = acts\<rparr>\<rparr>)))))"

section \<open>Review state\<close>

definition REVIEW_TIMEOUT :: int where
  "REVIEW_TIMEOUT = seconds 90"

definition timed_out :: "plan_review \<Rightarrow> instant \<Rightarrow> bool" where
  "timed_out r now = (case pr_requested_at r of None \<Rightarrow> True | Some t \<Rightarrow> now - t > REVIEW_TIMEOUT)"

text \<open>\<open>PLANNING_STEP_NAMES.get(code, code)\<close>\<close>

definition step_name_or_code :: "string \<Rightarrow> pystr" where
  "step_name_or_code s =
     (case Option.bind (code_parse step_code_members step_code_value s) PLANNING_STEP_NAMES of
        None \<Rightarrow> lit s | Some name \<Rightarrow> name)"

record review_out =
  ro_status :: plan_review_status
  ro_generated_revision :: int
  ro_reviewed_revision :: "int option"
  ro_outcome :: "string option"
  ro_items :: "(review_item \<times> pystr list) list"
  ro_error_code :: "string option"

definition review_out :: "plan_review option \<Rightarrow> instant \<Rightarrow> review_out option" where
  "review_out row now =
     map_option (\<lambda>r.
       let stuck = (pr_status r = Review_REVIEWING \<and> timed_out r now)
       in \<lparr>ro_status = (if stuck then Review_FAILED else pr_status r),
           ro_generated_revision = pr_generated_revision r,
           ro_reviewed_revision = pr_reviewed_revision r, ro_outcome = pr_outcome r,
           ro_items = map (\<lambda>i. (i, map step_name_or_code (ri_step_codes i)))
                          (case pr_items r of None \<Rightarrow> [] | Some xs \<Rightarrow> xs),
           ro_error_code = (if stuck then Some ''REVIEW_TIMEOUT'' else pr_error_code r)\<rparr>) row"

definition review_error_code :: "ai_exn \<Rightarrow> string option" where
  "review_error_code e =
     (if is_invalid_response e \<or> e = PydanticValidationError then Some ''AI_INVALID_RESPONSE''
      else if e = AIConfigError then Some ''AI_MISCONFIGURED''
      else if is_retryable e then Some ''AI_UNAVAILABLE''
      else if is_ai_error e then Some ''AI_INVALID_RESPONSE''
      else None)"

text \<open>The outcome and the items of a review, or the code of its failure.\<close>

datatype review_result = Review_Result string "review_item list" | Review_Failure string

definition finish_review :: "instant \<Rightarrow> review_result \<Rightarrow> plan_review \<Rightarrow> plan_review" where
  "finish_review now res r =
     (case res of
        Review_Result oc items \<Rightarrow>
          r\<lparr>pr_status := Review_DONE, pr_outcome := Some oc, pr_items := Some items\<rparr>
      | Review_Failure code \<Rightarrow> r\<lparr>pr_status := Review_FAILED, pr_error_code := Some code\<rparr>)
     \<lparr>pr_finished_at := Some now\<rparr>"

definition store_result ::
  "instant \<Rightarrow> ident \<Rightarrow> string \<Rightarrow> review_result \<Rightarrow> db \<Rightarrow> review_out option \<times> db" where
  "store_result now eid rid res d =
     (case find_plan_review d eid of
        None \<Rightarrow> (None, d)
      | Some r \<Rightarrow>
          if pr_request_id r = Some rid \<and> pr_status r = Review_REVIEWING
          then (review_out (Some (finish_review now res r)) now, put_plan_review (finish_review now res r) d)
          else (review_out (Some r) now, d))"

text \<open>
  The first transaction of \<open>request_review\<close> answers at once or hands the request to the model under a
  request id.
\<close>

datatype 'draft review_begin = Answer "review_out option" | Ask "'draft review_request" string

definition reviewing :: "instant \<Rightarrow> int \<Rightarrow> string \<Rightarrow> plan_review \<Rightarrow> plan_review" where
  "reviewing now expected rid r =
     r\<lparr>pr_status := Review_REVIEWING, pr_request_id := Some rid, pr_reviewed_revision := Some expected,
       pr_outcome := None, pr_items := None, pr_error_code := None, pr_requested_at := Some now,
       pr_finished_at := None\<rparr>"

definition request_review ::
  "rnd \<Rightarrow> instant \<Rightarrow> (db \<Rightarrow> 'draft) \<Rightarrow> ident \<Rightarrow> int \<Rightarrow> db \<Rightarrow> api_error + ('draft review_begin \<times> db)" where
  "request_review g now current_draft eid expected d =
     (case find_event d eid of
        None \<Rightarrow> Inl (Unhandled ''NoResultFound'')
      | Some e \<Rightarrow>
          if ev_status e \<noteq> PLANNING then Inl EventNotPlanning
          else if ev_plan_revision e \<noteq> expected then Inl VersionConflict
          else (case find_plan_review d eid of
             None \<Rightarrow> Inl PlanNotGenerated
           | Some r \<Rightarrow>
               if pr_status r = Review_NOT_REQUESTED \<and> expected = pr_generated_revision r
               then Inr (Answer (review_out (Some r) now), d)
               else if pr_reviewed_revision r = Some expected \<and>
                 (pr_status r = Review_DONE \<or> (pr_status r = Review_REVIEWING \<and> \<not> timed_out r now))
               then Inr (Answer (review_out (Some r) now), d)
               else and_then
                 (build_review_request (current_draft d) (today_kst now) (snapshot_plan eid d)
                    (pr_baseline r)
                    (case ev_plan_excluded_steps e of None \<Rightarrow> [] | Some xs \<Rightarrow> xs))
                 (\<lambda>rq. let rid = uuid4_hex g (draws d)
                       in Inr (Ask rq rid, put_plan_review (reviewing now expected rid r) (drawn d)))))"

text \<open>
  The second transaction, in the state the database has reached by then. An exception that is no
  failure of the AI is stored as \<open>INTERNAL_ERROR\<close> and raised again, after the commit.
\<close>

definition finish_request_review ::
  "instant \<Rightarrow> ident \<Rightarrow> string \<Rightarrow> ai_exn + (string \<times> review_item list) \<Rightarrow> db
     \<Rightarrow> (api_error + review_out option) \<times> db" where
  "finish_request_review now eid rid answer d =
     (case answer of
        Inl ex \<Rightarrow>
          (case review_error_code ex of
             None \<Rightarrow> (Inl (Unhandled ''reraised''),
                      snd (store_result now eid rid (Review_Failure ''INTERNAL_ERROR'') d))
           | Some code \<Rightarrow> map_prod Inr id (store_result now eid rid (Review_Failure code) d))
      | Inr (oc, items) \<Rightarrow> map_prod Inr id (store_result now eid rid (Review_Result oc items) d))"

end
