(* ===== verification/Event_Service.thy ===== *)
theory Event_Service
  imports Plan_Review
begin

text \<open>
  Reading and editing events, \<open>app/services/event_service.py\<close>, with the routes of \<open>plan_items.py\<close> and
  the cancellation routes of \<open>events.py\<close>: the cancellation checklist, the list and detail views, the
  edits of a step's schedule and of an action, and the replacement of a plan's steps.
\<close>

section \<open>Cancellation\<close>

text \<open>Name, description and message of the checklist (Korean texts as code points).\<close>

definition CANCEL_TASKS :: "(pystr \<times> pystr \<times> pystr option) list" where
  "CANCEL_TASKS =
     [([52280, 44032, 51088, 50640, 44172, 32, 52712, 49548, 32, 50504, 45236],
       [52280, 44032, 51088, 50640, 44172, 32, 54665, 49324, 32, 52712, 49548, 50752, 32, 54872,
         48520, 32, 50668, 48512, 47484, 32, 50504, 45236, 54644, 50836, 46],
       Some [54665, 49324, 44032, 32, 52712, 49548, 46104, 50632, 50612, 50836, 46, 32, 54872, 48520,
         32, 48143, 32, 54980, 49549, 32, 50504, 45236, 47484, 32, 54869, 51064, 54644, 32, 51452,
         49464, 50836, 46]),
      ([50696, 50557, 183, 44228, 50557, 32, 52712, 49548],
       [51109, 49548, 50752, 32, 50808, 48512, 32, 50629, 52404, 32, 50696, 50557, 51012, 32,
         51649, 51217, 32, 52712, 49548, 54644, 50836, 46],
       Some [54665, 49324, 32, 52712, 49548, 47196, 32, 50696, 50557, 51012, 32, 51221, 47532, 54644,
         32, 51452, 49464, 50836, 46]),
      ([51077, 44552, 183, 54872, 48520, 32, 51221, 47532],
       [51077, 44552, 32, 45236, 50669, 51012, 32, 54869, 51064, 54616, 44256, 32, 54872, 48520,
         51012, 32, 52376, 47532, 54644, 50836, 46],
       None),
      ([52712, 49548, 32, 44592, 47197, 32, 45224, 44592, 44592],
       [44288, 47144, 32, 51088, 47308, 50752, 32, 44208, 51221, 32, 45236, 50857, 51012, 32,
         51088, 47308, 54632, 50640, 32, 45224, 44200, 50836, 46],
       None)]"

fun insert_cancel_tasks ::
  "rnd \<Rightarrow> instant \<Rightarrow> ident \<Rightarrow> int \<Rightarrow> (pystr \<times> pystr \<times> pystr option) list \<Rightarrow> db \<Rightarrow> api_error + db" where
  "insert_cancel_tasks g now eid i [] d = Inr d"
| "insert_cancel_tasks g now eid i ((name, descr, msg) # ts) d =
     and_then (insert_row ct_id
       \<lparr>ct_id = new_id g d ''ect'', ct_event_id = eid, ct_task_order = i + 1, ct_name = name,
        ct_description = descr, ct_message = msg, ct_completed_at = None, ct_completed_by = None,
        ct_created_at = now\<rparr> (cancel_tasks d))
       (\<lambda>rows. insert_cancel_tasks g now eid (i + 1) ts (drawn (d\<lparr>cancel_tasks := rows\<rparr>)))"

definition begin_event_cancellation :: "rnd \<Rightarrow> instant \<Rightarrow> ident \<Rightarrow> db \<Rightarrow> api_error + db" where
  "begin_event_cancellation g now eid d =
     (case find_event d eid of
        None \<Rightarrow> Inl EventCancelNotAllowed
      | Some e \<Rightarrow>
          if ev_status e \<noteq> ON_GOING then Inl EventCancelNotAllowed
          else let d1 = put_event (touch now (e\<lparr>ev_status := CANCELLING\<rparr>)) d
               in if length (filter (\<lambda>t. ct_event_id t = eid) (cancel_tasks d1)) = 0
                  then insert_cancel_tasks g now eid 0 CANCEL_TASKS d1
                  else Inr d1)"

definition list_cancel_tasks :: "ident \<Rightarrow> db \<Rightarrow> cancel_task list" where
  "list_cancel_tasks eid d =
     sort_key ct_task_order (filter (\<lambda>t. ct_event_id t = eid) (cancel_tasks d))"

definition first_open_order :: "ident \<Rightarrow> db \<Rightarrow> int option" where
  "first_open_order eid d =
     map_option ct_task_order (find (\<lambda>t. ct_completed_at t = None) (list_cancel_tasks eid d))"

definition complete_cancel_task ::
  "instant \<Rightarrow> ident \<Rightarrow> ident \<Rightarrow> member \<Rightarrow> db \<Rightarrow> api_error + (cancel_task \<times> db)" where
  "complete_cancel_task now eid tid m d =
     (case find_cancel_task d tid of
        None \<Rightarrow> Inl CancelTaskNotFound
      | Some t \<Rightarrow>
        (case find_event d (ct_event_id t) of
           None \<Rightarrow> Inl EventCancelNotAllowed
         | Some e \<Rightarrow>
             if ev_id e \<noteq> eid then Inl EventCancelNotAllowed
             else if ct_completed_at t \<noteq> None then Inr (t, d)
             else if ev_status e \<noteq> CANCELLING then Inl EventCancelNotAllowed
             else if first_open_order eid d \<noteq> Some (ct_task_order t) then Inl CancelTaskOutOfOrder
             else let t' = t\<lparr>ct_completed_at := Some now, ct_completed_by := Some (mb_id m)\<rparr>;
                      d1 = put_cancel_task t' d;
                      remaining = length (filter (\<lambda>x. ct_event_id x = ev_id e \<and> ct_completed_at x = None)
                                                 (cancel_tasks d1))
                  in Inr (t', if remaining = 0
                              then put_event (touch now (e\<lparr>ev_status := CANCELLED\<rparr>)) d1 else d1)))"

section \<open>Views\<close>

record event_base =
  eb_id :: ident
  eb_title :: pystr
  eb_status :: event_status
  eb_start_date :: "date option"
  eb_end_date :: "date option"
  eb_dday :: "int option"
  eb_location :: "pystr option"
  eb_headcount :: "int option"

text \<open>\<open>_event_base\<close>; its \<open>payment\<close> and \<open>budget\<close> are always null.\<close>

definition event_base :: "event \<Rightarrow> date \<Rightarrow> event_base" where
  "event_base e today =
     \<lparr>eb_id = ev_id e, eb_title = ev_title e, eb_status = ev_status e,
      eb_start_date = ev_start_date e, eb_end_date = ev_end_date e,
      eb_dday = dday (ev_start_date e) today, eb_location = ev_location e,
      eb_headcount = ev_expected_headcount e\<rparr>"

text \<open>\<open>_PENDING_APPROVAL\<close> and \<open>_pending_approval_counts\<close>, for one event.\<close>

definition pending_approval :: "action \<Rightarrow> bool" where
  "pending_approval a \<longleftrightarrow> ac_status a = PENDING \<and> ac_type a \<noteq> CONFIRMATION"

definition pending_approval_count :: "db \<Rightarrow> ident \<Rightarrow> nat" where
  "pending_approval_count d eid =
     length (filter (\<lambda>a. ac_event_id a = eid \<and> pending_approval a) (actions d))"

record event_card =
  ek_base :: event_base
  ek_current_step_name :: "pystr option"
  ek_step_progress :: "(int \<times> step_state) list"
  ek_pending_approval_count :: nat

text \<open>\<open>asc().nulls_last()\<close> and \<open>desc().nulls_first()\<close> as sort keys.\<close>

definition nulls_last :: "int option \<Rightarrow> nat \<times> int" where
  "nulls_last v = (case v of None \<Rightarrow> (1, 0) | Some n \<Rightarrow> (0, n))"

definition desc_nulls_first :: "int option \<Rightarrow> nat \<times> int" where
  "desc_nulls_first v = (case v of None \<Rightarrow> (0, 0) | Some n \<Rightarrow> (1, - n))"

definition event_card :: "db \<Rightarrow> date \<Rightarrow> event \<Rightarrow> event_card" where
  "event_card d today e =
     (let ss = ordered_steps d (ev_id e); states = step_states ss (ev_status e)
      in \<lparr>ek_base = event_base e today,
          ek_current_step_name = map_option st_name (current_step ss states),
          ek_step_progress = map (\<lambda>s. (st_step_order s, the (map_of states (st_id s)))) ss,
          ek_pending_approval_count = pending_approval_count d (ev_id e)\<rparr>)"

definition list_events ::
  "ident \<Rightarrow> event_status option \<Rightarrow> int \<Rightarrow> int \<Rightarrow> date \<Rightarrow> db \<Rightarrow> event_card list \<times> nat" where
  "list_events club status page sz today d =
     (let rows = filter (\<lambda>e. ev_club_id e = club \<and> (status = None \<or> Some (ev_status e) = status)) (events d)
      in (map (event_card d today)
            (paginate page sz
               (sort_key (\<lambda>e. (nulls_last (ev_start_date e), - ev_created_at e, ev_id e)) rows)),
          length rows))"

definition get_event_detail ::
  "event \<Rightarrow> date \<Rightarrow> db \<Rightarrow> event_base \<times> (ident \<times> int \<times> pystr) option" where
  "get_event_detail e today d =
     (let ss = ordered_steps d (ev_id e)
      in (event_base e today,
          map_option (\<lambda>s. (st_id s, st_step_order s, st_name s))
            (current_step ss (step_states ss (ev_status e)))))"

text \<open>\<open>_ACTION_ORDER\<close>\<close>

definition action_order :: "action \<Rightarrow> (nat \<times> int) \<times> (nat \<times> int) \<times> int \<times> ident" where
  "action_order a =
     (desc_nulls_first (ac_resolved_at a), nulls_last (ac_due_date a), ac_created_at a, ac_id a)"

record step_view =
  sv_step :: step
  sv_state :: step_state
  sv_completed_count :: nat
  sv_total_action_count :: nat
  sv_done_actions :: "(ident \<times> pystr \<times> action_status) list"
  sv_remaining_actions :: "(ident \<times> pystr \<times> action_status \<times> bool) list"

definition step_view :: "action list \<Rightarrow> (ident \<times> step_state) list \<Rightarrow> step \<Rightarrow> step_view" where
  "step_view acts states s =
     (let mine = filter (\<lambda>a. ac_step_id a = Some (st_id s)) acts;
          finished = filter (\<lambda>a. ac_status a = DONE) mine;
          remaining = filter (\<lambda>a. open_status (ac_status a)) mine
      in \<lparr>sv_step = s, sv_state = the (map_of states (st_id s)),
          sv_completed_count = length finished, sv_total_action_count = length mine,
          sv_done_actions = map (\<lambda>a. (ac_id a, ac_title a, ac_status a)) finished,
          sv_remaining_actions =
            map (\<lambda>a. (ac_id a, ac_title a, ac_status a, ac_approve_needed a)) remaining\<rparr>)"

definition list_steps :: "ident \<Rightarrow> event_status \<Rightarrow> db \<Rightarrow> step_view list" where
  "list_steps eid es d =
     (let ss = ordered_steps d eid;
          acts = sort_key action_order
                   (filter (\<lambda>a. ac_event_id a = eid \<and> ac_step_id a \<noteq> None) (actions d))
      in map (step_view acts (step_states ss es)) ss)"

record action_out =
  ao_action :: action
  ao_step_name :: "pystr option"
  ao_resolved_by :: "(ident \<times> pystr \<times> member_role) option"
  ao_options :: "json option"
  ao_allow_manual :: "json option"
  ao_payload :: "dict option"
  ao_can_approve :: bool
  ao_editable :: bool
  ao_resolved_choice :: "json option"
  ao_manual_value :: "json option"
  ao_content_status :: action_content_status
  ao_can_request_draft :: bool

text \<open>
  \<open>action_out\<close>. The columns that are copied as they are stand in \<open>ao_action\<close>; the fields here are the
  computed ones.
\<close>

definition action_out :: "instant \<Rightarrow> member \<Rightarrow> event_status \<Rightarrow> db \<Rightarrow> action \<Rightarrow> action_out" where
  "action_out now m es d a =
     (let payload = (if ac_type a = CONFIRMATION then (case ac_payload a of None \<Rightarrow> [] | Some p \<Rightarrow> p) else [])
      in \<lparr>ao_action = a,
          ao_step_name = map_option st_name (Option.bind (ac_step_id a) (find_step d)),
          ao_resolved_by = map_option (\<lambda>r. (mb_id r, mb_name r, mb_role r))
            (Option.bind (ac_resolved_by a) (find_member d)),
          ao_options = map_of payload ''options'',
          ao_allow_manual = map_of payload ''allow_manual'',
          ao_payload = (if ac_type a = CONFIRMATION then None else ac_payload a),
          ao_can_approve = can_approve (mb_role m) (ac_status a) (ac_type a) (ac_approve_needed a) es,
          ao_editable = is_editable (ac_status a),
          ao_resolved_choice = map_of payload ''resolved_choice'',
          ao_manual_value = map_of payload ''manual_value'',
          ao_content_status = shown_content_status (ac_content_status a) (ac_draft_started_at a) now,
          ao_can_request_draft = can_request_draft es (ac_status a) (ac_type a) (ac_content_status a)
            (ac_content_source a) (ac_draft_started_at a) now\<rparr>)"

definition list_actions ::
  "instant \<Rightarrow> ident \<Rightarrow> member \<Rightarrow> event_status \<Rightarrow> action_status list \<Rightarrow> action_type option
     \<Rightarrow> action_type option \<Rightarrow> int \<Rightarrow> int \<Rightarrow> db \<Rightarrow> action_out list \<times> nat" where
  "list_actions now eid m es statuses typ exclude page sz d =
     (let rows = filter (\<lambda>a. ac_event_id a = eid \<and> (statuses = [] \<or> ac_status a \<in> set statuses) \<and>
                   (typ = None \<or> Some (ac_type a) = typ) \<and> (exclude = None \<or> Some (ac_type a) \<noteq> exclude))
                 (actions d)
      in (map (action_out now m es d) (paginate page sz (sort_key action_order rows)), length rows))"

record planned_action_out =
  po_action :: action
  po_payload :: "dict option"
  po_editable :: bool

record planned_step_out =
  ps_step :: step
  ps_editable :: bool
  ps_actions :: "planned_action_out list"

definition planned_step_out :: "db \<Rightarrow> step \<Rightarrow> planned_step_out" where
  "planned_step_out d s =
     \<lparr>ps_step = s, ps_editable = is_step_editable (st_completed_at s),
      ps_actions = map (\<lambda>a. \<lparr>po_action = a,
          po_payload = (if ac_type a = CONFIRMATION then None else ac_payload a),
          po_editable = is_editable (ac_status a)\<rparr>) (step_actions d (st_id s))\<rparr>"

section \<open>Editing a step or an action\<close>

definition new_conversation :: "rnd \<Rightarrow> instant \<Rightarrow> ident \<Rightarrow> ident \<Rightarrow> int \<Rightarrow> db \<Rightarrow> conversation" where
  "new_conversation g now mid eid revision d =
     \<lparr>cv_id = new_id g d ''cnv'', cv_member_id = mid, cv_event_id = eid, cv_title = None,
      cv_base_revision = revision, cv_resume_state = None, cv_generation_readiness = None,
      cv_last_record_lookup = None, cv_record_lookup_history = None, cv_created_at = now\<rparr>"

definition add_conversation :: "conversation \<Rightarrow> db \<Rightarrow> api_error + db" where
  "add_conversation c d =
     and_then (insert_row cv_id c (conversations d)) (\<lambda>rows. Inr (drawn (d\<lparr>conversations := rows\<rparr>)))"

definition advance_plan_revision ::
  "rnd \<Rightarrow> instant \<Rightarrow> event \<Rightarrow> ident \<Rightarrow> db \<Rightarrow> api_error + db" where
  "advance_plan_revision g now e mid d =
     (if ev_status e \<noteq> PLANNING then Inr d
      else case latest_conversation d (ev_id e) of
             None \<Rightarrow> add_conversation (new_conversation g now mid (ev_id e) 1 d) d
           | Some c \<Rightarrow> Inr (put_conversation (c\<lparr>cv_base_revision := cv_base_revision c + 1\<rparr>) d))"

text \<open>The sent fields of a schedule update; a sent null clears the value.\<close>

record step_update =
  su_starts_at :: "instant option option"
  su_deadline :: "instant option option"

definition step_changed :: "step_update \<Rightarrow> step \<Rightarrow> bool" where
  "step_changed u s \<longleftrightarrow>
     (case su_starts_at u of None \<Rightarrow> False | Some v \<Rightarrow> st_starts_at s \<noteq> v) \<or>
     (case su_deadline u of None \<Rightarrow> False | Some v \<Rightarrow> st_deadline s \<noteq> v)"

definition apply_step_update :: "step_update \<Rightarrow> step \<Rightarrow> step" where
  "apply_step_update u s =
     s\<lparr>st_starts_at := (case su_starts_at u of None \<Rightarrow> st_starts_at s | Some v \<Rightarrow> v),
       st_deadline := (case su_deadline u of None \<Rightarrow> st_deadline s | Some v \<Rightarrow> v),
       st_version := st_version s + 1\<rparr>"

definition update_step ::
  "rnd \<Rightarrow> instant \<Rightarrow> step_update \<Rightarrow> ident \<Rightarrow> ident \<Rightarrow> int \<Rightarrow> db \<Rightarrow> api_error + db" where
  "update_step g now u mid sid expected d =
     (case find_step d sid of
        None \<Rightarrow> Inl NotEditable
      | Some s \<Rightarrow>
        (case find_event d (st_event_id s) of
           None \<Rightarrow> Inl NotEditable
         | Some e \<Rightarrow>
             if ev_status e \<in> {CANCELLING, CANCELLED} then Inl NotEditable
             else if \<not> is_step_editable (st_completed_at s) then Inl NotEditable
             else if st_version s \<noteq> expected then Inl VersionConflict
             else and_then
               (advance_plan_revision g now e mid (put_step (apply_step_update u s) (put_event (touch now e) d)))
               (\<lambda>d1. Inr (if step_changed u s then bump_plan_revision now (ev_id e) d1 else d1))))"

text \<open>The sent columns of an action update, and the sent keys of its payload.\<close>

record action_values =
  av_title :: "pystr option option"
  av_subtitle :: "pystr option option"
  av_amount :: "int option option"
  av_due_date :: "date option option"
  av_content :: "pystr option option"

definition values_changed :: "action_values \<Rightarrow> action \<Rightarrow> bool" where
  "values_changed v a \<longleftrightarrow>
     (case av_title v of None \<Rightarrow> False | Some x \<Rightarrow> Some (ac_title a) \<noteq> x) \<or>
     (case av_subtitle v of None \<Rightarrow> False | Some x \<Rightarrow> ac_subtitle a \<noteq> x) \<or>
     (case av_amount v of None \<Rightarrow> False | Some x \<Rightarrow> ac_amount a \<noteq> x) \<or>
     (case av_due_date v of None \<Rightarrow> False | Some x \<Rightarrow> ac_due_date a \<noteq> x) \<or>
     (case av_content v of None \<Rightarrow> False | Some x \<Rightarrow> ac_content a \<noteq> x)"

text \<open>A body edited by hand belongs to the user: it is ready and has no placeholders.\<close>

definition own_content :: "action_values \<Rightarrow> action \<Rightarrow> action" where
  "own_content v a =
     (case av_content v of
        None \<Rightarrow> a
      | Some x \<Rightarrow>
          if ac_content a \<noteq> x
          then a\<lparr>ac_content_source := Some Source_USER, ac_content_status := Content_READY,
                 ac_content_unknowns := []\<rparr>
          else a)"

definition apply_values :: "action_values \<Rightarrow> action \<Rightarrow> action" where
  "apply_values v a =
     a\<lparr>ac_title := (case av_title v of Some (Some x) \<Rightarrow> x | _ \<Rightarrow> ac_title a),
       ac_subtitle := (case av_subtitle v of None \<Rightarrow> ac_subtitle a | Some x \<Rightarrow> x),
       ac_amount := (case av_amount v of None \<Rightarrow> ac_amount a | Some x \<Rightarrow> x),
       ac_due_date := (case av_due_date v of None \<Rightarrow> ac_due_date a | Some x \<Rightarrow> x),
       ac_content := (case av_content v of None \<Rightarrow> ac_content a | Some x \<Rightarrow> x)\<rparr>"

text \<open>The columns the database accepts: the title is not null and short enough, the amount fits.\<close>

definition storable :: "action_values \<Rightarrow> action \<Rightarrow> bool" where
  "storable v a \<longleftrightarrow> av_title v \<noteq> Some None \<and> fits_varchar 200 (Some (ac_title a)) \<and> fits_int4 (ac_amount a)"

definition dict_eq :: "dict \<Rightarrow> dict \<Rightarrow> bool" where
  "dict_eq x y \<longleftrightarrow> list_all (\<lambda>k. map_of x k = map_of y k) (map fst x @ map fst y)"

text \<open>Amounts of the fee and settlement steps go up to the event.\<close>

definition derive_event :: "action_values \<Rightarrow> action \<Rightarrow> step option \<Rightarrow> event \<Rightarrow> event" where
  "derive_event v a s e =
     (case (av_amount v, s) of
        (Some _, Some st) \<Rightarrow>
          if st_code st = COLLECT_FEES then e\<lparr>ev_fee_per_person := ac_amount a\<rparr>
          else if st_code st = SETTLE_EXPENSES then e\<lparr>ev_budget_total := ac_amount a\<rparr>
          else e
      | _ \<Rightarrow> e)"

text \<open>An edited approval is withdrawn.\<close>

definition reopen :: "action \<Rightarrow> action" where
  "reopen a =
     (if ac_status a = APPROVED
      then a\<lparr>ac_status := PENDING, ac_resolved_at := None, ac_resolved_by := None\<rparr> else a)"

text \<open>The row \<open>update_action\<close> writes.\<close>

definition edited_row :: "action_values \<Rightarrow> dict \<Rightarrow> action \<Rightarrow> action" where
  "edited_row v pv a =
     (let a1 = apply_values v (own_content v a);
          a2 = (if pv \<noteq> [] then a1\<lparr>ac_payload := Some (dict_merge (case ac_payload a of None \<Rightarrow> [] | Some p \<Rightarrow> p) pv)\<rparr>
                else a1)
      in reopen (a2\<lparr>ac_version := ac_version a + 1\<rparr>))"

definition edit_changed :: "action_values \<Rightarrow> dict \<Rightarrow> action \<Rightarrow> bool" where
  "edit_changed v pv a \<longleftrightarrow> values_changed v a \<or>
     (pv \<noteq> [] \<and> \<not> dict_eq (dict_merge (case ac_payload a of None \<Rightarrow> [] | Some p \<Rightarrow> p) pv)
                          (case ac_payload a of None \<Rightarrow> [] | Some p \<Rightarrow> p))"

definition update_action ::
  "rnd \<Rightarrow> instant \<Rightarrow> action_values \<Rightarrow> dict \<Rightarrow> ident \<Rightarrow> ident \<Rightarrow> int \<Rightarrow> db \<Rightarrow> api_error + db" where
  "update_action g now v pv mid aid expected d =
     (if (case av_content v of None \<Rightarrow> False | Some c \<Rightarrow> blank c) then Inl (ValidationFailed [''content''])
      else case find_action d aid of
        None \<Rightarrow> Inl ActionNotFound
      | Some a \<Rightarrow>
        (case find_event d (ac_event_id a) of
           None \<Rightarrow> Inl ActionNotFound
         | Some e \<Rightarrow>
             if ev_status e \<in> {CANCELLING, CANCELLED} then Inl NotEditable
             else if \<not> is_editable (ac_status a) then Inl NotEditable
             else if ac_version a \<noteq> expected then Inl VersionConflict
             else let a' = edited_row v pv a;
                      e' = derive_event v a' (Option.bind (ac_step_id a) (find_step d)) e
                  in if \<not> storable v a' then Inl (Unhandled ''IntegrityError'')
                     else and_then
                       (advance_plan_revision g now e mid (put_action a' (put_event (touch now e') d)))
                       (\<lambda>d1. Inr (if edit_changed v pv a then bump_plan_revision now (ev_id e) d1 else d1))))"

section \<open>Replacing the steps of a plan\<close>

text \<open>\<open>{step.code: step for step in steps}\<close>\<close>

definition steps_by_code :: "db \<Rightarrow> ident \<Rightarrow> (step_code \<times> step) list" where
  "steps_by_code d eid =
     dict_merge [] (map (\<lambda>s. (st_code s, s)) (filter (\<lambda>s. st_event_id s = eid) (steps d)))"

text \<open>
  Deleting a step with its actions. A ledger entry of a deleted action keeps standing without the link
  (\<open>SET NULL\<close>).
\<close>

definition delete_step :: "step \<Rightarrow> db \<Rightarrow> db" where
  "delete_step s d =
     (let gone = map ac_id (step_actions d (st_id s))
      in d\<lparr>actions := filter (\<lambda>a. ac_step_id a \<noteq> Some (st_id s)) (actions d),
           steps := filter (\<lambda>x. st_id x \<noteq> st_id s) (steps d),
           expenses := map (\<lambda>x. if ex_action_id x \<in> Some ` set gone then x\<lparr>ex_action_id := None\<rparr> else x)
                           (expenses d)\<rparr>)"

text \<open>\<open>phase_rank[BY_CODE[code].phase]\<close>; the lookups raise \<open>KeyError\<close>.\<close>

definition code_rank :: "step_code \<Rightarrow> nat option" where
  "code_rank c = Option.bind (BY_CODE c) (\<lambda>k. phase_rank (cat_phase k))"

definition order_codes :: "step_code list \<Rightarrow> api_error + step_code list" where
  "order_codes codes =
     (if list_all (\<lambda>c. code_rank c \<noteq> None) codes
      then Inr (sort_key (\<lambda>c. the (code_rank c)) codes) else Inl (Unhandled ''KeyError''))"

definition new_action :: "rnd \<Rightarrow> instant \<Rightarrow> ident \<Rightarrow> ident \<Rightarrow> pystr \<Rightarrow> action_type \<Rightarrow> db \<Rightarrow> action" where
  "new_action g now eid sid title t d =
     \<lparr>ac_id = new_id g d ''act'', ac_event_id = eid, ac_step_id = Some sid, ac_type = t,
      ac_title = title, ac_subtitle = None, ac_content = None, ac_content_status = Content_NONE,
      ac_content_source = None, ac_content_unknowns = [], ac_draft_attempt_id = None,
      ac_draft_started_at = None, ac_draft_error_code = None,
      ac_irreversible = fst (action_defaults t), ac_approve_needed = snd (action_defaults t),
      ac_status = PENDING, ac_version = 1, ac_amount = None, ac_due_date = None, ac_payload = None,
      ac_deny_reason = None, ac_resolved_at = None, ac_resolved_by = None, ac_created_at = now\<rparr>"

fun insert_actions ::
  "rnd \<Rightarrow> instant \<Rightarrow> ident \<Rightarrow> ident \<Rightarrow> pystr \<Rightarrow> action_type list \<Rightarrow> db \<Rightarrow> api_error + db" where
  "insert_actions g now eid sid title [] d = Inr d"
| "insert_actions g now eid sid title (t # ts) d =
     and_then (insert_row ac_id (new_action g now eid sid title t d) (actions d)) (\<lambda>rows.
       insert_actions g now eid sid title ts (drawn (d\<lparr>actions := rows\<rparr>)))"

definition new_step :: "rnd \<Rightarrow> ident \<Rightarrow> int \<Rightarrow> catalog_step \<Rightarrow> db \<Rightarrow> step" where
  "new_step g eid order k d =
     \<lparr>st_id = new_id g d ''stp'', st_event_id = eid, st_step_order = order, st_phase = cat_phase k,
      st_code = cat_code k, st_name = cat_name k, st_actor = cat_actor k, st_starts_at = None,
      st_deadline = None, st_completed_at = None, st_completed_by = None, st_version = 1\<rparr>"

definition place_step ::
  "rnd \<Rightarrow> instant \<Rightarrow> ident \<Rightarrow> (step_code \<times> step) list \<Rightarrow> int \<Rightarrow> step_code \<Rightarrow> db \<Rightarrow> api_error + db" where
  "place_step g now eid existing order code d =
     (case map_of existing code of
        Some s \<Rightarrow> Inr (put_step (s\<lparr>st_step_order := order\<rparr>) d)
      | None \<Rightarrow>
        (case BY_CODE code of
           None \<Rightarrow> Inl (Unhandled ''KeyError'')
         | Some k \<Rightarrow>
             let s = new_step g eid order k d in
             and_then (insert_row st_id s (steps d)) (\<lambda>rows.
               insert_actions g now eid (st_id s) (cat_name k) (cat_actions k)
                 (drawn (d\<lparr>steps := rows\<rparr>)))))"

fun place_steps ::
  "rnd \<Rightarrow> instant \<Rightarrow> ident \<Rightarrow> (step_code \<times> step) list \<Rightarrow> int \<Rightarrow> step_code list \<Rightarrow> db \<Rightarrow> api_error + db" where
  "place_steps g now eid existing order [] d = Inr d"
| "place_steps g now eid existing order (c # cs) d =
     and_then (place_step g now eid existing order c d) (\<lambda>d'.
       place_steps g now eid existing (order + 1) cs d')"

text \<open>The deferred unique constraint on \<open>(event_id, step_order)\<close>, checked at the commit.\<close>

definition unique_orders :: "ident \<Rightarrow> db \<Rightarrow> bool" where
  "unique_orders eid d \<longleftrightarrow> distinct (map st_step_order (filter (\<lambda>s. st_event_id s = eid) (steps d)))"

definition plan_shape :: "(step_code \<times> step) list \<Rightarrow> (int \<times> string) list" where
  "plan_shape existing = sort (map (\<lambda>(c, s). (st_step_order s, step_code_value (st_code s))) existing)"

text \<open>The conversation whose revision guards the plan; the first edit of a plan without one creates it.\<close>

definition plan_conversation ::
  "rnd \<Rightarrow> instant \<Rightarrow> ident \<Rightarrow> ident \<Rightarrow> db \<Rightarrow> api_error + (conversation \<times> db)" where
  "plan_conversation g now mid eid d =
     (case latest_conversation d eid of
        Some c \<Rightarrow> Inr (c, d)
      | None \<Rightarrow> (let c = new_conversation g now mid eid 0 d
                 in and_then (add_conversation c d) (\<lambda>d'. Inr (c, d'))))"

text \<open>
  The rest of \<open>replace_plan_steps\<close>: drop the steps that are not asked for, order the codes by phase,
  keep or create a step for each, and move both revisions.
\<close>

definition rebuild_plan ::
  "rnd \<Rightarrow> instant \<Rightarrow> event \<Rightarrow> step_code list \<Rightarrow> conversation \<Rightarrow> db \<Rightarrow> api_error + db" where
  "rebuild_plan g now e codes c d0 =
     (let existing = steps_by_code d0 (ev_id e);
          removed = filter (\<lambda>s. st_code s \<notin> set codes) (map snd existing);
          d1 = fold delete_step removed d0
      in and_then (order_codes codes) (\<lambda>ordered.
         and_then (place_steps g now (ev_id e) existing 1 ordered d1) (\<lambda>d2.
           let d3 = put_conversation (c\<lparr>cv_base_revision := cv_base_revision c + 1\<rparr>)
                      (put_event (touch now e) d2);
               target = zip (map int [1..<Suc (length ordered)]) (map step_code_value ordered);
               d4 = (if plan_shape existing \<noteq> target then bump_plan_revision now (ev_id e) d3 else d3)
           in if unique_orders (ev_id e) d4 then Inr d4 else Inl (Unhandled ''IntegrityError''))))"

definition replace_plan_steps ::
  "rnd \<Rightarrow> instant \<Rightarrow> ident \<Rightarrow> ident \<Rightarrow> step_code list \<Rightarrow> int \<Rightarrow> db \<Rightarrow> api_error + db" where
  "replace_plan_steps g now mid eid codes expected d =
     (case find_event d eid of
        None \<Rightarrow> Inl NotEditable
      | Some e \<Rightarrow>
          if ev_status e \<noteq> PLANNING then Inl EventNotPlanning
          else if codes = [] then Inl (ValidationFailed [''codes''])
          else if \<not> distinct codes then Inl (ValidationFailed [''codes''])
          else and_then (plan_conversation g now mid eid d) (\<lambda>(c, d0).
            if cv_base_revision c \<noteq> expected then Inl VersionConflict
            else rebuild_plan g now e codes c d0))"

section \<open>Endpoints\<close>

text \<open>\<open>_writer_of\<close> of \<open>routers/plan_items.py\<close>.\<close>

definition writer_of :: "ident \<Rightarrow> ident \<Rightarrow> db \<Rightarrow> api_error + member" where
  "writer_of club account d =
     and_then (ensure_member club account None d) (\<lambda>m.
       if mb_role m \<notin> set WRITER_ROLES then Inl Forbidden else Inr m)"

definition update_step_endpoint ::
  "rnd \<Rightarrow> instant \<Rightarrow> step_update \<Rightarrow> ident \<Rightarrow> ident \<Rightarrow> int \<Rightarrow> db \<Rightarrow> api_error + db" where
  "update_step_endpoint g now u account sid expected d =
     and_then (step_event sid d) (\<lambda>e.
     and_then (writer_of (ev_club_id e) account d) (\<lambda>m.
       update_step g now u (mb_id m) sid expected d))"

text \<open>
  \<open>PATCH /actions/{id}\<close>: the edit is committed before the handler looks for the step it answers with,
  so the database and the reply are separate results.
\<close>

definition update_action_endpoint ::
  "rnd \<Rightarrow> instant \<Rightarrow> action_values \<Rightarrow> dict \<Rightarrow> ident \<Rightarrow> ident \<Rightarrow> int \<Rightarrow> db
     \<Rightarrow> (api_error + planned_step_out) \<times> db" where
  "update_action_endpoint g now v pv account aid expected d =
     (case and_then (action_event aid d) (\<lambda>e.
           and_then (writer_of (ev_club_id e) account d) (\<lambda>m.
             update_action g now v pv (mb_id m) aid expected d)) of
        Inl err \<Rightarrow> (Inl err, d)
      | Inr d' \<Rightarrow>
          (case Option.bind (find_action d' aid) (\<lambda>a. Option.bind (ac_step_id a) (find_step d')) of
             None \<Rightarrow> (Inl ActionNotFound, d')
           | Some s \<Rightarrow> (Inr (planned_step_out d' s), d')))"

text \<open>\<open>_get_event_for_account\<close> of \<open>routers/events.py\<close>.\<close>

definition get_event_for_account :: "ident \<Rightarrow> ident \<Rightarrow> db \<Rightarrow> api_error + (event \<times> member)" where
  "get_event_for_account eid account d =
     (case find_event d eid of
        None \<Rightarrow> Inl EventNotFound
      | Some e \<Rightarrow> and_then (ensure_member (ev_club_id e) account None d) (\<lambda>m. Inr (e, m)))"

definition start_event_endpoint :: "rnd \<Rightarrow> instant \<Rightarrow> ident \<Rightarrow> ident \<Rightarrow> db \<Rightarrow> api_error + db" where
  "start_event_endpoint g now account eid d =
     and_then (get_event_for_account eid account d) (\<lambda>_. start_event g now eid d)"

definition complete_event_endpoint :: "instant \<Rightarrow> ident \<Rightarrow> ident \<Rightarrow> db \<Rightarrow> api_error + db" where
  "complete_event_endpoint now account eid d =
     and_then (get_event_for_account eid account d) (\<lambda>_. complete_event now eid d)"

definition cancel_event :: "rnd \<Rightarrow> instant \<Rightarrow> ident \<Rightarrow> ident \<Rightarrow> db \<Rightarrow> api_error + db" where
  "cancel_event g now account eid d =
     and_then (get_event_for_account eid account d) (\<lambda>_. begin_event_cancellation g now eid d)"

definition complete_cancel_task_endpoint ::
  "instant \<Rightarrow> ident \<Rightarrow> ident \<Rightarrow> ident \<Rightarrow> db \<Rightarrow> api_error + (cancel_task \<times> db)" where
  "complete_cancel_task_endpoint now account eid tid d =
     and_then (get_event_for_account eid account d) (\<lambda>(e, m).
       complete_cancel_task now (ev_id e) tid m d)"

text \<open>The state shown for each cancellation task.\<close>

definition get_cancel_tasks ::
  "ident \<Rightarrow> ident \<Rightarrow> db \<Rightarrow> api_error + (cancel_task \<times> step_state) list" where
  "get_cancel_tasks account eid d =
     and_then (get_event_for_account eid account d) (\<lambda>(e, _).
       Inr (map (\<lambda>t. (t, if ct_completed_at t \<noteq> None then Step_DONE
                        else if Some (ct_task_order t) = first_open_order (ev_id e) d then Step_CURRENT
                        else Step_TODO)) (list_cancel_tasks (ev_id e) d)))"

definition replace_plan_steps_endpoint ::
  "rnd \<Rightarrow> instant \<Rightarrow> ident \<Rightarrow> ident \<Rightarrow> step_code list \<Rightarrow> int \<Rightarrow> db \<Rightarrow> api_error + (planned_step_out list \<times> db)" where
  "replace_plan_steps_endpoint g now account eid codes expected d =
     and_then (get_event_for_account eid account d) (\<lambda>(e, m).
       if mb_role m \<notin> set WRITER_ROLES then Inl Forbidden
       else and_then (replace_plan_steps g now (mb_id m) eid codes expected d) (\<lambda>d'.
         Inr (map (planned_step_out d') (ordered_steps d' eid), d')))"

section \<open>What a successful edit means\<close>

lemma touch_keeps [simp]:
  "ev_id (touch now e) = ev_id e" "ev_status (touch now e) = ev_status e"
  "ev_club_id (touch now e) = ev_club_id e" "ev_plan_revision (touch now e) = ev_plan_revision e"
  "ev_start_date (touch now e) = ev_start_date e"
  by (simp_all add: touch_def)

lemma bump_plan_revision_tables [simp]:
  "actions (bump_plan_revision now eid d) = actions d"
  "steps (bump_plan_revision now eid d) = steps d"
  "members (bump_plan_revision now eid d) = members d"
  "expenses (bump_plan_revision now eid d) = expenses d"
  "cancel_tasks (bump_plan_revision now eid d) = cancel_tasks d"
  "conversations (bump_plan_revision now eid d) = conversations d"
  "plan_reviews (bump_plan_revision now eid d) = plan_reviews d"
  "running (bump_plan_revision now eid d) = running d"
  "draws (bump_plan_revision now eid d) = draws d"
  by (auto simp: bump_plan_revision_def put_event_def split: option.split)

lemma advance_plan_revision_frame:
  assumes "advance_plan_revision g now e mid d = Inr d'"
  obtains cs n where "d' = d\<lparr>conversations := cs, draws := n\<rparr>"
proof -
  have put: "put_conversation c d = d\<lparr>conversations := put_row cv_id c (conversations d), draws := draws d\<rparr>" for c
    by (simp add: put_conversation_def)
  show thesis
  proof (cases "ev_status e = PLANNING")
    case False
    with assms have "d' = d" by (simp add: advance_plan_revision_def)
    then show thesis using that [of "draws d" "conversations d"] by simp
  next
    case True
    show thesis
    proof (cases "latest_conversation d (ev_id e)")
      case None
      with True assms show thesis
        using that by (auto simp: advance_plan_revision_def add_conversation_def and_then_eq_Inr drawn_def)
    next
      case (Some c)
      with True assms have "d' = put_conversation (c\<lparr>cv_base_revision := cv_base_revision c + 1\<rparr>) d"
        by (simp add: advance_plan_revision_def)
      then show thesis using that unfolding put by blast
    qed
  qed
qed

lemma advance_plan_revision_tables:
  assumes "advance_plan_revision g now e mid d = Inr d'"
  shows "actions d' = actions d" "steps d' = steps d" "events d' = events d" "members d' = members d"
    "expenses d' = expenses d" "cancel_tasks d' = cancel_tasks d" "plan_reviews d' = plan_reviews d"
    "running d' = running d"
  using assms by (auto elim!: advance_plan_revision_frame)

lemma edited_row_keeps [simp]:
  "ac_id (edited_row v pv a) = ac_id a" "ac_event_id (edited_row v pv a) = ac_event_id a"
  "ac_step_id (edited_row v pv a) = ac_step_id a" "ac_type (edited_row v pv a) = ac_type a"
  "ac_approve_needed (edited_row v pv a) = ac_approve_needed a"
  "ac_version (edited_row v pv a) = ac_version a + 1"
  "ac_draft_attempt_id (edited_row v pv a) = ac_draft_attempt_id a"
  by (simp_all add: edited_row_def Let_def reopen_def apply_values_def own_content_def split: option.split)

lemma edited_row_status [simp]:
  "ac_status (edited_row v pv a) = (if ac_status a = APPROVED then PENDING else ac_status a)"
  by (simp add: edited_row_def Let_def reopen_def apply_values_def own_content_def split: option.split)

lemma derive_event_keeps [simp]:
  "ev_id (derive_event v a s e) = ev_id e" "ev_status (derive_event v a s e) = ev_status e"
  "ev_club_id (derive_event v a s e) = ev_club_id e"
  "ev_plan_revision (derive_event v a s e) = ev_plan_revision e"
  by (simp_all add: derive_event_def split: option.split)

lemma update_action_Inr:
  assumes "update_action g now v pv mid aid expected d = Inr d'"
  obtains a e d1 where "find_action d aid = Some a" and "find_event d (ac_event_id a) = Some e"
    and "ev_status e \<notin> {CANCELLING, CANCELLED}" and "is_editable (ac_status a)"
    and "ac_version a = expected" and "storable v (edited_row v pv a)"
    and "\<not> (\<exists>c. av_content v = Some c \<and> blank c)"
    and "advance_plan_revision g now e mid (put_action (edited_row v pv a)
           (put_event (touch now (derive_event v (edited_row v pv a)
              (Option.bind (ac_step_id a) (find_step d)) e)) d)) = Inr d1"
    and "d' = (if edit_changed v pv a then bump_plan_revision now (ev_id e) d1 else d1)"
  using assms
  by (auto simp: update_action_def and_then_eq_Inr Let_def split: if_splits option.splits)

lemma update_action_actions:
  assumes "update_action g now v pv mid aid expected d = Inr d'"
  obtains a where "find_action d aid = Some a" and "is_editable (ac_status a)"
    and "ac_version a = expected" and "actions d' = put_row ac_id (edited_row v pv a) (actions d)"
  using assms
proof (rule update_action_Inr)
  fix a e d1
  assume *: "find_action d aid = Some a" "is_editable (ac_status a)" "ac_version a = expected"
    and adv: "advance_plan_revision g now e mid (put_action (edited_row v pv a)
           (put_event (touch now (derive_event v (edited_row v pv a)
              (Option.bind (ac_step_id a) (find_step d)) e)) d)) = Inr d1"
    and d': "d' = (if edit_changed v pv a then bump_plan_revision now (ev_id e) d1 else d1)"
  have "actions d1 = put_row ac_id (edited_row v pv a) (actions d)"
    using advance_plan_revision_tables(1) [OF adv] by (simp add: put_action_def put_event_def)
  with * d' show thesis using that by simp
qed

lemma update_step_Inr:
  assumes "update_step g now u mid sid expected d = Inr d'"
  obtains s e d1 where "find_step d sid = Some s" and "find_event d (st_event_id s) = Some e"
    and "ev_status e \<notin> {CANCELLING, CANCELLED}" and "st_completed_at s = None"
    and "st_version s = expected"
    and "advance_plan_revision g now e mid (put_step (apply_step_update u s) (put_event (touch now e) d)) = Inr d1"
    and "d' = (if step_changed u s then bump_plan_revision now (ev_id e) d1 else d1)"
  using assms
  by (auto simp: update_step_def and_then_eq_Inr is_step_editable_def split: if_splits option.splits)

lemma apply_step_update_keeps [simp]:
  "st_id (apply_step_update u s) = st_id s" "st_event_id (apply_step_update u s) = st_event_id s"
  "st_completed_at (apply_step_update u s) = st_completed_at s"
  "st_step_order (apply_step_update u s) = st_step_order s"
  "st_version (apply_step_update u s) = st_version s + 1"
  "st_code (apply_step_update u s) = st_code s"
  by (simp_all add: apply_step_update_def)

lemma update_step_tables:
  assumes "update_step g now u mid sid expected d = Inr d'"
  obtains s where "find_step d sid = Some s" and "st_completed_at s = None" and "st_version s = expected"
    and "steps d' = put_row st_id (apply_step_update u s) (steps d)" and "actions d' = actions d"
  using assms
proof (rule update_step_Inr)
  fix s e d1
  assume *: "find_step d sid = Some s" "st_completed_at s = None" "st_version s = expected"
    and adv: "advance_plan_revision g now e mid
                (put_step (apply_step_update u s) (put_event (touch now e) d)) = Inr d1"
    and d': "d' = (if step_changed u s then bump_plan_revision now (ev_id e) d1 else d1)"
  have "steps d1 = put_row st_id (apply_step_update u s) (steps d)" "actions d1 = actions d"
    using advance_plan_revision_tables [OF adv] by (simp_all add: put_step_def put_event_def)
  with * d' show thesis using that by simp
qed

end
