(* ===== verification/Action_Requests.thy ===== *)
theory Action_Requests
  imports Event_Service
begin

text \<open>
  The requests that carry the version the client saw (\<open>expectedVersion\<close>): approval, denial, answer,
  execution, redraft and edit of an action, the edit of a step's schedule and the edit of a ledger
  entry. Each family is an instance of the locale of versioned requests, which gives the properties of
  optimistic locking once for all of them.
\<close>

section \<open>Keys stay in place\<close>

lemma pk_put_action [simp]: "pk_actions (put_action a d) = pk_actions d"
  by (simp add: pk_actions_def put_action_def)

lemma pk_actions_drawn [simp]: "pk_actions (drawn d) = pk_actions d"
  by (simp add: pk_actions_def)

lemma pk_actions_cong: "map ac_id (actions d) = map ac_id (actions d') \<Longrightarrow> pk_actions d = pk_actions d'"
  by (simp add: pk_actions_def)

lemma pk_finish_step [simp]: "pk_actions (finish_step_if_done now sid d) = pk_actions d"
  by (rule pk_actions_cong) simp

lemma find_action_drawn [simp]: "find_action (drawn d) i = find_action d i"
  by (simp add: find_action_def)

lemma find_action_finish_step [simp]: "find_action (finish_step_if_done now sid d) i = find_action d i"
  by (simp add: find_action_def)

section \<open>Requests on an action\<close>

datatype action_request =
    Approve instant member
  | Deny instant member "pystr option"
  | Resolve rnd instant member pystr "pystr option"
  | Mark_Done rnd instant member
  | Redraft rnd instant
  | Edit rnd instant action_values dict ident

fun exec_request :: "action_request \<Rightarrow> ident \<Rightarrow> int \<Rightarrow> db \<Rightarrow> api_error + db" where
  "exec_request (Approve now m) aid v d = approve now m aid v d"
| "exec_request (Deny now m reason) aid v d = deny now m reason aid v d"
| "exec_request (Resolve g now m choice mv) aid v d = resolve g now m choice mv aid v d"
| "exec_request (Mark_Done g now m) aid v d = mark_done g now m aid v d"
| "exec_request (Redraft g now) aid v d = request_redraft g now aid v d"
| "exec_request (Edit g now vals pv mid) aid v d = update_action g now vals pv mid aid v d"

text \<open>The row a redraft request writes.\<close>

definition redraft_row :: "string \<Rightarrow> instant \<Rightarrow> action \<Rightarrow> action" where
  "redraft_row att now a = (mark_drafting att now a)
     \<lparr>ac_content := None, ac_content_source := None, ac_content_unknowns := [],
      ac_version := ac_version a + 1\<rparr>"

lemma redraft_row_keeps [simp]:
  "ac_id (redraft_row att now a) = ac_id a" "ac_event_id (redraft_row att now a) = ac_event_id a"
  "ac_step_id (redraft_row att now a) = ac_step_id a" "ac_status (redraft_row att now a) = ac_status a"
  "ac_type (redraft_row att now a) = ac_type a"
  "ac_approve_needed (redraft_row att now a) = ac_approve_needed a"
  "ac_version (redraft_row att now a) = ac_version a + 1"
  "ac_content_status (redraft_row att now a) = Content_DRAFTING"
  "ac_draft_attempt_id (redraft_row att now a) = Some att"
  "ac_content (redraft_row att now a) = None"
  by (simp_all add: redraft_row_def mark_drafting_def)

lemma request_redraft_Inr:
  assumes "request_redraft g now aid v d = Inr d'"
  obtains a e where "find_action d aid = Some a" and "find_event d (ac_event_id a) = Some e"
    and "can_request_draft (ev_status e) (ac_status a) (ac_type a) (ac_content_status a)
           (ac_content_source a) (ac_draft_started_at a) now"
    and "ac_version a = v"
    and "d' = spawn_draft aid (uuid4_hex g (draws d))
                (put_action (redraft_row (uuid4_hex g (draws d)) now a) (drawn d))"
  using assms
  by (auto simp: request_redraft_def redraft_row_def Let_def split: if_splits option.splits)

lemma spawn_draft_tables [simp]:
  "actions (spawn_draft aid att d) = actions d" "events (spawn_draft aid att d) = events d"
  "steps (spawn_draft aid att d) = steps d" "expenses (spawn_draft aid att d) = expenses d"
  "cancel_tasks (spawn_draft aid att d) = cancel_tasks d" "members (spawn_draft aid att d) = members d"
  "conversations (spawn_draft aid att d) = conversations d"
  by (simp_all add: spawn_draft_def)

lemma add_action_expense_actions:
  "add_action_expense g a club spent by' d = Inr d' \<Longrightarrow> actions d' = actions d"
  by (auto elim!: add_action_expense_Inr)

text \<open>The state in which a request leaves the row, before the drafts of the current step start.\<close>

definition written :: "db \<Rightarrow> ident \<Rightarrow> action \<Rightarrow> db \<Rightarrow> bool" where
  "written d aid b d' \<longleftrightarrow> actions d' = put_row ac_id b (actions d) \<or>
     (\<exists>g now eid d1. d' = request_current_step_drafts g now eid d1 \<and>
                     actions d1 = put_row ac_id b (actions d))"

lemma written_row: "actions d' = put_row ac_id b (actions d) \<Longrightarrow> written d aid b d'"
  by (simp add: written_def)

lemma written_drafts:
  "d' = request_current_step_drafts g now eid d1 \<Longrightarrow> actions d1 = put_row ac_id b (actions d) \<Longrightarrow>
   written d aid b d'"
  by (auto simp: written_def)

lemma exec_request_written:
  assumes "exec_request q aid v d = Inr d'"
  obtains a b where "find_action d aid = Some a" and "ac_version a = v" and "ac_id b = ac_id a"
    and "ac_version b = v + 1" and "written d aid b d'"
proof (cases q)
  case (Approve now m)
  with assms obtain a where a: "find_action d aid = Some a" "ac_version a = v"
      and "d' = put_action (set_resolution now m APPROVED a) d"
    by (auto simp: approve_Inr)
  then have "written d aid (set_resolution now m APPROVED a) d'"
    by (simp add: put_action_def written_row)
  from that [OF a _ _ this] a show thesis by simp
next
  case (Deny now m reason)
  let ?b = "\<lambda>a. (set_resolution now m DENIED a)\<lparr>ac_deny_reason := (if reason = Some [] then None else reason)\<rparr>"
  from Deny assms obtain a where a: "find_action d aid = Some a" "ac_version a = v"
      and "d' = put_action (?b a) d"
    by (auto simp: deny_Inr)
  then have "written d aid (?b a) d'" by (simp add: put_action_def written_row)
  from that [OF a _ _ this] a show thesis by simp
next
  case (Resolve g now m choice mv)
  with assms have "resolve g now m choice mv aid v d = Inr d'" by simp
  then obtain a p where a: "find_action d aid = Some a" "ac_version a = v"
      and d': "d' = request_current_step_drafts g now (ac_event_id a) (finish_step_if_done now (ac_step_id a)
           (put_action (set_resolution now m DONE (a\<lparr>ac_payload := p\<rparr>)) d))"
    by (rule resolve_Inr) blast
  then have "written d aid (set_resolution now m DONE (a\<lparr>ac_payload := p\<rparr>)) d'"
    by (intro written_drafts [OF d']) (simp add: put_action_def)
  from that [OF a _ _ this] a show thesis by simp
next
  case (Mark_Done g now m)
  with assms have "mark_done g now m aid v d = Inr d'" by simp
  then show thesis
  proof (rule mark_done_Inr)
    fix a d2
    assume a: "find_action d aid = Some a" "ac_version a = v"
      and ex: "if records_expense (ac_type a) (ac_amount a)
         then \<exists>e. find_event d (ac_event_id a) = Some e \<and>
                  add_action_expense g (done_row now m a) (ev_club_id e) now (mb_id m)
                    (put_action (done_row now m a) d) = Inr d2
         else d2 = put_action (done_row now m a) d"
      and d': "d' = request_current_step_drafts g now (ac_event_id a)
                (finish_step_if_done now (ac_step_id a) d2)"
    have "actions d2 = put_row ac_id (done_row now m a) (actions d)"
      using ex by (auto simp: put_action_def dest: add_action_expense_actions split: if_splits)
    then have "written d aid (done_row now m a) d'" by (intro written_drafts [OF d']) simp
    from that [OF a _ _ this] a show thesis by simp
  qed
next
  case (Redraft g now)
  with assms have "request_redraft g now aid v d = Inr d'" by simp
  then show thesis
  proof (rule request_redraft_Inr)
    fix a
    assume a: "find_action d aid = Some a" "ac_version a = v"
      and "d' = spawn_draft aid (uuid4_hex g (draws d))
                (put_action (redraft_row (uuid4_hex g (draws d)) now a) (drawn d))"
    then have "written d aid (redraft_row (uuid4_hex g (draws d)) now a) d'"
      by (simp add: written_row put_action_def)
    from that [OF a _ _ this] a show thesis by simp
  qed
next
  case (Edit g now vals pv mid)
  with assms have "update_action g now vals pv mid aid v d = Inr d'" by simp
  then obtain a where a: "find_action d aid = Some a" "ac_version a = v"
      and "actions d' = put_row ac_id (edited_row vals pv a) (actions d)"
    by (rule update_action_actions)
  then have "written d aid (edited_row vals pv a) d'" by (simp add: written_row)
  from that [OF a _ _ this] a show thesis by simp
qed

lemma written_pk: "written d aid b d' \<Longrightarrow> pk_actions d \<Longrightarrow> pk_actions d'"
  by (auto simp: written_def pk_actions_def request_current_step_drafts_actions mark_current_step_keys)

lemma written_find:
  assumes "written d aid b d'" and "pk_actions d" and "find_action d aid = Some a" and "ac_id b = aid"
  shows "find_action d' aid = Some b \<or>
         (\<exists>att now sid. find_action d' aid = Some (mark_drafting att now b) \<and> needs_draft sid b)"
proof -
  have put: "get_row ac_id (put_row ac_id b (actions d)) aid = Some b"
    using assms(3,4) by (simp add: find_action_def get_put_row)
  from assms(1) consider "actions d' = put_row ac_id b (actions d)"
    | g now eid d1 where "d' = request_current_step_drafts g now eid d1"
        "actions d1 = put_row ac_id b (actions d)"
    unfolding written_def by blast
  then show ?thesis
  proof cases
    case 1
    with put show ?thesis by (simp add: find_action_def)
  next
    case 2
    then have "pk_actions d1" "find_action d1 aid = Some b"
      using put assms(2) by (simp_all add: find_action_def pk_actions_def)
    then show ?thesis
      unfolding 2(1) by (rule request_current_step_drafts_find) blast+
  qed
qed

interpretation action_requests:
  versioned_requests ac_id find_action put_action ac_version pk_actions exec_request
proof unfold_locales
  fix q i v d and d' :: db
  assume ex: "exec_request q i v d = Inr d'"
  then show "\<exists>r. find_action d i = Some r \<and> ac_version r = v"
    by (rule exec_request_written) blast
  assume wf: "pk_actions d"
  from ex obtain a b where ab: "find_action d i = Some a" "ac_id b = ac_id a" "ac_version b = v + 1"
    and w: "written d i b d'"
    by (rule exec_request_written)
  have id: "ac_id b = i" using ab find_action_id by simp
  show "pk_actions d'" using written_pk [OF w wf] .
  show "\<exists>r. find_action d' i = Some r \<and> ac_version r = v + 1"
    using written_find [OF w wf ab(1) id] ab(3) by auto
qed

section \<open>Requests on a step's schedule\<close>

datatype schedule_request = Reschedule rnd instant step_update ident

fun exec_schedule :: "schedule_request \<Rightarrow> ident \<Rightarrow> int \<Rightarrow> db \<Rightarrow> api_error + db" where
  "exec_schedule (Reschedule g now u mid) sid v d = update_step g now u mid sid v d"

interpretation schedule_requests:
  versioned_requests st_id find_step put_step st_version "\<lambda>_. True" exec_schedule
proof unfold_locales
  fix q i v d and d' :: db
  assume ex: "exec_schedule q i v d = Inr d'"
  obtain g now u mid where q: "q = Reschedule g now u mid" by (cases q)
  from ex q obtain s where s: "find_step d i = Some s" "st_version s = v"
    and st: "steps d' = put_row st_id (apply_step_update u s) (steps d)"
    by (auto elim: update_step_tables)
  then show "\<exists>r. find_step d i = Some r \<and> st_version r = v" by blast
  show "\<exists>r. find_step d' i = Some r \<and> st_version r = v + 1"
    using s st get_row_key [of st_id "steps d" i s]
    by (auto simp: find_step_def get_put_row [of st_id "steps d" "apply_step_update u s"])
qed simp

section \<open>Requests on a ledger entry\<close>

text \<open>An edit that sends at least one field.\<close>

datatype ledger_request = Amend expense_changes ident

fun exec_ledger :: "ledger_request \<Rightarrow> ident \<Rightarrow> int \<Rightarrow> db \<Rightarrow> api_error + db" where
  "exec_ledger (Amend c club) xid v d =
     (if c = no_changes then Inl (ValidationFailed [])
      else and_then (update_expense c club xid v d) (\<lambda>(x, d'). Inr d'))"

lemma apply_changes_keeps [simp]:
  "ex_id (apply_changes c x) = ex_id x" "ex_club_id (apply_changes c x) = ex_club_id x"
  "ex_action_id (apply_changes c x) = ex_action_id x" "ex_source (apply_changes c x) = ex_source x"
  "ex_receipt_record_id (apply_changes c x) = ex_receipt_record_id x"
  "ex_created_by (apply_changes c x) = ex_created_by x"
  by (simp_all add: apply_changes_def)

lemma update_expense_Inr:
  assumes "update_expense c club xid v d = Inr (y, d')" and "c \<noteq> no_changes"
  obtains x where "find_expense d xid = Some x" and "ex_club_id x = club" and "ex_version x = v"
    and "missing_fields c = []" and "y = (apply_changes c x)\<lparr>ex_version := v + 1\<rparr>"
    and "d' = put_expense y d"
  using assms by (auto simp: update_expense_def and_then_eq_Inr Let_def split: if_splits option.splits)

interpretation ledger_requests:
  versioned_requests ex_id find_expense put_expense ex_version "\<lambda>_. True" exec_ledger
proof unfold_locales
  fix q i v d and d' :: db
  assume ex: "exec_ledger q i v d = Inr d'"
  obtain c club where q: "q = Amend c club" by (cases q)
  from ex q obtain y where "update_expense c club i v d = Inr (y, d')" "c \<noteq> no_changes"
    by (auto simp: and_then_eq_Inr split: if_splits)
  then obtain x where x: "find_expense d i = Some x" "ex_version x = v"
      "y = (apply_changes c x)\<lparr>ex_version := v + 1\<rparr>" "d' = put_expense y d"
    by (rule update_expense_Inr)
  then show "\<exists>r. find_expense d i = Some r \<and> ex_version r = v" by blast
  show "\<exists>r. find_expense d' i = Some r \<and> ex_version r = v + 1"
    using x expense_table.get_put_same [OF x(1), of y] expense_table.get_key by fastforce
qed simp

end
