(* ===== verification/Lifecycle.thy ===== *)
theory Lifecycle
  imports Action_Requests
begin

text \<open>
  The service as a transition system: every committed request of the modelled routers and every
  background task is a step from one database to the next, in any order. This theory follows the rows of
  the actions: what may become of a row in one step, and from it that what is executed has been approved.
\<close>

section \<open>Steps of the service\<close>

inductive progress :: "db \<Rightarrow> db \<Rightarrow> bool" where
  Approved: "approve_action now acc aid v d = Inr d' \<Longrightarrow> progress d d'"
| Denied: "deny_action now acc reason aid v d = Inr d' \<Longrightarrow> progress d d'"
| Resolved: "resolve_action g now acc choice mv aid v d = Inr d' \<Longrightarrow> progress d d'"
| Executed: "mark_action_done g now acc aid v d = Inr d' \<Longrightarrow> progress d d'"
| Redrafted: "request_action_draft g now acc aid v d = Inr d' \<Longrightarrow> progress d d'"
| Step_Completed: "complete_step_endpoint g now acc sid d = Inr (n, d') \<Longrightarrow> progress d d'"
| Started: "start_event_endpoint g now acc eid d = Inr d' \<Longrightarrow> progress d d'"
| Completed: "complete_event_endpoint now acc eid d = Inr d' \<Longrightarrow> progress d d'"
| Cancel_Begun: "cancel_event g now acc eid d = Inr d' \<Longrightarrow> progress d d'"
| Cancel_Task_Done: "complete_cancel_task_endpoint now acc eid tid d = Inr (t, d') \<Longrightarrow> progress d d'"
| Step_Edited: "update_step_endpoint g now u acc sid v d = Inr d' \<Longrightarrow> progress d d'"
| Action_Edited: "update_action_endpoint g now vals pv acc aid v d = (r, d') \<Longrightarrow> progress d d'"
| Plan_Replaced: "replace_plan_steps_endpoint g now acc eid codes v d = Inr (out, d') \<Longrightarrow> progress d d'"
| Draft_Ended: "run_draft ai input aid att d = d' \<Longrightarrow> progress d d'"
| Tasks_Lost: "d\<lparr>running := []\<rparr> = d' \<Longrightarrow> progress d d'"
| Review_Asked: "request_review g now (draft :: db \<Rightarrow> json) eid v d = Inr (b, d') \<Longrightarrow> progress d d'"
| Review_Ended: "finish_request_review now eid rid answer d = (ro, d') \<Longrightarrow> progress d d'"
| Expense_Created: "create_expense g club eo spent mc amount cur cat descr by' d = Inr (x, d') \<Longrightarrow> progress d d'"
| Expense_Edited: "update_expense c club xid v d = Inr (x, d') \<Longrightarrow> progress d d'"
| Expense_Deleted: "delete_expense club xid d = Inr d' \<Longrightarrow> progress d d'"

section \<open>The life of an action\<close>

text \<open>The work an approval is given for.\<close>

definition same_work :: "action \<Rightarrow> action \<Rightarrow> bool" where
  "same_work a b \<longleftrightarrow> ac_title b = ac_title a \<and> ac_subtitle b = ac_subtitle a \<and>
     ac_content b = ac_content a \<and> ac_amount b = ac_amount a \<and> ac_due_date b = ac_due_date a \<and>
     ac_payload b = ac_payload a"

text \<open>What one step may do to the row of an action.\<close>

definition lawful :: "action \<Rightarrow> action \<Rightarrow> bool" where
  "lawful a b \<longleftrightarrow> ac_id b = ac_id a \<and> ac_event_id b = ac_event_id a \<and> ac_step_id b = ac_step_id a \<and>
     ac_type b = ac_type a \<and> ac_approve_needed b = ac_approve_needed a \<and> ac_version a \<le> ac_version b \<and>
     (case ac_status a of
        PENDING \<Rightarrow> ac_status b = DONE \<longrightarrow> \<not> ac_approve_needed a \<or> ac_type a = CONFIRMATION
      | APPROVED \<Rightarrow> ac_status b = PENDING \<or> same_work a b \<and> ac_status b \<in> {APPROVED, DONE}
      | _ \<Rightarrow> same_work a b \<and> ac_status b = ac_status a)"

lemma same_work_refl [simp]: "same_work a a"
  by (simp add: same_work_def)

lemma lawful_refl [simp]: "lawful a a"
  by (simp add: lawful_def split: action_status.split)

lemma lawful_mark_drafting:
  assumes "lawful a b" and "ac_status b = PENDING"
  shows "lawful a (mark_drafting att now b)"
  using assms by (auto simp: lawful_def same_work_def split: action_status.splits)

text \<open>
  Rows after a step: each continues a row lawfully, or is new, pending, and of an event in planning.
\<close>

definition in_planning :: "db \<Rightarrow> ident \<Rightarrow> bool" where
  "in_planning d eid \<longleftrightarrow> (\<exists>e. find_event d eid = Some e \<and> ev_status e = PLANNING)"

definition continues :: "db \<Rightarrow> action list \<Rightarrow> bool" where
  "continues d ys \<longleftrightarrow> (\<forall>b \<in> set ys. \<exists>a \<in> set (actions d). lawful a b)"

definition evolves :: "db \<Rightarrow> action list \<Rightarrow> bool" where
  "evolves d ys \<longleftrightarrow> (\<forall>b \<in> set ys. (\<exists>a \<in> set (actions d). lawful a b) \<or>
     (ac_status b = PENDING \<and> in_planning d (ac_event_id b)))"

lemma continues_evolves: "continues d ys \<Longrightarrow> evolves d ys"
  by (simp add: continues_def evolves_def)

lemma continues_refl [simp]: "continues d (actions d)"
  by (auto simp: continues_def intro: lawful_refl)

lemma continues_put_row: "a \<in> set (actions d) \<Longrightarrow> lawful a b \<Longrightarrow> continues d (put_row ac_id b (actions d))"
  by (auto simp: continues_def elim!: put_row_memE intro: lawful_refl)

lemma continues_drafts:
  assumes "continues d0 (actions d)"
  shows "continues d0 (actions (request_current_step_drafts g now eid d))"
  unfolding continues_def request_current_step_drafts_actions
proof
  fix c
  assume "c \<in> set (actions (fst (mark_current_step g now eid d)))"
  then consider "c \<in> set (actions d)"
    | b sid att where "b \<in> set (actions d)" "needs_draft sid b" "c = mark_drafting att now b"
    using mark_current_step_row by blast
  then show "\<exists>a \<in> set (actions d0). lawful a c"
    using assms
    by cases (auto simp: continues_def needs_draft_def dest!: bspec intro: lawful_mark_drafting)
qed

lemma find_action_mem: "find_action d i = Some a \<Longrightarrow> a \<in> set (actions d)"
  by (auto simp: find_action_def dest: get_row_SomeD)

lemma continues_put_action:
  "find_action d i = Some a \<Longrightarrow> lawful a b \<Longrightarrow> continues d (actions (put_action b d))"
  using continues_put_row [OF find_action_mem] by (simp add: put_action_def)

text \<open>The writes of the operations are lawful.\<close>

lemma lawful_set_resolution:
  assumes "ac_status a = PENDING" and "s = DONE \<longrightarrow> \<not> ac_approve_needed a \<or> ac_type a = CONFIRMATION"
  shows "lawful a (set_resolution now m s (a\<lparr>ac_payload := p\<rparr>))" "lawful a (set_resolution now m s a)"
    "lawful a ((set_resolution now m s a)\<lparr>ac_deny_reason := r\<rparr>)"
  using assms by (simp_all add: lawful_def set_resolution_def)

lemma lawful_done_row:
  assumes "can_mark_done (ac_status a) (ac_approve_needed a)"
  shows "lawful a (done_row now m a)"
  using assms
  by (auto simp: lawful_def done_row_def can_mark_done_def same_work_def split: if_splits)

lemma lawful_redraft_row: "ac_status a = PENDING \<Longrightarrow> lawful a (redraft_row att now a)"
  by (simp add: lawful_def)

lemma lawful_edited_row: "is_editable (ac_status a) \<Longrightarrow> lawful a (edited_row v pv a)"
  by (auto simp: lawful_def is_editable_def)

lemma lawful_store_outcome: "ac_status a = PENDING \<Longrightarrow> lawful a (store_outcome oc a)"
  by (auto simp: lawful_def store_outcome_def split: draft_outcome.split)

lemma lawful_content_status: "lawful a (a\<lparr>ac_content_status := c\<rparr>)"
  by (auto simp: lawful_def same_work_def split: action_status.split)

lemma approve_continues: "approve now m aid v d = Inr d' \<Longrightarrow> continues d (actions d')"
  by (auto simp: approve_Inr can_resolve_def intro!: continues_put_action lawful_set_resolution)

lemma deny_continues: "deny now m r aid v d = Inr d' \<Longrightarrow> continues d (actions d')"
  by (auto simp: deny_Inr can_resolve_def intro!: continues_put_action lawful_set_resolution)

lemma resolve_continues:
  assumes "resolve g now m choice mv aid v d = Inr d'"
  shows "continues d (actions d')"
  using assms
  by (elim resolve_Inr)
    (auto simp: can_resolve_def intro!: continues_drafts continues_put_action lawful_set_resolution)

lemma mark_done_continues:
  assumes "mark_done g now m aid v d = Inr d'"
  shows "continues d (actions d')"
  using assms
proof (rule mark_done_Inr)
  fix a d2
  assume a: "find_action d aid = Some a" "can_mark_done (ac_status a) (ac_approve_needed a)"
    and ex: "if records_expense (ac_type a) (ac_amount a)
         then \<exists>e. find_event d (ac_event_id a) = Some e \<and>
                  add_action_expense g (done_row now m a) (ev_club_id e) now (mb_id m)
                    (put_action (done_row now m a) d) = Inr d2
         else d2 = put_action (done_row now m a) d"
    and d': "d' = request_current_step_drafts g now (ac_event_id a) (finish_step_if_done now (ac_step_id a) d2)"
  have "actions d2 = actions (put_action (done_row now m a) d)"
    using ex by (auto dest: add_action_expense_actions split: if_splits)
  then show ?thesis
    unfolding d' using a by (auto intro!: continues_drafts continues_put_action lawful_done_row)
qed

lemma request_redraft_continues:
  assumes "request_redraft g now aid v d = Inr d'"
  shows "continues d (actions d')"
  using assms
proof (rule request_redraft_Inr)
  fix a e
  assume a: "find_action d aid = Some a" and d': "d' = spawn_draft aid (uuid4_hex g (draws d))
                (put_action (redraft_row (uuid4_hex g (draws d)) now a) (drawn d))"
    and "can_request_draft (ev_status e) (ac_status a) (ac_type a) (ac_content_status a)
           (ac_content_source a) (ac_draft_started_at a) now"
  then have "lawful a (redraft_row (uuid4_hex g (draws d)) now a)"
    by (intro lawful_redraft_row) (simp add: can_request_draft_iff)
  with a show ?thesis
    unfolding d' using continues_put_action [of d aid a] by (simp add: put_action_def)
qed

lemma update_action_continues:
  assumes "update_action g now vals pv mid aid v d = Inr d'"
  shows "continues d (actions d')"
  using assms
  by (rule update_action_actions)
    (auto intro!: continues_put_row lawful_edited_row find_action_mem)

lemma finish_continues: "continues d (actions (finish aid att oc d))"
  by (auto simp: finish_def writable_def
      intro!: continues_put_action lawful_store_outcome lawful_content_status split: option.split)

lemma run_draft_actions:
  "actions (run_draft ai input aid att d) =
     (case input of None \<Rightarrow> actions d | Some rq \<Rightarrow> actions (finish aid att (draft_outcome_of ai rq) d))"
  by (simp add: run_draft_def forget_def split: option.split)

lemma run_draft_continues: "continues d (actions (run_draft ai input aid att d))"
  by (simp add: run_draft_actions finish_continues split: option.split)

text \<open>Replacing the steps of a plan drops rows and adds pending ones.\<close>

lemma new_action_keeps [simp]:
  "ac_status (new_action g now eid sid title t d) = PENDING"
  "ac_event_id (new_action g now eid sid title t d) = eid"
  "ac_step_id (new_action g now eid sid title t d) = Some sid"
  by (simp_all add: new_action_def)

lemma insert_actions_rows:
  assumes "insert_actions g now eid sid title ts d = Inr d'"
  shows "\<exists>new n. d' = d\<lparr>actions := actions d @ new, draws := n\<rparr> \<and>
           (\<forall>a \<in> set new. ac_status a = PENDING \<and> ac_event_id a = eid \<and> ac_step_id a = Some sid) \<and>
           (pk_actions d \<longrightarrow> pk_actions d') \<and> map ac_type new = ts"
  using assms
proof (induction ts arbitrary: d)
  case Nil
  then show ?case by (intro exI [of _ "[]"] exI [of _ "draws d"]) simp
next
  case (Cons t ts)
  let ?a = "new_action g now eid sid title t d"
  let ?d = "drawn (d\<lparr>actions := actions d @ [?a]\<rparr>)"
  from Cons.prems have new: "ac_id ?a \<notin> ac_id ` set (actions d)"
    and rest: "insert_actions g now eid sid title ts ?d = Inr d'"
    by (auto simp: and_then_eq_Inr insert_row_Inr)
  have pk: "pk_actions d \<longrightarrow> pk_actions ?d" using new by (auto simp: pk_actions_def)
  have "ac_type ?a = t" by (simp add: new_action_def)
  moreover from Cons.IH [OF rest] obtain new n where
    "d' = ?d\<lparr>actions := actions ?d @ new, draws := n\<rparr>" and
    "\<forall>a \<in> set new. ac_status a = PENDING \<and> ac_event_id a = eid \<and> ac_step_id a = Some sid" and
    "pk_actions ?d \<longrightarrow> pk_actions d'" and "map ac_type new = ts"
    by blast
  ultimately show ?case
    using pk by (intro exI [of _ "?a # new"] exI [of _ n]) (simp add: drawn_def)
qed

definition grown :: "ident \<Rightarrow> db \<Rightarrow> db \<Rightarrow> bool" where
  "grown eid d d' \<longleftrightarrow> (\<exists>ss new n. d' = d\<lparr>steps := ss, actions := actions d @ new, draws := n\<rparr> \<and>
     (\<forall>a \<in> set new. ac_status a = PENDING \<and> ac_event_id a = eid) \<and> (pk_actions d \<longrightarrow> pk_actions d'))"

lemma grown_refl: "grown eid d d"
  unfolding grown_def by (intro exI [of _ "steps d"] exI [of _ "[]"] exI [of _ "draws d"]) simp

lemma grown_trans:
  assumes "grown eid d d1" and "grown eid d1 d2"
  shows "grown eid d d2"
proof -
  from assms(1) obtain ss new n where 1: "d1 = d\<lparr>steps := ss, actions := actions d @ new, draws := n\<rparr>"
    "\<forall>a \<in> set new. ac_status a = PENDING \<and> ac_event_id a = eid" "pk_actions d \<longrightarrow> pk_actions d1"
    unfolding grown_def by blast
  from assms(2) obtain ss' new' n' where 2: "d2 = d1\<lparr>steps := ss', actions := actions d1 @ new', draws := n'\<rparr>"
    "\<forall>a \<in> set new'. ac_status a = PENDING \<and> ac_event_id a = eid" "pk_actions d1 \<longrightarrow> pk_actions d2"
    unfolding grown_def by blast
  show ?thesis
    unfolding grown_def
    using 1 2 by (intro exI [of _ ss'] exI [of _ "new @ new'"] exI [of _ n']) auto
qed

lemma grown_steps: "grown eid d (d\<lparr>steps := ss\<rparr>)" "grown eid d (drawn (d\<lparr>steps := ss\<rparr>))"
  unfolding grown_def drawn_def
  by (intro exI [of _ ss] exI [of _ "[]"] exI [of _ "draws d"], simp add: pk_actions_def,
      intro exI [of _ ss] exI [of _ "[]"] exI [of _ "Suc (draws d)"], simp add: pk_actions_def)

lemma insert_actions_grown:
  assumes "insert_actions g now eid sid title ts d = Inr d'"
  shows "grown eid d d'"
proof -
  from insert_actions_rows [OF assms] obtain new n where
    "d' = d\<lparr>actions := actions d @ new, draws := n\<rparr>"
    "\<forall>a \<in> set new. ac_status a = PENDING \<and> ac_event_id a = eid" "pk_actions d \<longrightarrow> pk_actions d'"
    by blast
  then show ?thesis
    unfolding grown_def by (intro exI [of _ "steps d"] exI [of _ new] exI [of _ n]) simp
qed

lemma place_step_grown: "place_step g now eid existing k c d = Inr d' \<Longrightarrow> grown eid d d'"
  by (auto simp: place_step_def Let_def and_then_eq_Inr put_step_def grown_steps
      split: option.splits intro: grown_trans [OF grown_steps(2) insert_actions_grown])

lemma place_steps_grown: "place_steps g now eid existing k cs d = Inr d' \<Longrightarrow> grown eid d d'"
  by (induction cs arbitrary: k d)
    (auto simp: and_then_eq_Inr grown_refl intro: grown_trans [OF place_step_grown])

text \<open>Deletions keep a part of the rows.\<close>

definition shrunk :: "db \<Rightarrow> db \<Rightarrow> bool" where
  "shrunk d d' \<longleftrightarrow> (\<exists>pa ps xs. d' = d\<lparr>actions := filter pa (actions d), steps := filter ps (steps d),
     expenses := xs\<rparr>)"

lemma shrunk_refl: "shrunk d d"
  unfolding shrunk_def
  by (intro exI [of _ "\<lambda>_. True"] exI [of _ "\<lambda>_. True"] exI [of _ "expenses d"]) simp

lemma shrunk_trans:
  assumes "shrunk d d1" and "shrunk d1 d2"
  shows "shrunk d d2"
proof -
  from assms(1) obtain pa ps xs where 1: "d1 = d\<lparr>actions := filter pa (actions d),
      steps := filter ps (steps d), expenses := xs\<rparr>"
    unfolding shrunk_def by blast
  from assms(2) obtain pa' ps' xs' where 2: "d2 = d1\<lparr>actions := filter pa' (actions d1),
      steps := filter ps' (steps d1), expenses := xs'\<rparr>"
    unfolding shrunk_def by blast
  show ?thesis
    unfolding shrunk_def
    using 1 2
    by (intro exI [of _ "\<lambda>a. pa a \<and> pa' a"] exI [of _ "\<lambda>s. ps s \<and> ps' s"] exI [of _ xs'])
      (simp add: conj_commute)
qed

lemma delete_step_shrunk: "shrunk d (delete_step s d)"
  unfolding shrunk_def delete_step_def Let_def by blast

lemma fold_delete_step_shrunk: "shrunk d (fold delete_step ss d)"
  by (induction ss arbitrary: d) (auto intro: shrunk_refl shrunk_trans [OF delete_step_shrunk])

lemma shrunk_tables:
  assumes "shrunk d d'"
  shows "set (actions d') \<subseteq> set (actions d)" "set (steps d') \<subseteq> set (steps d)" "events d' = events d"
    "pk_actions d \<Longrightarrow> pk_actions d'" "members d' = members d" "cancel_tasks d' = cancel_tasks d"
    "conversations d' = conversations d" "running d' = running d" "draws d' = draws d"
    "plan_reviews d' = plan_reviews d"
  using assms by (auto simp: shrunk_def pk_actions_def distinct_map_filter)

text \<open>A replacement of the plan's steps, by its parts.\<close>

lemma plan_conversation_frame:
  assumes "plan_conversation g now mid eid d = Inr (c, d0)"
  obtains cs n where "d0 = d\<lparr>conversations := cs, draws := n\<rparr>" and "c \<in> set cs"
proof (cases "latest_conversation d eid")
  case None
  with assms that show thesis
    by (auto simp: plan_conversation_def Let_def and_then_eq_Inr add_conversation_def insert_row_Inr drawn_def)
next
  case (Some c')
  with assms have "d0 = d" "c' = c" by (simp_all add: plan_conversation_def)
  with Some show thesis
    using that [of "draws d" "conversations d"] latest_conversation_SomeD(1) by simp
qed

lemma replace_plan_steps_Inr:
  assumes "replace_plan_steps g now mid eid codes v d = Inr d'"
  obtains e c d0 where "find_event d eid = Some e" and "ev_status e = PLANNING" and "ev_id e = eid"
    and "codes \<noteq> []" and "distinct codes" and "plan_conversation g now mid eid d = Inr (c, d0)"
    and "cv_base_revision c = v" and "rebuild_plan g now e codes c d0 = Inr d'"
  using assms event_table.get_key [of d eid]
  by (auto simp: replace_plan_steps_def and_then_eq_Inr split: option.splits if_splits)

lemma rebuild_plan_Inr:
  assumes "rebuild_plan g now e codes c d0 = Inr d'"
  obtains removed ordered d2 d3 where
    "removed = filter (\<lambda>s. st_code s \<notin> set codes) (map snd (steps_by_code d0 (ev_id e)))"
    and "order_codes codes = Inr ordered"
    and "place_steps g now (ev_id e) (steps_by_code d0 (ev_id e)) 1 ordered (fold delete_step removed d0) = Inr d2"
    and "unique_orders (ev_id e) d'"
    and "d3 = put_conversation (c\<lparr>cv_base_revision := cv_base_revision c + 1\<rparr>) (put_event (touch now e) d2)"
    and "d' = d3 \<or> d' = bump_plan_revision now (ev_id e) d3"
  using assms unfolding rebuild_plan_def Let_def
  by (elim and_then_InrE) (simp split: if_splits)

lemma rebuild_plan_actions:
  assumes "rebuild_plan g now e codes c d0 = Inr d'" and "in_planning d0 (ev_id e)"
  shows "evolves d0 (actions d')" and "pk_actions d0 \<Longrightarrow> pk_actions d'"
    and "\<forall>a \<in> set (actions d'). a \<in> set (actions d0) \<or> ac_status a = PENDING \<and> ac_event_id a = ev_id e"
proof -
  from assms(1) obtain removed ordered d2 d3 where
    p: "place_steps g now (ev_id e) (steps_by_code d0 (ev_id e)) 1 ordered (fold delete_step removed d0) = Inr d2"
    and d3: "d3 = put_conversation (c\<lparr>cv_base_revision := cv_base_revision c + 1\<rparr>) (put_event (touch now e) d2)"
    and d': "d' = d3 \<or> d' = bump_plan_revision now (ev_id e) d3"
    by (rule rebuild_plan_Inr)
  have acts: "actions d' = actions d2" using d3 d' by (auto simp: put_conversation_def put_event_def)
  from place_steps_grown [OF p] obtain new where
    new: "actions d2 = actions (fold delete_step removed d0) @ new"
      "\<forall>a \<in> set new. ac_status a = PENDING \<and> ac_event_id a = ev_id e"
    and pk: "pk_actions (fold delete_step removed d0) \<longrightarrow> pk_actions d2"
    unfolding grown_def by auto
  note sh = shrunk_tables [OF fold_delete_step_shrunk [of d0 removed]]
  show rows: "\<forall>a \<in> set (actions d'). a \<in> set (actions d0) \<or> ac_status a = PENDING \<and> ac_event_id a = ev_id e"
    using new sh(1) by (auto simp: acts)
  then show "evolves d0 (actions d')"
    unfolding evolves_def using assms(2) by (metis lawful_refl)
  show "pk_actions d'" if "pk_actions d0"
    using that sh(4) pk acts by (simp add: pk_actions_def)
qed

lemma replace_plan_steps_evolves:
  assumes "replace_plan_steps g now mid eid codes v d = Inr d'"
  shows "evolves d (actions d')" and "pk_actions d \<Longrightarrow> pk_actions d'"
proof -
  from assms obtain e c d0 where e: "find_event d eid = Some e" "ev_status e = PLANNING" "ev_id e = eid"
    and c: "plan_conversation g now mid eid d = Inr (c, d0)"
    and r: "rebuild_plan g now e codes c d0 = Inr d'"
    by (rule replace_plan_steps_Inr)
  from c obtain cs n where d0: "d0 = d\<lparr>conversations := cs, draws := n\<rparr>"
    by (rule plan_conversation_frame)
  have pl: "in_planning d0 i = in_planning d i" for i
    by (simp add: d0 in_planning_def find_event_def)
  with e have "in_planning d0 (ev_id e)" by (simp add: in_planning_def)
  note rows = rebuild_plan_actions [OF r this]
  show "evolves d (actions d')" using rows(1) by (simp add: evolves_def pl) (simp add: d0)
  show "pk_actions d'" if "pk_actions d" using rows(2) that by (simp add: d0 pk_actions_def)
qed

text \<open>What the routers add to the services: an active member of the event's club, and a running event.\<close>

lemma operating_member_Inr:
  assumes "operating_member aid acc d = Inr (e, m)"
  obtains a where "find_action d aid = Some a" and "find_event d (ac_event_id a) = Some e"
    and "ev_status e = ON_GOING" and "ensure_member (ev_club_id e) acc None d = Inr m"
proof -
  from assms obtain e0 where e0: "action_event aid d = Inr e0"
    and m: "ensure_member (ev_club_id e0) acc None d = Inr m"
    and e: "find_event d (ev_id e0) = Some e" "ev_status e = ON_GOING"
    by (auto simp: operating_member_def and_then_eq_Inr lock_operating_event_Inr)
  from e0 obtain a where a: "find_action d aid = Some a" "find_event d (ac_event_id a) = Some e0"
    by (auto simp: action_event_def split: option.splits bind_splits)
  then have "e0 = e" using e event_table.get_key by fastforce
  with a e m that show thesis by simp
qed

lemma step_event_self: "step_event sid d = Inr e \<Longrightarrow> find_event d (ev_id e) = Some e"
  using event_table.get_key by (fastforce simp: step_event_def split: option.splits bind_splits)

lemma endpoint_core:
  "approve_action now acc aid v d = Inr d' \<Longrightarrow> \<exists>e m. operating_member aid acc d = Inr (e, m) \<and> approve now m aid v d = Inr d'"
  "deny_action now acc r aid v d = Inr d' \<Longrightarrow> \<exists>e m. operating_member aid acc d = Inr (e, m) \<and> deny now m r aid v d = Inr d'"
  "resolve_action g now acc ch mv aid v d = Inr d' \<Longrightarrow>
     \<exists>e m. operating_member aid acc d = Inr (e, m) \<and> resolve g now m ch mv aid v d = Inr d'"
  "mark_action_done g now acc aid v d = Inr d' \<Longrightarrow>
     \<exists>e m. operating_member aid acc d = Inr (e, m) \<and> mark_done g now m aid v d = Inr d'"
  "request_action_draft g now acc aid v d = Inr d' \<Longrightarrow> request_redraft g now aid v d = Inr d'"
  "complete_step_endpoint g now acc sid d = Inr (n, d') \<Longrightarrow>
     \<exists>e m. step_event sid d = Inr e \<and> ev_status e = ON_GOING \<and> ensure_member (ev_club_id e) acc None d = Inr m \<and>
           complete_step g now m sid d = Inr (n, d')"
  "start_event_endpoint g now acc eid d = Inr d' \<Longrightarrow> start_event g now eid d = Inr d'"
  "complete_event_endpoint now acc eid d = Inr d' \<Longrightarrow> complete_event now eid d = Inr d'"
  "cancel_event g now acc eid d = Inr d' \<Longrightarrow> begin_event_cancellation g now eid d = Inr d'"
  "complete_cancel_task_endpoint now acc eid tid d = Inr (t, d') \<Longrightarrow>
     \<exists>m. complete_cancel_task now eid tid m d = Inr (t, d')"
  "update_step_endpoint g now u acc sid v d = Inr d' \<Longrightarrow> \<exists>mid. update_step g now u mid sid v d = Inr d'"
  "update_action_endpoint g now vals pv acc aid v d = (reply, d') \<Longrightarrow>
     d' = d \<or> (\<exists>mid. update_action g now vals pv mid aid v d = Inr d')"
  "replace_plan_steps_endpoint g now acc eid codes v d = Inr (out, d') \<Longrightarrow>
     \<exists>mid. replace_plan_steps g now mid eid codes v d = Inr d'"
  subgoal by (auto simp: approve_action_def and_then_eq_Inr)
  subgoal by (auto simp: deny_action_def and_then_eq_Inr)
  subgoal by (auto simp: resolve_action_def and_then_eq_Inr)
  subgoal by (auto simp: mark_action_done_def and_then_eq_Inr)
  subgoal by (auto simp: request_action_draft_def and_then_eq_Inr)
  subgoal
    by (auto simp: complete_step_endpoint_def and_then_eq_Inr lock_operating_event_Inr)
      (metis option.inject step_event_self)
  subgoal by (auto simp: start_event_endpoint_def and_then_eq_Inr)
  subgoal by (auto simp: complete_event_endpoint_def and_then_eq_Inr)
  subgoal by (auto simp: cancel_event_def and_then_eq_Inr)
  subgoal
    by (auto simp: complete_cancel_task_endpoint_def and_then_eq_Inr get_event_for_account_def
        dest!: event_table.get_key split: option.splits)
  subgoal by (auto simp: update_step_endpoint_def and_then_eq_Inr)
  subgoal by (auto simp: update_action_endpoint_def and_then_eq_Inr split: sum.splits option.splits)
  subgoal by (auto simp: replace_plan_steps_endpoint_def and_then_eq_Inr split: if_splits)
  done

text \<open>Operations that leave the actions alone.\<close>

lemma insert_cancel_tasks_frame:
  assumes "insert_cancel_tasks g now eid i ts d = Inr d'"
  shows "\<exists>cts n. d' = d\<lparr>cancel_tasks := cts, draws := n\<rparr>"
  using assms
proof (induction g now eid i ts d rule: insert_cancel_tasks.induct)
  case (1 g now eid i d)
  then show ?case by (intro exI [of _ "cancel_tasks d"] exI [of _ "draws d"]) simp
next
  case (2 g now eid i name descr msg ts d)
  then show ?case by (fastforce simp: and_then_eq_Inr drawn_def)
qed

lemma begin_event_cancellation_tables:
  assumes "begin_event_cancellation g now eid d = Inr d'"
  obtains e where "find_event d eid = Some e" and "ev_status e = ON_GOING"
    and "events d' = put_row ev_id (touch now (e\<lparr>ev_status := CANCELLING\<rparr>)) (events d)"
    and "actions d' = actions d" and "steps d' = steps d" and "expenses d' = expenses d"
  using assms
  by (auto simp: begin_event_cancellation_def Let_def put_event_def
      dest!: insert_cancel_tasks_frame split: option.splits if_splits)

lemma complete_cancel_task_actions:
  "complete_cancel_task now eid tid m d = Inr (t, d') \<Longrightarrow> actions d' = actions d \<and> steps d' = steps d \<and> expenses d' = expenses d"
  by (auto simp: complete_cancel_task_def Let_def put_event_def put_cancel_task_def
      split: option.splits if_splits)

lemma store_result_frame: "\<exists>prs. snd (store_result now eid rid res d) = d\<lparr>plan_reviews := prs\<rparr>"
proof -
  have "\<exists>prs. d = d\<lparr>plan_reviews := prs\<rparr>" by (rule exI [of _ "plan_reviews d"]) simp
  then show ?thesis by (auto simp: store_result_def put_plan_review_def split: option.split)
qed

lemma finish_request_review_frame:
  assumes "finish_request_review now eid rid answer d = (ro, d')"
  shows "\<exists>prs. d' = d\<lparr>plan_reviews := prs\<rparr>"
proof -
  from assms obtain res where "d' = snd (store_result now eid rid res d)"
    by (auto simp: finish_request_review_def map_prod_def split: sum.splits option.splits prod.splits)
      (metis snd_conv)+
  then show ?thesis using store_result_frame by simp
qed

lemma request_review_frame:
  assumes "request_review g now draft eid v d = Inr (b, d')"
  shows "\<exists>prs n. d' = d\<lparr>plan_reviews := prs, draws := n\<rparr>"
proof -
  from assms have "d' = d \<or> (\<exists>r. d' = put_plan_review r (drawn d))"
    by (auto simp: request_review_def Let_def and_then_eq_Inr split: option.splits if_splits)
  then show ?thesis
  proof (elim disjE exE)
    assume "d' = d"
    then show ?thesis by (intro exI [of _ "plan_reviews d"] exI [of _ "draws d"]) simp
  next
    fix r
    assume "d' = put_plan_review r (drawn d)"
    then have "d' = d\<lparr>plan_reviews := put_row pr_event_id r (plan_reviews d), draws := Suc (draws d)\<rparr>"
      by (simp add: put_plan_review_def drawn_def)
    then show ?thesis by blast
  qed
qed

lemma expense_ops_frame:
  "create_expense g club eo spent mc amount cur cat descr by' d = Inr (x, d') \<Longrightarrow>
     actions d' = actions d \<and> events d' = events d \<and> steps d' = steps d \<and> cancel_tasks d' = cancel_tasks d"
  "update_expense c club xid v d = Inr (x, d') \<Longrightarrow>
     actions d' = actions d \<and> events d' = events d \<and> steps d' = steps d \<and> cancel_tasks d' = cancel_tasks d"
  "delete_expense club xid d = Inr d' \<Longrightarrow>
     actions d' = actions d \<and> events d' = events d \<and> steps d' = steps d \<and> cancel_tasks d' = cancel_tasks d"
  subgoal by (auto simp: create_expense_def Let_def and_then_eq_Inr insert_expense_Inr)
  subgoal
    by (auto simp: update_expense_def Let_def and_then_eq_Inr put_expense_def split: option.splits if_splits)
  subgoal by (auto simp: delete_expense_def and_then_eq_Inr)
  done

lemma complete_step_Inr:
  assumes "complete_step g now m sid d = Inr (n, d')"
  obtains s where "find_step d sid = Some s" and "st_completed_at s = None"
    and "d' = request_current_step_drafts g now (st_event_id s)
           (put_step (s\<lparr>st_completed_at := Some now, st_completed_by := Some (mb_id m)\<rparr>) d)"
    and "n = length (filter (\<lambda>a. open_status (ac_status a)) (step_actions d sid))"
  using assms
  by (auto simp: complete_step_def Let_def step_actions_def put_step_def split: option.splits if_splits)

lemma start_event_Inr:
  assumes "start_event g now eid d = Inr d'"
  obtains e where "find_event d eid = Some e" and "ev_status e = PLANNING" and "ev_start_date e \<noteq> None"
    and "\<exists>s \<in> set (steps d). st_event_id s = eid"
    and "d' = request_current_step_drafts g now eid (put_event (touch now (e\<lparr>ev_status := ON_GOING\<rparr>)) d)"
  using assms
  by (auto simp: start_event_def Let_def filter_empty_conv split: option.splits if_splits)

lemma complete_event_Inr:
  assumes "complete_event now eid d = Inr d'"
  obtains e where "find_event d eid = Some e" and "ev_status e = ON_GOING"
    and "\<forall>s \<in> set (steps d). st_event_id s = eid \<longrightarrow> st_completed_at s \<noteq> None"
    and "\<forall>a \<in> set (actions d). ac_event_id a = eid \<longrightarrow> \<not> open_status (ac_status a)"
    and "d' = put_event (touch now (e\<lparr>ev_status := COMPLETE\<rparr>)) d"
  using assms
  by (auto simp: complete_event_def Let_def and_then_eq_Inr lock_operating_event_Inr filter_empty_conv
      split: if_splits)

section \<open>Invariants of the actions\<close>

lemma pk_put_step [simp]: "pk_actions (put_step s d) = pk_actions d"
  by (simp add: pk_actions_def put_step_def)

lemma pk_put_event [simp]: "pk_actions (put_event e d) = pk_actions d"
  by (simp add: pk_actions_def put_event_def)

lemma actions_put [simp]: "actions (put_step s d) = actions d" "actions (put_event e d) = actions d"
  by (simp_all add: put_step_def put_event_def)

lemma finish_keys: "map ac_id (actions (finish aid att oc d)) = map ac_id (actions d)"
  by (simp add: finish_def put_action_def split: option.split)

text \<open>Every step but the replacement of a plan continues the rows under the same keys.\<close>

definition kept_rows :: "db \<Rightarrow> db \<Rightarrow> bool" where
  "kept_rows d d' \<longleftrightarrow> continues d (actions d') \<and> map ac_id (actions d') = map ac_id (actions d)"

lemma written_keys: "written d aid b d' \<Longrightarrow> map ac_id (actions d') = map ac_id (actions d)"
  by (auto simp: written_def request_current_step_drafts_actions mark_current_step_keys)

lemma exec_request_keys: "exec_request q aid v d = Inr d' \<Longrightarrow> map ac_id (actions d') = map ac_id (actions d)"
  by (auto elim: exec_request_written dest: written_keys)

lemma exec_request_continues: "exec_request q aid v d = Inr d' \<Longrightarrow> continues d (actions d')"
  by (cases q) (auto intro: approve_continues deny_continues resolve_continues mark_done_continues
      request_redraft_continues update_action_continues)

lemma exec_request_kept: "exec_request q aid v d = Inr d' \<Longrightarrow> kept_rows d d'"
  by (simp add: kept_rows_def exec_request_keys exec_request_continues)

lemma kept_rows_same: "actions d' = actions d \<Longrightarrow> kept_rows d d'"
  by (simp add: kept_rows_def)

lemma request_current_step_drafts_keys:
  "map ac_id (actions (request_current_step_drafts g now eid d)) = map ac_id (actions d)"
  by (simp add: request_current_step_drafts_actions mark_current_step_keys)

lemma kept_rows_drafts:
  assumes "actions d1 = actions d"
  shows "kept_rows d (request_current_step_drafts g now eid d1)"
  unfolding kept_rows_def request_current_step_drafts_keys
  using assms continues_drafts [of d d1] continues_refl [of d] by simp

lemma progress_kept:
  assumes "progress d d'"
  shows "kept_rows d d' \<or> (\<exists>g now mid eid codes v. replace_plan_steps g now mid eid codes v d = Inr d')"
  using assms
proof cases
  case Approved
  then show ?thesis using exec_request_kept [of "Approve _ _"] by (fastforce dest: endpoint_core(1))
next
  case Denied
  then show ?thesis using exec_request_kept [of "Deny _ _ _"] by (fastforce dest: endpoint_core(2))
next
  case Resolved
  then show ?thesis using exec_request_kept [of "Resolve _ _ _ _ _"] by (fastforce dest: endpoint_core(3))
next
  case Executed
  then show ?thesis using exec_request_kept [of "Mark_Done _ _ _"] by (fastforce dest: endpoint_core(4))
next
  case Redrafted
  then show ?thesis using exec_request_kept [of "Redraft _ _"] by (fastforce dest: endpoint_core(5))
next
  case Step_Completed
  then show ?thesis by (auto dest!: endpoint_core(6) elim!: complete_step_Inr intro!: kept_rows_drafts)
next
  case Started
  then show ?thesis by (auto dest!: endpoint_core(7) elim!: start_event_Inr intro!: kept_rows_drafts)
next
  case Completed
  then show ?thesis by (auto dest!: endpoint_core(8) elim!: complete_event_Inr intro!: kept_rows_same)
next
  case Cancel_Begun
  then show ?thesis by (auto dest!: endpoint_core(9) elim!: begin_event_cancellation_tables intro: kept_rows_same)
next
  case Cancel_Task_Done
  then show ?thesis by (auto dest!: endpoint_core(10) complete_cancel_task_actions intro: kept_rows_same)
next
  case Step_Edited
  then show ?thesis by (auto dest!: endpoint_core(11) elim!: update_step_tables intro: kept_rows_same)
next
  case Action_Edited
  then show ?thesis
    using exec_request_kept [of "Edit _ _ _ _ _"] kept_rows_same by (fastforce dest: endpoint_core(12))
next
  case Plan_Replaced
  then show ?thesis by (blast dest: endpoint_core(13))
next
  case Draft_Ended
  then show ?thesis
    using run_draft_continues by (auto simp: kept_rows_def run_draft_actions finish_keys split: option.split)
next
  case Tasks_Lost
  then show ?thesis by (auto intro: kept_rows_same)
next
  case Review_Asked
  then show ?thesis by (auto dest!: request_review_frame intro!: kept_rows_same)
next
  case Review_Ended
  then show ?thesis by (auto dest!: finish_request_review_frame intro!: kept_rows_same)
next
  case Expense_Created
  then show ?thesis by (auto dest!: expense_ops_frame(1) intro: kept_rows_same)
next
  case Expense_Edited
  then show ?thesis by (auto dest!: expense_ops_frame(2) intro: kept_rows_same)
next
  case Expense_Deleted
  then show ?thesis by (auto dest!: expense_ops_frame(3) intro: kept_rows_same)
qed

lemma progress_actions:
  assumes "progress d d'"
  shows "evolves d (actions d')" and "pk_actions d \<Longrightarrow> pk_actions d'"
proof -
  have "evolves d (actions d') \<and> (pk_actions d \<longrightarrow> pk_actions d')"
    using progress_kept [OF assms]
  proof (elim disjE exE)
    assume "kept_rows d d'"
    then show ?thesis by (simp add: kept_rows_def continues_evolves pk_actions_def)
  qed (use replace_plan_steps_evolves in blast)
  then show "evolves d (actions d')" and "pk_actions d \<Longrightarrow> pk_actions d'" by blast+
qed

lemma progress_lawful:
  assumes "progress d d'" and "pk_actions d" and "find_action d' i = Some b"
  shows "(\<exists>a. find_action d i = Some a \<and> lawful a b) \<or> ac_status b = PENDING"
proof -
  have "ac_id b = i" using assms(3) by (rule find_action_id)
  moreover from find_action_mem [OF assms(3)] progress_actions(1) [OF assms(1)]
  have "(\<exists>a \<in> set (actions d). lawful a b) \<or> ac_status b = PENDING" by (auto simp: evolves_def)
  ultimately show ?thesis using pk_actions_get [OF assms(2)] by (auto simp: lawful_def)
qed

lemma progress_run_pk: "progress\<^sup>*\<^sup>* d d' \<Longrightarrow> pk_actions d \<Longrightarrow> pk_actions d'"
  by (induction rule: rtranclp_induct) (auto dest: progress_actions(2))

text \<open>Whatever is executed was approved before, with the text that is executed.\<close>

lemma same_work_trans: "same_work a b \<Longrightarrow> same_work b c \<Longrightarrow> same_work a c"
  by (simp add: same_work_def)

lemma executed_was_approved:
  assumes "progress\<^sup>*\<^sup>* d0 d" and "pk_actions d0" and "find_action d i = Some b" and "ac_status b = DONE"
    and "ac_approve_needed b" and "ac_type b \<noteq> CONFIRMATION"
  shows "(\<exists>a. find_action d0 i = Some a \<and> ac_status a = DONE \<and> same_work a b) \<or>
         (\<exists>d1 a. progress\<^sup>*\<^sup>* d0 d1 \<and> progress\<^sup>*\<^sup>* d1 d \<and> find_action d1 i = Some a \<and>
                 ac_status a = APPROVED \<and> same_work a b)"
  using assms(1,3-6)
proof (induction arbitrary: b rule: rtranclp_induct)
  case base
  then show ?case by auto
next
  case (step d1 d2)
  from step.hyps(1) assms(2) have "pk_actions d1" by (rule progress_run_pk)
  from progress_lawful [OF step.hyps(2) this step.prems(1)] step.prems(2)
  obtain a where a: "find_action d1 i = Some a" "lawful a b" by auto
  show ?case
  proof (cases "ac_status a = DONE")
    case True
    with a step.prems have "same_work a b" "ac_approve_needed a" "ac_type a \<noteq> CONFIRMATION"
      by (auto simp: lawful_def)
    from step.IH [OF a(1) True this(2,3)] show ?thesis
    proof (elim disjE exE conjE)
      fix a0
      assume "find_action d0 i = Some a0" "ac_status a0 = DONE" "same_work a0 a"
      with \<open>same_work a b\<close> show ?thesis by (blast intro: same_work_trans)
    next
      fix e a0
      assume "progress\<^sup>*\<^sup>* d0 e" "progress\<^sup>*\<^sup>* e d1" "find_action e i = Some a0" "ac_status a0 = APPROVED"
        "same_work a0 a"
      moreover have "progress\<^sup>*\<^sup>* e d2" using \<open>progress\<^sup>*\<^sup>* e d1\<close> step.hyps(2) by (rule rtranclp.rtrancl_into_rtrancl)
      ultimately show ?thesis using \<open>same_work a b\<close> by (blast intro: same_work_trans)
    qed
  next
    case False
    with a step.prems have "ac_status a = APPROVED" "same_work a b"
      by (auto simp: lawful_def split: action_status.splits)
    with a step.hyps show ?thesis by blast
  qed
qed

section \<open>Only an approval approves\<close>

definition no_new_approval :: "db \<Rightarrow> db \<Rightarrow> bool" where
  "no_new_approval d d' \<longleftrightarrow> (\<forall>b \<in> set (actions d'). ac_status b = APPROVED \<longrightarrow>
     (\<exists>a \<in> set (actions d). ac_id a = ac_id b \<and> ac_status a = APPROVED))"

lemma no_new_approval_same: "actions d' = actions d \<Longrightarrow> no_new_approval d d'"
  by (auto simp: no_new_approval_def)

lemma no_new_approval_put:
  "ac_status b \<noteq> APPROVED \<Longrightarrow> actions d' = put_row ac_id b (actions d) \<Longrightarrow> no_new_approval d d'"
  by (auto simp: no_new_approval_def elim!: put_row_memE)

lemma no_new_approval_drafts:
  assumes "no_new_approval d d1"
  shows "no_new_approval d (request_current_step_drafts g now eid d1)"
  unfolding no_new_approval_def request_current_step_drafts_actions
proof (intro ballI impI)
  fix b
  assume "b \<in> set (actions (fst (mark_current_step g now eid d1)))" and "ac_status b = APPROVED"
  then have "b \<in> set (actions d1)"
    using mark_current_step_row by (fastforce simp: needs_draft_def)
  with assms \<open>ac_status b = APPROVED\<close> show "\<exists>a \<in> set (actions d). ac_id a = ac_id b \<and> ac_status a = APPROVED"
    by (simp add: no_new_approval_def)
qed

lemma mark_done_no_approval:
  assumes "mark_done g now m aid v d = Inr d'"
  shows "no_new_approval d d'"
  using assms
proof (rule mark_done_Inr)
  fix a d2
  assume ex: "if records_expense (ac_type a) (ac_amount a)
         then \<exists>e. find_event d (ac_event_id a) = Some e \<and>
                  add_action_expense g (done_row now m a) (ev_club_id e) now (mb_id m)
                    (put_action (done_row now m a) d) = Inr d2
         else d2 = put_action (done_row now m a) d"
    and d': "d' = request_current_step_drafts g now (ac_event_id a) (finish_step_if_done now (ac_step_id a) d2)"
  have "actions d2 = put_row ac_id (done_row now m a) (actions d)"
    using ex by (auto simp: put_action_def dest: add_action_expense_actions split: if_splits)
  then show ?thesis
    unfolding d' by (intro no_new_approval_drafts no_new_approval_put [of "done_row now m a"]) simp_all
qed

lemma resolve_no_approval:
  assumes "resolve g now m choice mv aid v d = Inr d'"
  shows "no_new_approval d d'"
proof -
  from assms obtain a p where d': "d' = request_current_step_drafts g now (ac_event_id a)
      (finish_step_if_done now (ac_step_id a) (put_action (set_resolution now m DONE (a\<lparr>ac_payload := p\<rparr>)) d))"
    by (rule resolve_Inr) blast
  show ?thesis
    unfolding d'
    by (intro no_new_approval_drafts no_new_approval_put [of "set_resolution now m DONE (a\<lparr>ac_payload := p\<rparr>)"])
      (simp_all add: put_action_def)
qed

lemma deny_no_approval: "deny now m r aid v d = Inr d' \<Longrightarrow> no_new_approval d d'"
  by (auto simp: deny_Inr put_action_def
      intro!: no_new_approval_put [of "(set_resolution now m DENIED _)\<lparr>ac_deny_reason := _\<rparr>"])

lemma request_redraft_no_approval:
  assumes "request_redraft g now aid v d = Inr d'"
  shows "no_new_approval d d'"
proof -
  from assms obtain a and e :: event where "can_request_draft (ev_status e) (ac_status a) (ac_type a) (ac_content_status a)
           (ac_content_source a) (ac_draft_started_at a) now"
    and "d' = spawn_draft aid (uuid4_hex g (draws d)) (put_action (redraft_row (uuid4_hex g (draws d)) now a) (drawn d))"
    by (rule request_redraft_Inr)
  then show ?thesis
    by (intro no_new_approval_put [of "redraft_row (uuid4_hex g (draws d)) now a"])
      (simp_all add: can_request_draft_iff put_action_def)
qed

lemma update_action_no_approval: "update_action g now vals pv mid aid v d = Inr d' \<Longrightarrow> no_new_approval d d'"
  by (elim update_action_actions) (rule no_new_approval_put [of "edited_row vals pv _"], auto)

lemma finish_no_approval: "no_new_approval d (finish aid att oc d)"
proof (cases "find_action d aid")
  case None
  then show ?thesis by (simp add: finish_def no_new_approval_same)
next
  case (Some a)
  have id: "ac_id (store_outcome oc a) = ac_id a" "ac_status (store_outcome oc a) = ac_status a"
    by (simp_all add: store_outcome_def split: draft_outcome.split)
  have "no_new_approval d (put_action b d)" if "ac_id b = ac_id a" "ac_status b = ac_status a" for b
    using find_action_mem [OF Some] that
    by (auto simp: no_new_approval_def put_action_def elim!: put_row_memE)
  with Some id show ?thesis
    by (auto simp: finish_def no_new_approval_same split: option.split)
qed

lemma run_draft_no_approval: "no_new_approval d (run_draft ai input aid att d)"
  using finish_no_approval
  by (auto simp: no_new_approval_def run_draft_actions split: option.splits)

lemma replace_plan_steps_no_approval:
  assumes "replace_plan_steps g now mid eid codes v d = Inr d'"
  shows "no_new_approval d d'"
proof -
  from assms obtain e c d0 where e: "find_event d eid = Some e" "ev_status e = PLANNING" "ev_id e = eid"
    and c: "plan_conversation g now mid eid d = Inr (c, d0)" and r: "rebuild_plan g now e codes c d0 = Inr d'"
    by (rule replace_plan_steps_Inr)
  from c have "actions d0 = actions d" "events d0 = events d" by (auto elim: plan_conversation_frame)
  moreover from this e have "in_planning d0 (ev_id e)" by (simp add: in_planning_def find_event_def)
  ultimately show ?thesis
    using rebuild_plan_actions(3) [OF r] by (fastforce simp: no_new_approval_def)
qed

lemma progress_approval:
  assumes "progress d d'"
  shows "no_new_approval d d' \<or> (\<exists>now acc aid v. approve_action now acc aid v d = Inr d')"
  using assms
proof cases
  case Approved
  then show ?thesis by blast
next
  case Denied
  then show ?thesis using deny_no_approval by (blast dest: endpoint_core(2))
next
  case Resolved
  then show ?thesis using resolve_no_approval by (blast dest: endpoint_core(3))
next
  case Executed
  then show ?thesis using mark_done_no_approval by (blast dest: endpoint_core(4))
next
  case Redrafted
  then show ?thesis using request_redraft_no_approval by (blast dest: endpoint_core(5))
next
  case Step_Completed
  then show ?thesis
    by (auto dest!: endpoint_core(6) elim!: complete_step_Inr intro!: no_new_approval_drafts [OF no_new_approval_same])
next
  case Started
  then show ?thesis
    by (auto dest!: endpoint_core(7) elim!: start_event_Inr intro!: no_new_approval_drafts [OF no_new_approval_same])
next
  case Completed
  then show ?thesis by (auto dest!: endpoint_core(8) elim!: complete_event_Inr intro!: no_new_approval_same)
next
  case Cancel_Begun
  then show ?thesis
    by (auto dest!: endpoint_core(9) elim!: begin_event_cancellation_tables intro: no_new_approval_same)
next
  case Cancel_Task_Done
  then show ?thesis by (auto dest!: endpoint_core(10) complete_cancel_task_actions intro: no_new_approval_same)
next
  case Step_Edited
  then show ?thesis by (auto dest!: endpoint_core(11) elim!: update_step_tables intro: no_new_approval_same)
next
  case Action_Edited
  then show ?thesis using update_action_no_approval no_new_approval_same by (blast dest: endpoint_core(12))
next
  case Plan_Replaced
  then show ?thesis using replace_plan_steps_no_approval by (blast dest: endpoint_core(13))
next
  case Draft_Ended
  then show ?thesis using run_draft_no_approval by blast
next
  case Tasks_Lost
  then show ?thesis by (auto intro: no_new_approval_same)
next
  case Review_Asked
  then show ?thesis by (auto dest!: request_review_frame intro!: no_new_approval_same)
next
  case Review_Ended
  then show ?thesis by (auto dest!: finish_request_review_frame intro!: no_new_approval_same)
next
  case Expense_Created
  then show ?thesis by (auto dest!: expense_ops_frame(1) intro: no_new_approval_same)
next
  case Expense_Edited
  then show ?thesis by (auto dest!: expense_ops_frame(2) intro: no_new_approval_same)
next
  case Expense_Deleted
  then show ?thesis by (auto dest!: expense_ops_frame(3) intro: no_new_approval_same)
qed

end
