(* ===== verification/Event_Lifecycle.thy ===== *)
theory Event_Lifecycle
  imports Lifecycle
begin

text \<open>
  The invariants of the transition system about events, their steps, their cancellation checklist and
  the ledger: the moves of an event's status with what holds on entering each, completed steps that
  stay completed, a checklist that is worked off in order, and ledger entries that belong to executed
  actions.
\<close>

section \<open>The life of an event\<close>

definition event_moves :: "(event_status \<times> event_status) list" where
  "event_moves = [(PLANNING, ON_GOING), (ON_GOING, COMPLETE), (ON_GOING, CANCELLING), (CANCELLING, CANCELLED)]"

text \<open>Nothing of the event is left to do.\<close>

definition finished :: "db \<Rightarrow> ident \<Rightarrow> bool" where
  "finished d eid \<longleftrightarrow> (\<forall>s \<in> set (steps d). st_event_id s = eid \<longrightarrow> st_completed_at s \<noteq> None) \<and>
     (\<forall>a \<in> set (actions d). ac_event_id a = eid \<longrightarrow> \<not> open_status (ac_status a))"

definition no_open_cancel_tasks :: "db \<Rightarrow> ident \<Rightarrow> bool" where
  "no_open_cancel_tasks d eid \<longleftrightarrow> (\<forall>t \<in> set (cancel_tasks d). ct_event_id t = eid \<longrightarrow> ct_completed_at t \<noteq> None)"

text \<open>What holds when an event enters a status.\<close>

definition entry_guard :: "db \<Rightarrow> event \<Rightarrow> bool" where
  "entry_guard d e =
     (case ev_status e of
        ON_GOING \<Rightarrow> ev_start_date e \<noteq> None \<and> (\<exists>s \<in> set (steps d). st_event_id s = ev_id e)
      | COMPLETE \<Rightarrow> finished d (ev_id e)
      | CANCELLED \<Rightarrow> no_open_cancel_tasks d (ev_id e)
      | _ \<Rightarrow> True)"

text \<open>What one step may do to the row of an event; \<open>steady\<close> when the status stays.\<close>

definition steady :: "event \<Rightarrow> event \<Rightarrow> bool" where
  "steady e e' \<longleftrightarrow> ev_id e' = ev_id e \<and> ev_club_id e' = ev_club_id e \<and> ev_status e' = ev_status e \<and>
     ev_plan_revision e \<le> ev_plan_revision e'"

definition event_law :: "db \<Rightarrow> event \<Rightarrow> event \<Rightarrow> bool" where
  "event_law d' e e' \<longleftrightarrow> ev_id e' = ev_id e \<and> ev_club_id e' = ev_club_id e \<and>
     ev_plan_revision e \<le> ev_plan_revision e' \<and>
     (ev_status e' = ev_status e \<or> (ev_status e, ev_status e') \<in> set event_moves \<and> entry_guard d' e')"

lemma steady_refl [simp]: "steady e e"
  by (simp add: steady_def)

lemma steady_law: "steady e e' \<Longrightarrow> event_law d' e e'"
  by (simp add: steady_def event_law_def)

definition events_by :: "(event \<Rightarrow> event \<Rightarrow> bool) \<Rightarrow> db \<Rightarrow> db \<Rightarrow> bool" where
  "events_by R d d' \<longleftrightarrow> (\<forall>i. rel_option R (find_event d i) (find_event d' i))"

lemma events_by_same: "(\<And>e. R e e) \<Longrightarrow> events d' = events d \<Longrightarrow> events_by R d d'"
  by (auto simp: events_by_def find_event_def option.rel_refl)

lemma events_by_put:
  assumes "\<And>e. R e e" and "find_event d i = Some e" and "R e e'" and "ev_id e' = ev_id e"
    and "events d' = put_row ev_id e' (events d)"
  shows "events_by R d d'"
proof -
  have "ev_id e' = i" using assms(2,4) event_table.get_key by simp
  then have "find_event d' j = (if j = i then Some e' else find_event d j)" for j
    using assms(2,5) by (auto simp: find_event_def get_put_row)
  then show ?thesis using assms(1-3) by (auto simp: events_by_def option.rel_refl)
qed

lemma events_by_trans:
  assumes "events_by R d d1" and "events_by S d1 d2" and "\<And>x y z. R x y \<Longrightarrow> S y z \<Longrightarrow> T x z"
  shows "events_by T d d2"
  unfolding events_by_def
proof
  fix i
  show "rel_option T (find_event d i) (find_event d2 i)"
    using assms by (cases "find_event d i"; cases "find_event d1 i"; cases "find_event d2 i")
      (fastforce simp: events_by_def dest: spec [of _ i])+
qed

lemma steady_trans: "steady x y \<Longrightarrow> steady y z \<Longrightarrow> steady x z"
  by (auto simp: steady_def)

lemma steady_edits [simp]:
  "steady e (touch now e)" "steady e (touch now (derive_event v a s e))"
  "steady e (touch now (e\<lparr>ev_plan_revision := ev_plan_revision e + 1\<rparr>))"
  by (simp_all add: steady_def)

lemma bump_steady: "events_by steady d (bump_plan_revision now eid d)"
proof (cases "\<exists>e. find_event d eid = Some e \<and> ev_status e = PLANNING")
  case True
  then obtain e where e: "find_event d eid = Some e" "ev_status e = PLANNING" by blast
  show ?thesis
    by (rule events_by_put [OF _ e(1), of _ "touch now (e\<lparr>ev_plan_revision := ev_plan_revision e + 1\<rparr>)"])
      (use e in \<open>simp_all add: bump_plan_revision_def put_event_def\<close>)
next
  case False
  then show ?thesis
    by (intro events_by_same) (auto simp: bump_plan_revision_def split: option.split)
qed

lemma update_action_steady:
  assumes "update_action g now vals pv mid aid v d = Inr d'"
  shows "events_by steady d d'"
  using assms
proof (rule update_action_Inr)
  fix a e d1
  let ?e = "touch now (derive_event vals (edited_row vals pv a) (Option.bind (ac_step_id a) (find_step d)) e)"
  assume e: "find_event d (ac_event_id a) = Some e"
    and adv: "advance_plan_revision g now e mid (put_action (edited_row vals pv a) (put_event ?e d)) = Inr d1"
    and d': "d' = (if edit_changed vals pv a then bump_plan_revision now (ev_id e) d1 else d1)"
  have "events d1 = put_row ev_id ?e (events d)"
    using advance_plan_revision_tables(3) [OF adv] by (simp add: put_action_def put_event_def)
  then have "events_by steady d d1" by (intro events_by_put [OF _ e]) simp_all
  then show ?thesis
    unfolding d' using events_by_trans [OF _ bump_steady steady_trans] by auto
qed

lemma update_step_steady:
  assumes "update_step g now u mid sid v d = Inr d'"
  shows "events_by steady d d'"
  using assms
proof (rule update_step_Inr)
  fix s e d1
  assume e: "find_event d (st_event_id s) = Some e"
    and adv: "advance_plan_revision g now e mid (put_step (apply_step_update u s) (put_event (touch now e) d)) = Inr d1"
    and d': "d' = (if step_changed u s then bump_plan_revision now (ev_id e) d1 else d1)"
  have "events d1 = put_row ev_id (touch now e) (events d)"
    using advance_plan_revision_tables(3) [OF adv] by (simp add: put_step_def put_event_def)
  then have "events_by steady d d1" by (intro events_by_put [OF _ e]) simp_all
  then show ?thesis
    unfolding d' using events_by_trans [OF _ bump_steady steady_trans] by auto
qed

lemma replace_plan_steps_steady:
  assumes "replace_plan_steps g now mid eid codes v d = Inr d'"
  shows "events_by steady d d'"
proof -
  from assms obtain e c d0 where e: "find_event d eid = Some e" and id: "ev_id e = eid"
    and c: "plan_conversation g now mid eid d = Inr (c, d0)"
    and r: "rebuild_plan g now e codes c d0 = Inr d'"
    by (rule replace_plan_steps_Inr)
  from c have ev0: "events d0 = events d" by (auto elim: plan_conversation_frame)
  from r obtain removed ordered d2 d3 where
    p: "place_steps g now (ev_id e) (steps_by_code d0 (ev_id e)) 1 ordered (fold delete_step removed d0) = Inr d2"
    and d3: "d3 = put_conversation (c\<lparr>cv_base_revision := cv_base_revision c + 1\<rparr>) (put_event (touch now e) d2)"
    and d': "d' = d3 \<or> d' = bump_plan_revision now (ev_id e) d3"
    by (rule rebuild_plan_Inr)
  from place_steps_grown [OF p] have "events d2 = events d"
    using shrunk_tables(3) [OF fold_delete_step_shrunk] ev0 by (auto simp: grown_def)
  then have "events d3 = put_row ev_id (touch now e) (events d)"
    by (simp add: d3 put_conversation_def put_event_def)
  then have "events_by steady d d3" by (intro events_by_put [OF _ e]) simp_all
  then show ?thesis
    using d' events_by_trans [OF _ bump_steady steady_trans] by auto
qed

lemma event_law_refl [simp]: "event_law d e e"
  by (simp add: steady_law)

lemma events_by_steady_law: "events_by steady d d' \<Longrightarrow> events_by (event_law d') d d'"
  by (auto simp: events_by_def intro: option.rel_mono_strong steady_law)

lemma events_law_move:
  assumes "find_event d i = Some e" and "(ev_status e, s) \<in> set event_moves"
    and "events d' = put_row ev_id (touch now (e\<lparr>ev_status := s\<rparr>)) (events d)"
    and "entry_guard d' (touch now (e\<lparr>ev_status := s\<rparr>))"
  shows "events_by (event_law d') d d'"
  by (rule events_by_put [OF _ assms(1) _ _ assms(3)])
    (use assms(2,4) in \<open>simp_all add: event_law_def\<close>)

lemma exec_core_events:
  "approve now m aid v d = Inr d' \<Longrightarrow> events d' = events d \<and> steps d' = steps d \<and> cancel_tasks d' = cancel_tasks d"
  "deny now m r aid v d = Inr d' \<Longrightarrow> events d' = events d \<and> steps d' = steps d \<and> cancel_tasks d' = cancel_tasks d"
  "resolve g now m ch mv aid v d = Inr d' \<Longrightarrow> events d' = events d \<and> cancel_tasks d' = cancel_tasks d"
  "mark_done g now m aid v d = Inr d' \<Longrightarrow> events d' = events d \<and> cancel_tasks d' = cancel_tasks d"
  "request_redraft g now aid v d = Inr d' \<Longrightarrow>
     events d' = events d \<and> steps d' = steps d \<and> cancel_tasks d' = cancel_tasks d"
  subgoal by (auto simp: approve_Inr put_action_def)
  subgoal by (auto simp: deny_Inr put_action_def)
  subgoal by (elim resolve_Inr) (simp add: put_action_def)
  subgoal
    by (elim mark_done_Inr) (auto simp: put_action_def elim!: add_action_expense_Inr split: if_splits)
  subgoal by (elim request_redraft_Inr) (simp add: put_action_def)
  done

lemma run_draft_tables [simp]:
  "events (run_draft ai input aid att d) = events d" "steps (run_draft ai input aid att d) = steps d"
  "cancel_tasks (run_draft ai input aid att d) = cancel_tasks d"
  "expenses (run_draft ai input aid att d) = expenses d"
  "members (run_draft ai input aid att d) = members d"
  by (simp_all add: run_draft_def forget_def finish_def put_action_def split: option.split)

lemma complete_cancel_task_Inr:
  assumes "complete_cancel_task now eid tid m d = Inr (t', d')"
  obtains (repeated) "d' = d" "find_cancel_task d tid = Some t'" "ct_completed_at t' \<noteq> None"
  | (first) t e d1 where "find_cancel_task d tid = Some t" and "ct_event_id t = eid" and "find_event d eid = Some e"
      and "ct_completed_at t = None" and "ev_status e = CANCELLING"
      and "first_open_order eid d = Some (ct_task_order t)"
      and "t' = t\<lparr>ct_completed_at := Some now, ct_completed_by := Some (mb_id m)\<rparr>"
      and "d1 = put_cancel_task t' d"
      and "d' = (if no_open_cancel_tasks d1 eid then put_event (touch now (e\<lparr>ev_status := CANCELLED\<rparr>)) d1 else d1)"
proof (cases "find_cancel_task d tid")
  case None
  with assms show thesis by (simp add: complete_cancel_task_def)
next
  case (Some t)
  then obtain e where e: "find_event d (ct_event_id t) = Some e" "ev_id e = eid"
    using assms by (auto simp: complete_cancel_task_def split: option.splits if_splits)
  then have eid: "ct_event_id t = eid" using event_table.get_key by force
  have left: "filter (\<lambda>x. ct_event_id x = eid \<and> ct_completed_at x = None) (cancel_tasks d1) = []
      \<longleftrightarrow> no_open_cancel_tasks d1 eid" for d1
    by (auto simp: no_open_cancel_tasks_def filter_empty_conv)
  show thesis
  proof (cases "ct_completed_at t = None")
    case True
    let ?t = "t\<lparr>ct_completed_at := Some now, ct_completed_by := Some (mb_id m)\<rparr>"
    from True Some e eid assms have *: "ev_status e = CANCELLING" "first_open_order eid d = Some (ct_task_order t)"
        "t' = ?t" "d' = (if no_open_cancel_tasks (put_cancel_task ?t d) eid
              then put_event (touch now (e\<lparr>ev_status := CANCELLED\<rparr>)) (put_cancel_task ?t d) else put_cancel_task ?t d)"
      unfolding complete_cancel_task_def Let_def by (auto simp: left split: if_splits)
    have "find_event d eid = Some e" using e eid by simp
    from that(2) [OF Some eid this True *(1-3) refl] *(3,4) show thesis by simp
  next
    case False
    with Some e eid assms show thesis using that(1) by (simp add: complete_cancel_task_def)
  qed
qed

lemma complete_cancel_task_events:
  assumes "complete_cancel_task now eid tid m d = Inr (t', d')"
  shows "events_by (event_law d') d d'"
  using assms
proof (cases rule: complete_cancel_task_Inr)
  case repeated
  then show ?thesis by (auto intro: events_by_same)
next
  case (first t e d1)
  have id: "ev_id e = eid" using first event_table.get_key by blast
  show ?thesis
  proof (cases "no_open_cancel_tasks d1 eid")
    case True
    then have d': "d' = put_event (touch now (e\<lparr>ev_status := CANCELLED\<rparr>)) d1" using first by simp
    then have "entry_guard d' (touch now (e\<lparr>ev_status := CANCELLED\<rparr>))"
      using True id by (simp add: entry_guard_def no_open_cancel_tasks_def put_event_def)
    then show ?thesis
      by (intro events_law_move [OF first(3), where s = CANCELLED and now = now])
        (simp_all add: first(5,8) d' event_moves_def put_event_def put_cancel_task_def)
  next
    case False
    then show ?thesis using first by (intro events_by_same) (simp_all add: put_cancel_task_def)
  qed
qed

lemma start_event_law:
  assumes "start_event g now eid d = Inr d'"
  shows "events_by (event_law d') d d'"
  using assms
proof (rule start_event_Inr)
  fix e
  assume e: "find_event d eid = Some e" "ev_status e = PLANNING" "ev_start_date e \<noteq> None"
    and st: "\<exists>s \<in> set (steps d). st_event_id s = eid"
    and d': "d' = request_current_step_drafts g now eid (put_event (touch now (e\<lparr>ev_status := ON_GOING\<rparr>)) d)"
  have "ev_id e = eid" using e(1) event_table.get_key by blast
  with e st show ?thesis
    by (intro events_law_move [OF e(1), where s = ON_GOING and now = now])
      (simp_all add: d' put_event_def event_moves_def entry_guard_def)
qed

lemma complete_event_law:
  assumes "complete_event now eid d = Inr d'"
  shows "events_by (event_law d') d d'"
  using assms
proof (rule complete_event_Inr)
  fix e
  assume e: "find_event d eid = Some e" "ev_status e = ON_GOING"
    and st: "\<forall>s \<in> set (steps d). st_event_id s = eid \<longrightarrow> st_completed_at s \<noteq> None"
    and ac: "\<forall>a \<in> set (actions d). ac_event_id a = eid \<longrightarrow> \<not> open_status (ac_status a)"
    and d': "d' = put_event (touch now (e\<lparr>ev_status := COMPLETE\<rparr>)) d"
  have "ev_id e = eid" using e(1) event_table.get_key by blast
  with e st ac show ?thesis
    by (intro events_law_move [OF e(1), where s = COMPLETE and now = now])
      (simp_all add: d' put_event_def event_moves_def entry_guard_def finished_def)
qed

lemma progress_events:
  assumes "progress d d'"
  shows "events_by (event_law d') d d'"
  using assms
proof cases
  case Approved
  then show ?thesis by (auto dest!: endpoint_core(1) exec_core_events intro: events_by_same)
next
  case Denied
  then show ?thesis by (auto dest!: endpoint_core(2) exec_core_events intro: events_by_same)
next
  case Resolved
  then show ?thesis by (auto dest!: endpoint_core(3) exec_core_events intro: events_by_same)
next
  case Executed
  then show ?thesis by (auto dest!: endpoint_core(4) exec_core_events intro: events_by_same)
next
  case Redrafted
  then show ?thesis by (auto dest!: endpoint_core(5) exec_core_events intro: events_by_same)
next
  case Step_Completed
  then show ?thesis
    by (auto dest!: endpoint_core(6) elim!: complete_step_Inr simp: put_step_def intro!: events_by_same)
next
  case (Started g now acc eid)
  then have "start_event g now eid d = Inr d'" by (simp add: endpoint_core(7))
  then show ?thesis by (rule start_event_law)
next
  case (Completed now acc eid)
  then have "complete_event now eid d = Inr d'" by (simp add: endpoint_core(8))
  then show ?thesis by (rule complete_event_law)
next
  case Cancel_Begun
  then show ?thesis
    by (auto dest!: endpoint_core(9) elim!: begin_event_cancellation_tables
        simp: event_moves_def entry_guard_def intro: events_law_move)
next
  case Cancel_Task_Done
  then show ?thesis by (auto dest!: endpoint_core(10) intro: complete_cancel_task_events)
next
  case Step_Edited
  then show ?thesis
    by (auto dest!: endpoint_core(11) intro: update_step_steady events_by_steady_law)
next
  case Action_Edited
  then show ?thesis
    by (auto dest!: endpoint_core(12) intro: update_action_steady events_by_steady_law events_by_same)
next
  case Plan_Replaced
  then show ?thesis
    by (auto dest!: endpoint_core(13) intro: replace_plan_steps_steady events_by_steady_law)
next
  case Draft_Ended
  then show ?thesis by (auto intro: events_by_same)
next
  case Tasks_Lost
  then show ?thesis by (auto intro: events_by_same)
next
  case Review_Asked
  then show ?thesis by (auto dest!: request_review_frame intro: events_by_same)
next
  case Review_Ended
  then show ?thesis by (auto dest!: finish_request_review_frame intro: events_by_same)
next
  case Expense_Created
  then show ?thesis by (auto dest!: expense_ops_frame(1) intro: events_by_same)
next
  case Expense_Edited
  then show ?thesis by (auto dest!: expense_ops_frame(2) intro: events_by_same)
next
  case Expense_Deleted
  then show ?thesis by (auto dest!: expense_ops_frame(3) intro: events_by_same)
qed

section \<open>The life of a step\<close>

text \<open>A completed step stays completed, at the time it was completed.\<close>

definition step_law :: "step \<Rightarrow> step \<Rightarrow> bool" where
  "step_law s s' \<longleftrightarrow> st_id s' = st_id s \<and> st_event_id s' = st_event_id s \<and> st_code s' = st_code s \<and>
     (st_completed_at s \<noteq> None \<longrightarrow> st_completed_at s' = st_completed_at s)"

definition steps_evolve :: "db \<Rightarrow> step list \<Rightarrow> bool" where
  "steps_evolve d ys \<longleftrightarrow> (\<forall>s' \<in> set ys. (\<exists>s \<in> set (steps d). step_law s s') \<or> in_planning d (st_event_id s'))"

lemma step_law_refl [simp]: "step_law s s"
  by (simp add: step_law_def)

lemma steps_evolve_refl [simp]: "steps_evolve d (steps d)"
  by (auto simp: steps_evolve_def intro: step_law_refl)

lemma find_step_mem: "find_step d i = Some s \<Longrightarrow> s \<in> set (steps d)"
  by (auto simp: find_step_def dest: get_row_SomeD)

lemma steps_evolve_put:
  "find_step d i = Some s \<Longrightarrow> step_law s s' \<Longrightarrow> steps_evolve d (put_row st_id s' (steps d))"
  by (auto simp: steps_evolve_def elim!: put_row_memE intro: step_law_refl dest: find_step_mem)

lemma finish_step_if_done_evolve:
  "steps d = steps d0 \<Longrightarrow> steps_evolve d0 (steps (finish_step_if_done now sid d))"
  by (auto simp: finish_step_if_done_def put_step_def step_law_def find_step_def
      intro!: steps_evolve_put split: option.splits)

lemma steps_by_code_get:
  assumes "map_of (steps_by_code d eid) c = Some s"
  shows "s \<in> set (steps d)" and "st_event_id s = eid" and "st_code s = c"
proof -
  from assms have "(c, s) \<in> set (map (\<lambda>s. (st_code s, s)) (filter (\<lambda>s. st_event_id s = eid) (steps d)))"
    by (auto simp: steps_by_code_def map_of_dict_merge dest!: map_of_SomeD)
  then show "s \<in> set (steps d)" and "st_event_id s = eid" and "st_code s = c" by auto
qed

lemma insert_actions_steps: "insert_actions g now eid sid title ts d = Inr d' \<Longrightarrow> steps d' = steps d"
  by (drule insert_actions_rows) auto

lemma place_step_steps:
  assumes "place_step g now eid (steps_by_code d0 eid) k c d = Inr d'"
  shows "\<forall>s \<in> set (steps d'). s \<in> set (steps d) \<or> st_event_id s = eid"
  using assms
  by (auto simp: place_step_def Let_def and_then_eq_Inr insert_row_Inr put_step_def new_step_def
      split: option.splits dest!: insert_actions_steps elim!: put_row_memE)
    (simp add: steps_by_code_get(2))

lemma place_steps_steps:
  assumes "place_steps g now eid (steps_by_code d0 eid) k cs d = Inr d'"
  shows "\<forall>s \<in> set (steps d'). s \<in> set (steps d) \<or> st_event_id s = eid"
  using assms
proof (induction cs arbitrary: k d)
  case (Cons c cs)
  then show ?case by (fastforce simp: and_then_eq_Inr dest!: place_step_steps)
qed simp

lemma replace_plan_steps_evolve:
  assumes "replace_plan_steps g now mid eid codes v d = Inr d'"
  shows "steps_evolve d (steps d')"
proof -
  from assms obtain e c d0 where e: "find_event d eid = Some e" "ev_status e = PLANNING" "ev_id e = eid"
    and c: "plan_conversation g now mid eid d = Inr (c, d0)"
    and r: "rebuild_plan g now e codes c d0 = Inr d'"
    by (rule replace_plan_steps_Inr)
  from c have st0: "steps d0 = steps d" by (auto elim: plan_conversation_frame)
  from r obtain removed ordered d2 d3 where
    p: "place_steps g now (ev_id e) (steps_by_code d0 (ev_id e)) 1 ordered (fold delete_step removed d0) = Inr d2"
    and d3: "d3 = put_conversation (c\<lparr>cv_base_revision := cv_base_revision c + 1\<rparr>) (put_event (touch now e) d2)"
    and d': "d' = d3 \<or> d' = bump_plan_revision now (ev_id e) d3"
    by (rule rebuild_plan_Inr)
  have "steps d' = steps d2" using d3 d' by (auto simp: put_conversation_def put_event_def)
  with place_steps_steps [OF p] shrunk_tables(2) [OF fold_delete_step_shrunk] st0
  have "\<forall>s \<in> set (steps d'). s \<in> set (steps d) \<or> st_event_id s = eid"
    using e(3) by fastforce
  moreover have "in_planning d eid" using e by (simp add: in_planning_def)
  ultimately show ?thesis
    unfolding steps_evolve_def by (metis step_law_refl)
qed

lemma progress_steps:
  assumes "progress d d'"
  shows "steps_evolve d (steps d')"
  using assms
proof cases
  case Approved
  then show ?thesis by (auto dest!: endpoint_core(1) exec_core_events(1))
next
  case Denied
  then show ?thesis by (auto dest!: endpoint_core(2) exec_core_events(2))
next
  case Resolved
  then show ?thesis
    by (auto dest!: endpoint_core(3) elim!: resolve_Inr simp: put_action_def
        intro!: finish_step_if_done_evolve)
next
  case Executed
  then show ?thesis
    by (auto dest!: endpoint_core(4) elim!: mark_done_Inr add_action_expense_Inr
        simp: put_action_def intro!: finish_step_if_done_evolve split: if_splits)
next
  case Redrafted
  then show ?thesis by (auto dest!: endpoint_core(5) exec_core_events(5))
next
  case Step_Completed
  then show ?thesis
    by (auto dest!: endpoint_core(6) elim!: complete_step_Inr simp: put_step_def step_law_def
        intro!: steps_evolve_put)
next
  case Started
  then show ?thesis by (auto dest!: endpoint_core(7) elim!: start_event_Inr simp: put_event_def)
next
  case Completed
  then show ?thesis by (auto dest!: endpoint_core(8) elim!: complete_event_Inr simp: put_event_def)
next
  case Cancel_Begun
  then show ?thesis by (auto dest!: endpoint_core(9) elim!: begin_event_cancellation_tables)
next
  case Cancel_Task_Done
  then show ?thesis by (auto dest!: endpoint_core(10) complete_cancel_task_actions)
next
  case Step_Edited
  then show ?thesis
    by (auto dest!: endpoint_core(11) elim!: update_step_tables simp: step_law_def intro!: steps_evolve_put)
next
  case Action_Edited
  then show ?thesis
    by (auto dest!: endpoint_core(12) advance_plan_revision_tables(2) elim!: update_action_Inr
        simp: put_action_def put_event_def split: if_splits)
next
  case Plan_Replaced
  then show ?thesis by (auto dest!: endpoint_core(13) intro: replace_plan_steps_evolve)
next
  case Draft_Ended
  then show ?thesis by auto
next
  case Tasks_Lost
  then show ?thesis by auto
next
  case Review_Asked
  then show ?thesis by (auto dest!: request_review_frame)
next
  case Review_Ended
  then show ?thesis by (auto dest!: finish_request_review_frame)
next
  case Expense_Created
  then show ?thesis by (auto dest!: expense_ops_frame(1))
next
  case Expense_Edited
  then show ?thesis by (auto dest!: expense_ops_frame(2))
next
  case Expense_Deleted
  then show ?thesis by (auto dest!: expense_ops_frame(3))
qed

section \<open>A completed event is finished\<close>

lemma finished_kept:
  assumes "progress d d'" and "find_event d i = Some e" and "ev_status e \<noteq> PLANNING" and "finished d i"
  shows "finished d' i"
  unfolding finished_def
proof (intro conjI ballI impI)
  have np: "\<not> in_planning d i" using assms(2,3) by (simp add: in_planning_def)
  fix s'
  assume "s' \<in> set (steps d')" "st_event_id s' = i"
  with progress_steps [OF assms(1)] np obtain s where "s \<in> set (steps d)" "step_law s s'"
    by (auto simp: steps_evolve_def)
  with \<open>st_event_id s' = i\<close> assms(4) show "st_completed_at s' \<noteq> None"
    by (auto simp: finished_def step_law_def)
next
  have np: "\<not> in_planning d i" using assms(2,3) by (simp add: in_planning_def)
  fix b
  assume "b \<in> set (actions d')" "ac_event_id b = i"
  with progress_actions(1) [OF assms(1)] np obtain a where "a \<in> set (actions d)" "lawful a b"
    by (auto simp: evolves_def)
  with \<open>ac_event_id b = i\<close> assms(4) show "\<not> open_status (ac_status b)"
    by (auto simp: finished_def lawful_def open_status_def split: action_status.splits)
qed

lemma progress_found:
  assumes "progress d d'" and "find_event d' i = Some e'"
  obtains e where "find_event d i = Some e" and "event_law d' e e'"
  using progress_events [OF assms(1)] assms(2)
  by (cases "find_event d i") (auto simp: events_by_def dest: spec [of _ i])

section \<open>The cancellation checklist\<close>

text \<open>A task is completed only when the tasks before it are, and once.\<close>

definition task_law :: "db \<Rightarrow> cancel_task \<Rightarrow> cancel_task \<Rightarrow> bool" where
  "task_law d t t' \<longleftrightarrow> ct_id t' = ct_id t \<and> ct_event_id t' = ct_event_id t \<and>
     ct_task_order t' = ct_task_order t \<and>
     (ct_completed_at t \<noteq> None \<longrightarrow> ct_completed_at t' = ct_completed_at t) \<and>
     (ct_completed_at t = None \<longrightarrow> ct_completed_at t' \<noteq> None \<longrightarrow>
        (\<forall>u \<in> set (cancel_tasks d). ct_event_id u = ct_event_id t \<longrightarrow>
           ct_task_order u < ct_task_order t \<longrightarrow> ct_completed_at u \<noteq> None))"

definition new_task :: "db \<Rightarrow> cancel_task \<Rightarrow> bool" where
  "new_task d t \<longleftrightarrow> ct_completed_at t = None \<and>
     (\<forall>u \<in> set (cancel_tasks d). ct_event_id u \<noteq> ct_event_id t) \<and>
     (\<exists>e. find_event d (ct_event_id t) = Some e \<and> ev_status e = ON_GOING)"

definition tasks_evolve :: "db \<Rightarrow> cancel_task list \<Rightarrow> bool" where
  "tasks_evolve d ys \<longleftrightarrow> (\<forall>t' \<in> set ys. (\<exists>t \<in> set (cancel_tasks d). task_law d t t') \<or> new_task d t')"

lemma task_law_refl [simp]: "task_law d t t"
  by (simp add: task_law_def)

lemma tasks_evolve_same: "cancel_tasks d' = cancel_tasks d \<Longrightarrow> tasks_evolve d (cancel_tasks d')"
  by (auto simp: tasks_evolve_def intro: task_law_refl)

lemma insert_cancel_tasks_rows:
  assumes "insert_cancel_tasks g now eid i ts d = Inr d'"
  shows "\<forall>t \<in> set (cancel_tasks d'). t \<in> set (cancel_tasks d) \<or> ct_event_id t = eid \<and> ct_completed_at t = None"
  using assms
proof (induction g now eid i ts d rule: insert_cancel_tasks.induct)
  case (2 g now eid i name descr msg ts d)
  then show ?case by (fastforce simp: and_then_eq_Inr insert_row_Inr)
qed simp

lemma begin_event_cancellation_tasks:
  assumes "begin_event_cancellation g now eid d = Inr d'"
  shows "tasks_evolve d (cancel_tasks d')"
proof -
  from assms obtain e where e: "find_event d eid = Some e" "ev_status e = ON_GOING"
    by (rule begin_event_cancellation_tables)
  let ?d1 = "put_event (touch now (e\<lparr>ev_status := CANCELLING\<rparr>)) d"
  have ct: "cancel_tasks ?d1 = cancel_tasks d" by (simp add: put_event_def)
  show ?thesis
  proof (cases "filter (\<lambda>t. ct_event_id t = eid) (cancel_tasks d) = []")
    case True
    with e assms ct have "insert_cancel_tasks g now eid 0 CANCEL_TASKS ?d1 = Inr d'"
      by (simp add: begin_event_cancellation_def Let_def)
    then have rows: "\<forall>t \<in> set (cancel_tasks d'). t \<in> set (cancel_tasks d) \<or>
        ct_event_id t = eid \<and> ct_completed_at t = None"
      using insert_cancel_tasks_rows ct by fastforce
    from True have "\<forall>u \<in> set (cancel_tasks d). ct_event_id u \<noteq> eid"
      by (simp add: filter_empty_conv)
    with rows e show ?thesis
      unfolding tasks_evolve_def new_task_def by (metis task_law_refl)
  next
    case False
    with e assms ct have "d' = ?d1" by (simp add: begin_event_cancellation_def Let_def)
    then show ?thesis using ct by (simp add: tasks_evolve_same)
  qed
qed

lemma first_open_order_below:
  assumes "first_open_order eid d = Some k" and "u \<in> set (cancel_tasks d)" and "ct_event_id u = eid"
    and "ct_task_order u < k"
  shows "ct_completed_at u \<noteq> None"
proof -
  let ?xs = "list_cancel_tasks eid d"
  from assms(1) obtain t where t: "find (\<lambda>t. ct_completed_at t = None) ?xs = Some t" "ct_task_order t = k"
    by (auto simp: first_open_order_def)
  then obtain i where i: "i < length ?xs" "?xs ! i = t" "\<forall>j < i. ct_completed_at (?xs ! j) \<noteq> None"
    by (auto simp: find_Some_iff)
  have "u \<in> set ?xs" using assms(2,3) by (simp add: list_cancel_tasks_def)
  then obtain j where j: "j < length ?xs" "?xs ! j = u" by (auto simp: in_set_conv_nth)
  have sorted: "sorted (map ct_task_order ?xs)" by (simp add: list_cancel_tasks_def)
  have "j < i"
  proof (rule ccontr)
    assume "\<not> j < i"
    then have "map ct_task_order ?xs ! i \<le> map ct_task_order ?xs ! j"
      using sorted j(1) by (intro sorted_nth_mono) simp_all
    then show False using i(1,2) j t(2) assms(4) by simp
  qed
  with i(3) j show ?thesis by auto
qed

lemma replace_plan_steps_cancel_tasks:
  assumes "replace_plan_steps g now mid eid codes v d = Inr d'"
  shows "cancel_tasks d' = cancel_tasks d"
proof -
  from assms obtain e c d0 where c: "plan_conversation g now mid eid d = Inr (c, d0)"
    and r: "rebuild_plan g now e codes c d0 = Inr d'"
    by (rule replace_plan_steps_Inr)
  from c have ct0: "cancel_tasks d0 = cancel_tasks d" by (auto elim: plan_conversation_frame)
  from r obtain removed ordered d2 d3 where
    p: "place_steps g now (ev_id e) (steps_by_code d0 (ev_id e)) 1 ordered (fold delete_step removed d0) = Inr d2"
    and d3: "d3 = put_conversation (c\<lparr>cv_base_revision := cv_base_revision c + 1\<rparr>) (put_event (touch now e) d2)"
    and d': "d' = d3 \<or> d' = bump_plan_revision now (ev_id e) d3"
    by (rule rebuild_plan_Inr)
  from place_steps_grown [OF p] have "cancel_tasks d2 = cancel_tasks d"
    using shrunk_tables(6) [OF fold_delete_step_shrunk] ct0 by (auto simp: grown_def)
  then show ?thesis using d3 d' by (auto simp: put_conversation_def put_event_def)
qed

lemma complete_cancel_task_tasks:
  assumes "complete_cancel_task now eid tid m d = Inr (t', d')"
  shows "tasks_evolve d (cancel_tasks d')"
  using assms
proof (cases rule: complete_cancel_task_Inr)
  case repeated
  then show ?thesis by (simp add: tasks_evolve_same)
next
  case (first t e d1)
  have "t \<in> set (cancel_tasks d)" using first(1) by (auto simp: find_cancel_task_def dest: get_row_SomeD)
  moreover have "task_law d t t'"
    using first first_open_order_below [OF first(6)] by (auto simp: task_law_def)
  moreover have "cancel_tasks d' = put_row ct_id t' (cancel_tasks d)"
    using first by (simp add: put_event_def put_cancel_task_def)
  ultimately show ?thesis
    by (auto simp: tasks_evolve_def elim!: put_row_memE intro: task_law_refl)
qed

lemma progress_tasks:
  assumes "progress d d'"
  shows "tasks_evolve d (cancel_tasks d')"
  using assms
proof cases
  case Approved
  then show ?thesis by (auto dest!: endpoint_core(1) exec_core_events intro: tasks_evolve_same)
next
  case Denied
  then show ?thesis by (auto dest!: endpoint_core(2) exec_core_events intro: tasks_evolve_same)
next
  case Resolved
  then show ?thesis by (auto dest!: endpoint_core(3) exec_core_events intro: tasks_evolve_same)
next
  case Executed
  then show ?thesis by (auto dest!: endpoint_core(4) exec_core_events intro: tasks_evolve_same)
next
  case Redrafted
  then show ?thesis by (auto dest!: endpoint_core(5) exec_core_events intro: tasks_evolve_same)
next
  case Step_Completed
  then show ?thesis
    by (auto dest!: endpoint_core(6) elim!: complete_step_Inr simp: put_step_def intro!: tasks_evolve_same)
next
  case Started
  then show ?thesis
    by (auto dest!: endpoint_core(7) elim!: start_event_Inr simp: put_event_def intro!: tasks_evolve_same)
next
  case Completed
  then show ?thesis
    by (auto dest!: endpoint_core(8) elim!: complete_event_Inr simp: put_event_def intro!: tasks_evolve_same)
next
  case Cancel_Begun
  then show ?thesis by (auto dest!: endpoint_core(9) intro: begin_event_cancellation_tasks)
next
  case Cancel_Task_Done
  then show ?thesis by (auto dest!: endpoint_core(10) intro: complete_cancel_task_tasks)
next
  case Step_Edited
  then show ?thesis
    by (auto dest!: endpoint_core(11) advance_plan_revision_tables(6) elim!: update_step_Inr
        simp: put_step_def put_event_def intro!: tasks_evolve_same split: if_splits)
next
  case Action_Edited
  then show ?thesis
    by (auto dest!: endpoint_core(12) advance_plan_revision_tables(6) elim!: update_action_Inr
        simp: put_action_def put_event_def intro!: tasks_evolve_same split: if_splits)
next
  case Plan_Replaced
  then show ?thesis by (auto dest!: endpoint_core(13) replace_plan_steps_cancel_tasks intro: tasks_evolve_same)
next
  case Draft_Ended
  then show ?thesis by (auto intro: tasks_evolve_same)
next
  case Tasks_Lost
  then show ?thesis by (auto intro: tasks_evolve_same)
next
  case Review_Asked
  then show ?thesis by (auto dest!: request_review_frame intro: tasks_evolve_same)
next
  case Review_Ended
  then show ?thesis by (auto dest!: finish_request_review_frame intro: tasks_evolve_same)
next
  case Expense_Created
  then show ?thesis by (auto dest!: expense_ops_frame(1) intro: tasks_evolve_same)
next
  case Expense_Edited
  then show ?thesis by (auto dest!: expense_ops_frame(2) intro: tasks_evolve_same)
next
  case Expense_Deleted
  then show ?thesis by (auto dest!: expense_ops_frame(3) intro: tasks_evolve_same)
qed

section \<open>Invariants of the reachable states\<close>

text \<open>The completed tasks of a checklist are its first ones.\<close>

definition in_order :: "db \<Rightarrow> bool" where
  "in_order d \<longleftrightarrow> (\<forall>t \<in> set (cancel_tasks d). \<forall>u \<in> set (cancel_tasks d).
     ct_event_id t = ct_event_id u \<and> ct_task_order t < ct_task_order u \<and> ct_completed_at u \<noteq> None \<longrightarrow>
     ct_completed_at t \<noteq> None)"

definition sound :: "db \<Rightarrow> bool" where
  "sound d \<longleftrightarrow> pk_actions d \<and> in_order d \<and>
     (\<forall>i e. find_event d i = Some e \<longrightarrow>
        (ev_status e = COMPLETE \<longrightarrow> finished d i) \<and> (ev_status e = CANCELLED \<longrightarrow> no_open_cancel_tasks d i))"

lemma in_order_kept:
  assumes "progress d d'" and "in_order d"
  shows "in_order d'"
  unfolding in_order_def
proof (intro ballI impI)
  fix t' u'
  assume t': "t' \<in> set (cancel_tasks d')" and u': "u' \<in> set (cancel_tasks d')"
    and *: "ct_event_id t' = ct_event_id u' \<and> ct_task_order t' < ct_task_order u' \<and> ct_completed_at u' \<noteq> None"
  from progress_tasks [OF assms(1)] u' * obtain u where u: "u \<in> set (cancel_tasks d)" "task_law d u u'"
    by (auto simp: tasks_evolve_def new_task_def)
  from progress_tasks [OF assms(1)] t' have "(\<exists>t \<in> set (cancel_tasks d). task_law d t t') \<or> new_task d t'"
    by (simp add: tasks_evolve_def)
  with u * obtain t where t: "t \<in> set (cancel_tasks d)" "task_law d t t'"
    by (auto simp: new_task_def task_law_def)
  have same: "ct_event_id t = ct_event_id u" "ct_task_order t < ct_task_order u"
    using t(2) u(2) * by (simp_all add: task_law_def)
  have "ct_completed_at t \<noteq> None"
  proof (cases "ct_completed_at u = None")
    case True
    with u(2) * have "\<forall>x \<in> set (cancel_tasks d). ct_event_id x = ct_event_id u \<longrightarrow>
        ct_task_order x < ct_task_order u \<longrightarrow> ct_completed_at x \<noteq> None"
      unfolding task_law_def by blast
    with t(1) same show ?thesis by blast
  next
    case False
    with assms(2) t(1) u(1) same show ?thesis unfolding in_order_def by blast
  qed
  with t show "ct_completed_at t' \<noteq> None" by (simp add: task_law_def)
qed

lemma no_open_kept:
  assumes "progress d d'" and "find_event d i = Some e" and "ev_status e \<noteq> ON_GOING"
    and "no_open_cancel_tasks d i"
  shows "no_open_cancel_tasks d' i"
  unfolding no_open_cancel_tasks_def
proof (intro ballI impI)
  fix t'
  assume "t' \<in> set (cancel_tasks d')" "ct_event_id t' = i"
  with progress_tasks [OF assms(1)] assms(2,3) obtain t where "t \<in> set (cancel_tasks d)" "task_law d t t'"
    by (auto simp: tasks_evolve_def new_task_def)
  with assms(4) \<open>ct_event_id t' = i\<close> show "ct_completed_at t' \<noteq> None"
    by (auto simp: no_open_cancel_tasks_def task_law_def)
qed

lemma sound_kept:
  assumes "progress d d'" and "sound d"
  shows "sound d'"
  unfolding sound_def
proof (intro conjI allI impI)
  show "pk_actions d'" "in_order d'"
    using assms progress_actions(2) in_order_kept by (auto simp: sound_def)
  fix i e'
  assume e': "find_event d' i = Some e'"
  then have id: "ev_id e' = i" by (rule event_table.get_key)
  from assms(1) e' obtain e where e: "find_event d i = Some e" "event_law d' e e'" by (rule progress_found)
  {
    assume "ev_status e' = COMPLETE"
    with e id assms show "finished d' i"
      using finished_kept [OF assms(1) e(1)] by (auto simp: event_law_def entry_guard_def sound_def)
  next
    assume "ev_status e' = CANCELLED"
    with e id assms show "no_open_cancel_tasks d' i"
      using no_open_kept [OF assms(1) e(1)] by (auto simp: event_law_def entry_guard_def sound_def)
  }
qed

lemma sound_reachable: "progress\<^sup>*\<^sup>* d d' \<Longrightarrow> sound d \<Longrightarrow> sound d'"
  by (induction rule: rtranclp_induct) (auto intro: sound_kept)

end
