(* ===== verification/Ledger.thy ===== *)
theory Ledger
  imports Event_Lifecycle
begin

text \<open>
  The ledger under the transition system: an entry that names an action belongs to an action that was
  executed, and no action is booked twice.
\<close>

definition executed :: "db \<Rightarrow> ident \<Rightarrow> bool" where
  "executed d i \<longleftrightarrow> (\<exists>a \<in> set (actions d). ac_id a = i \<and> ac_status a = DONE)"

definition linked :: "db \<Rightarrow> bool" where
  "linked d \<longleftrightarrow> (\<forall>x \<in> set (expenses d). \<forall>i. ex_action_id x = Some i \<longrightarrow> executed d i)"

definition books_ok :: "db \<Rightarrow> bool" where
  "books_ok d \<longleftrightarrow> pk_actions d \<and> distinct (map ex_id (expenses d)) \<and> booked_once d \<and> linked d"

section \<open>Executed actions stay\<close>

lemma executed_kept:
  assumes "kept_rows d d'" and "pk_actions d" and "executed d i"
  shows "executed d' i"
proof -
  from assms(3) obtain a where a: "a \<in> set (actions d)" "ac_id a = i" "ac_status a = DONE"
    by (auto simp: executed_def)
  have "set (map ac_id (actions d')) = set (map ac_id (actions d))"
    using assms(1) by (simp add: kept_rows_def)
  then have "i \<in> set (map ac_id (actions d'))" using a by auto
  then obtain b where b: "b \<in> set (actions d')" "ac_id b = i" by auto
  then obtain a' where a': "a' \<in> set (actions d)" "lawful a' b"
    using assms(1) by (auto simp: kept_rows_def continues_def)
  then have "ac_id a' = i" using b by (simp add: lawful_def)
  then have "a' = a" using pk_actions_get [OF assms(2) a'(1)] pk_actions_get [OF assms(2) a(1)] a(2) by simp
  then show ?thesis using a a' b by (auto simp: executed_def lawful_def)
qed

section \<open>Booking\<close>

lemma booked_once_cong:
  assumes "map ex_action_id (expenses d') = map ex_action_id (expenses d)"
  shows "booked_once d' = booked_once d"
proof -
  have count: "length (filter (\<lambda>x. ex_action_id x = Some a) xs) = count_list (map ex_action_id xs) (Some a)"
    for a and xs :: "expense list"
    by (induction xs) auto
  show ?thesis unfolding booked_once_def count assms ..
qed

lemma booked_once_filter:
  assumes "booked_once d" and "expenses d' = filter p (expenses d)"
  shows "booked_once d'"
  unfolding booked_once_def
proof
  fix a
  have "length (filter (\<lambda>x. ex_action_id x = Some a) (filter p xs))
      \<le> length (filter (\<lambda>x. ex_action_id x = Some a) xs)" for xs :: "expense list"
    by (induction xs) auto
  from this [of "expenses d"] show "length (filter (\<lambda>x. ex_action_id x = Some a) (expenses d')) \<le> 1"
    using assms(1) [unfolded booked_once_def, THEN spec, of a] unfolding assms(2) by linarith
qed

lemma put_expense_links:
  assumes "distinct (map ex_id (expenses d))" and "find_expense d i = Some x" and "ex_id y = ex_id x"
    and "ex_action_id y = ex_action_id x"
  shows "map ex_action_id (expenses (put_expense y d)) = map ex_action_id (expenses d)"
proof -
  have "ex_action_id z = ex_action_id x" if "z \<in> set (expenses d)" "ex_id z = ex_id x" for z
    using get_row_distinct [OF assms(1) that(1)] assms(2) that(2) get_row_key [of ex_id "expenses d" i x]
    by (simp add: find_expense_def)
  with assms(3,4) show ?thesis by (auto simp: put_expense_def put_row_def)
qed

text \<open>What the steps do to the ledger.\<close>

lemma linked_cong:
  assumes "linked d" and "map ex_action_id (expenses d') = map ex_action_id (expenses d)"
    and "\<And>i. executed d i \<Longrightarrow> executed d' i"
  shows "linked d'"
proof -
  have links: "linked e \<longleftrightarrow> (\<forall>i. Some i \<in> set (map ex_action_id (expenses e)) \<longrightarrow> executed e i)" for e
    by (force simp: linked_def)
  show ?thesis using assms unfolding links by simp
qed

lemma books_same:
  assumes "books_ok d" and "kept_rows d d'" and "expenses d' = expenses d"
  shows "books_ok d'"
proof -
  have ok: "pk_actions d" "linked d" "booked_once d" "distinct (map ex_id (expenses d))"
    using assms(1) by (simp_all add: books_ok_def)
  have "pk_actions d'" using ok(1) assms(2) by (simp add: kept_rows_def pk_actions_def)
  moreover have "linked d'"
    by (rule linked_cong [OF ok(2)]) (use assms(3) executed_kept [OF assms(2) ok(1)] in simp_all)
  moreover have "booked_once d'" using ok(3) booked_once_cong [of d' d] assms(3) by simp
  ultimately show ?thesis using ok(4) assms(3) by (simp add: books_ok_def)
qed

lemma linked_insert:
  assumes "linked d" and "expenses d' = expenses d @ [x]" and "\<And>i. executed d i \<Longrightarrow> executed d' i"
    and "\<And>i. ex_action_id x = Some i \<Longrightarrow> executed d' i"
  shows "linked d'"
  using assms by (auto simp: linked_def)

lemma delete_step_links:
  assumes "x' \<in> set (expenses (delete_step s d))" and "ex_action_id x' = Some i"
  shows "\<exists>x \<in> set (expenses d). ex_action_id x = Some i"
    and "executed d i \<Longrightarrow> executed (delete_step s d) i"
proof -
  from assms show *: "\<exists>x \<in> set (expenses d). ex_action_id x = Some i"
    by (auto simp: delete_step_def Let_def split: if_splits)
  from assms have "i \<notin> set (map ac_id (step_actions d (st_id s)))"
    by (auto simp: delete_step_def Let_def split: if_splits)
  then show "executed (delete_step s d) i" if "executed d i"
    using that by (auto simp: executed_def delete_step_def Let_def step_actions_def)
qed

lemma delete_step_books:
  assumes "books_ok d"
  shows "books_ok (delete_step s d)"
proof -
  let ?d = "delete_step s d"
  define f where "f = (\<lambda>x :: expense. if ex_action_id x \<in> Some ` set (map ac_id (step_actions d (st_id s)))
    then x\<lparr>ex_action_id := None\<rparr> else x)"
  have ex: "expenses ?d = map f (expenses d)" by (simp add: delete_step_def Let_def f_def)
  have "length (filter (\<lambda>x. ex_action_id x = Some a) (map f xs))
      \<le> length (filter (\<lambda>x. ex_action_id x = Some a) xs)" for a xs
    by (induction xs) (auto simp: f_def)
  then have "booked_once ?d"
    using assms unfolding books_ok_def booked_once_def ex by (meson order_trans)
  moreover have "map ex_id (expenses ?d) = map ex_id (expenses d)" by (simp add: ex f_def)
  moreover have "pk_actions ?d"
    using assms shrunk_tables(4) [OF delete_step_shrunk] by (simp add: books_ok_def)
  moreover have "linked ?d"
    unfolding linked_def using assms delete_step_links by (fastforce simp: books_ok_def linked_def)
  ultimately show ?thesis using assms by (simp add: books_ok_def)
qed

lemma fold_delete_step_books: "books_ok d \<Longrightarrow> books_ok (fold delete_step ss d)"
  by (induction ss arbitrary: d) (simp_all add: delete_step_books)

lemma books_tables:
  assumes "books_ok d" and "expenses d' = expenses d" and "set (actions d) \<subseteq> set (actions d')" and "pk_actions d'"
  shows "books_ok d'"
proof -
  have "linked d'" using assms(1-3) by (fastforce simp: books_ok_def linked_def executed_def)
  with assms booked_once_cong [of d' d] show ?thesis by (simp add: books_ok_def)
qed

lemma replace_plan_steps_books:
  assumes "replace_plan_steps g now mid eid codes v d = Inr d'" and "books_ok d"
  shows "books_ok d'"
proof -
  from assms(1) obtain e c d0 where c: "plan_conversation g now mid eid d = Inr (c, d0)"
    and r: "rebuild_plan g now e codes c d0 = Inr d'"
    by (rule replace_plan_steps_Inr)
  from c have "expenses d0 = expenses d" "actions d0 = actions d" by (auto elim!: plan_conversation_frame)
  then have b0: "books_ok d0" using books_tables [OF assms(2)] assms(2) by (simp add: books_ok_def pk_actions_def)
  from r obtain removed ordered d2 d3 where
    p: "place_steps g now (ev_id e) (steps_by_code d0 (ev_id e)) 1 ordered (fold delete_step removed d0) = Inr d2"
    and d3: "d3 = put_conversation (c\<lparr>cv_base_revision := cv_base_revision c + 1\<rparr>) (put_event (touch now e) d2)"
    and d': "d' = d3 \<or> d' = bump_plan_revision now (ev_id e) d3"
    by (rule rebuild_plan_Inr)
  have b1: "books_ok (fold delete_step removed d0)" using b0 by (rule fold_delete_step_books)
  from place_steps_grown [OF p] obtain ss new n where
    d2: "d2 = (fold delete_step removed d0)\<lparr>steps := ss, actions := actions (fold delete_step removed d0) @ new, draws := n\<rparr>"
    and pk: "pk_actions (fold delete_step removed d0) \<longrightarrow> pk_actions d2"
    unfolding grown_def by blast
  have b2: "books_ok d2"
    by (rule books_tables [OF b1]) (use pk b1 in \<open>simp_all add: d2 books_ok_def\<close>)
  have "actions d' = actions d2" "expenses d' = expenses d2"
    using d3 d' by (auto simp: put_conversation_def put_event_def)
  then show ?thesis using books_tables [OF b2] b2 by (simp add: books_ok_def pk_actions_def)
qed

lemma books_insert:
  assumes "books_ok d" and "kept_rows d d'" and "expenses d' = expenses d @ [x]"
    and "ex_action_id x = None \<or> ex_action_id x \<notin> ex_action_id ` set (expenses d)"
    and "ex_id x \<notin> ex_id ` set (expenses d)" and "\<And>i. ex_action_id x = Some i \<Longrightarrow> executed d' i"
  shows "books_ok d'"
proof -
  have ok: "pk_actions d" "linked d" "booked_once d" "distinct (map ex_id (expenses d))"
    using assms(1) by (simp_all add: books_ok_def)
  have "insert_expense x d = Inr (d\<lparr>expenses := expenses d @ [x]\<rparr>)"
    using assms(4,5) by (simp add: insert_expense_Inr)
  then have "booked_once (d\<lparr>expenses := expenses d @ [x]\<rparr>)"
    by (rule insert_expense_booked_once [OF ok(3)])
  then have "booked_once d'"
    using booked_once_cong [of d' "d\<lparr>expenses := expenses d @ [x]\<rparr>"] assms(3) by simp
  moreover have "linked d'"
    using linked_insert [OF ok(2) assms(3)] executed_kept [OF assms(2) ok(1)] assms(6) by blast
  moreover have "pk_actions d'" using ok(1) assms(2) by (simp add: kept_rows_def pk_actions_def)
  ultimately show ?thesis using ok(4) assms(3,5) by (auto simp: books_ok_def)
qed

lemma mark_done_books:
  assumes "mark_done g now m aid v d = Inr d'" and "books_ok d"
  shows "books_ok d'"
proof -
  have kept: "kept_rows d d'" using exec_request_kept [of "Mark_Done g now m"] assms(1) by simp
  have pk: "pk_actions d" using assms(2) by (simp add: books_ok_def)
  from assms(1) show ?thesis
  proof (rule mark_done_Inr)
    fix a d2
    assume a: "find_action d aid = Some a"
      and ex: "if records_expense (ac_type a) (ac_amount a)
         then \<exists>e. find_event d (ac_event_id a) = Some e \<and>
                  add_action_expense g (done_row now m a) (ev_club_id e) now (mb_id m)
                    (put_action (done_row now m a) d) = Inr d2
         else d2 = put_action (done_row now m a) d"
      and d': "d' = request_current_step_drafts g now (ac_event_id a) (finish_step_if_done now (ac_step_id a) d2)"
    show ?thesis
    proof (cases "records_expense (ac_type a) (ac_amount a)")
      case False
      with ex have "d2 = put_action (done_row now m a) d" by simp
      then have "expenses d' = expenses d" by (simp add: d' put_action_def)
      with assms(2) kept show ?thesis by (rule books_same)
    next
      case True
      let ?d1 = "put_action (done_row now m a) d"
      have same: "expenses ?d1 = expenses d" by (simp add: put_action_def)
      from True ex obtain club where "add_action_expense g (done_row now m a) club now (mb_id m) ?d1 = Inr d2"
        by auto
      then obtain x where d2: "d2 = (drawn ?d1)\<lparr>expenses := expenses ?d1 @ [x]\<rparr>"
        and x: "ex_action_id x = Some (ac_id (done_row now m a))"
          "Some (ac_id (done_row now m a)) \<notin> ex_action_id ` set (expenses ?d1)"
          "ex_id x \<notin> ex_id ` set (expenses ?d1)"
        by (rule add_action_expense_Inr)
      let ?d3 = "finish_step_if_done now (ac_step_id a) d2"
      have "find_action ?d1 (ac_id a) = Some (done_row now m a)"
        using action_table.get_put_same [of d "ac_id a" a "done_row now m a"] a find_action_id by simp
      then have "executed ?d3 (ac_id a)"
        using find_action_mem [of ?d1] by (auto simp: executed_def d2 intro!: bexI [of _ "done_row now m a"])
      moreover have "pk_actions ?d3" using pk by (simp add: d2 pk_actions_def put_action_def)
      moreover have "kept_rows ?d3 d'" unfolding d' by (rule kept_rows_drafts) simp
      ultimately have "executed d' (ac_id a)" using executed_kept by blast
      with x same assms(2) kept show ?thesis
        by (intro books_insert [of d d' x]) (simp_all add: d' d2)
    qed
  qed
qed

lemma expense_ops_books:
  "create_expense g club eo spent mc amount cur cat descr by' d = Inr (x, d') \<Longrightarrow> books_ok d \<Longrightarrow> books_ok d'"
  "delete_expense club xid d = Inr d' \<Longrightarrow> books_ok d \<Longrightarrow> books_ok d'"
proof -
  assume c: "create_expense g club eo spent mc amount cur cat descr by' d = Inr (x, d')" and ok: "books_ok d"
  then have "kept_rows d d'" by (auto dest: expense_ops_frame(1) intro: kept_rows_same)
  moreover from c have "expenses d' = expenses d @ [x]" "ex_action_id x = None" "ex_id x \<notin> ex_id ` set (expenses d)"
    by (auto simp: create_expense_def Let_def and_then_eq_Inr insert_expense_Inr)
  ultimately show "books_ok d'" using ok by (intro books_insert [of d d' x]) simp_all
next
  assume del: "delete_expense club xid d = Inr d'" and ok: "books_ok d"
  then obtain p where p: "expenses d' = filter p (expenses d)" and ac: "actions d' = actions d"
    by (auto simp: delete_expense_def and_then_eq_Inr)
  have "linked d'" using ok p ac by (auto simp: books_ok_def linked_def executed_def)
  moreover have "booked_once d'" using booked_once_filter [OF _ p] ok by (simp add: books_ok_def)
  ultimately show "books_ok d'"
    using ok p ac by (simp add: books_ok_def pk_actions_def distinct_map_filter)
qed

lemma update_expense_books:
  assumes "update_expense c club xid v d = Inr (x, d')" and "books_ok d"
  shows "books_ok d'"
proof (cases "c = no_changes")
  case True
  then have "d' = d"
    using assms(1) by (auto simp: update_expense_def and_then_eq_Inr split: if_splits)
  with assms(2) show ?thesis by simp
next
  case False
  from assms(1) False obtain y where y: "find_expense d xid = Some y"
    "x = (apply_changes c y)\<lparr>ex_version := v + 1\<rparr>" "d' = put_expense x d"
    by (rule update_expense_Inr)
  have ok: "distinct (map ex_id (expenses d))" "linked d" "booked_once d" "pk_actions d"
    using assms(2) by (simp_all add: books_ok_def)
  have links: "map ex_action_id (expenses d') = map ex_action_id (expenses d)"
    unfolding y(3) by (rule put_expense_links [OF ok(1) y(1)]) (simp_all add: y(2))
  have ac: "actions d' = actions d" by (simp add: y(3) put_expense_def)
  have "linked d'" by (rule linked_cong [OF ok(2) links]) (simp add: executed_def ac)
  moreover have "booked_once d'" using booked_once_cong [OF links] ok(3) by simp
  moreover have "distinct (map ex_id (expenses d'))" using ok(1) by (simp add: y(3) put_expense_def)
  ultimately show ?thesis using ok(4) ac by (simp add: books_ok_def pk_actions_def)
qed

text \<open>The other steps leave the ledger alone.\<close>

lemma progress_books:
  assumes "progress d d'" and "books_ok d"
  shows "books_ok d'"
proof -
  have keep: "expenses d' = expenses d \<Longrightarrow> ?thesis"
    using progress_kept [OF assms(1)] books_same [OF assms(2)] replace_plan_steps_books assms(2) by blast
  from assms(1) show ?thesis
  proof cases
    case Approved
    then show ?thesis using keep by (auto dest!: endpoint_core(1) simp: approve_Inr put_action_def)
  next
    case Denied
    then show ?thesis using keep by (auto dest!: endpoint_core(2) simp: deny_Inr put_action_def)
  next
    case Resolved
    then show ?thesis using keep by (auto dest!: endpoint_core(3) elim!: resolve_Inr simp: put_action_def)
  next
    case Executed
    then show ?thesis using mark_done_books assms(2) by (blast dest: endpoint_core(4))
  next
    case Redrafted
    then show ?thesis using keep by (auto dest!: endpoint_core(5) elim!: request_redraft_Inr simp: put_action_def)
  next
    case Step_Completed
    then show ?thesis using keep by (auto dest!: endpoint_core(6) elim!: complete_step_Inr simp: put_step_def)
  next
    case Started
    then show ?thesis using keep by (auto dest!: endpoint_core(7) elim!: start_event_Inr simp: put_event_def)
  next
    case Completed
    then show ?thesis using keep by (auto dest!: endpoint_core(8) elim!: complete_event_Inr simp: put_event_def)
  next
    case Cancel_Begun
    then show ?thesis using keep by (auto dest!: endpoint_core(9) elim!: begin_event_cancellation_tables)
  next
    case Cancel_Task_Done
    then show ?thesis using keep by (auto dest!: endpoint_core(10) complete_cancel_task_actions)
  next
    case Step_Edited
    then show ?thesis
      using keep by (auto dest!: endpoint_core(11) advance_plan_revision_tables(5) elim!: update_step_Inr
          simp: put_step_def put_event_def split: if_splits)
  next
    case Action_Edited
    then show ?thesis
      using keep by (auto dest!: endpoint_core(12) advance_plan_revision_tables(5) elim!: update_action_Inr
          simp: put_action_def put_event_def split: if_splits)
  next
    case Plan_Replaced
    then show ?thesis using replace_plan_steps_books assms(2) by (blast dest: endpoint_core(13))
  next
    case Draft_Ended
    then show ?thesis using keep by auto
  next
    case Tasks_Lost
    then show ?thesis using keep by auto
  next
    case Review_Asked
    then show ?thesis using keep by (auto dest!: request_review_frame)
  next
    case Review_Ended
    then show ?thesis using keep by (auto dest!: finish_request_review_frame)
  next
    case Expense_Created
    then show ?thesis using expense_ops_books(1) assms(2) by blast
  next
    case Expense_Edited
    then show ?thesis using update_expense_books assms(2) by blast
  next
    case Expense_Deleted
    then show ?thesis using expense_ops_books(2) assms(2) by blast
  qed
qed

lemma books_reachable: "progress\<^sup>*\<^sup>* d d' \<Longrightarrow> books_ok d \<Longrightarrow> books_ok d'"
  by (induction rule: rtranclp_induct) (auto intro: progress_books)

end
