(* ===== verification/Plan_Edit.thy ===== *)
theory Plan_Edit
  imports Event_Lifecycle
begin

text \<open>
  What \<open>replace_plan_steps\<close> leaves behind: the steps asked for, one each, in the order of the phases
  and, inside a phase, in the order of the request, numbered from 1; a step that stays keeps its row.
\<close>

section \<open>Positions\<close>

definition pos :: "'a list \<Rightarrow> 'a \<Rightarrow> nat" where
  "pos xs x = (case index_of x xs of None \<Rightarrow> length xs | Some i \<Rightarrow> i)"

lemma pos_Cons [simp]: "pos (y # ys) x = (if x = y then 0 else Suc (pos ys x))"
  by (simp add: pos_def split: option.split)

lemma index_of_None [simp]: "index_of x xs = None \<longleftrightarrow> x \<notin> set xs"
  by (induction xs) auto

lemma nth_pos: "x \<in> set xs \<Longrightarrow> pos xs x < length xs \<and> xs ! pos xs x = x"
  by (induction xs) auto

lemma pos_nth: "distinct xs \<Longrightarrow> i < length xs \<Longrightarrow> pos xs (xs ! i) = i"
  using nth_pos [of "xs ! i" xs] nth_eq_iff_index_eq [of xs "pos xs (xs ! i)" i] by simp

lemma map_pos: "distinct xs \<Longrightarrow> map (pos xs) xs = [0..<length xs]"
  by (rule nth_equalityI) (simp_all add: pos_nth)

lemma inj_on_pos: "inj_on (pos xs) (set xs)"
  by (rule inj_onI) (metis nth_pos)

text \<open>Rows numbered by position, sorted by number, are in the order of the positions.\<close>

lemma sort_by_pos:
  assumes "distinct cs" and "distinct (map code rows)" and "set (map code rows) = set cs"
    and "\<And>r. r \<in> set rows \<Longrightarrow> num r = k + int (pos cs (code r))"
  shows "map code (sort_key num rows) = cs"
proof -
  let ?L = "map code (sort_key num rows)"
  have set: "set ?L = set cs" using assms(3) by simp
  have dist: "distinct ?L"
    using assms(2) by (metis distinct_map distinct_sort set_sort)
  have "sorted (map num (sort_key num rows))" by simp
  then have "sorted (map (\<lambda>r. k + int (pos cs (code r))) (sort_key num rows))"
    using assms(4) by (metis (mono_tags, lifting) map_cong set_sort)
  then have "sorted (map (pos cs) ?L)" by (simp add: sorted_map comp_def)
  moreover have "distinct (map (pos cs) ?L)"
    using dist set inj_on_pos [of cs] by (metis distinct_map)
  moreover have "set (map (pos cs) ?L) = set (map (pos cs) cs)"
    using set by (metis image_set)
  moreover have "sorted (map (pos cs) cs)" "distinct (map (pos cs) cs)" by (simp_all add: map_pos [OF assms(1)])
  ultimately have "map (pos cs) ?L = map (pos cs) cs" by (intro sorted_distinct_set_unique)
  moreover have "inj_on (pos cs) (set ?L \<union> set cs)" using inj_on_pos [of cs] set by (metis sup.idem)
  ultimately show ?thesis by (rule map_inj_on)
qed

section \<open>The dictionary of the existing steps\<close>

definition pk_steps :: "db \<Rightarrow> bool" where
  "pk_steps d \<longleftrightarrow> distinct (map st_id (steps d))"

definition unique_codes :: "ident \<Rightarrow> db \<Rightarrow> bool" where
  "unique_codes eid d \<longleftrightarrow> distinct (map st_code (filter (\<lambda>s. st_event_id s = eid) (steps d)))"

lemma steps_by_code_rows:
  assumes "unique_codes eid d"
  shows "steps_by_code d eid = map (\<lambda>s. (st_code s, s)) (filter (\<lambda>s. st_event_id s = eid) (steps d))"
  unfolding steps_by_code_def
  using assms by (subst dict_merge_distinct) (simp_all add: unique_codes_def comp_def)

lemma steps_by_code_iff:
  assumes "unique_codes eid d"
  shows "map_of (steps_by_code d eid) c = Some s \<longleftrightarrow> s \<in> set (steps d) \<and> st_event_id s = eid \<and> st_code s = c"
  using assms
  by (subst map_of_eq_Some_iff) (auto simp: steps_by_code_rows unique_codes_def comp_def)

section \<open>Deleting and placing\<close>

lemma fold_delete_step_steps:
  "steps (fold delete_step ss d) = filter (\<lambda>x. st_id x \<notin> st_id ` set ss) (steps d)"
  by (induction ss arbitrary: d) (auto simp: delete_step_def Let_def intro: filter_cong)

text \<open>The renumbering of the rows that stay.\<close>

definition renum :: "ident \<Rightarrow> int \<Rightarrow> step_code list \<Rightarrow> step \<Rightarrow> step" where
  "renum eid k cs s =
     (if st_event_id s = eid \<and> st_code s \<in> set cs then s\<lparr>st_step_order := k + int (pos cs (st_code s))\<rparr> else s)"

lemma renum_keeps [simp]:
  "st_id (renum eid k cs s) = st_id s" "st_event_id (renum eid k cs s) = st_event_id s"
  "st_code (renum eid k cs s) = st_code s" "st_starts_at (renum eid k cs s) = st_starts_at s"
  "st_deadline (renum eid k cs s) = st_deadline s" "st_completed_at (renum eid k cs s) = st_completed_at s"
  "st_version (renum eid k cs s) = st_version s" "st_name (renum eid k cs s) = st_name s"
  by (simp_all add: renum_def)

text \<open>What \<open>place_steps\<close> promises of the rows.\<close>

definition placed :: "ident \<Rightarrow> (step_code \<times> step) list \<Rightarrow> int \<Rightarrow> step_code list \<Rightarrow> db \<Rightarrow> db \<Rightarrow> bool" where
  "placed eid existing k cs d d' \<longleftrightarrow> (\<exists>new. steps d' = map (renum eid k cs) (steps d) @ new \<and> pk_steps d' \<and>
     map st_code new = filter (\<lambda>c. map_of existing c = None) cs \<and>
     (\<forall>s \<in> set new. st_event_id s = eid \<and> st_step_order s = k + int (pos cs (st_code s))))"

definition known :: "ident \<Rightarrow> (step_code \<times> step) list \<Rightarrow> step_code list \<Rightarrow> db \<Rightarrow> bool" where
  "known eid existing cs d \<longleftrightarrow> (\<forall>c \<in> set cs. \<forall>s. map_of existing c = Some s \<longleftrightarrow>
     s \<in> set (steps d) \<and> st_event_id s = eid \<and> st_code s = c)"

lemma place_step_kept:
  assumes "map_of existing c = Some s" and "place_step g now eid existing k c d = Inr d'"
    and "known eid existing (c # cs) d" and "pk_steps d" and "c \<notin> set cs"
  shows "steps d' = map (renum eid k [c]) (steps d)" and "known eid existing cs d'" and "pk_steps d'"
proof -
  have s: "s \<in> set (steps d)" "st_event_id s = eid" "st_code s = c"
    using assms(1,3) by (auto simp: known_def)
  have same: "st_id x = st_id s \<longleftrightarrow> st_event_id x = eid \<and> st_code x = c" "x = s \<longleftrightarrow> st_id x = st_id s"
    if "x \<in> set (steps d)" for x
  proof -
    show "x = s \<longleftrightarrow> st_id x = st_id s"
      using assms(4) that s(1) by (auto simp: pk_steps_def distinct_map dest: inj_onD)
    then show "st_id x = st_id s \<longleftrightarrow> st_event_id x = eid \<and> st_code x = c"
      using assms(1,3) that s by (force simp: known_def)
  qed
  have "d' = put_step (s\<lparr>st_step_order := k\<rparr>) d" using assms(1,2) by (simp add: place_step_def)
  then have "steps d' = map (\<lambda>x. if st_id x = st_id s then s\<lparr>st_step_order := k\<rparr> else x) (steps d)"
    by (simp add: put_step_def put_row_def)
  then show steps: "steps d' = map (renum eid k [c]) (steps d)"
    using same by (auto simp: renum_def intro!: map_cong)
  show "pk_steps d'" using assms(4) by (simp add: pk_steps_def steps comp_def)
  have "x \<in> set (steps d') \<longleftrightarrow> x \<in> set (steps d)" if "st_code x \<noteq> c" for x
    using that unfolding steps by (auto simp: renum_def image_iff split: if_splits)
  then have "s' \<in> set (steps d') \<and> st_event_id s' = eid \<and> st_code s' = c' \<longleftrightarrow>
      s' \<in> set (steps d) \<and> st_event_id s' = eid \<and> st_code s' = c'" if "c' \<in> set cs" for s' c'
    using that assms(5) by (cases "st_code s' = c") auto
  then show "known eid existing cs d'" using assms(3) by (simp add: known_def)
qed

lemma place_step_new:
  assumes "map_of existing c = None" and "place_step g now eid existing k c d = Inr d'"
    and "known eid existing (c # cs) d" and "pk_steps d" and "c \<notin> set cs"
  obtains s where "steps d' = steps d @ [s]" and "st_event_id s = eid" and "st_code s = c"
    and "st_step_order s = k" and "known eid existing cs d'" and "pk_steps d'"
proof -
  from assms(1,2) obtain kk where kk: "BY_CODE c = Some kk"
    by (auto simp: place_step_def split: option.splits)
  let ?s = "new_step g eid k kk d"
  have s: "st_event_id ?s = eid" "st_code ?s = c" "st_step_order ?s = k"
    using BY_CODE_code [OF kk] by (simp_all add: new_step_def)
  from assms(1,2) kk have fresh: "st_id ?s \<notin> st_id ` set (steps d)"
    and ins: "insert_actions g now eid (st_id ?s) (cat_name kk) (cat_actions kk) (drawn (d\<lparr>steps := steps d @ [?s]\<rparr>)) = Inr d'"
    by (auto simp: place_step_def Let_def and_then_eq_Inr insert_row_Inr)
  have steps: "steps d' = steps d @ [?s]" using insert_actions_steps [OF ins] by simp
  have "pk_steps d'" using assms(4) fresh by (auto simp: pk_steps_def steps)
  moreover have "known eid existing cs d'"
    using assms(3,5) s(2) by (auto simp: known_def steps)
  ultimately show thesis using that steps s by blast
qed

lemma place_steps_placed:
  assumes "place_steps g now eid existing k cs d = Inr d'" and "known eid existing cs d" and "pk_steps d"
    and "distinct cs"
  shows "placed eid existing k cs d d'"
  using assms
proof (induction cs arbitrary: k d)
  case Nil
  then show ?case by (auto simp: placed_def renum_def map_idI)
next
  case (Cons c cs)
  then obtain d1 where d1: "place_step g now eid existing k c d = Inr d1"
    and rest: "place_steps g now eid existing (k + 1) cs d1 = Inr d'"
    by (auto simp: and_then_eq_Inr)
  have c: "c \<notin> set cs" "distinct cs" using Cons.prems(4) by simp_all
  show ?case
  proof (cases "map_of existing c")
    case (Some s)
    note kept = place_step_kept [OF Some d1 Cons.prems(2,3) c(1)]
    from Cons.IH [OF rest kept(2,3) c(2)] obtain new where
      new: "steps d' = map (renum eid (k + 1) cs) (steps d1) @ new" "pk_steps d'"
        "map st_code new = filter (\<lambda>c. map_of existing c = None) cs"
        "\<forall>s \<in> set new. st_event_id s = eid \<and> st_step_order s = k + 1 + int (pos cs (st_code s))"
      by (auto simp: placed_def)
    have "renum eid (k + 1) cs (renum eid k [c] x) = renum eid k (c # cs) x" for x
      using c(1) by (auto simp: renum_def)
    then have "steps d' = map (renum eid k (c # cs)) (steps d) @ new" by (simp add: new(1) kept(1))
    moreover have "st_code s \<noteq> c" if "s \<in> set new" for s
      using that new(3) c(1) by (metis filter_is_subset image_eqI image_set subsetD)
    ultimately show ?thesis using new Some by (auto simp: placed_def)
  next
    case None
    from place_step_new [OF None d1 Cons.prems(2,3) c(1)] obtain s where
      s: "steps d1 = steps d @ [s]" "st_event_id s = eid" "st_code s = c" "st_step_order s = k"
        "known eid existing cs d1" "pk_steps d1" by blast
    from Cons.IH [OF rest s(5,6) c(2)] obtain new where
      new: "steps d' = map (renum eid (k + 1) cs) (steps d1) @ new" "pk_steps d'"
        "map st_code new = filter (\<lambda>c. map_of existing c = None) cs"
        "\<forall>s \<in> set new. st_event_id s = eid \<and> st_step_order s = k + 1 + int (pos cs (st_code s))"
      by (auto simp: placed_def)
    have "renum eid (k + 1) cs x = renum eid k (c # cs) x" if "x \<in> set (steps d)" for x
      using that None Cons.prems(2) c(1) by (auto simp: renum_def known_def)
    moreover have "renum eid (k + 1) cs s = s" using s c(1) by (simp add: renum_def)
    ultimately have "steps d' = map (renum eid k (c # cs)) (steps d) @ (s # new)"
      by (simp add: new(1) s(1))
    moreover have "st_code x \<noteq> c" if "x \<in> set new" for x
      using that new(3) c(1) by (metis filter_is_subset image_eqI image_set subsetD)
    ultimately show ?thesis using new None s
      unfolding placed_def by (intro exI [of _ "s # new"]) auto
  qed
qed

section \<open>The plan afterwards\<close>

lemma order_codes_Inr:
  "order_codes codes = Inr ordered \<longleftrightarrow>
     (\<forall>c \<in> set codes. code_rank c \<noteq> None) \<and> ordered = sort_key (\<lambda>c. the (code_rank c)) codes"
  by (auto simp: order_codes_def list_all_iff)

lemma replace_plan_steps_rows:
  assumes "replace_plan_steps g now mid eid codes v d = Inr d'" and "pk_steps d" and "unique_codes eid d"
  obtains ordered new where "order_codes codes = Inr ordered" and "distinct codes"
    and "steps d' = map (renum eid 1 ordered)
           (filter (\<lambda>s. st_event_id s \<noteq> eid \<or> st_code s \<in> set codes) (steps d)) @ new"
    and "pk_steps d'" and "map st_code new = filter (\<lambda>c. \<forall>s \<in> set (steps d). st_event_id s = eid \<longrightarrow> st_code s \<noteq> c) ordered"
    and "\<forall>s \<in> set new. st_event_id s = eid \<and> st_step_order s = 1 + int (pos ordered (st_code s))"
proof -
  from assms(1) obtain e c d0 where e: "ev_id e = eid" "distinct codes"
    and c: "plan_conversation g now mid eid d = Inr (c, d0)"
    and r: "rebuild_plan g now e codes c d0 = Inr d'"
    by (rule replace_plan_steps_Inr)
  from c have st0: "steps d0 = steps d" by (auto elim!: plan_conversation_frame)
  have ok: "pk_steps d0" "unique_codes eid d0" using assms(2,3) st0 by (simp_all add: pk_steps_def unique_codes_def)
  from r obtain removed ordered d2 d3 where
    rm: "removed = filter (\<lambda>s. st_code s \<notin> set codes) (map snd (steps_by_code d0 (ev_id e)))"
    and o: "order_codes codes = Inr ordered"
    and p: "place_steps g now (ev_id e) (steps_by_code d0 (ev_id e)) 1 ordered (fold delete_step removed d0) = Inr d2"
    and d3: "d3 = put_conversation (c\<lparr>cv_base_revision := cv_base_revision c + 1\<rparr>) (put_event (touch now e) d2)"
    and d': "d' = d3 \<or> d' = bump_plan_revision now (ev_id e) d3"
    by (rule rebuild_plan_Inr)
  let ?d1 = "fold delete_step removed d0" and ?ex = "steps_by_code d0 eid"
  have set_o: "set ordered = set codes" "distinct ordered" using o e(2) by (simp_all add: order_codes_Inr)
  have rows: "set removed = {s \<in> set (steps d). st_event_id s = eid \<and> st_code s \<notin> set codes}"
    using steps_by_code_rows [OF ok(2)] by (auto simp: rm e(1) st0)
  have "st_id x \<notin> st_id ` set removed \<longleftrightarrow> st_event_id x \<noteq> eid \<or> st_code x \<in> set codes"
    if "x \<in> set (steps d)" for x
    using that assms(2) rows by (auto simp: pk_steps_def distinct_map inj_on_def)
  then have st1: "steps ?d1 = filter (\<lambda>s. st_event_id s \<noteq> eid \<or> st_code s \<in> set codes) (steps d)"
    unfolding fold_delete_step_steps st0 by (intro filter_cong) auto
  have "known eid ?ex ordered ?d1"
    using set_o(1) by (auto simp: known_def steps_by_code_iff [OF ok(2)] st0 st1)
  moreover have "pk_steps ?d1" using assms(2) by (simp add: pk_steps_def st1 distinct_map_filter)
  ultimately have "placed eid ?ex 1 ordered ?d1 d2"
    using place_steps_placed [OF p [unfolded e(1)]] set_o(2) by blast
  then obtain new where new: "steps d2 = map (renum eid 1 ordered) (steps ?d1) @ new" "pk_steps d2"
      "map st_code new = filter (\<lambda>c. map_of ?ex c = None) ordered"
      "\<forall>s \<in> set new. st_event_id s = eid \<and> st_step_order s = 1 + int (pos ordered (st_code s))"
    unfolding placed_def by blast
  have none: "map_of ?ex c' = None \<longleftrightarrow> (\<forall>s \<in> set (steps d). st_event_id s = eid \<longrightarrow> st_code s \<noteq> c')" for c'
    using steps_by_code_iff [OF ok(2), of c'] unfolding st0 by (metis not_None_eq)
  have "steps d' = steps d2" using d3 d' by (auto simp: put_conversation_def put_event_def)
  then have "steps d' = map (renum eid 1 ordered) (steps ?d1) @ new" "pk_steps d'"
    using new(1,2) by (simp_all add: pk_steps_def)
  from that [OF o e(2) this(1) [unfolded st1] this(2) new(3) [unfolded none] new(4)] show thesis .
qed

text \<open>The steps of the event, in order, are the codes asked for, sorted by phase.\<close>

lemma replaced_plan_codes:
  assumes "replace_plan_steps g now mid eid codes v d = Inr d'" and "pk_steps d" and "unique_codes eid d"
  shows "map st_code (ordered_steps d' eid) = sort_key (\<lambda>c. the (code_rank c)) codes"
    and "unique_codes eid d'" and "pk_steps d'"
    and "\<forall>s \<in> set (ordered_steps d' eid). st_step_order s = 1 + int (pos (sort_key (\<lambda>c. the (code_rank c)) codes) (st_code s))"
proof -
  from assms obtain ordered new where o: "order_codes codes = Inr ordered" and dc: "distinct codes"
    and st: "steps d' = map (renum eid 1 ordered)
           (filter (\<lambda>s. st_event_id s \<noteq> eid \<or> st_code s \<in> set codes) (steps d)) @ new"
    and pk: "pk_steps d'" and nc: "map st_code new = filter (\<lambda>c. \<forall>s \<in> set (steps d). st_event_id s = eid \<longrightarrow> st_code s \<noteq> c) ordered"
    and num: "\<forall>s \<in> set new. st_event_id s = eid \<and> st_step_order s = 1 + int (pos ordered (st_code s))"
    by (rule replace_plan_steps_rows)
  have ord: "ordered = sort_key (\<lambda>c. the (code_rank c)) codes" "set ordered = set codes" "distinct ordered"
    using o dc by (simp_all add: order_codes_Inr)
  let ?old = "filter (\<lambda>s. st_event_id s = eid \<and> st_code s \<in> set codes) (steps d)"
  let ?rows = "filter (\<lambda>s. st_event_id s = eid) (steps d')"
  have rows: "?rows = map (renum eid 1 ordered) ?old @ new"
    unfolding st using num
    by (simp add: filter_map comp_def) (auto intro!: arg_cong [where f = "map _"] filter_cong)
  have codes: "map st_code ?rows = map st_code ?old @ map st_code new" by (simp add: rows comp_def)
  have dold: "distinct (map st_code ?old)"
  proof -
    have "?old = filter (\<lambda>s. st_code s \<in> set codes) (filter (\<lambda>s. st_event_id s = eid) (steps d))"
      by (auto intro: filter_cong)
    then show ?thesis using assms(3) by (simp only: unique_codes_def distinct_map_filter)
  qed
  have newset: "set (map st_code new) = {c \<in> set codes. \<forall>s \<in> set (steps d). st_event_id s = eid \<longrightarrow> st_code s \<noteq> c}"
    unfolding nc using ord(2) by auto
  have dist: "distinct (map st_code ?rows)"
  proof -
    have "set (map st_code ?old) \<inter> set (map st_code new) = {}" unfolding newset by auto
    moreover have "distinct (map st_code new)" unfolding nc using ord(3) by (rule distinct_filter)
    ultimately show ?thesis unfolding codes distinct_append using dold by blast
  qed
  have all: "set (map st_code ?rows) = set ordered"
    unfolding codes set_append newset ord(2) by auto
  have nums: "st_step_order s = 1 + int (pos ordered (st_code s))" if "s \<in> set ?rows" for s
    using that num ord(2) unfolding rows by (auto simp: renum_def)
  show "map st_code (ordered_steps d' eid) = sort_key (\<lambda>c. the (code_rank c)) codes"
    unfolding ordered_steps_def ord(1) [symmetric]
    by (rule sort_by_pos [OF ord(3) dist all nums])
  show "unique_codes eid d'" using dist by (simp add: unique_codes_def)
  show "pk_steps d'" by (rule pk)
  show "\<forall>s \<in> set (ordered_steps d' eid). st_step_order s = 1 + int (pos (sort_key (\<lambda>c. the (code_rank c)) codes) (st_code s))"
    using nums by (simp add: ordered_steps_def ord(1))
qed

lemma replaced_plan_numbers:
  assumes "replace_plan_steps g now mid eid codes v d = Inr d'" and "pk_steps d" and "unique_codes eid d"
  shows "map st_step_order (ordered_steps d' eid) = map int [1..<Suc (length codes)]"
proof -
  let ?o = "sort_key (\<lambda>c. the (code_rank c)) codes"
  from assms have dist: "distinct codes" by (rule replace_plan_steps_rows)
  note codes = replaced_plan_codes [OF assms]
  have "map st_step_order (ordered_steps d' eid) = map (\<lambda>c. 1 + int (pos ?o c)) (map st_code (ordered_steps d' eid))"
    using codes(4) by simp
  also have "\<dots> = map (\<lambda>i. 1 + int i) (map (pos ?o) ?o)" unfolding codes(1) by simp
  also have "\<dots> = map (\<lambda>i. 1 + int i) [0..<length codes]" using dist by (simp add: map_pos)
  also have "\<dots> = map int [1..<Suc (length codes)]" by (rule nth_equalityI) (simp_all del: upt_Suc)
  finally show ?thesis .
qed

lemma replaced_plan_keeps:
  assumes "replace_plan_steps g now mid eid codes v d = Inr d'" and "pk_steps d" and "unique_codes eid d"
  shows "\<forall>s. s \<in> set (steps d) \<and> (st_event_id s = eid \<longrightarrow> st_code s \<in> set codes) \<longrightarrow>
    (if st_event_id s = eid then \<exists>n. s\<lparr>st_step_order := n\<rparr> \<in> set (steps d') else s \<in> set (steps d'))"
proof (intro allI impI)
  from assms obtain ordered new where st: "steps d' = map (renum eid 1 ordered)
      (filter (\<lambda>s. st_event_id s \<noteq> eid \<or> st_code s \<in> set codes) (steps d)) @ new"
    by (rule replace_plan_steps_rows)
  fix s
  assume s: "s \<in> set (steps d) \<and> (st_event_id s = eid \<longrightarrow> st_code s \<in> set codes)"
  then have "renum eid 1 ordered s \<in> set (steps d')" unfolding st by auto
  moreover have "\<exists>n. renum eid 1 ordered s = s\<lparr>st_step_order := n\<rparr>"
    by (cases "st_event_id s = eid \<and> st_code s \<in> set ordered") (auto simp: renum_def intro: exI [of _ "st_step_order s"])
  ultimately show "if st_event_id s = eid then \<exists>n. s\<lparr>st_step_order := n\<rparr> \<in> set (steps d') else s \<in> set (steps d')"
    by (auto simp: renum_def)
qed

end
