(* ===== verification/Review_Protocol.thy ===== *)
theory Review_Protocol
  imports Event_Service
begin

text \<open>
  The plan review between its two transactions: one running request per plan revision, results of
  superseded requests dropped, and a plan edit that makes the old revision unusable. And what the
  request reports as moved.
\<close>

section \<open>Requests and results\<close>

lemma request_review_Ask:
  assumes "request_review g now draft eid v d = Inr (Ask rq rid, d1)"
  obtains e r where "find_event d eid = Some e" and "ev_status e = PLANNING" and "ev_plan_revision e = v"
    and "find_plan_review d eid = Some r" and "rid = uuid4_hex g (draws d)"
    and "d1 = put_plan_review (reviewing now v rid r) (drawn d)"
    and "find_plan_review d1 eid = Some (reviewing now v rid r)" and "find_event d1 eid = Some e"
proof -
  from assms obtain e r where e: "find_event d eid = Some e" "ev_status e = PLANNING" "ev_plan_revision e = v"
    and r: "find_plan_review d eid = Some r" and rid: "rid = uuid4_hex g (draws d)"
    and d1: "d1 = put_plan_review (reviewing now v rid r) (drawn d)"
    by (auto simp: request_review_def Let_def and_then_eq_Inr split: option.splits if_splits)
  have "find_plan_review (drawn d) eid = Some r" using r by (simp add: find_plan_review_def)
  moreover have "pr_event_id (reviewing now v rid r) = eid"
    using plan_review_table.get_key [OF r] by (simp add: reviewing_def)
  ultimately have "find_plan_review d1 eid = Some (reviewing now v rid r)"
    unfolding d1 by (rule plan_review_table.get_put_same)
  moreover have "find_event d1 eid = Some e" using e(1) by (simp add: d1 find_event_def put_plan_review_def)
  ultimately show thesis using that e r rid d1 by blast
qed

lemma store_result_other:
  assumes "find_plan_review d eid = Some r" and "pr_request_id r \<noteq> Some rid"
  shows "store_result now eid rid res d = (review_out (Some r) now, d)"
  using assms by (simp add: store_result_def)

lemma request_review_answered:
  assumes "find_event d eid = Some e" and "ev_status e = PLANNING" and "ev_plan_revision e = v"
    and "find_plan_review d eid = Some r" and "pr_reviewed_revision r = Some v"
    and "pr_status r = Review_DONE \<or> pr_status r = Review_REVIEWING \<and> \<not> timed_out r now"
  shows "request_review g now draft eid v d = Inr (Answer (review_out (Some r) now), d)"
  using assms by (auto simp: request_review_def)

lemma request_review_stale:
  assumes "find_event d eid = Some e" and "ev_status e = PLANNING" and "ev_plan_revision e \<noteq> v"
  shows "request_review g now draft eid v d = Inl VersionConflict"
  using assms by (simp add: request_review_def)

text \<open>An edit that changes something moves the revision of a plan that is still open.\<close>

lemma bump_plan_revision_find:
  assumes "find_event d eid = Some e" and "ev_status e = PLANNING"
  shows "\<exists>e'. find_event (bump_plan_revision now eid d) eid = Some e' \<and> ev_status e' = PLANNING \<and>
           ev_plan_revision e' = ev_plan_revision e + 1"
proof -
  let ?e = "touch now (e\<lparr>ev_plan_revision := ev_plan_revision e + 1\<rparr>)"
  have "ev_id ?e = eid" using event_table.get_key [OF assms(1)] by simp
  then have "find_event (put_event ?e d) eid = Some ?e" using assms(1) by (intro event_table.get_put_same)
  then show ?thesis using assms by (simp add: bump_plan_revision_def)
qed

lemma update_action_revision:
  assumes "update_action g now vals pv mid aid v d = Inr d'" and "find_action d aid = Some a"
    and "find_event d (ac_event_id a) = Some e" and "ev_status e = PLANNING" and "edit_changed vals pv a"
  shows "\<exists>e'. find_event d' (ac_event_id a) = Some e' \<and> ev_status e' = PLANNING \<and>
           ev_plan_revision e' = ev_plan_revision e + 1"
  using assms(1)
proof (rule update_action_Inr)
  fix a' e' d1
  assume *: "find_action d aid = Some a'" "find_event d (ac_event_id a') = Some e'"
    and adv: "advance_plan_revision g now e' mid (put_action (edited_row vals pv a')
       (put_event (touch now (derive_event vals (edited_row vals pv a') (Option.bind (ac_step_id a') (find_step d)) e')) d)) = Inr d1"
    and d': "d' = (if edit_changed vals pv a' then bump_plan_revision now (ev_id e') d1 else d1)"
  have same: "a' = a" "e' = e" using * assms(2,3) by simp_all
  let ?e = "touch now (derive_event vals (edited_row vals pv a) (Option.bind (ac_step_id a) (find_step d)) e)"
  have id: "ev_id e = ac_event_id a" using event_table.get_key [OF assms(3)] .
  have "find_event (put_event ?e d) (ac_event_id a) = Some ?e"
    using assms(3) id by (intro event_table.get_put_same) simp_all
  then have "find_event d1 (ac_event_id a) = Some ?e"
    using advance_plan_revision_tables(3) [OF adv] same by (simp add: find_event_def put_action_def)
  from bump_plan_revision_find [OF this, of now] show ?thesis
    using assms(4,5) d' same id by simp
qed

section \<open>What counts as moved\<close>

lemma index_of_nth: "distinct xs \<Longrightarrow> i < length xs \<Longrightarrow> index_of (xs ! i) xs = Some i"
  by (induction xs arbitrary: i) (auto simp: nth_Cons' less_Suc_eq_0_disj)

lemma index_of_SomeD: "index_of x xs = Some i \<Longrightarrow> i < length xs \<and> xs ! i = x"
  by (induction xs arbitrary: i) (auto split: if_splits)

text \<open>
  The common codes of a phase, in the current and in the earlier order. A code is reported as moved
  exactly when some phase has them in another order.
\<close>

definition common :: "step_code list \<Rightarrow> step_code list \<Rightarrow> step_phase \<Rightarrow> step_code list" where
  "common xs ys ph = phase_sequences (filter (\<lambda>c. c \<in> set ys) xs) ph"

lemma moved_codes_common:
  "moved_codes cur base = filter (\<lambda>c. c \<in> set base \<and>
     (case phase_of c of None \<Rightarrow> False
      | Some ph \<Rightarrow> common cur base ph \<noteq> common base cur ph \<and>
                   index_of c (common cur base ph) \<noteq> index_of c (common base cur ph))) cur"
  unfolding moved_codes_def common_def Let_def ..

lemma common_props:
  "set (common xs ys ph) = {c \<in> set xs \<inter> set ys. phase_of c = Some ph}"
  "distinct xs \<Longrightarrow> distinct (common xs ys ph)"
  by (auto simp: common_def phase_sequences_def)

lemma moved_codes_empty_iff:
  assumes "distinct cur" and "distinct base"
  shows "moved_codes cur base = [] \<longleftrightarrow> (\<forall>ph. common cur base ph = common base cur ph)"
proof
  assume none: "moved_codes cur base = []"
  show "\<forall>ph. common cur base ph = common base cur ph"
  proof (rule ccontr)
    assume "\<not> (\<forall>ph. common cur base ph = common base cur ph)"
    then obtain ph where ne: "common cur base ph \<noteq> common base cur ph" by blast
    let ?n = "common cur base ph" and ?b = "common base cur ph"
    have dist: "distinct ?n" "distinct ?b" using assms by (simp_all add: common_props)
    have set: "set ?n = set ?b" by (auto simp: common_props)
    then have len: "length ?n = length ?b" using dist by (metis distinct_card)
    with ne obtain i where i: "i < length ?n" "?n ! i \<noteq> ?b ! i" by (metis nth_equalityI)
    let ?c = "?n ! i"
    have c: "?c \<in> set cur" "?c \<in> set base" "phase_of ?c = Some ph"
      using i(1) nth_mem [of i ?n] by (auto simp: common_props)
    have "index_of ?c ?n = Some i" using dist(1) i(1) by (rule index_of_nth)
    moreover have "index_of ?c ?b \<noteq> Some i" using i(2) by (metis index_of_SomeD)
    ultimately have "?c \<in> set (moved_codes cur base)"
      using c ne by (simp add: moved_codes_common)
    with none show False by simp
  qed
next
  assume "\<forall>ph. common cur base ph = common base cur ph"
  then show "moved_codes cur base = []"
    by (auto simp: moved_codes_common filter_empty_conv split: option.splits)
qed

lemma moved_codes_subplan: "moved_codes (filter p base) base = []"
proof -
  have "common (filter p base) base ph = common base (filter p base) ph" for ph
    by (auto simp: common_def phase_sequences_def intro!: filter_cong)
  then show ?thesis by (auto simp: moved_codes_common filter_empty_conv split: option.splits)
qed

end
