(* ===== verification/Cancel_Checklist.thy ===== *)
theory Cancel_Checklist
  imports Event_Lifecycle
begin

text \<open>
  Cancelling an event to the end: the checklist is created once, its first open task can always be
  completed while the event is cancelling, and completing the open tasks one after the other ends in
  \<open>CANCELLED\<close>.
\<close>

definition open_cancel_tasks :: "db \<Rightarrow> ident \<Rightarrow> cancel_task list" where
  "open_cancel_tasks d eid = filter (\<lambda>t. ct_event_id t = eid \<and> ct_completed_at t = None) (cancel_tasks d)"

lemma open_cancel_tasks_Nil: "open_cancel_tasks d eid = [] \<longleftrightarrow> no_open_cancel_tasks d eid"
  by (auto simp: open_cancel_tasks_def no_open_cancel_tasks_def filter_empty_conv)

text \<open>The task the checklist shows as current.\<close>

definition next_task :: "db \<Rightarrow> ident \<Rightarrow> cancel_task option" where
  "next_task d eid = find (\<lambda>t. ct_completed_at t = None) (list_cancel_tasks eid d)"

lemma next_task_Some:
  assumes "next_task d eid = Some t"
  shows "t \<in> set (cancel_tasks d)" and "ct_event_id t = eid" and "ct_completed_at t = None"
    and "first_open_order eid d = Some (ct_task_order t)"
proof -
  let ?xs = "list_cancel_tasks eid d"
  from assms obtain i where i: "i < length ?xs" "?xs ! i = t" and t: "ct_completed_at t = None"
    by (auto simp: next_task_def find_Some_iff)
  from i have "t \<in> set ?xs" by (metis nth_mem)
  then show "t \<in> set (cancel_tasks d)" and "ct_event_id t = eid" by (auto simp: list_cancel_tasks_def)
  show "ct_completed_at t = None" by (rule t)
  show "first_open_order eid d = Some (ct_task_order t)"
    using assms by (simp add: next_task_def first_open_order_def)
qed

lemma next_task_None: "next_task d eid = None \<longleftrightarrow> no_open_cancel_tasks d eid"
  by (auto simp: next_task_def list_cancel_tasks_def find_None_iff no_open_cancel_tasks_def)

lemma put_task_open:
  assumes "distinct (map ct_id xs)" and "t \<in> set xs" and "p t" and "\<not> p t'" and "ct_id t' = ct_id t"
  shows "length (filter p (put_row ct_id t' xs)) = length (filter p xs) - 1"
  using assms
proof (induction xs)
  case (Cons x xs)
  show ?case
  proof (cases "ct_id x = ct_id t")
    case True
    then have "x = t" using Cons.prems by (auto simp: image_iff)
    moreover have "put_row ct_id t' xs = xs"
      using Cons.prems True unfolding put_row_def by (intro map_idI) (auto simp: image_iff)
    ultimately show ?thesis using Cons.prems by simp
  next
    case False
    then have t: "t \<in> set xs" using Cons.prems(2) by auto
    then have "0 < length (filter p xs)" using Cons.prems(3) by (auto simp: filter_empty_conv)
    with Cons False t show ?thesis by auto
  qed
qed simp

text \<open>One completion: always accepted for the current task; the last one ends the cancellation.\<close>

lemma complete_next_task:
  assumes "find_event d eid = Some e" and "ev_status e = CANCELLING" and "next_task d eid = Some t"
    and "distinct (map ct_id (cancel_tasks d))"
  obtains t' d' e' where "complete_cancel_task now eid (ct_id t) m d = Inr (t', d')"
    and "length (open_cancel_tasks d' eid) = length (open_cancel_tasks d eid) - 1"
    and "find_event d' eid = Some e'"
    and "ev_status e' = (if open_cancel_tasks d' eid = [] then CANCELLED else CANCELLING)"
    and "distinct (map ct_id (cancel_tasks d'))"
proof -
  note t = next_task_Some [OF assms(3)]
  have id: "ev_id e = eid" using event_table.get_key [OF assms(1)] .
  let ?t = "t\<lparr>ct_completed_at := Some now, ct_completed_by := Some (mb_id m)\<rparr>"
  let ?d1 = "put_cancel_task ?t d"
  let ?d2 = "if no_open_cancel_tasks ?d1 eid then put_event (touch now (e\<lparr>ev_status := CANCELLED\<rparr>)) ?d1 else ?d1"
  have found: "find_cancel_task d (ct_id t) = Some t"
    using t(1) assms(4) by (simp add: find_cancel_task_def get_row_distinct)
  have left: "filter (\<lambda>x. ct_event_id x = eid \<and> ct_completed_at x = None) (cancel_tasks ?d1) = []
      \<longleftrightarrow> no_open_cancel_tasks ?d1 eid"
    by (auto simp: no_open_cancel_tasks_def filter_empty_conv)
  have run: "complete_cancel_task now eid (ct_id t) m d = Inr (?t, ?d2)"
    using found t assms(1,2) id by (simp add: complete_cancel_task_def Let_def left)
  have ct: "cancel_tasks ?d2 = put_row ct_id ?t (cancel_tasks d)"
    by (simp add: put_cancel_task_def put_event_def)
  have len: "length (open_cancel_tasks ?d2 eid) = length (open_cancel_tasks d eid) - 1"
    unfolding open_cancel_tasks_def ct
    by (rule put_task_open [OF assms(4) t(1)]) (use t in simp_all)
  have same: "open_cancel_tasks ?d2 eid = open_cancel_tasks ?d1 eid"
    by (simp add: open_cancel_tasks_def put_event_def)
  have ev: "find_event ?d1 eid = Some e" using assms(1) by (simp add: find_event_def put_cancel_task_def)
  have "\<exists>e'. find_event ?d2 eid = Some e' \<and> ev_status e' = (if open_cancel_tasks ?d2 eid = [] then CANCELLED else CANCELLING)"
  proof (cases "no_open_cancel_tasks ?d1 eid")
    case True
    have "find_event (put_event (touch now (e\<lparr>ev_status := CANCELLED\<rparr>)) ?d1) eid = Some (touch now (e\<lparr>ev_status := CANCELLED\<rparr>))"
      using ev id by (intro event_table.get_put_same) simp_all
    with True same show ?thesis by (simp add: open_cancel_tasks_Nil)
  next
    case False
    with same ev assms(2) show ?thesis by (simp add: open_cancel_tasks_Nil)
  qed
  moreover have "distinct (map ct_id (cancel_tasks ?d2))" unfolding ct using assms(4) by simp
  ultimately show thesis using that run len by blast
qed

text \<open>Completing the current task again and again.\<close>

fun work_off :: "instant \<Rightarrow> member \<Rightarrow> ident \<Rightarrow> nat \<Rightarrow> db \<Rightarrow> db" where
  "work_off now m eid 0 d = d"
| "work_off now m eid (Suc n) d =
     (case next_task d eid of
        None \<Rightarrow> d
      | Some t \<Rightarrow>
        (case complete_cancel_task now eid (ct_id t) m d of
           Inl _ \<Rightarrow> d
         | Inr (_, d') \<Rightarrow> work_off now m eid n d'))"

lemma work_off_cancels:
  assumes "find_event d eid = Some e" and "ev_status e = CANCELLING" and "distinct (map ct_id (cancel_tasks d))"
    and "length (open_cancel_tasks d eid) = Suc n"
  shows "\<exists>e'. find_event (work_off now m eid (Suc n) d) eid = Some e' \<and> ev_status e' = CANCELLED"
  using assms
proof (induction n arbitrary: d e)
  case 0
  then have "open_cancel_tasks d eid \<noteq> []" by auto
  then obtain t where t: "next_task d eid = Some t" using next_task_None open_cancel_tasks_Nil by blast
  obtain t' d' e' where run: "complete_cancel_task now eid (ct_id t) m d = Inr (t', d')"
    and len: "length (open_cancel_tasks d' eid) = length (open_cancel_tasks d eid) - 1"
    and e': "find_event d' eid = Some e'"
      "ev_status e' = (if open_cancel_tasks d' eid = [] then CANCELLED else CANCELLING)"
    by (rule complete_next_task [OF 0(1,2) t 0(3)])
  then show ?case using 0(4) t by simp
next
  case (Suc n)
  then have "open_cancel_tasks d eid \<noteq> []" by auto
  then obtain t where t: "next_task d eid = Some t" using next_task_None open_cancel_tasks_Nil by blast
  obtain t' d' e' where run: "complete_cancel_task now eid (ct_id t) m d = Inr (t', d')"
    and len: "length (open_cancel_tasks d' eid) = length (open_cancel_tasks d eid) - 1"
    and e': "find_event d' eid = Some e'"
      "ev_status e' = (if open_cancel_tasks d' eid = [] then CANCELLED else CANCELLING)"
    and dist: "distinct (map ct_id (cancel_tasks d'))"
    by (rule complete_next_task [OF Suc.prems(1,2) t Suc.prems(3)])
  have "length (open_cancel_tasks d' eid) = Suc n" using len Suc.prems(4) by simp
  moreover from this have "ev_status e' = CANCELLING" using e'(2) by auto
  ultimately show ?case using Suc.IH [OF e'(1) _ dist] run t by simp
qed

text \<open>Beginning the cancellation creates the checklist, open and numbered from 1.\<close>

lemma insert_cancel_tasks_numbers:
  assumes "insert_cancel_tasks g now eid i ts d = Inr d'"
  shows "\<exists>new. cancel_tasks d' = cancel_tasks d @ new \<and> events d' = events d \<and>
           map (\<lambda>t. (ct_task_order t, ct_name t)) new = zip (map (\<lambda>k. i + int k) [1..<Suc (length ts)]) (map fst ts) \<and>
           (\<forall>t \<in> set new. ct_event_id t = eid \<and> ct_completed_at t = None) \<and>
           (distinct (map ct_id (cancel_tasks d)) \<longrightarrow> distinct (map ct_id (cancel_tasks d')))"
  using assms
proof (induction g now eid i ts d rule: insert_cancel_tasks.induct)
  case (2 g now eid i name descr msg ts d)
  let ?t = "\<lparr>ct_id = new_id g d ''ect'', ct_event_id = eid, ct_task_order = i + 1, ct_name = name,
        ct_description = descr, ct_message = msg, ct_completed_at = None, ct_completed_by = None,
        ct_created_at = now\<rparr>"
  from "2.prems" have fresh: "new_id g d ''ect'' \<notin> ct_id ` set (cancel_tasks d)"
    and rest: "insert_cancel_tasks g now eid (i + 1) ts (drawn (d\<lparr>cancel_tasks := cancel_tasks d @ [?t]\<rparr>)) = Inr d'"
    by (auto simp: and_then_eq_Inr insert_row_Inr)
  from "2.IH" [OF rest] obtain new where new: "cancel_tasks d' = cancel_tasks d @ [?t] @ new" "events d' = events d"
      "map (\<lambda>t. (ct_task_order t, ct_name t)) new = zip (map (\<lambda>k. i + 1 + int k) [1..<Suc (length ts)]) (map fst ts)"
      "\<forall>t \<in> set new. ct_event_id t = eid \<and> ct_completed_at t = None"
      "distinct (map ct_id (cancel_tasks d @ [?t])) \<longrightarrow> distinct (map ct_id (cancel_tasks d'))"
    by auto
  have "map (\<lambda>k. i + int k) [1..<Suc (Suc (length ts))] = (i + 1) # map (\<lambda>k. i + 1 + int k) [1..<Suc (length ts)]"
    by (rule nth_equalityI) (auto simp: nth_Cons' simp del: upt_Suc)
  then show ?case
    using new fresh by (intro exI [of _ "?t # new"]) (auto simp del: upt_Suc)
qed (auto intro: exI [of _ "[]"])

lemma begin_event_cancellation_checklist:
  assumes "begin_event_cancellation g now eid d = Inr d'" and "\<forall>t \<in> set (cancel_tasks d). ct_event_id t \<noteq> eid"
    and "distinct (map ct_id (cancel_tasks d))"
  shows "map (\<lambda>t. (ct_task_order t, ct_name t)) (open_cancel_tasks d' eid) =
           zip [1, 2, 3, 4] (map fst CANCEL_TASKS)"
    and "list_cancel_tasks eid d' = open_cancel_tasks d' eid"
    and "\<exists>e. find_event d' eid = Some e \<and> ev_status e = CANCELLING"
    and "distinct (map ct_id (cancel_tasks d'))"
proof -
  from assms(1) obtain e where e: "find_event d eid = Some e" "ev_status e = ON_GOING"
    by (rule begin_event_cancellation_tables)
  let ?e = "touch now (e\<lparr>ev_status := CANCELLING\<rparr>)"
  let ?d1 = "put_event ?e d"
  have ct: "cancel_tasks ?d1 = cancel_tasks d" by (simp add: put_event_def)
  have none: "filter (\<lambda>t. ct_event_id t = eid) (cancel_tasks d) = []" using assms(2) by (simp add: filter_empty_conv)
  with e assms(1) ct have "insert_cancel_tasks g now eid 0 CANCEL_TASKS ?d1 = Inr d'"
    by (simp add: begin_event_cancellation_def Let_def)
  from insert_cancel_tasks_numbers [OF this] obtain new where
    new: "cancel_tasks d' = cancel_tasks d @ new" "events d' = events ?d1"
      "map (\<lambda>t. (ct_task_order t, ct_name t)) new = zip (map (\<lambda>k. 0 + int k) [1..<Suc (length CANCEL_TASKS)]) (map fst CANCEL_TASKS)"
      "\<forall>t \<in> set new. ct_event_id t = eid \<and> ct_completed_at t = None" and
    dist: "distinct (map ct_id (cancel_tasks d'))"
    using ct assms(3) by auto
  have rows: "filter (\<lambda>t. ct_event_id t = eid) (cancel_tasks d') = new"
    using new(1,4) none by (simp add: filter_id_conv)
  have open_new: "open_cancel_tasks d' eid = new"
  proof -
    have "filter (\<lambda>t. ct_event_id t = eid \<and> ct_completed_at t = None) (cancel_tasks d') = new"
      using new(1,4) assms(2) by (simp add: filter_empty_conv filter_id_conv)
    then show ?thesis by (simp add: open_cancel_tasks_def)
  qed
  have len: "length CANCEL_TASKS = 4" by (simp add: CANCEL_TASKS_def)
  have nums: "map (\<lambda>k. 0 + int k) [1..<Suc (length CANCEL_TASKS)] = [1, 2, 3, 4]"
    unfolding len by (simp add: upt_rec)
  show "map (\<lambda>t. (ct_task_order t, ct_name t)) (open_cancel_tasks d' eid) = zip [1, 2, 3, 4] (map fst CANCEL_TASKS)"
    unfolding open_new new(3) nums ..
  have "map ct_task_order new = map fst (map (\<lambda>t. (ct_task_order t, ct_name t)) new)" by (simp add: comp_def)
  also have "\<dots> = [1, 2, 3, 4]" unfolding new(3) nums by (simp add: CANCEL_TASKS_def)
  finally have "sorted (map ct_task_order new)" by simp
  then show "list_cancel_tasks eid d' = open_cancel_tasks d' eid"
    unfolding list_cancel_tasks_def rows open_new by (rule sort_key_id_if_sorted)
  have "find_event ?d1 eid = Some ?e"
    using e(1) event_table.get_key [OF e(1)] by (intro event_table.get_put_same) simp_all
  then show "\<exists>e. find_event d' eid = Some e \<and> ev_status e = CANCELLING"
    using new(2) by (simp add: find_event_def)
  show "distinct (map ct_id (cancel_tasks d'))" by (rule dist)
qed

end
