(* ===== verification/Draft_Protocol.thy ===== *)
theory Draft_Protocol
  imports Action_Requests
begin

text \<open>
  The protocol between the requests for a draft, the background task and the user's own edits: what a
  finished task may write, that a superseded attempt writes nothing, and that an action is not drafted
  twice at the same time.
\<close>

section \<open>What a finished task writes\<close>

lemma finish_find:
  assumes "find_action d aid = Some a" and "find_event d (ac_event_id a) = Some e"
  shows "find_action (finish aid att oc d) aid = Some
     (if ac_draft_attempt_id a \<noteq> Some att then a
      else if writable e a then store_outcome oc a
      else if ac_content_status a = Content_DRAFTING then a\<lparr>ac_content_status := Content_NONE\<rparr> else a)"
proof -
  have id: "ac_id a = aid" using assms(1) by (rule find_action_id)
  then have "find_action (put_action b d) aid = Some b" if "ac_id b = aid" for b
    using action_table.get_put_same [OF assms(1)] that by blast
  moreover have "ac_id (store_outcome oc a) = aid"
    using id by (simp add: store_outcome_def split: draft_outcome.split)
  ultimately show ?thesis using assms id by (simp add: finish_def)
qed

lemma finish_other:
  assumes "i \<noteq> aid"
  shows "find_action (finish aid att oc d) i = find_action d i"
proof -
  have "find_action (put_action b d) i = find_action d i" if "ac_id b = aid" for b
    using assms that by (simp add: find_action_def put_action_def get_put_row_other)
  moreover have "ac_id (store_outcome oc a) = ac_id a" for a
    by (simp add: store_outcome_def split: draft_outcome.split)
  ultimately show ?thesis
    by (auto simp: finish_def dest: find_action_id split: option.split)
qed

section \<open>Marking the current step\<close>

lemma mark_all_other:
  "i \<notin> ac_id ` set as \<Longrightarrow> find_action (fst (mark_all g now as d)) i = find_action d i"
  by (induction as arbitrary: d)
    (auto simp: Let_def case_prod_unfold find_action_def put_action_def get_put_row_other)

lemma mark_all_marks:
  assumes "a \<in> set as" and "distinct (map ac_id as)" and "\<forall>b \<in> set as. find_action d (ac_id b) \<noteq> None"
  shows "\<exists>att. find_action (fst (mark_all g now as d)) (ac_id a) = Some (mark_drafting att now a)"
  using assms
proof (induction as arbitrary: d)
  case (Cons b bs)
  let ?d = "put_action (mark_drafting (uuid4_hex g (draws d)) now b) (drawn d)"
  have step: "fst (mark_all g now (b # bs) d) = fst (mark_all g now bs ?d)"
    by (simp add: Let_def case_prod_unfold)
  from Cons.prems(3) obtain b0 where b0: "find_action (drawn d) (ac_id b) = Some b0" by auto
  show ?case
  proof (cases "a = b")
    case True
    then have "ac_id a \<notin> ac_id ` set bs" using Cons.prems(2) by simp
    then have "find_action (fst (mark_all g now bs ?d)) (ac_id a) = find_action ?d (ac_id a)"
      by (rule mark_all_other)
    also have "\<dots> = Some (mark_drafting (uuid4_hex g (draws d)) now a)"
      using action_table.get_put_same [OF b0, of "mark_drafting (uuid4_hex g (draws d)) now b"] True by simp
    finally show ?thesis unfolding step by blast
  next
    case False
    have "find_action ?d i \<noteq> None" if "find_action d i \<noteq> None" for i
      using that action_table.get_put [of "drawn d" "mark_drafting (uuid4_hex g (draws d)) now b" b0 i] b0
      by simp
    with Cons False show ?thesis unfolding step by simp
  qed
qed simp

lemma draft_candidates_ids:
  assumes "pk_actions d"
  shows "distinct (map ac_id (draft_candidates d sid))"
    and "\<forall>b \<in> set (draft_candidates d sid). find_action d (ac_id b) = Some b"
proof -
  have "distinct (map ac_id (filter (needs_draft sid) (actions d)))"
    using assms by (simp add: pk_actions_def distinct_map_filter)
  then show "distinct (map ac_id (draft_candidates d sid))"
    unfolding draft_candidates_def by (simp add: distinct_map)
  show "\<forall>b \<in> set (draft_candidates d sid). find_action d (ac_id b) = Some b"
    using pk_actions_get [OF assms] by (auto simp: draft_candidates_def)
qed

text \<open>After a request for the current step no action of that step is left to draft.\<close>

lemma mark_all_exhausts:
  assumes "pk_actions d"
  shows "draft_candidates (fst (mark_all g now (draft_candidates d sid) d)) sid = []"
proof -
  let ?d = "fst (mark_all g now (draft_candidates d sid) d)"
  have "\<not> needs_draft sid b" if b: "b \<in> set (actions ?d)" for b
  proof
    assume n: "needs_draft sid b"
    then have "ac_content_status b = Content_NONE" by (simp add: needs_draft_def)
    then have "b \<noteq> mark_drafting att now c" for att c by (auto simp: mark_drafting_def)
    with mark_all_row [OF b] have "b \<in> set (actions d)" by blast
    with n have cand: "b \<in> set (draft_candidates d sid)" by (simp add: draft_candidates_def)
    have "\<forall>c \<in> set (draft_candidates d sid). find_action d (ac_id c) \<noteq> None"
      using draft_candidates_ids(2) [OF assms] by simp
    from mark_all_marks [OF cand draft_candidates_ids(1) [OF assms] this]
    obtain att where "find_action ?d (ac_id b) = Some (mark_drafting att now b)" by blast
    moreover have "pk_actions ?d" using assms by (simp add: pk_actions_def mark_all_keys)
    then have "find_action ?d (ac_id b) = Some b" using b by (rule pk_actions_get)
    ultimately have "ac_content_status b = ac_content_status (mark_drafting att now b)" by (metis option.inject)
    with \<open>ac_content_status b = Content_NONE\<close> show False by (simp add: mark_drafting_def)
  qed
  then have "filter (needs_draft sid) (actions ?d) = []" by (subst filter_empty_conv) blast
  then show ?thesis by (simp only: draft_candidates_def [of ?d sid] sort_key_simps)
qed

lemma mark_current_step_tables:
  "events (fst (mark_current_step g now eid d)) = events d" "steps (fst (mark_current_step g now eid d)) = steps d"
proof -
  obtain as' n where "fst (mark_current_step g now eid d) = d\<lparr>actions := as', draws := n\<rparr>"
    using mark_current_step_frame by blast
  then show "events (fst (mark_current_step g now eid d)) = events d"
    "steps (fst (mark_current_step g now eid d)) = steps d" by simp_all
qed

lemma drafts_not_repeated:
  assumes "pk_actions d"
  shows "mark_current_step g' now' eid (request_current_step_drafts g now eid d) =
           (request_current_step_drafts g now eid d, [])"
proof -
  let ?d = "request_current_step_drafts g now eid d"
  have ev: "find_event ?d i = find_event d i" and st: "ordered_steps ?d i = ordered_steps d i" for i
    by (simp_all add: find_event_def ordered_steps_def)
  show ?thesis
  proof (cases "find_event d eid")
    case None
    then show ?thesis by (simp add: mark_current_step_def ev)
  next
    case (Some e)
    let ?ss = "ordered_steps d eid"
    show ?thesis
    proof (cases "is_operating (ev_status e) \<and> current_step ?ss (step_states ?ss (ev_status e)) \<noteq> None")
      case False
      with Some show ?thesis by (auto simp: mark_current_step_def ev st Let_def split: option.split)
    next
      case True
      then obtain cur where cur: "current_step ?ss (step_states ?ss (ev_status e)) = Some cur" by blast
      with Some True have m: "mark_current_step g now eid d = mark_all g now (draft_candidates d (st_id cur)) d"
        by (simp add: mark_current_step_def Let_def)
      have "actions ?d = actions (fst (mark_all g now (draft_candidates d (st_id cur)) d))"
        by (simp add: request_current_step_drafts_actions m)
      then have "draft_candidates ?d (st_id cur) = []"
        using mark_all_exhausts [OF assms, of g now "st_id cur"] by (simp add: draft_candidates_def)
      with Some True cur show ?thesis by (simp add: mark_current_step_def ev st Let_def)
    qed
  qed
qed

end
