(* ===== verification/Action_Results.thy ===== *)
theory Action_Results
  imports Draft_Protocol
begin

text \<open>
  What an accepted request leaves behind, and when a request is accepted: the flags that the views
  show (\<open>canApprove\<close>, \<open>canRequestDraft\<close>) agree with the handlers, a step completes with its last
  action, an executed transfer is booked once.
\<close>

section \<open>Acceptance\<close>

lemma approve_accepts:
  assumes "find_action d aid = Some a" and "find_event d (ac_event_id a) = Some e"
    and "ensure_member (ev_club_id e) acc None d = Inr m" and "ac_type a \<noteq> CONFIRMATION"
  shows "(\<exists>d'. approve_action now acc aid (ac_version a) d = Inr d') \<longleftrightarrow>
     can_approve (mb_role m) (ac_status a) (ac_type a) (ac_approve_needed a) (ev_status e)"
proof -
  have id: "ev_id e = ac_event_id a" using event_table.get_key [OF assms(2)] .
  have ev: "action_event aid d = Inr e" using assms(1,2) by (simp add: action_event_def)
  show ?thesis
  proof (cases "ev_status e = ON_GOING")
    case True
    then have "operating_member aid acc d = Inr (e, m)"
      using assms(2,3) id ev
      by (simp add: operating_member_def lock_operating_event_def ensure_operating_def is_operating_def)
    then have "approve_action now acc aid (ac_version a) d = approve now m aid (ac_version a) d"
      by (simp add: approve_action_def)
    then show ?thesis
      using assms(1,4) True by (auto simp: approve_Inr can_approve_def is_operating_def is_confirmation_def)
  next
    case False
    then have "operating_member aid acc d = Inl EventNotOnGoing"
      using assms(2,3) id ev
      by (simp add: operating_member_def lock_operating_event_def ensure_operating_def is_operating_def)
    then show ?thesis using False by (simp add: approve_action_def can_approve_def is_operating_def)
  qed
qed

lemma redraft_accepts:
  assumes "find_action d aid = Some a" and "find_event d (ac_event_id a) = Some e"
  shows "(\<exists>d'. request_redraft g now aid (ac_version a) d = Inr d') \<longleftrightarrow>
     can_request_draft (ev_status e) (ac_status a) (ac_type a) (ac_content_status a)
       (ac_content_source a) (ac_draft_started_at a) now"
  using assms by (simp add: request_redraft_def Let_def)

section \<open>Completion of the step\<close>

lemma step_actions_drafts_status:
  assumes "pk_actions d"
  shows "map ac_status (step_actions (request_current_step_drafts g now eid d) sid) = map ac_status (step_actions d sid)"
proof -
  let ?d = "request_current_step_drafts g now eid d"
  have keys: "map ac_id (actions ?d) = map ac_id (actions d)"
    by (simp add: request_current_step_drafts_actions mark_current_step_keys)
  then have len: "length (actions ?d) = length (actions d)" by (metis length_map)
  have same: "ac_status (actions ?d ! i) = ac_status (actions d ! i) \<and> ac_step_id (actions ?d ! i) = ac_step_id (actions d ! i)"
    if i: "i < length (actions d)" for i
  proof -
    have id: "ac_id (actions ?d ! i) = ac_id (actions d ! i)" using i len keys by (metis nth_map)
    have a: "find_action d (ac_id (actions d ! i)) = Some (actions d ! i)" using i assms by (simp add: pk_actions_get)
    have b: "find_action ?d (ac_id (actions d ! i)) = Some (actions ?d ! i)"
      using pk_actions_get [of ?d "actions ?d ! i"] i len id assms by simp
    show ?thesis
      using assms a
    proof (rule request_current_step_drafts_find)
      assume "find_action ?d (ac_id (actions d ! i)) = Some (actions d ! i)"
      with b show ?thesis by simp
    next
      fix sid att
      assume "find_action ?d (ac_id (actions d ! i)) = Some (mark_drafting att now (actions d ! i))"
      with b have "actions ?d ! i = mark_drafting att now (actions d ! i)" by simp
      then show ?thesis by simp
    qed
  qed
  have pairs: "map (\<lambda>a. (ac_step_id a, ac_status a)) (actions ?d) = map (\<lambda>a. (ac_step_id a, ac_status a)) (actions d)"
    by (rule nth_equalityI) (simp_all add: len same)
  have "map ac_status (filter (\<lambda>a. ac_step_id a = Some sid) xs) =
      map snd (filter (\<lambda>p. fst p = Some sid) (map (\<lambda>a. (ac_step_id a, ac_status a)) xs))" for xs :: "action list"
    by (induction xs) auto
  then show ?thesis unfolding step_actions_def by (simp only: pairs)
qed

text \<open>The step after the last write: complete exactly when all its actions are done.\<close>

lemma finish_step_if_done_find:
  assumes "find_step d sid = Some s" and "st_completed_at s = None"
  shows "find_step (finish_step_if_done now (Some sid) d) sid =
     Some (if is_step_done (map ac_status (step_actions d sid)) then s\<lparr>st_completed_at := Some now\<rparr> else s)"
proof -
  have "st_id s = sid" using assms(1) by (rule step_table.get_key)
  then have "find_step (put_step (s\<lparr>st_completed_at := Some now\<rparr>) d) sid = Some (s\<lparr>st_completed_at := Some now\<rparr>)"
    using assms(1) by (intro step_table.get_put_same) simp_all
  with assms show ?thesis by (simp add: finish_step_if_done_def)
qed

lemma step_after_last_action:
  assumes "pk_actions d1" and "d' = request_current_step_drafts g now eid (finish_step_if_done now (Some sid) d1)"
    and "find_step d1 sid = Some s" and "st_completed_at s = None"
  shows "(\<exists>s'. find_step d' sid = Some s' \<and> st_completed_at s' = Some now) \<longleftrightarrow>
     (\<forall>a \<in> set (step_actions d' sid). ac_status a = DONE) \<and> step_actions d' sid \<noteq> []"
proof -
  let ?d2 = "finish_step_if_done now (Some sid) d1"
  have "find_step d' sid = find_step ?d2 sid" by (simp add: assms(2) find_step_def)
  moreover have "map ac_status (step_actions d' sid) = map ac_status (step_actions ?d2 sid)"
    unfolding assms(2) using assms(1) by (intro step_actions_drafts_status) simp
  moreover have "step_actions ?d2 sid = step_actions d1 sid" by (simp add: step_actions_def)
  moreover have "(\<forall>a \<in> set xs. ac_status a = DONE) \<and> xs \<noteq> [] \<longleftrightarrow> is_step_done (map ac_status xs)" for xs :: "action list"
    by (auto simp: is_step_done_def list_all_iff)
  ultimately show ?thesis using finish_step_if_done_find [OF assms(3,4), of now] assms(4) by simp
qed

lemma mark_done_step:
  assumes "mark_done g now m aid v d = Inr d'" and "pk_actions d" and "find_action d aid = Some a"
    and "ac_step_id a = Some sid" and "find_step d sid = Some s" and "st_completed_at s = None"
  shows "(\<exists>s'. find_step d' sid = Some s' \<and> st_completed_at s' = Some now) \<longleftrightarrow>
     (\<forall>a \<in> set (step_actions d' sid). ac_status a = DONE) \<and> step_actions d' sid \<noteq> []"
  using assms(1)
proof (rule mark_done_Inr)
  fix a' d2
  assume a': "find_action d aid = Some a'"
    and ex: "if records_expense (ac_type a') (ac_amount a')
         then \<exists>e. find_event d (ac_event_id a') = Some e \<and>
                  add_action_expense g (done_row now m a') (ev_club_id e) now (mb_id m)
                    (put_action (done_row now m a') d) = Inr d2
         else d2 = put_action (done_row now m a') d"
    and d': "d' = request_current_step_drafts g now (ac_event_id a') (finish_step_if_done now (ac_step_id a') d2)"
  have [simp]: "a' = a" using a' assms(3) by simp
  have acts: "actions d2 = actions (put_action (done_row now m a) d)" "steps d2 = steps d"
    using ex by (auto simp: put_action_def elim!: add_action_expense_Inr split: if_splits)
  then have "pk_actions d2" "find_step d2 sid = Some s"
    using assms(2,5) by (simp_all add: pk_actions_def put_action_def find_step_def)
  then show ?thesis
    using step_after_last_action [of d2 d' g now "ac_event_id a" sid s] d' assms(4,6) by simp
qed

section \<open>Booking of a transfer\<close>

lemma mark_done_expenses:
  assumes "mark_done g now m aid v d = Inr d'" and "find_action d aid = Some a"
  shows "if ac_type a = TRANSFER \<and> (\<exists>n. ac_amount a = Some n \<and> 0 < n)
     then (\<exists>x e. expenses d' = expenses d @ [x] \<and> find_event d (ac_event_id a) = Some e \<and>
             ex_action_id x = Some aid \<and> Some (ex_amount x) = ac_amount a \<and> ex_club_id x = ev_club_id e \<and>
             ex_event_id x = Some (ac_event_id a) \<and> ex_source x = Expense_ACTION \<and>
             ex_description x = Some (ac_title a) \<and> ex_created_by x = mb_id m \<and> ex_spent_at x = now)
     else expenses d' = expenses d"
  using assms(1)
proof (rule mark_done_Inr)
  fix a' d2
  assume a': "find_action d aid = Some a'"
    and ex: "if records_expense (ac_type a') (ac_amount a')
         then \<exists>e. find_event d (ac_event_id a') = Some e \<and>
                  add_action_expense g (done_row now m a') (ev_club_id e) now (mb_id m)
                    (put_action (done_row now m a') d) = Inr d2
         else d2 = put_action (done_row now m a') d"
    and d': "d' = request_current_step_drafts g now (ac_event_id a') (finish_step_if_done now (ac_step_id a') d2)"
  have a: "a' = a" using a' assms(2) by simp
  have id: "ac_id a = aid" using assms(2) by (rule find_action_id)
  have rec: "records_expense (ac_type a) (ac_amount a) \<longleftrightarrow> ac_type a = TRANSFER \<and> (\<exists>n. ac_amount a = Some n \<and> 0 < n)"
    by (auto simp: records_expense_def split: option.splits)
  have exp: "expenses d' = expenses d2" by (simp add: d')
  show ?thesis
  proof (cases "records_expense (ac_type a) (ac_amount a)")
    case True
    with ex a obtain e where e: "find_event d (ac_event_id a) = Some e"
      and add: "add_action_expense g (done_row now m a) (ev_club_id e) now (mb_id m) (put_action (done_row now m a) d) = Inr d2"
      by auto
    from add obtain x where "d2 = (drawn (put_action (done_row now m a) d))\<lparr>expenses := expenses (put_action (done_row now m a) d) @ [x]\<rparr>"
      and x: "ex_action_id x = Some (ac_id (done_row now m a))" "Some (ex_amount x) = ac_amount (done_row now m a)"
        "ex_club_id x = ev_club_id e" "ex_event_id x = Some (ac_event_id (done_row now m a))"
        "ex_source x = Expense_ACTION" "ex_created_by x = mb_id m" "ex_spent_at x = now"
        "ex_description x = Some (ac_title (done_row now m a))"
      by (rule add_action_expense_Inr)
    then have "expenses d' = expenses d @ [x]" by (simp add: exp put_action_def)
    with x e True rec id show ?thesis by auto
  next
    case False
    with ex a have "d2 = put_action (done_row now m a) d" by simp
    then have "expenses d' = expenses d" by (simp add: exp put_action_def)
    with False rec show ?thesis by auto
  qed
qed

end
