(* ===== verification/Agent_Jobs.thy ===== *)
theory Agent_Jobs
  imports Models
begin

text \<open>
  The asynchronous jobs of \<open>app/services/agent_job_service.py\<close>: every change of a job's status or
  stage is written together with an activity event, so the event stream never runs ahead of the
  stored jobs. The functions do not commit; their callers do.
\<close>

text \<open>\<open>_record\<close>\<close>

definition record_activity :: "agent_job \<Rightarrow> db \<Rightarrow> db" where
  "record_activity j d =
     d\<lparr>activity_events := activity_events d @
        [\<lparr>ae_club_id = jb_club_id j, ae_job_id = Some (jb_id j), ae_kind = jb_kind j,
          ae_status = jb_status j, ae_stage = jb_stage j\<rparr>]\<rparr>"

definition create_job ::
  "rnd \<Rightarrow> ident \<Rightarrow> agent_job_kind \<Rightarrow> ident option \<Rightarrow> db \<Rightarrow> api_error + (agent_job \<times> db)" where
  "create_job g club kind created_by d =
     (let j = \<lparr>jb_id = new_id g d ''job'', jb_club_id = club, jb_kind = kind,
               jb_status = JobStatus_QUEUED, jb_stage = None, jb_result = None, jb_error = None,
               jb_started_at = None, jb_finished_at = None, jb_created_by = created_by\<rparr>
      in and_then (insert_row jb_id j (agent_jobs d)) (\<lambda>rows.
           Inr (j, record_activity j (drawn (d\<lparr>agent_jobs := rows\<rparr>)))))"

definition write_job :: "agent_job \<Rightarrow> db \<Rightarrow> db" where
  "write_job j d = record_activity j (put_agent_job j d)"

definition start :: "instant \<Rightarrow> agent_job_stage option \<Rightarrow> agent_job \<Rightarrow> db \<Rightarrow> db" where
  "start now stage j d =
     write_job (j\<lparr>jb_status := JobStatus_RUNNING, jb_stage := stage, jb_started_at := Some now\<rparr>) d"

definition set_stage :: "agent_job_stage \<Rightarrow> agent_job \<Rightarrow> db \<Rightarrow> db" where
  "set_stage stage j d = write_job (j\<lparr>jb_stage := Some stage\<rparr>) d"

definition succeed :: "instant \<Rightarrow> dict \<Rightarrow> agent_job \<Rightarrow> db \<Rightarrow> db" where
  "succeed now result j d =
     write_job (j\<lparr>jb_status := JobStatus_SUCCEEDED, jb_result := Some result,
                  jb_finished_at := Some now\<rparr>) d"

definition fail :: "instant \<Rightarrow> dict \<Rightarrow> agent_job \<Rightarrow> db \<Rightarrow> db" where
  "fail now error j d =
     write_job (j\<lparr>jb_status := JobStatus_FAILED, jb_error := Some error, jb_finished_at := Some now\<rparr>) d"

definition get_job :: "ident \<Rightarrow> db \<Rightarrow> api_error + agent_job" where
  "get_job jid d = (case find_agent_job d jid of None \<Rightarrow> Inl AgentJobNotFound | Some j \<Rightarrow> Inr j)"

lemmas job_defs = start_def set_stage_def succeed_def fail_def write_job_def record_activity_def
  put_agent_job_def

text \<open>The last activity event of a job tells its stored status and stage.\<close>

definition job_events :: "db \<Rightarrow> ident \<Rightarrow> activity_event list" where
  "job_events d jid = filter (\<lambda>e. ae_job_id e = Some jid) (activity_events d)"

definition mirrored :: "db \<Rightarrow> bool" where
  "mirrored d \<longleftrightarrow> (\<forall>j \<in> set (agent_jobs d). job_events d (jb_id j) \<noteq> [] \<and>
     ae_status (last (job_events d (jb_id j))) = jb_status j \<and>
     ae_stage (last (job_events d (jb_id j))) = jb_stage j)"

lemma mirrored_write_job:
  assumes "mirrored d"
  shows "mirrored (write_job j d)"
  unfolding mirrored_def
proof (intro ballI)
  fix k
  assume "k \<in> set (agent_jobs (write_job j d))"
  then have "k \<in> set (put_row jb_id j (agent_jobs d))" by (simp add: job_defs)
  then show "job_events (write_job j d) (jb_id k) \<noteq> [] \<and>
     ae_status (last (job_events (write_job j d) (jb_id k))) = jb_status k \<and>
     ae_stage (last (job_events (write_job j d) (jb_id k))) = jb_stage k"
    using assms by (elim put_row_memE) (simp_all add: mirrored_def job_events_def job_defs)
qed

lemma mirrored_create_job:
  assumes "mirrored d" and "create_job g club kind by' d = Inr (j, d')"
  shows "mirrored d'"
  using assms
  by (auto simp: create_job_def Let_def and_then_eq_Inr insert_row_Inr mirrored_def job_events_def
      record_activity_def drawn_def)

text \<open>A new job is queued under a key no other job has.\<close>

lemma create_job_fresh:
  assumes "create_job g club kind by' d = Inr (j, d')"
  shows "find_agent_job d (jb_id j) = None" and "find_agent_job d' (jb_id j) = Some j"
    and "jb_status j = JobStatus_QUEUED"
proof -
  from assms have new: "jb_id j \<notin> jb_id ` set (agent_jobs d)" and eq: "agent_jobs d' = agent_jobs d @ [j]"
    and "jb_status j = JobStatus_QUEUED"
    by (auto simp: create_job_def Let_def and_then_eq_Inr insert_row_Inr record_activity_def drawn_def)
  then show "jb_status j = JobStatus_QUEUED" by simp
  show none: "find_agent_job d (jb_id j) = None" using new by (simp add: find_agent_job_def get_row_None_iff)
  then show "find_agent_job d' (jb_id j) = Some j"
    by (simp add: find_agent_job_def eq get_row_append)
qed

text \<open>The operations in any order.\<close>

inductive job_step :: "db \<Rightarrow> db \<Rightarrow> bool" where
  Created: "create_job g club kind by' d = Inr (j, d') \<Longrightarrow> job_step d d'"
| Running: "job_step d (start now stage j d)"
| Staged: "job_step d (set_stage st j d)"
| Succeeded: "job_step d (succeed now result j d)"
| Job_Failed: "job_step d (fail now error j d)"

lemma mirrored_job_step: "job_step d d' \<Longrightarrow> mirrored d \<Longrightarrow> mirrored d'"
  by (induction rule: job_step.induct)
    (auto simp: start_def set_stage_def succeed_def fail_def intro: mirrored_create_job mirrored_write_job)

end
