(* ===== verification/Demo.thy ===== *)
theory Demo
  imports Event_Service Agent_Jobs
begin

text \<open>
  A small concrete club for the witnesses: one owner, an event in planning with two steps, a running
  event with a transfer to approve and a notice to draft, and a review row of the planned event. The
  identifiers a run draws are numbered.
\<close>

definition demo_rnd :: rnd where
  "demo_rnd = \<lparr>nanoid = (\<lambda>n. replicate n (CHR ''n'')), uuid4_hex = (\<lambda>n. replicate n (CHR ''u''))\<rparr>"

definition demo_owner :: member where
  "demo_owner = \<lparr>mb_id = ''mem_1'', mb_club_id = ''clb_1'', mb_account_id = Some ''acc_1'', mb_name = lit ''Owner'',
     mb_role = OWNER, mb_status = Member_ACTIVE, mb_student_no = None, mb_phone = None,
     mb_notify_approval_pending = True, mb_notify_step_delay = True\<rparr>"

definition demo_club :: club where
  "demo_club = \<lparr>cl_id = ''clb_1'', cl_name = lit ''Club'', cl_category = None, cl_description = None\<rparr>"

definition demo_event :: "ident \<Rightarrow> event_status \<Rightarrow> event" where
  "demo_event i s = \<lparr>ev_id = i, ev_club_id = ''clb_1'', ev_title = lit ''MT'', ev_status = s,
     ev_event_type = None, ev_location = None, ev_start_date = Some 739000, ev_end_date = None,
     ev_expected_headcount = None, ev_budget_total = None, ev_fee_per_person = None,
     ev_plan_warnings = None, ev_plan_excluded_steps = None, ev_saved_at = None, ev_plan_revision = 0,
     ev_created_at = 0, ev_modified_at = 0\<rparr>"

definition demo_step :: "ident \<Rightarrow> ident \<Rightarrow> int \<Rightarrow> step_code \<Rightarrow> step_phase \<Rightarrow> step" where
  "demo_step i e n c ph = \<lparr>st_id = i, st_event_id = e, st_step_order = n, st_phase = ph, st_code = c,
     st_name = lit ''step'', st_actor = Actor_MANUAL, st_starts_at = None, st_deadline = None,
     st_completed_at = None, st_completed_by = None, st_version = 1\<rparr>"

definition demo_action :: "ident \<Rightarrow> ident \<Rightarrow> ident \<Rightarrow> action_type \<Rightarrow> int option \<Rightarrow> action" where
  "demo_action i e s t amount = \<lparr>ac_id = i, ac_event_id = e, ac_step_id = Some s, ac_type = t,
     ac_title = lit ''pay'', ac_subtitle = None, ac_content = None, ac_content_status = Content_NONE,
     ac_content_source = None, ac_content_unknowns = [], ac_draft_attempt_id = None,
     ac_draft_started_at = None, ac_draft_error_code = None,
     ac_irreversible = fst (action_defaults t), ac_approve_needed = snd (action_defaults t),
     ac_status = PENDING, ac_version = 1, ac_amount = amount, ac_due_date = None, ac_payload = None,
     ac_deny_reason = None, ac_resolved_at = None, ac_resolved_by = None, ac_created_at = 0\<rparr>"

definition demo_review :: plan_review where
  "demo_review = \<lparr>pr_event_id = ''evt_p'', pr_baseline = [], pr_generated_revision = -1,
     pr_status = Review_NOT_REQUESTED, pr_request_id = None, pr_reviewed_revision = None,
     pr_outcome = None, pr_items = None, pr_error_code = None, pr_requested_at = None,
     pr_finished_at = None\<rparr>"

definition demo :: db where
  "demo = empty_db\<lparr>clubs := [demo_club], members := [demo_owner],
     events := [demo_event ''evt_p'' PLANNING, demo_event ''evt_o'' ON_GOING],
     steps := [demo_step ''stp_1'' ''evt_p'' 1 RECRUIT_NOTICE RECRUITING,
               demo_step ''stp_2'' ''evt_p'' 2 COLLECT_FEES RECRUITING,
               demo_step ''stp_3'' ''evt_o'' 1 SETTLE_EXPENSES EXECUTION],
     actions := [demo_action ''act_1'' ''evt_p'' ''stp_1'' NOTICE None,
                 demo_action ''act_2'' ''evt_o'' ''stp_3'' TRANSFER (Some 30000),
                 demo_action ''act_3'' ''evt_o'' ''stp_3'' NOTICE None],
     plan_reviews := [demo_review]\<rparr>"

text \<open>The database of a successful request.\<close>

definition res :: "api_error + db \<Rightarrow> db" where
  "res r = (case r of Inl _ \<Rightarrow> empty_db | Inr d \<Rightarrow> d)"

definition ok :: "api_error + 'a \<Rightarrow> bool" where
  "ok r = (case r of Inl _ \<Rightarrow> False | Inr _ \<Rightarrow> True)"

definition demo_row :: "db \<Rightarrow> ident \<Rightarrow> action" where
  "demo_row d i = the (find_action d i)"

lemma ok_res: "ok r \<Longrightarrow> r = Inr (res r)"
  by (auto simp: ok_def res_def split: sum.splits)

definition demo_approved :: db where
  "demo_approved = res (approve_action 10 ''acc_1'' ''act_2'' 1 demo)"

definition demo_done :: db where
  "demo_done = res (mark_action_done demo_rnd 20 ''acc_1'' ''act_2'' 2 demo_approved)"

definition demo_edit :: action_values where
  "demo_edit = \<lparr>av_title = Some (Some (lit ''new title'')), av_subtitle = None, av_amount = None,
     av_due_date = None, av_content = None\<rparr>"

definition demo_edited :: db where
  "demo_edited = res (update_action demo_rnd 30 demo_edit [] ''mem_1'' ''act_2'' 2 demo_approved)"

definition demo_started :: db where
  "demo_started = res (start_event_endpoint demo_rnd 10 ''acc_1'' ''evt_p'' demo)"

lemma demo_start: "start_event_endpoint demo_rnd 10 ''acc_1'' ''evt_p'' demo = Inr demo_started"
  unfolding demo_started_def by (rule ok_res) code_simp

text \<open>A draft of the notice that failed, and the redraft of it.\<close>

definition demo_failed :: db where
  "demo_failed = finish ''act_3'' [] (Draft_Error ''AI_UNAVAILABLE'') (request_current_step_drafts demo_rnd 10 ''evt_o'' demo)"

definition demo_redrafted :: db where
  "demo_redrafted = res (request_redraft demo_rnd 20 ''act_3'' 1 demo_failed)"

lemma demo_redraft: "request_redraft demo_rnd 20 ''act_3'' 1 demo_failed = Inr demo_redrafted"
  unfolding demo_redrafted_def by (rule ok_res) code_simp

text \<open>A replacement of the plan's steps, and a review request on its way.\<close>

definition demo_replaced :: db where
  "demo_replaced = res (replace_plan_steps demo_rnd 50 ''mem_1'' ''evt_p'' [COLLECT_FEES, ASSIGN_ROLES, RECRUIT_NOTICE] 0 demo)"

lemma demo_replace:
  "replace_plan_steps demo_rnd 50 ''mem_1'' ''evt_p'' [COLLECT_FEES, ASSIGN_ROLES, RECRUIT_NOTICE] 0 demo = Inr demo_replaced"
  unfolding demo_replaced_def by (rule ok_res) code_simp

definition demo_ask :: "unit review_begin \<times> db" where
  "demo_ask = (case request_review demo_rnd 70 (\<lambda>_. ()) ''evt_p'' 0 demo of Inl _ \<Rightarrow> (Answer None, demo) | Inr r \<Rightarrow> r)"

definition demo_reviewing :: db where
  "demo_reviewing = snd demo_ask"

definition demo_request :: "unit review_request" where
  "demo_request = (case fst demo_ask of Ask rq _ \<Rightarrow> rq | Answer _ \<Rightarrow> undefined)"

lemma demo_review_ask: "request_review demo_rnd 70 (\<lambda>_. ()) ''evt_p'' 0 demo = Inr (Ask demo_request [], demo_reviewing)"
proof -
  have "case request_review demo_rnd 70 (\<lambda>_. ()) ''evt_p'' 0 demo of Inr (Ask _ rid, _) \<Rightarrow> rid = [] | _ \<Rightarrow> False"
    by code_simp
  then show ?thesis
    by (auto simp: demo_request_def demo_reviewing_def demo_ask_def split: sum.splits review_begin.splits)
qed

text \<open>Variants: a cancellation begun, a question, an action without approval or without step, a job started.\<close>

definition demo_cancelling :: db where
  "demo_cancelling = res (begin_event_cancellation demo_rnd 80 ''evt_o'' demo)"

lemma demo_cancel: "begin_event_cancellation demo_rnd 80 ''evt_o'' demo = Inr demo_cancelling"
  unfolding demo_cancelling_def by (rule ok_res) code_simp

definition demo_question :: db where
  "demo_question = demo\<lparr>actions := actions demo @
     [(demo_action ''act_4'' ''evt_o'' ''stp_3'' CONFIRMATION None)
        \<lparr>ac_payload := Some [(''options'', JList [JObj [(''key'', JStr (lit ''A''))], JObj [(''key'', JStr (lit ''B''))]]),
                            (''allow_manual'', JBool False)]\<rparr>]\<rparr>"

definition demo_unapproved :: db where
  "demo_unapproved = put_action ((demo_row demo ''act_2'')\<lparr>ac_approve_needed := False\<rparr>) demo"

definition demo_stepless :: db where
  "demo_stepless = put_action ((demo_row demo ''act_2'')\<lparr>ac_step_id := None\<rparr>) demo"

definition demo_job :: db where
  "demo_job = start 5 (Some Stage_OCR)
     \<lparr>jb_id = ''job_1'', jb_club_id = ''clb_1'', jb_kind = Job_RECEIPT_OCR, jb_status = JobStatus_QUEUED, jb_stage = None,
      jb_result = None, jb_error = None, jb_started_at = None, jb_finished_at = None, jb_created_by = None\<rparr> demo"

lemma demo_approve: "approve_action 10 ''acc_1'' ''act_2'' 1 demo = Inr demo_approved"
  unfolding demo_approved_def by (rule ok_res) code_simp

lemma demo_mark_done: "mark_action_done demo_rnd 20 ''acc_1'' ''act_2'' 2 demo_approved = Inr demo_done"
  unfolding demo_done_def by (rule ok_res) code_simp

lemma demo_rows:
  "pk_actions demo" "pk_actions demo_approved" "find_action demo ''act_2'' = Some (demo_row demo ''act_2'')"
  "ac_status (demo_row demo ''act_2'') = PENDING"
  "find_action demo_done ''act_2'' = Some (demo_row demo_done ''act_2'')"
  "ac_status (demo_row demo_done ''act_2'') = DONE" "ac_approve_needed (demo_row demo_done ''act_2'')"
  "ac_type (demo_row demo_done ''act_2'') \<noteq> CONFIRMATION"
  by code_simp+

end
