(* ===== verification/Utf8.thy ===== *)
theory Utf8
  imports Prelude
begin

text \<open>
  Decoding of uploaded text: \<open>bytes.decode("utf-8-sig")\<close> as \<open>app/services/expense_csv_parser.py\<close> and
  the record parser use it. Bytes are integers from 0 to 255, text is a list of code points. The decoder
  is the strict one: overlong forms, surrogates and code points beyond U+10FFFF are errors.
\<close>

section \<open>A code of symbols into words\<close>

text \<open>
  A decoder that reads one symbol's word from the front of any input reads a whole text back, and
  different texts have different words.
\<close>

locale symbol_code =
  fixes enc :: "'a \<Rightarrow> 'b list"
    and dec :: "'b list \<Rightarrow> 'a list option"
    and valid :: "'a \<Rightarrow> bool"
  assumes dec_Nil: "dec [] = Some []"
    and dec_enc: "valid a \<Longrightarrow> dec (enc a @ r) = map_option ((#) a) (dec r)"
begin

lemma text_round_trip: "\<forall>a \<in> set s. valid a \<Longrightarrow> dec (concat (map enc s)) = Some s"
  by (induction s) (simp_all add: dec_Nil dec_enc)

lemma text_injective:
  assumes "\<forall>a \<in> set s. valid a" and "\<forall>a \<in> set t. valid a" and "concat (map enc s) = concat (map enc t)"
  shows "s = t"
  proof -
  have "Some s = dec (concat (map enc t))" unfolding assms(3) [symmetric] by (rule text_round_trip [OF assms(1), symmetric])
  also have "\<dots> = Some t" by (rule text_round_trip [OF assms(2)])
  finally show ?thesis by simp
qed

end

section \<open>The decoder\<close>

definition continuation :: "int \<Rightarrow> bool" where
  "continuation b \<longleftrightarrow> 128 \<le> b \<and> b < 192"

fun utf8_decode :: "int list \<Rightarrow> pystr option" where
  "utf8_decode [] = Some []"
| "utf8_decode (a # r) =
     (if 0 \<le> a \<and> a < 128 then map_option ((#) a) (utf8_decode r)
      else if 194 \<le> a \<and> a < 224 then
        (case r of
           b # r' \<Rightarrow>
             if continuation b then map_option ((#) ((a - 192) * 64 + (b - 128))) (utf8_decode r') else None
         | _ \<Rightarrow> None)
      else if 224 \<le> a \<and> a < 240 then
        (case r of
           b # c # r' \<Rightarrow>
             if continuation b \<and> continuation c \<and> (a = 224 \<longrightarrow> 160 \<le> b) \<and> (a = 237 \<longrightarrow> b < 160)
             then map_option ((#) ((a - 224) * 4096 + (b - 128) * 64 + (c - 128))) (utf8_decode r') else None
         | _ \<Rightarrow> None)
      else if 240 \<le> a \<and> a < 245 then
        (case r of
           b # c # e # r' \<Rightarrow>
             if continuation b \<and> continuation c \<and> continuation e \<and> (a = 240 \<longrightarrow> 144 \<le> b) \<and> (a = 244 \<longrightarrow> b < 144)
             then map_option ((#) ((a - 240) * 262144 + (b - 128) * 4096 + (c - 128) * 64 + (e - 128))) (utf8_decode r')
             else None
         | _ \<Rightarrow> None)
      else None)"

text \<open>\<open>utf-8-sig\<close>: a byte order mark at the beginning is skipped.\<close>

definition utf8_sig_decode :: "int list \<Rightarrow> pystr option" where
  "utf8_sig_decode bs = (if take 3 bs = [239, 187, 191] then utf8_decode (drop 3 bs) else utf8_decode bs)"

section \<open>Round trip\<close>

text \<open>The encoding of one code point, and the code points that have one.\<close>

definition utf8_char :: "int \<Rightarrow> int list" where
  "utf8_char c =
     (if c < 128 then [c]
      else if c < 2048 then [192 + c div 64, 128 + c mod 64]
      else if c < 65536 then [224 + c div 4096, 128 + c div 64 mod 64, 128 + c mod 64]
      else [240 + c div 262144, 128 + c div 4096 mod 64, 128 + c div 64 mod 64, 128 + c mod 64])"

definition scalar :: "int \<Rightarrow> bool" where
  "scalar c \<longleftrightarrow> 0 \<le> c \<and> c < 1114112 \<and> \<not> (55296 \<le> c \<and> c < 57344)"

definition utf8_encode :: "pystr \<Rightarrow> int list" where
  "utf8_encode s = concat (map utf8_char s)"

lemma continuation_mod [simp]: "continuation (128 + c mod 64)"
  by (simp add: continuation_def)

lemma digits64:
  fixes c :: int
  shows "c div 4096 = c div 64 div 64" "c div 262144 = c div 64 div 64 div 64"
  by (simp_all add: zdiv_zmult2_eq [symmetric])

lemma utf8_decode_char:
  assumes "scalar c"
  shows "utf8_decode (utf8_char c @ r) = map_option ((#) c) (utf8_decode r)"
proof -
  define p q t u v w where "p = c div 64" and "q = c mod 64" and "t = p div 64" and "u = p mod 64"
    and "v = t div 64" and "w = t mod 64"
  note parts = p_def q_def t_def u_def v_def w_def
  have c: "c = p * 64 + q" "p = t * 64 + u" "t = v * 64 + w" unfolding parts by simp_all
  have b: "0 \<le> q" "q < 64" "0 \<le> u" "u < 64" "0 \<le> w" "w < 64" unfolding parts by simp_all
  have e: "c div 4096 = t" "c div 262144 = v" "c div 64 = p" "c mod 64 = q" "p mod 64 = u" "t mod 64 = w"
    unfolding parts by (simp_all add: digits64)
  have cont: "continuation (128 + q)" "continuation (128 + u)" "continuation (128 + w)"
    using b by (simp_all add: continuation_def)
  have s: "0 \<le> c" "c < 1114112" "\<not> (55296 \<le> c \<and> c < 57344)" using assms by (simp_all add: scalar_def)
  consider "c < 128" | "128 \<le> c" "c < 2048" | "2048 \<le> c" "c < 65536" | "65536 \<le> c" by linarith
  then show ?thesis
  proof cases
    case 1
    with s show ?thesis by (simp add: utf8_char_def)
  next
    case 2
    have "2 \<le> p" "p < 32" using c b 2 by linarith+
    moreover have "utf8_char c = [192 + p, 128 + q]" using 2 by (simp add: utf8_char_def e)
    ultimately show ?thesis using cont by (simp add: c(1))
  next
    case 3
    have "0 \<le> t" "t < 16" using c b 3 by linarith+
    moreover have "t = 0 \<longrightarrow> 32 \<le> u" using c b 3 by linarith
    moreover have "t = 13 \<longrightarrow> u < 32" using c b s(3) by linarith
    moreover have "utf8_char c = [224 + t, 128 + u, 128 + q]" using 3 by (simp add: utf8_char_def e)
    moreover have "t * 4096 + u * 64 + q = c" using c by simp
    ultimately show ?thesis using cont by simp
  next
    case 4
    have "0 \<le> v" "v < 5" using c b 4 s by linarith+
    moreover have "v = 0 \<longrightarrow> 16 \<le> w" using c b 4 by linarith
    moreover have "v = 4 \<longrightarrow> w < 16" using c b s(2) by linarith
    moreover have "utf8_char c = [240 + v, 128 + w, 128 + u, 128 + q]" using 4 by (simp add: utf8_char_def e)
    moreover have "v * 262144 + w * 4096 + u * 64 + q = c" using c by simp
    ultimately show ?thesis using cont by simp
  qed
qed

interpretation utf8: symbol_code utf8_char utf8_decode scalar
  by unfold_locales (simp_all add: utf8_decode_char)

lemma utf8_round_trip: "\<forall>c \<in> set s. scalar c \<Longrightarrow> utf8_decode (utf8_encode s) = Some s"
  unfolding utf8_encode_def by (rule utf8.text_round_trip)

lemma utf8_sig_round_trip:
  assumes "\<forall>c \<in> set s. scalar c"
  shows "utf8_sig_decode ([239, 187, 191] @ utf8_encode s) = Some s"
    and "s = [] \<or> hd s \<noteq> 65279 \<Longrightarrow> utf8_sig_decode (utf8_encode s) = Some s"
proof -
  show "utf8_sig_decode ([239, 187, 191] @ utf8_encode s) = Some s"
    using utf8_round_trip [OF assms] by (simp add: utf8_sig_decode_def)
  assume hd: "s = [] \<or> hd s \<noteq> 65279"
  have "take 3 (utf8_encode s) \<noteq> [239, 187, 191]"
  proof
    assume "take 3 (utf8_encode s) = [239, 187, 191]"
    then have "utf8_encode s = [239, 187, 191] @ drop 3 (utf8_encode s)"
      by (metis append_take_drop_id)
    then have "utf8_decode (utf8_encode s) = utf8_decode ([239, 187, 191] @ drop 3 (utf8_encode s))"
      by (rule arg_cong)
    also have "\<dots> = map_option ((#) 65279) (utf8_decode (drop 3 (utf8_encode s)))"
      by (simp add: continuation_def)
    finally have "Some s = map_option ((#) 65279) (utf8_decode (drop 3 (utf8_encode s)))"
      unfolding utf8_round_trip [OF assms] .
    then show False using hd by (cases "utf8_decode (drop 3 (utf8_encode s))") auto
  qed
  then show "utf8_sig_decode (utf8_encode s) = Some s"
    using utf8_round_trip [OF assms] by (simp add: utf8_sig_decode_def)
qed

end
