(* ===== verification/Csv_Reader.thy ===== *)
theory Csv_Reader
  imports Prelude
begin

text \<open>
  The part of Python's \<open>csv\<close> module that \<open>app/services/expense_csv_parser.py\<close> uses: the reader of the
  \<open>excel\<close> dialect (delimiter comma, quote character doubled inside quotes, not strict) as the state
  machine of the interpreter, over the lines of an \<open>io.StringIO\<close>, and \<open>DictReader\<close>.
\<close>

section \<open>Lines\<close>

text \<open>Iterating a \<open>StringIO\<close> gives the lines with their line feed; nothing else ends a line.\<close>

fun str_lines :: "pystr \<Rightarrow> pystr list" where
  "str_lines [] = []"
| "str_lines (c # s) =
     (if c = 10 then [10] # str_lines s
      else case str_lines s of [] \<Rightarrow> [[c]] | l # ls \<Rightarrow> (c # l) # ls)"

section \<open>The reader\<close>

datatype parser_state = START_RECORD | START_FIELD | IN_FIELD | IN_QUOTED_FIELD | QUOTE_IN_QUOTED_FIELD | EAT_CRNL

record parser =
  ps_state :: parser_state
  ps_field :: pystr
  ps_field_len :: int
  ps_fields :: "pystr list"

text \<open>\<open>csv.Error\<close>: a line break inside an unquoted field, or a field over the size limit.\<close>

datatype csv_error = Newline_In_Unquoted_Field | Field_Limit

definition FIELD_LIMIT :: int where
  "FIELD_LIMIT = 131072"

definition parse_reset :: parser where
  "parse_reset = \<lparr>ps_state = START_RECORD, ps_field = [], ps_field_len = 0, ps_fields = []\<rparr>"

definition save_field :: "parser \<Rightarrow> parser" where
  "save_field p = p\<lparr>ps_fields := ps_fields p @ [ps_field p], ps_field := [], ps_field_len := 0\<rparr>"

definition add_char :: "int \<Rightarrow> parser \<Rightarrow> csv_error + parser" where
  "add_char c p =
     (if FIELD_LIMIT \<le> ps_field_len p then Inl Field_Limit
      else Inr (p\<lparr>ps_field := ps_field p @ [c], ps_field_len := ps_field_len p + 1\<rparr>))"

definition newline :: "int \<Rightarrow> bool" where
  "newline c \<longleftrightarrow> c = 10 \<or> c = 13"

text \<open>The end of a field at a line break, and at the end of the line.\<close>

definition start_field :: "int \<Rightarrow> parser \<Rightarrow> csv_error + parser" where
  "start_field c p =
     (if newline c then Inr ((save_field p)\<lparr>ps_state := EAT_CRNL\<rparr>)
      else if c = 34 then Inr (p\<lparr>ps_state := IN_QUOTED_FIELD\<rparr>)
      else if c = 44 then Inr ((save_field p)\<lparr>ps_state := START_FIELD\<rparr>)
      else and_then (add_char c p) (\<lambda>p. Inr (p\<lparr>ps_state := IN_FIELD\<rparr>)))"

definition process_char :: "int \<Rightarrow> parser \<Rightarrow> csv_error + parser" where
  "process_char c p =
     (case ps_state p of
        START_RECORD \<Rightarrow> if newline c then Inr (p\<lparr>ps_state := EAT_CRNL\<rparr>) else start_field c p
      | START_FIELD \<Rightarrow> start_field c p
      | IN_FIELD \<Rightarrow>
          if newline c then Inr ((save_field p)\<lparr>ps_state := EAT_CRNL\<rparr>)
          else if c = 44 then Inr ((save_field p)\<lparr>ps_state := START_FIELD\<rparr>)
          else add_char c p
      | IN_QUOTED_FIELD \<Rightarrow> if c = 34 then Inr (p\<lparr>ps_state := QUOTE_IN_QUOTED_FIELD\<rparr>) else add_char c p
      | QUOTE_IN_QUOTED_FIELD \<Rightarrow>
          if c = 34 then and_then (add_char c p) (\<lambda>p. Inr (p\<lparr>ps_state := IN_QUOTED_FIELD\<rparr>))
          else if c = 44 then Inr ((save_field p)\<lparr>ps_state := START_FIELD\<rparr>)
          else if newline c then Inr ((save_field p)\<lparr>ps_state := EAT_CRNL\<rparr>)
          else and_then (add_char c p) (\<lambda>p. Inr (p\<lparr>ps_state := IN_FIELD\<rparr>))
      | EAT_CRNL \<Rightarrow> if newline c then Inr p else Inl Newline_In_Unquoted_Field)"

definition process_eol :: "parser \<Rightarrow> parser" where
  "process_eol p =
     (case ps_state p of
        START_RECORD \<Rightarrow> p
      | IN_QUOTED_FIELD \<Rightarrow> p
      | EAT_CRNL \<Rightarrow> p\<lparr>ps_state := START_RECORD\<rparr>
      | _ \<Rightarrow> (save_field p)\<lparr>ps_state := START_RECORD\<rparr>)"

fun process_line :: "pystr \<Rightarrow> parser \<Rightarrow> csv_error + parser" where
  "process_line [] p = Inr (process_eol p)"
| "process_line (c # s) p = and_then (process_char c p) (process_line s)"

text \<open>
  \<open>next(reader)\<close>: lines are taken until a record is complete; \<open>None\<close> is \<open>StopIteration\<close>. An open quote at
  the end of the input closes the record.
\<close>

fun next_record :: "parser \<Rightarrow> pystr list \<Rightarrow> csv_error + (pystr list \<times> pystr list) option" where
  "next_record p [] =
     Inr (if ps_field_len p \<noteq> 0 \<or> ps_state p = IN_QUOTED_FIELD
          then Some (ps_fields (save_field p), []) else None)"
| "next_record p (l # ls) =
     and_then (process_line l p) (\<lambda>p'.
       if ps_state p' = START_RECORD then Inr (Some (ps_fields p', ls)) else next_record p' ls)"

lemma next_record_shorter:
  "next_record p ls = Inr (Some (row, rest)) \<Longrightarrow> length rest \<le> length ls - 1"
proof (induction p ls rule: next_record.induct)
  case (2 p l ls)
  then obtain p' where p': "process_line l p = Inr p'"
    and r: "(if ps_state p' = START_RECORD then Inr (Some (ps_fields p', ls)) else next_record p' ls) = Inr (Some (row, rest))"
    by (auto simp: and_then_eq_Inr)
  show ?case
  proof (cases "ps_state p' = START_RECORD")
    case False
    with 2(1) r have "length rest \<le> length ls - 1" by simp
    then show ?thesis by simp
  qed (use r in simp)
qed (simp split: if_splits)

text \<open>All records up to the end.\<close>

function read_records :: "pystr list \<Rightarrow> csv_error + pystr list list" where
  "read_records ls =
     (case next_record parse_reset ls of
        Inl e \<Rightarrow> Inl e
      | Inr None \<Rightarrow> Inr []
      | Inr (Some (row, rest)) \<Rightarrow> and_then (read_records rest) (\<lambda>rows. Inr (row # rows)))"
  by pat_completeness auto
termination
proof (relation "measure length")
  fix ls row rest and a :: "(pystr list \<times> pystr list) option" and b
  assume "next_record parse_reset ls = Inr a" "a = Some b" "(row, rest) = b"
  then show "(rest, ls) \<in> measure length"
    using next_record_shorter [of parse_reset ls row rest]
    by (cases ls) (auto simp: parse_reset_def)
qed simp

declare read_records.simps [simp del]

section \<open>DictReader\<close>

text \<open>
  \<open>dict(zip(fieldnames, row))\<close>, the surplus of a long row under the key \<open>None\<close> (which the caller drops, so
  it is left out here), the missing fields of a short row as \<open>None\<close>. Later duplicates of a name win and
  keep the position of the first.
\<close>

definition dict_row :: "pystr list \<Rightarrow> pystr list \<Rightarrow> (pystr \<times> pystr option) list" where
  "dict_row names row =
     dict_merge (dict_merge [] (zip names (map Some row)))
                (map (\<lambda>n. (n, None)) (drop (length row) names))"

text \<open>The reader skips empty records.\<close>

definition dict_rows :: "pystr list \<Rightarrow> pystr list \<Rightarrow> csv_error + (pystr \<times> pystr option) list list" where
  "dict_rows names ls = and_then (read_records ls) (\<lambda>rows. Inr (map (dict_row names) (filter (\<lambda>r. r \<noteq> []) rows)))"
section \<open>Reading what was written\<close>

text \<open>
  A table as the module's writer prints it with every field quoted: quotes doubled, fields separated by
  commas, records ended by carriage return and line feed.
\<close>

definition csv_escape :: "pystr \<Rightarrow> pystr" where
  "csv_escape f = concat (map (\<lambda>c. if c = 34 then [34, 34] else [c]) f)"

fun csv_row :: "pystr list \<Rightarrow> pystr" where
  "csv_row [] = [13, 10]"
| "csv_row [f] = 34 # csv_escape f @ [34, 13, 10]"
| "csv_row (f # g # fs) = 34 # csv_escape f @ [34, 44] @ csv_row (g # fs)"

definition csv_text :: "pystr list list \<Rightarrow> pystr" where
  "csv_text rows = concat (map csv_row rows)"

lemma str_lines_Nil_iff [simp]: "str_lines s = [] \<longleftrightarrow> s = []"
  by (cases s) (auto split: list.splits)

text \<open>The reader inside a line: one character further.\<close>

lemma next_record_char:
  assumes "c \<noteq> 10" and "s \<noteq> []"
  shows "next_record p (str_lines (c # s)) = and_then (process_char c p) (\<lambda>p'. next_record p' (str_lines s))"
proof -
  obtain l ls where "str_lines s = l # ls" using assms(2) by (cases "str_lines s") auto
  then show ?thesis using assms(1) by (cases "process_char c p") auto
qed

lemma next_record_newline:
  "next_record p (str_lines (10 # s)) =
     and_then (process_char 10 p) (\<lambda>p'.
       if ps_state (process_eol p') = START_RECORD then Inr (Some (ps_fields (process_eol p'), str_lines s))
       else next_record (process_eol p') (str_lines s))"
  by (cases "process_char 10 p") auto

text \<open>Inside quotes every other character is data, line breaks included.\<close>

lemma next_record_quoted_char:
  assumes "ps_state p = IN_QUOTED_FIELD" and "c \<noteq> 34" and "ps_field_len p < FIELD_LIMIT" and "s \<noteq> []"
  shows "next_record p (str_lines (c # s)) =
    next_record (p\<lparr>ps_field := ps_field p @ [c], ps_field_len := ps_field_len p + 1\<rparr>) (str_lines s)"
  using assms
  by (cases "c = 10")
    (simp_all add: next_record_char next_record_newline process_char_def add_char_def process_eol_def del: str_lines.simps)

lemma next_record_doubled_quote:
  assumes "ps_state p = IN_QUOTED_FIELD" and "ps_field_len p < FIELD_LIMIT" and "s \<noteq> []"
  shows "next_record p (str_lines (34 # 34 # s)) =
    next_record (p\<lparr>ps_field := ps_field p @ [34], ps_field_len := ps_field_len p + 1\<rparr>) (str_lines s)"
  using assms by (cases p) (simp add: next_record_char process_char_def add_char_def del: str_lines.simps)

lemma next_record_escaped:
  assumes "ps_state p = IN_QUOTED_FIELD" and "ps_field_len p + int (length f) \<le> FIELD_LIMIT" and "s \<noteq> []"
  shows "next_record p (str_lines (csv_escape f @ s)) =
    next_record (p\<lparr>ps_field := ps_field p @ f, ps_field_len := ps_field_len p + int (length f)\<rparr>) (str_lines s)"
  using assms
proof (induction f arbitrary: p)
  case Nil
  then show ?case by (simp add: csv_escape_def)
next
  case (Cons c f)
  let ?p = "p\<lparr>ps_field := ps_field p @ [c], ps_field_len := ps_field_len p + 1\<rparr>"
  have lim: "ps_field_len p < FIELD_LIMIT" and nil: "csv_escape f @ s \<noteq> []" using Cons.prems by simp_all
  have "next_record p (str_lines (csv_escape (c # f) @ s)) = next_record ?p (str_lines (csv_escape f @ s))"
    using next_record_doubled_quote [OF Cons.prems(1) lim nil]
      next_record_quoted_char [OF Cons.prems(1) _ lim nil, of c]
    by (cases "c = 34") (simp_all add: csv_escape_def del: str_lines.simps)
  also have "\<dots> = next_record (p\<lparr>ps_field := ps_field p @ c # f, ps_field_len := ps_field_len p + int (length (c # f))\<rparr>)
      (str_lines s)"
    using Cons.IH [of ?p] Cons.prems by (simp add: algebra_simps del: str_lines.simps)
  finally show ?case .
qed

definition clean :: "parser \<Rightarrow> bool" where
  "clean p \<longleftrightarrow> ps_state p \<in> {START_RECORD, START_FIELD} \<and> ps_field p = [] \<and> ps_field_len p = 0"

lemma next_record_field:
  assumes "clean p" and "int (length f) \<le> FIELD_LIMIT" and "s \<noteq> []"
  shows "next_record p (str_lines (34 # csv_escape f @ s)) =
    next_record (p\<lparr>ps_state := IN_QUOTED_FIELD, ps_field := f, ps_field_len := int (length f)\<rparr>) (str_lines s)"
proof -
  have "process_char 34 p = Inr (p\<lparr>ps_state := IN_QUOTED_FIELD\<rparr>)"
    using assms(1) by (auto simp: clean_def process_char_def start_field_def newline_def)
  then show ?thesis
    using assms next_record_escaped [of "p\<lparr>ps_state := IN_QUOTED_FIELD\<rparr>" f s]
    by (simp add: next_record_char clean_def del: str_lines.simps)
qed

lemma next_record_row:
  assumes "clean p" and "fs \<noteq> []" and "\<forall>f \<in> set fs. int (length f) \<le> FIELD_LIMIT"
  shows "next_record p (str_lines (csv_row fs @ s)) = Inr (Some (ps_fields p @ fs, str_lines s))"
  using assms
proof (induction fs arbitrary: p rule: csv_row.induct)
  case (2 f)
  have "next_record p (str_lines (csv_row [f] @ s)) = next_record
      (p\<lparr>ps_state := IN_QUOTED_FIELD, ps_field := f, ps_field_len := int (length f)\<rparr>) (str_lines (34 # 13 # 10 # s))"
    using next_record_field [of p f "34 # 13 # 10 # s"] 2 by (simp del: str_lines.simps)
  then show ?case
    by (simp add: next_record_char next_record_newline process_char_def newline_def
        save_field_def process_eol_def del: str_lines.simps)
next
  case (3 f g fs)
  let ?p = "p\<lparr>ps_state := START_FIELD, ps_fields := ps_fields p @ [f]\<rparr>"
  have q: "p\<lparr>ps_fields := ps_fields p @ [f], ps_field := [], ps_field_len := 0, ps_state := START_FIELD\<rparr> = ?p"
    using 3(2) by (cases p) (simp add: clean_def)
  have "clean ?p" using 3(2) by (simp add: clean_def)
  moreover have "csv_row (g # fs) \<noteq> []" by (cases fs) simp_all
  moreover have "next_record p (str_lines (csv_row (f # g # fs) @ s)) = next_record
      (p\<lparr>ps_state := IN_QUOTED_FIELD, ps_field := f, ps_field_len := int (length f)\<rparr>)
      (str_lines (34 # 44 # csv_row (g # fs) @ s))"
    using next_record_field [of p f "34 # 44 # csv_row (g # fs) @ s"] 3(2,4) by (simp del: str_lines.simps)
  ultimately show ?case
    using 3(1) [of ?p] 3(4) by (simp add: next_record_char process_char_def save_field_def q del: str_lines.simps csv_row.simps)
qed simp

text \<open>Every table of non-empty records with fields within the limit is read back as it was written.\<close>

lemma csv_round_trip:
  assumes "\<forall>row \<in> set rows. row \<noteq> [] \<and> (\<forall>f \<in> set row. int (length f) \<le> FIELD_LIMIT)"
  shows "read_records (str_lines (csv_text rows)) = Inr rows"
  using assms
proof (induction rows)
  case Nil
  show ?case by (simp add: csv_text_def read_records.simps parse_reset_def)
next
  case (Cons row rows)
  have "clean parse_reset" by (simp add: clean_def parse_reset_def)
  then have "next_record parse_reset (str_lines (csv_row row @ csv_text rows)) = Inr (Some (row, str_lines (csv_text rows)))"
    using next_record_row [of parse_reset row "csv_text rows"] Cons.prems by (simp add: parse_reset_def)
  then show ?case
    using Cons by (simp add: csv_text_def read_records.simps [of "str_lines (csv_row row @ concat (map csv_row rows))"])
qed

end
