(* ===== verification/Expense_Csv.thy ===== *)
theory Expense_Csv
  imports Utf8 Csv_Reader Calendar
begin

text \<open>
  The expense file parser, \<open>app/services/expense_csv_parser.py\<close>. What Python reads from the Unicode
  database is a parameter: lower casing of a string and the value of a decimal digit (\<open>str.lower\<close>,
  \<open>unicodedata.decimal\<close>); the theorems use only their documented behaviour on ASCII.
\<close>

record unicode =
  lower :: "pystr \<Rightarrow> pystr"
  decimal :: "int \<Rightarrow> int option"

definition ascii_lower :: "pystr \<Rightarrow> pystr" where
  "ascii_lower s = map (\<lambda>c. if 65 \<le> c \<and> c \<le> 90 then c + 32 else c) s"

text \<open>\<open>ascii_decimal\<close> is the restriction of the digit values to ASCII.\<close>

definition ascii_decimal :: "int \<Rightarrow> int option" where
  "ascii_decimal c = (if 48 \<le> c \<and> c \<le> 57 then Some (c - 48) else None)"

definition conservative :: "unicode \<Rightarrow> bool" where
  "conservative u \<longleftrightarrow>
     (\<forall>s. (\<forall>c \<in> set s. 0 \<le> c \<and> c < 128) \<longrightarrow> lower u s = ascii_lower s) \<and>
     (\<forall>c. 0 \<le> c \<and> c < 128 \<longrightarrow> decimal u c = ascii_decimal c)"

section \<open>int()\<close>

text \<open>
  \<open>int(text)\<close>: surrounding whitespace, a sign, decimal digits with single underscores between them, at
  most 4300 digits. \<open>ds\<close> tells that the previous character was a digit.
\<close>

fun int_digits :: "unicode \<Rightarrow> bool \<Rightarrow> int \<Rightarrow> int \<Rightarrow> pystr \<Rightarrow> int option" where
  "int_digits u ds n acc [] = (if ds \<and> n \<le> 4300 then Some acc else None)"
| "int_digits u ds n acc (c # s) =
     (if c = 95 then (if ds then int_digits u False n acc s else None)
      else case decimal u c of
             None \<Rightarrow> None
           | Some v \<Rightarrow> int_digits u True (n + 1) (10 * acc + v) s)"

definition py_int :: "unicode \<Rightarrow> pystr \<Rightarrow> int option" where
  "py_int u text =
     (case py_strip text of
        [] \<Rightarrow> None
      | c # s \<Rightarrow>
          if c = 45 then map_option uminus (int_digits u False 0 0 s)
          else if c = 43 then int_digits u False 0 0 s
          else int_digits u False 0 0 (c # s))"

section \<open>strptime\<close>

text \<open>
  The directives as the patterns of the standard library match them, each with its value and the rest.
  A separator follows every directive, so the first alternative that matches is the only one that can.
\<close>

definition in_range :: "int \<Rightarrow> int \<Rightarrow> int \<Rightarrow> bool" where
  "in_range a b c \<longleftrightarrow> a \<le> c \<and> c \<le> b"

fun pat_Y :: "unicode \<Rightarrow> pystr \<Rightarrow> (int \<times> pystr) option" where
  "pat_Y u (a # b # c # e # s) =
     (case (decimal u a, decimal u b, decimal u c, decimal u e) of
        (Some a', Some b', Some c', Some e') \<Rightarrow> Some (((a' * 10 + b') * 10 + c') * 10 + e', s)
      | _ \<Rightarrow> None)"
| "pat_Y u _ = None"

text \<open>\<open>1[0-2]|0[1-9]|[1-9]\<close>\<close>

fun pat_m :: "pystr \<Rightarrow> (int \<times> pystr) option" where
  "pat_m (a # b # s) =
     (if a = 49 \<and> in_range 48 50 b then Some (10 + (b - 48), s)
      else if a = 48 \<and> in_range 49 57 b then Some (b - 48, s)
      else if in_range 49 57 a then Some (a - 48, b # s) else None)"
| "pat_m [a] = (if in_range 49 57 a then Some (a - 48, []) else None)"
| "pat_m [] = None"

text \<open>\<open>3[0-1]|[1-2]\d|0[1-9]|[1-9]| [1-9]\<close>\<close>

fun pat_d :: "unicode \<Rightarrow> pystr \<Rightarrow> (int \<times> pystr) option" where
  "pat_d u (a # b # s) =
     (if a = 51 \<and> in_range 48 49 b then Some (30 + (b - 48), s)
      else if in_range 49 50 a \<and> decimal u b \<noteq> None then Some ((a - 48) * 10 + the (decimal u b), s)
      else if a = 48 \<and> in_range 49 57 b then Some (b - 48, s)
      else if in_range 49 57 a then Some (a - 48, b # s)
      else if a = 32 \<and> in_range 49 57 b then Some (b - 48, s) else None)"
| "pat_d u [a] = (if in_range 49 57 a then Some (a - 48, []) else None)"
| "pat_d u [] = None"

text \<open>
  \<open>2[0-3]|[0-1]\d|\d\<close> for the hours, \<open>[0-5]\d|\d\<close> for the minutes and \<open>6[0-1]|[0-5]\d|\d\<close> for the
  seconds: a two-digit form whose first digit is at most \<open>hi\<close>, the one with the first digit \<open>tp\<close> up to
  \<open>lst\<close>, or one digit.
\<close>

fun pat_time :: "unicode \<Rightarrow> int \<Rightarrow> int \<Rightarrow> int \<Rightarrow> pystr \<Rightarrow> (int \<times> pystr) option" where
  "pat_time u hi tp lst (a # b # s) =
     (if a = tp \<and> in_range 48 lst b then Some ((a - 48) * 10 + (b - 48), s)
      else if in_range 48 hi a \<and> decimal u b \<noteq> None then Some ((a - 48) * 10 + the (decimal u b), s)
      else map_option (\<lambda>v. (v, b # s)) (decimal u a))"
| "pat_time u hi tp lst [a] = map_option (\<lambda>v. (v, [])) (decimal u a)"
| "pat_time u hi tp lst [] = None"

definition pat_H :: "unicode \<Rightarrow> pystr \<Rightarrow> (int \<times> pystr) option" where
  "pat_H u = pat_time u 49 50 51"

definition pat_M :: "unicode \<Rightarrow> pystr \<Rightarrow> (int \<times> pystr) option" where
  "pat_M u = pat_time u 53 54 47"

definition pat_S :: "unicode \<Rightarrow> pystr \<Rightarrow> (int \<times> pystr) option" where
  "pat_S u = pat_time u 53 54 49"

text \<open>A literal character of the format.\<close>

fun pat_char :: "int list \<Rightarrow> pystr \<Rightarrow> pystr option" where
  "pat_char cs (c # s) = (if c \<in> set cs then Some s else None)"
| "pat_char cs [] = None"

text \<open>A blank in the format matches any amount of whitespace, at least one.\<close>

definition pat_blank :: "pystr \<Rightarrow> pystr option" where
  "pat_blank s = (case s of c # t \<Rightarrow> if py_space c then Some (dropWhile py_space t) else None | [] \<Rightarrow> None)"

definition strp_date :: "unicode \<Rightarrow> pystr \<Rightarrow> ((int \<times> int \<times> int) \<times> pystr) option" where
  "strp_date u s0 =
     Option.bind (pat_Y u s0) (\<lambda>(y, s1).
     Option.bind (pat_char [45] s1) (\<lambda>s2.
     Option.bind (pat_m s2) (\<lambda>(m, s3).
     Option.bind (pat_char [45] s3) (\<lambda>s4.
     Option.bind (pat_d u s4) (\<lambda>(dd, s5). Some ((y, m, dd), s5))))))"

definition strp_time :: "unicode \<Rightarrow> pystr \<Rightarrow> ((int \<times> int \<times> int) \<times> pystr) option" where
  "strp_time u s0 =
     Option.bind (pat_H u s0) (\<lambda>(h, s1).
     Option.bind (pat_char [58] s1) (\<lambda>s2.
     Option.bind (pat_M u s2) (\<lambda>(mi, s3).
     Option.bind (pat_char [58] s3) (\<lambda>s4.
     Option.bind (pat_S u s4) (\<lambda>(sec, s5). Some ((h, mi, sec), s5))))))"

text \<open>The value, when the whole text is consumed and the date and the time exist.\<close>

definition strp_value :: "(int \<times> int \<times> int) \<Rightarrow> (int \<times> int \<times> int) \<Rightarrow> pystr \<Rightarrow> instant option" where
  "strp_value ymd hms rest =
     (case (ymd, hms) of ((y, m, dd), (h, mi, sec)) \<Rightarrow>
        if rest = [] \<and> valid_ymd y m dd \<and> h < 24 \<and> mi < 60 \<and> sec < 60
        then Some (utc_instant (ymd2ord y m dd) h mi sec) else None)"

text \<open>The three formats: a date, and a date and a time with \<open>T\<close> (in any case) or a blank between them.\<close>

definition strptime1 :: "unicode \<Rightarrow> pystr \<Rightarrow> instant option" where
  "strptime1 u s = Option.bind (strp_date u s) (\<lambda>(ymd, rest). strp_value ymd (0, 0, 0) rest)"

definition strptime2 :: "unicode \<Rightarrow> (pystr \<Rightarrow> pystr option) \<Rightarrow> pystr \<Rightarrow> instant option" where
  "strptime2 u sep s =
     Option.bind (strp_date u s) (\<lambda>(ymd, s1).
     Option.bind (sep s1) (\<lambda>s2.
     Option.bind (strp_time u s2) (\<lambda>(hms, rest). strp_value ymd hms rest)))"

text \<open>\<open>_parse_date\<close>\<close>

definition parse_date :: "unicode \<Rightarrow> pystr \<Rightarrow> instant option" where
  "parse_date u raw =
     (let s = py_strip raw in
      case strptime1 u s of
        Some t \<Rightarrow> Some t
      | None \<Rightarrow>
        (case strptime2 u (pat_char [84, 116]) s of
           Some t \<Rightarrow> Some t
         | None \<Rightarrow> strptime2 u pat_blank s))"

section \<open>The parser\<close>

record parsed_row =
  pw_row_no :: int
  pw_spent_at :: "instant option"
  pw_merchant :: "pystr option"
  pw_amount :: "int option"
  pw_description :: "pystr option"
  pw_category :: "pystr option"
  pw_raw_fields :: "(pystr \<times> pystr) list"
  pw_validation_errors :: "string list"

text \<open>\<open>CsvFormatError\<close> with its causes, and the \<open>csv.Error\<close> of the reader.\<close>

datatype csv_failure = Not_Utf8 | No_Header | Missing_Columns "string list" | Reader_Error csv_error

definition REQUIRED_COLUMNS :: "string list" where
  "REQUIRED_COLUMNS = [''amount'', ''date'']"

definition normalized :: "unicode \<Rightarrow> (pystr \<times> pystr option) list \<Rightarrow> (pystr \<times> pystr) list" where
  "normalized u row =
     dict_merge [] (map (\<lambda>(k, v). (lower u (py_strip k), py_strip (case v of None \<Rightarrow> [] | Some s \<Rightarrow> s)))
                        (filter (\<lambda>(k, v). k \<noteq> []) row))"

definition get_or_empty :: "(pystr \<times> pystr) list \<Rightarrow> string \<Rightarrow> pystr" where
  "get_or_empty n k = (case map_of n (lit k) of None \<Rightarrow> [] | Some v \<Rightarrow> v)"

definition or_none :: "pystr \<Rightarrow> pystr option" where
  "or_none s = (if s = [] then None else Some s)"

definition parse_row :: "unicode \<Rightarrow> int \<Rightarrow> (pystr \<times> pystr option) list \<Rightarrow> parsed_row" where
  "parse_row u no raw =
     (let n = normalized u raw;
          spent_at = parse_date u (get_or_empty n ''date'');
          amount = py_int u (filter (\<lambda>c. c \<noteq> 44) (get_or_empty n ''amount''))
      in \<lparr>pw_row_no = no, pw_spent_at = spent_at, pw_merchant = or_none (get_or_empty n ''merchant''),
          pw_amount = amount, pw_description = or_none (get_or_empty n ''description''),
          pw_category = or_none (get_or_empty n ''category''), pw_raw_fields = n,
          pw_validation_errors =
            (if spent_at = None then [''spent_at''] else []) @ (if amount = None then [''amount''] else [])\<rparr>)"

definition missing_columns :: "unicode \<Rightarrow> pystr list \<Rightarrow> string list" where
  "missing_columns u names =
     filter (\<lambda>k. lit k \<notin> set (map (\<lambda>n. lower u (py_strip n)) names)) REQUIRED_COLUMNS"

definition parse_expense_csv :: "unicode \<Rightarrow> int list \<Rightarrow> csv_failure + parsed_row list" where
  "parse_expense_csv u content =
     (case utf8_sig_decode content of
        None \<Rightarrow> Inl Not_Utf8
      | Some text \<Rightarrow>
        (case next_record parse_reset (str_lines text) of
           Inl e \<Rightarrow> Inl (Reader_Error e)
         | Inr None \<Rightarrow> Inl No_Header
         | Inr (Some (names, rest)) \<Rightarrow>
             if missing_columns u names \<noteq> [] then Inl (Missing_Columns (missing_columns u names))
             else (case dict_rows names rest of
                     Inl e \<Rightarrow> Inl (Reader_Error e)
                   | Inr rows \<Rightarrow> Inr (map (\<lambda>(i, row). parse_row u (1 + int i) row) (enumerate 0 rows)))))"

end
