(* ===== verification/Expense_Export.thy ===== *)
theory Expense_Export
  imports Expense_Csv
begin

text \<open>
  The expense file parser reads back what a ledger export would contain: every entry with a date that
  exists, an amount and trimmed texts comes back as one row without errors, through the UTF-8 decoder,
  the CSV reader, the date and the number parser.
\<close>

section \<open>Reading an exported ledger\<close>

text \<open>The lexical facts: stripping, digits, dates.\<close>

lemma py_strip_id:
  assumes "s \<noteq> []" and "\<not> py_space (hd s)" and "\<not> py_space (last s)"
  shows "py_strip s = s"
proof -
  have "dropWhile py_space s = s" using assms(1,2) by (cases s) simp_all
  moreover have "dropWhile py_space (rev s) = rev s" using assms(1,3) by (cases "rev s") (auto simp: hd_rev)
  ultimately show ?thesis by (simp add: py_strip_def)
qed

definition numeric :: "int \<Rightarrow> bool" where
  "numeric c \<longleftrightarrow> c = 45 \<or> 48 \<le> c \<and> c \<le> 57"

lemma numeric_strip:
  assumes "s \<noteq> []" and "\<forall>c \<in> set s. numeric c"
  shows "py_strip s = s"
proof -
  have "\<not> py_space c" if "numeric c" for c using that by (auto simp: numeric_def py_space_def)
  then show ?thesis using assms by (intro py_strip_id) simp_all
qed

lemma numeric_scalar: "numeric c \<Longrightarrow> scalar c"
  by (auto simp: numeric_def scalar_def)

lemma decimal_digit: "conservative u \<Longrightarrow> 48 \<le> c \<Longrightarrow> c \<le> 57 \<Longrightarrow> decimal u c = Some (c - 48)"
  by (simp add: conservative_def ascii_decimal_def)

lemma int_digits_value:
  assumes "conservative u" and "\<forall>c \<in> set ds. 48 \<le> c \<and> c \<le> 57" and "n + int (length ds) \<le> 4300" and "b \<or> ds \<noteq> []"
  shows "int_digits u b n acc ds = Some (fold (\<lambda>c acc. 10 * acc + (c - 48)) ds acc)"
  using assms(2-4)
proof (induction ds arbitrary: b n acc)
  case (Cons c ds)
  then have "decimal u c = Some (c - 48)" using decimal_digit [OF assms(1)] by simp
  with Cons show ?case by auto
qed simp

lemma py_int_text:
  assumes "conservative u" and "\<bar>n\<bar> < 10000000000"
  shows "py_int u (int_text n) = Some n"
proof -
  define ds where "ds = nat_digits (nat \<bar>n\<bar>)"
  have "nat \<bar>n\<bar> < 10 ^ 10" using assms(2) by (simp add: nat_less_iff)
  then have "length ds \<le> 10" unfolding ds_def by (intro nat_digits_length) simp_all
  then have len: "int (length ds) \<le> 4300" by simp
  have rng: "\<forall>c \<in> set ds. 48 \<le> c \<and> c \<le> 57" unfolding ds_def using nat_digits_range by blast
  have nil: "ds \<noteq> []" by (simp add: ds_def)
  have val: "fold (\<lambda>c acc. 10 * acc + (c - 48)) ds 0 = \<bar>n\<bar>"
    using digits_value_nat_digits [of "nat \<bar>n\<bar>"] by (simp add: ds_def digits_value_def)
  have read: "int_digits u False 0 0 ds = Some \<bar>n\<bar>"
    using int_digits_value [OF assms(1) rng, of 0 False 0] len nil val by simp
  show ?thesis
  proof (cases "n < 0")
    case True
    then have t: "int_text n = 45 # ds" by (simp add: int_text_def ds_def)
    have "py_strip (45 # ds) = 45 # ds" using rng by (intro numeric_strip) (auto simp: numeric_def)
    then show ?thesis using True read by (simp add: py_int_def t)
  next
    case False
    then have t: "int_text n = ds" by (simp add: int_text_def ds_def)
    obtain c s where cs: "ds = c # s" using nil by (cases ds) auto
    have "c \<noteq> 45" "c \<noteq> 43" using rng cs by auto
    moreover have "py_strip ds = ds" using rng nil by (intro numeric_strip) (auto simp: numeric_def)
    ultimately show ?thesis
      using False read by (simp add: py_int_def t cs del: int_digits.simps)
  qed
qed

lemma two_digits:
  assumes "0 \<le> n" and "n < 100"
  obtains a b where "pad 2 n = [a, b]" and "(a - 48) * 10 + (b - 48) = n"
    and "48 \<le> a" and "a \<le> 57" and "48 \<le> b" and "b \<le> 57"
proof -
  note p = pad_digits [of n 2]
  have "length (pad 2 n) = Suc (Suc 0)" using p(1) assms by simp
  then obtain a b where ab: "pad 2 n = [a, b]" by (auto simp: length_Suc_conv)
  with p(2,3) assms that show ?thesis by (simp add: digits_value_def)
qed

lemma pat_m_pad:
  assumes "1 \<le> m" and "m \<le> 12"
  shows "pat_m (pad 2 m @ s) = Some (m, s)"
proof -
  obtain a b where ab: "pad 2 m = [a, b]" "(a - 48) * 10 + (b - 48) = m" "48 \<le> a" "a \<le> 57" "48 \<le> b" "b \<le> 57"
    using two_digits [of m] assms by auto
  show ?thesis
  proof (cases "a = 48")
    case False
    then have "a = 49" using ab(2-6) assms by presburger
    with ab assms show ?thesis by (simp add: in_range_def)
  qed (use ab assms in \<open>simp add: in_range_def\<close>)
qed

lemma pat_d_pad:
  assumes "conservative u" and "1 \<le> dd" and "dd \<le> 31"
  shows "pat_d u (pad 2 dd @ s) = Some (dd, s)"
proof -
  obtain a b where ab: "pad 2 dd = [a, b]" "(a - 48) * 10 + (b - 48) = dd" "48 \<le> a" "a \<le> 57" "48 \<le> b" "b \<le> 57"
    using two_digits [of dd] assms by auto
  have dec: "decimal u b = Some (b - 48)" using decimal_digit [OF assms(1)] ab by simp
  have "a = 48 \<or> a = 49 \<or> a = 50 \<or> a = 51" using ab(2-6) assms(2,3) by presburger
  then show ?thesis
    using ab assms dec by (elim disjE) (auto simp: in_range_def)
qed

lemma pat_Y_pad:
  assumes "conservative u" and "1 \<le> y" and "y \<le> 9999"
  shows "pat_Y u (pad 4 y @ s) = Some (y, s)"
proof -
  note p = pad_digits [of y 4]
  have "length (pad 4 y) = Suc (Suc (Suc (Suc 0)))" using p(1) assms by simp
  then obtain a b c e where ab: "pad 4 y = [a, b, c, e]" by (auto simp: length_Suc_conv)
  have "decimal u x = Some (x - 48)" if "x \<in> {a, b, c, e}" for x
    using decimal_digit [OF assms(1), of x] p(3) assms ab that by auto
  with p(2) assms ab show ?thesis by (simp add: digits_value_def)
qed

lemma month_length_bound: "1 \<le> m \<Longrightarrow> m \<le> 12 \<Longrightarrow> month_length y m \<le> 31"
proof -
  assume "1 \<le> m" "m \<le> 12"
  then have "m \<in> {1, 2, 3, 4, 5, 6, 7, 8, 9, 10, 11, 12}" unfolding insert_iff empty_iff by presburger
  then show ?thesis by (auto simp: month_length_def days_in_month_def)
qed

definition date_text :: "int \<Rightarrow> int \<Rightarrow> int \<Rightarrow> pystr" where
  "date_text y m dd = pad 4 y @ [45] @ pad 2 m @ [45] @ pad 2 dd"

lemma valid_ymd_bounds:
  "valid_ymd y m dd \<Longrightarrow> 1 \<le> y \<and> y \<le> 9999 \<and> 1 \<le> m \<and> m \<le> 12 \<and> 1 \<le> dd \<and> dd \<le> 31"
  using month_length_bound [of m y] by (auto simp: valid_ymd_def)

lemma date_text_chars:
  assumes "valid_ymd y m dd"
  shows "\<forall>c \<in> set (date_text y m dd). numeric c" and "length (date_text y m dd) = 10"
  using valid_ymd_bounds [OF assms] pad_digits [of y 4] pad_digits [of m 2] pad_digits [of dd 2]
  by (auto simp: date_text_def numeric_def)

lemma date_text_strip: "valid_ymd y m dd \<Longrightarrow> py_strip (date_text y m dd) = date_text y m dd"
  using date_text_chars by (intro numeric_strip) (auto simp: date_text_def)

lemma parse_date_text:
  assumes "conservative u" and "valid_ymd y m dd"
  shows "parse_date u (date_text y m dd) = Some (utc_instant (ymd2ord y m dd) 0 0 0)"
proof -
  have "strp_date u (date_text y m dd) = Some ((y, m, dd), [])"
    using valid_ymd_bounds [OF assms(2)] pat_d_pad [OF assms(1), of dd "[]"]
    by (simp add: strp_date_def date_text_def pat_Y_pad [OF assms(1)] pat_m_pad)
  then have "strptime1 u (date_text y m dd) = Some (utc_instant (ymd2ord y m dd) 0 0 0)"
    using assms(2) by (simp add: strptime1_def strp_value_def)
  then show ?thesis by (simp add: parse_date_def date_text_strip [OF assms(2)])
qed

lemma int_text_chars: "\<forall>c \<in> set (int_text n). numeric c"
  by (auto simp: int_text_def numeric_def dest: nat_digits_range)

lemma int_text_strip: "py_strip (int_text n) = int_text n"
  using int_text_chars by (intro numeric_strip) (auto simp: int_text_def)

lemma int_text_length: "\<bar>n\<bar> < 10000000000 \<Longrightarrow> length (int_text n) \<le> 11"
proof -
  assume "\<bar>n\<bar> < 10000000000"
  then have "nat \<bar>n\<bar> < 10 ^ 10" by (simp add: nat_less_iff)
  then have "length (nat_digits (nat \<bar>n\<bar>)) \<le> 10" by (intro nat_digits_length) simp_all
  then show ?thesis by (auto simp: int_text_def abs_if split: if_splits)
qed

text \<open>
  A ledger exported as a CSV file: the five columns, one record per entry, every field quoted. The
  entries are those a database can hold and a reader cannot confuse: an existing date, an amount of
  the column's range, texts without surrounding whitespace.
\<close>

record csv_entry =
  ce_year :: int
  ce_month :: int
  ce_day :: int
  ce_amount :: int
  ce_merchant :: pystr
  ce_description :: pystr
  ce_category :: pystr

definition export_header :: "pystr list" where
  "export_header = [lit ''date'', lit ''amount'', lit ''merchant'', lit ''description'', lit ''category'']"

definition entry_fields :: "csv_entry \<Rightarrow> pystr list" where
  "entry_fields e =
     [date_text (ce_year e) (ce_month e) (ce_day e), int_text (ce_amount e), ce_merchant e, ce_description e, ce_category e]"

definition export_csv :: "csv_entry list \<Rightarrow> int list" where
  "export_csv es = utf8_encode (csv_text (export_header # map entry_fields es))"

definition exportable :: "csv_entry \<Rightarrow> bool" where
  "exportable e \<longleftrightarrow> valid_ymd (ce_year e) (ce_month e) (ce_day e) \<and> \<bar>ce_amount e\<bar> < 10000000000 \<and>
     list_all (\<lambda>s. py_strip s = s \<and> int (length s) \<le> FIELD_LIMIT \<and> list_all scalar s)
       [ce_merchant e, ce_description e, ce_category e]"

definition imported :: "int \<Rightarrow> csv_entry \<Rightarrow> parsed_row" where
  "imported no e =
     \<lparr>pw_row_no = no, pw_spent_at = Some (utc_instant (ymd2ord (ce_year e) (ce_month e) (ce_day e)) 0 0 0),
      pw_merchant = or_none (ce_merchant e), pw_amount = Some (ce_amount e),
      pw_description = or_none (ce_description e), pw_category = or_none (ce_category e),
      pw_raw_fields = zip export_header (entry_fields e), pw_validation_errors = []\<rparr>"

lemma header_facts:
  "distinct export_header" "\<forall>n \<in> set export_header. py_strip n = n \<and> n \<noteq> [] \<and> (\<forall>c \<in> set n. 0 \<le> c \<and> c < 128)"
  "\<forall>n \<in> set export_header. ascii_lower n = n \<and> int (length n) \<le> FIELD_LIMIT \<and> list_all scalar n"
  by code_simp+

lemma lower_header: "conservative u \<Longrightarrow> n \<in> set export_header \<Longrightarrow> lower u n = n"
  using header_facts(2,3) by (simp add: conservative_def)

lemma header_complete: "conservative u \<Longrightarrow> missing_columns u export_header = []"
proof -
  assume u: "conservative u"
  have "map (\<lambda>n. lower u (py_strip n)) export_header = export_header"
    using header_facts(2) lower_header [OF u] by (simp add: map_idI)
  moreover have "lit ''amount'' \<in> set export_header" "lit ''date'' \<in> set export_header" by code_simp+
  ultimately show ?thesis by (simp add: missing_columns_def REQUIRED_COLUMNS_def)
qed

lemma entry_fields_facts:
  assumes "exportable e" and "f \<in> set (entry_fields e)"
  shows "py_strip f = f" and "int (length f) \<le> FIELD_LIMIT" and "\<forall>c \<in> set f. scalar c"
proof -
  have e: "valid_ymd (ce_year e) (ce_month e) (ce_day e)" "\<bar>ce_amount e\<bar> < 10000000000"
    using assms(1) by (simp_all add: exportable_def)
  show "py_strip f = f"
    using assms date_text_strip [OF e(1)] int_text_strip by (auto simp: entry_fields_def exportable_def)
  show "int (length f) \<le> FIELD_LIMIT"
    using assms int_text_length [OF e(2)] date_text_chars(2) [OF e(1)]
    by (auto simp: entry_fields_def exportable_def FIELD_LIMIT_def)
  show "\<forall>c \<in> set f. scalar c"
    using assms numeric_scalar int_text_chars date_text_chars(1) [OF e(1)]
    by (auto simp: entry_fields_def exportable_def list_all_iff)
qed

text \<open>One record: the dictionary of the reader, its normal form, the parsed row.\<close>

lemma normalized_record:
  assumes "conservative u" and "length fs = length export_header" and "\<forall>f \<in> set fs. py_strip f = f"
  shows "normalized u (dict_row export_header fs) = zip export_header fs"
proof -
  let ?h = export_header
  have keys: "\<forall>n \<in> set ?h. lower u (py_strip n) = n" using header_facts(2) lower_header [OF assms(1)] by simp
  have fst: "map fst (zip ?h (map Some fs)) = ?h" "map fst (zip ?h fs) = ?h" using assms(2) by simp_all
  have "dict_row ?h fs = zip ?h (map Some fs)"
    using assms(2) header_facts(1) dict_merge_distinct [of "[]" "zip ?h (map Some fs)"] fst
    by (simp add: dict_row_def dict_merge_def)
  moreover have "filter (\<lambda>(k, v). k \<noteq> []) (zip ?h (map Some fs)) = zip ?h (map Some fs)"
    using header_facts(2) by (intro filter_True) (auto dest: set_zip_leftD)
  ultimately have "normalized u (dict_row ?h fs) =
      dict_merge [] (map (\<lambda>(k, v). (lower u (py_strip k), py_strip (case v of None \<Rightarrow> [] | Some s \<Rightarrow> s))) (zip ?h (map Some fs)))"
    unfolding normalized_def by simp
  also have "map (\<lambda>(k, v). (lower u (py_strip k), py_strip (case v of None \<Rightarrow> [] | Some s \<Rightarrow> s))) (zip ?h (map Some fs)) = zip ?h fs"
    using assms(2,3) keys by (intro nth_equalityI) simp_all
  also have "dict_merge [] (zip ?h fs) = zip ?h fs"
    using header_facts(1) dict_merge_distinct [of "[]" "zip ?h fs"] fst by simp
  finally show ?thesis .
qed

lemma header_keys:
  "map_of (zip export_header [a, b, c, e, f]) (lit ''date'') = Some a"
  "map_of (zip export_header [a, b, c, e, f]) (lit ''amount'') = Some b"
  "map_of (zip export_header [a, b, c, e, f]) (lit ''merchant'') = Some c"
  "map_of (zip export_header [a, b, c, e, f]) (lit ''description'') = Some e"
  "map_of (zip export_header [a, b, c, e, f]) (lit ''category'') = Some f"
  by (simp_all add: export_header_def lit_def)

lemma parse_row_entry:
  assumes "conservative u" and "exportable e"
  shows "parse_row u no (dict_row export_header (entry_fields e)) = imported no e"
proof -
  have n: "normalized u (dict_row export_header (entry_fields e)) = zip export_header (entry_fields e)"
    using entry_fields_facts(1) [OF assms(2)]
    by (intro normalized_record [OF assms(1)]) (simp_all add: entry_fields_def export_header_def)
  have "44 \<notin> set (int_text (ce_amount e))" using int_text_chars [of "ce_amount e"] by (fastforce simp: numeric_def)
  then have "filter (\<lambda>c. c \<noteq> 44) (int_text (ce_amount e)) = int_text (ce_amount e)"
    by (auto simp: filter_id_conv)
  moreover have "py_int u (int_text (ce_amount e)) = Some (ce_amount e)"
    using assms by (intro py_int_text) (simp_all add: exportable_def)
  moreover have "parse_date u (date_text (ce_year e) (ce_month e) (ce_day e)) =
      Some (utc_instant (ymd2ord (ce_year e) (ce_month e) (ce_day e)) 0 0 0)"
    using assms by (intro parse_date_text) (simp_all add: exportable_def)
  ultimately show ?thesis
    unfolding parse_row_def n Let_def by (simp add: get_or_empty_def entry_fields_def header_keys imported_def)
qed

lemma csv_escape_scalar: "\<forall>c \<in> set f. scalar c \<Longrightarrow> \<forall>c \<in> set (csv_escape f). scalar c"
  by (auto simp: csv_escape_def)

lemma separators_scalar: "scalar 34" "scalar 44" "scalar 13" "scalar 10"
  by (simp_all add: scalar_def)

lemma csv_row_scalar: "\<forall>f \<in> set fs. \<forall>c \<in> set f. scalar c \<Longrightarrow> \<forall>c \<in> set (csv_row fs). scalar c"
proof (induction fs rule: csv_row.induct)
  case (2 f)
  then show ?case using csv_escape_scalar [of f] by (simp add: separators_scalar ball_Un)
next
  case (3 f g fs)
  have "\<forall>c \<in> set (csv_escape f). scalar c" using 3(2) by (intro csv_escape_scalar) simp
  moreover have "\<forall>c \<in> set (csv_row (g # fs)). scalar c" using 3(2) by (intro 3(1)) simp
  ultimately show ?case unfolding csv_row.simps by (simp add: separators_scalar ball_Un del: csv_row.simps)
qed (simp add: separators_scalar)

lemma export_import:
  assumes "conservative u" and "\<forall>e \<in> set es. exportable e"
  shows "parse_expense_csv u (export_csv es) = Inr (map (\<lambda>(i, e). imported (1 + int i) e) (enumerate 0 es))"
proof -
  let ?rows = "map entry_fields es"
  let ?text = "csv_row export_header @ csv_text ?rows"
  have tx: "csv_text (export_header # ?rows) = ?text" by (simp add: csv_text_def)
  have rows_scalar: "\<forall>e \<in> set es. \<forall>c \<in> set (csv_row (entry_fields e)). scalar c"
    using csv_row_scalar entry_fields_facts(3) assms(2) by blast
  have "\<forall>c \<in> set ?text. scalar c"
    using csv_row_scalar [of export_header] rows_scalar header_facts(3) by (simp add: csv_text_def list_all_iff ball_Un)
  moreover have "hd ?text \<noteq> 65279" by (simp add: export_header_def)
  ultimately have dec: "utf8_sig_decode (export_csv es) = Some ?text"
    unfolding export_csv_def tx by (intro utf8_sig_round_trip(2)) blast+
  have "clean parse_reset" by (simp add: clean_def parse_reset_def)
  then have hdr: "next_record parse_reset (str_lines ?text) = Inr (Some (export_header, str_lines (csv_text ?rows)))"
    using next_record_row [of parse_reset export_header "csv_text ?rows"] header_facts(3)
    by (simp add: parse_reset_def) (simp add: export_header_def)
  have "read_records (str_lines (csv_text ?rows)) = Inr ?rows"
    using assms(2) entry_fields_facts(2) by (intro csv_round_trip) (auto simp: entry_fields_def)
  moreover have "filter (\<lambda>r. r \<noteq> []) ?rows = ?rows" by (simp add: filter_id_conv entry_fields_def)
  ultimately have "dict_rows export_header (str_lines (csv_text ?rows)) = Inr (map (\<lambda>e. dict_row export_header (entry_fields e)) es)"
    by (simp add: dict_rows_def comp_def)
  moreover have "map (\<lambda>(i, row). parse_row u (1 + int i) row) (enumerate 0 (map (\<lambda>e. dict_row export_header (entry_fields e)) es)) =
      map (\<lambda>(i, e). imported (1 + int i) e) (enumerate 0 es)"
    using assms parse_row_entry by (intro nth_equalityI) (simp_all add: nth_enumerate_eq)
  ultimately show ?thesis
    by (simp add: parse_expense_csv_def dec hdr header_complete [OF assms(1)])
qed

end
