(* ===== verification/Receipt_Import.thy ===== *)
theory Receipt_Import
  imports Accounting Access Agent_Jobs Expense_Csv
begin

text \<open>
  Importing expenses from a file, the receipt part of \<open>app/services/accounting_service.py\<close> with the
  routes of \<open>app/routers/accounting.py\<close>. A CSV file is parsed inside the request; an image is read by the
  AI between two transactions, under a job whose id tells whether a result is still wanted. The rows
  are drafts that people edit under the version of the import and confirm once into the ledger.
  Parameters: the key that \<open>save_file\<close> returned, the content \<open>read_file\<close> finds, what the AI call ended
  with, and the instant of midnight in Seoul (the time zone database). The user texts of an import's
  error are fixed and left out, its reason is kept.
\<close>

section \<open>Uploading\<close>

definition RECEIPT_MAX_BYTES :: int where
  "RECEIPT_MAX_BYTES = 10 * 1024 * 1024"

definition OCR_TIMEOUT :: int where
  "OCR_TIMEOUT = minutes 3"

definition starts_with :: "int list \<Rightarrow> int list \<Rightarrow> bool" where
  "starts_with p s \<longleftrightarrow> take (length p) s = p"

text \<open>\<open>_image_mime\<close>\<close>

definition image_mime :: "int list \<Rightarrow> api_error + string" where
  "image_mime content =
     (if starts_with [255, 216, 255] content then Inr ''image/jpeg''
      else if starts_with [137, 80, 78, 71, 13, 10, 26, 10] content then Inr ''image/png''
      else if starts_with [82, 73, 70, 70] content \<and> take 4 (drop 8 content) = [87, 69, 66, 80] then Inr ''image/webp''
      else Inl (ValidationFailed [''file'']))"

definition insert_receipt_import :: "receipt_import \<Rightarrow> db \<Rightarrow> api_error + db" where
  "insert_receipt_import r d =
     and_then (insert_row rim_id r (receipt_imports d)) (\<lambda>rows. Inr (d\<lparr>receipt_imports := rows\<rparr>))"

definition insert_record :: "record_row \<Rightarrow> db \<Rightarrow> api_error + db" where
  "insert_record r d = and_then (insert_row rc_id r (records d)) (\<lambda>rows. Inr (d\<lparr>records := rows\<rparr>))"

text \<open>
  Flushing a draft row: the widths of the columns, the unique pair of import and row number, and the
  primary key.
\<close>

definition insert_receipt_row :: "receipt_row \<Rightarrow> db \<Rightarrow> api_error + db" where
  "insert_receipt_row r d =
     (if \<not> (fits_int4 (rr_amount r) \<and> fits_varchar 200 (rr_merchant r) \<and> fits_varchar 50 (rr_category r))
      then Inl (Unhandled ''DBAPIError'')
      else if \<exists>x \<in> set (receipt_rows d). rr_import_id x = rr_import_id r \<and> rr_row_no x = rr_row_no r
      then Inl (Unhandled ''IntegrityError'')
      else and_then (insert_row rr_id r (receipt_rows d)) (\<lambda>rows. Inr (d\<lparr>receipt_rows := rows\<rparr>)))"

definition csv_receipt_row :: "rnd \<Rightarrow> ident \<Rightarrow> parsed_row \<Rightarrow> db \<Rightarrow> receipt_row" where
  "csv_receipt_row g import_id p d =
     \<lparr>rr_id = new_id g d ''rir'', rr_import_id = import_id, rr_row_no = pw_row_no p, rr_spent_at = pw_spent_at p,
      rr_merchant = pw_merchant p, rr_amount = pw_amount p, rr_currency = KRW, rr_category = pw_category p,
      rr_description = pw_description p, rr_raw_fields = Some (map (\<lambda>(k, v). (k, JStr v)) (pw_raw_fields p)),
      rr_draft_fields = None,
      rr_validation_errors = (if pw_validation_errors p = [] then None else Some (pw_validation_errors p)),
      rr_confirmed_expense_id = None\<rparr>"

fun insert_csv_rows :: "rnd \<Rightarrow> ident \<Rightarrow> parsed_row list \<Rightarrow> db \<Rightarrow> api_error + db" where
  "insert_csv_rows g import_id [] d = Inr d"
| "insert_csv_rows g import_id (p # ps) d =
     and_then (insert_receipt_row (csv_receipt_row g import_id p d) (drawn d)) (insert_csv_rows g import_id ps)"

text \<open>The checks of an upload, in order; the result is the detected type of an image.\<close>

definition check_upload ::
  "unicode \<Rightarrow> receipt_import_type \<Rightarrow> pystr \<Rightarrow> int list \<Rightarrow> pystr \<Rightarrow> api_error + string option" where
  "check_upload u t file_name content mime =
     (if t = RECEIPT_IMAGE \<and> (content = [] \<or> RECEIPT_MAX_BYTES < int (length content))
      then Inl (ValidationFailed [''file''])
      else if py_strip file_name = [] \<or> 255 < int (length file_name) then Inl (ValidationFailed [''file''])
      else if t = RECEIPT_IMAGE then
        and_then (image_mime content) (\<lambda>detected.
          if lower u mime \<noteq> lit detected then Inl (ValidationFailed [''file'']) else Inr (Some detected))
      else Inr None)"

text \<open>
  What an accepted upload or retry does next: it is finished, or the AI is asked about the image under
  a job.
\<close>

datatype import_reply = Finished ident | Ask_Ocr ident ident pystr string "int list"

text \<open>The record of the file and the import row, both flushed.\<close>

definition open_import ::
  "rnd \<Rightarrow> instant \<Rightarrow> pystr \<Rightarrow> ident \<Rightarrow> ident option \<Rightarrow> receipt_import_type \<Rightarrow> pystr \<Rightarrow> int list \<Rightarrow> ident \<Rightarrow> db
     \<Rightarrow> api_error + (receipt_import \<times> db)" where
  "open_import g now storage_key club eid t file_name content created_by d =
     (let rec = \<lparr>rc_id = new_id g d ''rec'', rc_club_id = club, rc_event_id = eid, rc_file_name = file_name,
                 rc_file_type = (if t = EXPENSE_CSV then File_CSV else File_IMAGE), rc_category = Record_RECEIPT,
                 rc_storage_key = storage_key, rc_size = length content, rc_parse_status = Parse_COMPLETED,
                 rc_parse_result = None, rc_parse_error = None, rc_index_error = None, rc_created_at = now\<rparr>
      in and_then (insert_record rec (drawn d)) (\<lambda>d1.
         let item = \<lparr>rim_id = new_id g d1 ''rim'', rim_club_id = club, rim_event_id = eid,
                     rim_record_id = Some (rc_id rec), rim_type = t, rim_status = Import_PROCESSING, rim_version = 1,
                     rim_job_id = None, rim_extraction_result = None, rim_error = None, rim_confirmed_by = None,
                     rim_confirmed_at = None, rim_created_by = created_by, rim_created_at = now\<rparr>
         in and_then (insert_receipt_import item (drawn d1)) (\<lambda>d2. Inr (item, d2))))"

text \<open>A new OCR job for the import, started.\<close>

definition open_ocr_job ::
  "rnd \<Rightarrow> instant \<Rightarrow> ident \<Rightarrow> receipt_import \<Rightarrow> db \<Rightarrow> api_error + (ident \<times> db)" where
  "open_ocr_job g now created_by item d =
     and_then (create_job g (rim_club_id item) Job_RECEIPT_OCR (Some created_by) d) (\<lambda>(j, d1).
       Inr (jb_id j,
            start now (Some Stage_OCR) j
              (put_receipt_import (item\<lparr>rim_job_id := Some (jb_id j), rim_status := Import_PROCESSING,
                                        rim_error := None\<rparr>) d1)))"

text \<open>The second half of an upload: the rows of a CSV file, or the job for an image.\<close>

definition process_import ::
  "rnd \<Rightarrow> unicode \<Rightarrow> instant \<Rightarrow> string option \<Rightarrow> pystr \<Rightarrow> int list \<Rightarrow> ident \<Rightarrow> receipt_import \<Rightarrow> db
     \<Rightarrow> api_error + (import_reply \<times> db)" where
  "process_import g u now detected file_name content created_by item d =
     (case detected of
        None \<Rightarrow>
          (case parse_expense_csv u content of
             Inl (Reader_Error e) \<Rightarrow> Inl (Unhandled ''csv.Error'')
           | Inl e \<Rightarrow>
               Inr (Finished (rim_id item),
                    put_receipt_import (item\<lparr>rim_status := Import_FAILED, rim_error := Some ''COLUMN_MISMATCH''\<rparr>) d)
           | Inr rows \<Rightarrow>
               and_then (insert_csv_rows g (rim_id item) rows d) (\<lambda>d1.
                 Inr (Finished (rim_id item), put_receipt_import (item\<lparr>rim_status := Import_NEEDS_REVIEW\<rparr>) d1)))
      | Some mime \<Rightarrow>
          and_then (open_ocr_job g now created_by item d) (\<lambda>(jid, d1).
            Inr (Ask_Ocr (rim_id item) jid file_name mime content, d1)))"

definition create_receipt_import ::
  "rnd \<Rightarrow> unicode \<Rightarrow> instant \<Rightarrow> pystr option \<Rightarrow> ident \<Rightarrow> ident option \<Rightarrow> receipt_import_type \<Rightarrow> pystr \<Rightarrow> int list
     \<Rightarrow> ident \<Rightarrow> pystr \<Rightarrow> db \<Rightarrow> api_error + (import_reply \<times> db)" where
  "create_receipt_import g u now saved club eid t file_name content created_by mime d =
     and_then (check_upload u t file_name content mime) (\<lambda>detected.
     case saved of
       None \<Rightarrow> Inl (Unhandled ''RuntimeError'')
     | Some storage_key \<Rightarrow>
         and_then (open_import g now storage_key club eid t file_name content created_by d) (\<lambda>(item, d1).
           process_import g u now detected file_name content created_by item d1))"

section \<open>Reading an image\<close>

text \<open>\<open>ExtractedReceiptRow\<close> of \<open>app/ai/contracts.py\<close>, the fields the AI read from an image.\<close>

record extracted_row =
  xr_spent_at :: "date option"
  xr_merchant :: "pystr option"
  xr_amount :: "int option"
  xr_category :: "pystr option"
  xr_description :: "pystr option"

definition json_text :: "pystr option \<Rightarrow> json" where
  "json_text v = (case v of None \<Rightarrow> JNull | Some s \<Rightarrow> JStr s)"

definition json_int :: "int option \<Rightarrow> json" where
  "json_int v = (case v of None \<Rightarrow> JNull | Some n \<Rightarrow> JInt n)"

text \<open>\<open>row.model_dump(mode="json")\<close>\<close>

definition extracted_json :: "extracted_row \<Rightarrow> dict" where
  "extracted_json x =
     [(''spent_at'', json_text (map_option iso_date (xr_spent_at x))), (''merchant'', json_text (xr_merchant x)),
      (''amount'', json_int (xr_amount x)), (''category'', json_text (xr_category x)),
      (''description'', json_text (xr_description x))]"

text \<open>The bounds of \<open>ExpenseRowDraftIn\<close>.\<close>

definition draft_bounds :: "extracted_row \<Rightarrow> bool" where
  "draft_bounds x \<longleftrightarrow> fits_varchar 200 (xr_merchant x) \<and> fits_int4 (xr_amount x) \<and> fits_varchar 50 (xr_category x)"

text \<open>What the call ended with, as the rows to store or the reason of the failure.\<close>

definition ocr_outcome :: "ai_exn + extracted_row list \<Rightarrow> string + extracted_row list" where
  "ocr_outcome r =
     (case r of
        Inl e \<Rightarrow>
          Inl (if e = AIConfigError then ''OCR_NOT_CONFIGURED''
               else if is_ai_error e then ''OCR_UNAVAILABLE''
               else if e = PydanticValidationError then ''OCR_INVALID_RESULT'' else ''OCR_UNAVAILABLE'')
      | Inr rows \<Rightarrow>
          if \<not> list_all draft_bounds rows then Inl ''OCR_INVALID_RESULT''
          else if rows = [] then Inl ''OCR_NO_READABLE_RECEIPT'' else Inr rows)"

definition ocr_receipt_row :: "rnd \<Rightarrow> (date \<Rightarrow> instant) \<Rightarrow> ident \<Rightarrow> int \<Rightarrow> extracted_row \<Rightarrow> db \<Rightarrow> receipt_row" where
  "ocr_receipt_row g midnight import_id no x d =
     \<lparr>rr_id = new_id g d ''rir'', rr_import_id = import_id, rr_row_no = no,
      rr_spent_at = map_option midnight (xr_spent_at x), rr_merchant = xr_merchant x, rr_amount = xr_amount x,
      rr_currency = KRW, rr_category = xr_category x, rr_description = xr_description x,
      rr_raw_fields = Some (map (\<lambda>(k, v). (lit k, v)) (extracted_json x)), rr_draft_fields = None,
      rr_validation_errors = None, rr_confirmed_expense_id = None\<rparr>"

fun insert_ocr_rows ::
  "rnd \<Rightarrow> (date \<Rightarrow> instant) \<Rightarrow> ident \<Rightarrow> int \<Rightarrow> extracted_row list \<Rightarrow> db \<Rightarrow> api_error + db" where
  "insert_ocr_rows g midnight import_id no [] d = Inr d"
| "insert_ocr_rows g midnight import_id no (x # xs) d =
     and_then (insert_receipt_row (ocr_receipt_row g midnight import_id no x d) (drawn d))
              (insert_ocr_rows g midnight import_id (no + 1) xs)"

text \<open>The import of the club, as the locking query finds it.\<close>

definition club_import :: "ident \<Rightarrow> ident \<Rightarrow> db \<Rightarrow> receipt_import option" where
  "club_import club import_id d =
     (case find_receipt_import d import_id of
        None \<Rightarrow> None
      | Some r \<Rightarrow> if rim_club_id r = club then Some r else None)"

text \<open>\<open>_run_receipt_ocr\<close> after the call.\<close>

definition run_receipt_ocr ::
  "rnd \<Rightarrow> instant \<Rightarrow> (date \<Rightarrow> instant) \<Rightarrow> ai_exn + extracted_row list \<Rightarrow> ident \<Rightarrow> ident \<Rightarrow> ident \<Rightarrow> db
     \<Rightarrow> api_error + db" where
  "run_receipt_ocr g now midnight answer club import_id jid d =
     (case club_import club import_id d of
        None \<Rightarrow> Inl ReceiptImportNotFound
      | Some item \<Rightarrow>
          if rim_job_id item \<noteq> Some jid \<or> rim_status item \<noteq> Import_PROCESSING then Inr d
          else (case find_agent_job d jid of
                  None \<Rightarrow> Inl (Unhandled ''AttributeError'')
                | Some j \<Rightarrow>
                    (case ocr_outcome answer of
                       Inl reason \<Rightarrow>
                         Inr (fail now [(''code'', JStr (lit reason))] j
                               (put_receipt_import (item\<lparr>rim_status := Import_FAILED, rim_error := Some reason\<rparr>) d))
                     | Inr rows \<Rightarrow>
                         and_then (insert_ocr_rows g midnight (rim_id item) 1 rows d) (\<lambda>d1.
                           Inr (succeed now [(''receiptImportId'', JStr (lit (rim_id item)))] j
                                 (put_receipt_import
                                   (item\<lparr>rim_extraction_result :=
                                           Some (JObj [(''rows'', JList (map (\<lambda>x. JObj (extracted_json x)) rows))]),
                                         rim_status := Import_NEEDS_REVIEW, rim_error := None\<rparr>) d1))))))"

text \<open>\<open>retry_receipt_import\<close>, up to its commit: the reply carries the name and the key of the stored file.\<close>

definition retry_begin ::
  "rnd \<Rightarrow> instant \<Rightarrow> ident \<Rightarrow> ident \<Rightarrow> ident \<Rightarrow> db \<Rightarrow> api_error + ((ident \<times> pystr \<times> pystr) \<times> db)" where
  "retry_begin g now club import_id created_by d =
     (case club_import club import_id d of
        None \<Rightarrow> Inl ReceiptImportNotFound
      | Some item \<Rightarrow>
          if rim_type item \<noteq> RECEIPT_IMAGE \<or> rim_record_id item = None then Inl ImportNotReady
          else and_then
            (if rim_status item = Import_PROCESSING then
               (case Option.bind (rim_job_id item) (find_agent_job d) of
                  None \<Rightarrow> Inl ImportNotReady
                | Some j \<Rightarrow>
                    (case jb_started_at j of
                       None \<Rightarrow> Inl ImportNotReady
                     | Some t \<Rightarrow>
                         if now - t < OCR_TIMEOUT then Inl ImportNotReady
                         else Inr (fail now [(''code'', JStr (lit ''OCR_TIMEOUT''))] j d)))
             else if rim_status item \<noteq> Import_FAILED then Inl ImportNotReady else Inr d)
            (\<lambda>d1. case Option.bind (rim_record_id item) (find_record d1) of
                    None \<Rightarrow> Inl ReceiptImportNotFound
                  | Some rec \<Rightarrow>
                      and_then (open_ocr_job g now created_by item d1) (\<lambda>(jid, d2).
                        Inr ((jid, rc_file_name rec, rc_storage_key rec), d2))))"

text \<open>
  The branch of \<open>retry_receipt_import\<close> for a file that cannot be read back or is no image. The session does
  not expire its objects on commit (\<open>expire_on_commit=False\<close>), so \<open>session.get\<close> returns the objects of
  the first transaction, the condition on them holds, and the update writes the changed columns into
  whatever the row holds by now.
\<close>

definition retry_source_failed :: "instant \<Rightarrow> ident \<Rightarrow> ident \<Rightarrow> db \<Rightarrow> db" where
  "retry_source_failed now import_id jid d =
     (case (find_receipt_import d import_id, find_agent_job d jid) of
        (Some item, Some j) \<Rightarrow>
          fail now [(''code'', JStr (lit ''OCR_SOURCE_UNAVAILABLE''))] j
            (put_receipt_import (item\<lparr>rim_status := Import_FAILED, rim_error := Some ''OCR_SOURCE_UNAVAILABLE''\<rparr>) d)
      | _ \<Rightarrow> d)"

definition retry_receipt_import ::
  "rnd \<Rightarrow> instant \<Rightarrow> (pystr \<Rightarrow> int list option) \<Rightarrow> ident \<Rightarrow> ident \<Rightarrow> ident \<Rightarrow> db \<Rightarrow> api_error + (import_reply \<times> db)" where
  "retry_receipt_import g now read_file club import_id created_by d =
     and_then (retry_begin g now club import_id created_by d) (\<lambda>((jid, file_name, storage_key), d1).
       case read_file storage_key of
         None \<Rightarrow> Inr (Finished import_id, retry_source_failed now import_id jid d1)
       | Some content \<Rightarrow>
           (case image_mime content of
              Inl e \<Rightarrow> Inr (Finished import_id, retry_source_failed now import_id jid d1)
            | Inr mime \<Rightarrow> Inr (Ask_Ocr import_id jid file_name mime content, d1)))"

section \<open>Reviewing and confirming\<close>

definition get_receipt_import :: "ident \<Rightarrow> ident \<Rightarrow> db \<Rightarrow> api_error + receipt_import" where
  "get_receipt_import club import_id d =
     (case find_receipt_import d import_id of
        None \<Rightarrow> Inl ReceiptImportNotFound
      | Some r \<Rightarrow> if rim_club_id r \<noteq> club then Inl ReceiptImportNotFound else Inr r)"

definition list_receipt_imports :: "ident \<Rightarrow> int \<Rightarrow> int \<Rightarrow> db \<Rightarrow> receipt_import list \<times> nat" where
  "list_receipt_imports club page sz d =
     (let rows = filter (\<lambda>r. rim_club_id r = club) (receipt_imports d)
      in (paginate page sz (sort_key (\<lambda>r. - rim_created_at r) rows), length rows))"

text \<open>The relationship \<open>rows\<close>, ordered by the row number.\<close>

definition import_rows :: "db \<Rightarrow> ident \<Rightarrow> receipt_row list" where
  "import_rows d import_id = sort_key rr_row_no (filter (\<lambda>r. rr_import_id r = import_id) (receipt_rows d))"

text \<open>
  \<open>ExpenseRowDraftIn\<close>; a date comes with its ISO text as it was sent.
\<close>

record row_edit =
  re_row_no :: "int option"
  re_spent_at :: "(instant \<times> pystr) option"
  re_merchant :: "pystr option"
  re_amount :: "int option"
  re_category :: "pystr option"
  re_description :: "pystr option"

definition submitted_fields :: "row_edit \<Rightarrow> dict" where
  "submitted_fields e =
     (case re_spent_at e of None \<Rightarrow> [] | Some (t, iso_text) \<Rightarrow> [(''spent_at'', JStr iso_text)]) @
     (case re_merchant e of None \<Rightarrow> [] | Some s \<Rightarrow> [(''merchant'', JStr s)]) @
     (case re_amount e of None \<Rightarrow> [] | Some n \<Rightarrow> [(''amount'', JInt n)]) @
     (case re_category e of None \<Rightarrow> [] | Some s \<Rightarrow> [(''category'', JStr s)]) @
     (case re_description e of None \<Rightarrow> [] | Some s \<Rightarrow> [(''description'', JStr s)])"

definition remaining_errors :: "row_edit \<Rightarrow> string list option \<Rightarrow> string list option" where
  "remaining_errors e errs =
     (let left = filter (\<lambda>f. f \<notin> fst ` set (submitted_fields e)) (case errs of None \<Rightarrow> [] | Some fs \<Rightarrow> fs)
      in if left = [] then None else Some left)"

definition edit_row :: "row_edit \<Rightarrow> receipt_row \<Rightarrow> receipt_row" where
  "edit_row e r =
     r\<lparr>rr_spent_at := (case re_spent_at e of None \<Rightarrow> rr_spent_at r | Some (t, iso_text) \<Rightarrow> Some t),
       rr_merchant := (case re_merchant e of None \<Rightarrow> rr_merchant r | Some s \<Rightarrow> Some s),
       rr_amount := (case re_amount e of None \<Rightarrow> rr_amount r | Some n \<Rightarrow> Some n),
       rr_category := (case re_category e of None \<Rightarrow> rr_category r | Some s \<Rightarrow> Some s),
       rr_description := (case re_description e of None \<Rightarrow> rr_description r | Some s \<Rightarrow> Some s),
       rr_draft_fields := Some (dict_merge (case rr_draft_fields r of None \<Rightarrow> [] | Some f \<Rightarrow> f) (submitted_fields e)),
       rr_validation_errors := remaining_errors e (rr_validation_errors r)\<rparr>"

text \<open>\<open>edit.row_no or position\<close>: zero and null both mean the position.\<close>

definition edit_target :: "int \<Rightarrow> row_edit \<Rightarrow> int" where
  "edit_target position e = (case re_row_no e of None \<Rightarrow> position | Some n \<Rightarrow> if n = 0 then position else n)"

fun apply_edits :: "ident \<Rightarrow> int \<Rightarrow> row_edit list \<Rightarrow> db \<Rightarrow> db" where
  "apply_edits import_id position [] d = d"
| "apply_edits import_id position (e # es) d =
     apply_edits import_id (position + 1) es
       (case find (\<lambda>r. rr_row_no r = edit_target position e) (import_rows d import_id) of
          None \<Rightarrow> d
        | Some r \<Rightarrow> put_receipt_row (edit_row e r) d)"

definition update_draft :: "row_edit list \<Rightarrow> ident \<Rightarrow> ident \<Rightarrow> int \<Rightarrow> db \<Rightarrow> api_error + db" where
  "update_draft edits club import_id expected d =
     (case club_import club import_id d of
        None \<Rightarrow> Inl ReceiptImportNotFound
      | Some item \<Rightarrow>
          if rim_version item \<noteq> expected then Inl VersionConflict
          else if rim_status item \<noteq> Import_NEEDS_REVIEW then Inl ImportNotReady
          else Inr (put_receipt_import (item\<lparr>rim_version := rim_version item + 1\<rparr>)
                      (apply_edits import_id 1 edits d)))"

definition blocking :: "receipt_row \<Rightarrow> bool" where
  "blocking r \<longleftrightarrow> (rr_validation_errors r \<noteq> None \<and> rr_validation_errors r \<noteq> Some []) \<or>
     rr_amount r = None \<or> rr_spent_at r = None"

definition row_expense :: "rnd \<Rightarrow> receipt_import \<Rightarrow> ident \<Rightarrow> receipt_row \<Rightarrow> db \<Rightarrow> expense" where
  "row_expense g item confirmed_by r d =
     \<lparr>ex_id = new_id g d ''exp'', ex_club_id = rim_club_id item, ex_event_id = rim_event_id item,
      ex_spent_at = the (rr_spent_at r), ex_merchant = rr_merchant r, ex_amount = the (rr_amount r),
      ex_currency = rr_currency r, ex_category = rr_category r, ex_description = rr_description r,
      ex_source = (if rim_type item = EXPENSE_CSV then Expense_CSV_IMPORT else Expense_OCR_IMPORT),
      ex_receipt_record_id = rim_record_id item, ex_action_id = None, ex_created_by = confirmed_by, ex_version = 1\<rparr>"

fun book_rows ::
  "rnd \<Rightarrow> receipt_import \<Rightarrow> ident \<Rightarrow> receipt_row list \<Rightarrow> db \<Rightarrow> api_error + (ident list \<times> db)" where
  "book_rows g item confirmed_by [] d = Inr ([], d)"
| "book_rows g item confirmed_by (r # rs) d =
     (let x = row_expense g item confirmed_by r d
      in and_then (insert_expense x (drawn d)) (\<lambda>d1.
         and_then (book_rows g item confirmed_by rs
                     (put_receipt_row (r\<lparr>rr_confirmed_expense_id := Some (ex_id x)\<rparr>) d1)) (\<lambda>(ids, d2).
           Inr (ex_id x # ids, d2))))"

text \<open>The keys \<open>rows[n]\<close> of the refusal.\<close>

definition row_key :: "int \<Rightarrow> string" where
  "row_key n = ''rows['' @ map char_of (int_text n) @ '']''"

definition confirm_receipt_import ::
  "rnd \<Rightarrow> instant \<Rightarrow> ident \<Rightarrow> ident \<Rightarrow> ident \<Rightarrow> int \<Rightarrow> db \<Rightarrow> api_error + (ident list \<times> db)" where
  "confirm_receipt_import g now club confirmed_by import_id expected d =
     (case club_import club import_id d of
        None \<Rightarrow> Inl ReceiptImportNotFound
      | Some item \<Rightarrow>
          if rim_version item \<noteq> expected then Inl VersionConflict
          else if rim_status item \<noteq> Import_NEEDS_REVIEW then Inl ImportNotReady
          else let rows = import_rows d import_id in
               if list_ex blocking rows
               then Inl (ValidationFailed (map (\<lambda>r. row_key (rr_row_no r)) (filter blocking rows)))
               else and_then (book_rows g item confirmed_by rows d) (\<lambda>(ids, d1).
                      Inr (ids, put_receipt_import
                                  (item\<lparr>rim_status := Import_CONFIRMED, rim_confirmed_by := Some confirmed_by,
                                        rim_confirmed_at := Some now\<rparr>) d1)))"

section \<open>The routes\<close>

text \<open>\<open>_import_out\<close>: the rows, the sum of the amounts that were read, and the errors of the rows.\<close>

record import_view =
  iv_import :: receipt_import
  iv_rows :: "receipt_row list"
  iv_total_amount :: int
  iv_errors :: "(int \<times> string) list"

definition import_out :: "db \<Rightarrow> receipt_import \<Rightarrow> import_view" where
  "import_out d item =
     (let rows = import_rows d (rim_id item)
      in \<lparr>iv_import = item, iv_rows = rows,
          iv_total_amount = sum_list (map (\<lambda>r. case rr_amount r of None \<Rightarrow> 0 | Some n \<Rightarrow> n) rows),
          iv_errors = concat (map (\<lambda>r. map (\<lambda>f. (rr_row_no r, f))
                        (case rr_validation_errors r of None \<Rightarrow> [] | Some fs \<Rightarrow> fs)) rows)\<rparr>)"

definition ledger_writer :: "ident \<Rightarrow> ident \<Rightarrow> db \<Rightarrow> api_error + member" where
  "ledger_writer club account d = require_club_role [OWNER, MANAGER] club account d"

definition create_expense_endpoint ::
  "rnd \<Rightarrow> ident \<Rightarrow> ident \<Rightarrow> ident option \<Rightarrow> instant \<Rightarrow> pystr option \<Rightarrow> int \<Rightarrow> currency_code \<Rightarrow> pystr option
     \<Rightarrow> pystr option \<Rightarrow> db \<Rightarrow> api_error + (expense \<times> db)" where
  "create_expense_endpoint g account club eid spent merchant amount currency category descr d =
     and_then (ledger_writer club account d) (\<lambda>m.
       create_expense g club eid spent merchant amount currency category descr (mb_id m) d)"

definition list_expenses_endpoint :: "ident \<Rightarrow> ident \<Rightarrow> int \<Rightarrow> int \<Rightarrow> db \<Rightarrow> api_error + (expense list \<times> nat)" where
  "list_expenses_endpoint account club page sz d =
     and_then (require_member club account d) (\<lambda>m. Inr (list_expenses club page sz d))"

definition get_expense_endpoint :: "ident \<Rightarrow> ident \<Rightarrow> ident \<Rightarrow> db \<Rightarrow> api_error + expense" where
  "get_expense_endpoint account club xid d =
     and_then (require_member club account d) (\<lambda>m. get_expense club xid d)"

definition update_expense_endpoint ::
  "expense_changes \<Rightarrow> ident \<Rightarrow> ident \<Rightarrow> ident \<Rightarrow> int \<Rightarrow> db \<Rightarrow> api_error + (expense \<times> db)" where
  "update_expense_endpoint c account club xid expected d =
     and_then (ledger_writer club account d) (\<lambda>m. update_expense c club xid expected d)"

definition delete_expense_endpoint :: "ident \<Rightarrow> ident \<Rightarrow> ident \<Rightarrow> db \<Rightarrow> api_error + db" where
  "delete_expense_endpoint account club xid d =
     and_then (ledger_writer club account d) (\<lambda>m. delete_expense club xid d)"

text \<open>A missing file name is \<open>upload\<close>; an image is read up to one byte over the limit.\<close>

definition create_receipt_import_endpoint ::
  "rnd \<Rightarrow> unicode \<Rightarrow> instant \<Rightarrow> pystr option \<Rightarrow> ident \<Rightarrow> ident \<Rightarrow> receipt_import_type \<Rightarrow> pystr \<Rightarrow> int list \<Rightarrow> pystr \<Rightarrow> db
     \<Rightarrow> api_error + (import_reply \<times> db)" where
  "create_receipt_import_endpoint g u now saved account club t file_name content mime d =
     and_then (ledger_writer club account d) (\<lambda>m.
       create_receipt_import g u now saved club None t (if file_name = [] then lit ''upload'' else file_name)
         (if t = RECEIPT_IMAGE then take (nat (RECEIPT_MAX_BYTES + 1)) content else content) (mb_id m) mime d)"

definition retry_receipt_import_endpoint ::
  "rnd \<Rightarrow> instant \<Rightarrow> (pystr \<Rightarrow> int list option) \<Rightarrow> ident \<Rightarrow> ident \<Rightarrow> ident \<Rightarrow> db \<Rightarrow> api_error + (import_reply \<times> db)" where
  "retry_receipt_import_endpoint g now read_file account club import_id d =
     and_then (ledger_writer club account d) (\<lambda>m. retry_receipt_import g now read_file club import_id (mb_id m) d)"

definition list_receipt_imports_endpoint ::
  "ident \<Rightarrow> ident \<Rightarrow> int \<Rightarrow> int \<Rightarrow> db \<Rightarrow> api_error + ((ident \<times> receipt_import_type \<times> receipt_import_status \<times> int) list \<times> nat)" where
  "list_receipt_imports_endpoint account club page sz d =
     and_then (require_member club account d) (\<lambda>m.
       let (rows, total) = list_receipt_imports club page sz d
       in Inr (map (\<lambda>r. (rim_id r, rim_type r, rim_status r, rim_version r)) rows, total))"

definition get_receipt_import_endpoint :: "ident \<Rightarrow> ident \<Rightarrow> ident \<Rightarrow> db \<Rightarrow> api_error + import_view" where
  "get_receipt_import_endpoint account club import_id d =
     and_then (require_member club account d) (\<lambda>m.
     and_then (get_receipt_import club import_id d) (\<lambda>r. Inr (import_out d r)))"

definition update_draft_endpoint ::
  "row_edit list \<Rightarrow> ident \<Rightarrow> ident \<Rightarrow> ident \<Rightarrow> int \<Rightarrow> db \<Rightarrow> api_error + db" where
  "update_draft_endpoint edits account club import_id expected d =
     and_then (ledger_writer club account d) (\<lambda>m. update_draft edits club import_id expected d)"

definition confirm_receipt_import_endpoint ::
  "rnd \<Rightarrow> instant \<Rightarrow> ident \<Rightarrow> ident \<Rightarrow> ident \<Rightarrow> int \<Rightarrow> db \<Rightarrow> api_error + (ident list \<times> db)" where
  "confirm_receipt_import_endpoint g now account club import_id expected d =
     and_then (ledger_writer club account d) (\<lambda>m. confirm_receipt_import g now club (mb_id m) import_id expected d)"

end
