(* ===== verification/Receipt_Protocol.thy ===== *)
theory Receipt_Protocol
  imports Receipt_Import
begin

text \<open>
  Imports between upload and ledger: whatever sequence of uploads, readings, retries, edits and
  confirmations a club goes through, the entries of the ledger that come from an import are its rows as
  they were confirmed, once each.
\<close>

section \<open>Steps\<close>

inductive import_step :: "db \<Rightarrow> db \<Rightarrow> bool" where
  Uploaded: "create_receipt_import g u now saved club eid t file_name content by' mime d = Inr (reply, d') \<Longrightarrow> import_step d d'"
| Was_Read: "run_receipt_ocr g now midnight answer club iid jid d = Inr d' \<Longrightarrow> import_step d d'"
| Retried: "retry_begin g now club iid by' d = Inr (reply, d') \<Longrightarrow> import_step d d'"
| Source_Failed: "import_step d (retry_source_failed now iid jid d)"
| Draft_Edited: "update_draft edits club iid v d = Inr d' \<Longrightarrow> import_step d d'"
| Confirmed: "confirm_receipt_import g now club by' iid v d = Inr (ids, d') \<Longrightarrow> import_step d d'"

text \<open>The entries that come from a file, and what an entry and a row say.\<close>

definition booked :: "db \<Rightarrow> ident \<Rightarrow> expense list" where
  "booked d rid = filter (\<lambda>x. ex_receipt_record_id x = Some rid) (expenses d)"

definition entry_of ::
  "expense \<Rightarrow> instant \<times> pystr option \<times> int \<times> currency_code \<times> pystr option \<times> pystr option \<times> ident option" where
  "entry_of x = (ex_spent_at x, ex_merchant x, ex_amount x, ex_currency x, ex_category x, ex_description x, Some (ex_id x))"

definition row_entry ::
  "receipt_row \<Rightarrow> instant \<times> pystr option \<times> int \<times> currency_code \<times> pystr option \<times> pystr option \<times> ident option" where
  "row_entry r = (the (rr_spent_at r), rr_merchant r, the (rr_amount r), rr_currency r, rr_category r, rr_description r,
     rr_confirmed_expense_id r)"

definition import_ok :: "db \<Rightarrow> receipt_import \<Rightarrow> bool" where
  "import_ok d item \<longleftrightarrow>
     (\<exists>rid. rim_record_id item = Some rid \<and> rid \<in> rc_id ` set (records d) \<and>
        (booked d rid \<noteq> [] \<longrightarrow> rim_status item \<noteq> Import_NEEDS_REVIEW \<and>
           map row_entry (import_rows d (rim_id item)) = map entry_of (booked d rid))) \<and>
     (import_rows d (rim_id item) \<noteq> [] \<longrightarrow> (\<exists>r \<in> set (import_rows d (rim_id item)). rr_row_no r = 1))"

definition tables_ok :: "db \<Rightarrow> bool" where
  "tables_ok d \<longleftrightarrow> distinct (map rim_id (receipt_imports d)) \<and> distinct (map rim_record_id (receipt_imports d)) \<and>
     distinct (map rr_id (receipt_rows d)) \<and>
     (\<forall>r \<in> set (receipt_rows d). rr_import_id r \<in> rim_id ` set (receipt_imports d)) \<and>
     (\<forall>x \<in> set (expenses d). \<forall>rid. ex_receipt_record_id x = Some rid \<longrightarrow> rid \<in> rc_id ` set (records d))"

definition imports_ok :: "db \<Rightarrow> bool" where
  "imports_ok d \<longleftrightarrow> tables_ok d \<and> (\<forall>item \<in> set (receipt_imports d). import_ok d item)"

section \<open>Rows of an import\<close>

lemma set_import_rows: "set (import_rows d iid) = {r \<in> set (receipt_rows d). rr_import_id r = iid}"
  by (simp add: import_rows_def)

lemma import_rows_cong: "receipt_rows d' = receipt_rows d \<Longrightarrow> import_rows d' iid = import_rows d iid"
  by (simp add: import_rows_def)

text \<open>A map over the table that keeps the owner and the number of every row.\<close>

lemma import_rows_map:
  assumes "receipt_rows d' = map h (receipt_rows d)" and "\<And>r. rr_import_id (h r) = rr_import_id r"
    and "\<And>r. rr_row_no (h r) = rr_row_no r"
  shows "import_rows d' iid = map h (import_rows d iid)"
proof -
  have "filter (\<lambda>r. rr_import_id r = iid) (map h (receipt_rows d)) = map h (filter (\<lambda>r. rr_import_id r = iid) (receipt_rows d))"
    using assms(2) by (simp add: filter_map comp_def)
  then show ?thesis unfolding import_rows_def assms(1) using sort_key_map [of _ rr_row_no h] assms(3) by simp
qed

lemma import_rows_append_other:
  assumes "receipt_rows d' = receipt_rows d @ new" and "\<forall>r \<in> set new. rr_import_id r \<noteq> iid"
  shows "import_rows d' iid = import_rows d iid"
proof -
  have "filter (\<lambda>r. rr_import_id r = iid) new = []" using assms(2) by (simp add: filter_empty_conv)
  then show ?thesis by (simp add: import_rows_def assms(1))
qed

section \<open>What the operations write\<close>

lemma fail_tables [simp]:
  "expenses (fail now err j d) = expenses d" "receipt_rows (fail now err j d) = receipt_rows d"
  "receipt_imports (fail now err j d) = receipt_imports d" "records (fail now err j d) = records d"
  by (simp_all add: job_defs)

lemma succeed_tables [simp]:
  "expenses (succeed now res j d) = expenses d" "receipt_rows (succeed now res j d) = receipt_rows d"
  "receipt_imports (succeed now res j d) = receipt_imports d" "records (succeed now res j d) = records d"
  by (simp_all add: job_defs)

lemma drawn_import_tables [simp]:
  "receipt_rows (drawn d) = receipt_rows d" "receipt_imports (drawn d) = receipt_imports d" "records (drawn d) = records d"
  by (simp_all add: drawn_def)

lemma put_receipt_import_tables [simp]:
  "expenses (put_receipt_import r d) = expenses d" "receipt_rows (put_receipt_import r d) = receipt_rows d"
  "receipt_imports (put_receipt_import r d) = put_row rim_id r (receipt_imports d)" "records (put_receipt_import r d) = records d"
  by (simp_all add: put_receipt_import_def)

lemma put_receipt_row_tables [simp]:
  "expenses (put_receipt_row r d) = expenses d" "receipt_rows (put_receipt_row r d) = put_row rr_id r (receipt_rows d)"
  "receipt_imports (put_receipt_row r d) = receipt_imports d" "records (put_receipt_row r d) = records d"
  by (simp_all add: put_receipt_row_def)

lemma insert_receipt_row_Inr:
  assumes "insert_receipt_row r d = Inr d'"
  shows "d' = d\<lparr>receipt_rows := receipt_rows d @ [r]\<rparr>" and "rr_id r \<notin> rr_id ` set (receipt_rows d)"
    and "\<forall>x \<in> set (receipt_rows d). \<not> (rr_import_id x = rr_import_id r \<and> rr_row_no x = rr_row_no r)"
  using assms by (auto simp: insert_receipt_row_def and_then_eq_Inr insert_row_Inr split: if_splits)

text \<open>Inserting the rows of a file or of an answer.\<close>

lemma insert_csv_rows_Inr:
  assumes "insert_csv_rows g iid ps d = Inr d'"
  obtains new where "receipt_rows d' = receipt_rows d @ new" and "map rr_row_no new = map pw_row_no ps"
    and "\<forall>r \<in> set new. rr_import_id r = iid" and "distinct (map rr_id (receipt_rows d)) \<longrightarrow> distinct (map rr_id (receipt_rows d'))"
    and "expenses d' = expenses d" and "receipt_imports d' = receipt_imports d" and "records d' = records d"
  using assms
proof (induction ps arbitrary: d thesis)
  case Nil
  then show ?case by simp
next
  case (Cons p ps)
  let ?r = "csv_receipt_row g iid p d"
  from Cons.prems(2) obtain d1 where i: "insert_receipt_row ?r (drawn d) = Inr d1" and rest: "insert_csv_rows g iid ps d1 = Inr d'"
    by (auto simp: and_then_eq_Inr)
  note d1 = insert_receipt_row_Inr [OF i]
  show ?case
  proof (rule Cons.IH [OF _ rest])
    fix new
    assume new: "receipt_rows d' = receipt_rows d1 @ new" "map rr_row_no new = map pw_row_no ps"
      "\<forall>r \<in> set new. rr_import_id r = iid" "distinct (map rr_id (receipt_rows d1)) \<longrightarrow> distinct (map rr_id (receipt_rows d'))"
      "expenses d' = expenses d1" "receipt_imports d' = receipt_imports d1" "records d' = records d1"
    show thesis
      by (rule Cons.prems(1) [of "?r # new"]) (use new d1 in \<open>simp_all add: csv_receipt_row_def\<close>)
  qed
qed

lemma insert_ocr_rows_Inr:
  assumes "insert_ocr_rows g midnight iid no xs d = Inr d'"
  obtains new where "receipt_rows d' = receipt_rows d @ new" and "map rr_row_no new = map (\<lambda>i. no + int i) [0..<length xs]"
    and "\<forall>r \<in> set new. rr_import_id r = iid" and "distinct (map rr_id (receipt_rows d)) \<longrightarrow> distinct (map rr_id (receipt_rows d'))"
    and "expenses d' = expenses d" and "receipt_imports d' = receipt_imports d" and "records d' = records d"
    and "xs \<noteq> [] \<longrightarrow> (\<forall>r \<in> set (receipt_rows d). \<not> (rr_import_id r = iid \<and> rr_row_no r = no))"
  using assms
proof (induction xs arbitrary: d no thesis)
  case Nil
  then show ?case by simp
next
  case (Cons x xs)
  let ?r = "ocr_receipt_row g midnight iid no x d"
  from Cons.prems(2) obtain d1 where i: "insert_receipt_row ?r (drawn d) = Inr d1"
    and rest: "insert_ocr_rows g midnight iid (no + 1) xs d1 = Inr d'"
    by (auto simp: and_then_eq_Inr)
  note d1 = insert_receipt_row_Inr [OF i]
  have no: "map (\<lambda>i. no + int i) [0..<Suc n] = no # map (\<lambda>i. no + 1 + int i) [0..<n]" for n
    by (induction n) (simp_all add: algebra_simps)
  show ?case
  proof (rule Cons.IH [OF _ rest])
    fix new
    assume new: "receipt_rows d' = receipt_rows d1 @ new" "map rr_row_no new = map (\<lambda>i. no + 1 + int i) [0..<length xs]"
      "\<forall>r \<in> set new. rr_import_id r = iid" "distinct (map rr_id (receipt_rows d1)) \<longrightarrow> distinct (map rr_id (receipt_rows d'))"
      "expenses d' = expenses d1" "receipt_imports d' = receipt_imports d1" "records d' = records d1"
    have r: "rr_import_id ?r = iid" "rr_row_no ?r = no" by (simp_all add: ocr_receipt_row_def)
    show thesis
      by (rule Cons.prems(1) [of "?r # new"]) (use new d1 r in \<open>simp_all add: no del: upt_Suc\<close>)
  qed
qed
section \<open>Writing one import\<close>

lemma club_import_Some:
  "club_import club iid d = Some item \<Longrightarrow> item \<in> set (receipt_imports d) \<and> rim_id item = iid \<and> rim_club_id item = club"
  by (auto simp: club_import_def find_receipt_import_def dest: get_row_SomeD split: option.splits if_splits)

lemma map_put_row_same:
  assumes "distinct (map key rows)" and "x \<in> set rows" and "key r = key x" and "f r = f x"
  shows "map f (put_row key r rows) = map f rows"
proof -
  have "f (if key y = key r then r else y) = f y" if "y \<in> set rows" for y
    using assms that by (auto simp: distinct_map dest: inj_onD)
  then show ?thesis by (simp add: put_row_def)
qed

lemma imports_ok_write:
  assumes ok: "imports_ok d" and item: "item \<in> set (receipt_imports d)"
    and same: "rim_id item' = rim_id item" "rim_record_id item' = rim_record_id item"
    and d': "receipt_imports d' = put_row rim_id item' (receipt_imports d)" "expenses d' = expenses d" "records d' = records d"
    and rows: "\<And>iid. iid \<noteq> rim_id item \<Longrightarrow> import_rows d' iid = import_rows d iid"
    and this_ok: "import_ok d' item'"
    and owned: "distinct (map rr_id (receipt_rows d'))" "\<forall>r \<in> set (receipt_rows d'). rr_import_id r \<in> rim_id ` set (receipt_imports d)"
  shows "imports_ok d'"
proof -
  have t: "tables_ok d" using ok by (simp add: imports_ok_def)
  then have pk: "distinct (map rim_id (receipt_imports d))" by (simp add: tables_ok_def)
  have ids: "rim_id ` set (receipt_imports d') = rim_id ` set (receipt_imports d)"
    using d'(1) by (metis list.set_map map_key_put_row)
  have "map rim_record_id (receipt_imports d') = map rim_record_id (receipt_imports d)"
    unfolding d' using pk item same by (intro map_put_row_same)
  then have "tables_ok d'" using t owned ids by (simp add: tables_ok_def d' del: set_map)
  moreover have "import_ok d' x" if "x \<in> set (receipt_imports d')" for x
  proof (cases "x = item'")
    case False
    then have x: "x \<in> set (receipt_imports d)" "rim_id x \<noteq> rim_id item"
      using that same by (auto simp: d' elim: put_row_memE)
    then have "import_ok d x" using ok by (simp add: imports_ok_def)
    then show ?thesis using x(2) rows by (simp add: import_ok_def booked_def d')
  qed (use this_ok in simp)
  ultimately show ?thesis by (simp add: imports_ok_def)
qed

text \<open>Writes that leave the rows alone and do not open the review.\<close>

lemma imports_ok_status:
  assumes ok: "imports_ok d" and item: "item \<in> set (receipt_imports d)"
    and same: "rim_id item' = rim_id item" "rim_record_id item' = rim_record_id item"
    and d': "receipt_imports d' = put_row rim_id item' (receipt_imports d)" "expenses d' = expenses d" "records d' = records d"
      "receipt_rows d' = receipt_rows d"
    and st: "rim_status item' = Import_NEEDS_REVIEW \<Longrightarrow> rim_status item = Import_NEEDS_REVIEW"
  shows "imports_ok d'"
proof (rule imports_ok_write [OF ok item same d'(1-3)])
  have "import_ok d item" using ok item by (simp add: imports_ok_def)
  then show "import_ok d' item'"
    using st by (auto simp: import_ok_def booked_def d' same import_rows_cong [OF d'(4)])
qed (use ok in \<open>simp_all add: import_rows_cong [OF d'(4)] d'(4) imports_ok_def tables_ok_def\<close>)

text \<open>Opening the review with new rows: nothing of the import can have been booked.\<close>

lemma imports_ok_rows:
  assumes ok: "imports_ok d" and item: "item \<in> set (receipt_imports d)"
    and same: "rim_id item' = rim_id item" "rim_record_id item' = rim_record_id item"
    and d': "receipt_imports d' = put_row rim_id item' (receipt_imports d)" "expenses d' = expenses d" "records d' = records d"
      "receipt_rows d' = receipt_rows d @ new"
    and new: "\<forall>r \<in> set new. rr_import_id r = rim_id item" "new \<noteq> [] \<longrightarrow> (\<exists>r \<in> set new. rr_row_no r = 1)"
      "distinct (map rr_id (receipt_rows d'))"
    and free: "\<exists>rid. rim_record_id item = Some rid \<and> booked d rid = []"
  shows "imports_ok d'"
proof (rule imports_ok_write [OF ok item same d'(1-3)])
  show "import_rows d' iid = import_rows d iid" if "iid \<noteq> rim_id item" for iid
    using d'(4) new(1) that by (intro import_rows_append_other) auto
  have old: "import_ok d item" using ok item by (simp add: imports_ok_def)
  have "\<exists>r \<in> set (import_rows d' (rim_id item)). rr_row_no r = 1" if "import_rows d' (rim_id item) \<noteq> []"
  proof (cases "new = []")
    case True
    then have "import_rows d' (rim_id item) = import_rows d (rim_id item)" using d'(4) by (intro import_rows_cong) simp
    then show ?thesis using old that by (simp add: import_ok_def)
  next
    case False
    then show ?thesis using new(1,2) by (auto simp: set_import_rows d'(4))
  qed
  then show "import_ok d' item'" using old free by (auto simp: import_ok_def booked_def d' same)
  show "\<forall>r \<in> set (receipt_rows d'). rr_import_id r \<in> rim_id ` set (receipt_imports d)"
    using ok item new(1) by (auto simp: d'(4) imports_ok_def tables_ok_def)
qed (rule new(3))

section \<open>The operations keep the invariant\<close>

lemma open_import_ok:
  assumes ok: "imports_ok d" and "open_import g now key club eid t file_name content by' d = Inr (item, d')"
  shows "imports_ok d'" and "item \<in> set (receipt_imports d')"
    and "\<exists>rid. rim_record_id item = Some rid \<and> booked d' rid = []" and "import_rows d' (rim_id item) = []"
proof -
  obtain rec d1 where "insert_record rec (drawn d) = Inr d1" "insert_receipt_import item (drawn d1) = Inr d'"
      and rec: "rim_record_id item = Some (rc_id rec)"
    using assms(2) unfolding open_import_def Let_def and_then_eq_Inr
    by (elim exE conjE) (drule sym, fastforce)
  then have d': "records d' = records d @ [rec]" "receipt_imports d' = receipt_imports d @ [item]"
      "expenses d' = expenses d" "receipt_rows d' = receipt_rows d"
    and new: "rc_id rec \<notin> rc_id ` set (records d)" "rim_id item \<notin> rim_id ` set (receipt_imports d)" "rim_record_id item = Some (rc_id rec)"
    by (auto simp: and_then_eq_Inr insert_record_def insert_receipt_import_def insert_row_Inr)
  have t: "tables_ok d" and each: "\<forall>x \<in> set (receipt_imports d). import_ok d x" using ok by (simp_all add: imports_ok_def)
  show "item \<in> set (receipt_imports d')" by (simp add: d')
  show none: "\<exists>rid. rim_record_id item = Some rid \<and> booked d' rid = []"
    using t new by (auto simp: booked_def d' tables_ok_def filter_empty_conv)
  show rows: "import_rows d' (rim_id item) = []"
  proof -
    have "rr_import_id r \<noteq> rim_id item" if "r \<in> set (receipt_rows d)" for r
      using t new(2) that unfolding tables_ok_def by metis
    then have "set (import_rows d' (rim_id item)) = {}" by (auto simp: set_import_rows d')
    then show ?thesis by simp
  qed
  have rec_new: "Some (rc_id rec) \<notin> rim_record_id ` set (receipt_imports d)"
    using each new(1) by (auto simp: import_ok_def)
  have "tables_ok d'" using t new rec_new by (auto simp: tables_ok_def d')
  moreover have "import_ok d' x" if "x \<in> set (receipt_imports d')" for x
  proof (cases "x = item")
    case True
    then show ?thesis using none rows new(3) by (auto simp: import_ok_def d')
  next
    case False
    then have "import_ok d x" using that each by (simp add: d')
    then show ?thesis by (auto simp: import_ok_def booked_def d' import_rows_cong [OF d'(4)])
  qed
  ultimately show "imports_ok d'" by (simp add: imports_ok_def)
qed

lemma open_ocr_job_tables:
  assumes "open_ocr_job g now by' item d = Inr (jid, d')"
  shows "receipt_imports d' = put_row rim_id (item\<lparr>rim_job_id := Some jid, rim_status := Import_PROCESSING, rim_error := None\<rparr>) (receipt_imports d)"
    and "expenses d' = expenses d" and "records d' = records d" and "receipt_rows d' = receipt_rows d"
  using assms
  by (auto simp: open_ocr_job_def create_job_def Let_def and_then_eq_Inr job_defs drawn_def)

lemma open_ocr_job_ok:
  assumes "imports_ok d" and "item \<in> set (receipt_imports d)" and "open_ocr_job g now by' item d = Inr (jid, d')"
  shows "imports_ok d'"
  by (rule imports_ok_status [OF assms(1,2) _ _ open_ocr_job_tables [OF assms(3)]]) simp_all

lemma parse_expense_csv_numbers:
  assumes "parse_expense_csv u content = Inr rows"
  shows "map pw_row_no rows = map (\<lambda>i. 1 + int i) [0..<length rows]"
  using assms
  by (auto simp: parse_expense_csv_def parse_row_def Let_def nth_enumerate_eq intro!: nth_equalityI
      split: option.splits sum.splits if_splits)

lemma upload_ok:
  assumes ok: "imports_ok d" and "create_receipt_import g u now saved club eid t file_name content by' mime d = Inr (reply, d')"
  shows "imports_ok d'"
proof -
  from assms(2) obtain detected key item d1 where o: "open_import g now key club eid t file_name content by' d = Inr (item, d1)"
    and c: "process_import g u now detected file_name content by' item d1 = Inr (reply, d')"
    by (auto simp: create_receipt_import_def and_then_eq_Inr split: option.splits)
  note d1 = open_import_ok [OF ok o]
  show ?thesis
  proof (cases detected)
    case (Some m)
    then obtain jid where "open_ocr_job g now by' item d1 = Inr (jid, d')" using c by (auto simp: process_import_def and_then_eq_Inr)
    then show ?thesis using d1(1,2) by (rule open_ocr_job_ok [rotated 2])
  next
    case None
    show ?thesis
    proof (cases "parse_expense_csv u content")
      case (Inl e)
      then have "d' = put_receipt_import (item\<lparr>rim_status := Import_FAILED, rim_error := Some ''COLUMN_MISMATCH''\<rparr>) d1"
        using c None by (cases e) (auto simp: process_import_def)
      then show ?thesis by (intro imports_ok_status [OF d1(1,2), of "item\<lparr>rim_status := Import_FAILED, rim_error := Some ''COLUMN_MISMATCH''\<rparr>"]) simp_all
    next
      case (Inr rows)
      then obtain d2 where i: "insert_csv_rows g (rim_id item) rows d1 = Inr d2"
        and d': "d' = put_receipt_import (item\<lparr>rim_status := Import_NEEDS_REVIEW\<rparr>) d2"
        using c None by (auto simp: process_import_def and_then_eq_Inr)
      from i obtain new where new: "receipt_rows d2 = receipt_rows d1 @ new" "map rr_row_no new = map pw_row_no rows"
          "\<forall>r \<in> set new. rr_import_id r = rim_id item"
          "distinct (map rr_id (receipt_rows d1)) \<longrightarrow> distinct (map rr_id (receipt_rows d2))"
          "expenses d2 = expenses d1" "receipt_imports d2 = receipt_imports d1" "records d2 = records d1"
        by (rule insert_csv_rows_Inr)
      have nos: "map rr_row_no new = map (\<lambda>i. 1 + int i) [0..<length rows]"
        using new(2) parse_expense_csv_numbers [OF Inr] by simp
      have "\<exists>r \<in> set new. rr_row_no r = 1" if "new \<noteq> []"
      proof
        have len: "length new = length rows" using arg_cong [OF nos, of length] by simp
        then have "map rr_row_no new ! 0 = 1" unfolding nos using that by (cases rows) (simp_all del: upt_Suc)
        then show "rr_row_no (hd new) = 1" using that by (simp add: hd_conv_nth)
        show "hd new \<in> set new" using that by simp
      qed
      moreover have "distinct (map rr_id (receipt_rows d2))" using new(4) d1(1) by (simp add: imports_ok_def tables_ok_def)
      ultimately show ?thesis
        using new d1(3) by (intro imports_ok_rows [OF d1(1,2), of "item\<lparr>rim_status := Import_NEEDS_REVIEW\<rparr>" _ new]) (simp_all add: d')
    qed
  qed
qed
lemma ocr_ok:
  assumes ok: "imports_ok d" and run: "run_receipt_ocr g now midnight answer club iid jid d = Inr d'"
  shows "imports_ok d'"
proof -
  from run obtain item where "club_import club iid d = Some item"
    by (auto simp: run_receipt_ocr_def split: option.splits)
  note item = this conjunct1 [OF club_import_Some [OF this]] conjunct1 [OF conjunct2 [OF club_import_Some [OF this]]]
  show ?thesis
  proof (cases "rim_job_id item \<noteq> Some jid \<or> rim_status item \<noteq> Import_PROCESSING")
    case True
    then show ?thesis using run ok item(1) by (auto simp: run_receipt_ocr_def)
  next
    case False
    with run item(1) obtain j where j: "find_agent_job d jid = Some j"
      by (auto simp: run_receipt_ocr_def split: option.splits)
    show ?thesis
    proof (cases "ocr_outcome answer")
      case (Inl reason)
      then have "d' = fail now [(''code'', JStr (lit reason))] j
          (put_receipt_import (item\<lparr>rim_status := Import_FAILED, rim_error := Some reason\<rparr>) d)"
        using run item(1) False j by (simp add: run_receipt_ocr_def)
      then show ?thesis
        by (intro imports_ok_status [OF ok item(2), of "item\<lparr>rim_status := Import_FAILED, rim_error := Some reason\<rparr>"]) simp_all
    next
      case (Inr rows)
      let ?item = "item\<lparr>rim_extraction_result := Some (JObj [(''rows'', JList (map (\<lambda>x. JObj (extracted_json x)) rows))]),
         rim_status := Import_NEEDS_REVIEW, rim_error := None\<rparr>"
      from Inr run item(1) False j obtain d1 where i: "insert_ocr_rows g midnight (rim_id item) 1 rows d = Inr d1"
        and d': "d' = succeed now [(''receiptImportId'', JStr (lit (rim_id item)))] j (put_receipt_import ?item d1)"
        by (auto simp: run_receipt_ocr_def and_then_eq_Inr)
      from i obtain new where new: "receipt_rows d1 = receipt_rows d @ new" "map rr_row_no new = map (\<lambda>i. 1 + int i) [0..<length rows]"
          "\<forall>r \<in> set new. rr_import_id r = rim_id item"
          "distinct (map rr_id (receipt_rows d)) \<longrightarrow> distinct (map rr_id (receipt_rows d1))"
          "expenses d1 = expenses d" "receipt_imports d1 = receipt_imports d" "records d1 = records d"
        and one: "rows \<noteq> [] \<longrightarrow> (\<forall>r \<in> set (receipt_rows d). \<not> (rr_import_id r = rim_id item \<and> rr_row_no r = 1))"
        by (rule insert_ocr_rows_Inr)
      have "rows \<noteq> []" using Inr by (auto simp: ocr_outcome_def split: sum.splits if_splits)
      have old: "import_ok d item" using ok item(2) by (simp add: imports_ok_def)
      then have empty: "import_rows d (rim_id item) = []"
        using one \<open>rows \<noteq> []\<close> by (auto simp: import_ok_def set_import_rows)
      then have free: "\<exists>rid. rim_record_id item = Some rid \<and> booked d rid = []"
        using old by (auto simp: import_ok_def)
      have "length new = length rows" using arg_cong [OF new(2), of length] by simp
      then have "new \<noteq> []" using \<open>rows \<noteq> []\<close> by auto
      then have "rr_row_no (hd new) = map rr_row_no new ! 0" by (simp add: hd_conv_nth)
      also have "\<dots> = 1" unfolding new(2) using \<open>rows \<noteq> []\<close> by (cases rows) (simp_all del: upt_Suc)
      finally have "\<exists>r \<in> set new. rr_row_no r = 1" using \<open>new \<noteq> []\<close> hd_in_set by blast
      moreover have "distinct (map rr_id (receipt_rows d1))" using new(4) ok by (simp add: imports_ok_def tables_ok_def)
      ultimately show ?thesis
        using new free by (intro imports_ok_rows [OF ok item(2), of ?item _ new]) (simp_all add: d')
    qed
  qed
qed

lemma retry_ok:
  assumes ok: "imports_ok d" and retry: "retry_begin g now club iid by' d = Inr (reply, d')"
  shows "imports_ok d'"
proof -
  from retry obtain item where item: "club_import club iid d = Some item"
    by (auto simp: retry_begin_def split: option.splits)
  then have in_d: "item \<in> set (receipt_imports d)" by (simp add: club_import_Some)
  from retry item obtain d1 rec jid where "open_ocr_job g now by' item d1 = Inr (jid, d')"
    and d1: "receipt_imports d1 = receipt_imports d" "expenses d1 = expenses d" "records d1 = records d" "receipt_rows d1 = receipt_rows d"
    by (auto simp: retry_begin_def and_then_eq_Inr split: if_splits option.splits)
  note d' = open_ocr_job_tables [OF this(1)]
  show ?thesis
    by (rule imports_ok_status [OF ok in_d, of "item\<lparr>rim_job_id := Some jid, rim_status := Import_PROCESSING, rim_error := None\<rparr>"])
      (simp_all add: d' d1)
qed

lemma source_failed_ok:
  assumes ok: "imports_ok d"
  shows "imports_ok (retry_source_failed now iid jid d)"
proof (cases "find_receipt_import d iid")
  case (Some item)
  show ?thesis
  proof (cases "find_agent_job d jid")
    case (Some j)
    have "item \<in> set (receipt_imports d)"
      using \<open>find_receipt_import d iid = Some item\<close> by (auto simp: find_receipt_import_def dest: get_row_SomeD)
    then show ?thesis
      by (rule imports_ok_status [OF ok, of item "item\<lparr>rim_status := Import_FAILED, rim_error := Some ''OCR_SOURCE_UNAVAILABLE''\<rparr>"])
        (simp_all add: retry_source_failed_def Some \<open>find_receipt_import d iid = Some item\<close>)
  qed (use ok in \<open>simp add: retry_source_failed_def Some\<close>)
qed (use ok in \<open>simp add: retry_source_failed_def\<close>)

text \<open>Edits and bookings map the table: a changed row keeps its key, owner and number.\<close>

definition keeps_place :: "(receipt_row \<Rightarrow> receipt_row) \<Rightarrow> bool" where
  "keeps_place h \<longleftrightarrow> (\<forall>r. rr_id (h r) = rr_id r \<and> rr_import_id (h r) = rr_import_id r \<and> rr_row_no (h r) = rr_row_no r)"

lemma keeps_place_comp: "keeps_place h \<Longrightarrow> keeps_place h' \<Longrightarrow> keeps_place (h' \<circ> h)"
  by (simp add: keeps_place_def)

lemma put_row_map:
  assumes "distinct (map rr_id rows)" and "r \<in> set rows" and "rr_id r' = rr_id r"
  shows "put_row rr_id r' rows = map (\<lambda>x. if x = r then r' else x) rows"
  using assms by (auto simp: put_row_def distinct_map dest: inj_onD)

lemma distinct_keeps_place:
  "keeps_place h \<Longrightarrow> distinct (map rr_id rows) \<Longrightarrow> distinct (map rr_id (map h rows))"
  by (simp add: keeps_place_def comp_def)

lemma apply_edits_tables:
  assumes "distinct (map rr_id (receipt_rows d))"
  obtains h where "receipt_rows (apply_edits iid n es d) = map h (receipt_rows d)" and "keeps_place h"
    and "\<forall>r. rr_import_id r \<noteq> iid \<longrightarrow> h r = r"
    and "expenses (apply_edits iid n es d) = expenses d" and "receipt_imports (apply_edits iid n es d) = receipt_imports d"
    and "records (apply_edits iid n es d) = records d"
  using assms
proof (induction es arbitrary: n d thesis)
  case Nil
  show ?case by (rule Nil.prems(1) [of id]) (simp_all add: keeps_place_def)
next
  case (Cons e es)
  let ?found = "find (\<lambda>r. rr_row_no r = edit_target n e) (import_rows d iid)"
  show ?case
  proof (cases ?found)
    case None
    show ?thesis
    proof (rule Cons.IH [OF _ Cons.prems(2), of "n + 1"])
      fix h
      assume "receipt_rows (apply_edits iid (n + 1) es d) = map h (receipt_rows d)" "keeps_place h"
        "\<forall>r. rr_import_id r \<noteq> iid \<longrightarrow> h r = r" "expenses (apply_edits iid (n + 1) es d) = expenses d"
        "receipt_imports (apply_edits iid (n + 1) es d) = receipt_imports d" "records (apply_edits iid (n + 1) es d) = records d"
      then show thesis by (intro Cons.prems(1) [of h]) (simp_all add: None)
    qed
  next
    case (Some r)
    let ?d = "put_receipt_row (edit_row e r) d" and ?h = "\<lambda>x. if x = r then edit_row e r else x"
    have r: "r \<in> set (receipt_rows d)" "rr_import_id r = iid"
      using Some by (auto simp: find_Some_iff set_import_rows in_set_conv_nth [symmetric] dest!: nth_mem)
    have h: "receipt_rows ?d = map ?h (receipt_rows d)"
      using put_row_map [OF Cons.prems(2) r(1), of "edit_row e r"] by (simp add: edit_row_def)
    have k: "keeps_place ?h" by (simp add: keeps_place_def edit_row_def)
    have "distinct (map rr_id (receipt_rows ?d))" unfolding h using distinct_keeps_place [OF k Cons.prems(2)] .
    show ?thesis
    proof (rule Cons.IH [OF _ \<open>distinct (map rr_id (receipt_rows ?d))\<close>, of "n + 1"])
      fix h'
      assume h': "receipt_rows (apply_edits iid (n + 1) es ?d) = map h' (receipt_rows ?d)" "keeps_place h'"
        "\<forall>r. rr_import_id r \<noteq> iid \<longrightarrow> h' r = r" "expenses (apply_edits iid (n + 1) es ?d) = expenses ?d"
        "receipt_imports (apply_edits iid (n + 1) es ?d) = receipt_imports ?d" "records (apply_edits iid (n + 1) es ?d) = records ?d"
      show thesis
      proof (rule Cons.prems(1) [of "h' \<circ> ?h"])
        show "keeps_place (h' \<circ> ?h)" using k h'(2) by (rule keeps_place_comp)
        show "receipt_rows (apply_edits iid n (e # es) d) = map (h' \<circ> ?h) (receipt_rows d)"
          using h'(1) Some by (simp add: h del: put_receipt_row_tables)
      qed (use h' Some r(2) in auto)
    qed
  qed
qed

lemma import_rows_keeps_place:
  "receipt_rows d' = map h (receipt_rows d) \<Longrightarrow> keeps_place h \<Longrightarrow> import_rows d' iid = map h (import_rows d iid)"
  by (rule import_rows_map) (simp_all add: keeps_place_def)

lemma import_rows_other:
  assumes "receipt_rows d' = map h (receipt_rows d)" and "keeps_place h"
    and "\<forall>r \<in> set (receipt_rows d). rr_import_id r = iid \<longrightarrow> h r = r"
  shows "import_rows d' iid = import_rows d iid"
proof -
  have "map h (import_rows d iid) = import_rows d iid"
    using assms(3) by (intro map_idI) (simp add: set_import_rows)
  then show ?thesis using import_rows_keeps_place [OF assms(1,2)] by simp
qed

lemma edit_ok:
  assumes ok: "imports_ok d" and upd: "update_draft edits club iid v d = Inr d'"
  shows "imports_ok d'"
proof -
  from upd obtain item where item: "club_import club iid d = Some item" and st: "rim_status item = Import_NEEDS_REVIEW"
    and d': "d' = put_receipt_import (item\<lparr>rim_version := rim_version item + 1\<rparr>) (apply_edits iid 1 edits d)"
    by (auto simp: update_draft_def split: option.splits if_splits)
  have i: "item \<in> set (receipt_imports d)" "rim_id item = iid" using club_import_Some [OF item] by simp_all
  have pk: "distinct (map rr_id (receipt_rows d))" using ok by (simp add: imports_ok_def tables_ok_def)
  obtain h where h: "receipt_rows (apply_edits iid 1 edits d) = map h (receipt_rows d)" "keeps_place h"
    "\<forall>r. rr_import_id r \<noteq> iid \<longrightarrow> h r = r" "expenses (apply_edits iid 1 edits d) = expenses d"
    "receipt_imports (apply_edits iid 1 edits d) = receipt_imports d" "records (apply_edits iid 1 edits d) = records d"
    using apply_edits_tables [OF pk, of iid 1 edits] by metis
  have rows: "receipt_rows d' = map h (receipt_rows d)" using h by (simp add: d')
  show ?thesis
  proof (rule imports_ok_write [OF ok i(1), of "item\<lparr>rim_version := rim_version item + 1\<rparr>"])
    show "import_rows d' j = import_rows d j" if "j \<noteq> rim_id item" for j
      using h(3) that i(2) by (intro import_rows_other [OF rows h(2)]) auto
    have old: "import_ok d item" using ok i(1) by (simp add: imports_ok_def)
    have "import_rows d' iid = map h (import_rows d iid)" using rows h(2) by (rule import_rows_keeps_place)
    then show "import_ok d' (item\<lparr>rim_version := rim_version item + 1\<rparr>)"
      using old st i(2) h by (auto simp: import_ok_def booked_def d' keeps_place_def)
    show "distinct (map rr_id (receipt_rows d'))" unfolding rows using distinct_keeps_place [OF h(2) pk] .
    show "\<forall>r \<in> set (receipt_rows d'). rr_import_id r \<in> rim_id ` set (receipt_imports d)"
      using ok h(2) by (auto simp: rows imports_ok_def tables_ok_def keeps_place_def)
  qed (simp_all add: d' h)
qed

text \<open>Booking: one new entry per row, with what the row says, and the row remembers it.\<close>

lemma book_rows_Inr:
  assumes "book_rows g item by' rs d = Inr (ids, d')" and "distinct (map rr_id (receipt_rows d))"
    and "distinct rs" and "set rs \<subseteq> set (receipt_rows d)"
  obtains h xs where "receipt_rows d' = map h (receipt_rows d)" and "keeps_place h" and "\<forall>r. r \<notin> set rs \<longrightarrow> h r = r"
    and "expenses d' = expenses d @ xs" and "map ex_id xs = ids" and "map (row_entry \<circ> h) rs = map entry_of xs"
    and "\<forall>x \<in> set xs. ex_receipt_record_id x = rim_record_id item \<and> ex_club_id x = rim_club_id item \<and> ex_created_by x = by'"
    and "receipt_imports d' = receipt_imports d" and "records d' = records d"
  using assms
proof (induction rs arbitrary: d ids thesis)
  case Nil
  show ?case by (rule Nil.prems(1) [of id "[]"]) (use Nil.prems(2) in \<open>simp_all add: keeps_place_def\<close>)
next
  case (Cons r rs)
  let ?x = "row_expense g item by' r d" and ?r = "r\<lparr>rr_confirmed_expense_id := Some (ex_id (row_expense g item by' r d))\<rparr>"
  let ?h = "\<lambda>x. if x = r then ?r else x"
  from Cons.prems(2) obtain d1 js where ins: "insert_expense ?x (drawn d) = Inr d1"
    and rest: "book_rows g item by' rs (put_receipt_row ?r d1) = Inr (js, d')" and ids: "ids = ex_id ?x # js"
    by (auto simp: Let_def and_then_eq_Inr)
  have d1: "d1 = (drawn d)\<lparr>expenses := expenses d @ [?x]\<rparr>" using ins by (simp add: insert_expense_Inr)
  let ?d = "put_receipt_row ?r d1"
  have r: "r \<in> set (receipt_rows d)" "r \<notin> set rs" "distinct rs" "set rs \<subseteq> set (receipt_rows d)" using Cons.prems by simp_all
  have h: "receipt_rows ?d = map ?h (receipt_rows d)"
    using put_row_map [OF Cons.prems(3) r(1), of ?r] by (simp add: d1)
  have k: "keeps_place ?h" by (simp add: keeps_place_def)
  have pk: "distinct (map rr_id (receipt_rows ?d))" unfolding h using distinct_keeps_place [OF k Cons.prems(3)] .
  have sub: "set rs \<subseteq> set (receipt_rows ?d)" unfolding h using r by auto
  have "rr_id q \<noteq> rr_id r" if "q \<in> set rs" for q
    using Cons.prems(3) r that by (auto simp: distinct_map dest: inj_onD)
  then have new_r: "?r \<notin> set rs" by fastforce
  show ?case
  proof (rule Cons.IH [OF _ rest pk r(3) sub])
    fix h' xs
    assume h': "receipt_rows d' = map h' (receipt_rows ?d)" "keeps_place h'" "\<forall>r. r \<notin> set rs \<longrightarrow> h' r = r"
      "expenses d' = expenses ?d @ xs" "map ex_id xs = js" "map (row_entry \<circ> h') rs = map entry_of xs"
      "\<forall>x \<in> set xs. ex_receipt_record_id x = rim_record_id item \<and> ex_club_id x = rim_club_id item \<and> ex_created_by x = by'"
      "receipt_imports d' = receipt_imports ?d" "records d' = records ?d"
    have tail: "map (row_entry \<circ> (h' \<circ> ?h)) rs = map (row_entry \<circ> h') rs" using r(2) by (intro map_cong) auto
    have "row_entry ?r = entry_of ?x" by (simp add: row_entry_def entry_of_def row_expense_def)
    then have ent: "map (row_entry \<circ> (h' \<circ> ?h)) (r # rs) = map entry_of (?x # xs)"
      using tail h'(3,6) new_r by simp
    have x: "ex_receipt_record_id ?x = rim_record_id item" "ex_club_id ?x = rim_club_id item" "ex_created_by ?x = by'"
      by (simp_all add: row_expense_def)
    show thesis
    proof (rule Cons.prems(1) [of "h' \<circ> ?h" "?x # xs"])
      show "receipt_rows d' = map (h' \<circ> ?h) (receipt_rows d)" using h'(1) by (simp add: h del: put_receipt_row_tables)
      show "keeps_place (h' \<circ> ?h)" using k h'(2) by (rule keeps_place_comp)
      show "map (row_entry \<circ> (h' \<circ> ?h)) (r # rs) = map entry_of (?x # xs)" by (rule ent)
      show "\<forall>q. q \<notin> set (r # rs) \<longrightarrow> (h' \<circ> ?h) q = q" using h'(3) by auto
    qed (use h'(4,5,7-9) x in \<open>simp_all add: d1 ids\<close>)
  qed
qed

lemma confirm_receipt_import_Inr:
  assumes "confirm_receipt_import g now club by' iid v d = Inr (ids, d')"
  obtains item d1 where "club_import club iid d = Some item" and "rim_version item = v" and "rim_status item = Import_NEEDS_REVIEW"
    and "\<forall>r \<in> set (import_rows d iid). \<not> blocking r" and "book_rows g item by' (import_rows d iid) d = Inr (ids, d1)"
    and "d' = put_receipt_import (item\<lparr>rim_status := Import_CONFIRMED, rim_confirmed_by := Some by', rim_confirmed_at := Some now\<rparr>) d1"
  using assms
  by (auto simp: confirm_receipt_import_def Let_def and_then_eq_Inr list_ex_iff split: option.splits if_splits)

lemma import_rows_distinct: "distinct (map rr_id (receipt_rows d)) \<Longrightarrow> distinct (import_rows d iid)"
  by (simp add: import_rows_def distinct_map)

text \<open>What a confirmation leaves behind.\<close>

lemma confirm_books:
  assumes ok: "imports_ok d" and conf: "confirm_receipt_import g now club by' iid v d = Inr (ids, d')"
  obtains item rid h xs where "club_import club iid d = Some item" and "rim_record_id item = Some rid" and "booked d rid = []"
    and "receipt_rows d' = map h (receipt_rows d)" and "keeps_place h" and "\<forall>r. rr_import_id r \<noteq> iid \<longrightarrow> h r = r"
    and "expenses d' = expenses d @ xs" and "map ex_id xs = ids" and "booked d' rid = xs"
    and "map row_entry (import_rows d' iid) = map entry_of xs" and "\<forall>x \<in> set xs. ex_receipt_record_id x = Some rid"
    and "receipt_imports d' = put_row rim_id (item\<lparr>rim_status := Import_CONFIRMED, rim_confirmed_by := Some by',
           rim_confirmed_at := Some now\<rparr>) (receipt_imports d)" and "records d' = records d"
proof -
  from conf obtain item d1 where item: "club_import club iid d = Some item" "rim_status item = Import_NEEDS_REVIEW"
    and book: "book_rows g item by' (import_rows d iid) d = Inr (ids, d1)"
    and d': "d' = put_receipt_import (item\<lparr>rim_status := Import_CONFIRMED, rim_confirmed_by := Some by', rim_confirmed_at := Some now\<rparr>) d1"
    by (rule confirm_receipt_import_Inr)
  have i: "item \<in> set (receipt_imports d)" "rim_id item = iid" using club_import_Some [OF item(1)] by simp_all
  have pk: "distinct (map rr_id (receipt_rows d))" using ok by (simp add: imports_ok_def tables_ok_def)
  have "import_ok d item" using ok i by (simp add: imports_ok_def)
  then obtain rid where rid: "rim_record_id item = Some rid" "booked d rid = []" using item(2) by (auto simp: import_ok_def)
  have sub: "set (import_rows d iid) \<subseteq> set (receipt_rows d)" by (auto simp: set_import_rows)
  from book pk import_rows_distinct [OF pk] sub obtain h xs where h: "receipt_rows d1 = map h (receipt_rows d)" "keeps_place h"
    "\<forall>r. r \<notin> set (import_rows d iid) \<longrightarrow> h r = r" "expenses d1 = expenses d @ xs" "map ex_id xs = ids"
    "map (row_entry \<circ> h) (import_rows d iid) = map entry_of xs"
    "\<forall>x \<in> set xs. ex_receipt_record_id x = rim_record_id item \<and> ex_club_id x = rim_club_id item \<and> ex_created_by x = by'"
    "receipt_imports d1 = receipt_imports d" "records d1 = records d"
    by (rule book_rows_Inr)
  have xs: "\<forall>x \<in> set xs. ex_receipt_record_id x = Some rid" using h(7) rid(1) by simp
  have rows: "receipt_rows d' = map h (receipt_rows d)" using h(1) by (simp add: d')
  have "map row_entry (import_rows d' iid) = map entry_of xs"
    using import_rows_keeps_place [OF rows h(2)] h(6) by simp
  moreover have "booked d' rid = xs"
    using rid(2) xs by (simp add: booked_def d' h(4))
  moreover have "\<forall>r. rr_import_id r \<noteq> iid \<longrightarrow> h r = r" using h(3) by (auto simp: set_import_rows)
  ultimately show ?thesis
    using that [OF item(1) rid rows h(2)] h(4,5,8,9) xs by (simp add: d')
qed

lemma confirm_ok:
  assumes ok: "imports_ok d" and conf: "confirm_receipt_import g now club by' iid v d = Inr (ids, d')"
  shows "imports_ok d'"
proof -
  from ok conf obtain item rid h xs where item: "club_import club iid d = Some item" and rid: "rim_record_id item = Some rid"
    and rows: "receipt_rows d' = map h (receipt_rows d)" "keeps_place h" "\<forall>r. rr_import_id r \<noteq> iid \<longrightarrow> h r = r"
    and exps: "expenses d' = expenses d @ xs" "booked d' rid = xs" "map row_entry (import_rows d' iid) = map entry_of xs"
      "\<forall>x \<in> set xs. ex_receipt_record_id x = Some rid"
    and imps: "receipt_imports d' = put_row rim_id (item\<lparr>rim_status := Import_CONFIRMED, rim_confirmed_by := Some by',
           rim_confirmed_at := Some now\<rparr>) (receipt_imports d)" and recs: "records d' = records d"
    by (rule confirm_books)
  let ?item = "item\<lparr>rim_status := Import_CONFIRMED, rim_confirmed_by := Some by', rim_confirmed_at := Some now\<rparr>"
  have i: "item \<in> set (receipt_imports d)" "rim_id item = iid" using club_import_Some [OF item] by simp_all
  have t: "tables_ok d" and each: "\<forall>x \<in> set (receipt_imports d). import_ok d x" using ok by (simp_all add: imports_ok_def)
  then have pk: "distinct (map rim_id (receipt_imports d))" "distinct (map rim_record_id (receipt_imports d))"
    "distinct (map rr_id (receipt_rows d))" by (simp_all add: tables_ok_def)
  have same: "map rim_record_id (receipt_imports d') = map rim_record_id (receipt_imports d)"
    unfolding imps using pk(1) i(1) by (intro map_put_row_same) simp_all
  have ids: "map rim_id (receipt_imports d') = map rim_id (receipt_imports d)" by (simp add: imps)
  have old: "import_ok d item" using each i by simp
  have "tables_ok d'"
    unfolding tables_ok_def
  proof (intro conjI)
    show "distinct (map rim_id (receipt_imports d'))" "distinct (map rim_record_id (receipt_imports d'))"
      using pk by (simp_all add: ids same)
    show "distinct (map rr_id (receipt_rows d'))" unfolding rows(1) using distinct_keeps_place [OF rows(2) pk(3)] .
    have "rim_id ` set (receipt_imports d') = rim_id ` set (receipt_imports d)" using ids by (metis list.set_map)
    then show "\<forall>r \<in> set (receipt_rows d'). rr_import_id r \<in> rim_id ` set (receipt_imports d')"
      using t rows(2) by (auto simp: rows(1) tables_ok_def keeps_place_def)
    show "\<forall>x \<in> set (expenses d'). \<forall>r. ex_receipt_record_id x = Some r \<longrightarrow> r \<in> rc_id ` set (records d')"
      using t old rid exps(4) by (auto simp: exps(1) recs tables_ok_def import_ok_def)
  qed
  moreover have "import_ok d' x" if "x \<in> set (receipt_imports d')" for x
  proof (cases "rim_id x = iid")
    case True
    then have "x = ?item" using that i(2) by (auto simp: imps elim: put_row_memE)
    moreover have "import_rows d' iid = map h (import_rows d iid)" using rows(1,2) by (rule import_rows_keeps_place)
    ultimately show ?thesis
      using old exps rid i(2) rows(2) by (auto simp: import_ok_def recs keeps_place_def)
  next
    case False
    then have x: "x \<in> set (receipt_imports d)" using that i(2) by (auto simp: imps elim: put_row_memE)
    have "rim_record_id x \<noteq> Some rid"
    proof
      assume "rim_record_id x = Some rid"
      then have "x = item" using pk(2) x i(1) rid by (metis distinct_map inj_onD)
      then show False using False i(2) by simp
    qed
    then have "booked d' r = booked d r" if "rim_record_id x = Some r" for r
      using that exps(4) by (auto simp: booked_def exps(1) filter_empty_conv)
    moreover have "import_rows d' (rim_id x) = import_rows d (rim_id x)"
      using rows(3) False by (intro import_rows_other [OF rows(1,2)]) auto
    ultimately show ?thesis using each x by (auto simp: import_ok_def recs)
  qed
  ultimately show ?thesis by (simp add: imports_ok_def)
qed

lemma import_step_ok: "import_step d d' \<Longrightarrow> imports_ok d \<Longrightarrow> imports_ok d'"
  by (induction rule: import_step.induct)
    (blast intro: upload_ok ocr_ok retry_ok source_failed_ok edit_ok confirm_ok)+

lemma imports_reachable: "import_step\<^sup>*\<^sup>* d0 d \<Longrightarrow> imports_ok d0 \<Longrightarrow> imports_ok d"
  by (induction rule: rtranclp_induct) (blast intro: import_step_ok)+

section \<open>Readings that are overtaken\<close>

lemma retry_begin_item:
  assumes "retry_begin g now club iid by' d = Inr ((jid, name, key), d')"
  obtains item where "club_import club iid d' = Some item" and "rim_job_id item = Some jid" and "rim_status item = Import_PROCESSING"
proof -
  from assms obtain item where item: "club_import club iid d = Some item"
    by (auto simp: retry_begin_def split: option.splits)
  from assms item obtain d1 where job: "open_ocr_job g now by' item d1 = Inr (jid, d')"
    and d1: "receipt_imports d1 = receipt_imports d"
    by (auto simp: retry_begin_def and_then_eq_Inr split: if_splits option.splits)
  let ?item = "item\<lparr>rim_job_id := Some jid, rim_status := Import_PROCESSING, rim_error := None\<rparr>"
  have "get_row rim_id (receipt_imports d) iid = Some item" "rim_id item = iid" "rim_club_id item = club"
    using item club_import_Some [OF item] by (auto simp: club_import_def find_receipt_import_def split: option.splits if_splits)
  then have "club_import club iid d' = Some ?item"
    using get_put_row [of rim_id "receipt_imports d" ?item item iid]
    by (simp add: club_import_def find_receipt_import_def open_ocr_job_tables(1) [OF job] d1)
  then show ?thesis by (rule that) simp_all
qed

lemma ocr_of_other_job:
  assumes "club_import club iid d = Some item" and "rim_job_id item \<noteq> Some jid \<or> rim_status item \<noteq> Import_PROCESSING"
  shows "run_receipt_ocr g now midnight answer club iid jid d = Inr d"
  using assms by (auto simp: run_receipt_ocr_def)

lemma source_failed_item:
  assumes "club_import club iid d = Some item" and "find_agent_job d jid = Some j"
  shows "club_import club iid (retry_source_failed now iid jid d) =
    Some (item\<lparr>rim_status := Import_FAILED, rim_error := Some ''OCR_SOURCE_UNAVAILABLE''\<rparr>)"
proof -
  let ?item = "item\<lparr>rim_status := Import_FAILED, rim_error := Some ''OCR_SOURCE_UNAVAILABLE''\<rparr>"
  have i: "find_receipt_import d iid = Some item" "rim_id item = iid" "rim_club_id item = club"
    using assms(1) club_import_Some [OF assms(1)] by (auto simp: club_import_def split: option.splits if_splits)
  then have "get_row rim_id (put_row rim_id ?item (receipt_imports d)) iid = Some ?item"
    using get_put_row [of rim_id "receipt_imports d" ?item item iid] by (simp add: find_receipt_import_def)
  moreover have "receipt_imports (retry_source_failed now iid jid d) = put_row rim_id ?item (receipt_imports d)"
    using i(1) by (simp add: retry_source_failed_def assms(2))
  ultimately show ?thesis using i(3) by (simp add: club_import_def find_receipt_import_def)
qed

end
