(* ===== verification/Task_Desk.thy ===== *)
theory Task_Desk
  imports Access
begin

text \<open>
  From a task suggestion to a reminder: \<open>app/services/task_service.py\<close>,
  \<open>app/services/reminder_service.py\<close> and the rows of \<open>models/tasks.py\<close>, \<open>models/reminders.py\<close>,
  \<open>models/push.py\<close>, \<open>models/agent.py\<close>, \<open>models/meetings.py\<close> and \<open>models/meeting_review.py\<close>. A person
  confirms a suggestion into an item with one reminder; the item is changed and cancelled under its
  version. The SHA-256 of a confirmation and the IANA time zones are parameters.
\<close>

section \<open>Rows\<close>

datatype item_kind = Item_TASK | Item_SCHEDULE

record task_suggestion =
  tsk_id :: ident
  tsk_club_id :: ident
  tsk_decision_id :: ident
  tsk_source_type :: context_source_type
  tsk_title :: pystr
  tsk_description :: "pystr option"
  tsk_suggested_assignee :: "pystr option"
  tsk_suggested_assignee_member_id :: "ident option"
  tsk_due_date :: "date option"
  tsk_kind :: "item_kind option"
  tsk_due_at :: "instant option"
  tsk_scheduled_at :: "instant option"
  tsk_unresolved_fields :: "pystr list"
  tsk_evidence :: "dict list"
  tsk_status :: task_suggestion_status
  tsk_version :: int
  tsk_accepted_by :: "ident option"
  tsk_accepted_at :: "instant option"
  tsk_created_at :: instant

record context_decision =
  cdc_id :: ident
  cdc_club_id :: ident
  cdc_job_id :: ident
  cdc_source_type :: context_source_type
  cdc_meeting_id :: "ident option"
  cdc_discord_connection_id :: "ident option"
  cdc_sources :: "dict list"
  cdc_status :: context_decision_status
  cdc_route :: judge_route
  cdc_kind :: judge_kind
  cdc_reason_summary :: "pystr option"
  cdc_question :: "pystr option"
  cdc_output :: "pystr option"
  cdc_citations :: "dict list option"
  cdc_tool_calls :: "dict list"
  cdc_model_version :: pystr
  cdc_policy_version :: pystr
  cdc_judge_input :: "dict option"
  cdc_judge_ms :: "int option"
  cdc_created_at :: instant

record transcript_segment =
  tsg_id :: ident
  tsg_meeting_id :: ident
  tsg_seq :: int
  tsg_text :: pystr
  tsg_is_final :: bool
  tsg_version :: int
  tsg_speaker_label :: "pystr option"
  tsg_start_ms :: "int option"
  tsg_end_ms :: "int option"
  tsg_change_seq :: int
  tsg_audio_chunk_id :: "ident option"
  tsg_decision_job_id :: "ident option"

datatype item_status = Item_ACTIVE | Item_CANCELLED

record confirmed_task =
  ctk_id :: ident
  ctk_club_id :: ident
  ctk_suggestion_id :: ident
  ctk_source_version :: int
  ctk_confirmation_hash :: string
  ctk_kind :: item_kind
  ctk_title :: pystr
  ctk_description :: "pystr option"
  ctk_assignee_name :: "pystr option"
  ctk_assignee_account_id :: "ident option"
  ctk_due_at :: "instant option"
  ctk_scheduled_at :: "instant option"
  ctk_timezone :: pystr
  ctk_status :: item_status
  ctk_confirmed_by :: "ident option"
  ctk_version :: int
  ctk_created_at :: instant

datatype reminder_status = Reminder_PENDING | Reminder_SENDING | Reminder_SERVICE_ACCEPTED
  | Reminder_FAILED | Reminder_CANCELLED

record task_reminder =
  rmd_id :: ident
  rmd_club_id :: ident
  rmd_item_id :: ident
  rmd_reminder_at :: instant
  rmd_recipients :: "ident list"
  rmd_status :: reminder_status
  rmd_attempted_at :: "instant option"
  rmd_last_error :: "string list option"
  rmd_accepted_count :: int
  rmd_failed_count :: int
  rmd_version :: int

record push_subscription =
  psh_id :: ident
  psh_account_id :: ident
  psh_endpoint_hash :: string
  psh_endpoint :: pystr
  psh_p256dh :: string
  psh_auth :: string
  psh_expiration_time :: "instant option"
  psh_active :: bool
  psh_last_used_at :: "instant option"
  psh_last_error :: "string option"
  psh_created_at :: instant

text \<open>Meetings with their recorded audio, and the review after a meeting.\<close>

record meeting_row =
  mtg_id :: ident
  mtg_club_id :: ident
  mtg_event_id :: "ident option"
  mtg_title :: "pystr option"
  mtg_language :: pystr
  mtg_status :: meeting_status
  mtg_started_at :: "instant option"
  mtg_ended_at :: "instant option"
  mtg_consent_by :: "ident option"
  mtg_consent_at :: "instant option"
  mtg_created_by :: ident
  mtg_version :: int
  mtg_transcript_cursor :: int
  mtg_created_at :: instant

record audio_chunk =
  auc_id :: ident
  auc_meeting_id :: ident
  auc_seq :: int
  auc_start_ms :: int
  auc_end_ms :: int
  auc_storage_key :: "pystr option"
  auc_sha256 :: string
  auc_mime_type :: "pystr option"
  auc_size :: nat
  auc_job_id :: ident

datatype review_state = RS_QUEUED | RS_SUBMITTING | RS_SUBMISSION_UNKNOWN | RS_PROCESSING
  | RS_NEEDS_REVIEW | RS_DRAFT_READY | RS_FAILED

record speaker_turn =
  tn_start_ms :: int
  tn_end_ms :: int
  tn_label :: pystr

record speaker_mapping =
  spm_member_id :: "ident option"
  spm_name :: "pystr option"
  spm_confirmed :: bool

record meeting_review =
  mrv_id :: ident
  mrv_meeting_id :: ident
  mrv_job_id :: ident
  mrv_status :: review_state
  mrv_version :: int
  mrv_provider_job_id :: "pystr option"
  mrv_duration_ms :: "int option"
  mrv_turns :: "speaker_turn list option"
  mrv_speaker_names :: "(pystr \<times> pystr) list option"
  mrv_speaker_mappings :: "(pystr \<times> speaker_mapping) list option"
  mrv_draft :: "dict option"
  mrv_error_code :: "string option"
  mrv_candidate_request_id :: "pystr option"
  mrv_candidate_hash :: "string option"
  mrv_candidate_ids :: "ident list option"

text \<open>The tables of the assistant beside those of the clubs.\<close>

record desk =
  base :: db
  suggestions :: "task_suggestion list"
  decisions :: "context_decision list"
  segments :: "transcript_segment list"
  confirmed_tasks :: "confirmed_task list"
  reminders :: "task_reminder list"
  subscriptions :: "push_subscription list"
  meetings :: "meeting_row list"
  audio_chunks :: "audio_chunk list"
  meeting_reviews :: "meeting_review list"

definition find_suggestion :: "desk \<Rightarrow> ident \<Rightarrow> task_suggestion option" where
  "find_suggestion k i = get_row tsk_id (suggestions k) i"

definition put_suggestion :: "task_suggestion \<Rightarrow> desk \<Rightarrow> desk" where
  "put_suggestion r k = k\<lparr>suggestions := put_row tsk_id r (suggestions k)\<rparr>"

definition find_item :: "desk \<Rightarrow> ident \<Rightarrow> confirmed_task option" where
  "find_item k i = get_row ctk_id (confirmed_tasks k) i"

definition put_item :: "confirmed_task \<Rightarrow> desk \<Rightarrow> desk" where
  "put_item r k = k\<lparr>confirmed_tasks := put_row ctk_id r (confirmed_tasks k)\<rparr>"

definition find_reminder :: "desk \<Rightarrow> ident \<Rightarrow> task_reminder option" where
  "find_reminder k i = get_row rmd_id (reminders k) i"

definition put_reminder :: "task_reminder \<Rightarrow> desk \<Rightarrow> desk" where
  "put_reminder r k = k\<lparr>reminders := put_row rmd_id r (reminders k)\<rparr>"

definition find_subscription :: "desk \<Rightarrow> ident \<Rightarrow> push_subscription option" where
  "find_subscription k i = get_row psh_id (subscriptions k) i"

definition put_subscription :: "push_subscription \<Rightarrow> desk \<Rightarrow> desk" where
  "put_subscription r k = k\<lparr>subscriptions := put_row psh_id r (subscriptions k)\<rparr>"

interpretation suggestion_table: row_store tsk_id find_suggestion put_suggestion
  by unfold_locales (auto simp: find_suggestion_def put_suggestion_def get_row_key get_put_row)

interpretation item_table: row_store ctk_id find_item put_item
  by unfold_locales (auto simp: find_item_def put_item_def get_row_key get_put_row)

interpretation reminder_table: row_store rmd_id find_reminder put_reminder
  by unfold_locales (auto simp: find_reminder_def put_reminder_def get_row_key get_put_row)

interpretation subscription_table: row_store psh_id find_subscription put_subscription
  by unfold_locales (auto simp: find_subscription_def put_subscription_def get_row_key get_put_row)

section \<open>Suggestions\<close>

text \<open>The meeting filter joins the decision of the same club.\<close>

definition of_meeting :: "desk \<Rightarrow> ident \<Rightarrow> ident \<Rightarrow> ident \<Rightarrow> bool" where
  "of_meeting k club meeting decision_id \<longleftrightarrow>
     (\<exists>c \<in> set (decisions k). cdc_id c = decision_id \<and> cdc_club_id c = club \<and> cdc_meeting_id c = Some meeting)"

definition list_suggestions ::
  "ident \<Rightarrow> context_source_type option \<Rightarrow> task_suggestion_status option \<Rightarrow> ident option \<Rightarrow> desk \<Rightarrow> task_suggestion list" where
  "list_suggestions club source_type status meeting k =
     sort_key (\<lambda>s. - tsk_created_at s)
       (filter (\<lambda>s. tsk_club_id s = club \<and>
                    (case meeting of None \<Rightarrow> True | Some m \<Rightarrow> of_meeting k club m (tsk_decision_id s)) \<and>
                    (case source_type of None \<Rightarrow> True | Some t \<Rightarrow> tsk_source_type s = t) \<and>
                    (case status of None \<Rightarrow> True | Some x \<Rightarrow> tsk_status s = x))
               (suggestions k))"

definition get_suggestion :: "ident \<Rightarrow> ident \<Rightarrow> desk \<Rightarrow> api_error + task_suggestion" where
  "get_suggestion club sid k =
     (case find_suggestion k sid of
        None \<Rightarrow> Inl TaskSuggestionNotFound
      | Some s \<Rightarrow> if tsk_club_id s \<noteq> club then Inl TaskSuggestionNotFound else Inr s)"

text \<open>\<open>_get_proposed\<close>\<close>

definition get_proposed :: "ident \<Rightarrow> ident \<Rightarrow> int \<Rightarrow> desk \<Rightarrow> api_error + task_suggestion" where
  "get_proposed club sid expected k =
     and_then (get_suggestion club sid k) (\<lambda>s.
       if tsk_version s \<noteq> expected then Inl VersionConflict
       else if tsk_status s \<noteq> Suggestion_PROPOSED then Inl TaskSuggestionNotProposed
       else Inr s)"

text \<open>\<open>TaskSuggestionPatchIn\<close>: \<open>None\<close> for a field that was not sent, \<open>Some None\<close> for null.\<close>

record suggestion_patch =
  tp_title :: "pystr option option"
  tp_description :: "pystr option option"
  tp_suggested_assignee :: "pystr option option"
  tp_due_date :: "date option option"

definition patched :: "suggestion_patch \<Rightarrow> task_suggestion \<Rightarrow> task_suggestion" where
  "patched p s =
     s\<lparr>tsk_title := (case tp_title p of Some (Some t) \<Rightarrow> t | _ \<Rightarrow> tsk_title s),
       tsk_description := (case tp_description p of Some v \<Rightarrow> v | None \<Rightarrow> tsk_description s),
       tsk_suggested_assignee := (case tp_suggested_assignee p of Some v \<Rightarrow> v | None \<Rightarrow> tsk_suggested_assignee s),
       tsk_due_date := (case tp_due_date p of Some v \<Rightarrow> v | None \<Rightarrow> tsk_due_date s),
       tsk_version := tsk_version s + 1\<rparr>"

text \<open>The title may not be null, and the columns are 200 and 100 characters wide.\<close>

definition update_suggestion ::
  "suggestion_patch \<Rightarrow> ident \<Rightarrow> ident \<Rightarrow> int \<Rightarrow> desk \<Rightarrow> api_error + (task_suggestion \<times> desk)" where
  "update_suggestion p club sid expected k =
     and_then (get_proposed club sid expected k) (\<lambda>s.
       let s' = patched p s in
       if tp_title p = Some None then Inl (Unhandled ''IntegrityError'')
       else if \<not> (fits_varchar 200 (Some (tsk_title s')) \<and> fits_varchar 100 (tsk_suggested_assignee s'))
       then Inl (Unhandled ''DBAPIError'')
       else Inr (s', put_suggestion s' k))"

definition accepted :: "instant \<Rightarrow> ident \<Rightarrow> task_suggestion \<Rightarrow> task_suggestion" where
  "accepted now by' s =
     s\<lparr>tsk_status := Suggestion_ACCEPTED, tsk_accepted_by := Some by', tsk_accepted_at := Some now,
       tsk_version := tsk_version s + 1\<rparr>"

definition accept_suggestion ::
  "instant \<Rightarrow> ident \<Rightarrow> ident \<Rightarrow> ident \<Rightarrow> int \<Rightarrow> desk \<Rightarrow> api_error + (task_suggestion \<times> desk)" where
  "accept_suggestion now accepted_by club sid expected k =
     and_then (get_proposed club sid expected k) (\<lambda>s.
       Inr (accepted now accepted_by s, put_suggestion (accepted now accepted_by s) k))"

section \<open>What is confirmed\<close>

text \<open>\<open>ConfirmedFields\<close> of \<open>app/schemas/reminders.py\<close>\<close>

record confirmed_fields =
  cf_kind :: item_kind
  cf_title :: pystr
  cf_description :: "pystr option"
  cf_assignee_name :: "pystr option"
  cf_assignee_account_id :: "ident option"
  cf_due_at :: "instant option"
  cf_scheduled_at :: "instant option"
  cf_timezone :: pystr
  cf_reminder_at :: instant
  cf_recipients :: "ident list"

definition item_at :: "confirmed_fields \<Rightarrow> instant option" where
  "item_at b = (if cf_kind b = Item_TASK then cf_due_at b else cf_scheduled_at b)"

text \<open>\<open>exact_item_time\<close>\<close>

definition exact_item_time :: "confirmed_fields \<Rightarrow> bool" where
  "exact_item_time b \<longleftrightarrow>
     \<not> (cf_kind b = Item_TASK \<and> (cf_due_at b = None \<or> cf_scheduled_at b \<noteq> None)) \<and>
     \<not> (cf_kind b = Item_SCHEDULE \<and> (cf_scheduled_at b = None \<or> cf_due_at b \<noteq> None)) \<and>
     (case item_at b of None \<Rightarrow> True | Some t \<Rightarrow> cf_reminder_at b \<le> t)"

text \<open>
  Validation of a request body: \<open>None\<close> is a refusal (422), otherwise the normal form with the title
  stripped and the recipients sorted without duplicates.
\<close>

definition validate_fields :: "(pystr \<Rightarrow> bool) \<Rightarrow> confirmed_fields \<Rightarrow> confirmed_fields option" where
  "validate_fields known_timezone b =
     (if cf_title b \<noteq> [] \<and> length (cf_title b) \<le> 200 \<and> py_strip (cf_title b) \<noteq> [] \<and>
         fits_varchar 10000 (cf_description b) \<and> fits_varchar 100 (cf_assignee_name b) \<and>
         (case cf_assignee_account_id b of None \<Rightarrow> True | Some a \<Rightarrow> 1 \<le> length a \<and> length a \<le> 26) \<and>
         length (cf_timezone b) \<le> 64 \<and> known_timezone (cf_timezone b) \<and>
         1 \<le> length (cf_recipients b) \<and> length (cf_recipients b) \<le> 100 \<and>
         list_all (\<lambda>a. py_strip (lit a) \<noteq> [] \<and> length a \<le> 26) (cf_recipients b) \<and> exact_item_time b
      then Some (b\<lparr>cf_title := py_strip (cf_title b), cf_recipients := sort (remdups (cf_recipients b))\<rparr>)
      else None)"

text \<open>The accounts of the active officers of a club.\<close>

definition officer_accounts :: "db \<Rightarrow> ident \<Rightarrow> ident list" where
  "officer_accounts d club =
     List.map_filter (\<lambda>m. if mb_club_id m = club \<and> mb_status m = Member_ACTIVE \<and> mb_role m \<in> set SERVICE_ROLES
                          then mb_account_id m else None) (members d)"

definition list_recipients :: "ident \<Rightarrow> db \<Rightarrow> member list" where
  "list_recipients club d =
     sort_key (\<lambda>m. (mb_name m, mb_id m))
       (filter (\<lambda>m. mb_club_id m = club \<and> mb_status m = Member_ACTIVE \<and> mb_role m \<in> set SERVICE_ROLES \<and>
                    mb_account_id m \<noteq> None) (members d))"

text \<open>\<open>_validate_confirmation\<close>: the names of the offending fields, in the order they are checked.\<close>

definition confirmation_errors :: "instant \<Rightarrow> ident \<Rightarrow> confirmed_fields \<Rightarrow> db \<Rightarrow> string list" where
  "confirmation_errors now club b d =
     (let valid = officer_accounts d club in
      (case item_at b of
         None \<Rightarrow> []
       | Some t \<Rightarrow> if t \<le> now then [if cf_kind b = Item_TASK then ''dueAt'' else ''scheduledAt''] else []) @
      (if cf_reminder_at b \<le> now then [''reminderAt''] else []) @
      (if \<not> list_all (\<lambda>a. a \<in> set valid) (cf_recipients b) then [''recipientAccountIds''] else []) @
      (case cf_assignee_account_id b of
         None \<Rightarrow> []
       | Some a \<Rightarrow> if a \<notin> set valid then [''assigneeAccountId''] else []))"

definition validate_confirmation :: "instant \<Rightarrow> ident \<Rightarrow> confirmed_fields \<Rightarrow> db \<Rightarrow> api_error + unit" where
  "validate_confirmation now club b d =
     (if confirmation_errors now club b d \<noteq> [] then Inl (ValidationFailed (confirmation_errors now club b d)) else Inr ())"

text \<open>An integer compared with a JSON value: \<open>True\<close> and \<open>False\<close> count as 1 and 0.\<close>

fun json_is_int :: "int \<Rightarrow> json option \<Rightarrow> bool" where
  "json_is_int v (Some (JInt n)) = (n = v)"
| "json_is_int v (Some (JBool b)) = (v = (if b then 1 else 0))"
| "json_is_int v _ = False"

fun source_id :: "dict \<Rightarrow> pystr option" where
  "source_id src = (case map_of src ''sourceId'' of Some (JStr s) \<Rightarrow> Some s | _ \<Rightarrow> None)"

text \<open>\<open>_assert_current_source\<close>\<close>

definition current_source :: "task_suggestion \<Rightarrow> desk \<Rightarrow> bool" where
  "current_source s k \<longleftrightarrow>
     (case get_row cdc_id (decisions k) (tsk_decision_id s) of
        None \<Rightarrow> False
      | Some c \<Rightarrow>
          cdc_club_id c = tsk_club_id s \<and>
          (tsk_source_type s = MEETING_TRANSCRIPT \<longrightarrow>
             cdc_sources c \<noteq> [] \<and>
             list_all (\<lambda>src.
               (case source_id src of
                  None \<Rightarrow> False
                | Some sid \<Rightarrow>
                    (case find (\<lambda>g. lit (tsg_id g) = sid) (segments k) of
                       None \<Rightarrow> False
                     | Some g \<Rightarrow> cdc_meeting_id c = Some (tsg_meeting_id g) \<and>
                                 json_is_int (tsg_version g) (map_of src ''sourceVersion'')))) (cdc_sources c)) \<and>
          cdc_status c \<noteq> Decision_STALE)"

section \<open>Confirming\<close>

definition new_item ::
  "rnd \<Rightarrow> instant \<Rightarrow> string \<Rightarrow> ident \<Rightarrow> ident \<Rightarrow> int \<Rightarrow> ident \<Rightarrow> confirmed_fields \<Rightarrow> db \<Rightarrow> confirmed_task" where
  "new_item g now fingerprint club sid expected by' b d =
     \<lparr>ctk_id = new_id g d ''ctk'', ctk_club_id = club, ctk_suggestion_id = sid, ctk_source_version = expected,
      ctk_confirmation_hash = fingerprint, ctk_kind = cf_kind b, ctk_title = cf_title b,
      ctk_description = cf_description b, ctk_assignee_name = cf_assignee_name b,
      ctk_assignee_account_id = cf_assignee_account_id b, ctk_due_at = cf_due_at b,
      ctk_scheduled_at = cf_scheduled_at b, ctk_timezone = cf_timezone b, ctk_status = Item_ACTIVE,
      ctk_confirmed_by = Some by', ctk_version = 1, ctk_created_at = now\<rparr>"

definition new_reminder :: "rnd \<Rightarrow> ident \<Rightarrow> ident \<Rightarrow> confirmed_fields \<Rightarrow> db \<Rightarrow> task_reminder" where
  "new_reminder g club item_id b d =
     \<lparr>rmd_id = new_id g d ''rmd'', rmd_club_id = club, rmd_item_id = item_id, rmd_reminder_at = cf_reminder_at b,
      rmd_recipients = cf_recipients b, rmd_status = Reminder_PENDING, rmd_attempted_at = None,
      rmd_last_error = None, rmd_accepted_count = 0, rmd_failed_count = 0, rmd_version = 1\<rparr>"

definition insert_item :: "confirmed_task \<Rightarrow> desk \<Rightarrow> api_error + desk" where
  "insert_item r k =
     (if ctk_suggestion_id r \<in> ctk_suggestion_id ` set (confirmed_tasks k) then Inl (Unhandled ''IntegrityError'')
      else and_then (insert_row ctk_id r (confirmed_tasks k)) (\<lambda>rows. Inr (k\<lparr>confirmed_tasks := rows\<rparr>)))"

definition insert_reminder :: "task_reminder \<Rightarrow> desk \<Rightarrow> api_error + desk" where
  "insert_reminder r k =
     (if rmd_item_id r \<in> rmd_item_id ` set (reminders k) then Inl (Unhandled ''IntegrityError'')
      else and_then (insert_row rmd_id r (reminders k)) (\<lambda>rows. Inr (k\<lparr>reminders := rows\<rparr>)))"

definition draw :: "desk \<Rightarrow> desk" where
  "draw k = k\<lparr>base := drawn (base k)\<rparr>"

text \<open>\<open>hash\<close> stands for the digest of the canonical JSON of the body.\<close>

definition confirm_suggestion ::
  "rnd \<Rightarrow> (confirmed_fields \<Rightarrow> string) \<Rightarrow> instant \<Rightarrow> confirmed_fields \<Rightarrow> ident \<Rightarrow> ident \<Rightarrow> ident \<Rightarrow> int \<Rightarrow> desk
     \<Rightarrow> api_error + (confirmed_task \<times> desk)" where
  "confirm_suggestion g hash now b club confirmed_by sid expected k =
     and_then (get_suggestion club sid k) (\<lambda>s.
     case find (\<lambda>i. ctk_suggestion_id i = sid) (confirmed_tasks k) of
       Some i \<Rightarrow>
         if ctk_source_version i \<noteq> expected \<or> ctk_confirmation_hash i \<noteq> hash b then Inl IdempotencyConflict
         else Inr (i, k)
     | None \<Rightarrow>
         if tsk_version s \<noteq> expected then Inl VersionConflict
         else if tsk_status s \<notin> {Suggestion_PROPOSED, Suggestion_ACCEPTED} then Inl TaskSuggestionNotProposed
         else if \<not> current_source s k then Inl TaskSuggestionStale
         else and_then (validate_confirmation now club b (base k)) (\<lambda>_.
              let i = new_item g now (hash b) club (tsk_id s) expected confirmed_by b (base k) in
              and_then (insert_item i (draw k)) (\<lambda>k1.
              and_then (insert_reminder (new_reminder g club (ctk_id i) b (base k1)) (draw k1)) (\<lambda>k2.
                Inr (i, if tsk_status s = Suggestion_PROPOSED then put_suggestion (accepted now confirmed_by s) k2 else k2)))))"

section \<open>Items\<close>

definition list_confirmed_tasks :: "ident \<Rightarrow> ident option \<Rightarrow> ident option \<Rightarrow> desk \<Rightarrow> confirmed_task list" where
  "list_confirmed_tasks club suggestion meeting k =
     sort_key (\<lambda>i. - ctk_created_at i)
       (filter (\<lambda>i. ctk_club_id i = club \<and>
                    (case meeting of
                       None \<Rightarrow> True
                     | Some m \<Rightarrow> \<exists>s \<in> set (suggestions k). tsk_id s = ctk_suggestion_id i \<and> of_meeting k club m (tsk_decision_id s)) \<and>
                    (case suggestion of None \<Rightarrow> True | Some sid \<Rightarrow> ctk_suggestion_id i = sid))
               (confirmed_tasks k))"

definition get_confirmed_task :: "ident \<Rightarrow> ident \<Rightarrow> desk \<Rightarrow> api_error + confirmed_task" where
  "get_confirmed_task club iid k =
     (case find_item k iid of
        None \<Rightarrow> Inl ConfirmedTaskNotFound
      | Some i \<Rightarrow> if ctk_club_id i \<noteq> club then Inl ConfirmedTaskNotFound else Inr i)"

definition item_reminder :: "desk \<Rightarrow> ident \<Rightarrow> task_reminder option" where
  "item_reminder k iid = find (\<lambda>r. rmd_item_id r = iid) (reminders k)"

text \<open>\<open>_editable_item\<close>\<close>

definition editable_item :: "ident \<Rightarrow> ident \<Rightarrow> int \<Rightarrow> desk \<Rightarrow> api_error + (confirmed_task \<times> task_reminder)" where
  "editable_item club iid expected k =
     and_then (get_confirmed_task club iid k) (\<lambda>i.
       if ctk_version i \<noteq> expected then Inl VersionConflict
       else (case item_reminder k (ctk_id i) of
               None \<Rightarrow> Inl (Unhandled ''AssertionError'')
             | Some r \<Rightarrow>
                 if rmd_status r = Reminder_SENDING then Inl ReminderDispatchInProgress else Inr (i, r)))"

definition changed_item :: "confirmed_fields \<Rightarrow> confirmed_task \<Rightarrow> confirmed_task" where
  "changed_item b i =
     i\<lparr>ctk_kind := cf_kind b, ctk_title := cf_title b, ctk_description := cf_description b,
       ctk_assignee_name := cf_assignee_name b, ctk_assignee_account_id := cf_assignee_account_id b,
       ctk_due_at := cf_due_at b, ctk_scheduled_at := cf_scheduled_at b, ctk_timezone := cf_timezone b,
       ctk_version := ctk_version i + 1\<rparr>"

definition rearmed :: "confirmed_fields \<Rightarrow> task_reminder \<Rightarrow> task_reminder" where
  "rearmed b r =
     r\<lparr>rmd_reminder_at := cf_reminder_at b, rmd_recipients := cf_recipients b, rmd_status := Reminder_PENDING,
       rmd_attempted_at := None, rmd_last_error := None, rmd_accepted_count := 0, rmd_failed_count := 0,
       rmd_version := rmd_version r + 1\<rparr>"

definition update_confirmed_task ::
  "instant \<Rightarrow> confirmed_fields \<Rightarrow> ident \<Rightarrow> ident \<Rightarrow> int \<Rightarrow> desk \<Rightarrow> api_error + (confirmed_task \<times> desk)" where
  "update_confirmed_task now b club iid expected k =
     and_then (editable_item club iid expected k) (\<lambda>(i, r).
       if ctk_status i = Item_CANCELLED then Inl ConfirmedTaskCancelled
       else and_then (validate_confirmation now club b (base k)) (\<lambda>_.
         Inr (changed_item b i, put_reminder (rearmed b r) (put_item (changed_item b i) k))))"

definition cancel_confirmed_task :: "ident \<Rightarrow> ident \<Rightarrow> int \<Rightarrow> desk \<Rightarrow> api_error + (confirmed_task \<times> desk)" where
  "cancel_confirmed_task club iid expected k =
     and_then (editable_item club iid expected k) (\<lambda>(i, r).
       if ctk_status i = Item_CANCELLED then Inr (i, k)
       else let i' = i\<lparr>ctk_status := Item_CANCELLED, ctk_version := ctk_version i + 1\<rparr>;
                k1 = put_item i' k
            in Inr (i', if rmd_status r = Reminder_PENDING
                        then put_reminder (r\<lparr>rmd_status := Reminder_CANCELLED, rmd_version := rmd_version r + 1\<rparr>) k1
                        else k1))"

section \<open>The routes\<close>

text \<open>Reading needs a membership, writing one of the writer roles (\<open>routers/tasks.py\<close>, \<open>confirmed_tasks.py\<close>).\<close>

definition list_task_suggestions_endpoint ::
  "ident \<Rightarrow> ident \<Rightarrow> context_source_type option \<Rightarrow> task_suggestion_status option \<Rightarrow> ident option \<Rightarrow> desk
     \<Rightarrow> api_error + task_suggestion list" where
  "list_task_suggestions_endpoint account club source_type status meeting k =
     and_then (require_member club account (base k)) (\<lambda>m. Inr (list_suggestions club source_type status meeting k))"

definition get_task_suggestion_endpoint :: "ident \<Rightarrow> ident \<Rightarrow> ident \<Rightarrow> desk \<Rightarrow> api_error + task_suggestion" where
  "get_task_suggestion_endpoint account club sid k =
     and_then (require_member club account (base k)) (\<lambda>m. get_suggestion club sid k)"

definition update_task_suggestion_endpoint ::
  "suggestion_patch \<Rightarrow> ident \<Rightarrow> ident \<Rightarrow> ident \<Rightarrow> int \<Rightarrow> desk \<Rightarrow> api_error + (task_suggestion \<times> desk)" where
  "update_task_suggestion_endpoint p account club sid expected k =
     and_then (require_club_role WRITER_ROLES club account (base k)) (\<lambda>m. update_suggestion p club sid expected k)"

definition accept_task_suggestion_endpoint ::
  "instant \<Rightarrow> ident \<Rightarrow> ident \<Rightarrow> ident \<Rightarrow> int \<Rightarrow> desk \<Rightarrow> api_error + (task_suggestion \<times> desk)" where
  "accept_task_suggestion_endpoint now account club sid expected k =
     and_then (require_club_role WRITER_ROLES club account (base k)) (\<lambda>m.
       accept_suggestion now (mb_id m) club sid expected k)"

definition confirm_task_suggestion_endpoint ::
  "rnd \<Rightarrow> (confirmed_fields \<Rightarrow> string) \<Rightarrow> instant \<Rightarrow> confirmed_fields \<Rightarrow> ident \<Rightarrow> ident \<Rightarrow> ident \<Rightarrow> int \<Rightarrow> desk
     \<Rightarrow> api_error + (confirmed_task \<times> desk)" where
  "confirm_task_suggestion_endpoint g hash now b account club sid expected k =
     and_then (require_club_role WRITER_ROLES club account (base k)) (\<lambda>m.
       confirm_suggestion g hash now b club (mb_id m) sid expected k)"

definition list_confirmed_tasks_endpoint ::
  "ident \<Rightarrow> ident \<Rightarrow> ident option \<Rightarrow> ident option \<Rightarrow> desk \<Rightarrow> api_error + confirmed_task list" where
  "list_confirmed_tasks_endpoint account club suggestion meeting k =
     and_then (require_member club account (base k)) (\<lambda>m. Inr (list_confirmed_tasks club suggestion meeting k))"

definition get_confirmed_task_endpoint :: "ident \<Rightarrow> ident \<Rightarrow> ident \<Rightarrow> desk \<Rightarrow> api_error + confirmed_task" where
  "get_confirmed_task_endpoint account club iid k =
     and_then (require_member club account (base k)) (\<lambda>m. get_confirmed_task club iid k)"

definition update_confirmed_task_endpoint ::
  "instant \<Rightarrow> confirmed_fields \<Rightarrow> ident \<Rightarrow> ident \<Rightarrow> ident \<Rightarrow> int \<Rightarrow> desk \<Rightarrow> api_error + (confirmed_task \<times> desk)" where
  "update_confirmed_task_endpoint now b account club iid expected k =
     and_then (require_club_role WRITER_ROLES club account (base k)) (\<lambda>m. update_confirmed_task now b club iid expected k)"

definition cancel_confirmed_task_endpoint ::
  "ident \<Rightarrow> ident \<Rightarrow> ident \<Rightarrow> int \<Rightarrow> desk \<Rightarrow> api_error + (confirmed_task \<times> desk)" where
  "cancel_confirmed_task_endpoint account club iid expected k =
     and_then (require_club_role WRITER_ROLES club account (base k)) (\<lambda>m. cancel_confirmed_task club iid expected k)"

end
