(* ===== verification/Push_Dispatch.thy ===== *)
theory Push_Dispatch
  imports Task_Desk
begin

text \<open>
  Devices and the delivery of reminders, \<open>app/services/push_service.py\<close>: registering and removing a
  subscription, the test message, and the dispatcher that claims due reminders one by one. The
  transport is a parameter that answers for each subscription; the digest of an endpoint is given with
  it. Tables are read in the order of their rows.
\<close>

section \<open>Subscriptions\<close>

definition list_subscriptions :: "ident \<Rightarrow> desk \<Rightarrow> push_subscription list" where
  "list_subscriptions account k =
     sort_key (\<lambda>s. - psh_created_at s) (filter (\<lambda>s. psh_account_id s = account) (subscriptions k))"

text \<open>\<open>PushSubscriptionIn\<close> with the digest of its endpoint.\<close>

record subscription_in =
  si_endpoint_hash :: string
  si_endpoint :: pystr
  si_p256dh :: string
  si_auth :: string
  si_expiration_time :: "instant option"

definition registered :: "subscription_in \<Rightarrow> push_subscription \<Rightarrow> push_subscription" where
  "registered b s =
     s\<lparr>psh_endpoint := si_endpoint b, psh_p256dh := si_p256dh b, psh_auth := si_auth b,
       psh_expiration_time := si_expiration_time b, psh_active := True, psh_last_error := None\<rparr>"

definition register_subscription ::
  "rnd \<Rightarrow> instant \<Rightarrow> subscription_in \<Rightarrow> ident \<Rightarrow> desk \<Rightarrow> api_error + (push_subscription \<times> desk)" where
  "register_subscription g now b account k =
     (case find (\<lambda>s. psh_endpoint_hash s = si_endpoint_hash b) (subscriptions k) of
        Some s \<Rightarrow>
          if psh_account_id s \<noteq> account then Inl PushSubscriptionConflict
          else Inr (registered b s, put_subscription (registered b s) k)
      | None \<Rightarrow>
          let s = registered b
                \<lparr>psh_id = new_id g (base k) ''psh'', psh_account_id = account, psh_endpoint_hash = si_endpoint_hash b,
                 psh_endpoint = [], psh_p256dh = [], psh_auth = [], psh_expiration_time = None, psh_active = True,
                 psh_last_used_at = None, psh_last_error = None, psh_created_at = now\<rparr>
          in and_then (insert_row psh_id s (subscriptions k)) (\<lambda>rows. Inr (s, (draw k)\<lparr>subscriptions := rows\<rparr>)))"

definition delete_subscription :: "ident \<Rightarrow> ident \<Rightarrow> desk \<Rightarrow> api_error + desk" where
  "delete_subscription account sid k =
     (case find_subscription k sid of
        None \<Rightarrow> Inl PushSubscriptionNotFound
      | Some s \<Rightarrow>
          if psh_account_id s \<noteq> account then Inl PushSubscriptionNotFound
          else Inr (k\<lparr>subscriptions := filter (\<lambda>x. psh_id x \<noteq> sid) (subscriptions k)\<rparr>))"

section \<open>Delivery\<close>

text \<open>\<open>PushResult\<close> of \<open>app/infra/web_push.py\<close>\<close>

record push_result =
  res_accepted :: bool
  res_error_code :: "string option"
  res_invalidated :: bool

record dispatch_summary =
  ds_accepted_count :: int
  ds_failed_count :: int
  ds_invalidated_count :: int
  ds_failures :: "(ident \<times> string) list"

definition empty_summary :: dispatch_summary where
  "empty_summary = \<lparr>ds_accepted_count = 0, ds_failed_count = 0, ds_invalidated_count = 0, ds_failures = []\<rparr>"

datatype dispatch_status = Dispatch_SERVICE_ACCEPTED | Dispatch_PARTIAL_FAILURE | Dispatch_FAILED

text \<open>\<open>DispatchSummary.output\<close>\<close>

definition summary_status :: "dispatch_summary \<Rightarrow> dispatch_status" where
  "summary_status s =
     (if ds_accepted_count s \<noteq> 0 \<and> ds_failed_count s \<noteq> 0 then Dispatch_PARTIAL_FAILURE
      else if ds_accepted_count s \<noteq> 0 then Dispatch_SERVICE_ACCEPTED else Dispatch_FAILED)"

definition counted :: "ident \<Rightarrow> push_result \<Rightarrow> dispatch_summary \<Rightarrow> dispatch_summary" where
  "counted sid r s =
     (let s1 = (if res_accepted r then s\<lparr>ds_accepted_count := ds_accepted_count s + 1\<rparr>
                else s\<lparr>ds_failed_count := ds_failed_count s + 1,
                       ds_failures := ds_failures s @
                         [(sid, case res_error_code r of None \<Rightarrow> ''PUSH_TRANSPORT_FAILED'' | Some c \<Rightarrow> c)]\<rparr>)
      in if res_invalidated r then s1\<lparr>ds_invalidated_count := ds_invalidated_count s1 + 1\<rparr> else s1)"

text \<open>An \<open>UPDATE ... WHERE id\<close> after each device.\<close>

definition used :: "instant \<Rightarrow> push_result \<Rightarrow> push_subscription \<Rightarrow> push_subscription" where
  "used now r s =
     s\<lparr>psh_last_used_at := Some now, psh_last_error := res_error_code r,
       psh_active := (if res_invalidated r then False else psh_active s)\<rparr>"

definition push_to :: "instant \<Rightarrow> (push_subscription \<Rightarrow> push_result) \<Rightarrow> push_subscription \<Rightarrow> push_result" where
  "push_to now send s =
     (case psh_expiration_time s of
        Some t \<Rightarrow>
          if t \<le> now
          then \<lparr>res_accepted = False, res_error_code = Some ''PUSH_SUBSCRIPTION_EXPIRED'', res_invalidated = True\<rparr>
          else send s
      | None \<Rightarrow> send s)"

text \<open>\<open>_deliver\<close>\<close>

fun deliver ::
  "instant \<Rightarrow> (push_subscription \<Rightarrow> push_result) \<Rightarrow> push_subscription list \<Rightarrow> dispatch_summary \<Rightarrow> desk
     \<Rightarrow> dispatch_summary \<times> desk" where
  "deliver now send [] sm k = (sm, k)"
| "deliver now send (s # ss) sm k =
     (let r = push_to now send s
      in deliver now send ss (counted (psh_id s) r sm)
           (k\<lparr>subscriptions := map (\<lambda>x. if psh_id x = psh_id s then used now r x else x) (subscriptions k)\<rparr>))"

text \<open>\<open>test_push\<close>; \<open>configured\<close> tells whether the keys of the server are set.\<close>

definition test_push ::
  "bool \<Rightarrow> instant \<Rightarrow> (push_subscription \<Rightarrow> push_result) \<Rightarrow> ident \<Rightarrow> ident option \<Rightarrow> desk
     \<Rightarrow> api_error + ((dispatch_status \<times> dispatch_summary) \<times> desk)" where
  "test_push configured now send account sid k =
     (if \<not> configured then Inl PushNotConfigured
      else let subs = filter (\<lambda>s. psh_account_id s = account \<and> psh_active s \<and>
                                  (case sid of None \<Rightarrow> True | Some i \<Rightarrow> psh_id s = i)) (subscriptions k)
           in if subs = [] then Inl (if sid \<noteq> None \<and> sid \<noteq> Some [] then PushSubscriptionNotFound else PushNoSubscription)
              else let (sm, k') = deliver now send subs empty_summary k in Inr ((summary_status sm, sm), k'))"

section \<open>The dispatcher\<close>

record due_reminder =
  due_id :: ident
  due_club_id :: ident
  due_item_id :: ident
  due_recipients :: "ident list"
  due_title :: pystr
  due_description :: "pystr option"

text \<open>The earliest pending reminder that is due.\<close>

definition first_due :: "instant \<Rightarrow> desk \<Rightarrow> task_reminder option" where
  "first_due now k =
     (case sort_key rmd_reminder_at
             (filter (\<lambda>r. rmd_status r = Reminder_PENDING \<and> rmd_reminder_at r \<le> now) (reminders k)) of
        [] \<Rightarrow> None
      | r # rs \<Rightarrow> Some r)"

text \<open>\<open>_claim_due\<close>\<close>

definition claim_due :: "instant \<Rightarrow> desk \<Rightarrow> due_reminder option \<times> desk" where
  "claim_due now k =
     (case first_due now k of
        None \<Rightarrow> (None, k)
      | Some r \<Rightarrow>
          (case find_item k (rmd_item_id r) of
             Some i \<Rightarrow>
               if ctk_status i = Item_ACTIVE
               then (Some \<lparr>due_id = rmd_id r, due_club_id = rmd_club_id r, due_item_id = rmd_item_id r,
                           due_recipients = rmd_recipients r, due_title = ctk_title i, due_description = ctk_description i\<rparr>,
                     put_reminder (r\<lparr>rmd_status := Reminder_SENDING, rmd_attempted_at := Some now,
                                     rmd_version := rmd_version r + 1\<rparr>) k)
               else (None, put_reminder (r\<lparr>rmd_status := Reminder_CANCELLED, rmd_version := rmd_version r + 1\<rparr>) k)
           | None \<Rightarrow> (None, put_reminder (r\<lparr>rmd_status := Reminder_CANCELLED, rmd_version := rmd_version r + 1\<rparr>) k)))"

text \<open>The devices a claimed reminder goes to.\<close>

definition dispatch_targets :: "due_reminder \<Rightarrow> desk \<Rightarrow> push_subscription list" where
  "dispatch_targets due k =
     filter (\<lambda>s. psh_active s \<and> psh_account_id s \<in> set (officer_accounts (base k) (due_club_id due)) \<and>
                 psh_account_id s \<in> set (due_recipients due)) (subscriptions k)"

text \<open>\<open>UPDATE ... WHERE id AND status = 'SENDING'\<close>\<close>

definition update_sending :: "ident \<Rightarrow> (task_reminder \<Rightarrow> task_reminder) \<Rightarrow> desk \<Rightarrow> desk" where
  "update_sending rid f k =
     k\<lparr>reminders := map (\<lambda>r. if rmd_id r = rid \<and> rmd_status r = Reminder_SENDING
                              then (f r)\<lparr>rmd_version := rmd_version r + 1\<rparr> else r) (reminders k)\<rparr>"

definition dispatch_result :: "dispatch_summary \<Rightarrow> int \<Rightarrow> task_reminder \<Rightarrow> task_reminder" where
  "dispatch_result sm missing r =
     (let errors = sort (remdups (map snd (ds_failures sm))) @
                   (if missing \<noteq> 0 then [''RECIPIENT_UNAVAILABLE_OR_UNSUBSCRIBED''] else [])
      in r\<lparr>rmd_status := (if ds_accepted_count sm \<noteq> 0 then Reminder_SERVICE_ACCEPTED else Reminder_FAILED),
           rmd_accepted_count := ds_accepted_count sm, rmd_failed_count := ds_failed_count sm + missing,
           rmd_last_error := (if errors = [] then None else Some errors)\<rparr>)"

text \<open>\<open>_dispatch_claimed\<close>\<close>

definition dispatch_claimed ::
  "instant \<Rightarrow> (push_subscription \<Rightarrow> push_result) \<Rightarrow> due_reminder \<Rightarrow> desk \<Rightarrow> desk" where
  "dispatch_claimed now send due k =
     (let targets = dispatch_targets due k;
          missing = int (length (filter (\<lambda>a. a \<notin> set (map psh_account_id targets)) (remdups (due_recipients due))));
          (sm, k') = deliver now send targets empty_summary k
      in update_sending (due_id due) (dispatch_result sm missing) k')"

text \<open>The handler of an exception during the delivery.\<close>

definition dispatch_uncertain :: "due_reminder \<Rightarrow> desk \<Rightarrow> desk" where
  "dispatch_uncertain due k =
     update_sending (due_id due) (\<lambda>r. r\<lparr>rmd_last_error := Some [''PUSH_DISPATCH_RESULT_UNCERTAIN'']\<rparr>) k"

text \<open>
  \<open>dispatch_due_reminders\<close>: at most \<open>n\<close> reminders, each claimed at its own time; \<open>raises\<close> tells for which of
  them the delivery ends with an exception (before anything was sent).
\<close>

fun dispatch_due_reminders ::
  "(nat \<Rightarrow> instant) \<Rightarrow> (push_subscription \<Rightarrow> push_result) \<Rightarrow> (ident \<Rightarrow> bool) \<Rightarrow> nat \<Rightarrow> desk \<Rightarrow> nat \<times> desk" where
  "dispatch_due_reminders clock send raises 0 k = (0, k)"
| "dispatch_due_reminders clock send raises (Suc n) k =
     (case claim_due (clock n) k of
        (None, k1) \<Rightarrow> (0, k1)
      | (Some due, k1) \<Rightarrow>
          let k2 = (if raises (due_id due) then dispatch_uncertain due k1 else dispatch_claimed (clock n) send due k1);
              (processed, k3) = dispatch_due_reminders clock send raises n k2
          in (processed + 1, k3))"

end
