(* ===== verification/Reminder_Protocol.thy ===== *)
theory Reminder_Protocol
  imports Push_Dispatch
begin

text \<open>
  Reminders under every interleaving of confirmations, changes, cancellations and dispatcher rounds:
  how often one is sent, that a cancelled one stays silent, and whom it reaches.
\<close>

section \<open>Steps\<close>

datatype desk_event = Claim ident | Rearm ident | Quiet

inductive desk_step :: "desk \<Rightarrow> desk_event \<Rightarrow> desk \<Rightarrow> bool" where
  Item_Confirmed: "confirm_suggestion g hash now b club by' sid v k = Inr (i, k') \<Longrightarrow> desk_step k Quiet k'"
| Item_Updated: "update_confirmed_task now b club iid v k = Inr (i, k') \<Longrightarrow> item_reminder k iid = Some r \<Longrightarrow>
    desk_step k (Rearm (rmd_id r)) k'"
| Item_Was_Cancelled: "cancel_confirmed_task club iid v k = Inr (i, k') \<Longrightarrow> desk_step k Quiet k'"
| Due_Claimed: "claim_due now k = (Some due, k') \<Longrightarrow> desk_step k (Claim (due_id due)) k'"
| Nothing_Claimed: "claim_due now k = (None, k') \<Longrightarrow> desk_step k Quiet k'"
| Dispatched: "desk_step k Quiet (dispatch_claimed now send due k)"
| Uncertain: "desk_step k Quiet (dispatch_uncertain due k)"
| Elsewhere: "reminders k' = reminders k \<Longrightarrow> confirmed_tasks k' = confirmed_tasks k \<Longrightarrow> desk_step k Quiet k'"

inductive desk_run :: "desk \<Rightarrow> desk_event list \<Rightarrow> desk \<Rightarrow> bool" where
  Stop: "desk_run k [] k"
| Go: "desk_run k ls k1 \<Longrightarrow> desk_step k1 l k2 \<Longrightarrow> desk_run k (ls @ [l]) k2"

definition pk_reminders :: "desk \<Rightarrow> bool" where
  "pk_reminders k \<longleftrightarrow> distinct (map rmd_id (reminders k))"

section \<open>What the operations write\<close>

lemma put_reminder_tables [simp]:
  "reminders (put_reminder r k) = put_row rmd_id r (reminders k)" "confirmed_tasks (put_reminder r k) = confirmed_tasks k"
  by (simp_all add: put_reminder_def)

lemma put_item_tables [simp]:
  "reminders (put_item i k) = reminders k" "confirmed_tasks (put_item i k) = put_row ctk_id i (confirmed_tasks k)"
  by (simp_all add: put_item_def)

lemma put_suggestion_tables [simp]:
  "reminders (put_suggestion s k) = reminders k" "confirmed_tasks (put_suggestion s k) = confirmed_tasks k"
  by (simp_all add: put_suggestion_def)

lemma draw_tables [simp]: "reminders (draw k) = reminders k" "confirmed_tasks (draw k) = confirmed_tasks k"
  by (simp_all add: draw_def)

lemma deliver_tables: "reminders (snd (deliver now send ss sm k)) = reminders k \<and>
    confirmed_tasks (snd (deliver now send ss sm k)) = confirmed_tasks k"
  by (induction ss arbitrary: sm k) (simp_all add: Let_def)

lemma confirm_tables:
  assumes "confirm_suggestion g hash now b club by' sid v k = Inr (i, k')"
  obtains "reminders k' = reminders k" and "confirmed_tasks k' = confirmed_tasks k"
  | r where "reminders k' = reminders k @ [r]" and "confirmed_tasks k' = confirmed_tasks k @ [i]"
      and "rmd_id r \<notin> rmd_id ` set (reminders k)" and "ctk_id i \<notin> ctk_id ` set (confirmed_tasks k)"
      and "rmd_item_id r = ctk_id i" and "rmd_status r = Reminder_PENDING"
proof -
  from assms obtain s where c: "(case find (\<lambda>i. ctk_suggestion_id i = sid) (confirmed_tasks k) of
       Some i \<Rightarrow>
         if ctk_source_version i \<noteq> v \<or> ctk_confirmation_hash i \<noteq> hash b then Inl IdempotencyConflict
         else Inr (i, k)
     | None \<Rightarrow>
         if tsk_version s \<noteq> v then Inl VersionConflict
         else if tsk_status s \<notin> {Suggestion_PROPOSED, Suggestion_ACCEPTED} then Inl TaskSuggestionNotProposed
         else if \<not> current_source s k then Inl TaskSuggestionStale
         else and_then (validate_confirmation now club b (base k)) (\<lambda>_.
              let i = new_item g now (hash b) club (tsk_id s) v by' b (base k) in
              and_then (insert_item i (draw k)) (\<lambda>k1.
              and_then (insert_reminder (new_reminder g club (ctk_id i) b (base k1)) (draw k1)) (\<lambda>k2.
                Inr (i, if tsk_status s = Suggestion_PROPOSED then put_suggestion (accepted now by' s) k2 else k2))))) = Inr (i, k')"
    unfolding confirm_suggestion_def and_then_eq_Inr by blast
  show thesis
  proof (cases "find (\<lambda>i. ctk_suggestion_id i = sid) (confirmed_tasks k)")
    case (Some x)
    then show thesis using that(1) c by (auto split: if_splits)
  next
    case None
    then obtain k1 k2 where i1: "insert_item i (draw k) = Inr k1"
      and i2: "insert_reminder (new_reminder g club (ctk_id i) b (base k1)) (draw k1) = Inr k2"
      and k': "k' = (if tsk_status s = Suggestion_PROPOSED then put_suggestion (accepted now by' s) k2 else k2)"
      using c by (auto simp: Let_def and_then_eq_Inr split: if_splits)
    let ?r = "new_reminder g club (ctk_id i) b (base k1)"
    have "rmd_item_id ?r = ctk_id i" "rmd_status ?r = Reminder_PENDING" by (simp_all add: new_reminder_def)
    then show thesis
      using i1 i2 by (intro that(2) [of ?r])
        (auto simp: k' insert_item_def insert_reminder_def and_then_eq_Inr insert_row_Inr split: if_splits)
  qed
qed

lemma editable_item_Inr:
  assumes "editable_item club iid v k = Inr (i, r)"
  shows "find_item k iid = Some i" and "ctk_id i = iid" and "ctk_club_id i = club" and "ctk_version i = v"
    and "item_reminder k iid = Some r" and "rmd_status r \<noteq> Reminder_SENDING" and "r \<in> set (reminders k)" and "rmd_item_id r = iid"
proof -
  show i: "find_item k iid = Some i" "ctk_club_id i = club" "ctk_version i = v"
    and r: "rmd_status r \<noteq> Reminder_SENDING"
    using assms by (auto simp: editable_item_def get_confirmed_task_def and_then_eq_Inr split: option.splits if_splits)
  show id: "ctk_id i = iid" using i(1) by (rule item_table.get_key)
  show "item_reminder k iid = Some r"
    using assms id by (auto simp: editable_item_def get_confirmed_task_def and_then_eq_Inr split: option.splits if_splits)
  then show "r \<in> set (reminders k)" "rmd_item_id r = iid"
    by (auto simp: item_reminder_def find_Some_iff in_set_conv_nth)
qed

lemma update_item_tables:
  assumes "update_confirmed_task now b club iid v k = Inr (i', k')" and "item_reminder k iid = Some r"
  obtains i where "find_item k iid = Some i" and "ctk_status i = Item_ACTIVE" and "r \<in> set (reminders k)" and "rmd_item_id r = iid"
    and "reminders k' = put_row rmd_id (rearmed b r) (reminders k)"
    and "confirmed_tasks k' = put_row ctk_id (changed_item b i) (confirmed_tasks k)"
proof -
  from assms(1) obtain i q where e: "editable_item club iid v k = Inr (i, q)" and st: "ctk_status i \<noteq> Item_CANCELLED"
    and k': "k' = put_reminder (rearmed b q) (put_item (changed_item b i) k)"
    by (auto simp: update_confirmed_task_def and_then_eq_Inr split: if_splits)
  note e = editable_item_Inr [OF e]
  have "q = r" using e(5) assms(2) by simp
  moreover have "ctk_status i = Item_ACTIVE" using st by (cases "ctk_status i") simp_all
  ultimately show thesis using that [OF e(1)] e(7,8) by (simp add: k')
qed

lemma cancel_item_tables:
  assumes "cancel_confirmed_task club iid v k = Inr (i', k')"
  obtains "k' = k" and "find_item k iid = Some i'" and "ctk_status i' = Item_CANCELLED"
  | i r where "find_item k iid = Some i" and "ctk_status i = Item_ACTIVE" and "r \<in> set (reminders k)" and "rmd_item_id r = iid"
      and "item_reminder k iid = Some r" and "rmd_status r \<noteq> Reminder_SENDING"
      and "confirmed_tasks k' = put_row ctk_id (i\<lparr>ctk_status := Item_CANCELLED, ctk_version := ctk_version i + 1\<rparr>) (confirmed_tasks k)"
      and "reminders k' = (if rmd_status r = Reminder_PENDING
             then put_row rmd_id (r\<lparr>rmd_status := Reminder_CANCELLED, rmd_version := rmd_version r + 1\<rparr>) (reminders k)
             else reminders k)"
proof -
  from assms obtain i r where e: "editable_item club iid v k = Inr (i, r)"
    and c: "(if ctk_status i = Item_CANCELLED then Inr (i, k)
       else let i' = i\<lparr>ctk_status := Item_CANCELLED, ctk_version := ctk_version i + 1\<rparr>;
                k1 = put_item i' k
            in Inr (i', if rmd_status r = Reminder_PENDING
                        then put_reminder (r\<lparr>rmd_status := Reminder_CANCELLED, rmd_version := rmd_version r + 1\<rparr>) k1
                        else k1)) = (Inr (i', k') :: api_error + confirmed_task \<times> desk)"
    by (auto simp: cancel_confirmed_task_def and_then_eq_Inr)
  note e = editable_item_Inr [OF e]
  show thesis
  proof (cases "ctk_status i")
    case Item_CANCELLED
    then show thesis using c e(1) that(1) by simp
  next
    case Item_ACTIVE
    then show thesis using c that(2) [OF e(1) _ e(7,8,5,6)] by (auto simp: Let_def split: if_splits)
  qed
qed

lemma first_due_Some:
  assumes "first_due now k = Some r"
  shows "r \<in> set (reminders k)" and "rmd_status r = Reminder_PENDING" and "rmd_reminder_at r \<le> now"
proof -
  let ?due = "filter (\<lambda>r. rmd_status r = Reminder_PENDING \<and> rmd_reminder_at r \<le> now) (reminders k)"
  obtain rs where "sort_key rmd_reminder_at ?due = r # rs"
    using assms by (auto simp: first_due_def split: list.splits)
  then have "r \<in> set (sort_key rmd_reminder_at ?due)" by simp
  then have "r \<in> set ?due" by simp
  then show "r \<in> set (reminders k)" "rmd_status r = Reminder_PENDING" "rmd_reminder_at r \<le> now" by simp_all
qed

text \<open>A claim: the row it takes and what becomes of it.\<close>

lemma claim_due_tables:
  assumes "claim_due now k = (res, k')"
  shows "confirmed_tasks k' = confirmed_tasks k"
    and "(res = None \<and> reminders k' = reminders k) \<or>
      (\<exists>r r'. r \<in> set (reminders k) \<and> rmd_status r = Reminder_PENDING \<and> rmd_reminder_at r \<le> now \<and> rmd_id r' = rmd_id r \<and>
        rmd_item_id r' = rmd_item_id r \<and> reminders k' = put_row rmd_id r' (reminders k) \<and>
        (case res of
           None \<Rightarrow> rmd_status r' = Reminder_CANCELLED
         | Some due \<Rightarrow> rmd_status r' = Reminder_SENDING \<and> due_id due = rmd_id r \<and> due_club_id due = rmd_club_id r \<and>
             due_recipients due = rmd_recipients r \<and>
             (\<exists>i. find_item k (rmd_item_id r) = Some i \<and> ctk_status i = Item_ACTIVE)))"
proof -
  show "confirmed_tasks k' = confirmed_tasks k"
    using assms by (auto simp: claim_due_def split: option.splits if_splits)
  show "(res = None \<and> reminders k' = reminders k) \<or>
      (\<exists>r r'. r \<in> set (reminders k) \<and> rmd_status r = Reminder_PENDING \<and> rmd_reminder_at r \<le> now \<and> rmd_id r' = rmd_id r \<and>
        rmd_item_id r' = rmd_item_id r \<and> reminders k' = put_row rmd_id r' (reminders k) \<and>
        (case res of
           None \<Rightarrow> rmd_status r' = Reminder_CANCELLED
         | Some due \<Rightarrow> rmd_status r' = Reminder_SENDING \<and> due_id due = rmd_id r \<and> due_club_id due = rmd_club_id r \<and>
             due_recipients due = rmd_recipients r \<and>
             (\<exists>i. find_item k (rmd_item_id r) = Some i \<and> ctk_status i = Item_ACTIVE)))" (is "_ \<or> ?taken")
  proof (cases "first_due now k")
    case None
    then show ?thesis using assms by (simp add: claim_due_def)
  next
    case (Some r)
    note r = first_due_Some [OF Some]
    let ?new = "\<lambda>s. if s then r\<lparr>rmd_status := Reminder_SENDING, rmd_attempted_at := Some now, rmd_version := rmd_version r + 1\<rparr>
                    else r\<lparr>rmd_status := Reminder_CANCELLED, rmd_version := rmd_version r + 1\<rparr>"
    have ?taken
      using assms r Some
      by (intro exI [of _ r] exI [of _ "?new (res \<noteq> None)"]) (auto simp: claim_due_def split: option.splits if_splits)
    then show ?thesis by simp
  qed
qed

lemma update_sending_tables:
  "confirmed_tasks (update_sending rid f k) = confirmed_tasks k"
  "reminders (update_sending rid f k) = map (\<lambda>r. if rmd_id r = rid \<and> rmd_status r = Reminder_SENDING
     then (f r)\<lparr>rmd_version := rmd_version r + 1\<rparr> else r) (reminders k)"
  by (simp_all add: update_sending_def)

lemma dispatch_claimed_tables:
  obtains sm n where "reminders (dispatch_claimed now send due k) =
      map (\<lambda>r. if rmd_id r = due_id due \<and> rmd_status r = Reminder_SENDING
        then (dispatch_result sm n r)\<lparr>rmd_version := rmd_version r + 1\<rparr> else r) (reminders k)"
    and "confirmed_tasks (dispatch_claimed now send due k) = confirmed_tasks k"
proof -
  obtain sm k1 where d: "deliver now send (dispatch_targets due k) empty_summary k = (sm, k1)"
    by (cases "deliver now send (dispatch_targets due k) empty_summary k")
  then have "reminders k1 = reminders k" "confirmed_tasks k1 = confirmed_tasks k"
    using deliver_tables [of now send "dispatch_targets due k" empty_summary k] by simp_all
  then show thesis
    by (intro that [of sm "int (length (filter (\<lambda>a. a \<notin> set (map psh_account_id (dispatch_targets due k)))
        (remdups (due_recipients due))))"])
      (simp_all add: dispatch_claimed_def Let_def d update_sending_tables)
qed

lemma uncertain_tables:
  "reminders (dispatch_uncertain due k) = map (\<lambda>r. if rmd_id r = due_id due \<and> rmd_status r = Reminder_SENDING
     then r\<lparr>rmd_last_error := Some [''PUSH_DISPATCH_RESULT_UNCERTAIN''], rmd_version := rmd_version r + 1\<rparr> else r) (reminders k)"
  "confirmed_tasks (dispatch_uncertain due k) = confirmed_tasks k"
  by (simp_all add: dispatch_uncertain_def update_sending_tables)

section \<open>How often a reminder is sent\<close>

definition pending :: "desk \<Rightarrow> ident \<Rightarrow> nat" where
  "pending k rid = (if \<exists>r \<in> set (reminders k). rmd_id r = rid \<and> rmd_status r = Reminder_PENDING then 1 else 0)"

definition existing :: "desk \<Rightarrow> ident \<Rightarrow> nat" where
  "existing k rid = (if rid \<in> rmd_id ` set (reminders k) then 1 else 0)"

definition sent :: "ident \<Rightarrow> desk_event list \<Rightarrow> nat" where
  "sent rid ls = length (filter (\<lambda>l. l = Claim rid) ls)"

definition edits :: "ident \<Rightarrow> desk_event list \<Rightarrow> nat" where
  "edits rid ls = length (filter (\<lambda>l. l = Rearm rid) ls)"

lemma existing_put [simp]: "rmd_id ` set (put_row rmd_id r rows) = rmd_id ` set rows"
  by (metis list.set_map map_key_put_row)

text \<open>Writing a row that is not pending arms no reminder.\<close>

lemma pending_put:
  assumes "reminders k' = put_row rmd_id r (reminders k)" and "rmd_status r \<noteq> Reminder_PENDING"
  shows "pending k' rid \<le> pending k rid" and "rmd_id r = rid \<Longrightarrow> pending k' rid = 0"
  using assms by (auto simp: pending_def elim!: put_row_memE)

lemma pending_map:
  assumes "reminders k' = map f (reminders k)"
    and "\<forall>r. rmd_id (f r) = rmd_id r \<and> (rmd_status (f r) = Reminder_PENDING \<longrightarrow> rmd_status r = Reminder_PENDING)"
  shows "pending k' rid \<le> pending k rid" and "existing k' rid = existing k rid" and "pk_reminders k \<Longrightarrow> pk_reminders k'"
  using assms by (auto simp: pending_def existing_def pk_reminders_def image_iff comp_def)

text \<open>
  The account of one step: a pending reminder is an allowance for one dispatch; a confirmation and an
  edit grant one, a claim uses one up, nothing else makes one.
\<close>

definition in_account :: "ident \<Rightarrow> desk \<Rightarrow> desk_event \<Rightarrow> desk \<Rightarrow> bool" where
  "in_account rid k l k' \<longleftrightarrow> pk_reminders k' \<and>
     pending k' rid + sent rid [l] + existing k rid \<le> pending k rid + edits rid [l] + existing k' rid"

lemma account_same: "reminders k' = reminders k \<Longrightarrow> pk_reminders k \<Longrightarrow> in_account rid k Quiet k'"
  by (simp add: in_account_def pending_def existing_def pk_reminders_def sent_def edits_def)

lemma account_new:
  assumes "reminders k' = reminders k @ [r]" and "rmd_id r \<notin> rmd_id ` set (reminders k)" and "pk_reminders k"
  shows "in_account rid k Quiet k'"
  using assms by (auto simp: in_account_def pending_def existing_def pk_reminders_def sent_def edits_def)

lemma account_map:
  assumes "reminders k' = map f (reminders k)" and "pk_reminders k"
    and "\<forall>r. rmd_id (f r) = rmd_id r \<and> (rmd_status (f r) = Reminder_PENDING \<longrightarrow> rmd_status r = Reminder_PENDING)"
  shows "in_account rid k Quiet k'"
  using pending_map [OF assms(1,3)] assms(2) by (simp add: in_account_def sent_def edits_def)

lemma account_put:
  assumes "reminders k' = put_row rmd_id r (reminders k)" and "pk_reminders k" and "rmd_status r \<noteq> Reminder_PENDING"
  shows "in_account rid k Quiet k'"
  using pending_put(1) [OF assms(1,3), of rid] assms(1,2)
  by (simp add: in_account_def existing_def pk_reminders_def sent_def edits_def)

lemma account_edit:
  assumes "reminders k' = put_row rmd_id r (reminders k)" and "pk_reminders k"
  shows "in_account rid k (Rearm (rmd_id r)) k'"
  using assms by (auto simp: in_account_def pending_def existing_def pk_reminders_def sent_def edits_def elim!: put_row_memE)

lemma account_claim:
  assumes "reminders k' = put_row rmd_id r' (reminders k)" and "pk_reminders k" and "rmd_status r' = Reminder_SENDING"
    and "r \<in> set (reminders k)" and "rmd_status r = Reminder_PENDING" and "rmd_id r' = rmd_id r"
  shows "in_account rid k (Claim (rmd_id r)) k'"
proof -
  have "pending k' rid \<le> pending k rid" using pending_put(1) [OF assms(1)] assms(3) by simp
  moreover have "pending k' rid = 0 \<and> pending k rid = 1" if "rid = rmd_id r"
    using pending_put(2) [OF assms(1), of rid] assms(3-6) that by (auto simp: pending_def)
  ultimately show ?thesis
    using assms(1,2) by (auto simp: in_account_def existing_def pk_reminders_def sent_def edits_def)
qed

lemma step_account: "desk_step k l k' \<Longrightarrow> pk_reminders k \<Longrightarrow> in_account rid k l k'"
proof (induction rule: desk_step.induct)
  case (Item_Confirmed g hash now b club by' sid v k i k')
  from Item_Confirmed(1) show ?case
    by (cases rule: confirm_tables) (use Item_Confirmed(2) in \<open>auto intro: account_same account_new\<close>)
next
  case (Item_Updated now b club iid v k i k' r)
  from Item_Updated(1,2) obtain i0 where "reminders k' = put_row rmd_id (rearmed b r) (reminders k)"
    by (rule update_item_tables)
  from account_edit [OF this Item_Updated(3)] show ?case by (simp add: rearmed_def)
next
  case (Item_Was_Cancelled club iid v k i k')
  from Item_Was_Cancelled(1) show ?case
    by (cases rule: cancel_item_tables)
      (use Item_Was_Cancelled(2) in \<open>auto intro: account_same account_put split: if_splits\<close>)
next
  case (Due_Claimed now k due k')
  from claim_due_tables(2) [OF Due_Claimed(1)] obtain r r' where "r \<in> set (reminders k)" "rmd_status r = Reminder_PENDING"
    "rmd_id r' = rmd_id r" "reminders k' = put_row rmd_id r' (reminders k)" "rmd_status r' = Reminder_SENDING" "due_id due = rmd_id r"
    by auto
  with Due_Claimed(2) show ?case by (auto intro: account_claim)
next
  case (Nothing_Claimed now k k')
  from claim_due_tables(2) [OF Nothing_Claimed(1)] show ?case
    by (elim disjE exE conjE) (use Nothing_Claimed(2) in \<open>auto intro: account_same account_put\<close>)
next
  case (Dispatched k now send due)
  obtain sm n where "reminders (dispatch_claimed now send due k) =
      map (\<lambda>r. if rmd_id r = due_id due \<and> rmd_status r = Reminder_SENDING
        then (dispatch_result sm n r)\<lparr>rmd_version := rmd_version r + 1\<rparr> else r) (reminders k)"
    by (rule dispatch_claimed_tables)
  from account_map [OF this Dispatched] show ?case by (simp add: dispatch_result_def Let_def)
next
  case (Uncertain k due)
  from account_map [OF uncertain_tables(1) Uncertain] show ?case by simp
next
  case (Elsewhere k' k)
  then show ?case by (intro account_same)
qed

lemma run_account:
  assumes "desk_run k ls k'" and "pk_reminders k"
  shows "pk_reminders k' \<and> pending k' rid + sent rid ls + existing k rid \<le> pending k rid + edits rid ls + existing k' rid"
  using assms
proof (induction rule: desk_run.induct)
  case (Stop k)
  then show ?case by (simp add: sent_def edits_def)
next
  case (Go k ls k1 l k2)
  then have ih: "pk_reminders k1" "pending k1 rid + sent rid ls + existing k rid \<le> pending k rid + edits rid ls + existing k1 rid"
    by simp_all
  have "in_account rid k1 l k2" using Go(2) ih(1) by (rule step_account)
  moreover have "sent rid (ls @ [l]) = sent rid ls + sent rid [l]" "edits rid (ls @ [l]) = edits rid ls + edits rid [l]"
    by (simp_all add: sent_def edits_def)
  ultimately show ?case using ih(2) by (simp add: in_account_def)
qed

section \<open>A cancelled reminder stays silent\<close>

definition silent :: "desk \<Rightarrow> ident \<Rightarrow> bool" where
  "silent k rid \<longleftrightarrow> rid \<in> rmd_id ` set (reminders k) \<and>
     (\<forall>r \<in> set (reminders k). rmd_id r = rid \<longrightarrow>
        (\<exists>i. find_item k (rmd_item_id r) = Some i \<and> ctk_status i = Item_CANCELLED))"

text \<open>A cancelled item survives every write of another one.\<close>

lemma find_item_append:
  "confirmed_tasks k' = confirmed_tasks k @ rows \<Longrightarrow> find_item k iid = Some i \<Longrightarrow> find_item k' iid = Some i"
  by (simp add: find_item_def get_row_append)

lemma find_item_put:
  assumes "confirmed_tasks k' = put_row ctk_id i' (confirmed_tasks k)" and "find_item k iid = Some i"
    and "ctk_id i' \<noteq> iid \<or> ctk_status i' = ctk_status i"
  shows "\<exists>j. find_item k' iid = Some j \<and> ctk_status j = ctk_status i"
proof (cases "ctk_id i' = iid")
  case True
  then show ?thesis
    using assms get_put_row [of ctk_id "confirmed_tasks k" i' i iid] by (auto simp: find_item_def)
next
  case False
  then show ?thesis using assms get_put_row_other [of iid ctk_id i' "confirmed_tasks k"] by (simp add: find_item_def)
qed

definition keeps_cancelled :: "desk \<Rightarrow> desk \<Rightarrow> bool" where
  "keeps_cancelled k k' \<longleftrightarrow> (\<forall>x i. find_item k x = Some i \<and> ctk_status i = Item_CANCELLED \<longrightarrow>
     (\<exists>j. find_item k' x = Some j \<and> ctk_status j = Item_CANCELLED))"

lemma keeps_cancelled_same: "confirmed_tasks k' = confirmed_tasks k \<Longrightarrow> keeps_cancelled k k'"
  by (simp add: keeps_cancelled_def find_item_def)

lemma keeps_cancelled_put:
  assumes "find_item k iid = Some i" and "ctk_status i = Item_ACTIVE" and "ctk_id i' = ctk_id i"
    and "confirmed_tasks k' = put_row ctk_id i' (confirmed_tasks k)"
  shows "keeps_cancelled k k'"
  unfolding keeps_cancelled_def
proof (intro allI impI, elim conjE)
  fix x j
  assume j: "find_item k x = Some j" "ctk_status j = Item_CANCELLED"
  then have "ctk_id i' \<noteq> x" using assms(1-3) item_table.get_key [OF assms(1)] by auto
  then show "\<exists>j. find_item k' x = Some j \<and> ctk_status j = Item_CANCELLED"
    using find_item_put [OF assms(4) j(1)] j(2) by auto
qed

text \<open>A step that keeps cancelled items and the owner of the reminder keeps it silent.\<close>

lemma silent_kept:
  assumes "silent k rid" and "keeps_cancelled k k'"
    and "rmd_id ` set (reminders k) \<subseteq> rmd_id ` set (reminders k')"
    and "\<And>q. q \<in> set (reminders k') \<Longrightarrow> rmd_id q = rid \<Longrightarrow>
           \<exists>p \<in> set (reminders k). rmd_id p = rid \<and> rmd_item_id p = rmd_item_id q"
  shows "silent k' rid"
  using assms unfolding silent_def keeps_cancelled_def by (metis subsetD)

lemma silent_put:
  assumes "silent k rid" and "keeps_cancelled k k'" and "r \<in> set (reminders k)" and "rmd_id r' = rmd_id r"
    and "rmd_item_id r' = rmd_item_id r" and "reminders k' = put_row rmd_id r' (reminders k)"
  shows "silent k' rid"
  using assms(1,2)
proof (rule silent_kept)
  show "\<exists>p \<in> set (reminders k). rmd_id p = rid \<and> rmd_item_id p = rmd_item_id q"
    if "q \<in> set (reminders k')" "rmd_id q = rid" for q
    using that assms(3-6) by (fastforce elim: put_row_memE)
qed (simp add: assms(6))

lemma silent_map:
  assumes "silent k rid" and "confirmed_tasks k' = confirmed_tasks k" and "reminders k' = map f (reminders k)"
    and "\<And>r. rmd_id (f r) = rmd_id r \<and> rmd_item_id (f r) = rmd_item_id r"
  shows "silent k' rid"
  using assms(1) keeps_cancelled_same [OF assms(2)]
  by (rule silent_kept) (use assms(3,4) in \<open>auto simp: image_iff\<close>)

lemma silent_append:
  assumes "silent k rid" and "confirmed_tasks k' = confirmed_tasks k @ new" and "reminders k' = reminders k @ [r]"
    and "rmd_id r \<notin> rmd_id ` set (reminders k)"
  shows "silent k' rid"
  using assms(1)
proof (rule silent_kept)
  show "keeps_cancelled k k'" using find_item_append [OF assms(2)] by (auto simp: keeps_cancelled_def)
  have "rmd_id r \<noteq> rid" using assms(1,4) by (auto simp: silent_def)
  then show "\<exists>p \<in> set (reminders k). rmd_id p = rid \<and> rmd_item_id p = rmd_item_id q"
    if "q \<in> set (reminders k')" "rmd_id q = rid" for q
    using that by (auto simp: assms(3))
qed (auto simp: assms(3))

lemma silent_step:
  assumes "desk_step k l k'" and "silent k rid"
  shows "silent k' rid \<and> l \<noteq> Claim rid"
  using assms
proof (induction rule: desk_step.induct)
  case (Item_Confirmed g hash now b club by' sid v k i k')
  from Item_Confirmed(1) show ?case
  proof (cases rule: confirm_tables)
    case 1
    then show ?thesis using silent_map [OF Item_Confirmed(2), of k' id] by simp
  next
    case (2 r)
    then show ?thesis using silent_append [OF Item_Confirmed(2) 2(2,1,3)] by simp
  qed
next
  case (Item_Updated now b club iid v k i k' r)
  from Item_Updated(1,2) obtain i0 where i0: "find_item k iid = Some i0" "ctk_status i0 = Item_ACTIVE"
    and r: "r \<in> set (reminders k)"
    and k': "reminders k' = put_row rmd_id (rearmed b r) (reminders k)" "confirmed_tasks k' = put_row ctk_id (changed_item b i0) (confirmed_tasks k)"
    by (rule update_item_tables)
  have "keeps_cancelled k k'" by (rule keeps_cancelled_put [OF i0 _ k'(2)]) (simp add: changed_item_def)
  from silent_put [OF Item_Updated(3) this r _ _ k'(1)] show ?case by (simp add: rearmed_def)
next
  case (Item_Was_Cancelled club iid v k i k')
  from Item_Was_Cancelled(1) show ?case
  proof (cases rule: cancel_item_tables)
    case 1
    then show ?thesis using Item_Was_Cancelled(2) by simp
  next
    case (2 i r)
    have kc: "keeps_cancelled k k'" by (rule keeps_cancelled_put [OF 2(1,2) _ 2(7)]) simp
    show ?thesis
    proof (cases "rmd_status r = Reminder_PENDING")
      case True
      with 2(8) have "reminders k' = put_row rmd_id (r\<lparr>rmd_status := Reminder_CANCELLED, rmd_version := rmd_version r + 1\<rparr>) (reminders k)"
        by simp
      from silent_put [OF Item_Was_Cancelled(2) kc 2(3) _ _ this] show ?thesis by simp
    next
      case False
      then show ?thesis using silent_kept [OF Item_Was_Cancelled(2) kc] 2(8) by auto
    qed
  qed
next
  case (Due_Claimed now k due k')
  from claim_due_tables [OF Due_Claimed(1)] obtain r r' where r: "r \<in> set (reminders k)"
      "\<exists>i. find_item k (rmd_item_id r) = Some i \<and> ctk_status i = Item_ACTIVE"
    and r': "rmd_id r' = rmd_id r" "rmd_item_id r' = rmd_item_id r" "reminders k' = put_row rmd_id r' (reminders k)" "due_id due = rmd_id r"
    and c: "confirmed_tasks k' = confirmed_tasks k"
    by auto
  have "rmd_id r \<noteq> rid" using Due_Claimed(2) r by (auto simp: silent_def)
  then show ?case using silent_put [OF Due_Claimed(2) keeps_cancelled_same [OF c] r(1) r'(1-3)] r'(4) by simp
next
  case (Nothing_Claimed now k k')
  note t = claim_due_tables [OF Nothing_Claimed(1)]
  from t(2) show ?case
    using silent_put [OF Nothing_Claimed(2) keeps_cancelled_same [OF t(1)]]
      silent_map [OF Nothing_Claimed(2) t(1), of id] by (elim disjE exE conjE) simp_all
next
  case (Dispatched k now send due)
  obtain sm n where t: "reminders (dispatch_claimed now send due k) =
      map (\<lambda>r. if rmd_id r = due_id due \<and> rmd_status r = Reminder_SENDING
        then (dispatch_result sm n r)\<lparr>rmd_version := rmd_version r + 1\<rparr> else r) (reminders k)"
    "confirmed_tasks (dispatch_claimed now send due k) = confirmed_tasks k"
    by (rule dispatch_claimed_tables)
  show ?case using silent_map [OF Dispatched t(2,1)] by (simp add: dispatch_result_def Let_def)
next
  case (Uncertain k due)
  from silent_map [OF Uncertain uncertain_tables(2,1)] show ?case by simp
next
  case (Elsewhere k' k)
  then show ?case by (simp add: silent_def find_item_def)
qed

lemma silent_run: "desk_run k ls k' \<Longrightarrow> silent k rid \<Longrightarrow> silent k' rid \<and> sent rid ls = 0"
proof (induction rule: desk_run.induct)
  case (Go k ls k1 l k2)
  then show ?case using silent_step [of k1 l k2 rid] by (simp add: sent_def)
qed (simp add: sent_def)

lemma cancelled_is_silent:
  assumes "cancel_confirmed_task club iid v k = Inr (i', k')" and "item_reminder k iid = Some r" and "pk_reminders k"
  shows "silent k' (rmd_id r) \<and> rmd_status r \<noteq> Reminder_SENDING"
proof -
  from assms(1) obtain i q where "editable_item club iid v k = Inr (i, q)"
    by (auto simp: cancel_confirmed_task_def and_then_eq_Inr)
  note e = editable_item_Inr [OF this]
  have r: "r \<in> set (reminders k)" "rmd_item_id r = iid" "rmd_status r \<noteq> Reminder_SENDING"
    using e(5-8) assms(2) by simp_all
  have own: "rmd_item_id x = iid" if "x \<in> set (reminders k)" "rmd_id x = rmd_id r" for x
    using that r(1,2) assms(3) by (auto simp: pk_reminders_def distinct_map dest: inj_onD)
  from assms(1) have "silent k' (rmd_id r)"
  proof (cases rule: cancel_item_tables)
    case 1
    then show ?thesis using r(1) own by (auto simp: silent_def)
  next
    case (2 i q)
    let ?i = "i\<lparr>ctk_status := Item_CANCELLED, ctk_version := ctk_version i + 1\<rparr>"
    have "find_item k' iid = Some ?i"
      using 2(1,7) item_table.get_key [OF 2(1)] get_put_row [of ctk_id "confirmed_tasks k" ?i i iid]
      by (simp add: find_item_def)
    moreover have "rmd_item_id x = iid" if "x \<in> set (reminders k')" "rmd_id x = rmd_id r" for x
      using that 2(4,8) own by (auto split: if_splits elim: put_row_memE)
    ultimately show ?thesis using r(1) 2(8) by (auto simp: silent_def)
  qed
  with r(3) show ?thesis by simp
qed

section \<open>The dispatcher is a run\<close>

lemma desk_run_append: "desk_run k1 ms k2 \<Longrightarrow> desk_run k ls k1 \<Longrightarrow> desk_run k (ls @ ms) k2"
proof (induction rule: desk_run.induct)
  case (Go k1 ms k2 l k3)
  then show ?case using desk_run.Go [of k "ls @ ms" k2 l k3] by simp
qed simp

fun is_claim :: "desk_event \<Rightarrow> bool" where
  "is_claim (Claim _) = True"
| "is_claim _ = False"

lemma dispatch_is_run:
  "dispatch_due_reminders clock send raises n k = (p, k') \<Longrightarrow> \<exists>ls. desk_run k ls k' \<and> length (filter is_claim ls) = p"
proof (induction clock send raises n k arbitrary: p k' rule: dispatch_due_reminders.induct)
  case (1 clock send raises k)
  then show ?case using desk_run.Stop [of k] by auto
next
  case (2 clock send raises n k)
  obtain res k1 where c: "claim_due (clock n) k = (res, k1)" by (cases "claim_due (clock n) k")
  show ?case
  proof (cases res)
    case None
    then have "desk_run k [Quiet] k1" using desk_run.Go [OF desk_run.Stop] c by (fastforce intro: desk_step.Nothing_Claimed)
    then show ?thesis using 2(2) c None by auto
  next
    case (Some due)
    define k2 where "k2 = (if raises (due_id due) then dispatch_uncertain due k1 else dispatch_claimed (clock n) send due k1)"
    have "desk_run k [Claim (due_id due)] k1"
      using desk_run.Go [OF desk_run.Stop] c Some by (fastforce intro: desk_step.Due_Claimed)
    moreover have "desk_step k1 Quiet k2" by (simp add: k2_def desk_step.Dispatched desk_step.Uncertain)
    ultimately have first: "desk_run k [Claim (due_id due), Quiet] k2" using desk_run.Go by fastforce
    obtain q where rest: "dispatch_due_reminders clock send raises n k2 = (q, k')" "p = q + 1"
      using 2(2) c Some by (auto simp: k2_def split: prod.splits if_splits)
    have "\<exists>ls. desk_run k2 ls k' \<and> length (filter is_claim ls) = q"
      using 2(1) [OF c [symmetric] Some _ rest(1)] by (simp add: k2_def)
    then show ?thesis using desk_run_append [OF _ first] rest(2) by fastforce
  qed
qed

end
