(* ===== verification/Idempotency.thy ===== *)
theory Idempotency
  imports Models
begin

text \<open>
  Requests that carry an \<open>Idempotency-Key\<close>, \<open>app/core/idempotency.py\<close> over the table of
  \<open>models/common.py\<close>. The first request with a key runs, a finished one is replayed, a running one is
  refused, and one that has been running for five minutes is taken over. The digest of the request body
  and the identifier of a new row are given. A take-over reads the row and updates it under a condition;
  the two are separate steps here, so that requests may come in between.
\<close>

datatype key_status = Key_PROCESSING | Key_COMPLETED

record idempotency_key =
  idm_id :: ident
  idm_club_id :: "ident option"
  idm_member_id :: ident
  idm_endpoint :: string
  idm_key :: pystr
  idm_request_body_hash :: string
  idm_status :: key_status
  idm_response_status :: "int option"
  idm_response_body :: "dict option"
  idm_modified_at :: instant

definition STALE_PROCESSING_AFTER :: int where
  "STALE_PROCESSING_AFTER = minutes 5"

definition is_stale :: "instant \<Rightarrow> idempotency_key \<Rightarrow> bool" where
  "is_stale now r \<longleftrightarrow> STALE_PROCESSING_AFTER \<le> now - idm_modified_at r"

record key_request =
  kr_member :: ident
  kr_endpoint :: string
  kr_key :: pystr
  kr_club :: "ident option"
  kr_hash :: string

definition find_key :: "key_request \<Rightarrow> idempotency_key list \<Rightarrow> idempotency_key option" where
  "find_key q rows =
     find (\<lambda>r. idm_member_id r = kr_member q \<and> idm_endpoint r = kr_endpoint q \<and> idm_key r = kr_key q) rows"

text \<open>
  What \<open>resolve\<close> does after reading: replay the stored response, try to take the row over as it was read,
  or insert a new one.
\<close>

datatype key_plan = Replay idempotency_key | Take_Over idempotency_key | Insert_Key

definition resolve_read :: "instant \<Rightarrow> key_request \<Rightarrow> idempotency_key list \<Rightarrow> api_error + key_plan" where
  "resolve_read now q rows =
     (case find_key q rows of
        Some r \<Rightarrow>
          if idm_request_body_hash r \<noteq> kr_hash q then Inl IdempotencyConflict
          else if idm_status r = Key_COMPLETED then Inr (Replay r)
          else if \<not> is_stale now r then Inl IdempotencyInProgress
          else Inr (Take_Over r)
      | None \<Rightarrow> Inr Insert_Key)"

text \<open>The conditional \<open>UPDATE\<close>; no row means that another request was faster.\<close>

definition still_as_read :: "idempotency_key \<Rightarrow> idempotency_key \<Rightarrow> bool" where
  "still_as_read r x \<longleftrightarrow> idm_id x = idm_id r \<and> idm_status x = Key_PROCESSING \<and> idm_modified_at x = idm_modified_at r"

definition take_over :: "instant \<Rightarrow> idempotency_key \<Rightarrow> idempotency_key list \<Rightarrow> api_error + idempotency_key list" where
  "take_over now r rows =
     (if length (filter (still_as_read r) rows) \<noteq> 1 then Inl IdempotencyInProgress
      else Inr (map (\<lambda>x. if still_as_read r x then x\<lparr>idm_modified_at := now\<rparr> else x) rows))"

definition new_key :: "ident \<Rightarrow> instant \<Rightarrow> key_request \<Rightarrow> idempotency_key" where
  "new_key i now q =
     \<lparr>idm_id = i, idm_club_id = kr_club q, idm_member_id = kr_member q, idm_endpoint = kr_endpoint q, idm_key = kr_key q,
      idm_request_body_hash = kr_hash q, idm_status = Key_PROCESSING, idm_response_status = None,
      idm_response_body = None, idm_modified_at = now\<rparr>"

text \<open>A concurrent first request has inserted the key before: the unique constraint refuses the second.\<close>

definition insert_key :: "ident \<Rightarrow> instant \<Rightarrow> key_request \<Rightarrow> idempotency_key list \<Rightarrow> api_error + idempotency_key list" where
  "insert_key i now q rows =
     (if find_key q rows \<noteq> None \<or> i \<in> idm_id ` set rows then Inl IdempotencyInProgress
      else Inr (rows @ [new_key i now q]))"

text \<open>\<open>resolve\<close> when nothing comes in between; no key, no record.\<close>

record idempotency_result =
  res_record :: idempotency_key
  res_is_replay :: bool

definition resolve_key ::
  "ident \<Rightarrow> instant \<Rightarrow> key_request \<Rightarrow> idempotency_key list \<Rightarrow> api_error + (idempotency_result option \<times> idempotency_key list)" where
  "resolve_key i now q rows =
     (if kr_key q = [] then Inr (None, rows)
      else and_then (resolve_read now q rows) (\<lambda>plan.
        case plan of
          Replay r \<Rightarrow> Inr (Some \<lparr>res_record = r, res_is_replay = True\<rparr>, rows)
        | Take_Over r \<Rightarrow> and_then (take_over now r rows)
            (\<lambda>rows'. Inr (Some \<lparr>res_record = r\<lparr>idm_modified_at := now\<rparr>, res_is_replay = False\<rparr>, rows'))
        | Insert_Key \<Rightarrow> and_then (insert_key i now q rows)
            (\<lambda>rows'. Inr (Some \<lparr>res_record = new_key i now q, res_is_replay = False\<rparr>, rows'))))"

definition save_response :: "instant \<Rightarrow> ident \<Rightarrow> int \<Rightarrow> dict \<Rightarrow> idempotency_key list \<Rightarrow> idempotency_key list" where
  "save_response now i status body' rows =
     map (\<lambda>r. if idm_id r = i
              then r\<lparr>idm_status := Key_COMPLETED, idm_response_status := Some status, idm_response_body := Some body',
                     idm_modified_at := now\<rparr> else r) rows"

definition release :: "ident \<Rightarrow> idempotency_key list \<Rightarrow> idempotency_key list" where
  "release i rows = filter (\<lambda>r. idm_id r \<noteq> i) rows"

section \<open>Lemmas\<close>

definition same_key :: "key_request \<Rightarrow> idempotency_key \<Rightarrow> bool" where
  "same_key q r \<longleftrightarrow> idm_member_id r = kr_member q \<and> idm_endpoint r = kr_endpoint q \<and> idm_key r = kr_key q"

lemma find_key_same: "find_key q rows = find (same_key q) rows"
  unfolding find_key_def same_key_def ..

lemma find_key_SomeD: "find_key q rows = Some r \<Longrightarrow> r \<in> set rows \<and> same_key q r"
  by (auto simp: find_key_same find_Some_iff)

lemma take_over_moves:
  assumes "take_over now r rows = Inr rows'"
  shows "rows' = map (\<lambda>x. if still_as_read r x then x\<lparr>idm_modified_at := now\<rparr> else x) rows"
  using assms by (auto simp: take_over_def split: if_splits)

lemma stale_moves: "is_stale now r \<Longrightarrow> idm_modified_at r \<noteq> now"
  by (auto simp: is_stale_def STALE_PROCESSING_AFTER_def minutes_def)

text \<open>Of two requests that read the same stale row, only the first takes it over.\<close>

lemma take_over_once:
  assumes "take_over now r rows = Inr rows'" and "idm_modified_at r \<noteq> now"
  shows "take_over now' r rows' = Inl IdempotencyInProgress"
proof -
  have "filter (still_as_read r) rows' = []"
    unfolding take_over_moves [OF assms(1)] using assms(2) by (auto simp: filter_empty_conv still_as_read_def)
  then show ?thesis by (simp add: take_over_def)
qed

lemma find_key_map:
  assumes "\<And>r. same_key q (f r) = same_key q r"
  shows "find_key q (map f rows) = map_option f (find_key q rows)"
  using assms by (induction rows) (auto simp: find_key_same)

lemma find_key_filter:
  assumes "find_key q rows = Some r" and "P r"
  shows "find_key q (filter P rows) = Some r"
  using assms by (induction rows) (auto simp: find_key_same split: if_splits)

lemma find_key_append: "find_key q rows = Some r \<Longrightarrow> find_key q (rows @ xs) = Some r"
  by (induction rows) (auto simp: find_key_same)

section \<open>Requests that come in between\<close>

text \<open>
  The table as requests write to it, in any order: a conditional take-over of a row some request has
  read, the insertion of a key, a saved response and a released key.
\<close>

datatype key_write =
    Takes instant idempotency_key
  | Inserts ident instant key_request
  | Saves instant ident int dict
  | Releases ident

fun key_effect :: "key_write \<Rightarrow> idempotency_key list \<Rightarrow> idempotency_key list" where
  "key_effect (Takes now r) rows = (case take_over now r rows of Inl _ \<Rightarrow> rows | Inr rows' \<Rightarrow> rows')"
| "key_effect (Inserts i now q) rows = (case insert_key i now q rows of Inl _ \<Rightarrow> rows | Inr rows' \<Rightarrow> rows')"
| "key_effect (Saves now i st b) rows = save_response now i st b rows"
| "key_effect (Releases i) rows = release i rows"

definition key_run :: "key_write list \<Rightarrow> idempotency_key list \<Rightarrow> idempotency_key list" where
  "key_run ws rows = fold key_effect ws rows"

fun leaves_alone :: "ident \<Rightarrow> key_write \<Rightarrow> bool" where
  "leaves_alone i (Saves _ j _ _) \<longleftrightarrow> i \<noteq> j"
| "leaves_alone i (Releases j) \<longleftrightarrow> i \<noteq> j"
| "leaves_alone i _ \<longleftrightarrow> True"

text \<open>The primary key and the constraint \<open>uq_idempotency_member_endpoint_key\<close>.\<close>

definition key_triple :: "idempotency_key \<Rightarrow> ident \<times> string \<times> pystr" where
  "key_triple r = (idm_member_id r, idm_endpoint r, idm_key r)"

definition keys_ok :: "idempotency_key list \<Rightarrow> bool" where
  "keys_ok rows \<longleftrightarrow> distinct (map idm_id rows) \<and> distinct (map key_triple rows)"

lemma same_key_triple: "same_key q r \<longleftrightarrow> key_triple r = (kr_member q, kr_endpoint q, kr_key q)"
  by (auto simp: same_key_def key_triple_def)

lemma key_map_ok:
  assumes "keys_ok rows" and "\<And>r. idm_id (f r) = idm_id r" and "\<And>r. key_triple (f r) = key_triple r"
  shows "keys_ok (map f rows)"
  using assms by (simp add: keys_ok_def comp_def)

lemma key_insert_ok:
  assumes "keys_ok rows" and "insert_key i now q rows = Inr rows'"
  shows "keys_ok rows'"
proof -
  from assms(2) have new: "rows' = rows @ [new_key i now q]" "find_key q rows = None" "i \<notin> idm_id ` set rows"
    by (auto simp: insert_key_def split: if_splits)
  have "key_triple (new_key i now q) \<notin> key_triple ` set rows"
    using new(2) by (auto simp: find_key_same find_None_iff same_key_triple key_triple_def new_key_def)
  then show ?thesis using assms(1) new(1,3) by (simp add: keys_ok_def new_key_def)
qed

lemma keys_ok_effect: "keys_ok rows \<Longrightarrow> keys_ok (key_effect w rows)"
proof (induction w rows rule: key_effect.induct)
  case (1 now r rows)
  have "keys_ok (map (\<lambda>x. if still_as_read r x then x\<lparr>idm_modified_at := now\<rparr> else x) rows)"
    by (rule key_map_ok [OF 1]) (simp_all add: key_triple_def)
  then show ?case using 1 by (auto dest: take_over_moves split: sum.split)
next
  case (2 i now q rows)
  then show ?case by (auto dest: key_insert_ok split: sum.split)
next
  case (3 now i st b rows)
  show ?case unfolding key_effect.simps save_response_def
    by (rule key_map_ok [OF 3]) (simp_all add: key_triple_def)
next
  case (4 i rows)
  then show ?case by (auto simp: release_def keys_ok_def distinct_map inj_on_def)
qed

lemma keys_ok_run: "keys_ok rows \<Longrightarrow> keys_ok (key_run ws rows)"
  unfolding key_run_def by (induction ws arbitrary: rows) (simp_all add: keys_ok_effect)

text \<open>A completed key keeps its row until it is saved again or released.\<close>

lemma completed_effect:
  assumes "find_key q rows = Some r" and "idm_status r = Key_COMPLETED" and "leaves_alone (idm_id r) w"
  shows "find_key q (key_effect w rows) = Some r"
  using assms
proof (induction w rows rule: key_effect.induct)
  case (1 now p rows)
  have "find_key q (map (\<lambda>x. if still_as_read p x then x\<lparr>idm_modified_at := now\<rparr> else x) rows) = Some r"
    by (subst find_key_map) (simp_all add: same_key_def 1 still_as_read_def)
  then show ?case using 1 by (auto dest: take_over_moves split: sum.split)
next
  case (2 i now p rows)
  then show ?case by (auto simp: insert_key_def find_key_append split: sum.split)
next
  case (3 now i st b rows)
  then show ?case unfolding key_effect.simps save_response_def
    by (subst find_key_map) (simp_all add: same_key_def)
next
  case (4 i rows)
  then show ?case by (simp add: release_def find_key_filter)
qed

lemma completed_run:
  assumes "find_key q rows = Some r" and "idm_status r = Key_COMPLETED" and "list_all (leaves_alone (idm_id r)) ws"
  shows "find_key q (key_run ws rows) = Some r"
  using assms unfolding key_run_def by (induction ws arbitrary: rows) (simp_all add: completed_effect)

lemma save_response_find:
  assumes "find_key q rows = Some r"
  shows "find_key q (save_response at (idm_id r) st b rows) =
    Some (r\<lparr>idm_status := Key_COMPLETED, idm_response_status := Some st, idm_response_body := Some b, idm_modified_at := at\<rparr>)"
  unfolding save_response_def by (subst find_key_map) (simp_all add: assms same_key_def)

lemma resolve_completed:
  assumes "find_key q rows = Some r" and "idm_status r = Key_COMPLETED" and "idm_request_body_hash r = kr_hash q" and "kr_key q \<noteq> []"
  shows "resolve_key i now q rows = Inr (Some \<lparr>res_record = r, res_is_replay = True\<rparr>, rows)"
  using assms by (simp add: resolve_key_def resolve_read_def)

end
