(* ===== verification/Demo_Desk.thy ===== *)
theory Demo_Desk
  imports Demo Expense_Export Receipt_Protocol Reminder_Protocol Idempotency
begin

text \<open>
  Concrete inputs for the witnesses of the ledger imports, of the task desk and of the request keys: the
  ASCII part of the Unicode database, an uploaded expense file, a confirmed suggestion with its reminder.
\<close>

definition demo_unicode :: unicode where
  "demo_unicode = \<lparr>lower = ascii_lower, decimal = ascii_decimal\<rparr>"

lemma demo_unicode_conservative: "conservative demo_unicode"
  by (simp add: conservative_def demo_unicode_def)

definition demo_entry :: csv_entry where
  "demo_entry = \<lparr>ce_year = 2026, ce_month = 3, ce_day = 1, ce_amount = 5000, ce_merchant = lit ''Mart'',
     ce_description = [], ce_category = lit ''food''\<rparr>"

text \<open>An upload and its confirmation.\<close>

definition value_of :: "'a \<Rightarrow> api_error + ('b \<times> 'a) \<Rightarrow> 'a" where
  "value_of dflt r = (case r of Inl _ \<Rightarrow> dflt | Inr (_, d) \<Rightarrow> d)"

lemma ok_value: "ok r \<Longrightarrow> \<exists>x. r = Inr (x, value_of dflt r)"
  by (auto simp: ok_def value_of_def split: sum.splits prod.splits)

definition demo_upload :: "api_error + (import_reply \<times> db)" where
  "demo_upload = create_receipt_import demo_rnd demo_unicode 100 (Some (lit ''k'')) ''clb_1'' None EXPENSE_CSV (lit ''a.csv'')
     (lit ''date,amount'' @ [10] @ lit ''2026-03-01,5000'' @ [10]) ''mem_1'' (lit ''text/csv'') demo"

definition demo_uploaded :: db where
  "demo_uploaded = value_of demo demo_upload"

definition demo_import_id :: ident where
  "demo_import_id = rim_id (hd (receipt_imports demo_uploaded))"

definition demo_confirm :: "api_error + (ident list \<times> db)" where
  "demo_confirm = confirm_receipt_import demo_rnd 110 ''clb_1'' ''mem_1'' demo_import_id 1 demo_uploaded"

definition demo_booked :: db where
  "demo_booked = value_of demo demo_confirm"

lemma demo_import_steps: "import_step demo demo_uploaded" "import_step demo_uploaded demo_booked"
proof -
  have "ok demo_upload" by code_simp
  then obtain x where "demo_upload = Inr (x, demo_uploaded)" using ok_value [of demo_upload demo] by (auto simp: demo_uploaded_def)
  then show "import_step demo demo_uploaded" unfolding demo_upload_def by (rule import_step.Uploaded)
  have "ok demo_confirm" by code_simp
  then obtain y where "demo_confirm = Inr (y, demo_booked)" using ok_value [of demo_confirm demo] by (auto simp: demo_booked_def)
  then show "import_step demo_uploaded demo_booked" unfolding demo_confirm_def by (rule import_step.Confirmed)
qed

text \<open>An image whose first reading failed, and the retry.\<close>

definition demo_image :: db where
  "demo_image = value_of demo (create_receipt_import demo_rnd demo_unicode 100 (Some (lit ''k'')) ''clb_1'' None RECEIPT_IMAGE
     (lit ''a.jpg'') [255, 216, 255] ''mem_1'' (lit ''image/jpeg'') demo)"

definition demo_image_id :: ident where
  "demo_image_id = rim_id (hd (receipt_imports demo_image))"

definition demo_first_job :: ident where
  "demo_first_job = the (rim_job_id (hd (receipt_imports demo_image)))"

definition demo_unread :: db where
  "demo_unread = res (run_receipt_ocr demo_rnd 110 (\<lambda>_. 0) (Inl AIConfigError) ''clb_1'' demo_image_id demo_first_job demo_image)"

definition demo_retry :: "api_error + ((ident \<times> pystr \<times> pystr) \<times> db)" where
  "demo_retry = retry_begin demo_rnd 120 ''clb_1'' demo_image_id ''mem_1'' demo_unread"

definition demo_retried :: db where
  "demo_retried = value_of demo demo_retry"

text \<open>A suggestion, confirmed into an item with a reminder.\<close>

definition demo_suggestion :: task_suggestion where
  "demo_suggestion = \<lparr>tsk_id = ''tsk_1'', tsk_club_id = ''clb_1'', tsk_decision_id = ''cdc_1'', tsk_source_type = DISCORD_MESSAGE,
     tsk_title = lit ''book a bus'', tsk_description = None, tsk_suggested_assignee = None,
     tsk_suggested_assignee_member_id = None, tsk_due_date = None, tsk_kind = None, tsk_due_at = None, tsk_scheduled_at = None,
     tsk_unresolved_fields = [], tsk_evidence = [],
     tsk_status = Suggestion_PROPOSED, tsk_version = 1, tsk_accepted_by = None, tsk_accepted_at = None, tsk_created_at = 0\<rparr>"

definition demo_desk :: desk where
  "demo_desk = \<lparr>base = demo, suggestions = [demo_suggestion],
     decisions = [\<lparr>cdc_id = ''cdc_1'', cdc_club_id = ''clb_1'', cdc_job_id = ''job_0'', cdc_source_type = DISCORD_MESSAGE,
       cdc_meeting_id = None, cdc_discord_connection_id = None, cdc_sources = [], cdc_status = Decision_SUCCEEDED, cdc_route = Route_LLM, cdc_kind = Kind_ANSWER,
       cdc_reason_summary = None, cdc_question = None, cdc_output = None, cdc_citations = None, cdc_tool_calls = [],
       cdc_model_version = lit ''m'', cdc_policy_version = lit ''p'', cdc_judge_input = None, cdc_judge_ms = None, cdc_created_at = 0\<rparr>],
     segments = [], confirmed_tasks = [], reminders = [], subscriptions = [], meetings = [], audio_chunks = [], meeting_reviews = []\<rparr>"

definition demo_fields :: confirmed_fields where
  "demo_fields = \<lparr>cf_kind = Item_TASK, cf_title = lit ''book a bus'', cf_description = None, cf_assignee_name = None,
     cf_assignee_account_id = None, cf_due_at = Some 500, cf_scheduled_at = None, cf_timezone = lit ''Asia/Seoul'',
     cf_reminder_at = 400, cf_recipients = [''acc_1'']\<rparr>"

definition demo_confirmation :: "api_error + (confirmed_task \<times> desk)" where
  "demo_confirmation = confirm_suggestion demo_rnd (\<lambda>_. ''h'') 100 demo_fields ''clb_1'' ''mem_1'' ''tsk_1'' 1 demo_desk"

definition demo_confirmed :: desk where
  "demo_confirmed = value_of demo_desk demo_confirmation"

definition demo_reminder :: task_reminder where
  "demo_reminder = hd (reminders demo_confirmed)"

definition demo_claimed :: desk where
  "demo_claimed = snd (claim_due 450 demo_confirmed)"

lemma demo_desk_step: "desk_step demo_desk Quiet demo_confirmed"
proof -
  have "ok demo_confirmation" by code_simp
  then obtain x where "demo_confirmation = Inr (x, demo_confirmed)"
    using ok_value [of demo_confirmation demo_desk] by (auto simp: demo_confirmed_def)
  then show ?thesis unfolding demo_confirmation_def by (rule desk_step.Item_Confirmed)
qed

lemma demo_claim_step: "desk_step demo_confirmed (Claim (rmd_id demo_reminder)) demo_claimed"
proof -
  obtain due where "claim_due 450 demo_confirmed = (Some due, demo_claimed)" "due_id due = rmd_id demo_reminder"
  proof -
    have "(case fst (claim_due 450 demo_confirmed) of None \<Rightarrow> False | Some due \<Rightarrow> due_id due = rmd_id demo_reminder)" by code_simp
    then show thesis using that by (cases "claim_due 450 demo_confirmed") (auto simp: demo_claimed_def split: option.splits)
  qed
  then show ?thesis using desk_step.Due_Claimed by metis
qed

lemma demo_desk_run: "desk_run demo_desk [Quiet, Claim (rmd_id demo_reminder)] demo_claimed"
  using desk_run.Go [OF desk_run.Go [OF desk_run.Stop demo_desk_step] demo_claim_step] by simp

definition demo_cancelled :: "api_error + (confirmed_task \<times> desk)" where
  "demo_cancelled = cancel_confirmed_task ''clb_1'' (rmd_item_id demo_reminder) 1 demo_confirmed"

text \<open>A request with a key and the row it inserts.\<close>

definition demo_key :: key_request where
  "demo_key = \<lparr>kr_member = ''mem_1'', kr_endpoint = ''POST /x'', kr_key = lit ''k'', kr_club = None, kr_hash = ''h''\<rparr>"

end
