(* ===== verification/Plan_Contracts.thy ===== *)
theory Plan_Contracts
  imports Catalog Calendar Errors
begin

text \<open>
  The contract between the service and the planning assistant, \<open>app/ai/contracts.py\<close> and
  \<open>app/ai/features/planning/schemas.py\<close>: the conditions of an event with the evidence for them, the
  draft, the results of record lookups, plan previews and the state that is kept between two turns.
  The models are frozen, so an object is a value; their validators are predicates. The sentences that
  explain a refusal are named by a constructor each.
\<close>

section \<open>Conditions\<close>

datatype condition_field = Field_title | Field_event_type | Field_headcount | Field_fee_per_person
  | Field_start_date | Field_end_date | Field_location | Field_budget_total

text \<open>The order of \<open>PlanningConditions.model_fields\<close>.\<close>

definition condition_fields :: "condition_field list" where
  "condition_fields = [Field_title, Field_event_type, Field_headcount, Field_fee_per_person,
     Field_start_date, Field_end_date, Field_location, Field_budget_total]"

fun field_name :: "condition_field \<Rightarrow> string" where
  "field_name Field_title = ''title''"
| "field_name Field_event_type = ''event_type''"
| "field_name Field_headcount = ''headcount''"
| "field_name Field_fee_per_person = ''fee_per_person''"
| "field_name Field_start_date = ''start_date''"
| "field_name Field_end_date = ''end_date''"
| "field_name Field_location = ''location''"
| "field_name Field_budget_total = ''budget_total''"

lemma condition_fields_UNIV: "set condition_fields = UNIV"
proof -
  have "f \<in> set condition_fields" for f by (cases f) (simp_all add: condition_fields_def)
  then show ?thesis by auto
qed

text \<open>Maps on condition fields are compared field by field.\<close>

instantiation condition_field :: enum
begin

definition enum_condition_field :: "condition_field list" where
  "enum_condition_field = condition_fields"

definition enum_all_condition_field :: "(condition_field \<Rightarrow> bool) \<Rightarrow> bool" where
  "enum_all_condition_field P \<longleftrightarrow> list_all P condition_fields"

definition enum_ex_condition_field :: "(condition_field \<Rightarrow> bool) \<Rightarrow> bool" where
  "enum_ex_condition_field P \<longleftrightarrow> list_ex P condition_fields"

instance
proof
  show "(UNIV :: condition_field set) = set enum_class.enum"
    by (simp add: enum_condition_field_def condition_fields_UNIV)
  show "distinct (enum_class.enum :: condition_field list)"
    by (simp add: enum_condition_field_def condition_fields_def)
  show "\<And>P. (enum_class.enum_all P :: bool) = Ball (UNIV :: condition_field set) P"
    by (simp add: enum_all_condition_field_def list_all_iff condition_fields_UNIV)
  show "\<And>P. (enum_class.enum_ex P :: bool) = Bex (UNIV :: condition_field set) P"
    by (simp add: enum_ex_condition_field_def list_ex_iff condition_fields_UNIV)
qed

end

text \<open>\<open>ConditionValue\<close>: a field together with a value of its type.\<close>

datatype condition_value = TitleValue pystr | EventTypeValue event_type | HeadcountValue int | FeeValue int
  | StartDateValue date | EndDateValue date | LocationValue pystr | BudgetValue int

fun value_field :: "condition_value \<Rightarrow> condition_field" where
  "value_field (TitleValue _) = Field_title"
| "value_field (EventTypeValue _) = Field_event_type"
| "value_field (HeadcountValue _) = Field_headcount"
| "value_field (FeeValue _) = Field_fee_per_person"
| "value_field (StartDateValue _) = Field_start_date"
| "value_field (EndDateValue _) = Field_end_date"
| "value_field (LocationValue _) = Field_location"
| "value_field (BudgetValue _) = Field_budget_total"

text \<open>\<open>NonBlankStr\<close>\<close>

definition nonblank_str :: "pystr \<Rightarrow> bool" where
  "nonblank_str s \<longleftrightarrow> py_strip s \<noteq> []"

fun valid_value :: "condition_value \<Rightarrow> bool" where
  "valid_value (TitleValue s) \<longleftrightarrow> nonblank_str s \<and> length s \<le> 100"
| "valid_value (LocationValue s) \<longleftrightarrow> nonblank_str s \<and> length s \<le> 200"
| "valid_value (HeadcountValue n) \<longleftrightarrow> 1 \<le> n"
| "valid_value (FeeValue n) \<longleftrightarrow> 0 \<le> n"
| "valid_value (BudgetValue n) \<longleftrightarrow> 0 \<le> n"
| "valid_value _ \<longleftrightarrow> True"

text \<open>\<open>PlanningConditions\<close>\<close>

record conditions =
  pc_title :: "pystr option"
  pc_event_type :: "event_type option"
  pc_headcount :: "int option"
  pc_fee_per_person :: "int option"
  pc_start_date :: "date option"
  pc_end_date :: "date option"
  pc_location :: "pystr option"
  pc_budget_total :: "int option"

definition no_conditions :: conditions where
  "no_conditions = \<lparr>pc_title = None, pc_event_type = None, pc_headcount = None, pc_fee_per_person = None,
     pc_start_date = None, pc_end_date = None, pc_location = None, pc_budget_total = None\<rparr>"

text \<open>\<open>getattr(conditions, field)\<close> and \<open>values[field] = ...\<close>\<close>

fun condition_of :: "conditions \<Rightarrow> condition_field \<Rightarrow> condition_value option" where
  "condition_of c Field_title = map_option TitleValue (pc_title c)"
| "condition_of c Field_event_type = map_option EventTypeValue (pc_event_type c)"
| "condition_of c Field_headcount = map_option HeadcountValue (pc_headcount c)"
| "condition_of c Field_fee_per_person = map_option FeeValue (pc_fee_per_person c)"
| "condition_of c Field_start_date = map_option StartDateValue (pc_start_date c)"
| "condition_of c Field_end_date = map_option EndDateValue (pc_end_date c)"
| "condition_of c Field_location = map_option LocationValue (pc_location c)"
| "condition_of c Field_budget_total = map_option BudgetValue (pc_budget_total c)"

fun set_condition :: "condition_value \<Rightarrow> conditions \<Rightarrow> conditions" where
  "set_condition (TitleValue s) c = c\<lparr>pc_title := Some s\<rparr>"
| "set_condition (EventTypeValue t) c = c\<lparr>pc_event_type := Some t\<rparr>"
| "set_condition (HeadcountValue n) c = c\<lparr>pc_headcount := Some n\<rparr>"
| "set_condition (FeeValue n) c = c\<lparr>pc_fee_per_person := Some n\<rparr>"
| "set_condition (StartDateValue x) c = c\<lparr>pc_start_date := Some x\<rparr>"
| "set_condition (EndDateValue x) c = c\<lparr>pc_end_date := Some x\<rparr>"
| "set_condition (LocationValue s) c = c\<lparr>pc_location := Some s\<rparr>"
| "set_condition (BudgetValue n) c = c\<lparr>pc_budget_total := Some n\<rparr>"

fun clear_condition :: "condition_field \<Rightarrow> conditions \<Rightarrow> conditions" where
  "clear_condition Field_title c = c\<lparr>pc_title := None\<rparr>"
| "clear_condition Field_event_type c = c\<lparr>pc_event_type := None\<rparr>"
| "clear_condition Field_headcount c = c\<lparr>pc_headcount := None\<rparr>"
| "clear_condition Field_fee_per_person c = c\<lparr>pc_fee_per_person := None\<rparr>"
| "clear_condition Field_start_date c = c\<lparr>pc_start_date := None\<rparr>"
| "clear_condition Field_end_date c = c\<lparr>pc_end_date := None\<rparr>"
| "clear_condition Field_location c = c\<lparr>pc_location := None\<rparr>"
| "clear_condition Field_budget_total c = c\<lparr>pc_budget_total := None\<rparr>"

text \<open>\<open>_require_ordered_dates\<close>\<close>

definition ordered_dates :: "conditions \<Rightarrow> bool" where
  "ordered_dates c \<longleftrightarrow>
     (case (pc_start_date c, pc_end_date c) of (Some a, Some b) \<Rightarrow> a \<le> b | _ \<Rightarrow> True)"

definition valid_conditions :: "conditions \<Rightarrow> bool" where
  "valid_conditions c \<longleftrightarrow>
     list_all (\<lambda>f. case condition_of c f of None \<Rightarrow> True | Some v \<Rightarrow> valid_value v) condition_fields \<and> ordered_dates c"

section \<open>Drafts\<close>

record message_evidence =
  evi_message_id :: pystr
  evi_quote :: pystr

definition valid_quote :: "message_evidence \<Rightarrow> bool" where
  "valid_quote e \<longleftrightarrow> nonblank_str (evi_message_id e) \<and> nonblank_str (evi_quote e)"

datatype condition_status = Tentative | Specified

datatype topic = Topic_title | Topic_event_type | Topic_headcount | Topic_fee_per_person | Topic_dates
  | Topic_location | Topic_budget_total

fun topic_name :: "topic \<Rightarrow> string" where
  "topic_name Topic_title = ''title''"
| "topic_name Topic_event_type = ''event_type''"
| "topic_name Topic_headcount = ''headcount''"
| "topic_name Topic_fee_per_person = ''fee_per_person''"
| "topic_name Topic_dates = ''dates''"
| "topic_name Topic_location = ''location''"
| "topic_name Topic_budget_total = ''budget_total''"

fun topic_for :: "condition_field \<Rightarrow> topic" where
  "topic_for Field_start_date = Topic_dates"
| "topic_for Field_end_date = Topic_dates"
| "topic_for Field_title = Topic_title"
| "topic_for Field_event_type = Topic_event_type"
| "topic_for Field_headcount = Topic_headcount"
| "topic_for Field_fee_per_person = Topic_fee_per_person"
| "topic_for Field_location = Topic_location"
| "topic_for Field_budget_total = Topic_budget_total"

record condition_meta =
  cm_status :: condition_status
  cm_evidence :: message_evidence

text \<open>\<open>PlanningDraft\<close>; the dictionary \<open>condition_meta\<close> is a partial map.\<close>

record draft =
  dr_conditions :: conditions
  dr_condition_meta :: "condition_field \<Rightarrow> condition_meta option"
  dr_deferred_topics :: "topic list"

definition empty_draft :: draft where
  "empty_draft = \<lparr>dr_conditions = no_conditions, dr_condition_meta = (\<lambda>_. None), dr_deferred_topics = []\<rparr>"

text \<open>\<open>_consistent\<close> of the draft and of the models it is made of.\<close>

definition consistent_draft :: "draft \<Rightarrow> bool" where
  "consistent_draft dr \<longleftrightarrow>
     list_all (\<lambda>f. dr_condition_meta dr f \<noteq> None \<longrightarrow> condition_of (dr_conditions dr) f \<noteq> None) condition_fields \<and>
     distinct (dr_deferred_topics dr)"

definition valid_draft :: "draft \<Rightarrow> bool" where
  "valid_draft dr \<longleftrightarrow> valid_conditions (dr_conditions dr) \<and> consistent_draft dr \<and>
     list_all (\<lambda>f. case dr_condition_meta dr f of None \<Rightarrow> True | Some m \<Rightarrow> valid_quote (cm_evidence m)) condition_fields"

section \<open>Reasons\<close>

text \<open>The fixed sentences of the planning features that refuse or explain something.\<close>

datatype reason =
    Why_Evidence | Why_Duplicate_Change | Why_Duplicate_Topic | Why_Topic_Clash | Why_Dates
  | Why_Tool_Limit | Why_No_Generator | Why_Generation_Arguments | Why_No_Search | Why_Search_Arguments
  | Why_Unknown_Tool | Why_Unseen_Search | Why_Condition_Arguments
  | Why_Defer_Evidence | Why_Blocked | Why_Deferred | Why_Already_Generated
  | Why_Generation_Evidence | Why_No_Such_Offer | Why_Offer_Outdated | Why_Request_Reused | Why_Other_Basis
  | Why_Event_Type | Why_Dates_Unanswered | Why_Headcount_Unanswered | Why_Location_Unanswered | Why_Change_Pending
  | Why_Output_Limit | Why_Timeout | Why_Invalid_Plan | Why_Invalid_Output | Why_Unavailable | Why_Search_Failed

section \<open>Record lookups\<close>

record record_source =
  rs_record_id :: pystr
  rs_file_name :: pystr
  rs_location :: pystr

record record_fact =
  rf_content :: pystr
  rf_sources :: "record_source list"

record record_conflict =
  rx_description :: pystr
  rx_values :: "record_fact list"

text \<open>\<open>RecordSearchResult\<close> and \<open>_report_not_found\<close>\<close>

record search_result =
  sr_facts :: "record_fact list"
  sr_not_found :: "pystr list"
  sr_conflicts :: "record_conflict list"

definition valid_fact :: "record_fact \<Rightarrow> bool" where
  "valid_fact f \<longleftrightarrow> nonblank_str (rf_content f) \<and> rf_sources f \<noteq> []"

definition valid_search_result :: "search_result \<Rightarrow> bool" where
  "valid_search_result r \<longleftrightarrow>
     list_all valid_fact (sr_facts r) \<and> list_all nonblank_str (sr_not_found r) \<and>
     list_all (\<lambda>x. nonblank_str (rx_description x) \<and> 2 \<le> length (rx_values x) \<and> list_all valid_fact (rx_values x)) (sr_conflicts r) \<and>
     (sr_facts r \<noteq> [] \<or> sr_conflicts r \<noteq> [] \<or> sr_not_found r \<noteq> [])"

datatype lookup_status = Lookup_available | Lookup_not_found | Lookup_failed | Lookup_rejected

record record_lookup =
  rl_status :: lookup_status
  rl_query :: "pystr option"
  rl_result :: "search_result option"
  rl_reason :: "reason option"

definition found_records :: "search_result \<Rightarrow> bool" where
  "found_records r \<longleftrightarrow> sr_facts r \<noteq> [] \<or> sr_conflicts r \<noteq> []"

definition consistent_lookup :: "record_lookup \<Rightarrow> bool" where
  "consistent_lookup r \<longleftrightarrow>
     (if rl_status r \<in> {Lookup_available, Lookup_not_found}
      then (case rl_result r of
              None \<Rightarrow> False
            | Some sr \<Rightarrow> rl_query r \<noteq> None \<and> rl_query r \<noteq> Some [] \<and>
                         found_records sr = (rl_status r = Lookup_available))
      else rl_result r = None \<and> rl_reason r \<noteq> None)"

section \<open>Plan previews\<close>

datatype trigger = Chat_Trigger pystr pystr | Button_Trigger pystr

fun trigger_request :: "trigger \<Rightarrow> pystr" where
  "trigger_request (Chat_Trigger i _) = i"
| "trigger_request (Button_Trigger i) = i"

fun is_chat :: "trigger \<Rightarrow> bool" where
  "is_chat (Chat_Trigger _ _) = True"
| "is_chat (Button_Trigger _) = False"

record plan_action =
  pa_type :: action_type
  pa_title :: pystr
  pa_due_date :: "date option"

text \<open>\<open>PlanStepFields\<close>, what the model writes of a step, and \<open>PreviewStep\<close>, with what the catalogue adds.\<close>

record plan_step =
  ps_code :: step_code
  ps_purpose :: pystr
  ps_starts_at :: "instant option"
  ps_deadline :: "instant option"
  ps_plan_actions :: "plan_action list"

record preview_step = plan_step +
  ps_name :: pystr
  ps_phase :: step_phase
  ps_actor :: step_actor

record excluded_plan_step =
  xp_code :: step_code
  xp_reason :: pystr

record excluded_preview_step = excluded_plan_step +
  xp_name :: pystr

definition catalog_named :: "excluded_preview_step \<Rightarrow> bool" where
  "catalog_named x \<longleftrightarrow> PLANNING_STEP_NAMES (xp_code x) = Some (xp_name x)"

record plan_assumption =
  as_content :: pystr
  as_sources :: "record_source list"

record plan_preview =
  pv_id :: pystr
  pv_basis_draft :: draft
  pv_trigger :: trigger
  pv_steps :: "preview_step list"
  pv_excluded_steps :: "excluded_preview_step list"
  pv_assumptions :: "plan_assumption list"
  pv_open_questions :: "pystr list"
  pv_warnings :: "pystr list"

datatype generation_status = Gen_generated | Gen_needs_clarification | Gen_failed

record generation_result =
  gr_status :: generation_status
  gr_preview :: "plan_preview option"
  gr_reason :: "reason option"
  gr_model_calls :: int

definition consistent_generation :: "generation_result \<Rightarrow> bool" where
  "consistent_generation r \<longleftrightarrow> 0 \<le> gr_model_calls r \<and>
     (if gr_status r = Gen_generated then gr_preview r \<noteq> None \<and> gr_reason r = None
      else gr_preview r = None \<and> gr_reason r \<noteq> None)"

datatype offer_status = Offer_pending | Offer_deferred

record generation_offer =
  go_id :: pystr
  go_status :: offer_status
  go_summary :: pystr
  go_basis_draft :: draft

record generation_state =
  gs_offer :: "generation_offer option"
  gs_preview :: "plan_preview option"
  gs_change_pending :: bool
  gs_pending_fields :: "condition_field list"

definition no_generation :: generation_state where
  "no_generation = \<lparr>gs_offer = None, gs_preview = None, gs_change_pending = False, gs_pending_fields = []\<rparr>"

text \<open>\<open>_pending_fields\<close>\<close>

definition consistent_generation_state :: "generation_state \<Rightarrow> bool" where
  "consistent_generation_state g \<longleftrightarrow> (gs_pending_fields g \<noteq> [] \<longrightarrow> gs_change_pending g)"

section \<open>Lemmas\<close>

lemma condition_of_field: "condition_of c f = Some v \<Longrightarrow> value_field v = f"
  by (cases f) auto

lemma condition_of_set [simp]:
  "condition_of (set_condition v c) f = (if value_field v = f then Some v else condition_of c f)"
  by (cases v; cases f) simp_all

lemma condition_of_clear [simp]:
  "condition_of (clear_condition g c) f = (if g = f then None else condition_of c f)"
  by (cases g; cases f) simp_all

text \<open>Conditions are determined by their fields.\<close>

lemma conditions_eqI:
  assumes "\<And>f. condition_of c f = condition_of c' f"
  shows "c = c'"
proof -
  have "pc_title c = pc_title c'" using assms [of Field_title] by (cases "pc_title c"; cases "pc_title c'") auto
  moreover have "pc_event_type c = pc_event_type c'"
    using assms [of Field_event_type] by (cases "pc_event_type c"; cases "pc_event_type c'") auto
  moreover have "pc_headcount c = pc_headcount c'"
    using assms [of Field_headcount] by (cases "pc_headcount c"; cases "pc_headcount c'") auto
  moreover have "pc_fee_per_person c = pc_fee_per_person c'"
    using assms [of Field_fee_per_person] by (cases "pc_fee_per_person c"; cases "pc_fee_per_person c'") auto
  moreover have "pc_start_date c = pc_start_date c'"
    using assms [of Field_start_date] by (cases "pc_start_date c"; cases "pc_start_date c'") auto
  moreover have "pc_end_date c = pc_end_date c'"
    using assms [of Field_end_date] by (cases "pc_end_date c"; cases "pc_end_date c'") auto
  moreover have "pc_location c = pc_location c'"
    using assms [of Field_location] by (cases "pc_location c"; cases "pc_location c'") auto
  moreover have "pc_budget_total c = pc_budget_total c'"
    using assms [of Field_budget_total] by (cases "pc_budget_total c"; cases "pc_budget_total c'") auto
  ultimately show ?thesis by simp
qed

lemma valid_conditions_iff:
  "valid_conditions c \<longleftrightarrow> (\<forall>f v. condition_of c f = Some v \<longrightarrow> valid_value v) \<and> ordered_dates c"
proof -
  have "list_all P condition_fields \<longleftrightarrow> (\<forall>f. P f)" for P by (simp add: list_all_iff condition_fields_UNIV)
  then show ?thesis by (auto simp: valid_conditions_def split: option.splits)
qed

lemma consistent_draft_iff:
  "consistent_draft dr \<longleftrightarrow>
     (\<forall>f. dr_condition_meta dr f \<noteq> None \<longrightarrow> condition_of (dr_conditions dr) f \<noteq> None) \<and> distinct (dr_deferred_topics dr)"
  by (simp add: consistent_draft_def list_all_iff condition_fields_UNIV)

lemma valid_draft_iff:
  "valid_draft dr \<longleftrightarrow> valid_conditions (dr_conditions dr) \<and> consistent_draft dr \<and>
     (\<forall>f m. dr_condition_meta dr f = Some m \<longrightarrow> valid_quote (cm_evidence m))"
  by (auto simp: valid_draft_def list_all_iff condition_fields_UNIV split: option.splits)

lemma valid_empty_draft: "valid_draft empty_draft"
  by code_simp

end
