(* ===== verification/Plan_Conditions.thy ===== *)
theory Plan_Conditions
  imports Plan_Contracts
begin

text \<open>
  Changing the conditions of a draft and deciding whether a plan may be generated from it:
  \<open>app/ai/features/planning/agent/tools.py\<close>, \<open>generation/readiness.py\<close>, \<open>generation/offers.py\<close> and
  \<open>condition_generation_state\<close> of \<open>agent/generation_tools.py\<close>. What the language model asks for is an
  argument; the functions decide what becomes of it.
\<close>

section \<open>The change of conditions\<close>

text \<open>\<open>quote in text\<close>\<close>

fun contains :: "pystr \<Rightarrow> pystr \<Rightarrow> bool" where
  "contains needle [] = (needle = [])"
| "contains needle (c # s) = (take (length needle) (c # s) = needle \<or> contains needle s)"

datatype speaker = Speaker_user | Speaker_assistant

record plan_message =
  pm_id :: pystr
  pm_role :: speaker
  pm_text :: pystr

datatype condition_change = SetCondition condition_value condition_status message_evidence
  | ClearCondition condition_field message_evidence

fun changed_field :: "condition_change \<Rightarrow> condition_field" where
  "changed_field (SetCondition v _ _) = value_field v"
| "changed_field (ClearCondition f _) = f"

fun change_evidence :: "condition_change \<Rightarrow> message_evidence" where
  "change_evidence (SetCondition _ _ e) = e"
| "change_evidence (ClearCondition _ e) = e"

fun is_set :: "condition_change \<Rightarrow> bool" where
  "is_set (SetCondition _ _ _) = True"
| "is_set (ClearCondition _ _) = False"

record topic_update =
  tu_topic :: topic
  tu_evidence :: message_evidence

text \<open>\<open>UpdateEventConditionsInput\<close>\<close>

record conditions_input =
  ci_changes :: "condition_change list"
  ci_defer_topics :: "topic_update list"
  ci_resume_topics :: "topic_update list"

fun valid_change :: "condition_change \<Rightarrow> bool" where
  "valid_change (SetCondition v _ e) \<longleftrightarrow> valid_value v \<and> valid_quote e"
| "valid_change (ClearCondition _ e) \<longleftrightarrow> valid_quote e"

definition valid_input :: "conditions_input \<Rightarrow> bool" where
  "valid_input q \<longleftrightarrow> list_all valid_change (ci_changes q) \<and>
     list_all (\<lambda>t. valid_quote (tu_evidence t)) (ci_defer_topics q) \<and>
     list_all (\<lambda>t. valid_quote (tu_evidence t)) (ci_resume_topics q)"

datatype update_status = Update_applied | Update_unchanged | Update_rejected

text \<open>\<open>ConditionUpdateResult\<close>\<close>

record condition_update =
  cu_status :: update_status
  cu_draft :: draft
  cu_changed_fields :: "condition_field list"
  cu_reason :: "reason option"

definition rejected_update :: "draft \<Rightarrow> reason \<Rightarrow> condition_update" where
  "rejected_update dr why =
     \<lparr>cu_status = Update_rejected, cu_draft = dr, cu_changed_fields = [], cu_reason = Some why\<rparr>"

definition valid_evidence :: "message_evidence \<Rightarrow> plan_message \<Rightarrow> bool" where
  "valid_evidence e m \<longleftrightarrow> pm_role m = Speaker_user \<and> evi_message_id e = pm_id m \<and> contains (evi_quote e) (pm_text m)"

definition request_evidence :: "conditions_input \<Rightarrow> message_evidence list" where
  "request_evidence q = map change_evidence (ci_changes q) @ map tu_evidence (ci_defer_topics q) @ map tu_evidence (ci_resume_topics q)"

definition deferred_of :: "conditions_input \<Rightarrow> topic list" where
  "deferred_of q = map tu_topic (ci_defer_topics q)"

definition resumed_of :: "conditions_input \<Rightarrow> topic list" where
  "resumed_of q = map tu_topic (ci_resume_topics q)"

definition set_topics :: "conditions_input \<Rightarrow> topic list" where
  "set_topics q = map (\<lambda>ch. topic_for (changed_field ch)) (filter is_set (ci_changes q))"

fun apply_value :: "condition_change \<Rightarrow> conditions \<Rightarrow> conditions" where
  "apply_value (SetCondition v _ _) c = set_condition v c"
| "apply_value (ClearCondition f _) c = clear_condition f c"

fun apply_meta ::
  "condition_change \<Rightarrow> (condition_field \<Rightarrow> condition_meta option) \<Rightarrow> condition_field \<Rightarrow> condition_meta option" where
  "apply_meta (SetCondition v st e) m = m(value_field v := Some \<lparr>cm_status = st, cm_evidence = e\<rparr>)"
| "apply_meta (ClearCondition f _) m = m(f := None)"

text \<open>The refusals in the order they are checked.\<close>

definition refused_update :: "plan_message \<Rightarrow> conditions_input \<Rightarrow> reason option" where
  "refused_update m q =
     (if pm_role m \<noteq> Speaker_user \<or>
         \<not> list_all (\<lambda>e. evi_message_id e = pm_id m \<and> contains (evi_quote e) (pm_text m)) (request_evidence q)
      then Some Why_Evidence
      else if \<not> distinct (map changed_field (ci_changes q)) then Some Why_Duplicate_Change
      else if \<not> distinct (deferred_of q) \<or> \<not> distinct (resumed_of q) then Some Why_Duplicate_Topic
      else if set (deferred_of q) \<inter> (set (resumed_of q) \<union> set (set_topics q)) \<noteq> {} then Some Why_Topic_Clash
      else None)"

definition new_topics :: "conditions_input \<Rightarrow> topic list \<Rightarrow> topic list" where
  "new_topics q ts =
     filter (\<lambda>t. t \<notin> set (set_topics q) \<and> t \<notin> set (resumed_of q)) ts @ deferred_of q"

definition updated_draft :: "conditions_input \<Rightarrow> draft \<Rightarrow> draft" where
  "updated_draft q dr =
     \<lparr>dr_conditions = fold apply_value (ci_changes q) (dr_conditions dr),
      dr_condition_meta = fold apply_meta (ci_changes q) (dr_condition_meta dr),
      dr_deferred_topics = sort_key topic_name (remdups (new_topics q (dr_deferred_topics dr)))\<rparr>"

definition unchanged_draft :: "draft \<Rightarrow> draft \<Rightarrow> bool" where
  "unchanged_draft dr dr' \<longleftrightarrow> dr_conditions dr' = dr_conditions dr \<and> dr_condition_meta dr' = dr_condition_meta dr \<and>
     set (dr_deferred_topics dr') = set (dr_deferred_topics dr)"

text \<open>
  \<open>update_event_conditions\<close>. A combination of values that is no valid set of conditions is refused; a
  draft that does not validate would raise.
\<close>

definition update_event_conditions :: "draft \<Rightarrow> conditions_input \<Rightarrow> plan_message \<Rightarrow> ai_exn + condition_update" where
  "update_event_conditions dr q m =
     (case refused_update m q of
        Some why \<Rightarrow> Inr (rejected_update dr why)
      | None \<Rightarrow>
          let dr' = updated_draft q dr in
          if \<not> valid_conditions (dr_conditions dr') then Inr (rejected_update dr Why_Dates)
          else if \<not> consistent_draft dr' then Inl PydanticValidationError
          else Inr \<lparr>cu_status = (if unchanged_draft dr dr' then Update_unchanged else Update_applied),
                    cu_draft = (if unchanged_draft dr dr' then dr else dr'),
                    cu_changed_fields = filter (\<lambda>f. condition_of (dr_conditions dr) f \<noteq> condition_of (dr_conditions dr') f \<or>
                        dr_condition_meta dr f \<noteq> dr_condition_meta dr' f) (map changed_field (ci_changes q)),
                    cu_reason = None\<rparr>)"

section \<open>Readiness\<close>

datatype generation_block = Block_event_type_missing | Block_dates_unanswered | Block_headcount_unanswered
  | Block_location_unanswered | Block_condition_change_pending

fun block_message :: "generation_block \<Rightarrow> reason" where
  "block_message Block_event_type_missing = Why_Event_Type"
| "block_message Block_dates_unanswered = Why_Dates_Unanswered"
| "block_message Block_headcount_unanswered = Why_Headcount_Unanswered"
| "block_message Block_location_unanswered = Why_Location_Unanswered"
| "block_message Block_condition_change_pending = Why_Change_Pending"

definition required_topics :: "(topic \<times> condition_field \<times> generation_block) list" where
  "required_topics = [(Topic_dates, Field_start_date, Block_dates_unanswered),
     (Topic_headcount, Field_headcount, Block_headcount_unanswered),
     (Topic_location, Field_location, Block_location_unanswered)]"

definition generation_blocks :: "draft \<Rightarrow> generation_state \<Rightarrow> bool \<Rightarrow> generation_block list" where
  "generation_blocks dr g use_current =
     (if pc_event_type (dr_conditions dr) = None then [Block_event_type_missing]
      else List.map_filter (\<lambda>(t, f, b). if condition_of (dr_conditions dr) f = None \<and> t \<notin> set (dr_deferred_topics dr)
                                        then Some b else None) required_topics) @
     (if gs_change_pending g \<and> \<not> use_current then [Block_condition_change_pending] else [])"

record readiness =
  rd_can_generate :: bool
  rd_reasons :: "generation_block list"

definition consistent_readiness :: "readiness \<Rightarrow> bool" where
  "consistent_readiness r \<longleftrightarrow> rd_can_generate r = (rd_reasons r = []) \<and> distinct (rd_reasons r)"

section \<open>Offers\<close>

definition same_basis :: "draft \<Rightarrow> draft \<Rightarrow> bool" where
  "same_basis l r \<longleftrightarrow> dr_conditions l = dr_conditions r \<and>
     (\<lambda>f. map_option cm_status (dr_condition_meta l f)) = (\<lambda>f. map_option cm_status (dr_condition_meta r f)) \<and>
     set (dr_deferred_topics l) = set (dr_deferred_topics r)"

datatype offer_action = Action_offer | Action_defer

record offer_input =
  oi_action :: offer_action
  oi_reason :: pystr
  oi_evidence :: "message_evidence option"

text \<open>\<open>_defer_evidence\<close>\<close>

definition valid_offer_input :: "offer_input \<Rightarrow> bool" where
  "valid_offer_input q \<longleftrightarrow> nonblank_str (oi_reason q) \<and> \<not> (oi_action q = Action_defer \<and> oi_evidence q = None) \<and>
     (case oi_evidence q of None \<Rightarrow> True | Some e \<Rightarrow> valid_quote e)"

record offer_update =
  ou_status :: update_status
  ou_offer :: "generation_offer option"
  ou_reason :: "reason option"

definition rejected_offer :: "generation_state \<Rightarrow> reason \<Rightarrow> offer_update" where
  "rejected_offer g why = \<lparr>ou_status = Update_rejected, ou_offer = gs_offer g, ou_reason = Some why\<rparr>"

text \<open>\<open>update_generation_offer\<close>; \<open>uuid\<close> is the identifier of a new offer.\<close>

definition update_generation_offer ::
  "pystr \<Rightarrow> draft \<Rightarrow> generation_state \<Rightarrow> offer_input \<Rightarrow> plan_message \<Rightarrow> offer_update" where
  "update_generation_offer uuid dr g q m =
     (let offer = \<lparr>go_id = uuid, go_status = (if oi_action q = Action_defer then Offer_deferred else Offer_pending),
                   go_summary = oi_reason q, go_basis_draft = dr\<rparr>;
          applied = \<lparr>ou_status = Update_applied, ou_offer = Some offer, ou_reason = None\<rparr>
      in if oi_action q = Action_defer
         then (if \<not> valid_evidence (the (oi_evidence q)) m then rejected_offer g Why_Defer_Evidence else applied)
         else if generation_blocks dr g False \<noteq> [] then rejected_offer g Why_Blocked
         else (case gs_offer g of
                 Some o' \<Rightarrow>
                   if same_basis (go_basis_draft o') dr
                   then (if go_status o' = Offer_deferred then rejected_offer g Why_Deferred
                         else \<lparr>ou_status = Update_unchanged, ou_offer = gs_offer g, ou_reason = None\<rparr>)
                   else (case gs_preview g of
                           Some p \<Rightarrow> if same_basis (pv_basis_draft p) dr then rejected_offer g Why_Already_Generated else applied
                         | None \<Rightarrow> applied)
               | None \<Rightarrow>
                   (case gs_preview g of
                      Some p \<Rightarrow> if same_basis (pv_basis_draft p) dr then rejected_offer g Why_Already_Generated else applied
                    | None \<Rightarrow> applied)))"

section \<open>Changes that were refused\<close>

text \<open>The condition fields a raw argument names.\<close>

definition field_of_name :: "pystr \<Rightarrow> condition_field option" where
  "field_of_name s = find (\<lambda>f. lit (field_name f) = s) condition_fields"

fun json_get :: "string \<Rightarrow> json \<Rightarrow> json option" where
  "json_get k (JObj kvs) = map_of kvs k"
| "json_get k _ = None"

fun named_field :: "json \<Rightarrow> condition_field option" where
  "named_field (JObj kvs) =
     (case (case map_of kvs ''change'' of Some (JObj vs) \<Rightarrow> map_of vs ''field'' | _ \<Rightarrow> map_of kvs ''field'') of
        Some (JStr s) \<Rightarrow> field_of_name s
      | _ \<Rightarrow> None)"
| "named_field _ = None"

definition raw_fields :: "dict \<Rightarrow> condition_field list" where
  "raw_fields args = (case map_of args ''changes'' of Some (JList xs) \<Rightarrow> List.map_filter named_field xs | _ \<Rightarrow> [])"

definition sorted_fields :: "condition_field list \<Rightarrow> condition_field list" where
  "sorted_fields fs = sort_key field_name (remdups fs)"

text \<open>\<open>condition_generation_state\<close>\<close>

definition condition_generation_state :: "generation_state \<Rightarrow> condition_update \<Rightarrow> dict \<Rightarrow> generation_state" where
  "condition_generation_state g r args =
     (let fields = raw_fields args;
          pending = (if cu_status r = Update_rejected then gs_pending_fields g @ fields
                     else filter (\<lambda>f. f \<notin> set fields) (gs_pending_fields g));
          blocked = (if cu_status r = Update_rejected then True
                     else pending \<noteq> [] \<or> gs_change_pending g \<and> gs_pending_fields g = [])
      in \<lparr>gs_offer = gs_offer g, gs_preview = gs_preview g, gs_change_pending = blocked,
          gs_pending_fields = sorted_fields pending\<rparr>)"

section \<open>What a change does\<close>

lemma find_field_None: "f \<notin> changed_field ` set cs \<Longrightarrow> find (\<lambda>ch. changed_field ch = f) cs = None"
  by (metis (mono_tags, lifting) find_None_iff image_eqI)

lemma fold_apply_value:
  assumes "distinct (map changed_field cs)"
  shows "condition_of (fold apply_value cs c) f =
    (case find (\<lambda>ch. changed_field ch = f) cs of
       None \<Rightarrow> condition_of c f
     | Some (SetCondition v _ _) \<Rightarrow> Some v
     | Some (ClearCondition _ _) \<Rightarrow> None)"
  using assms
proof (induction cs arbitrary: c)
  case (Cons ch cs)
  have "find (\<lambda>ch. changed_field ch = f) cs = None" if "changed_field ch = f"
    using Cons.prems that by (auto intro: find_field_None)
  then show ?case using Cons by (cases ch) (auto split: option.split)
qed simp

lemma fold_apply_meta:
  assumes "distinct (map changed_field cs)"
  shows "fold apply_meta cs m f =
    (case find (\<lambda>ch. changed_field ch = f) cs of
       None \<Rightarrow> m f
     | Some (SetCondition _ st e) \<Rightarrow> Some \<lparr>cm_status = st, cm_evidence = e\<rparr>
     | Some (ClearCondition _ _) \<Rightarrow> None)"
  using assms
proof (induction cs arbitrary: m)
  case (Cons ch cs)
  have "find (\<lambda>ch. changed_field ch = f) cs = None" if "changed_field ch = f"
    using Cons.prems that by (auto intro: find_field_None)
  then show ?case using Cons by (cases ch) (auto split: option.split)
qed simp

definition change_of :: "conditions_input \<Rightarrow> condition_field \<Rightarrow> condition_change option" where
  "change_of q f = find (\<lambda>ch. changed_field ch = f) (ci_changes q)"

lemma change_of_SomeD: "change_of q f = Some ch \<Longrightarrow> ch \<in> set (ci_changes q) \<and> changed_field ch = f"
  by (auto simp: change_of_def find_Some_iff)

lemma change_of_None: "change_of q f = None \<longleftrightarrow> f \<notin> changed_field ` set (ci_changes q)"
  by (auto simp: change_of_def find_None_iff)

lemma updated_conditions:
  assumes "refused_update m q = None"
  shows "condition_of (dr_conditions (updated_draft q dr)) f =
    (case change_of q f of
       None \<Rightarrow> condition_of (dr_conditions dr) f
     | Some (SetCondition v _ _) \<Rightarrow> Some v
     | Some (ClearCondition _ _) \<Rightarrow> None)"
  using assms by (simp add: updated_draft_def fold_apply_value change_of_def refused_update_def split: if_splits)

lemma updated_meta:
  assumes "refused_update m q = None"
  shows "dr_condition_meta (updated_draft q dr) f =
    (case change_of q f of
       None \<Rightarrow> dr_condition_meta dr f
     | Some (SetCondition _ st e) \<Rightarrow> Some \<lparr>cm_status = st, cm_evidence = e\<rparr>
     | Some (ClearCondition _ _) \<Rightarrow> None)"
  using assms by (simp add: updated_draft_def fold_apply_meta change_of_def refused_update_def split: if_splits)

lemma updated_topics:
  "set (dr_deferred_topics (updated_draft q dr)) =
     (set (dr_deferred_topics dr) - set (set_topics q) - set (resumed_of q)) \<union> set (deferred_of q)"
  "distinct (dr_deferred_topics (updated_draft q dr))"
  by (auto simp: updated_draft_def new_topics_def)

text \<open>A change never raises: the draft it makes validates whenever the one it starts from does.\<close>

lemma updated_consistent:
  assumes "refused_update m q = None" and "consistent_draft dr"
  shows "consistent_draft (updated_draft q dr)"
  using assms(2) unfolding consistent_draft_iff updated_conditions [OF assms(1)] updated_meta [OF assms(1)]
  by (auto simp: updated_topics split: option.splits condition_change.splits)

lemma updated_valid:
  assumes "refused_update m q = None" and "valid_draft dr" and "valid_input q"
    and "valid_conditions (dr_conditions (updated_draft q dr))"
  shows "valid_draft (updated_draft q dr)"
proof -
  have "valid_quote (cm_evidence x)" if "dr_condition_meta (updated_draft q dr) f = Some x" for f x
    using that assms(2,3) unfolding updated_meta [OF assms(1)] valid_draft_iff valid_input_def
    by (auto simp: list_all_iff dest!: change_of_SomeD split: option.splits condition_change.splits)
  then show ?thesis using assms updated_consistent by (auto simp: valid_draft_iff)
qed

lemma update_cases:
  assumes "consistent_draft dr"
  obtains why where "update_event_conditions dr q m = Inr (rejected_update dr why)"
  | r where "update_event_conditions dr q m = Inr r" and "refused_update m q = None"
      and "valid_conditions (dr_conditions (updated_draft q dr))" and "cu_reason r = None"
      and "cu_status r = (if unchanged_draft dr (updated_draft q dr) then Update_unchanged else Update_applied)"
      and "cu_draft r = (if unchanged_draft dr (updated_draft q dr) then dr else updated_draft q dr)"
proof (cases "refused_update m q")
  case None
  have c: "consistent_draft (updated_draft q dr)" by (rule updated_consistent [OF None assms])
  show thesis
  proof (cases "valid_conditions (dr_conditions (updated_draft q dr))")
    case True
    obtain r where "update_event_conditions dr q m = Inr r"
      "cu_status r = (if unchanged_draft dr (updated_draft q dr) then Update_unchanged else Update_applied)"
      "cu_draft r = (if unchanged_draft dr (updated_draft q dr) then dr else updated_draft q dr)" "cu_reason r = None"
      using None True c by (simp add: update_event_conditions_def Let_def)
    then show thesis using that(2) None True by simp
  next
    case False
    then show thesis using that(1) [of Why_Dates] None by (simp add: update_event_conditions_def)
  qed
next
  case (Some why)
  then show thesis using that(1) [of why] by (simp add: update_event_conditions_def)
qed

lemma update_total:
  assumes "valid_draft dr" and "valid_input q"
  shows "\<exists>r. update_event_conditions dr q m = Inr r \<and> valid_draft (cu_draft r)"
proof -
  have "consistent_draft dr" using assms(1) by (simp add: valid_draft_def)
  then show ?thesis
  proof (cases rule: update_cases [where q = q and m = m])
    case (1 why)
    then show ?thesis using assms(1) by (simp add: rejected_update_def)
  next
    case (2 r)
    then show ?thesis using assms updated_valid [OF 2(2)] by simp
  qed
qed

text \<open>Sending the same request again changes nothing.\<close>

lemma updated_twice:
  assumes "refused_update m q = None"
  shows "unchanged_draft (updated_draft q dr) (updated_draft q (updated_draft q dr))"
proof -
  let ?d = "updated_draft q dr"
  have "dr_conditions (updated_draft q ?d) = dr_conditions ?d"
    by (rule conditions_eqI) (simp add: updated_conditions [OF assms] split: option.split condition_change.split)
  moreover have "dr_condition_meta (updated_draft q ?d) = dr_condition_meta ?d"
    by (rule ext) (simp add: updated_meta [OF assms] split: option.split condition_change.split)
  moreover have "set (deferred_of q) \<inter> (set (resumed_of q) \<union> set (set_topics q)) = {}"
    using assms by (auto simp: refused_update_def split: if_splits)
  then have "set (dr_deferred_topics (updated_draft q ?d)) = set (dr_deferred_topics ?d)"
    by (auto simp: updated_topics)
  ultimately show ?thesis by (simp add: unchanged_draft_def)
qed

lemma update_again:
  assumes "consistent_draft dr" and "update_event_conditions dr q m = Inr r" and "cu_status r \<noteq> Update_rejected"
  shows "\<exists>r'. update_event_conditions (cu_draft r) q m = Inr r' \<and> cu_status r' = Update_unchanged \<and> cu_draft r' = cu_draft r"
  using assms(1)
proof (cases rule: update_cases [where q = q and m = m])
  case (1 why)
  then show ?thesis using assms(2,3) by (simp add: rejected_update_def)
next
  case (2 r')
  then have r: "r' = r" using assms(2) by simp
  let ?d = "cu_draft r"
  have same: "unchanged_draft ?d (updated_draft q ?d)" using 2 r updated_twice [OF 2(2)] by auto
  then have "dr_conditions (updated_draft q ?d) = dr_conditions ?d" by (simp add: unchanged_draft_def)
  moreover have "valid_conditions (dr_conditions ?d)"
    using 2 r by (auto simp: unchanged_draft_def split: if_splits)
  moreover have "consistent_draft ?d" using 2 r assms(1) updated_consistent [OF 2(2) assms(1)] by simp
  ultimately show ?thesis
    using 2(2) same updated_consistent [OF 2(2)] by (simp add: update_event_conditions_def Let_def)
qed

text \<open>Only the fields and topics a request names can change.\<close>

lemma update_confined:
  assumes "consistent_draft dr" and "update_event_conditions dr q m = Inr r"
  shows "f \<notin> changed_field ` set (ci_changes q) \<Longrightarrow>
      condition_of (dr_conditions (cu_draft r)) f = condition_of (dr_conditions dr) f \<and>
      dr_condition_meta (cu_draft r) f = dr_condition_meta dr f"
    and "t \<notin> set (set_topics q) \<union> set (resumed_of q) \<union> set (deferred_of q) \<Longrightarrow>
      t \<in> set (dr_deferred_topics (cu_draft r)) \<longleftrightarrow> t \<in> set (dr_deferred_topics dr)"
proof -
  have "(f \<notin> changed_field ` set (ci_changes q) \<longrightarrow>
      condition_of (dr_conditions (cu_draft r)) f = condition_of (dr_conditions dr) f \<and>
      dr_condition_meta (cu_draft r) f = dr_condition_meta dr f) \<and>
    (t \<notin> set (set_topics q) \<union> set (resumed_of q) \<union> set (deferred_of q) \<longrightarrow>
      (t \<in> set (dr_deferred_topics (cu_draft r)) \<longleftrightarrow> t \<in> set (dr_deferred_topics dr)))"
    using assms(1)
  proof (cases rule: update_cases [where q = q and m = m])
    case (1 why)
    then show ?thesis using assms(2) by (auto simp: rejected_update_def)
  next
    case (2 r')
    then show ?thesis
      using assms(2) by (auto simp: updated_conditions [OF 2(2)] updated_meta [OF 2(2)] updated_topics
          simp flip: change_of_None)
  qed
  then show "f \<notin> changed_field ` set (ci_changes q) \<Longrightarrow>
      condition_of (dr_conditions (cu_draft r)) f = condition_of (dr_conditions dr) f \<and>
      dr_condition_meta (cu_draft r) f = dr_condition_meta dr f"
    "t \<notin> set (set_topics q) \<union> set (resumed_of q) \<union> set (deferred_of q) \<Longrightarrow>
      t \<in> set (dr_deferred_topics (cu_draft r)) \<longleftrightarrow> t \<in> set (dr_deferred_topics dr)"
    by blast+
qed

text \<open>A draft changes only on what the user said in the message at hand.\<close>

lemma update_needs_evidence:
  assumes "update_event_conditions dr q m = Inr r" and "cu_status r = Update_applied" and "e \<in> set (request_evidence q)"
  shows "valid_evidence e m"
proof -
  have "refused_update m q = None"
    using assms(1,2) by (auto simp: update_event_conditions_def rejected_update_def split: option.splits)
  then show ?thesis using assms(3) by (auto simp: refused_update_def valid_evidence_def list_all_iff split: if_splits)
qed

section \<open>Bases of plans\<close>

lemma same_basis_refl [simp]: "same_basis dr dr"
  by (simp add: same_basis_def)

lemma same_basis_sym: "same_basis a b \<Longrightarrow> same_basis b a"
  by (simp add: same_basis_def)

lemma same_basis_trans: "same_basis a b \<Longrightarrow> same_basis b c \<Longrightarrow> same_basis a c"
  by (simp add: same_basis_def)

text \<open>Drafts with the same basis are equally ready.\<close>

lemma same_basis_blocks: "same_basis a b \<Longrightarrow> generation_blocks a g u = generation_blocks b g u"
  by (simp add: same_basis_def generation_blocks_def)

lemma readiness_consistent:
  "consistent_readiness \<lparr>rd_can_generate = (generation_blocks dr g u = []), rd_reasons = generation_blocks dr g u\<rparr>"
  by (auto simp: consistent_readiness_def generation_blocks_def required_topics_def List.map_filter_def)

text \<open>An offer is not made again for the basis it was deferred for.\<close>

lemma deferred_offer_kept:
  assumes "gs_offer g = Some o'" and "go_status o' = Offer_deferred" and "same_basis (go_basis_draft o') dr"
    and "oi_action q = Action_offer"
  shows "ou_status (update_generation_offer uuid dr g q m) = Update_rejected \<and>
         ou_offer (update_generation_offer uuid dr g q m) = Some o'"
  using assms by (auto simp: update_generation_offer_def rejected_offer_def Let_def)

lemma set_sorted_fields [simp]: "set (sorted_fields fs) = set fs"
  by (simp add: sorted_fields_def)

lemma sorted_fields_Nil [simp]: "sorted_fields fs = [] \<longleftrightarrow> fs = []"
  by (metis set_sorted_fields set_empty)

lemma condition_state_consistent: "consistent_generation_state (condition_generation_state g r args)"
  by (auto simp: consistent_generation_state_def condition_generation_state_def Let_def)

end
