(* ===== verification/Plan_Generation.thy ===== *)
theory Plan_Generation
  imports Plan_Conditions "HOL-Library.Multiset"
begin

text \<open>
  Generating a plan: \<open>app/ai/features/planning/generation/graph.py\<close> and \<open>entrypoints.py\<close>. The model
  composes a plan, \<open>validate_plan\<close> checks it against the catalogue, the dates and the facts it was given,
  and only a plan that passes becomes the preview of the conversation. The call of the model, the
  identifier of a preview and the calendar of a time zone are parameters.
\<close>

section \<open>Input and output of the model\<close>

record chat_turn =
  ct_role :: message_role
  ct_content :: pystr

record generation_input =
  gi_basis_draft :: draft
  gi_trigger :: trigger
  gi_messages :: "chat_turn list"
  gi_reference_date :: date
  gi_timezone :: pystr
  gi_reference_facts :: "record_fact list"

record model_assumption =
  ma_content :: pystr
  ma_fact_ids :: "pystr list"

text \<open>\<open>PlanComposition\<close>\<close>

record composition =
  co_steps :: "plan_step list"
  co_excluded_steps :: "excluded_plan_step list"
  co_assumptions :: "model_assumption list"
  co_open_questions :: "pystr list"
  co_warnings :: "pystr list"

definition valid_composition :: "composition \<Rightarrow> bool" where
  "valid_composition co \<longleftrightarrow>
     1 \<le> length (co_steps co) \<and> length (co_steps co) \<le> 13 \<and>
     list_all (\<lambda>s. ps_code s \<in> set planning_codes \<and> nonblank_str (ps_purpose s) \<and>
                   list_all (\<lambda>a. nonblank_str (pa_title a)) (ps_plan_actions s)) (co_steps co) \<and>
     list_all (\<lambda>x. xp_code x \<in> set planning_codes \<and> nonblank_str (xp_reason x)) (co_excluded_steps co) \<and>
     list_all (\<lambda>a. nonblank_str (ma_content a) \<and> list_all nonblank_str (ma_fact_ids a)) (co_assumptions co) \<and>
     list_all nonblank_str (co_open_questions co) \<and> list_all nonblank_str (co_warnings co)"

section \<open>Validation\<close>

datatype plan_rule = Rule_catalog_partition | Rule_phase_order | Rule_reversed_period | Rule_dates_when_unknown
  | Rule_action_type | Rule_action_due_outside_step | Rule_before_event_after_start | Rule_event_start_mismatch
  | Rule_event_end_mismatch | Rule_after_event_before_end | Rule_unknown_fact_id

definition step_codes :: "composition \<Rightarrow> step_code list" where
  "step_codes co = map ps_code (co_steps co)"

definition excluded_codes :: "composition \<Rightarrow> step_code list" where
  "excluded_codes co = map xp_code (co_excluded_steps co)"

definition partitions_catalog :: "step_code list \<Rightarrow> step_code list \<Rightarrow> bool" where
  "partitions_catalog codes excluded \<longleftrightarrow>
     distinct codes \<and> distinct excluded \<and> set codes \<inter> set excluded = {} \<and> set codes \<union> set excluded = set (map cat_code CATALOG)"

text \<open>\<open>PHASE_ORDER.index(BY_CODE[code].phase)\<close>\<close>

definition phase_index :: "step_code \<Rightarrow> nat" where
  "phase_index c = the (phase_rank (cat_phase (the (BY_CODE c))))"

text \<open>Comparisons of a local date that may be missing.\<close>

definition later :: "date option \<Rightarrow> date \<Rightarrow> bool" where
  "later x y = (case x of None \<Rightarrow> False | Some v \<Rightarrow> y < v)"

definition earlier :: "date option \<Rightarrow> date \<Rightarrow> bool" where
  "earlier x y = (case x of None \<Rightarrow> False | Some v \<Rightarrow> v < y)"

definition due_outside :: "date option \<Rightarrow> date option \<Rightarrow> plan_action \<Rightarrow> bool" where
  "due_outside first' last' a =
     (case pa_due_date a of None \<Rightarrow> False | Some t \<Rightarrow> later first' t \<or> earlier last' t)"

definition after_event_codes :: "step_code list" where
  "after_event_codes = [SETTLE_EXPENSES, REFUND_FEES, RECORD_FEEDBACK]"

text \<open>The rules about the day of the event, and the first rule a step breaks.\<close>

definition event_violation :: "conditions \<Rightarrow> catalog_step \<Rightarrow> step_code \<Rightarrow> date option \<Rightarrow> date option \<Rightarrow> date \<Rightarrow> plan_rule option" where
  "event_violation c cat code first' last' event_start =
     (if (cat_phase cat \<in> set (take 2 PHASE_ORDER) \<or> code = PRE_EVENT_NOTICE) \<and>
         (later first' event_start \<or> later last' event_start) then Some Rule_before_event_after_start
      else if code = EVENT_DAY \<and> first' \<noteq> None \<and> first' \<noteq> Some event_start then Some Rule_event_start_mismatch
      else if code = EVENT_DAY \<and> last' \<noteq> None \<and> last' \<noteq> pc_end_date c then Some Rule_event_end_mismatch
      else (case pc_end_date c of
              None \<Rightarrow> None
            | Some event_end \<Rightarrow>
                if code \<in> set after_event_codes \<and> (earlier first' event_end \<or> earlier last' event_end)
                then Some Rule_after_event_before_end else None))"

definition step_violation :: "(instant \<Rightarrow> date) \<Rightarrow> conditions \<Rightarrow> catalog_step \<Rightarrow> plan_step \<Rightarrow> plan_rule option" where
  "step_violation local c cat s =
     (let first' = map_option local (ps_starts_at s); last' = map_option local (ps_deadline s) in
      if (case (ps_starts_at s, ps_deadline s) of (Some a, Some b) \<Rightarrow> b < a | _ \<Rightarrow> False) then Some Rule_reversed_period
      else if pc_start_date c = None \<and> (first' \<noteq> None \<or> last' \<noteq> None \<or> list_ex (\<lambda>a. pa_due_date a \<noteq> None) (ps_plan_actions s))
      then Some Rule_dates_when_unknown
      else if list_ex (\<lambda>a. pa_type a \<notin> set (cat_actions cat)) (ps_plan_actions s) then Some Rule_action_type
      else if list_ex (due_outside first' last') (ps_plan_actions s) then Some Rule_action_due_outside_step
      else (case pc_start_date c of
              None \<Rightarrow> None
            | Some event_start \<Rightarrow> event_violation c cat (ps_code s) first' last' event_start))"

definition catalogued :: "plan_step \<Rightarrow> catalog_step \<Rightarrow> preview_step" where
  "catalogued s cat =
     \<lparr>ps_code = ps_code s, ps_purpose = ps_purpose s, ps_starts_at = ps_starts_at s, ps_deadline = ps_deadline s,
      ps_plan_actions = ps_plan_actions s, ps_name = cat_name cat, ps_phase = cat_phase cat, ps_actor = cat_actor cat\<rparr>"

fun check_steps :: "(instant \<Rightarrow> date) \<Rightarrow> conditions \<Rightarrow> plan_step list \<Rightarrow> plan_rule + preview_step list" where
  "check_steps local c [] = Inr []"
| "check_steps local c (s # ss) =
     (let cat = the (BY_CODE (ps_code s)) in
      case step_violation local c cat s of
        Some rule \<Rightarrow> Inl rule
      | None \<Rightarrow> and_then (check_steps local c ss) (\<lambda>ps. Inr (catalogued s cat # ps)))"

text \<open>\<open>facts = {f"f{i}": fact for i, fact in enumerate(facts, 1)}\<close>\<close>

definition numbered_facts :: "record_fact list \<Rightarrow> (pystr \<times> record_fact) list" where
  "numbered_facts fs = map (\<lambda>(i, f). (lit ''f'' @ int_text (int i), f)) (enumerate 1 fs)"

definition add_source :: "record_source \<Rightarrow> record_source list \<Rightarrow> record_source list" where
  "add_source s acc = (if s \<in> set acc then acc else acc @ [s])"

definition sourced :: "(pystr \<times> record_fact) list \<Rightarrow> model_assumption \<Rightarrow> plan_assumption" where
  "sourced facts a =
     \<lparr>as_content = ma_content a,
      as_sources = fold add_source (concat (map (\<lambda>i. case map_of facts i of None \<Rightarrow> [] | Some f \<Rightarrow> rf_sources f) (ma_fact_ids a))) []\<rparr>"

definition known_facts :: "(pystr \<times> record_fact) list \<Rightarrow> model_assumption \<Rightarrow> bool" where
  "known_facts facts a \<longleftrightarrow> list_all (\<lambda>i. i \<in> fst ` set facts) (ma_fact_ids a)"

text \<open>The question \<open>event date\<close> that a plan without a date leaves open.\<close>

definition EVENT_DATE :: pystr where
  "EVENT_DATE = [54665, 49324, 32, 45216, 51676]"

definition questions_of :: "generation_input \<Rightarrow> composition \<Rightarrow> pystr list" where
  "questions_of r co =
     (if pc_start_date (dr_conditions (gi_basis_draft r)) = None \<and> EVENT_DATE \<notin> set (co_open_questions co)
      then co_open_questions co @ [EVENT_DATE] else co_open_questions co)"

definition named_exclusion :: "excluded_plan_step \<Rightarrow> excluded_preview_step" where
  "named_exclusion x = \<lparr>xp_code = xp_code x, xp_reason = xp_reason x, xp_name = cat_name (the (BY_CODE (xp_code x)))\<rparr>"

text \<open>\<open>validate_plan\<close>\<close>

definition validate_plan ::
  "pystr \<Rightarrow> (pystr \<Rightarrow> instant \<Rightarrow> date) \<Rightarrow> generation_input \<Rightarrow> composition \<Rightarrow> plan_rule + plan_preview" where
  "validate_plan uuid zone r co =
     (let phases = map phase_index (step_codes co); facts = numbered_facts (gi_reference_facts r) in
      if \<not> partitions_catalog (step_codes co) (excluded_codes co) then Inl Rule_catalog_partition
      else if phases \<noteq> sort phases then Inl Rule_phase_order
      else and_then (check_steps (zone (gi_timezone r)) (dr_conditions (gi_basis_draft r)) (co_steps co)) (\<lambda>steps.
           if \<not> list_all (known_facts facts) (co_assumptions co) then Inl Rule_unknown_fact_id
           else Inr \<lparr>pv_id = uuid, pv_basis_draft = gi_basis_draft r, pv_trigger = gi_trigger r, pv_steps = steps,
                     pv_excluded_steps = map named_exclusion (co_excluded_steps co),
                     pv_assumptions = map (sourced facts) (co_assumptions co),
                     pv_open_questions = questions_of r co, pv_warnings = co_warnings co\<rparr>))"

section \<open>Running a generation\<close>

definition needs_clarification :: "reason \<Rightarrow> generation_result" where
  "needs_clarification why = \<lparr>gr_status = Gen_needs_clarification, gr_preview = None, gr_reason = Some why, gr_model_calls = 0\<rparr>"

definition failed_generation :: "reason \<Rightarrow> int \<Rightarrow> generation_result" where
  "failed_generation why calls = \<lparr>gr_status = Gen_failed, gr_preview = None, gr_reason = Some why, gr_model_calls = calls\<rparr>"

definition generated :: "plan_preview \<Rightarrow> int \<Rightarrow> generation_result" where
  "generated p calls = \<lparr>gr_status = Gen_generated, gr_preview = Some p, gr_reason = None, gr_model_calls = calls\<rparr>"

text \<open>\<open>compose_plan\<close>: an answer that does not validate counts as an invalid response.\<close>

definition compose_plan :: "(generation_input \<Rightarrow> ai_exn + composition) \<Rightarrow> generation_input \<Rightarrow> ai_exn + composition" where
  "compose_plan invoke r =
     and_then (invoke r) (\<lambda>co. if valid_composition co then Inr co else Inl AIInvalidResponseError)"

definition generation_failure :: "bool \<Rightarrow> ai_exn \<Rightarrow> reason" where
  "generation_failure validating e =
     (if e = AIOutputLimitError then Why_Output_Limit
      else if e = AITimeoutError then Why_Timeout
      else if is_invalid_response e then (if validating then Why_Invalid_Plan else Why_Invalid_Output)
      else Why_Unavailable)"

text \<open>\<open>run_plan_generation\<close>; an exception that is not retryable passes through.\<close>

definition run_plan_generation ::
  "pystr \<Rightarrow> (pystr \<Rightarrow> instant \<Rightarrow> date) \<Rightarrow> (generation_input \<Rightarrow> ai_exn + composition) \<Rightarrow> generation_input
     \<Rightarrow> ai_exn + generation_result" where
  "run_plan_generation uuid zone invoke r =
     (if pc_event_type (dr_conditions (gi_basis_draft r)) = None then Inr (needs_clarification Why_Event_Type)
      else (case compose_plan invoke r of
              Inl e \<Rightarrow> if is_retryable e then Inr (failed_generation (generation_failure False e) 1) else Inl e
            | Inr co \<Rightarrow>
                (case validate_plan uuid zone r co of
                   Inl rule \<Rightarrow> Inr (failed_generation (generation_failure True AIInvalidResponseError) 1)
                 | Inr p \<Rightarrow> Inr (generated p 1))))"

text \<open>\<open>generate_with_context\<close>, shared by the chat and the button.\<close>

definition generate_with_context ::
  "(generation_input \<Rightarrow> ai_exn + generation_result) \<Rightarrow> generation_input \<Rightarrow> generation_state \<Rightarrow> bool
     \<Rightarrow> ai_exn + (generation_state \<times> generation_result)" where
  "generate_with_context gen r g use_current =
     (case generation_blocks (gi_basis_draft r) g use_current of
        b # bs \<Rightarrow> Inr (g, needs_clarification (block_message b))
      | [] \<Rightarrow>
          let ask = and_then (gen r) (\<lambda>res.
                (case (gr_status res, gr_preview res) of
                   (Gen_generated, Some p) \<Rightarrow>
                     if pv_basis_draft p \<noteq> gi_basis_draft r \<or> pv_trigger p \<noteq> gi_trigger r
                     then Inr (g, failed_generation Why_Other_Basis (gr_model_calls res))
                     else Inr (no_generation\<lparr>gs_preview := Some p\<rparr>, res)
                 | _ \<Rightarrow> Inr (g, res)))
          in (case gs_preview g of
                None \<Rightarrow> ask
              | Some p \<Rightarrow>
                  if is_chat (pv_trigger p) = is_chat (gi_trigger r) \<and> trigger_request (pv_trigger p) = trigger_request (gi_trigger r)
                  then (if \<not> same_basis (pv_basis_draft p) (gi_basis_draft r)
                        then Inr (g, needs_clarification Why_Request_Reused)
                        else Inr (no_generation\<lparr>gs_preview := Some p\<rparr>, generated p 0))
                  else ask))"

record button_request =
  br_request_id :: pystr
  br_draft :: draft
  br_generation :: generation_state
  br_messages :: "chat_turn list"
  br_reference_date :: date
  br_timezone :: pystr
  br_reference_facts :: "record_fact list"
  br_use_current_conditions :: bool

text \<open>\<open>run_button_plan_generation\<close>\<close>

definition run_button_plan_generation ::
  "(generation_input \<Rightarrow> ai_exn + generation_result) \<Rightarrow> button_request \<Rightarrow> ai_exn + (generation_state \<times> generation_result)" where
  "run_button_plan_generation gen b =
     generate_with_context gen
       \<lparr>gi_basis_draft = br_draft b, gi_trigger = Button_Trigger (br_request_id b), gi_messages = br_messages b,
        gi_reference_date = br_reference_date b, gi_timezone = br_timezone b, gi_reference_facts = br_reference_facts b\<rparr>
       (br_generation b) (br_use_current_conditions b)"

section \<open>What a validated plan looks like\<close>

lemma catalog_codes: "map cat_code CATALOG = planning_codes"
  by (simp add: CATALOG_def catalog_entry_def planning_codes_def)

lemma partitions_catalog_iff:
  "partitions_catalog codes excluded \<longleftrightarrow> mset codes + mset excluded = mset planning_codes"
proof -
  have "mset codes + mset excluded = mset planning_codes \<longleftrightarrow> mset (codes @ excluded) = mset planning_codes" by simp
  also have "\<dots> \<longleftrightarrow> distinct (codes @ excluded) \<and> set (codes @ excluded) = set planning_codes"
    using planning_codes_distinct by (metis mset_eq_imp_distinct_iff mset_eq_setD set_eq_iff_mset_eq_distinct)
  finally show ?thesis by (auto simp: partitions_catalog_def catalog_codes)
qed

lemma check_steps_Inr:
  assumes "check_steps local c ss = Inr ps"
  shows "list_all (\<lambda>s. step_violation local c (the (BY_CODE (ps_code s))) s = None) ss"
    and "ps = map (\<lambda>s. catalogued s (the (BY_CODE (ps_code s)))) ss"
  using assms by (induction ss arbitrary: ps) (auto simp: Let_def and_then_eq_Inr split: option.splits)

lemma check_steps_total:
  "list_all (\<lambda>s. step_violation local c (the (BY_CODE (ps_code s))) s = None) ss \<Longrightarrow>
   check_steps local c ss = Inr (map (\<lambda>s. catalogued s (the (BY_CODE (ps_code s)))) ss)"
  by (induction ss) (simp_all add: Let_def and_then_def)

text \<open>The rules of a step, as what they promise.\<close>

definition step_days :: "(instant \<Rightarrow> date) \<Rightarrow> plan_step \<Rightarrow> date set" where
  "step_days local s = local ` (set_option (ps_starts_at s) \<union> set_option (ps_deadline s))"

definition action_fits :: "(instant \<Rightarrow> date) \<Rightarrow> catalog_step \<Rightarrow> plan_step \<Rightarrow> plan_action \<Rightarrow> bool" where
  "action_fits local cat s a \<longleftrightarrow> pa_type a \<in> set (cat_actions cat) \<and>
     (\<forall>t. pa_due_date a = Some t \<longrightarrow>
        (\<forall>x. ps_starts_at s = Some x \<longrightarrow> local x \<le> t) \<and> (\<forall>y. ps_deadline s = Some y \<longrightarrow> t \<le> local y))"

definition event_fits :: "(instant \<Rightarrow> date) \<Rightarrow> conditions \<Rightarrow> catalog_step \<Rightarrow> plan_step \<Rightarrow> date \<Rightarrow> bool" where
  "event_fits local c cat s x \<longleftrightarrow>
     (cat_phase cat \<noteq> EXECUTION \<or> ps_code s = PRE_EVENT_NOTICE \<longrightarrow> (\<forall>d \<in> step_days local s. d \<le> x)) \<and>
     (ps_code s = EVENT_DAY \<longrightarrow>
        (\<forall>a. ps_starts_at s = Some a \<longrightarrow> local a = x) \<and> (\<forall>b. ps_deadline s = Some b \<longrightarrow> pc_end_date c = Some (local b))) \<and>
     (\<forall>y. pc_end_date c = Some y \<and> ps_code s \<in> set after_event_codes \<longrightarrow> (\<forall>d \<in> step_days local s. y \<le> d))"

definition step_fits :: "(instant \<Rightarrow> date) \<Rightarrow> conditions \<Rightarrow> plan_step \<Rightarrow> bool" where
  "step_fits local c s \<longleftrightarrow>
     (let cat = the (BY_CODE (ps_code s)) in
      (\<forall>a b. ps_starts_at s = Some a \<and> ps_deadline s = Some b \<longrightarrow> a \<le> b) \<and>
      (\<forall>a \<in> set (ps_plan_actions s). action_fits local cat s a) \<and>
      (pc_start_date c = None \<longrightarrow> step_days local s = {} \<and> (\<forall>a \<in> set (ps_plan_actions s). pa_due_date a = None)) \<and>
      (\<forall>x. pc_start_date c = Some x \<longrightarrow> event_fits local c cat s x))"

lemma catalog_phase: "BY_CODE c = Some cat \<Longrightarrow> cat_phase cat \<in> set (take 2 PHASE_ORDER) \<longleftrightarrow> cat_phase cat \<noteq> EXECUTION"
  by (cases c) (auto simp: BY_CODE_def CATALOG_def catalog_entry_def PHASE_ORDER_def)

lemma catalog_name: "BY_CODE c = Some cat \<Longrightarrow> PLANNING_STEP_NAMES c = Some (cat_name cat)"
  by (cases c) (auto simp: BY_CODE_def CATALOG_def catalog_entry_def)

lemma catalogued_code: "c \<in> set planning_codes \<Longrightarrow> BY_CODE c = Some (the (BY_CODE c))"
  using BY_CODE_catalogued [of c] by auto

lemma step_days_cases:
  "(\<forall>d \<in> step_days local s. d \<le> x) \<longleftrightarrow>
     \<not> later (map_option local (ps_starts_at s)) x \<and> \<not> later (map_option local (ps_deadline s)) x"
  "(\<forall>d \<in> step_days local s. x \<le> d) \<longleftrightarrow>
     \<not> earlier (map_option local (ps_starts_at s)) x \<and> \<not> earlier (map_option local (ps_deadline s)) x"
  "step_days local s = {} \<longleftrightarrow> ps_starts_at s = None \<and> ps_deadline s = None"
  by (auto simp: step_days_def later_def earlier_def not_less ball_Un split: option.splits)

lemma action_fits_iff:
  "action_fits local cat s a \<longleftrightarrow> pa_type a \<in> set (cat_actions cat) \<and>
     \<not> due_outside (map_option local (ps_starts_at s)) (map_option local (ps_deadline s)) a"
  by (auto simp: action_fits_def due_outside_def later_def earlier_def not_less split: option.splits)

lemma event_fits_iff:
  assumes "BY_CODE (ps_code s) = Some cat"
  shows "event_violation c cat (ps_code s) (map_option local (ps_starts_at s)) (map_option local (ps_deadline s)) x = None \<longleftrightarrow>
    event_fits local c cat s x"
proof -
  have a: "(\<forall>a. ps_starts_at s = Some a \<longrightarrow> local a = x) \<longleftrightarrow>
      map_option local (ps_starts_at s) = None \<or> map_option local (ps_starts_at s) = Some x"
    by (cases "ps_starts_at s") simp_all
  have b: "(\<forall>b. ps_deadline s = Some b \<longrightarrow> pc_end_date c = Some (local b)) \<longleftrightarrow>
      map_option local (ps_deadline s) = None \<or> map_option local (ps_deadline s) = pc_end_date c"
    by (cases "ps_deadline s") auto
  show ?thesis
    unfolding event_fits_def event_violation_def step_days_cases catalog_phase [OF assms] a b
    by (auto split: option.split)
qed

lemma step_fits_iff:
  assumes "ps_code s \<in> set planning_codes"
  shows "step_violation local c (the (BY_CODE (ps_code s))) s = None \<longleftrightarrow> step_fits local c s"
proof -
  have order: "(\<forall>a b. ps_starts_at s = Some a \<and> ps_deadline s = Some b \<longrightarrow> a \<le> b) \<longleftrightarrow>
      \<not> (case (ps_starts_at s, ps_deadline s) of (Some a, Some b) \<Rightarrow> b < a | _ \<Rightarrow> False)"
    by (auto split: option.split)
  have acts: "(\<forall>a \<in> set (ps_plan_actions s). action_fits local cat s a) \<longleftrightarrow>
      \<not> list_ex (\<lambda>a. pa_type a \<notin> set (cat_actions cat)) (ps_plan_actions s) \<and>
      \<not> list_ex (due_outside (map_option local (ps_starts_at s)) (map_option local (ps_deadline s))) (ps_plan_actions s)" for cat
    by (auto simp: list_ex_iff action_fits_iff)
  have due: "(\<forall>a \<in> set (ps_plan_actions s). pa_due_date a = None) \<longleftrightarrow> \<not> list_ex (\<lambda>a. pa_due_date a \<noteq> None) (ps_plan_actions s)"
    by (auto simp: list_ex_iff)
  show ?thesis
    unfolding step_violation_def step_fits_def Let_def order acts due step_days_cases
      event_fits_iff [OF catalogued_code [OF assms], symmetric]
    by (cases "pc_start_date c") auto
qed

text \<open>A plan is accepted exactly when it is sound, and the preview is the composition with the catalogue's attributes.\<close>

definition sound_plan :: "(instant \<Rightarrow> date) \<Rightarrow> generation_input \<Rightarrow> composition \<Rightarrow> bool" where
  "sound_plan local r co \<longleftrightarrow>
     mset (step_codes co) + mset (excluded_codes co) = mset planning_codes \<and>
     sorted (map phase_index (step_codes co)) \<and>
     (\<forall>s \<in> set (co_steps co). step_fits local (dr_conditions (gi_basis_draft r)) s) \<and>
     (\<forall>a \<in> set (co_assumptions co). known_facts (numbered_facts (gi_reference_facts r)) a)"

lemma partition_catalogued:
  assumes "mset (step_codes co) + mset (excluded_codes co) = mset planning_codes" and "s \<in> set (co_steps co)"
  shows "ps_code s \<in> set planning_codes"
proof -
  have "ps_code s \<in> set (step_codes co)" using assms(2) by (simp add: step_codes_def)
  then show ?thesis using arg_cong [OF assms(1), of set_mset] by auto
qed

lemma validate_plan_iff: "(\<exists>p. validate_plan uuid zone r co = Inr p) \<longleftrightarrow> sound_plan (zone (gi_timezone r)) r co"
proof -
  let ?c = "dr_conditions (gi_basis_draft r)" and ?l = "zone (gi_timezone r)"
  have srt: "(map phase_index (step_codes co) \<noteq> sort (map phase_index (step_codes co))) \<longleftrightarrow> \<not> sorted (map phase_index (step_codes co))"
    by (metis sorted_sort sort_key_id_if_sorted sorted_sort_id)
  have steps: "(\<exists>ps. check_steps ?l ?c (co_steps co) = Inr ps) \<longleftrightarrow> (\<forall>s \<in> set (co_steps co). step_fits ?l ?c s)"
    if "mset (step_codes co) + mset (excluded_codes co) = mset planning_codes"
    using check_steps_Inr(1) [of ?l ?c "co_steps co"] check_steps_total [of ?l ?c "co_steps co"]
      step_fits_iff [OF partition_catalogued [OF that]] by (auto simp: list_all_iff)
  show ?thesis
    unfolding validate_plan_def sound_plan_def partitions_catalog_iff Let_def srt
    using steps by (auto simp: and_then_eq_Inr list_all_iff)
qed

lemma validate_plan_Inr:
  assumes "validate_plan uuid zone r co = Inr p"
  shows "sound_plan (zone (gi_timezone r)) r co"
    and "pv_steps p = map (\<lambda>s. catalogued s (the (BY_CODE (ps_code s)))) (co_steps co)"
    and "map xp_code (pv_excluded_steps p) = excluded_codes co" and "list_all catalog_named (pv_excluded_steps p)"
    and "pv_basis_draft p = gi_basis_draft r" and "pv_trigger p = gi_trigger r"
proof -
  show sound: "sound_plan (zone (gi_timezone r)) r co" using assms validate_plan_iff by blast
  from assms obtain steps where c: "check_steps (zone (gi_timezone r)) (dr_conditions (gi_basis_draft r)) (co_steps co) = Inr steps"
    and p: "pv_steps p = steps" "pv_excluded_steps p = map named_exclusion (co_excluded_steps co)"
      "pv_basis_draft p = gi_basis_draft r" "pv_trigger p = gi_trigger r"
    by (auto simp: validate_plan_def Let_def and_then_eq_Inr split: if_splits)
  show "pv_steps p = map (\<lambda>s. catalogued s (the (BY_CODE (ps_code s)))) (co_steps co)"
    using check_steps_Inr(2) [OF c] p by simp
  show "map xp_code (pv_excluded_steps p) = excluded_codes co"
    by (simp add: p excluded_codes_def named_exclusion_def)
  have "xp_code x \<in> set planning_codes" if "x \<in> set (co_excluded_steps co)" for x
  proof -
    have "xp_code x \<in> set (excluded_codes co)" using that by (simp add: excluded_codes_def)
    then show ?thesis using sound arg_cong [of _ _ set_mset] unfolding sound_plan_def by (metis UnCI set_mset_mset set_mset_union)
  qed
  then have "PLANNING_STEP_NAMES (xp_code x) = Some (cat_name (the (BY_CODE (xp_code x))))" if "x \<in> set (co_excluded_steps co)" for x
    using that catalog_name [OF catalogued_code] by blast
  then show "list_all catalog_named (pv_excluded_steps p)"
    by (auto simp: p list_all_iff catalog_named_def named_exclusion_def)
  show "pv_basis_draft p = gi_basis_draft r" "pv_trigger p = gi_trigger r" by (simp_all add: p)
qed

section \<open>Results of a generation\<close>

lemma generation_results_consistent:
  "consistent_generation (needs_clarification why)" "0 \<le> n \<Longrightarrow> consistent_generation (failed_generation why n)"
  "0 \<le> n \<Longrightarrow> consistent_generation (generated p n)"
  by (simp_all add: consistent_generation_def needs_clarification_def failed_generation_def generated_def)

lemma run_plan_generation_Inr:
  assumes "run_plan_generation uuid zone invoke r = Inr res"
  shows "consistent_generation res"
    and "gr_status res = Gen_generated \<Longrightarrow> \<exists>co p. invoke r = Inr co \<and> valid_composition co \<and>
           validate_plan uuid zone r co = Inr p \<and> res = generated p 1"
  using assms generation_results_consistent
  by (auto simp: run_plan_generation_def compose_plan_def and_then_def needs_clarification_def failed_generation_def generated_def
      consistent_generation_def split: sum.splits if_splits)

text \<open>A refusal or a failure keeps the preview the conversation already has.\<close>

lemma generation_keeps_preview:
  assumes "generate_with_context gen r g u = Inr (g', res)" and "gr_status res \<noteq> Gen_generated"
  shows "g' = g"
  using assms
  by (auto simp: generate_with_context_def Let_def and_then_eq_Inr needs_clarification_def failed_generation_def generated_def
      split: list.splits option.splits if_splits generation_status.splits)

end
