(* ===== verification/Plan_State.thy ===== *)
theory Plan_State
  imports Plan_Conditions
begin

text \<open>
  The history of a planning conversation and the state that is kept between two turns:
  \<open>PlanningStoredMessage\<close>, \<open>PlanningStatePayload\<close> and the request contexts of \<open>app/ai/contracts.py\<close>,
  \<open>validate_planning_history\<close> of \<open>agent/schemas.py\<close> and \<open>app/ai/features/planning/state_codec.py\<close>.
\<close>

section \<open>Messages\<close>

record tool_call =
  tc_id :: pystr
  tc_name :: pystr
  tc_args :: dict

text \<open>The message classes of the SDK, with the fields that are kept; a missing call identifier is empty.\<close>

datatype message =
    HumanMessage (msg_id: "pystr option") (msg_name: "pystr option") (msg_content: json)
  | AIMessage (msg_id: "pystr option") (msg_name: "pystr option") (msg_content: json) (tool_calls: "tool_call list") (invalid_calls: bool)
  | ToolMessage (msg_id: "pystr option") (msg_name: "pystr option") (msg_content: json) (answered_call: pystr) (tool_ok: bool)
  | SystemMessage (msg_id: "pystr option") (msg_name: "pystr option") (msg_content: json)

text \<open>\<open>validate_planning_history\<close>, with the calls that wait for a result and those seen so far.\<close>

fun valid_history :: "pystr option \<Rightarrow> pystr list \<Rightarrow> pystr list \<Rightarrow> message list \<Rightarrow> bool" where
  "valid_history cur waiting seen [] \<longleftrightarrow> waiting = []"
| "valid_history cur waiting seen (ToolMessage i n c call good # ms) \<longleftrightarrow>
     call \<in> set waiting \<and> valid_history cur (removeAll call waiting) seen ms"
| "valid_history cur waiting seen (HumanMessage i n c # ms) \<longleftrightarrow>
     waiting = [] \<and> \<not> (cur \<noteq> None \<and> i = cur) \<and> valid_history cur [] seen ms"
| "valid_history cur waiting seen (AIMessage i n c calls invalid # ms) \<longleftrightarrow>
     waiting = [] \<and> \<not> invalid \<and> list_all (\<lambda>k. tc_id k \<noteq> [] \<and> tc_id k \<notin> set seen) calls \<and> distinct (map tc_id calls) \<and>
     valid_history cur (map tc_id calls) (seen @ map tc_id calls) ms"
| "valid_history cur waiting seen (SystemMessage i n c # ms) \<longleftrightarrow> False"

section \<open>The stored form\<close>

datatype stored_role = Stored_user | Stored_assistant | Stored_tool

record stored_message =
  sm_role :: stored_role
  sm_id :: "pystr option"
  sm_content :: json
  sm_tool_calls :: "tool_call list"
  sm_name :: "pystr option"
  sm_tool_call_id :: "pystr option"
  sm_tool_status :: "bool option"

definition nonblank_opt :: "pystr option \<Rightarrow> bool" where
  "nonblank_opt x \<longleftrightarrow> (case x of None \<Rightarrow> True | Some s \<Rightarrow> nonblank_str s)"

fun valid_content :: "json \<Rightarrow> bool" where
  "valid_content (JStr s) = True"
| "valid_content (JList xs) = list_all (\<lambda>x. case x of JStr _ \<Rightarrow> True | JObj _ \<Rightarrow> True | _ \<Rightarrow> False) xs"
| "valid_content _ = False"

text \<open>\<open>validate_role\<close> and the types of the fields.\<close>

definition valid_stored :: "stored_message \<Rightarrow> bool" where
  "valid_stored m \<longleftrightarrow>
     nonblank_opt (sm_id m) \<and> nonblank_opt (sm_name m) \<and> nonblank_opt (sm_tool_call_id m) \<and> valid_content (sm_content m) \<and>
     list_all (\<lambda>k. nonblank_str (tc_id k) \<and> nonblank_str (tc_name k)) (sm_tool_calls m) \<and>
     (sm_role m \<noteq> Stored_assistant \<longrightarrow> sm_tool_calls m = []) \<and>
     (if sm_role m = Stored_tool then sm_tool_call_id m \<noteq> None \<and> sm_tool_status m \<noteq> None
      else sm_tool_call_id m = None \<and> sm_tool_status m = None)"

text \<open>\<open>validate_pairs\<close>\<close>

fun add_calls :: "tool_call list \<Rightarrow> pystr list \<Rightarrow> pystr list \<Rightarrow> (pystr list \<times> pystr list) option" where
  "add_calls [] waiting seen = Some (waiting, seen)"
| "add_calls (k # ks) waiting seen =
     (if tc_id k \<in> set seen then None else add_calls ks (waiting @ [tc_id k]) (seen @ [tc_id k]))"

fun valid_pairs :: "pystr list \<Rightarrow> pystr list \<Rightarrow> pystr list \<Rightarrow> stored_message list \<Rightarrow> bool" where
  "valid_pairs waiting seen ids [] \<longleftrightarrow> waiting = []"
| "valid_pairs waiting seen ids (m # ms) \<longleftrightarrow>
     (case sm_id m of None \<Rightarrow> True | Some i \<Rightarrow> i \<notin> set ids) \<and>
     (let ids' = (case sm_id m of None \<Rightarrow> ids | Some i \<Rightarrow> ids @ [i]) in
      if sm_role m = Stored_tool
      then (case sm_tool_call_id m of
              None \<Rightarrow> False
            | Some call \<Rightarrow> call \<in> set waiting \<and> valid_pairs (removeAll call waiting) seen ids' ms)
      else waiting = [] \<and>
           (case add_calls (sm_tool_calls m) [] seen of
              None \<Rightarrow> False
            | Some (waiting', seen') \<Rightarrow> valid_pairs waiting' seen' ids' ms))"

definition MAX_PLANNING_HISTORY :: nat where
  "MAX_PLANNING_HISTORY = 60"

definition PLANNING_HISTORY_WARNING_THRESHOLD :: nat where
  "PLANNING_HISTORY_WARNING_THRESHOLD = MAX_PLANNING_HISTORY * 4 div 5"

record state_payload =
  sp_basis_draft :: draft
  sp_history :: "stored_message list"
  sp_generation :: generation_state

definition valid_payload :: "state_payload \<Rightarrow> bool" where
  "valid_payload p \<longleftrightarrow> valid_draft (sp_basis_draft p) \<and> consistent_generation_state (sp_generation p) \<and>
     length (sp_history p) \<le> MAX_PLANNING_HISTORY \<and> list_all valid_stored (sp_history p) \<and> valid_pairs [] [] [] (sp_history p)"

record resume_state =
  rs_club_id :: ident
  rs_event_id :: ident
  rs_conversation_id :: ident
  rs_payload :: state_payload

section \<open>Errors of a turn\<close>

text \<open>The codes of \<open>PlanningStateError\<close>.\<close>

datatype state_error = Unsupported_version | Invalid_state | Scope_mismatch | Draft_mismatch | History_limit

datatype turn_error = StateError state_error | HistoryError | ContractError | GraphRecursion | AIFailure ai_exn

section \<open>Requests\<close>

record request_context =
  cx_request_id :: pystr
  cx_club_id :: ident
  cx_event_id :: ident
  cx_conversation_id :: ident
  cx_base_revision :: int
  cx_draft :: draft
  cx_resume_state :: "resume_state option"
  cx_reference_date :: date
  cx_timezone :: pystr

text \<open>\<open>validate_resume\<close>\<close>

definition validate_resume :: "request_context \<Rightarrow> turn_error + unit" where
  "validate_resume q =
     (case cx_resume_state q of
        None \<Rightarrow> Inr ()
      | Some st \<Rightarrow>
          if (cx_club_id q, cx_event_id q, cx_conversation_id q) \<noteq> (rs_club_id st, rs_event_id st, rs_conversation_id st)
          then Inl (StateError Scope_mismatch)
          else if cx_draft q \<noteq> sp_basis_draft (rs_payload st) then Inl (StateError Draft_mismatch)
          else Inr ())"

definition stored_history :: "resume_state option \<Rightarrow> stored_message list" where
  "stored_history st = (case st of None \<Rightarrow> [] | Some s \<Rightarrow> sp_history (rs_payload s))"

definition stored_generation :: "resume_state option \<Rightarrow> generation_state" where
  "stored_generation st = (case st of None \<Rightarrow> no_generation | Some s \<Rightarrow> sp_generation (rs_payload s))"

text \<open>\<open>PlanningChatRequest.validate_new_message\<close>, with the bounds of \<open>PlanningUserMessage\<close>.\<close>

definition validate_chat :: "request_context \<Rightarrow> pystr \<Rightarrow> pystr \<Rightarrow> turn_error + unit" where
  "validate_chat q mid content =
     and_then (validate_resume q) (\<lambda>_.
       if nonblank_str mid \<and> nonblank_str content \<and> length content \<le> 4000 \<and>
          \<not> list_ex (\<lambda>m. sm_id m = Some mid) (stored_history (cx_resume_state q))
       then Inr () else Inl ContractError)"

section \<open>Saving and restoring\<close>

fun store_message :: "message \<Rightarrow> stored_message" where
  "store_message (HumanMessage i n c) =
     \<lparr>sm_role = Stored_user, sm_id = i, sm_content = c, sm_tool_calls = [], sm_name = n, sm_tool_call_id = None, sm_tool_status = None\<rparr>"
| "store_message (AIMessage i n c calls invalid) =
     \<lparr>sm_role = Stored_assistant, sm_id = i, sm_content = c, sm_tool_calls = calls, sm_name = n, sm_tool_call_id = None, sm_tool_status = None\<rparr>"
| "store_message (ToolMessage i n c call good) =
     \<lparr>sm_role = Stored_tool, sm_id = i, sm_content = c, sm_tool_calls = [], sm_name = n, sm_tool_call_id = Some call, sm_tool_status = Some good\<rparr>"
| "store_message (SystemMessage i n c) =
     \<lparr>sm_role = Stored_tool, sm_id = i, sm_content = c, sm_tool_calls = [], sm_name = n, sm_tool_call_id = None, sm_tool_status = None\<rparr>"

definition restore_message :: "stored_message \<Rightarrow> message" where
  "restore_message m =
     (case sm_role m of
        Stored_user \<Rightarrow> HumanMessage (sm_id m) (sm_name m) (sm_content m)
      | Stored_assistant \<Rightarrow> AIMessage (sm_id m) (sm_name m) (sm_content m) (sm_tool_calls m) False
      | Stored_tool \<Rightarrow> ToolMessage (sm_id m) (sm_name m) (sm_content m) (the (sm_tool_call_id m)) (the (sm_tool_status m)))"

definition restore_history :: "resume_state option \<Rightarrow> turn_error + message list" where
  "restore_history st =
     (let ms = map restore_message (stored_history st)
      in if st \<noteq> None \<and> \<not> valid_history None [] [] ms then Inl HistoryError else Inr ms)"

text \<open>\<open>capture_turn_state\<close>\<close>

definition capture_turn_state ::
  "request_context \<Rightarrow> draft \<Rightarrow> message list \<Rightarrow> generation_state \<Rightarrow> turn_error + resume_state" where
  "capture_turn_state q dr ms g =
     (if length ms > MAX_PLANNING_HISTORY then Inl (StateError History_limit)
      else if \<not> valid_history None [] [] ms then Inl HistoryError
      else let p = \<lparr>sp_basis_draft = dr, sp_history = map store_message ms, sp_generation = g\<rparr>
           in if \<not> valid_payload p then Inl ContractError
              else Inr \<lparr>rs_club_id = cx_club_id q, rs_event_id = cx_event_id q, rs_conversation_id = cx_conversation_id q,
                        rs_payload = p\<rparr>)"

record history_usage =
  hu_message_count :: nat
  hu_near_limit :: bool

definition usage_of :: "nat \<Rightarrow> history_usage" where
  "usage_of n = \<lparr>hu_message_count = n, hu_near_limit = (PLANNING_HISTORY_WARNING_THRESHOLD \<le> n)\<rparr>"

section \<open>Lemmas\<close>

lemma valid_history_plain:
  "valid_history cur waiting seen ms \<Longrightarrow> m \<in> set ms \<Longrightarrow> (\<forall>i n c. m \<noteq> SystemMessage i n c) \<and> (\<forall>i n c ks. m \<noteq> AIMessage i n c ks True)"
  by (induction cur waiting seen ms rule: valid_history.induct) auto

lemma restore_store:
  assumes "\<forall>i n c. m \<noteq> SystemMessage i n c" and "\<forall>i n c ks. m \<noteq> AIMessage i n c ks True"
  shows "restore_message (store_message m) = m"
  using assms by (cases m) (auto simp: restore_message_def)

lemma restore_store_history:
  assumes "valid_history cur waiting seen ms"
  shows "map (restore_message \<circ> store_message) ms = ms"
  using valid_history_plain [OF assms] restore_store by (auto intro!: map_idI)

text \<open>The identifier of the message at hand only matters when the history holds it.\<close>

lemma valid_history_current:
  assumes "valid_history None waiting seen ms" and "\<forall>m \<in> set ms. msg_id m \<noteq> Some i"
  shows "valid_history (Some i) waiting seen ms"
  using assms by (induction "None :: pystr option" waiting seen ms rule: valid_history.induct) auto

lemma capture_Inr:
  assumes "capture_turn_state q dr ms g = Inr st"
  shows "valid_history None [] [] ms" and "length ms \<le> MAX_PLANNING_HISTORY" and "valid_payload (rs_payload st)"
    and "rs_club_id st = cx_club_id q" "rs_event_id st = cx_event_id q" "rs_conversation_id st = cx_conversation_id q"
    and "sp_basis_draft (rs_payload st) = dr" "sp_generation (rs_payload st) = g" "sp_history (rs_payload st) = map store_message ms"
  using assms by (auto simp: capture_turn_state_def Let_def split: if_splits)

lemma capture_restores:
  assumes "capture_turn_state q dr ms g = Inr st"
  shows "restore_history (Some st) = Inr ms"
  using capture_Inr [OF assms] restore_store_history [of None "[]" "[]" ms]
  by (simp add: restore_history_def stored_history_def Let_def)

text \<open>
  The two validators agree: a history whose identifiers are texts and distinct is accepted in its stored
  form exactly when it is accepted as messages.
\<close>

lemma add_calls_iff:
  "add_calls ks waiting seen =
     (if distinct (map tc_id ks) \<and> set (map tc_id ks) \<inter> set seen = {}
      then Some (waiting @ map tc_id ks, seen @ map tc_id ks) else None)"
  by (induction ks arbitrary: waiting seen) auto

definition ids_of :: "message list \<Rightarrow> pystr list" where
  "ids_of ms = List.map_filter msg_id ms"

lemma ids_of_simps [simp]:
  "ids_of [] = []" "ids_of (m # ms) = (case msg_id m of None \<Rightarrow> ids_of ms | Some i \<Rightarrow> i # ids_of ms)"
  by (simp_all add: ids_of_def List.map_filter_def split: option.split)

lemma store_message_id [simp]: "sm_id (store_message m) = msg_id m"
  by (cases m) simp_all

lemma valid_pairs_iff:
  assumes "\<forall>m \<in> set ms. (\<forall>i n c. m \<noteq> SystemMessage i n c) \<and> (\<forall>i n c ks. m \<noteq> AIMessage i n c ks True)"
    and "\<forall>m \<in> set ms. \<forall>i n c ks v. m = AIMessage i n c ks v \<longrightarrow> (\<forall>k \<in> set ks. tc_id k \<noteq> [])"
    and "distinct (ids @ ids_of ms)"
  shows "valid_pairs waiting seen ids (map store_message ms) \<longleftrightarrow> valid_history None waiting seen ms"
  using assms
proof (induction ms arbitrary: waiting seen ids)
  case (Cons m ms)
  have ih: "valid_pairs w s (case msg_id m of None \<Rightarrow> ids | Some i \<Rightarrow> ids @ [i]) (map store_message ms) \<longleftrightarrow> valid_history None w s ms" for w s
    using Cons by (intro Cons.IH) (auto split: option.splits)
  have fresh: "msg_id m = None \<or> (\<exists>i. msg_id m = Some i \<and> i \<notin> set ids)" using Cons.prems(3) by (cases "msg_id m") auto
  show ?case
  proof (cases m)
    case (AIMessage i n c ks v)
    then show ?thesis
      using ih fresh Cons.prems(1,2) by (auto simp: Let_def add_calls_iff list_all_iff split: option.splits)
  qed (use ih fresh Cons.prems(1) in \<open>auto simp: Let_def split: option.splits\<close>)
qed simp

end
