(* ===== verification/Plan_Agent.thy ===== *)
theory Plan_Agent
  imports Plan_Generation Plan_State
begin

text \<open>
  One turn of the planning assistant: \<open>app/ai/features/planning/agent/nodes.py\<close>, \<open>graph.py\<close>,
  \<open>generation_tools.py\<close> and \<open>record_tool.py\<close>. The language model is asked, its tool calls are executed one
  after the other, and it is asked again until it answers in words. The model, the record search and
  the generator are parameters, as are the parsers of the tool arguments (pydantic) and the text of a
  message (the SDK). Progress notifications do not influence the result and are left out.
\<close>

section \<open>Parameters\<close>

record generate_input =
  ge_quote :: pystr
  ge_offer_id :: "pystr option"
  ge_use_current_conditions :: bool

datatype tool_result = Condition_Result condition_update | Lookup_Result record_lookup
  | Offer_Result offer_update | Generation_Result generation_result

record execution =
  te_tool_call_id :: pystr
  te_name :: pystr
  te_result :: tool_result

text \<open>\<open>PlanningAgentTurnInput\<close> and \<open>PlanningAgentState\<close>\<close>

record turn_input =
  ti_draft :: draft
  ti_current_message :: plan_message
  ti_history :: "message list"
  ti_reference_date :: date
  ti_timezone :: pystr
  ti_generation :: generation_state

record agent_state =
  ag_messages :: "message list"
  ag_draft :: draft
  ag_executions :: "execution list"
  ag_tool_calls :: nat
  ag_model_calls :: nat
  ag_limit_reached :: bool
  ag_record_lookup :: "record_lookup option"
  ag_generation :: generation_state
  ag_generation_result :: "generation_result option"
  ag_generation_model_calls :: int

record ports =
  po_invoke :: "agent_state \<Rightarrow> bool \<Rightarrow> ai_exn + message"
  po_search :: "(pystr \<Rightarrow> draft \<Rightarrow> date \<Rightarrow> ai_exn + record_lookup) option"
  po_generate :: "(generation_input \<Rightarrow> ai_exn + generation_result) option"
  po_offer_id :: "nat \<Rightarrow> pystr"
  po_add_messages :: "message list \<Rightarrow> message list \<Rightarrow> message list"

record codec =
  cd_conditions :: "dict \<Rightarrow> conditions_input option"
  cd_search :: "dict \<Rightarrow> pystr option"
  cd_offer :: "dict \<Rightarrow> offer_input option"
  cd_generate :: "dict \<Rightarrow> generate_input option"
  cd_lookup :: "json \<Rightarrow> record_lookup option"
  cd_dump :: "tool_result \<Rightarrow> json"
  cd_text :: "json \<Rightarrow> pystr"

section \<open>Context of a generation\<close>

text \<open>The facts of the latest record search, unless it failed.\<close>

definition TOOL_NAME :: pystr where
  "TOOL_NAME = lit ''update_event_conditions''"

definition SEARCH_TOOL_NAME :: pystr where
  "SEARCH_TOOL_NAME = lit ''search_past_events''"

definition OFFER_TOOL_NAME :: pystr where
  "OFFER_TOOL_NAME = lit ''update_generation_offer''"

definition GENERATE_TOOL_NAME :: pystr where
  "GENERATE_TOOL_NAME = lit ''generate_event_plan''"

definition MAX_TOOL_CALLS :: nat where
  "MAX_TOOL_CALLS = 3"

fun is_search_result :: "message \<Rightarrow> bool" where
  "is_search_result (ToolMessage _ n _ _ _) \<longleftrightarrow> n = Some SEARCH_TOOL_NAME"
| "is_search_result _ \<longleftrightarrow> False"

definition latest_reference_facts :: "codec \<Rightarrow> message list \<Rightarrow> record_fact list" where
  "latest_reference_facts cd ms =
     (case find is_search_result (rev ms) of
        None \<Rightarrow> []
      | Some m \<Rightarrow>
          (case cd_lookup cd (msg_content m) of
             None \<Rightarrow> []
           | Some r \<Rightarrow> if rl_status r = Lookup_available then (case rl_result r of None \<Rightarrow> [] | Some sr \<Rightarrow> sr_facts sr) else []))"

fun turn_of :: "codec \<Rightarrow> message \<Rightarrow> chat_turn option" where
  "turn_of cd (HumanMessage _ _ c) =
     (if nonblank_str (cd_text cd c) then Some \<lparr>ct_role = Role_USER, ct_content = cd_text cd c\<rparr> else None)"
| "turn_of cd (AIMessage _ _ c _ _) =
     (if nonblank_str (cd_text cd c) then Some \<lparr>ct_role = Role_ASSISTANT, ct_content = cd_text cd c\<rparr> else None)"
| "turn_of cd _ = None"

definition plan_messages :: "codec \<Rightarrow> message list \<Rightarrow> chat_turn list" where
  "plan_messages cd ms = List.map_filter (turn_of cd) ms"

text \<open>\<open>generate_event_plan\<close>\<close>

definition generate_event_plan ::
  "codec \<Rightarrow> (generation_input \<Rightarrow> ai_exn + generation_result) \<Rightarrow> generate_input \<Rightarrow> turn_input \<Rightarrow> draft \<Rightarrow> generation_state
     \<Rightarrow> message list \<Rightarrow> ai_exn + (generation_state \<times> generation_result)" where
  "generate_event_plan cd gen a r dr g ms =
     (let m = ti_current_message r;
          clarify = (\<lambda>why. Inr (g, needs_clarification why));
          go = generate_with_context gen
            \<lparr>gi_basis_draft = dr, gi_trigger = Chat_Trigger (pm_id m) (ge_quote a), gi_messages = plan_messages cd ms,
             gi_reference_date = ti_reference_date r, gi_timezone = ti_timezone r,
             gi_reference_facts = latest_reference_facts cd ms\<rparr> g (ge_use_current_conditions a)
      in if \<not> valid_evidence \<lparr>evi_message_id = pm_id m, evi_quote = ge_quote a\<rparr> m then clarify Why_Generation_Evidence
         else (case ge_offer_id a of
                 None \<Rightarrow> go
               | Some i \<Rightarrow>
                   (case gs_offer g of
                      None \<Rightarrow> clarify Why_No_Such_Offer
                    | Some o' \<Rightarrow>
                        if go_id o' \<noteq> i \<or> go_status o' \<noteq> Offer_pending then clarify Why_No_Such_Offer
                        else if \<not> same_basis (go_basis_draft o') dr then clarify Why_Offer_Outdated
                        else go)))"

text \<open>\<open>search_past_events\<close>: a failure that may pass is reported, it is no empty result.\<close>

definition search_past_events ::
  "(pystr \<Rightarrow> event_type option \<Rightarrow> date option \<Rightarrow> date \<Rightarrow> ai_exn + search_result) \<Rightarrow> pystr \<Rightarrow> draft \<Rightarrow> date \<Rightarrow> ai_exn + record_lookup" where
  "search_past_events search query dr today =
     (let c = dr_conditions dr in
      case search query (pc_event_type c) (pc_start_date c) today of
        Inl e \<Rightarrow>
          if is_retryable e
          then Inr \<lparr>rl_status = Lookup_failed, rl_query = Some query, rl_result = None, rl_reason = Some Why_Search_Failed\<rparr>
          else Inl e
      | Inr sr \<Rightarrow>
          Inr \<lparr>rl_status = (if found_records sr then Lookup_available else Lookup_not_found), rl_query = Some query,
               rl_result = Some sr, rl_reason = None\<rparr>)"

section \<open>The nodes\<close>

text \<open>\<open>final_answer_text\<close> of \<open>app/ai/llm_stream.py\<close>\<close>

fun text_block :: "json \<Rightarrow> dict option" where
  "text_block (JObj kvs) = (if map_of kvs ''type'' = Some (JStr (lit ''text'')) then Some kvs else None)"
| "text_block _ = None"

definition block_text :: "dict \<Rightarrow> pystr" where
  "block_text b = (case map_of b ''text'' of Some (JStr s) \<Rightarrow> s | _ \<Rightarrow> [])"

definition final_answer_text :: "codec \<Rightarrow> json \<Rightarrow> pystr" where
  "final_answer_text cd c =
     (let texts = (case c of JList xs \<Rightarrow> List.map_filter text_block xs | _ \<Rightarrow> []) in
      if list_ex (\<lambda>b. map_of b ''phase'' \<noteq> None \<and> map_of b ''phase'' \<noteq> Some JNull) texts
      then concat (map block_text (filter (\<lambda>b. map_of b ''phase'' = Some (JStr (lit ''final_answer''))) texts))
      else cd_text cd c)"

definition calls_of :: "message \<Rightarrow> tool_call list" where
  "calls_of m = (case m of AIMessage _ _ _ ks _ \<Rightarrow> ks | _ \<Rightarrow> [])"

definition used_call_ids :: "message list \<Rightarrow> pystr list" where
  "used_call_ids ms = concat (map (\<lambda>m. map tc_id (calls_of m)) ms)"

text \<open>What \<open>agent_node\<close> accepts of a response.\<close>

definition valid_response :: "codec \<Rightarrow> message list \<Rightarrow> bool \<Rightarrow> message \<Rightarrow> bool" where
  "valid_response cd ms allow_tools m =
     (case m of
        AIMessage _ _ c ks invalid \<Rightarrow>
          \<not> invalid \<and> (ks \<noteq> [] \<longrightarrow> allow_tools) \<and>
          (if ks \<noteq> []
           then list_all (\<lambda>k. tc_id k \<noteq> [] \<and> tc_id k \<notin> set (used_call_ids ms)) ks \<and> distinct (map tc_id ks)
           else nonblank_str (final_answer_text cd c))
      | _ \<Rightarrow> False)"

definition agent_node :: "ports \<Rightarrow> codec \<Rightarrow> agent_state \<Rightarrow> ai_exn + agent_state" where
  "agent_node po cd s =
     (let allow_tools = ag_tool_calls s < MAX_TOOL_CALLS in
      and_then (po_invoke po s allow_tools) (\<lambda>m.
        if \<not> valid_response cd (ag_messages s) allow_tools m then Inl AIInvalidResponseError
        else Inr (s\<lparr>ag_messages := po_add_messages po (ag_messages s) [m], ag_model_calls := ag_model_calls s + 1\<rparr>)))"

text \<open>The local variables of \<open>tools_node\<close>: the state it returns, the new messages and two memories.\<close>

record tool_loop =
  lo_state :: agent_state
  lo_messages :: "message list"
  lo_searched :: bool
  lo_deferred_offer_id :: "pystr option"

definition reject_call :: "agent_state \<Rightarrow> tool_call \<Rightarrow> reason \<Rightarrow> tool_result" where
  "reject_call s k why =
     (if tc_name k = SEARCH_TOOL_NAME
      then Lookup_Result \<lparr>rl_status = Lookup_rejected, rl_query = (case map_of (tc_args k) ''query'' of Some (JStr q) \<Rightarrow> Some q | _ \<Rightarrow> None),
                          rl_result = None, rl_reason = Some why\<rparr>
      else if tc_name k = OFFER_TOOL_NAME then Offer_Result (rejected_offer (ag_generation s) why)
      else if tc_name k = GENERATE_TOOL_NAME then Generation_Result (needs_clarification why)
      else Condition_Result (rejected_update (ag_draft s) why))"

text \<open>One tool within the limit: its result, and the generation state a generation leaves.\<close>

definition execute_call ::
  "ports \<Rightarrow> codec \<Rightarrow> turn_input \<Rightarrow> message list \<Rightarrow> tool_loop \<Rightarrow> tool_call \<Rightarrow> ai_exn + (tool_result \<times> generation_state)" where
  "execute_call po cd r history lo k =
     (let s = lo_state lo; g = ag_generation s; refuse = (\<lambda>why. Inr (reject_call s k why, g)) in
      if tc_name k = OFFER_TOOL_NAME then
        (case po_generate po of
           None \<Rightarrow> refuse Why_No_Generator
         | Some gen \<Rightarrow>
             (case cd_offer cd (tc_args k) of
                None \<Rightarrow> refuse Why_Generation_Arguments
              | Some a \<Rightarrow> Inr (Offer_Result (update_generation_offer (po_offer_id po (length (ag_executions s))) (ag_draft s) g a
                                 (ti_current_message r)), g)))
      else if tc_name k = GENERATE_TOOL_NAME then
        (case po_generate po of
           None \<Rightarrow> refuse Why_No_Generator
         | Some gen \<Rightarrow>
             (case cd_generate cd (tc_args k) of
                None \<Rightarrow> refuse Why_Generation_Arguments
              | Some a \<Rightarrow>
                  and_then (generate_event_plan cd gen a r (ag_draft s) g (history @ lo_messages lo))
                    (\<lambda>(g', res). Inr (Generation_Result res, g'))))
      else if tc_name k = SEARCH_TOOL_NAME then
        (case po_search po of
           None \<Rightarrow> refuse Why_No_Search
         | Some search \<Rightarrow>
             (case cd_search cd (tc_args k) of
                None \<Rightarrow> refuse Why_Search_Arguments
              | Some q \<Rightarrow> and_then (search q (ag_draft s) (ti_reference_date r)) (\<lambda>res. Inr (Lookup_Result res, g))))
      else if tc_name k \<noteq> TOOL_NAME then refuse Why_Unknown_Tool
      else if lo_searched lo then refuse Why_Unseen_Search
      else (case cd_conditions cd (tc_args k) of
              None \<Rightarrow> Inr (Condition_Result (rejected_update (ag_draft s) Why_Condition_Arguments), g)
            | Some a \<Rightarrow> and_then (update_event_conditions (ag_draft s) a (ti_current_message r))
                          (\<lambda>u. Inr (Condition_Result u, g))))"

text \<open>A deferral recorded in the same response moves along with the conditions.\<close>

definition rebase_offer :: "pystr option \<Rightarrow> condition_update \<Rightarrow> generation_state \<Rightarrow> generation_state" where
  "rebase_offer deferred u g =
     (case gs_offer g of
        None \<Rightarrow> g
      | Some o' \<Rightarrow>
          if cu_status u = Update_applied \<and> Some (go_id o') = deferred
          then g\<lparr>gs_offer := Some (o'\<lparr>go_basis_draft := cu_draft u\<rparr>)\<rparr> else g)"

definition new_deferred :: "tool_result \<Rightarrow> pystr option \<Rightarrow> pystr option" where
  "new_deferred res old =
     (case res of
        Offer_Result u \<Rightarrow>
          (case ou_offer u of
             Some o' \<Rightarrow> if ou_status u = Update_applied \<and> go_status o' = Offer_deferred then Some (go_id o') else old
           | None \<Rightarrow> old)
      | _ \<Rightarrow> old)"

text \<open>What the state takes over from a result.\<close>

definition adopt :: "tool_call \<Rightarrow> pystr option \<Rightarrow> tool_result \<Rightarrow> agent_state \<Rightarrow> agent_state" where
  "adopt k deferred res s =
     (case res of
        Condition_Result u \<Rightarrow>
          (if tc_name k = TOOL_NAME
           then s\<lparr>ag_draft := cu_draft u,
                  ag_generation := rebase_offer deferred u (condition_generation_state (ag_generation s) u (tc_args k))\<rparr>
           else s\<lparr>ag_draft := cu_draft u\<rparr>)
      | Lookup_Result r \<Rightarrow> s\<lparr>ag_record_lookup := Some r\<rparr>
      | Offer_Result u \<Rightarrow> s\<lparr>ag_generation := (ag_generation s)\<lparr>gs_offer := ou_offer u\<rparr>\<rparr>
      | Generation_Result r \<Rightarrow> s\<lparr>ag_generation_result := Some r, ag_generation_model_calls := ag_generation_model_calls s + gr_model_calls r\<rparr>)"

definition run_call :: "ports \<Rightarrow> codec \<Rightarrow> turn_input \<Rightarrow> message list \<Rightarrow> tool_call \<Rightarrow> tool_loop \<Rightarrow> ai_exn + tool_loop" where
  "run_call po cd r history k lo =
     (let s = lo_state lo in
      and_then
        (if MAX_TOOL_CALLS \<le> ag_tool_calls s then Inr ((reject_call s k Why_Tool_Limit, ag_generation s), s\<lparr>ag_limit_reached := True\<rparr>)
         else and_then (execute_call po cd r history lo k) (\<lambda>rg. Inr (rg, s\<lparr>ag_tool_calls := ag_tool_calls s + 1\<rparr>)))
        (\<lambda>((res, g), s1).
          if \<not> (nonblank_str (tc_id k) \<and> nonblank_str (tc_name k)) then Inl PydanticValidationError
          else let s2 = adopt k (lo_deferred_offer_id lo) res (s1\<lparr>ag_generation := g\<rparr>)
               in Inr \<lparr>lo_state = s2\<lparr>ag_executions := ag_executions s2 @
                                      [\<lparr>te_tool_call_id = tc_id k, te_name = tc_name k, te_result = res\<rparr>]\<rparr>,
                       lo_messages = lo_messages lo @ [ToolMessage None (Some (tc_name k)) (cd_dump cd res) (tc_id k) True],
                       lo_searched = (lo_searched lo \<or> tc_name k = SEARCH_TOOL_NAME),
                       lo_deferred_offer_id = new_deferred res (lo_deferred_offer_id lo)\<rparr>))"

fun run_calls :: "ports \<Rightarrow> codec \<Rightarrow> turn_input \<Rightarrow> message list \<Rightarrow> tool_call list \<Rightarrow> tool_loop \<Rightarrow> ai_exn + tool_loop" where
  "run_calls po cd r history [] lo = Inr lo"
| "run_calls po cd r history (k # ks) lo = and_then (run_call po cd r history k lo) (run_calls po cd r history ks)"

text \<open>\<open>tools_node\<close>\<close>

definition tools_node :: "ports \<Rightarrow> codec \<Rightarrow> turn_input \<Rightarrow> agent_state \<Rightarrow> ai_exn + agent_state" where
  "tools_node po cd r s =
     and_then (run_calls po cd r (ag_messages s) (calls_of (last (ag_messages s)))
                 \<lparr>lo_state = s, lo_messages = [], lo_searched = False, lo_deferred_offer_id = None\<rparr>) (\<lambda>lo.
       let s' = lo_state lo
       in Inr (s'\<lparr>ag_messages := po_add_messages po (ag_messages s) (lo_messages lo),
                  ag_limit_reached := (ag_limit_reached s' \<or> MAX_TOOL_CALLS \<le> ag_tool_calls s')\<rparr>))"

section \<open>The graph\<close>

text \<open>
  The graph runs a node per step and stops with an error when the recursion limit is reached. A last
  message without tool calls ends the run; one that is no answer of the model has no such field.
\<close>

fun run_graph :: "ports \<Rightarrow> codec \<Rightarrow> turn_input \<Rightarrow> nat \<Rightarrow> agent_state \<Rightarrow> turn_error + agent_state" where
  "run_graph po cd r 0 s = Inl GraphRecursion"
| "run_graph po cd r (Suc n) s =
     (case agent_node po cd s of
        Inl e \<Rightarrow> Inl (AIFailure e)
      | Inr s1 \<Rightarrow>
          (case last (ag_messages s1) of
             AIMessage _ _ _ ks _ \<Rightarrow>
               if ks = [] then Inr s1
               else (case n of
                       0 \<Rightarrow> Inl GraphRecursion
                     | Suc m \<Rightarrow>
                         (case tools_node po cd r s1 of Inl e \<Rightarrow> Inl (AIFailure e) | Inr s2 \<Rightarrow> run_graph po cd r m s2))
           | _ \<Rightarrow> Inl (AIFailure OtherException)))"

text \<open>The messages given to the graph pass the same reducer.\<close>

definition start_state :: "ports \<Rightarrow> turn_input \<Rightarrow> agent_state" where
  "start_state po r =
     \<lparr>ag_messages = po_add_messages po []
        (ti_history r @ [HumanMessage (Some (pm_id (ti_current_message r))) None (JStr (pm_text (ti_current_message r)))]),
      ag_draft = ti_draft r, ag_executions = [], ag_tool_calls = 0, ag_model_calls = 0, ag_limit_reached = False,
      ag_record_lookup = None, ag_generation = ti_generation r, ag_generation_result = None, ag_generation_model_calls = 0\<rparr>"

definition recursion_limit :: nat where
  "recursion_limit = 2 * MAX_TOOL_CALLS + 5"

text \<open>\<open>run_planning_agent_turn\<close>, up to the fields of the result that are read from the final state.\<close>

definition run_planning_agent_turn :: "ports \<Rightarrow> codec \<Rightarrow> turn_input \<Rightarrow> turn_error + agent_state" where
  "run_planning_agent_turn po cd r = run_graph po cd r recursion_limit (start_state po r)"

definition preview_is_current :: "generation_state \<Rightarrow> draft \<Rightarrow> bool" where
  "preview_is_current g dr =
     (case gs_preview g of None \<Rightarrow> False | Some p \<Rightarrow> same_basis (pv_basis_draft p) dr \<and> \<not> gs_change_pending g)"

end
