(* ===== verification/Plan_Agent_Facts.thy ===== *)
theory Plan_Agent_Facts
  imports Plan_Agent
begin

text \<open>
  A turn of the planning assistant ends, keeps the draft well formed and leaves a history that can be
  stored. Message identifiers of the model and of the graph library are assumed to be new, as their
  documentation says; parsed arguments satisfy the models they are parsed into.
\<close>

section \<open>Assumptions on the parameters\<close>

fun set_msg_id :: "pystr \<Rightarrow> message \<Rightarrow> message" where
  "set_msg_id i (HumanMessage _ n c) = HumanMessage (Some i) n c"
| "set_msg_id i (AIMessage _ n c ks v) = AIMessage (Some i) n c ks v"
| "set_msg_id i (ToolMessage _ n c k s) = ToolMessage (Some i) n c k s"
| "set_msg_id i (SystemMessage _ n c) = SystemMessage (Some i) n c"

text \<open>A message that has no identifier is given one; a message that has one is kept.\<close>

definition numbered :: "message \<Rightarrow> message \<Rightarrow> bool" where
  "numbered m n \<longleftrightarrow> (if msg_id m = None then \<exists>i. n = set_msg_id i m else n = m)"

text \<open>
  The reducer of the graph library: messages whose identifiers are different from each other and from
  the ones that are present are appended, each with an identifier of its own.
\<close>

definition appendable :: "message list \<Rightarrow> message list \<Rightarrow> bool" where
  "appendable ms new \<longleftrightarrow> distinct (filter (\<lambda>i. i \<noteq> None) (map msg_id new)) \<and>
     (\<forall>m \<in> set new. msg_id m \<noteq> None \<longrightarrow> msg_id m \<notin> msg_id ` set ms)"

definition appends :: "(message list \<Rightarrow> message list \<Rightarrow> message list) \<Rightarrow> bool" where
  "appends add \<longleftrightarrow> (\<forall>ms new. appendable ms new \<longrightarrow>
     (\<exists>ns. add ms new = ms @ ns \<and> list_all2 numbered new ns \<and> distinct (map msg_id ns) \<and> msg_id ` set ns \<inter> msg_id ` set ms = {}))"

definition fresh_ids :: "ports \<Rightarrow> bool" where
  "fresh_ids po \<longleftrightarrow>
     (\<forall>s b m. po_invoke po s b = Inr m \<and> msg_id m \<noteq> None \<longrightarrow> msg_id m \<notin> msg_id ` set (ag_messages s)) \<and>
     appends (po_add_messages po)"

definition parses_valid :: "codec \<Rightarrow> bool" where
  "parses_valid cd \<longleftrightarrow> (\<forall>args a. cd_conditions cd args = Some a \<longrightarrow> valid_input a)"

section \<open>New messages\<close>

lemma set_msg_id_simps [simp]: "msg_id (set_msg_id i m) = Some i" "calls_of (set_msg_id i m) = calls_of m"
  by (cases m; simp add: calls_of_def)+

lemma numbered_id: "numbered m n \<Longrightarrow> msg_id n \<noteq> None"
  by (auto simp: numbered_def split: if_splits)

lemma numbered_AI: "numbered (AIMessage i n c ks v) m \<Longrightarrow> m = AIMessage (msg_id m) n c ks v"
  by (auto simp: numbered_def split: if_splits)

lemma added:
  assumes "fresh_ids po" and "appendable ms new"
  obtains ns where "po_add_messages po ms new = ms @ ns" and "list_all2 numbered new ns" and "distinct (map msg_id ns)"
    and "msg_id ` set ns \<inter> msg_id ` set ms = {}"
  using assms unfolding fresh_ids_def appends_def by blast

lemma agent_node_Inr:
  assumes "agent_node po cd s = Inr s1" and "fresh_ids po"
  obtains m n where "po_invoke po s (ag_tool_calls s < MAX_TOOL_CALLS) = Inr m"
    and "valid_response cd (ag_messages s) (ag_tool_calls s < MAX_TOOL_CALLS) m"
    and "s1 = s\<lparr>ag_messages := ag_messages s @ [n], ag_model_calls := ag_model_calls s + 1\<rparr>"
    and "numbered m n" and "msg_id n \<notin> msg_id ` set (ag_messages s)"
proof -
  from assms(1) obtain m where m: "po_invoke po s (ag_tool_calls s < MAX_TOOL_CALLS) = Inr m"
    "valid_response cd (ag_messages s) (ag_tool_calls s < MAX_TOOL_CALLS) m"
    "s1 = s\<lparr>ag_messages := po_add_messages po (ag_messages s) [m], ag_model_calls := ag_model_calls s + 1\<rparr>"
    by (auto simp: agent_node_def Let_def and_then_eq_Inr split: if_splits)
  have "msg_id m \<noteq> None \<longrightarrow> msg_id m \<notin> msg_id ` set (ag_messages s)"
    using assms(2) m(1) unfolding fresh_ids_def by blast
  then have "appendable (ag_messages s) [m]" by (simp add: appendable_def)
  then obtain ns where ns: "po_add_messages po (ag_messages s) [m] = ag_messages s @ ns" "list_all2 numbered [m] ns"
    "msg_id ` set ns \<inter> msg_id ` set (ag_messages s) = {}" by (rule added [OF assms(2)])
  from ns(2) obtain n where "ns = [n]" "numbered m n" by (auto simp: list_all2_Cons1)
  with m ns(1,3) that [of m n] show thesis by simp
qed

section \<open>The tools\<close>

lemma adopt_frame [simp]:
  "ag_tool_calls (adopt k d res s) = ag_tool_calls s" "ag_messages (adopt k d res s) = ag_messages s"
  "ag_model_calls (adopt k d res s) = ag_model_calls s" "ag_executions (adopt k d res s) = ag_executions s"
  by (simp_all add: adopt_def split: tool_result.split)

lemma run_call_Inr:
  assumes "run_call po cd r h k lo = Inr lo'"
  obtains res g s1 where "lo_state lo' = (adopt k (lo_deferred_offer_id lo) res (s1\<lparr>ag_generation := g\<rparr>))
      \<lparr>ag_executions := ag_executions (lo_state lo) @ [\<lparr>te_tool_call_id = tc_id k, te_name = tc_name k, te_result = res\<rparr>]\<rparr>"
    and "lo_messages lo' = lo_messages lo @ [ToolMessage None (Some (tc_name k)) (cd_dump cd res) (tc_id k) True]"
    and "MAX_TOOL_CALLS \<le> ag_tool_calls (lo_state lo) \<and> res = reject_call (lo_state lo) k Why_Tool_Limit \<and>
           g = ag_generation (lo_state lo) \<and> s1 = (lo_state lo)\<lparr>ag_limit_reached := True\<rparr> \<or>
         ag_tool_calls (lo_state lo) < MAX_TOOL_CALLS \<and> execute_call po cd r h lo k = Inr (res, g) \<and>
           s1 = (lo_state lo)\<lparr>ag_tool_calls := ag_tool_calls (lo_state lo) + 1\<rparr>"
  using assms by (auto simp: run_call_def Let_def and_then_eq_Inr split: if_splits intro!: that)

definition counted_calls :: "nat \<Rightarrow> nat \<Rightarrow> nat" where
  "counted_calls n c = (if c < MAX_TOOL_CALLS then min MAX_TOOL_CALLS (c + n) else c)"

lemma run_call_count:
  assumes "run_call po cd r h k lo = Inr lo'"
  shows "ag_tool_calls (lo_state lo') = counted_calls 1 (ag_tool_calls (lo_state lo))"
    and "ag_messages (lo_state lo') = ag_messages (lo_state lo)" and "ag_model_calls (lo_state lo') = ag_model_calls (lo_state lo)"
  using assms by (rule run_call_Inr; auto simp: counted_calls_def)+

lemma run_calls_count:
  assumes "run_calls po cd r h ks lo = Inr lo'"
  shows "ag_tool_calls (lo_state lo') = counted_calls (length ks) (ag_tool_calls (lo_state lo)) \<and>
    ag_messages (lo_state lo') = ag_messages (lo_state lo) \<and> ag_model_calls (lo_state lo') = ag_model_calls (lo_state lo)"
  using assms
proof (induction ks arbitrary: lo)
  case Nil
  then show ?case by (auto simp: counted_calls_def)
next
  case (Cons k ks)
  from Cons.prems obtain lo1 where lo1: "run_call po cd r h k lo = Inr lo1" "run_calls po cd r h ks lo1 = Inr lo'"
    by (auto simp: and_then_eq_Inr)
  have "ag_tool_calls (lo_state lo1) = counted_calls 1 (ag_tool_calls (lo_state lo))" by (rule run_call_count(1) [OF lo1(1)])
  moreover have "counted_calls (length ks) (counted_calls 1 c) = counted_calls (length (k # ks)) c" for c
    by (auto simp: counted_calls_def)
  ultimately show ?case using Cons.IH [OF lo1(2)] run_call_count(2,3) [OF lo1(1)] by simp
qed

lemma tools_node_count:
  assumes "tools_node po cd r s = Inr s2" and "calls_of (last (ag_messages s)) \<noteq> []" and "ag_tool_calls s < MAX_TOOL_CALLS"
  shows "ag_tool_calls s < ag_tool_calls s2" and "ag_tool_calls s2 \<le> MAX_TOOL_CALLS" and "ag_model_calls s2 = ag_model_calls s"
proof -
  from assms(1) obtain lo where lo: "run_calls po cd r (ag_messages s) (calls_of (last (ag_messages s)))
      \<lparr>lo_state = s, lo_messages = [], lo_searched = False, lo_deferred_offer_id = None\<rparr> = Inr lo"
    and s2: "ag_tool_calls s2 = ag_tool_calls (lo_state lo)" "ag_model_calls s2 = ag_model_calls (lo_state lo)"
    by (auto simp: tools_node_def and_then_eq_Inr Let_def)
  have "ag_tool_calls s2 = counted_calls (length (calls_of (last (ag_messages s)))) (ag_tool_calls s)"
    using run_calls_count [OF lo] s2 by simp
  moreover have "0 < length (calls_of (last (ag_messages s)))" using assms(2) by simp
  ultimately show "ag_tool_calls s < ag_tool_calls s2" "ag_tool_calls s2 \<le> MAX_TOOL_CALLS"
    using assms(3) by (auto simp: counted_calls_def)
  show "ag_model_calls s2 = ag_model_calls s" using run_calls_count [OF lo] s2 by simp
qed

section \<open>A turn ends\<close>

lemma response_calls:
  assumes "valid_response cd ms allow m"
  obtains i n c ks where "m = AIMessage i n c ks False" and "ks \<noteq> [] \<longrightarrow> allow"
  using assms by (auto simp: valid_response_def split: message.splits)

lemma graph_ends:
  assumes "fresh_ids po" and "ag_tool_calls s \<le> MAX_TOOL_CALLS" and "2 * (MAX_TOOL_CALLS - ag_tool_calls s) < fuel"
  shows "run_graph po cd r fuel s \<noteq> Inl GraphRecursion \<and>
    (\<forall>s'. run_graph po cd r fuel s = Inr s' \<longrightarrow>
       ag_model_calls s' \<le> ag_model_calls s + 1 + (MAX_TOOL_CALLS - ag_tool_calls s) \<and> ag_tool_calls s' \<le> MAX_TOOL_CALLS)"
  using assms(2,3)
proof (induction "MAX_TOOL_CALLS - ag_tool_calls s" arbitrary: s fuel rule: less_induct)
  case less
  obtain n where fuel: "fuel = Suc n" using less.prems(2) by (cases fuel) auto
  show ?case
  proof (cases "agent_node po cd s")
    case (Inr s1)
    obtain m n' where m: "valid_response cd (ag_messages s) (ag_tool_calls s < MAX_TOOL_CALLS) m"
      and s1: "s1 = s\<lparr>ag_messages := ag_messages s @ [n'], ag_model_calls := ag_model_calls s + 1\<rparr>" and n': "numbered m n'"
      using Inr assms(1) by (rule agent_node_Inr)
    obtain i nm c ks where mm: "m = AIMessage i nm c ks False" "ks \<noteq> [] \<longrightarrow> ag_tool_calls s < MAX_TOOL_CALLS"
      using m by (rule response_calls)
    have last: "last (ag_messages s1) = AIMessage (msg_id n') nm c ks False"
      using numbered_AI n' by (simp add: s1 mm(1))
    show ?thesis
    proof (cases "ks = []")
      case True
      then have "run_graph po cd r fuel s = Inr s1" using Inr last by (simp add: fuel)
      then show ?thesis using less.prems by (simp add: s1)
    next
      case False
      then have c: "ag_tool_calls s < MAX_TOOL_CALLS" using mm(2) by simp
      then have c': "ag_tool_calls s1 < MAX_TOOL_CALLS" by (simp add: s1)
      have calls: "calls_of (last (ag_messages s1)) \<noteq> []" using last False by (simp add: calls_of_def)
      from c obtain n' where n: "n = Suc n'" using less.prems(2) fuel by (cases n) auto
      show ?thesis
      proof (cases "tools_node po cd r s1")
        case (Inr s2)
        have t: "ag_tool_calls s1 < ag_tool_calls s2" "ag_tool_calls s2 \<le> MAX_TOOL_CALLS" "ag_model_calls s2 = ag_model_calls s1"
          using tools_node_count [OF Inr calls] c' by blast+
        then have "run_graph po cd r n' s2 \<noteq> Inl GraphRecursion \<and>
            (\<forall>s'. run_graph po cd r n' s2 = Inr s' \<longrightarrow>
               ag_model_calls s' \<le> ag_model_calls s2 + 1 + (MAX_TOOL_CALLS - ag_tool_calls s2) \<and> ag_tool_calls s' \<le> MAX_TOOL_CALLS)"
          using less.prems(2) c fuel n by (intro less.hyps) (auto simp: s1)
        moreover have "MAX_TOOL_CALLS - ag_tool_calls s2 + 1 \<le> MAX_TOOL_CALLS - ag_tool_calls s" using t c by (simp add: s1)
        moreover have "run_graph po cd r fuel s = run_graph po cd r n' s2"
          using \<open>agent_node po cd s = Inr s1\<close> last False Inr by (simp add: fuel n)
        moreover have "ag_model_calls s2 = ag_model_calls s + 1" using t(3) by (simp add: s1)
        ultimately show ?thesis by (auto dest!: spec)
      qed (use \<open>agent_node po cd s = Inr s1\<close> last False in \<open>simp add: fuel n\<close>)
    qed
  qed (simp add: fuel)
qed

lemma run_graph_errors: "run_graph po cd r n s = Inl e \<Longrightarrow> e = GraphRecursion \<or> (\<exists>x. e = AIFailure x)"
  by (induction po cd r n s rule: run_graph.induct) (auto split: sum.splits message.splits if_splits nat.splits)

lemma turn_ends:
  assumes "fresh_ids po"
  shows "run_planning_agent_turn po cd r \<noteq> Inl GraphRecursion"
    and "run_planning_agent_turn po cd r = Inr s \<Longrightarrow> ag_model_calls s \<le> 4 \<and> ag_tool_calls s \<le> 3"
  using graph_ends [OF assms, of "start_state po r" recursion_limit cd r]
  by (auto simp: run_planning_agent_turn_def recursion_limit_def start_state_def MAX_TOOL_CALLS_def)

section \<open>The draft stays well formed\<close>

definition good_state :: "agent_state \<Rightarrow> bool" where
  "good_state s \<longleftrightarrow> valid_draft (ag_draft s) \<and> consistent_generation_state (ag_generation s)"

definition good_result :: "tool_result \<Rightarrow> bool" where
  "good_result res \<longleftrightarrow> (case res of Condition_Result u \<Rightarrow> valid_draft (cu_draft u) | _ \<Rightarrow> True)"

lemma good_result_simps [simp]:
  "good_result (Condition_Result u) \<longleftrightarrow> valid_draft (cu_draft u)" "good_result (Lookup_Result x)"
  "good_result (Offer_Result y)" "good_result (Generation_Result z)"
  by (simp_all add: good_result_def)

lemma reject_call_good: "valid_draft (ag_draft s) \<Longrightarrow> good_result (reject_call s k why)"
  by (simp add: reject_call_def rejected_update_def)

lemma generation_consistent:
  assumes "generate_with_context gen r g u = Inr (g', res)" and "consistent_generation_state g"
  shows "consistent_generation_state g'"
  using assms
  by (auto simp: generate_with_context_def Let_def and_then_eq_Inr no_generation_def consistent_generation_state_def
      split: list.splits option.splits if_splits generation_status.splits)

lemma generate_event_plan_consistent:
  assumes "generate_event_plan cd gen a r dr g ms = Inr (g', res)" and "consistent_generation_state g"
  shows "consistent_generation_state g'"
  using assms generation_consistent
  by (auto simp: generate_event_plan_def Let_def split: option.splits if_splits)

lemma condition_call_total:
  assumes "parses_valid cd" and "valid_draft (ag_draft (lo_state lo))" and "tc_name k = TOOL_NAME"
  shows "\<exists>u. execute_call po cd r h lo k = Inr (Condition_Result u, ag_generation (lo_state lo)) \<and> valid_draft (cu_draft u)"
proof -
  have names: "TOOL_NAME \<noteq> OFFER_TOOL_NAME" "TOOL_NAME \<noteq> GENERATE_TOOL_NAME" "TOOL_NAME \<noteq> SEARCH_TOOL_NAME"
    by code_simp+
  show ?thesis
  proof (cases "lo_searched lo \<or> cd_conditions cd (tc_args k) = None")
    case True
    then show ?thesis
      using assms(2,3) names by (auto simp: execute_call_def Let_def reject_call_def rejected_update_def)
  next
    case False
    then obtain a where a: "\<not> lo_searched lo" "cd_conditions cd (tc_args k) = Some a" by auto
    then have "valid_input a" using assms(1) by (simp add: parses_valid_def)
    from update_total [OF assms(2) this, of "ti_current_message r"] a show ?thesis
      using assms(3) names by (auto simp: execute_call_def Let_def)
  qed
qed

lemma execute_call_good:
  assumes "execute_call po cd r h lo k = Inr (res, g)" and "parses_valid cd" and "good_state (lo_state lo)"
  shows "good_result res" and "consistent_generation_state g"
proof -
  have gs: "valid_draft (ag_draft (lo_state lo))" "consistent_generation_state (ag_generation (lo_state lo))"
    using assms(3) by (simp_all add: good_state_def)
  have "good_result res \<and> consistent_generation_state g"
  proof (cases "tc_name k = TOOL_NAME")
    case True
    then show ?thesis using condition_call_total [OF assms(2) gs(1)] assms(1) gs(2) by (metis Inr_inject Pair_inject good_result_simps(1))
  next
    case False
    then show ?thesis
      using assms(1) gs reject_call_good [OF gs(1)] generate_event_plan_consistent [OF _ gs(2)]
      by (auto simp: execute_call_def Let_def and_then_eq_Inr split: if_splits option.splits)
  qed
  then show "good_result res" "consistent_generation_state g" by simp_all
qed

lemma rebase_consistent [simp]: "consistent_generation_state (rebase_offer d u g) \<longleftrightarrow> consistent_generation_state g"
  by (simp add: rebase_offer_def consistent_generation_state_def split: option.split)

lemma adopt_good:
  assumes "good_result res" and "valid_draft (ag_draft s)" and "consistent_generation_state (ag_generation s)"
  shows "good_state (adopt k d res s)"
  using assms condition_state_consistent
  by (auto simp: good_state_def adopt_def consistent_generation_state_def [of "_\<lparr>gs_offer := _\<rparr>"] split: tool_result.splits)
     (simp add: consistent_generation_state_def)

lemma run_call_good:
  assumes "run_call po cd r h k lo = Inr lo'" and "parses_valid cd" and "good_state (lo_state lo)"
  shows "good_state (lo_state lo')"
  using assms(1)
proof (rule run_call_Inr)
  fix res g s1
  assume lo': "lo_state lo' = (adopt k (lo_deferred_offer_id lo) res (s1\<lparr>ag_generation := g\<rparr>))
      \<lparr>ag_executions := ag_executions (lo_state lo) @ [\<lparr>te_tool_call_id = tc_id k, te_name = tc_name k, te_result = res\<rparr>]\<rparr>"
    and how: "MAX_TOOL_CALLS \<le> ag_tool_calls (lo_state lo) \<and> res = reject_call (lo_state lo) k Why_Tool_Limit \<and>
           g = ag_generation (lo_state lo) \<and> s1 = (lo_state lo)\<lparr>ag_limit_reached := True\<rparr> \<or>
         ag_tool_calls (lo_state lo) < MAX_TOOL_CALLS \<and> execute_call po cd r h lo k = Inr (res, g) \<and>
           s1 = (lo_state lo)\<lparr>ag_tool_calls := ag_tool_calls (lo_state lo) + 1\<rparr>"
  have "good_result res \<and> valid_draft (ag_draft s1) \<and> consistent_generation_state g"
    using how assms(3) execute_call_good [OF _ assms(2,3)] reject_call_good by (auto simp: good_state_def)
  then have "good_state (adopt k (lo_deferred_offer_id lo) res (s1\<lparr>ag_generation := g\<rparr>))" by (intro adopt_good) auto
  then show ?thesis by (simp add: lo' good_state_def)
qed

lemma run_calls_good:
  assumes "run_calls po cd r h ks lo = Inr lo'" and "parses_valid cd" and "good_state (lo_state lo)"
  shows "good_state (lo_state lo')"
  using assms(1,3)
  by (induction ks arbitrary: lo) (auto simp: and_then_eq_Inr dest: run_call_good [OF _ assms(2)])

text \<open>What the model's step establishes from \<open>P\<close> and the tools restore holds at the end of a run.\<close>

lemma run_graph_rule:
  assumes "run_graph po cd r n s = Inr s'" and "P s"
    and agent: "\<And>s s1. P s \<Longrightarrow> agent_node po cd s = Inr s1 \<Longrightarrow> Q s1"
    and tools: "\<And>s s2. Q s \<Longrightarrow> tools_node po cd r s = Inr s2 \<Longrightarrow> P s2"
  shows "Q s' \<and> calls_of (last (ag_messages s')) = []"
  using assms(1,2)
proof (induction n arbitrary: s rule: less_induct)
  case (less n)
  obtain n1 where n: "n = Suc n1" using less.prems(1) by (cases n) auto
  obtain s1 where s1: "agent_node po cd s = Inr s1" using less.prems(1) n by (cases "agent_node po cd s") auto
  have q: "Q s1" by (rule agent [OF less.prems(2) s1])
  obtain i nm c ks v where l: "last (ag_messages s1) = AIMessage i nm c ks v"
    using less.prems(1) n s1 by (cases "last (ag_messages s1)") auto
  show ?case
  proof (cases "ks = []")
    case True
    then show ?thesis using less.prems(1) n s1 l q by (auto simp: calls_of_def)
  next
    case False
    then obtain m s2 where "n1 = Suc m" "tools_node po cd r s1 = Inr s2" "run_graph po cd r m s2 = Inr s'"
      using less.prems(1) n s1 l by (auto split: nat.splits sum.splits)
    then show ?thesis using less.IH [of m s2] tools [OF q] n by simp
  qed
qed

lemma agent_node_frame:
  "agent_node po cd s = Inr s1 \<Longrightarrow> ag_draft s1 = ag_draft s \<and> ag_generation s1 = ag_generation s"
  by (auto simp: agent_node_def Let_def and_then_eq_Inr split: if_splits)

lemma tools_node_good:
  assumes "tools_node po cd r s = Inr s2" and "parses_valid cd" and "good_state s"
  shows "good_state s2"
  using assms(1) run_calls_good [OF _ assms(2)] assms(3)
  by (fastforce simp: tools_node_def and_then_eq_Inr Let_def good_state_def)

lemma turn_good:
  assumes "run_planning_agent_turn po cd r = Inr s" and "parses_valid cd"
    and "valid_draft (ti_draft r)" and "consistent_generation_state (ti_generation r)"
  shows "good_state s"
proof -
  have start: "good_state (start_state po r)" using assms(3,4) by (simp add: good_state_def start_state_def)
  show ?thesis
  proof (rule conjunct1 [OF run_graph_rule [where P = good_state and Q = good_state, OF assms(1) [unfolded run_planning_agent_turn_def] start]])
    show "good_state s1" if "good_state s" and "agent_node po cd s = Inr s1" for s s1
      using that(1) agent_node_frame [OF that(2)] by (simp add: good_state_def)
    show "good_state s2" if "good_state s" and "tools_node po cd r s = Inr s2" for s s2
      using that(2) assms(2) that(1) by (rule tools_node_good)
  qed
qed

section \<open>The history of a finished turn\<close>

text \<open>\<open>valid_history\<close> as a run: the calls that wait and those seen after the messages.\<close>

fun history_run :: "message list \<Rightarrow> pystr list \<times> pystr list \<Rightarrow> (pystr list \<times> pystr list) option" where
  "history_run [] w = Some w"
| "history_run (m # ms) (waiting, seen) =
     (case m of
        ToolMessage _ _ _ call _ \<Rightarrow> if call \<in> set waiting then history_run ms (removeAll call waiting, seen) else None
      | HumanMessage _ _ _ \<Rightarrow> if waiting = [] then history_run ms ([], seen) else None
      | AIMessage _ _ _ ks invalid \<Rightarrow>
          if waiting = [] \<and> \<not> invalid \<and> list_all (\<lambda>k. tc_id k \<noteq> [] \<and> tc_id k \<notin> set seen) ks \<and> distinct (map tc_id ks)
          then history_run ms (map tc_id ks, seen @ map tc_id ks) else None
      | SystemMessage _ _ _ \<Rightarrow> None)"

lemma valid_history_run: "valid_history None waiting seen ms \<longleftrightarrow> (\<exists>seen'. history_run ms (waiting, seen) = Some ([], seen'))"
proof (induction ms arbitrary: waiting seen)
  case (Cons m ms)
  then show ?case by (cases m) auto
qed simp

lemma history_run_append: "history_run (ms @ ns) w = Option.bind (history_run ms w) (history_run ns)"
proof (induction ms arbitrary: w)
  case (Cons m ms)
  then show ?case by (cases w; cases m) simp_all
qed simp

lemma history_run_seen: "history_run ms (waiting, seen) = Some (w, u) \<Longrightarrow> u = seen @ used_call_ids ms"
proof (induction ms arbitrary: waiting seen)
  case (Cons m ms)
  then show ?case by (cases m) (force simp: used_call_ids_def calls_of_def split: if_splits)+
qed (simp add: used_call_ids_def)

lemma used_call_ids_append [simp]: "used_call_ids (ms @ ns) = used_call_ids ms @ used_call_ids ns"
  by (simp add: used_call_ids_def)

text \<open>The messages the tools add answer the calls in order.\<close>

definition answers :: "tool_call list \<Rightarrow> message list \<Rightarrow> bool" where
  "answers ks ms \<longleftrightarrow> list_all2 (\<lambda>k m. \<exists>i n c. m = ToolMessage i n c (tc_id k) True) ks ms"

lemma answers_run:
  "answers ks ms \<Longrightarrow> distinct (map tc_id ks) \<Longrightarrow> history_run ms (map tc_id ks, seen) = Some ([], seen)"
proof (induction ks arbitrary: ms)
  case (Cons k ks)
  then obtain i n c ms' where ms: "ms = ToolMessage i n c (tc_id k) True # ms'" "answers ks ms'"
    by (auto simp: answers_def list_all2_Cons1)
  have "removeAll (tc_id k) (map tc_id (k # ks)) = map tc_id ks" using Cons.prems(2) by (simp add: removeAll_id)
  then show ?case using Cons ms by simp
qed (simp add: answers_def)

lemma answers_append: "answers ks ms \<Longrightarrow> answers ks' ms' \<Longrightarrow> answers (ks @ ks') (ms @ ms')"
  by (simp add: answers_def list_all2_appendI)

lemma answers_ids: "answers ks ms \<Longrightarrow> used_call_ids ms = []"
  unfolding answers_def by (induction ks ms rule: list_all2_induct) (auto simp: used_call_ids_def calls_of_def)

lemma run_calls_answers:
  assumes "run_calls po cd r h ks lo = Inr lo'"
  shows "\<exists>ms. lo_messages lo' = lo_messages lo @ ms \<and> answers ks ms \<and> (\<forall>m \<in> set ms. msg_id m = None)"
  using assms
proof (induction ks arbitrary: lo)
  case (Cons k ks)
  from Cons.prems obtain lo1 where lo1: "run_call po cd r h k lo = Inr lo1" "run_calls po cd r h ks lo1 = Inr lo'"
    by (auto simp: and_then_eq_Inr)
  obtain c where "lo_messages lo1 = lo_messages lo @ [ToolMessage None (Some (tc_name k)) c (tc_id k) True]"
    using run_call_Inr [OF lo1(1)] by metis
  then show ?case using Cons.IH [OF lo1(2)] by (auto simp: answers_def)
qed (simp add: answers_def)

text \<open>Adding them keeps the identifiers distinct.\<close>

definition ids_ok :: "message list \<Rightarrow> bool" where
  "ids_ok ms \<longleftrightarrow> distinct (map msg_id ms) \<and> None \<notin> set (map msg_id ms)"

lemma ids_ok_ids_of: "ids_ok ms \<Longrightarrow> distinct (ids_of ms) \<and> map Some (ids_of ms) = map msg_id ms"
proof -
  assume ok: "ids_ok ms"
  have "None \<notin> set (map msg_id ms) \<Longrightarrow> map Some (ids_of ms) = map msg_id ms"
    by (induction ms) (auto split: option.splits)
  then have "map Some (ids_of ms) = map msg_id ms" using ok by (simp add: ids_ok_def)
  then show ?thesis using ok by (metis distinct_map ids_ok_def)
qed

text \<open>Messages that carry different identifiers pass the reducer unchanged.\<close>

lemma add_messages_ok:
  assumes "fresh_ids po" and "ids_ok (ms @ new)"
  shows "po_add_messages po ms new = ms @ new"
proof -
  have ids: "\<forall>m \<in> set new. msg_id m \<noteq> None" using assms(2) by (force simp: ids_ok_def)
  then have "filter (\<lambda>i. i \<noteq> None) (map msg_id new) = map msg_id new" by (simp add: filter_id_conv)
  then have "appendable ms new" using assms(2) by (auto simp: appendable_def ids_ok_def)
  then obtain ns where ns: "po_add_messages po ms new = ms @ ns" "list_all2 numbered new ns" using added [OF assms(1)] by metis
  have "list_all2 (=) new ns"
    using ns(2) ids by (auto simp: list_all2_conv_all_nth numbered_def)
  then show ?thesis using ns(1) by (simp add: list.rel_eq)
qed

lemma numbered_answers: "answers ks new \<Longrightarrow> list_all2 numbered new ns \<Longrightarrow> answers ks ns"
  unfolding answers_def by (erule list_all2_trans [rotated], assumption) (auto simp: numbered_def split: if_splits)

lemma add_messages_answers:
  assumes "fresh_ids po" and "answers ks new" and "\<forall>m \<in> set new. msg_id m = None" and "ids_ok ms"
  shows "\<exists>ns. po_add_messages po ms new = ms @ ns \<and> answers ks ns \<and> ids_ok (ms @ ns)"
proof -
  have "filter (\<lambda>i. i \<noteq> None) (map msg_id new) = []" using assms(3) by (simp add: filter_empty_conv)
  then have "appendable ms new" using assms(3) by (simp add: appendable_def)
  then obtain ns where ns: "po_add_messages po ms new = ms @ ns" "list_all2 numbered new ns" "distinct (map msg_id ns)"
    "msg_id ` set ns \<inter> msg_id ` set ms = {}" by (rule added [OF assms(1)])
  have "None \<notin> msg_id ` set ns" using ns(2) numbered_id by (fastforce simp: list_all2_conv_all_nth in_set_conv_nth)
  then have "ids_ok (ms @ ns)" using assms(4) ns(3,4) by (auto simp: ids_ok_def)
  moreover have "answers ks ns" using assms(2) ns(2) numbered_answers by blast
  ultimately show ?thesis using ns(1) by blast
qed

text \<open>The invariant of the loop: before the model is asked no call waits, afterwards those of its response.\<close>

definition settled :: "agent_state \<Rightarrow> bool" where
  "settled s \<longleftrightarrow> history_run (ag_messages s) ([], []) = Some ([], used_call_ids (ag_messages s)) \<and> ids_ok (ag_messages s)"

definition asked :: "agent_state \<Rightarrow> bool" where
  "asked s \<longleftrightarrow> (let ks = calls_of (last (ag_messages s)) in
     history_run (ag_messages s) ([], []) = Some (map tc_id ks, used_call_ids (ag_messages s)) \<and>
     distinct (map tc_id ks) \<and> ids_ok (ag_messages s))"

lemma agent_node_asked:
  assumes "fresh_ids po" and "settled s" and "agent_node po cd s = Inr s1"
  shows "asked s1"
proof -
  obtain m m' where m: "valid_response cd (ag_messages s) (ag_tool_calls s < MAX_TOOL_CALLS) m"
    and s1: "s1 = s\<lparr>ag_messages := ag_messages s @ [m'], ag_model_calls := ag_model_calls s + 1\<rparr>"
    and m': "numbered m m'" "msg_id m' \<notin> msg_id ` set (ag_messages s)"
    using assms(3,1) by (rule agent_node_Inr)
  from m obtain i n c ks where mm: "m = AIMessage i n c ks False" by (rule response_calls)
  have ks: "list_all (\<lambda>k. tc_id k \<noteq> [] \<and> tc_id k \<notin> set (used_call_ids (ag_messages s))) ks \<and> distinct (map tc_id ks)"
    using m by (auto simp: valid_response_def mm split: if_splits)
  have "msg_id m' \<noteq> None" using m'(1) by (rule numbered_id)
  then have "ids_ok (ag_messages s1)" using m'(2) assms(2) by (auto simp: settled_def s1 ids_ok_def)
  moreover obtain j where w: "m' = AIMessage j n c ks False" using numbered_AI m'(1) mm by blast
  ultimately show ?thesis
    using ks assms(2) by (simp add: asked_def settled_def s1 w history_run_append used_call_ids_def calls_of_def)
qed

lemma tools_node_settled:
  assumes "fresh_ids po" and "asked s" and "tools_node po cd r s = Inr s2"
  shows "settled s2"
proof -
  let ?ms = "ag_messages s" and ?ks = "calls_of (last (ag_messages s))"
  from assms(3) obtain lo where lo: "run_calls po cd r ?ms ?ks
      \<lparr>lo_state = s, lo_messages = [], lo_searched = False, lo_deferred_offer_id = None\<rparr> = Inr lo"
    and s2: "ag_messages s2 = po_add_messages po ?ms (lo_messages lo)"
    by (auto simp: tools_node_def and_then_eq_Inr Let_def)
  have "answers ?ks (lo_messages lo)" "\<forall>m \<in> set (lo_messages lo). msg_id m = None" using run_calls_answers [OF lo] by auto
  then obtain ns where ns: "ag_messages s2 = ?ms @ ns" "answers ?ks ns" "ids_ok (?ms @ ns)"
    using add_messages_answers [OF assms(1)] assms(2) s2 by (metis asked_def)
  have "history_run ns (map tc_id ?ks, used_call_ids ?ms) = Some ([], used_call_ids ?ms)"
    using answers_run [OF ns(2)] assms(2) by (simp add: asked_def Let_def)
  moreover have "used_call_ids ns = []" using ns(2) by (rule answers_ids)
  ultimately show ?thesis using ns assms(2) by (simp add: settled_def asked_def Let_def history_run_append)
qed

lemma turn_history:
  assumes "fresh_ids po" and "valid_history None [] [] (ti_history r)" and "ids_ok (ti_history r)"
    and "Some (pm_id (ti_current_message r)) \<notin> msg_id ` set (ti_history r)" and "run_planning_agent_turn po cd r = Inr s"
  shows "valid_history None [] [] (ag_messages s)" and "ids_ok (ag_messages s)"
proof -
  obtain u where "history_run (ti_history r) ([], []) = Some ([], u)" using assms(2) valid_history_run by blast
  moreover have ids: "ids_ok (ti_history r @ [HumanMessage (Some (pm_id (ti_current_message r))) None (JStr (pm_text (ti_current_message r)))])"
    using assms(3,4) by (auto simp: ids_ok_def)
  ultimately have "settled (start_state po r)"
    using add_messages_ok [OF assms(1), of "[]"] history_run_seen [of "ti_history r" "[]" "[]"]
    by (simp add: settled_def start_state_def history_run_append used_call_ids_def calls_of_def)
  then have "asked s \<and> calls_of (last (ag_messages s)) = []"
    using agent_node_asked [OF assms(1)] tools_node_settled [OF assms(1)]
    by (rule run_graph_rule [OF assms(5) [unfolded run_planning_agent_turn_def]])
  then show "valid_history None [] [] (ag_messages s)" "ids_ok (ag_messages s)"
    by (auto simp: asked_def valid_history_run)
qed

end
