(* ===== verification/Plan_Workflow.thy ===== *)
theory Plan_Workflow
  imports Plan_Agent_Facts
begin

text \<open>
  The public operations of the planning assistant, \<open>app/ai/features/planning/public_workflow.py\<close>: restore
  the conversation, run a turn or a generation, and return what the screen shows together with the state
  to keep. The models (\<open>sv_invoke\<close> answers a turn, \<open>sv_compose\<close> writes a plan), the search over a club's
  records and the identifiers drawn on the way are parameters.
\<close>

section \<open>Results\<close>

record plan_view =
  vw_reply :: "pystr option"
  vw_draft :: draft
  vw_changed_fields :: "condition_field list"
  vw_record_lookup :: "record_lookup option"
  vw_generation_readiness :: readiness
  vw_generation_result :: "generation_result option"
  vw_preview_is_current :: bool
  vw_history_usage :: "history_usage option"

record public_result =
  pb_request_id :: pystr
  pb_base_revision :: int
  pb_view :: plan_view
  pb_next_state :: resume_state

text \<open>\<open>validate_snapshot\<close>, \<open>validate_usage\<close>, \<open>validate_reasons\<close> and the field types\<close>

definition valid_usage :: "history_usage \<Rightarrow> bool" where
  "valid_usage u \<longleftrightarrow> hu_message_count u \<le> MAX_PLANNING_HISTORY \<and>
     hu_near_limit u = (PLANNING_HISTORY_WARNING_THRESHOLD \<le> hu_message_count u)"

definition valid_result :: "public_result \<Rightarrow> bool" where
  "valid_result res \<longleftrightarrow>
     (let v = pb_view res; p = rs_payload (pb_next_state res) in
      0 \<le> pb_base_revision res \<and> nonblank_opt (vw_reply v) \<and> consistent_readiness (vw_generation_readiness v) \<and>
      vw_draft v = sp_basis_draft p \<and>
      (case vw_history_usage v of None \<Rightarrow> True | Some u \<Rightarrow> valid_usage u \<and> hu_message_count u = length (sp_history p)))"

definition planning_generation_readiness :: "draft \<Rightarrow> resume_state option \<Rightarrow> turn_error + readiness" where
  "planning_generation_readiness dr st =
     (if (case st of None \<Rightarrow> False | Some s \<Rightarrow> dr \<noteq> sp_basis_draft (rs_payload s)) then Inl (StateError Draft_mismatch)
      else let blocks = generation_blocks dr (stored_generation st) False
           in Inr \<lparr>rd_can_generate = (blocks = []), rd_reasons = blocks\<rparr>)"

definition build_result ::
  "request_context \<Rightarrow> resume_state \<Rightarrow> pystr option \<Rightarrow> record_lookup option \<Rightarrow> generation_result option
     \<Rightarrow> turn_error + public_result" where
  "build_result q st reply lookup gen =
     (let dr = sp_basis_draft (rs_payload st); g = sp_generation (rs_payload st) in
      and_then (planning_generation_readiness dr (Some st)) (\<lambda>rd.
        let res = \<lparr>pb_request_id = cx_request_id q, pb_base_revision = cx_base_revision q,
                   pb_view = \<lparr>vw_reply = reply, vw_draft = dr,
                      vw_changed_fields = filter (\<lambda>f. condition_of (dr_conditions (cx_draft q)) f \<noteq> condition_of (dr_conditions dr) f)
                        condition_fields,
                      vw_record_lookup = lookup, vw_generation_readiness = rd, vw_generation_result = gen,
                      vw_preview_is_current = preview_is_current g dr,
                      vw_history_usage = Some (usage_of (length (sp_history (rs_payload st))))\<rparr>,
                   pb_next_state = st\<rparr>
        in if valid_result res then Inr res else Inl ContractError))"

section \<open>Operations\<close>

record services =
  sv_invoke :: "agent_state \<Rightarrow> bool \<Rightarrow> ai_exn + message"
  sv_records :: "(ident \<Rightarrow> pystr \<Rightarrow> event_type option \<Rightarrow> date option \<Rightarrow> date \<Rightarrow> ai_exn + search_result) option"
  sv_compose :: "generation_input \<Rightarrow> ai_exn + composition"
  sv_zone :: "pystr \<Rightarrow> instant \<Rightarrow> date"
  sv_preview_id :: "generation_input \<Rightarrow> pystr"
  sv_offer_id :: "nat \<Rightarrow> pystr"
  sv_add_messages :: "message list \<Rightarrow> message list \<Rightarrow> message list"

definition plan_generator :: "services \<Rightarrow> generation_input \<Rightarrow> ai_exn + generation_result" where
  "plan_generator sv gi = run_plan_generation (sv_preview_id sv gi) (sv_zone sv) (sv_compose sv) gi"

text \<open>The search is bound to the club of the request.\<close>

definition ports_of :: "services \<Rightarrow> ident \<Rightarrow> ports" where
  "ports_of sv club =
     \<lparr>po_invoke = sv_invoke sv, po_search = map_option (\<lambda>port. search_past_events (port club)) (sv_records sv),
      po_generate = Some (plan_generator sv), po_offer_id = sv_offer_id sv, po_add_messages = sv_add_messages sv\<rparr>"

text \<open>\<open>to_agent_input\<close>, with the validators of \<open>PlanningAgentTurnInput\<close>\<close>

definition to_agent_input :: "request_context \<Rightarrow> pystr \<Rightarrow> pystr \<Rightarrow> turn_error + turn_input" where
  "to_agent_input q mid content =
     and_then (restore_history (cx_resume_state q)) (\<lambda>history.
       if length history \<le> MAX_PLANNING_HISTORY \<and> valid_history (Some mid) [] [] history
       then Inr \<lparr>ti_draft = cx_draft q, ti_current_message = \<lparr>pm_id = mid, pm_role = Speaker_user, pm_text = content\<rparr>,
                 ti_history = history, ti_reference_date = cx_reference_date q, ti_timezone = cx_timezone q,
                 ti_generation = stored_generation (cx_resume_state q)\<rparr>
       else Inl ContractError)"

definition chat_planning :: "services \<Rightarrow> codec \<Rightarrow> request_context \<Rightarrow> pystr \<Rightarrow> pystr \<Rightarrow> turn_error + public_result" where
  "chat_planning sv cd q mid content =
     and_then (validate_chat q mid content) (\<lambda>_.
     and_then (to_agent_input q mid content) (\<lambda>r.
     and_then (run_planning_agent_turn (ports_of sv (cx_club_id q)) cd r) (\<lambda>s.
       let reply = final_answer_text cd (msg_content (last (ag_messages s))) in
       if \<not> nonblank_str reply then Inl ContractError
       else and_then (capture_turn_state q (ag_draft s) (ag_messages s) (ag_generation s)) (\<lambda>st.
         build_result q st (Some reply) (ag_record_lookup s) (ag_generation_result s)))))"

definition generate_planning_preview :: "services \<Rightarrow> codec \<Rightarrow> request_context \<Rightarrow> bool \<Rightarrow> turn_error + public_result" where
  "generate_planning_preview sv cd q use_current =
     and_then (validate_resume q) (\<lambda>_.
     and_then (restore_history (cx_resume_state q)) (\<lambda>history.
       case run_button_plan_generation (plan_generator sv)
         \<lparr>br_request_id = cx_request_id q, br_draft = cx_draft q, br_generation = stored_generation (cx_resume_state q),
          br_messages = plan_messages cd history, br_reference_date = cx_reference_date q, br_timezone = cx_timezone q,
          br_reference_facts = latest_reference_facts cd history, br_use_current_conditions = use_current\<rparr> of
         Inl e \<Rightarrow> Inl (AIFailure e)
       | Inr (g, res) \<Rightarrow>
           let p = \<lparr>sp_basis_draft = cx_draft q, sp_history = stored_history (cx_resume_state q), sp_generation = g\<rparr> in
           if \<not> valid_payload p then Inl ContractError
           else build_result q \<lparr>rs_club_id = cx_club_id q, rs_event_id = cx_event_id q,
                                rs_conversation_id = cx_conversation_id q, rs_payload = p\<rparr> None None (Some res)))"

section \<open>A stored state can be restored\<close>

text \<open>What a conversation keeps: a payload that validates and messages that all have an identifier.\<close>

definition resumable :: "resume_state option \<Rightarrow> bool" where
  "resumable st \<longleftrightarrow> (case st of None \<Rightarrow> True | Some s \<Rightarrow> valid_payload (rs_payload s) \<and> list_all (\<lambda>m. sm_id m \<noteq> None) (stored_history st))"

lemma store_restore: "valid_stored m \<Longrightarrow> store_message (restore_message m) = m"
  by (cases "sm_role m"; cases m) (auto simp: valid_stored_def restore_message_def split: if_splits)

lemma restore_message_id [simp]: "msg_id (restore_message m) = sm_id m"
  by (simp add: restore_message_def split: stored_role.split)

lemma restored_plain:
  assumes "valid_stored m"
  shows "(\<forall>i n c. restore_message m \<noteq> SystemMessage i n c) \<and> (\<forall>i n c ks. restore_message m \<noteq> AIMessage i n c ks True)"
    and "restore_message m = AIMessage i n c ks v \<Longrightarrow> k \<in> set ks \<Longrightarrow> tc_id k \<noteq> []"
  using assms by (auto simp: valid_stored_def restore_message_def nonblank_str_def list_all_iff split: stored_role.splits)

lemma valid_pairs_ids: "valid_pairs waiting seen ids ms \<Longrightarrow> distinct (List.map_filter sm_id ms) \<and> set ids \<inter> set (List.map_filter sm_id ms) = {}"
proof (induction ms arbitrary: waiting seen ids)
  case (Cons m ms)
  then obtain w s where "valid_pairs w s (case sm_id m of None \<Rightarrow> ids | Some i \<Rightarrow> ids @ [i]) ms"
    by (auto simp: Let_def split: if_splits option.splits)
  from Cons.IH [OF this] Cons.prems show ?case by (auto simp: map_filter_simps split: option.splits)
qed (simp add: map_filter_simps)

lemma payload_history:
  assumes "list_all valid_stored hs" and "valid_pairs [] [] [] hs" and "list_all (\<lambda>m. sm_id m \<noteq> None) hs"
  shows "valid_history None [] [] (map restore_message hs)" and "ids_ok (map restore_message hs)"
proof -
  let ?ms = "map restore_message hs"
  have again: "map store_message ?ms = hs" using assms(1) by (auto simp: list_all_iff intro!: map_idI store_restore)
  have ids: "ids_of ?ms = List.map_filter sm_id hs" by (simp add: ids_of_def List.map_filter_def filter_map comp_def)
  have dist: "distinct ([] @ ids_of ?ms)" using valid_pairs_ids [OF assms(2)] ids by simp
  show "valid_history None [] [] ?ms"
  proof (subst valid_pairs_iff [OF _ _ dist, symmetric])
    show "\<forall>m\<in>set ?ms. (\<forall>i n c. m \<noteq> SystemMessage i n c) \<and> (\<forall>i n c ks. m \<noteq> AIMessage i n c ks True)"
      using restored_plain(1) assms(1) by (auto simp: list_all_iff)
    show "\<forall>m\<in>set ?ms. \<forall>i n c ks v. m = AIMessage i n c ks v \<longrightarrow> (\<forall>k\<in>set ks. tc_id k \<noteq> [])"
    proof (intro ballI allI impI)
      fix m i n c ks v k assume "m \<in> set ?ms" and m: "m = AIMessage i n c ks v" and k: "k \<in> set ks"
      then obtain h where "valid_stored h" "restore_message h = AIMessage i n c ks v" using assms(1) by (auto simp: list_all_iff)
      then show "tc_id k \<noteq> []" using k by (rule restored_plain(2))
    qed
  qed (use assms(2) again in simp)
  have "map Some (List.map_filter sm_id hs) = map sm_id hs"
    using assms(3) by (induction hs) (auto simp: map_filter_simps)
  then have "distinct (map sm_id hs)" using valid_pairs_ids [OF assms(2)] by (metis distinct_map inj_Some subset_UNIV inj_on_subset)
  then show "ids_ok ?ms" using assms(3) by (auto simp: ids_ok_def comp_def list_all_iff)
qed

lemma restore_resumable:
  assumes "resumable st"
  shows "\<exists>ms. restore_history st = Inr ms \<and> valid_history None [] [] ms \<and> ids_ok ms \<and> length ms \<le> MAX_PLANNING_HISTORY \<and>
    map msg_id ms = map sm_id (stored_history st)"
proof (cases st)
  case None
  then show ?thesis by (simp add: restore_history_def stored_history_def ids_ok_def)
next
  case (Some s)
  then have "list_all valid_stored (stored_history st)" "valid_pairs [] [] [] (stored_history st)"
    "list_all (\<lambda>m. sm_id m \<noteq> None) (stored_history st)" "length (stored_history st) \<le> MAX_PLANNING_HISTORY"
    using assms by (simp_all add: resumable_def valid_payload_def stored_history_def)
  with payload_history show ?thesis by (simp add: restore_history_def Let_def comp_def)
qed

section \<open>What a turn can end with\<close>

definition drawn_ids :: "services \<Rightarrow> bool" where
  "drawn_ids sv \<longleftrightarrow> (\<forall>club. fresh_ids (ports_of sv club))"

lemma capture_not_history:
  assumes "valid_history None [] [] ms"
  shows "capture_turn_state q dr ms g \<noteq> Inl HistoryError \<and> capture_turn_state q dr ms g \<noteq> Inl GraphRecursion"
  using assms by (simp add: capture_turn_state_def Let_def)

lemma build_result_total:
  assumes "length (sp_history (rs_payload st)) \<le> MAX_PLANNING_HISTORY" and "nonblank_opt reply" and "0 \<le> cx_base_revision q"
  shows "\<exists>res. build_result q st reply lookup gen = Inr res \<and> pb_next_state res = st \<and> valid_result res \<and>
    pb_base_revision res = cx_base_revision q \<and> vw_draft (pb_view res) = sp_basis_draft (rs_payload st) \<and>
    vw_generation_result (pb_view res) = gen \<and> vw_reply (pb_view res) = reply"
  using assms readiness_consistent
  by (simp add: build_result_def planning_generation_readiness_def Let_def valid_result_def usage_of_def valid_usage_def)

lemma to_agent_input_Inr:
  assumes "resumable (cx_resume_state q)" and "validate_chat q mid content = Inr ()"
  shows "\<exists>r. to_agent_input q mid content = Inr r \<and> valid_history None [] [] (ti_history r) \<and> ids_ok (ti_history r) \<and>
    Some (pm_id (ti_current_message r)) \<notin> msg_id ` set (ti_history r) \<and> ti_draft r = cx_draft q \<and>
    ti_generation r = stored_generation (cx_resume_state q)"
proof -
  obtain ms where ms: "restore_history (cx_resume_state q) = Inr ms" "valid_history None [] [] ms" "ids_ok ms"
    "length ms \<le> MAX_PLANNING_HISTORY" "map msg_id ms = map sm_id (stored_history (cx_resume_state q))"
    using restore_resumable [OF assms(1)] by auto
  have "Some mid \<notin> sm_id ` set (stored_history (cx_resume_state q))"
    using assms(2) by (auto simp: validate_chat_def and_then_eq_Inr list_ex_iff split: if_splits)
  then have new: "Some mid \<notin> msg_id ` set ms" using ms(5) by (metis list.set_map)
  then have "valid_history (Some mid) [] [] ms" using valid_history_current [OF ms(2), of mid] by force
  then show ?thesis using ms new by (simp add: to_agent_input_def)
qed

lemma validated_draft:
  assumes "resumable (cx_resume_state q)" and "validate_resume q = Inr ()" and "valid_draft (cx_draft q)"
  shows "consistent_generation_state (stored_generation (cx_resume_state q))"
  using assms
  by (auto simp: resumable_def stored_generation_def valid_payload_def consistent_generation_state_def no_generation_def split: option.splits)

text \<open>
  A chat ends with a state the next request can be built on, or with an error of the state, the contract
  or the model; it neither runs into the recursion limit nor leaves a history that does not validate.
\<close>

lemma chat_planning_Inr:
  assumes "drawn_ids sv" and "resumable (cx_resume_state q)" and "chat_planning sv cd q mid content = Inr res"
  shows "resumable (Some (pb_next_state res))" and "rs_club_id (pb_next_state res) = cx_club_id q"
    "rs_event_id (pb_next_state res) = cx_event_id q" "rs_conversation_id (pb_next_state res) = cx_conversation_id q"
    and "valid_result res" "pb_base_revision res = cx_base_revision q"
proof -
  have v: "validate_chat q mid content = Inr ()" using assms(3) by (auto simp: chat_planning_def and_then_eq_Inr)
  obtain r where r: "to_agent_input q mid content = Inr r" "valid_history None [] [] (ti_history r)" "ids_ok (ti_history r)"
    "Some (pm_id (ti_current_message r)) \<notin> msg_id ` set (ti_history r)"
    using to_agent_input_Inr [OF assms(2) v] by auto
  from assms(3) v r(1) obtain s st where s: "run_planning_agent_turn (ports_of sv (cx_club_id q)) cd r = Inr s"
    and st: "capture_turn_state q (ag_draft s) (ag_messages s) (ag_generation s) = Inr st"
    and res: "build_result q st (Some (final_answer_text cd (msg_content (last (ag_messages s))))) (ag_record_lookup s) (ag_generation_result s) = Inr res"
    by (auto simp: chat_planning_def and_then_eq_Inr Let_def split: if_splits)
  have fresh: "fresh_ids (ports_of sv (cx_club_id q))" using assms(1) by (simp add: drawn_ids_def)
  have ids: "ids_ok (ag_messages s)" by (rule turn_history(2) [OF fresh r(2-4) s])
  have result: "pb_next_state res = st" "valid_result res" "pb_base_revision res = cx_base_revision q"
    using res by (auto simp: build_result_def Let_def and_then_eq_Inr split: if_splits)
  have "list_all (\<lambda>m. sm_id m \<noteq> None) (map store_message (ag_messages s))"
    using ids by (force simp: ids_ok_def list_all_iff)
  then show "resumable (Some (pb_next_state res))"
    using capture_Inr [OF st] result by (simp add: resumable_def stored_history_def)
  show "rs_club_id (pb_next_state res) = cx_club_id q"
    "rs_event_id (pb_next_state res) = cx_event_id q" "rs_conversation_id (pb_next_state res) = cx_conversation_id q"
    using capture_Inr [OF st] result by simp_all
  show "valid_result res" "pb_base_revision res = cx_base_revision q" by (rule result)+
qed

lemma chat_planning_errors:
  assumes "drawn_ids sv" and "resumable (cx_resume_state q)"
  shows "chat_planning sv cd q mid content \<noteq> Inl HistoryError \<and> chat_planning sv cd q mid content \<noteq> Inl GraphRecursion"
proof (cases "validate_chat q mid content")
  case (Inl e)
  then have "e \<noteq> HistoryError \<and> e \<noteq> GraphRecursion"
    by (auto simp: validate_chat_def validate_resume_def and_then_def split: option.splits if_splits sum.splits)
  then show ?thesis using Inl by (simp add: chat_planning_def)
next
  case (Inr u)
  then obtain r where r: "to_agent_input q mid content = Inr r" "valid_history None [] [] (ti_history r)" "ids_ok (ti_history r)"
    "Some (pm_id (ti_current_message r)) \<notin> msg_id ` set (ti_history r)"
    using to_agent_input_Inr [OF assms(2), of mid content] by auto
  have fresh: "fresh_ids (ports_of sv (cx_club_id q))" using assms(1) by (simp add: drawn_ids_def)
  show ?thesis
  proof (cases "run_planning_agent_turn (ports_of sv (cx_club_id q)) cd r")
    case (Inl e)
    then have "e \<noteq> HistoryError \<and> e \<noteq> GraphRecursion"
      using turn_ends(1) [OF fresh, of cd r] run_graph_errors [OF Inl [unfolded run_planning_agent_turn_def]] by auto
    then show ?thesis using Inl Inr r(1) by (simp add: chat_planning_def)
  next
    case turn: (Inr s)
    note capture_not_history [OF turn_history(1) [OF fresh r(2-4) turn], of q "ag_draft s" "ag_generation s"]
    moreover have "build_result q st x y z \<noteq> Inl HistoryError \<and> build_result q st x y z \<noteq> Inl GraphRecursion" for st x y z
      by (simp add: build_result_def planning_generation_readiness_def Let_def)
    ultimately show ?thesis using turn Inr r(1)
      by (auto simp: chat_planning_def Let_def and_then_def split: sum.split)
  qed
qed

text \<open>The button keeps the history; with a draft that validates it only fails when the model does.\<close>

lemma generate_preview_Inr:
  assumes "resumable (cx_resume_state q)" and "valid_draft (cx_draft q)" and "0 \<le> cx_base_revision q"
    and "validate_resume q = Inr ()"
  shows "(\<exists>e. generate_planning_preview sv cd q u = Inl (AIFailure e)) \<or>
    (\<exists>res. generate_planning_preview sv cd q u = Inr res \<and> resumable (Some (pb_next_state res)) \<and> valid_result res \<and>
       sp_history (rs_payload (pb_next_state res)) = stored_history (cx_resume_state q) \<and> vw_draft (pb_view res) = cx_draft q)"
proof -
  obtain ms where ms: "restore_history (cx_resume_state q) = Inr ms" using restore_resumable [OF assms(1)] by auto
  let ?b = "\<lparr>br_request_id = cx_request_id q, br_draft = cx_draft q, br_generation = stored_generation (cx_resume_state q),
          br_messages = plan_messages cd ms, br_reference_date = cx_reference_date q, br_timezone = cx_timezone q,
          br_reference_facts = latest_reference_facts cd ms, br_use_current_conditions = u\<rparr>"
  show ?thesis
  proof (cases "run_button_plan_generation (plan_generator sv) ?b")
    case (Inl e)
    then show ?thesis using assms(4) ms by (simp add: generate_planning_preview_def)
  next
    case (Inr gr)
    obtain g gres where gr: "gr = (g, gres)" by (cases gr)
    have "consistent_generation_state g"
      using Inr generation_consistent validated_draft [OF assms(1,4,2)] unfolding gr run_button_plan_generation_def by fastforce
    moreover have "length (stored_history (cx_resume_state q)) \<le> MAX_PLANNING_HISTORY \<and> list_all valid_stored (stored_history (cx_resume_state q)) \<and>
        valid_pairs [] [] [] (stored_history (cx_resume_state q)) \<and> list_all (\<lambda>m. sm_id m \<noteq> None) (stored_history (cx_resume_state q))"
      using assms(1) by (auto simp: resumable_def stored_history_def valid_payload_def split: option.splits)
    moreover define st where "st = \<lparr>rs_club_id = cx_club_id q, rs_event_id = cx_event_id q, rs_conversation_id = cx_conversation_id q,
       rs_payload = \<lparr>sp_basis_draft = cx_draft q, sp_history = stored_history (cx_resume_state q), sp_generation = g\<rparr>\<rparr>"
    ultimately have st: "valid_payload (rs_payload st)" "resumable (Some st)" "length (sp_history (rs_payload st)) \<le> MAX_PLANNING_HISTORY"
      using assms(2) by (simp_all add: valid_payload_def resumable_def stored_history_def)
    have "generate_planning_preview sv cd q u = build_result q st None None (Some gres)"
      using assms(4) ms Inr st(1) by (simp add: generate_planning_preview_def gr st_def Let_def)
    then show ?thesis
      using build_result_total [OF st(3) _ assms(3), of None None "Some gres"] st(2) by (auto simp: nonblank_opt_def st_def)
  qed
qed

end
