(* ===== verification/Plan_Turn.thy ===== *)
theory Plan_Turn
  imports Event_Service Idempotency Plan_Workflow
begin

text \<open>
  Turns of a planning conversation, \<open>app/services/planning_service.py\<close>. A turn resolves its
  idempotency key, reads the conversation in a first transaction, calls the assistant without holding
  one, and saves the result in a last transaction that checks the revision again. The serialised form of
  the kept state and of a record lookup, the digest of a request body and the texts of refusals are
  parameters. A database exception rolls the transaction back and is unhandled.
\<close>

section \<open>State\<close>

text \<open>\<open>Message\<close> of \<open>models/chat.py\<close>\<close>

record chat_row =
  ms_id :: ident
  ms_conversation_id :: "ident option"
  ms_step_id :: "ident option"
  ms_action_id :: "ident option"
  ms_seq :: "int option"
  ms_role :: message_role
  ms_content :: pystr

record plan_db =
  pd_db :: db
  pd_messages :: "chat_row list"
  pd_keys :: "idempotency_key list"

record plan_json =
  pj_state :: "resume_state \<Rightarrow> json"
  pj_validate :: "json \<Rightarrow> resume_state option"
  pj_lookup :: "record_lookup \<Rightarrow> json"
  pj_reason :: "reason \<Rightarrow> pystr"
  pj_digest :: "dict \<Rightarrow> string"

text \<open>
  \<open>parse_resume_state\<close> of \<open>state_codec.py\<close>: the version is checked before the structure, which is what
  \<open>model_validate\<close> of the contract accepts.
\<close>

definition parse_resume_state :: "plan_json \<Rightarrow> json \<Rightarrow> state_error + resume_state" where
  "parse_resume_state pj v =
     (case json_get ''schema_version'' v of
        None \<Rightarrow> Inl Invalid_state
      | Some n \<Rightarrow>
          if n \<noteq> JInt 1 then Inl Unsupported_version
          else (case pj_validate pj v of None \<Rightarrow> Inl Invalid_state | Some st \<Rightarrow> Inr st))"

section \<open>Events\<close>

text \<open>\<open>_default_title\<close>: the words for a new event, the month and the day in Seoul.\<close>

definition default_title :: "instant \<Rightarrow> pystr" where
  "default_title now =
     (case ord2ymd (today_kst now) of
        (y, m, dd) \<Rightarrow> [49352, 32, 54665, 49324, 32, 183, 32] @ int_text m @ [50900, 32] @ int_text dd @ [51068])"

definition get_event :: "ident \<Rightarrow> ident \<Rightarrow> db \<Rightarrow> api_error + event" where
  "get_event club eid d =
     (case find_event d eid of
        None \<Rightarrow> Inl EventNotFound
      | Some e \<Rightarrow> if ev_club_id e \<noteq> club then Inl EventNotFound else Inr e)"

definition create_event :: "rnd \<Rightarrow> instant \<Rightarrow> ident \<Rightarrow> pystr option \<Rightarrow> db \<Rightarrow> api_error + (event \<times> db)" where
  "create_event g now club title d =
     (let t = (case title of None \<Rightarrow> default_title now | Some s \<Rightarrow> if s = [] then default_title now else s);
          e = \<lparr>ev_id = new_id g d ''evt'', ev_club_id = club, ev_title = t, ev_status = PLANNING, ev_event_type = None,
               ev_location = None, ev_start_date = None, ev_end_date = None, ev_expected_headcount = None,
               ev_budget_total = None, ev_fee_per_person = None, ev_plan_warnings = None, ev_plan_excluded_steps = None,
               ev_saved_at = None, ev_plan_revision = 0, ev_created_at = now, ev_modified_at = now\<rparr>
      in if \<not> fits_varchar 100 (Some t) then Inl (Unhandled ''DataError'')
         else and_then (insert_row ev_id e (events d)) (\<lambda>rows. Inr (e, drawn (d\<lparr>events := rows\<rparr>))))"

definition list_drafts :: "ident \<Rightarrow> db \<Rightarrow> event list" where
  "list_drafts club d =
     sort_key (\<lambda>e. - ev_created_at e) (filter (\<lambda>e. ev_club_id e = club \<and> ev_status e = PLANNING) (events d))"

text \<open>\<open>_get_or_create_conversation\<close>\<close>

definition get_or_create_conversation ::
  "rnd \<Rightarrow> instant \<Rightarrow> ident \<Rightarrow> ident \<Rightarrow> db \<Rightarrow> api_error + (conversation \<times> db)" where
  "get_or_create_conversation g now eid mid d =
     (case latest_conversation d eid of
        Some c \<Rightarrow> Inr (c, d)
      | None \<Rightarrow> (let c = new_conversation g now mid eid 0 d in and_then (add_conversation c d) (\<lambda>d'. Inr (c, d'))))"

definition conversation_state :: "plan_json \<Rightarrow> conversation \<Rightarrow> state_error + resume_state option" where
  "conversation_state pj c =
     (case cv_resume_state c of
        None \<Rightarrow> Inr None
      | Some v \<Rightarrow> (case parse_resume_state pj v of Inl e \<Rightarrow> Inl e | Inr st \<Rightarrow> Inr (Some st)))"

definition basis_draft :: "resume_state option \<Rightarrow> draft" where
  "basis_draft st = (case st of None \<Rightarrow> empty_draft | Some s \<Rightarrow> sp_basis_draft (rs_payload s))"

section \<open>Responses\<close>

definition or_null :: "('a \<Rightarrow> json) \<Rightarrow> 'a option \<Rightarrow> json" where
  "or_null f v = (case v of None \<Rightarrow> JNull | Some x \<Rightarrow> f x)"

fun event_type_value :: "event_type \<Rightarrow> string" where
  "event_type_value Type_MT = ''MT''"
| "event_type_value Type_WELCOME = ''WELCOME''"
| "event_type_value Type_PICNIC = ''PICNIC''"
| "event_type_value Type_ACADEMIC = ''ACADEMIC''"
| "event_type_value Type_WORKSHOP = ''WORKSHOP''"
| "event_type_value Type_ETC = ''ETC''"

definition meta_out :: "condition_meta \<Rightarrow> json" where
  "meta_out m =
     JObj [(''status'', JStr (case cm_status m of Tentative \<Rightarrow> lit ''tentative'' | Specified \<Rightarrow> lit ''specified'')),
           (''evidence_message_id'', JStr (evi_message_id (cm_evidence m))),
           (''evidence_quote'', JStr (evi_quote (cm_evidence m)))]"

definition draft_out :: "draft \<Rightarrow> json" where
  "draft_out dr =
     (let c = dr_conditions dr in
      JObj [(''conditions'', JObj [(''title'', or_null JStr (pc_title c)),
               (''event_type'', or_null (\<lambda>t. JStr (lit (event_type_value t))) (pc_event_type c)),
               (''headcount'', or_null JInt (pc_headcount c)), (''fee_per_person'', or_null JInt (pc_fee_per_person c)),
               (''start_date'', or_null (\<lambda>x. JStr (iso_date x)) (pc_start_date c)),
               (''end_date'', or_null (\<lambda>x. JStr (iso_date x)) (pc_end_date c)),
               (''location'', or_null JStr (pc_location c)), (''budget_total'', or_null JInt (pc_budget_total c))]),
            (''condition_meta'', JObj (List.map_filter
               (\<lambda>f. map_option (\<lambda>m. (field_name f, meta_out m)) (dr_condition_meta dr f)) condition_fields)),
            (''deferred_topics'', JList (map (\<lambda>t. JStr (lit (topic_name t))) (dr_deferred_topics dr)))])"

fun block_name :: "generation_block \<Rightarrow> string" where
  "block_name Block_event_type_missing = ''event_type_missing''"
| "block_name Block_dates_unanswered = ''dates_unanswered''"
| "block_name Block_headcount_unanswered = ''headcount_unanswered''"
| "block_name Block_location_unanswered = ''location_unanswered''"
| "block_name Block_condition_change_pending = ''condition_change_pending''"

definition readiness_out :: "readiness \<Rightarrow> json" where
  "readiness_out rd =
     JObj [(''can_generate'', JBool (rd_can_generate rd)), (''reasons'', JList (map (\<lambda>b. JStr (lit (block_name b))) (rd_reasons rd)))]"

fun generation_status_name :: "generation_status \<Rightarrow> string" where
  "generation_status_name Gen_generated = ''generated''"
| "generation_status_name Gen_needs_clarification = ''needs_clarification''"
| "generation_status_name Gen_failed = ''failed''"

definition history_usage_out :: "history_usage option \<Rightarrow> json" where
  "history_usage_out u =
     or_null (\<lambda>x. JObj [(''message_count'', JInt (int (hu_message_count x))), (''max_messages'', JInt (int MAX_PLANNING_HISTORY)),
                        (''near_limit'', JBool (hu_near_limit x))]) u"

definition view_out :: "plan_json \<Rightarrow> public_result \<Rightarrow> int \<Rightarrow> dict" where
  "view_out pj res revision =
     (let v = pb_view res in
      [(''reply'', or_null JStr (vw_reply v)), (''draft'', draft_out (vw_draft v)),
       (''changed_fields'', JList (map (\<lambda>f. JStr (lit (field_name f))) (vw_changed_fields v))),
       (''record_lookup'', or_null (pj_lookup pj) (vw_record_lookup v)),
       (''generation_readiness'', readiness_out (vw_generation_readiness v)),
       (''generation_result'', or_null (\<lambda>r. JObj [(''status'', JStr (lit (generation_status_name (gr_status r)))),
                                                  (''reason'', or_null (\<lambda>x. JStr (pj_reason pj x)) (gr_reason r))])
                                 (vw_generation_result v)),
       (''history_usage'', history_usage_out (vw_history_usage v)), (''base_revision'', JInt revision)])"

text \<open>\<open>_record_lookup_history\<close>\<close>

definition lookup_entry :: "int \<Rightarrow> json \<Rightarrow> json" where
  "lookup_entry revision v = JObj [(''revision'', JInt revision), (''lookup'', v)]"

definition record_lookup_history :: "conversation \<Rightarrow> json list" where
  "record_lookup_history c =
     (case cv_record_lookup_history c of
        Some (JList (x # xs)) \<Rightarrow> x # xs
      | _ \<Rightarrow> (case cv_last_record_lookup c of None \<Rightarrow> [] | Some v \<Rightarrow> [lookup_entry 0 v]))"

section \<open>Saving a turn\<close>

text \<open>One action and one step of a preview as rows; the defaults of the columns are those of a new action.\<close>

definition preview_action :: "rnd \<Rightarrow> instant \<Rightarrow> ident \<Rightarrow> ident \<Rightarrow> plan_action \<Rightarrow> db \<Rightarrow> action" where
  "preview_action g now eid sid a d = (new_action g now eid sid (pa_title a) (pa_type a) d)\<lparr>ac_due_date := pa_due_date a\<rparr>"

fun insert_preview_actions ::
  "rnd \<Rightarrow> instant \<Rightarrow> ident \<Rightarrow> ident \<Rightarrow> plan_action list \<Rightarrow> db \<Rightarrow> api_error + db" where
  "insert_preview_actions g now eid sid [] d = Inr d"
| "insert_preview_actions g now eid sid (a # as) d =
     (if \<not> fits_varchar 200 (Some (pa_title a)) then Inl (Unhandled ''DataError'')
      else and_then (insert_row ac_id (preview_action g now eid sid a d) (actions d)) (\<lambda>rows.
        insert_preview_actions g now eid sid as (drawn (d\<lparr>actions := rows\<rparr>))))"

definition preview_row :: "rnd \<Rightarrow> ident \<Rightarrow> int \<Rightarrow> preview_step \<Rightarrow> db \<Rightarrow> step" where
  "preview_row g eid order s d =
     \<lparr>st_id = new_id g d ''stp'', st_event_id = eid, st_step_order = order, st_phase = ps_phase s, st_code = ps_code s,
      st_name = ps_name s, st_actor = ps_actor s, st_starts_at = ps_starts_at s, st_deadline = ps_deadline s,
      st_completed_at = None, st_completed_by = None, st_version = 1\<rparr>"

fun insert_preview_steps :: "rnd \<Rightarrow> instant \<Rightarrow> ident \<Rightarrow> int \<Rightarrow> preview_step list \<Rightarrow> db \<Rightarrow> api_error + db" where
  "insert_preview_steps g now eid order [] d = Inr d"
| "insert_preview_steps g now eid order (s # ss) d =
     (let row = preview_row g eid order s d in
      if \<not> fits_varchar 100 (Some (ps_name s)) then Inl (Unhandled ''DataError'')
      else and_then (insert_row st_id row (steps d)) (\<lambda>rows.
           and_then (insert_preview_actions g now eid (st_id row) (ps_plan_actions s) (drawn (d\<lparr>steps := rows\<rparr>))) (\<lambda>d'.
             insert_preview_steps g now eid (order + 1) ss d')))"

text \<open>
  The deletes at the start of \<open>_materialize_preview\<close>. Ledger entries lose the link to a deleted action
  (\<open>SET NULL\<close>), messages about a deleted step or action go with it (\<open>CASCADE\<close>).
\<close>

definition clear_plan :: "ident \<Rightarrow> plan_db \<Rightarrow> plan_db" where
  "clear_plan eid pd =
     (let d = pd_db pd;
          gone_steps = map st_id (filter (\<lambda>s. st_event_id s = eid) (steps d));
          gone = (\<lambda>a. ac_event_id a = eid \<or> ac_step_id a \<in> Some ` set gone_steps);
          gone_actions = map ac_id (filter gone (actions d))
      in pd\<lparr>pd_db := d\<lparr>actions := filter (\<lambda>a. \<not> gone a) (actions d),
                       steps := filter (\<lambda>s. st_event_id s \<noteq> eid) (steps d),
                       expenses := map (\<lambda>x. if ex_action_id x \<in> Some ` set gone_actions then x\<lparr>ex_action_id := None\<rparr> else x)
                                       (expenses d)\<rparr>,
            pd_messages := filter (\<lambda>m. ms_step_id m \<notin> Some ` set gone_steps \<and> ms_action_id m \<notin> Some ` set gone_actions)
                                  (pd_messages pd)\<rparr>)"

definition described :: "instant \<Rightarrow> plan_preview \<Rightarrow> event \<Rightarrow> event" where
  "described now p e =
     touch now (e\<lparr>ev_plan_warnings := Some (JList (map (\<lambda>w. JObj [(''message'', JStr w)]) (pv_warnings p))),
                  ev_plan_excluded_steps := Some (map (\<lambda>x. (step_code_value (xp_code x),
                                                             Some (xp_reason x))) (pv_excluded_steps p)),
                  ev_saved_at := Some now\<rparr>)"

text \<open>\<open>_materialize_preview\<close>\<close>

definition materialize_preview :: "rnd \<Rightarrow> instant \<Rightarrow> event \<Rightarrow> plan_preview \<Rightarrow> plan_db \<Rightarrow> api_error + plan_db" where
  "materialize_preview g now e p pd =
     (let pd1 = clear_plan (ev_id e) pd in
      and_then (insert_preview_steps g now (ev_id e) 1 (pv_steps p) (pd_db pd1)) (\<lambda>d2.
        let d3 = bump_plan_revision now (ev_id e) (put_event (described now p e) d2)
        in Inr (pd1\<lparr>pd_db := (if ev_status e = PLANNING then reset_baseline (ev_id e) (ev_plan_revision e + 1) d3 else d3)\<rparr>)))"

definition with_conditions :: "conditions \<Rightarrow> event \<Rightarrow> event" where
  "with_conditions c e =
     e\<lparr>ev_title := (case pc_title c of Some (x # xs) \<Rightarrow> x # xs | _ \<Rightarrow> ev_title e), ev_event_type := pc_event_type c,
       ev_location := pc_location c, ev_start_date := pc_start_date c, ev_end_date := pc_end_date c,
       ev_expected_headcount := pc_headcount c, ev_budget_total := pc_budget_total c, ev_fee_per_person := pc_fee_per_person c\<rparr>"

definition storable_event :: "event \<Rightarrow> bool" where
  "storable_event e \<longleftrightarrow> fits_varchar 100 (Some (ev_title e)) \<and> fits_varchar 200 (ev_location e) \<and>
     fits_int4 (ev_expected_headcount e) \<and> fits_int4 (ev_budget_total e) \<and> fits_int4 (ev_fee_per_person e)"

definition saved_conversation :: "plan_json \<Rightarrow> public_result \<Rightarrow> int \<Rightarrow> conversation \<Rightarrow> conversation" where
  "saved_conversation pj res revision c =
     (let c1 = c\<lparr>cv_resume_state := Some (pj_state pj (pb_next_state res))\<rparr>;
          c2 = (case vw_record_lookup (pb_view res) of
                  None \<Rightarrow> c1
                | Some lk \<Rightarrow> c1\<lparr>cv_last_record_lookup := Some (pj_lookup pj lk),
                                cv_record_lookup_history :=
                                  Some (JList (record_lookup_history c @ [lookup_entry revision (pj_lookup pj lk)]))\<rparr>)
      in c2\<lparr>cv_base_revision := revision, cv_generation_readiness := Some (readiness_out (vw_generation_readiness (pb_view res)))\<rparr>)"

definition next_seq :: "ident \<Rightarrow> chat_row list \<Rightarrow> int" where
  "next_seq cid ms =
     (case List.map_filter ms_seq (filter (\<lambda>m. ms_conversation_id m = Some cid) ms) of
        [] \<Rightarrow> 1
      | n # ns \<Rightarrow> foldr max ns n + 1)"

definition add_chat_row :: "rnd \<Rightarrow> ident \<Rightarrow> message_role \<Rightarrow> pystr \<Rightarrow> plan_db \<Rightarrow> api_error + plan_db" where
  "add_chat_row g cid role content pd =
     and_then (insert_row ms_id \<lparr>ms_id = new_id g (pd_db pd) ''msg'', ms_conversation_id = Some cid, ms_step_id = None,
          ms_action_id = None, ms_seq = Some (next_seq cid (pd_messages pd)), ms_role = role, ms_content = content\<rparr> (pd_messages pd))
       (\<lambda>rows. Inr (pd\<lparr>pd_db := drawn (pd_db pd), pd_messages := rows\<rparr>))"

text \<open>What the user wrote, if anything, and the answer, if it is not empty.\<close>

definition turn_lines :: "pystr option \<Rightarrow> pystr option \<Rightarrow> (message_role \<times> pystr) list" where
  "turn_lines user reply =
     (case user of None \<Rightarrow> [] | Some t \<Rightarrow> [(Role_USER, t)]) @
     (case reply of None \<Rightarrow> [] | Some t \<Rightarrow> if t = [] then [] else [(Role_ASSISTANT, t)])"

fun add_chat_rows :: "rnd \<Rightarrow> ident \<Rightarrow> (message_role \<times> pystr) list \<Rightarrow> plan_db \<Rightarrow> api_error + plan_db" where
  "add_chat_rows g cid [] pd = Inr pd"
| "add_chat_rows g cid ((r, t) # ls) pd = and_then (add_chat_row g cid r t pd) (add_chat_rows g cid ls)"

definition generated_preview :: "public_result \<Rightarrow> plan_preview option" where
  "generated_preview res =
     (case vw_generation_result (pb_view res) of
        None \<Rightarrow> None
      | Some r \<Rightarrow> if gr_status r = Gen_generated then gr_preview r else None)"

text \<open>
  \<open>_save_turn\<close>. Only a changed event row is written. A generation raises the plan revision itself, so a
  change of the conditions alone does it here. A generated result has its preview.
\<close>

definition turn_event :: "instant \<Rightarrow> public_result \<Rightarrow> event \<Rightarrow> event" where
  "turn_event now res e =
     (let e1 = with_conditions (dr_conditions (vw_draft (pb_view res))) e in if e1 \<noteq> e then touch now e1 else e)"

definition turn_rows :: "instant \<Rightarrow> plan_json \<Rightarrow> event \<Rightarrow> conversation \<Rightarrow> public_result \<Rightarrow> int \<Rightarrow> db \<Rightarrow> db" where
  "turn_rows now pj e c res revision d =
     (let changed = (with_conditions (dr_conditions (vw_draft (pb_view res))) e \<noteq> e);
          d1 = put_event (turn_event now res e) d
      in put_conversation (saved_conversation pj res revision c)
           (if changed \<and> generated_preview res = None then bump_plan_revision now (ev_id e) d1 else d1))"

definition save_turn ::
  "rnd \<Rightarrow> instant \<Rightarrow> plan_json \<Rightarrow> event \<Rightarrow> conversation \<Rightarrow> public_result \<Rightarrow> int \<Rightarrow> pystr option \<Rightarrow> plan_db \<Rightarrow> api_error + plan_db" where
  "save_turn g now pj e c res revision user pd =
     (if \<not> storable_event (turn_event now res e) then Inl (Unhandled ''DataError'')
      else and_then (add_chat_rows g (cv_id c) (turn_lines user (vw_reply (pb_view res)))
                       (pd\<lparr>pd_db := turn_rows now pj e c res revision (pd_db pd)\<rparr>)) (\<lambda>pd1.
        case generated_preview res of
          None \<Rightarrow> Inr pd1
        | Some p \<Rightarrow> materialize_preview g now (turn_event now res e) p pd1))"

section \<open>Requests\<close>

definition chat_endpoint :: "ident \<Rightarrow> string" where
  "chat_endpoint eid = ''POST /events/'' @ eid @ ''/plan/chat''"

definition generate_endpoint :: "ident \<Rightarrow> string" where
  "generate_endpoint eid = ''POST /events/'' @ eid @ ''/plan/generate''"

datatype request_result = Completed "dict option" | Processing | Not_saved

definition lookup_request :: "instant \<Rightarrow> ident \<Rightarrow> ident \<Rightarrow> pystr \<Rightarrow> idempotency_key list \<Rightarrow> request_result" where
  "lookup_request now eid mid key rows =
     (case find (\<lambda>r. idm_member_id r = mid \<and> idm_endpoint r \<in> {chat_endpoint eid, generate_endpoint eid} \<and> idm_key r = key) rows of
        None \<Rightarrow> Not_saved
      | Some r \<Rightarrow>
          if idm_status r = Key_COMPLETED then Completed (idm_response_body r)
          else if is_stale now r then Not_saved else Processing)"

text \<open>\<open>_translate_ai_error\<close>; an error that is raised again or not caught at all is unhandled.\<close>

fun translate_ai_error :: "turn_error \<Rightarrow> api_error" where
  "translate_ai_error (StateError _) = PlanningStateConflict"
| "translate_ai_error ContractError = Unhandled ''ValidationError''"
| "translate_ai_error HistoryError = Unhandled ''ValueError''"
| "translate_ai_error GraphRecursion = Unhandled ''GraphRecursionError''"
| "translate_ai_error (AIFailure e) =
     (if e = AIConfigError then AIMisconfigured else if is_retryable e then AIUnavailable
      else if e = PydanticValidationError then Unhandled ''ValidationError'' else Unhandled ''AIError'')"

record prepared_turn =
  pt_request :: request_context
  pt_club_id :: ident
  pt_event_id :: ident
  pt_member_id :: ident
  pt_base_revision :: int

record turn_request =
  tr_club_id :: ident
  tr_event_id :: ident
  tr_member_id :: ident
  tr_base_revision :: int

definition SEOUL :: pystr where
  "SEOUL = lit ''Asia/Seoul''"

text \<open>
  \<open>_prepare\<close>. \<open>check\<close> is \<open>build_request\<close>: the validation of the chat or of the generation request. What it
  or the stored state raises is not translated.
\<close>

definition prepare ::
  "rnd \<Rightarrow> instant \<Rightarrow> plan_json \<Rightarrow> (request_context \<Rightarrow> turn_error + unit) \<Rightarrow> turn_request \<Rightarrow> plan_db \<Rightarrow> api_error + (prepared_turn \<times> plan_db)" where
  "prepare g now pj check q pd =
     (case find_event (pd_db pd) (tr_event_id q) of
        None \<Rightarrow> Inl EventNotFound
      | Some e \<Rightarrow>
          if ev_club_id e \<noteq> tr_club_id q then Inl EventNotFound
          else if ev_status e \<noteq> PLANNING then Inl EventNotPlanning
          else and_then (get_or_create_conversation g now (ev_id e) (tr_member_id q) (pd_db pd)) (\<lambda>(c, d).
            if cv_base_revision c \<noteq> tr_base_revision q then Inl VersionConflict
            else (case conversation_state pj c of
                    Inl _ \<Rightarrow> Inl (Unhandled ''PlanningStateError'')
                  | Inr st \<Rightarrow>
                      let cx = \<lparr>cx_request_id = lit (new_id g d ''req''), cx_club_id = tr_club_id q, cx_event_id = ev_id e,
                                cx_conversation_id = cv_id c, cx_base_revision = tr_base_revision q, cx_draft = basis_draft st,
                                cx_resume_state = st, cx_reference_date = today_kst now, cx_timezone = SEOUL\<rparr>
                      in (case check cx of
                            Inl _ \<Rightarrow> Inl (Unhandled ''ValidationError'')
                          | Inr _ \<Rightarrow> Inr (\<lparr>pt_request = cx, pt_club_id = tr_club_id q, pt_event_id = tr_event_id q,
                                           pt_member_id = tr_member_id q, pt_base_revision = tr_base_revision q\<rparr>,
                                         pd\<lparr>pd_db := drawn d\<rparr>)))))"

text \<open>\<open>_finish\<close>: the event and the conversation are read again under a lock.\<close>

definition finish_prepared ::
  "rnd \<Rightarrow> instant \<Rightarrow> plan_json \<Rightarrow> prepared_turn \<Rightarrow> public_result \<Rightarrow> pystr option \<Rightarrow> ident option \<Rightarrow> plan_db \<Rightarrow> api_error + (dict \<times> plan_db)" where
  "finish_prepared g now pj p res user key pd =
     (case find_event (pd_db pd) (pt_event_id p) of
        None \<Rightarrow> Inl EventNotFound
      | Some e \<Rightarrow>
          if ev_club_id e \<noteq> pt_club_id p then Inl EventNotFound
          else if ev_status e \<noteq> PLANNING then Inl EventNotPlanning
          else (case latest_conversation (pd_db pd) (ev_id e) of
                  None \<Rightarrow> Inl VersionConflict
                | Some c \<Rightarrow>
                    if cv_base_revision c \<noteq> pt_base_revision p then Inl VersionConflict
                    else let revision = pt_base_revision p + 1; out = view_out pj res revision in
                         and_then (save_turn g now pj e c res revision user pd) (\<lambda>pd1.
                           Inr (out, case key of
                                       None \<Rightarrow> pd1
                                     | Some i \<Rightarrow> pd1\<lparr>pd_keys := save_response now i 200 out (pd_keys pd1)\<rparr>))))"

text \<open>\<open>PlanTurn\<close>: a stored response, or a prepared turn with the key it holds.\<close>

datatype plan_turn = Replayed "dict option" | Opened prepared_turn "ident option"

definition release_key :: "ident option \<Rightarrow> plan_db \<Rightarrow> plan_db" where
  "release_key key pd = (case key of None \<Rightarrow> pd | Some i \<Rightarrow> pd\<lparr>pd_keys := release i (pd_keys pd)\<rparr>)"

text \<open>\<open>_resolve_idempotency\<close> and \<open>_open_turn\<close>: the key is committed before the turn is prepared.\<close>

definition open_turn ::
  "rnd \<Rightarrow> instant \<Rightarrow> plan_json \<Rightarrow> ident \<Rightarrow> key_request \<Rightarrow> (request_context \<Rightarrow> turn_error + unit) \<Rightarrow> turn_request \<Rightarrow> plan_db
     \<Rightarrow> (api_error + plan_turn) \<times> plan_db" where
  "open_turn g now pj kid kq check q pd =
     (case resolve_key kid now kq (pd_keys pd) of
        Inl e \<Rightarrow> (Inl e, pd)
      | Inr (idem, keys) \<Rightarrow>
          let pd1 = pd\<lparr>pd_keys := keys\<rparr>; key = map_option (\<lambda>r. idm_id (res_record r)) idem in
          if (case idem of None \<Rightarrow> False | Some r \<Rightarrow> res_is_replay r)
          then (Inr (Replayed (idm_response_body (res_record (the idem)))), pd1)
          else (case prepare g now pj check q pd1 of
                  Inl e \<Rightarrow> (Inl e, release_key key pd1)
                | Inr (p, pd2) \<Rightarrow> (Inr (Opened p key), pd2)))"

text \<open>The rest of a turn, with what the assistant has answered.\<close>

definition finish_turn ::
  "rnd \<Rightarrow> instant \<Rightarrow> plan_json \<Rightarrow> prepared_turn \<Rightarrow> ident option \<Rightarrow> pystr option \<Rightarrow> turn_error + public_result \<Rightarrow> plan_db
     \<Rightarrow> (api_error + dict) \<times> plan_db" where
  "finish_turn g now pj p key user answer pd =
     (case answer of
        Inl e \<Rightarrow> (Inl (translate_ai_error e), release_key key pd)
      | Inr res \<Rightarrow>
          (case finish_prepared g now pj p res user key pd of
             Inl e \<Rightarrow> (Inl e, release_key key pd)
           | Inr (out, pd') \<Rightarrow> (Inr out, pd')))"

text \<open>\<open>open_chat\<close> and \<open>open_generate\<close>; what they pass to \<open>finish_turn\<close> is the answer of the assistant.\<close>

definition plan_key :: "plan_json \<Rightarrow> string \<Rightarrow> dict \<Rightarrow> pystr option \<Rightarrow> turn_request \<Rightarrow> key_request" where
  "plan_key pj endpoint payload key q =
     \<lparr>kr_member = tr_member_id q, kr_endpoint = endpoint, kr_key = (case key of None \<Rightarrow> [] | Some k \<Rightarrow> k),
      kr_club = Some (tr_club_id q), kr_hash = pj_digest pj payload\<rparr>"

definition open_chat ::
  "rnd \<Rightarrow> instant \<Rightarrow> plan_json \<Rightarrow> ident \<Rightarrow> turn_request \<Rightarrow> pystr \<Rightarrow> pystr \<Rightarrow> pystr option \<Rightarrow> plan_db \<Rightarrow> (api_error + plan_turn) \<times> plan_db" where
  "open_chat g now pj kid q mid content key pd =
     open_turn g now pj kid
       (plan_key pj (chat_endpoint (tr_event_id q))
          [(''messageId'', JStr mid), (''message'', JStr content), (''baseRevision'', JInt (tr_base_revision q))] key q)
       (\<lambda>cx. validate_chat cx mid content) q pd"

definition open_generate ::
  "rnd \<Rightarrow> instant \<Rightarrow> plan_json \<Rightarrow> ident \<Rightarrow> turn_request \<Rightarrow> bool \<Rightarrow> pystr option \<Rightarrow> plan_db \<Rightarrow> (api_error + plan_turn) \<times> plan_db" where
  "open_generate g now pj kid q use_current key pd =
     open_turn g now pj kid
       (plan_key pj (generate_endpoint (tr_event_id q))
          [(''baseRevision'', JInt (tr_base_revision q)), (''useCurrentConditions'', JBool use_current)] key q)
       validate_resume q pd"

definition chat_answer :: "services \<Rightarrow> codec \<Rightarrow> prepared_turn \<Rightarrow> pystr \<Rightarrow> pystr \<Rightarrow> turn_error + public_result" where
  "chat_answer sv cd p mid content = chat_planning sv cd (pt_request p) mid content"

definition generate_answer :: "services \<Rightarrow> codec \<Rightarrow> prepared_turn \<Rightarrow> bool \<Rightarrow> turn_error + public_result" where
  "generate_answer sv cd p use_current = generate_planning_preview sv cd (pt_request p) use_current"

section \<open>Screens\<close>

definition current_draft :: "plan_json \<Rightarrow> ident \<Rightarrow> db \<Rightarrow> state_error + draft" where
  "current_draft pj eid d =
     (case latest_conversation d eid of
        None \<Rightarrow> Inr (basis_draft None)
      | Some c \<Rightarrow> (case conversation_state pj c of Inl e \<Rightarrow> Inl e | Inr st \<Rightarrow> Inr (basis_draft st)))"

record plan_screen =
  sc_draft :: json
  sc_last_record_lookup :: "json option"
  sc_record_lookup_history :: "json list"
  sc_warnings :: "json list"
  sc_excluded_steps :: "(string \<times> pystr option) list"
  sc_summary :: "nat \<times> nat \<times> nat \<times> nat"
  sc_history_usage :: json
  sc_base_revision :: int
  sc_generation_readiness :: "json option"
  sc_plan_revision :: int
  sc_review :: "review_out option"

definition count_steps :: "db \<Rightarrow> ident \<Rightarrow> (step \<Rightarrow> bool) \<Rightarrow> nat" where
  "count_steps d eid P = length (filter (\<lambda>s. st_event_id s = eid \<and> P s) (steps d))"

definition warning_messages :: "json option \<Rightarrow> json list" where
  "warning_messages w =
     (case w of
        Some (JList xs) \<Rightarrow> map (\<lambda>x. case json_get ''message'' x of None \<Rightarrow> JStr [] | Some v \<Rightarrow> v) xs
      | _ \<Rightarrow> [])"

definition get_plan_screen :: "instant \<Rightarrow> plan_json \<Rightarrow> ident \<Rightarrow> ident \<Rightarrow> db \<Rightarrow> api_error + plan_screen" where
  "get_plan_screen now pj club eid d =
     and_then (get_event club eid d) (\<lambda>e.
       let c = latest_conversation d (ev_id e) in
       case (case c of None \<Rightarrow> Inr None | Some c' \<Rightarrow> conversation_state pj c') of
         Inl _ \<Rightarrow> Inl (Unhandled ''PlanningStateError'')
       | Inr st \<Rightarrow>
           let dr = basis_draft st in
           (case planning_generation_readiness dr st of
              Inl _ \<Rightarrow> Inl (Unhandled ''PlanningStateError'')
            | Inr rd \<Rightarrow>
                Inr \<lparr>sc_draft = draft_out dr, sc_last_record_lookup = Option.bind c cv_last_record_lookup,
                     sc_record_lookup_history = (case c of None \<Rightarrow> [] | Some c' \<Rightarrow> record_lookup_history c'),
                     sc_warnings = warning_messages (ev_plan_warnings e),
                     sc_excluded_steps = (case ev_plan_excluded_steps e of None \<Rightarrow> [] | Some xs \<Rightarrow> xs),
                     sc_summary = (count_steps d (ev_id e) (\<lambda>_. True), count_steps d (ev_id e) (\<lambda>s. st_actor s = Actor_AI),
                                   count_steps d (ev_id e) (\<lambda>s. st_actor s = Actor_APPROVAL_REQUIRED),
                                   count_steps d (ev_id e) (\<lambda>s. st_actor s = Actor_MANUAL)),
                     sc_history_usage = history_usage_out (map_option (\<lambda>s. usage_of (length (sp_history (rs_payload s)))) st),
                     sc_base_revision = (case c of None \<Rightarrow> 0 | Some c' \<Rightarrow> cv_base_revision c'),
                     sc_generation_readiness = (if st = None then None else Some (readiness_out rd)),
                     sc_plan_revision = ev_plan_revision e,
                     sc_review = review_out (get_row pr_event_id (plan_reviews d) (ev_id e)) now\<rparr>))"

end
