(* ===== verification/Plan_Turn_Facts.thy ===== *)
theory Plan_Turn_Facts
  imports Plan_Turn
begin

text \<open>
  What a planning turn guarantees: a saved turn moves the revision by one and none is lost, the stored
  plan is the generated one, the stored state is the one the next turn starts from, and the request key
  tells what became of the turn.
\<close>

section \<open>The conversation of an event\<close>

definition pk_conversations :: "db \<Rightarrow> bool" where
  "pk_conversations d \<longleftrightarrow> distinct (map cv_id (conversations d))"

lemma latest_conversation_put:
  assumes "latest_conversation d eid = Some c" and "pk_conversations d"
    and "cv_id c' = cv_id c" and "cv_event_id c' = cv_event_id c" and "cv_created_at c' = cv_created_at c"
  shows "latest_conversation (put_conversation c' d) eid = Some c'"
proof -
  let ?f = "\<lambda>x. if cv_id x = cv_id c' then c' else x" and ?k = "\<lambda>c. - cv_created_at c"
  let ?xs = "filter (\<lambda>c. cv_event_id c = eid) (conversations d)"
  have same: "x = c" if "x \<in> set (conversations d)" "cv_id x = cv_id c'" for x
    using that assms(2,3) latest_conversation_SomeD(1) [OF assms(1)]
    unfolding pk_conversations_def by (metis distinct_map inj_onD)
  have keep: "cv_event_id (?f x) = cv_event_id x" "?k (?f x) = ?k x" if "x \<in> set (conversations d)" for x
    using same [OF that] assms(4,5) by auto
  have "filter (\<lambda>c. cv_event_id c = eid) (map ?f (conversations d)) = map ?f ?xs"
    by (rule filter_map_same) (metis keep(1))
  moreover have "sort_key ?k (map ?f ?xs) = map ?f (sort_key ?k ?xs)" using keep(2) by (intro sort_key_map) auto
  moreover obtain cs where "sort_key ?k ?xs = c # cs"
    using assms(1) by (auto simp: latest_conversation_def split: list.splits)
  ultimately show ?thesis using assms(3) by (simp add: latest_conversation_def put_conversation_def put_row_def)
qed

lemma pk_conversations_put [simp]: "pk_conversations (put_conversation c d) \<longleftrightarrow> pk_conversations d"
  by (simp add: pk_conversations_def put_conversation_def)

lemma saved_conversation_keeps [simp]:
  "cv_id (saved_conversation pj res n c) = cv_id c" "cv_event_id (saved_conversation pj res n c) = cv_event_id c"
  "cv_created_at (saved_conversation pj res n c) = cv_created_at c" "cv_base_revision (saved_conversation pj res n c) = n"
  "cv_resume_state (saved_conversation pj res n c) = Some (pj_state pj (pb_next_state res))"
  by (simp_all add: saved_conversation_def Let_def split: option.split)

section \<open>Frames\<close>

lemma bump_frame [simp]:
  "conversations (bump_plan_revision now eid d) = conversations d" "steps (bump_plan_revision now eid d) = steps d"
  "actions (bump_plan_revision now eid d) = actions d" "plan_reviews (bump_plan_revision now eid d) = plan_reviews d"
  by (auto simp: bump_plan_revision_def put_event_def split: option.split)

lemma put_event_frame [simp]:
  "conversations (put_event e d) = conversations d" "steps (put_event e d) = steps d"
  "actions (put_event e d) = actions d" "plan_reviews (put_event e d) = plan_reviews d"
  by (simp_all add: put_event_def)

lemma put_conversation_frame [simp]:
  "events (put_conversation c d) = events d" "steps (put_conversation c d) = steps d"
  "actions (put_conversation c d) = actions d" "plan_reviews (put_conversation c d) = plan_reviews d"
  by (simp_all add: put_conversation_def)

lemma reset_baseline_frame [simp]:
  "conversations (reset_baseline eid n d) = conversations d" "steps (reset_baseline eid n d) = steps d"
  "actions (reset_baseline eid n d) = actions d" "events (reset_baseline eid n d) = events d"
  by (auto simp: reset_baseline_def Let_def put_plan_review_def split: option.split)

lemma clear_plan_frame [simp]:
  "conversations (pd_db (clear_plan eid pd)) = conversations (pd_db pd)" "events (pd_db (clear_plan eid pd)) = events (pd_db pd)"
  "plan_reviews (pd_db (clear_plan eid pd)) = plan_reviews (pd_db pd)" "pd_keys (clear_plan eid pd) = pd_keys pd"
  by (simp_all add: clear_plan_def Let_def)

lemma insert_preview_actions_frame:
  "insert_preview_actions g now eid sid as d = Inr d' \<Longrightarrow>
     conversations d' = conversations d \<and> events d' = events d \<and> steps d' = steps d \<and> plan_reviews d' = plan_reviews d"
  by (induction as arbitrary: d) (auto simp: and_then_eq_Inr drawn_def split: if_splits)

lemma insert_preview_steps_frame:
  "insert_preview_steps g now eid n ss d = Inr d' \<Longrightarrow>
     conversations d' = conversations d \<and> events d' = events d \<and> plan_reviews d' = plan_reviews d"
proof (induction ss arbitrary: n d)
  case (Cons s ss)
  then show ?case by (auto simp: and_then_eq_Inr Let_def drawn_def split: if_splits dest!: insert_preview_actions_frame)
qed simp

lemma latest_conversation_cong:
  "conversations d' = conversations d \<Longrightarrow> latest_conversation d' eid = latest_conversation d eid"
  by (simp add: latest_conversation_def)

lemma add_chat_row_Inr:
  assumes "add_chat_row g cid r t pd = Inr pd'"
  shows "pd_db pd' = drawn (pd_db pd) \<and> pd_keys pd' = pd_keys pd \<and>
    (\<exists>i. pd_messages pd' = pd_messages pd @ [\<lparr>ms_id = i, ms_conversation_id = Some cid, ms_step_id = None, ms_action_id = None,
       ms_seq = Some (next_seq cid (pd_messages pd)), ms_role = r, ms_content = t\<rparr>])"
  using assms by (auto simp: add_chat_row_def and_then_eq_Inr insert_row_Inr)

lemma add_chat_rows_frame:
  "add_chat_rows g cid ls pd = Inr pd' \<Longrightarrow> pd_keys pd' = pd_keys pd \<and> (\<exists>n. pd_db pd' = (pd_db pd)\<lparr>draws := n\<rparr>)"
proof (induction ls arbitrary: pd)
  case Nil
  then show ?case by (auto intro: exI [of _ "draws (pd_db pd')"])
next
  case (Cons l ls)
  obtain r t where "l = (r, t)" by (cases l)
  with Cons.prems obtain pd1 where pd1: "add_chat_row g cid r t pd = Inr pd1" "add_chat_rows g cid ls pd1 = Inr pd'"
    by (auto simp: and_then_eq_Inr)
  show ?case using Cons.IH [OF pd1(2)] add_chat_row_Inr [OF pd1(1)] by (auto simp: drawn_def)
qed

lemma materialize_frame:
  assumes "materialize_preview g now e p pd = Inr pd'"
  shows "pd_keys pd' = pd_keys pd" and "conversations (pd_db pd') = conversations (pd_db pd)"
  using assms by (auto simp: materialize_preview_def Let_def and_then_eq_Inr dest!: insert_preview_steps_frame)

lemma save_turn_Inr:
  assumes "save_turn g now pj e c res n user pd = Inr pd'"
  obtains pd1 where "storable_event (turn_event now res e)"
    "add_chat_rows g (cv_id c) (turn_lines user (vw_reply (pb_view res))) (pd\<lparr>pd_db := turn_rows now pj e c res n (pd_db pd)\<rparr>) = Inr pd1"
    "(case generated_preview res of None \<Rightarrow> pd' = pd1 | Some p \<Rightarrow> materialize_preview g now (turn_event now res e) p pd1 = Inr pd')"
  using assms by (auto simp: save_turn_def and_then_eq_Inr split: if_splits option.splits)

lemma turn_rows_frame [simp]:
  "conversations (turn_rows now pj e c res n d) = conversations (put_conversation (saved_conversation pj res n c) d)"
  "steps (turn_rows now pj e c res n d) = steps d" "actions (turn_rows now pj e c res n d) = actions d"
  "plan_reviews (turn_rows now pj e c res n d) = plan_reviews d"
  by (simp_all add: turn_rows_def Let_def put_conversation_def)

lemma save_turn_conversation:
  assumes "save_turn g now pj e c res n user pd = Inr pd'"
  shows "conversations (pd_db pd') = conversations (put_conversation (saved_conversation pj res n c) (pd_db pd))" and "pd_keys pd' = pd_keys pd"
proof -
  obtain pd1 where add: "add_chat_rows g (cv_id c) (turn_lines user (vw_reply (pb_view res))) (pd\<lparr>pd_db := turn_rows now pj e c res n (pd_db pd)\<rparr>) = Inr pd1"
    and gen: "(case generated_preview res of None \<Rightarrow> pd' = pd1 | Some p \<Rightarrow> materialize_preview g now (turn_event now res e) p pd1 = Inr pd')"
    using assms by (rule save_turn_Inr)
  have "conversations (pd_db pd') = conversations (pd_db pd1) \<and> pd_keys pd' = pd_keys pd1"
    using gen by (auto split: option.splits dest: materialize_frame)
  then show "conversations (pd_db pd') = conversations (put_conversation (saved_conversation pj res n c) (pd_db pd))" "pd_keys pd' = pd_keys pd"
    using add_chat_rows_frame [OF add] by auto
qed

section \<open>No turn is lost\<close>

lemma finish_Inr:
  assumes "finish_prepared g now pj p res user key pd = Inr (out, pd')"
  obtains e c pd1 where "find_event (pd_db pd) (pt_event_id p) = Some e" "ev_club_id e = pt_club_id p" "ev_status e = PLANNING"
    "latest_conversation (pd_db pd) (pt_event_id p) = Some c" "cv_base_revision c = pt_base_revision p"
    "save_turn g now pj e c res (pt_base_revision p + 1) user pd = Inr pd1" "out = view_out pj res (pt_base_revision p + 1)"
    "pd' = (case key of None \<Rightarrow> pd1 | Some i \<Rightarrow> pd1\<lparr>pd_keys := save_response now i 200 out (pd_keys pd1)\<rparr>)"
proof -
  from assms obtain e where e: "find_event (pd_db pd) (pt_event_id p) = Some e" by (auto simp: finish_prepared_def split: option.splits)
  then have "ev_id e = pt_event_id p" by (simp add: find_event_def get_row_key)
  with assms e show thesis
    by (auto simp: finish_prepared_def Let_def and_then_eq_Inr split: if_splits option.splits intro!: that)
qed

lemma finish_conversation:
  assumes "finish_prepared g now pj p res user key pd = Inr (out, pd')" and "pk_conversations (pd_db pd)"
  shows "\<exists>c. latest_conversation (pd_db pd) (pt_event_id p) = Some c \<and> cv_base_revision c = pt_base_revision p \<and>
      latest_conversation (pd_db pd') (pt_event_id p) = Some (saved_conversation pj res (pt_base_revision p + 1) c)"
    and "pk_conversations (pd_db pd')"
proof -
  obtain e c pd1 where c: "latest_conversation (pd_db pd) (pt_event_id p) = Some c" "cv_base_revision c = pt_base_revision p"
    and save: "save_turn g now pj e c res (pt_base_revision p + 1) user pd = Inr pd1"
    and pd': "pd' = (case key of None \<Rightarrow> pd1 | Some i \<Rightarrow> pd1\<lparr>pd_keys := save_response now i 200 out (pd_keys pd1)\<rparr>)"
    using assms(1) by (rule finish_Inr)
  have conv: "conversations (pd_db pd') = conversations (put_conversation (saved_conversation pj res (pt_base_revision p + 1) c) (pd_db pd))"
    using save_turn_conversation(1) [OF save] pd' by (simp split: option.split)
  show "\<exists>c. latest_conversation (pd_db pd) (pt_event_id p) = Some c \<and> cv_base_revision c = pt_base_revision p \<and>
      latest_conversation (pd_db pd') (pt_event_id p) = Some (saved_conversation pj res (pt_base_revision p + 1) c)"
    using c latest_conversation_cong [OF conv] latest_conversation_put [OF c(1) assms(2)] by simp
  show "pk_conversations (pd_db pd')"
    using assms(2) conv pk_conversations_put [of _ "pd_db pd"] by (metis pk_conversations_def)
qed

record save_request =
  sq_rnd :: rnd
  sq_now :: instant
  sq_json :: plan_json
  sq_turn :: prepared_turn
  sq_result :: public_result
  sq_user :: "pystr option"
  sq_key :: "ident option"

definition exec_save :: "save_request \<Rightarrow> ident \<Rightarrow> int \<Rightarrow> plan_db \<Rightarrow> api_error + plan_db" where
  "exec_save q eid v pd =
     and_then (finish_prepared (sq_rnd q) (sq_now q) (sq_json q) ((sq_turn q)\<lparr>pt_event_id := eid, pt_base_revision := v\<rparr>) (sq_result q)
       (sq_user q) (sq_key q) pd) (\<lambda>(out, pd'). Inr pd')"

interpretation plan_saves: optimistic_lock "\<lambda>pd. latest_conversation (pd_db pd)" cv_base_revision
    "\<lambda>pd. pk_conversations (pd_db pd)" exec_save
proof
  fix q i v pd pd' assume "exec_save q i v pd = Inr pd'"
  then obtain out where fin: "finish_prepared (sq_rnd q) (sq_now q) (sq_json q) ((sq_turn q)\<lparr>pt_event_id := i, pt_base_revision := v\<rparr>) (sq_result q)
       (sq_user q) (sq_key q) pd = Inr (out, pd')" by (auto simp: exec_save_def and_then_eq_Inr)
  show "\<exists>r. latest_conversation (pd_db pd) i = Some r \<and> cv_base_revision r = v" using fin by (rule finish_Inr) auto
  assume "pk_conversations (pd_db pd)"
  from finish_conversation [OF fin this] show "\<exists>r. latest_conversation (pd_db pd') i = Some r \<and> cv_base_revision r = v + 1"
    and "pk_conversations (pd_db pd')" by auto
qed

section \<open>The stored plan is the generated one\<close>

text \<open>The plan the rows of an event describe; the purpose of a step is not stored.\<close>

definition stored_action :: "action \<Rightarrow> plan_action" where
  "stored_action a = \<lparr>pa_type = ac_type a, pa_title = ac_title a, pa_due_date = ac_due_date a\<rparr>"

definition stored_step :: "action list \<Rightarrow> step \<Rightarrow> preview_step" where
  "stored_step as s =
     \<lparr>ps_code = st_code s, ps_purpose = [], ps_starts_at = st_starts_at s, ps_deadline = st_deadline s,
      ps_plan_actions = map stored_action (filter (\<lambda>a. ac_step_id a = Some (st_id s)) as),
      ps_name = st_name s, ps_phase = st_phase s, ps_actor = st_actor s\<rparr>"

definition stored_plan :: "ident \<Rightarrow> db \<Rightarrow> preview_step list" where
  "stored_plan eid d = map (stored_step (actions d)) (ordered_steps d eid)"

definition without_purpose :: "preview_step \<Rightarrow> preview_step" where
  "without_purpose s = s\<lparr>ps_purpose := []\<rparr>"

text \<open>Every action belongs to a step that exists (the foreign key).\<close>

definition fk_steps :: "db \<Rightarrow> bool" where
  "fk_steps d \<longleftrightarrow> (\<forall>a \<in> set (actions d). \<forall>sid. ac_step_id a = Some sid \<longrightarrow> sid \<in> st_id ` set (steps d))"

lemma insert_preview_actions_Inr:
  "insert_preview_actions g now eid sid as d = Inr d' \<Longrightarrow>
     \<exists>new. actions d' = actions d @ new \<and> map stored_action new = as \<and> steps d' = steps d \<and>
       (\<forall>a \<in> set new. ac_step_id a = Some sid \<and> ac_event_id a = eid \<and> ac_status a = PENDING \<and> ac_version a = 1 \<and>
          (ac_irreversible a, ac_approve_needed a) = action_defaults (ac_type a))"
proof (induction as arbitrary: d)
  case (Cons a as)
  let ?r = "preview_action g now eid sid a d"
  from Cons.prems have "insert_preview_actions g now eid sid as (drawn (d\<lparr>actions := actions d @ [?r]\<rparr>)) = Inr d'"
    by (auto simp: and_then_eq_Inr insert_row_Inr split: if_splits)
  from Cons.IH [OF this] obtain new where new: "actions d' = actions d @ ?r # new" "map stored_action new = as" "steps d' = steps d"
    "\<forall>a \<in> set new. ac_step_id a = Some sid \<and> ac_event_id a = eid \<and> ac_status a = PENDING \<and> ac_version a = 1 \<and>
       (ac_irreversible a, ac_approve_needed a) = action_defaults (ac_type a)"
    by (auto simp: drawn_def)
  moreover have "stored_action ?r = a" by (simp add: stored_action_def preview_action_def new_action_def)
  ultimately show ?case by (intro exI [of _ "?r # new"]) (simp add: preview_action_def new_action_def)
qed (auto simp: action_defaults_def)

lemma insert_preview_steps_Inr:
  "insert_preview_steps g now eid n ss d = Inr d' \<Longrightarrow>
     \<exists>rows new. steps d' = steps d @ rows \<and> actions d' = actions d @ new \<and>
       map (stored_step new) rows = map without_purpose ss \<and> map st_step_order rows = map (\<lambda>i. n + int i) [0..<length ss] \<and>
       st_id ` set rows \<inter> st_id ` set (steps d) = {} \<and> (\<forall>r \<in> set rows. st_event_id r = eid) \<and>
       (\<forall>a \<in> set new. ac_step_id a \<in> (Some \<circ> st_id) ` set rows)"
proof (induction ss arbitrary: n d)
  case (Cons s ss)
  let ?r = "preview_row g eid n s d"
  from Cons.prems obtain d1 where fresh: "st_id ?r \<notin> st_id ` set (steps d)"
    and acts: "insert_preview_actions g now eid (st_id ?r) (ps_plan_actions s) (drawn (d\<lparr>steps := steps d @ [?r]\<rparr>)) = Inr d1"
    and rest: "insert_preview_steps g now eid (n + 1) ss d1 = Inr d'"
    by (auto simp: and_then_eq_Inr insert_row_Inr Let_def split: if_splits)
  obtain as where as: "actions d1 = actions d @ as" "map stored_action as = ps_plan_actions s" "steps d1 = steps d @ [?r]"
    "\<forall>a \<in> set as. ac_step_id a = Some (st_id ?r)"
    using insert_preview_actions_Inr [OF acts] by (auto simp: drawn_def)
  obtain rows new where ih: "steps d' = steps d1 @ rows" "actions d' = actions d1 @ new"
    "map (stored_step new) rows = map without_purpose ss" "map st_step_order rows = map (\<lambda>i. n + 1 + int i) [0..<length ss]"
    "st_id ` set rows \<inter> st_id ` set (steps d1) = {}" "\<forall>r \<in> set rows. st_event_id r = eid"
    "\<forall>a \<in> set new. ac_step_id a \<in> (Some \<circ> st_id) ` set rows"
    using Cons.IH [OF rest] by auto
  have other: "st_id r \<noteq> st_id ?r" if "r \<in> set rows" for r
  proof
    assume "st_id r = st_id ?r"
    moreover have "st_id r \<in> st_id ` set rows" using that by (rule imageI)
    ultimately have "st_id r \<in> st_id ` set rows \<inter> st_id ` set (steps d1)" using as(3) by simp
    then show False unfolding ih(5) by simp
  qed
  have "filter (\<lambda>a. ac_step_id a = Some (st_id ?r)) (as @ new) = as"
    using as(4) ih(7) other by (auto simp: filter_id_conv filter_empty_conv)
  then have hd: "stored_step (as @ new) ?r = without_purpose s"
    using as(2) by (simp add: stored_step_def preview_row_def without_purpose_def)
  have "stored_step (as @ new) r = stored_step new r" if "r \<in> set rows" for r
    using as(4) other [OF that] by (auto simp: stored_step_def filter_empty_conv)
  then have tl: "map (stored_step (as @ new)) rows = map without_purpose ss" using ih(3) by (metis map_cong)
  have "map (\<lambda>i. n + int i) [0..<length (s # ss)] = n # map (\<lambda>i. n + 1 + int i) [0..<length ss]"
    by (simp add: upt_conv_Cons map_Suc_upt [symmetric] comp_def del: upt_Suc)
  then show ?case
    using ih as fresh hd tl by (intro exI [of _ "?r # rows"] exI [of _ "as @ new"]) (auto simp: preview_row_def)
qed simp

text \<open>The deletes leave nothing of the plan, and no action of another plan without its step.\<close>

lemma clear_plan_rows:
  assumes "fk_steps (pd_db pd)"
  shows "filter (\<lambda>s. st_event_id s = eid) (steps (pd_db (clear_plan eid pd))) = []" and "fk_steps (pd_db (clear_plan eid pd))"
proof -
  show "filter (\<lambda>s. st_event_id s = eid) (steps (pd_db (clear_plan eid pd))) = []"
    by (simp add: clear_plan_def Let_def)
  show "fk_steps (pd_db (clear_plan eid pd))"
    using assms by (fastforce simp: fk_steps_def clear_plan_def Let_def)
qed

lemma stored_plan_inserted:
  assumes "insert_preview_steps g now eid 1 ss d = Inr d'" and "filter (\<lambda>s. st_event_id s = eid) (steps d) = []" and "fk_steps d"
  shows "stored_plan eid d' = map without_purpose ss" and "fk_steps d'"
proof -
  obtain rows new where r: "steps d' = steps d @ rows" "actions d' = actions d @ new"
    "map (stored_step new) rows = map without_purpose ss" "map st_step_order rows = map (\<lambda>i. 1 + int i) [0..<length ss]"
    "st_id ` set rows \<inter> st_id ` set (steps d) = {}" "\<forall>r \<in> set rows. st_event_id r = eid"
    "\<forall>a \<in> set new. ac_step_id a \<in> (Some \<circ> st_id) ` set rows"
    using insert_preview_steps_Inr [OF assms(1)] by auto
  have "filter (\<lambda>s. st_event_id s = eid) (steps d') = rows" using r(1,6) assms(2) by (simp add: filter_id_conv)
  moreover have "sorted (map st_step_order rows)" unfolding r(4) by (auto simp: sorted_iff_nth_mono)
  ultimately have rows: "ordered_steps d' eid = rows" by (simp add: ordered_steps_def sorted_sort_id sort_key_id_if_sorted)
  have "stored_step (actions d') x = stored_step new x" if "x \<in> set rows" for x
  proof -
    have "st_id x \<notin> st_id ` set (steps d)" using r(5) that by auto
    then show ?thesis using assms(3) by (auto simp: r(2) stored_step_def fk_steps_def filter_empty_conv)
  qed
  then show "stored_plan eid d' = map without_purpose ss" unfolding stored_plan_def rows using r(3) by (metis map_cong)
  show "fk_steps d'" using assms(3) r(1,2,7) by (fastforce simp: fk_steps_def)
qed

lemma stored_plan_cong: "steps d' = steps d \<Longrightarrow> actions d' = actions d \<Longrightarrow> stored_plan eid d' = stored_plan eid d"
  by (simp add: stored_plan_def ordered_steps_def)

lemma materialize_stores:
  assumes "materialize_preview g now e p pd = Inr pd'" and "fk_steps (pd_db pd)"
  shows "stored_plan (ev_id e) (pd_db pd') = map without_purpose (pv_steps p)"
proof -
  from assms(1) obtain d2 where ins: "insert_preview_steps g now (ev_id e) 1 (pv_steps p) (pd_db (clear_plan (ev_id e) pd)) = Inr d2"
    and pd': "steps (pd_db pd') = steps d2" "actions (pd_db pd') = actions d2"
    by (auto simp: materialize_preview_def Let_def and_then_eq_Inr)
  show ?thesis
    using stored_plan_inserted(1) [OF ins clear_plan_rows [OF assms(2)]] stored_plan_cong [OF pd'] by simp
qed

text \<open>
  The same transaction makes the plan the basis of reviews: the revision moves by one and the snapshot is
  taken at the new revision.
\<close>

lemma materialize_review:
  assumes "materialize_preview g now e p pd = Inr pd'" and "find_event (pd_db pd) (ev_id e) = Some e0" and "ev_status e = PLANNING"
  shows "\<exists>e' r. find_event (pd_db pd') (ev_id e) = Some e' \<and> ev_plan_revision e' = ev_plan_revision e + 1 \<and>
    find_plan_review (pd_db pd') (ev_id e) = Some r \<and> pr_generated_revision r = ev_plan_revision e' \<and>
    pr_status r = Review_NOT_REQUESTED \<and> pr_baseline r = snapshot_plan (ev_id e) (pd_db pd')"
proof -
  let ?i = "ev_id e" and ?d = "\<lambda>d2. bump_plan_revision now (ev_id e) (put_event (described now p e) d2)"
  from assms(1,3) obtain d2 where ins: "insert_preview_steps g now ?i 1 (pv_steps p) (pd_db (clear_plan ?i pd)) = Inr d2"
    and pd': "pd_db pd' = reset_baseline ?i (ev_plan_revision e + 1) (?d d2)"
    by (auto simp: materialize_preview_def Let_def and_then_eq_Inr)
  have "find_event d2 ?i = Some e0" using insert_preview_steps_frame [OF ins] assms(2) by (simp add: find_event_def)
  then have "find_event (put_event (described now p e) d2) ?i = Some (described now p e)"
    by (simp add: find_event_def put_event_def get_put_row described_def touch_def)
  then have ev: "find_event (?d d2) ?i = Some (touch now ((described now p e)\<lparr>ev_plan_revision := ev_plan_revision e + 1\<rparr>))"
    using assms(3) by (simp add: bump_plan_revision_def find_event_def put_event_def get_put_row described_def touch_def)
  have snap: "snapshot_plan ?i (reset_baseline ?i n x) = snapshot_plan ?i x" for n x
    by (simp add: snapshot_plan_def ordered_steps_def Let_def)
  show ?thesis
    using ev unfolding pd' snap
    by (auto simp: reset_baseline_def find_event_def find_plan_review_def put_plan_review_def get_put_row get_row_append Let_def touch_def split: option.split)
qed

section \<open>The event of a saved turn\<close>

lemma with_conditions_keeps [simp]:
  "ev_id (with_conditions c e) = ev_id e" "ev_status (with_conditions c e) = ev_status e"
  "ev_club_id (with_conditions c e) = ev_club_id e" "ev_plan_revision (with_conditions c e) = ev_plan_revision e"
  by (simp_all add: with_conditions_def)

lemma turn_event_keeps [simp]:
  "ev_id (turn_event now res e) = ev_id e" "ev_status (turn_event now res e) = ev_status e"
  "ev_club_id (turn_event now res e) = ev_club_id e" "ev_plan_revision (turn_event now res e) = ev_plan_revision e"
  by (simp_all add: turn_event_def Let_def touch_def)

text \<open>Rows that agree with the draft: the conditions are stored as they are.\<close>

definition shows_draft :: "draft \<Rightarrow> event \<Rightarrow> bool" where
  "shows_draft dr e \<longleftrightarrow> with_conditions (dr_conditions dr) e = e"

lemma shows_draft_frame [simp]:
  "shows_draft dr (e\<lparr>ev_plan_revision := n\<rparr>) \<longleftrightarrow> shows_draft dr e" "shows_draft dr (e\<lparr>ev_modified_at := t\<rparr>) \<longleftrightarrow> shows_draft dr e"
  "shows_draft dr (e\<lparr>ev_plan_warnings := w\<rparr>) \<longleftrightarrow> shows_draft dr e" "shows_draft dr (e\<lparr>ev_plan_excluded_steps := x\<rparr>) \<longleftrightarrow> shows_draft dr e"
  "shows_draft dr (e\<lparr>ev_saved_at := v\<rparr>) \<longleftrightarrow> shows_draft dr e"
  by (cases e; cases "pc_title (dr_conditions dr)"; simp add: shows_draft_def with_conditions_def split: list.split)+

lemma turn_event_shows: "shows_draft (vw_draft (pb_view res)) (turn_event now res e)"
proof -
  have "with_conditions c (with_conditions c e) = with_conditions c e" for c
    by (cases "pc_title c"; cases "the (pc_title c)"; simp add: with_conditions_def)
  then show ?thesis unfolding turn_event_def Let_def touch_def by (simp add: shows_draft_def [of _ "with_conditions _ _"]) (simp add: shows_draft_def)
qed

definition agrees :: "event \<Rightarrow> event \<Rightarrow> bool" where
  "agrees e e' \<longleftrightarrow> ev_id e' = ev_id e \<and> ev_status e' = ev_status e \<and> ev_club_id e' = ev_club_id e"

lemma bump_event:
  assumes "find_event d i = Some e"
  shows "\<exists>e'. find_event (bump_plan_revision now i d) i = Some e' \<and> agrees e e' \<and> (shows_draft dr e' \<longleftrightarrow> shows_draft dr e)"
  using assms get_row_key [of ev_id "events d" i e]
  by (auto simp: bump_plan_revision_def find_event_def put_event_def get_put_row touch_def agrees_def)

lemma turn_rows_event:
  assumes "find_event d (ev_id e) = Some e"
  shows "\<exists>e'. find_event (turn_rows now pj e c res n d) (ev_id e) = Some e' \<and> agrees e e' \<and> shows_draft (vw_draft (pb_view res)) e'"
proof -
  let ?d = "put_event (turn_event now res e) d"
  have put: "find_event ?d (ev_id e) = Some (turn_event now res e)"
    using assms by (simp add: find_event_def put_event_def get_put_row)
  have "find_event (put_conversation x y) i = find_event y i" for x y i by (simp add: find_event_def)
  then show ?thesis
    using put bump_event [OF put, of now "vw_draft (pb_view res)"] turn_event_shows [of res now e]
    by (auto simp: turn_rows_def Let_def agrees_def)
qed

lemma materialize_event:
  assumes "materialize_preview g now e p pd = Inr pd'" and "find_event (pd_db pd) (ev_id e) = Some e0" and "shows_draft dr e"
  shows "\<exists>e'. find_event (pd_db pd') (ev_id e) = Some e' \<and> agrees e e' \<and> shows_draft dr e'"
proof -
  from assms(1) obtain d2 n where ins: "insert_preview_steps g now (ev_id e) 1 (pv_steps p) (pd_db (clear_plan (ev_id e) pd)) = Inr d2"
    and pd': "events (pd_db pd') = events (bump_plan_revision now (ev_id e) (put_event (described now p e) d2))"
    by (auto simp: materialize_preview_def Let_def and_then_eq_Inr)
  have "find_event d2 (ev_id e) = Some e0" using insert_preview_steps_frame [OF ins] assms(2) by (simp add: find_event_def)
  then have "find_event (put_event (described now p e) d2) (ev_id e) = Some (described now p e)"
    by (simp add: find_event_def put_event_def get_put_row described_def touch_def)
  from bump_event [OF this, of now dr] show ?thesis
    using assms(3) pd' by (auto simp: find_event_def agrees_def described_def touch_def)
qed

lemma save_turn_event:
  assumes "save_turn g now pj e c res n user pd = Inr pd'" and "find_event (pd_db pd) (ev_id e) = Some e"
  shows "\<exists>e'. find_event (pd_db pd') (ev_id e) = Some e' \<and> agrees e e' \<and> shows_draft (vw_draft (pb_view res)) e'"
proof -
  obtain pd1 where add: "add_chat_rows g (cv_id c) (turn_lines user (vw_reply (pb_view res))) (pd\<lparr>pd_db := turn_rows now pj e c res n (pd_db pd)\<rparr>) = Inr pd1"
    and gen: "(case generated_preview res of None \<Rightarrow> pd' = pd1 | Some p \<Rightarrow> materialize_preview g now (turn_event now res e) p pd1 = Inr pd')"
    using assms(1) by (rule save_turn_Inr)
  have "events (pd_db pd1) = events (turn_rows now pj e c res n (pd_db pd))" using add_chat_rows_frame [OF add] by auto
  then obtain e1 where e1: "find_event (pd_db pd1) (ev_id e) = Some e1" "agrees e e1" "shows_draft (vw_draft (pb_view res)) e1"
    using turn_rows_event [OF assms(2), of now pj c res n] by (auto simp: find_event_def)
  show ?thesis
  proof (cases "generated_preview res")
    case None
    then show ?thesis using gen e1 by auto
  next
    case (Some p)
    then have m: "materialize_preview g now (turn_event now res e) p pd1 = Inr pd'" using gen by simp
    from materialize_event [OF m _ turn_event_shows] e1(1) show ?thesis by (auto simp: agrees_def)
  qed
qed

lemma finish_event:
  assumes "finish_prepared g now pj p res user key pd = Inr (out, pd')"
  shows "\<exists>e e'. find_event (pd_db pd) (pt_event_id p) = Some e \<and> find_event (pd_db pd') (pt_event_id p) = Some e' \<and>
    ev_club_id e' = pt_club_id p \<and> ev_status e' = PLANNING \<and> shows_draft (vw_draft (pb_view res)) e'"
proof -
  obtain e c pd1 where e: "find_event (pd_db pd) (pt_event_id p) = Some e" "ev_club_id e = pt_club_id p" "ev_status e = PLANNING"
    and save: "save_turn g now pj e c res (pt_base_revision p + 1) user pd = Inr pd1"
    and pd': "pd' = (case key of None \<Rightarrow> pd1 | Some i \<Rightarrow> pd1\<lparr>pd_keys := save_response now i 200 out (pd_keys pd1)\<rparr>)"
    using assms by (rule finish_Inr)
  have i: "ev_id e = pt_event_id p" using e(1) by (simp add: find_event_def get_row_key)
  have db: "pd_db pd' = pd_db pd1" by (simp add: pd' split: option.split)
  show ?thesis using save_turn_event [OF save] e i unfolding db by (auto simp: agrees_def)
qed

lemma finish_stores_plan:
  assumes "finish_prepared g now pj p res user key pd = Inr (out, pd')" and "generated_preview res = Some v" and "fk_steps (pd_db pd)"
  shows "stored_plan (pt_event_id p) (pd_db pd') = map without_purpose (pv_steps v)"
    and "\<exists>e' r. find_event (pd_db pd') (pt_event_id p) = Some e' \<and> find_plan_review (pd_db pd') (pt_event_id p) = Some r \<and>
      pr_generated_revision r = ev_plan_revision e' \<and> pr_status r = Review_NOT_REQUESTED \<and>
      pr_baseline r = snapshot_plan (pt_event_id p) (pd_db pd')"
proof -
  obtain e c pd0 where e: "find_event (pd_db pd) (pt_event_id p) = Some e" "ev_status e = PLANNING"
    and save: "save_turn g now pj e c res (pt_base_revision p + 1) user pd = Inr pd0"
    and pd': "pd' = (case key of None \<Rightarrow> pd0 | Some i \<Rightarrow> pd0\<lparr>pd_keys := save_response now i 200 out (pd_keys pd0)\<rparr>)"
    using assms(1) by (rule finish_Inr)
  have i: "ev_id e = pt_event_id p" using e(1) by (simp add: find_event_def get_row_key)
  have db: "pd_db pd' = pd_db pd0" by (simp add: pd' split: option.split)
  let ?n = "pt_base_revision p + 1"
  obtain pd1 where add: "add_chat_rows g (cv_id c) (turn_lines user (vw_reply (pb_view res))) (pd\<lparr>pd_db := turn_rows now pj e c res ?n (pd_db pd)\<rparr>) = Inr pd1"
    and gen: "(case generated_preview res of None \<Rightarrow> pd0 = pd1 | Some p \<Rightarrow> materialize_preview g now (turn_event now res e) p pd1 = Inr pd0)"
    using save by (rule save_turn_Inr)
  have m: "materialize_preview g now (turn_event now res e) v pd1 = Inr pd0" using gen assms(2) by simp
  have tables: "steps (pd_db pd1) = steps (pd_db pd)" "actions (pd_db pd1) = actions (pd_db pd)"
    "events (pd_db pd1) = events (turn_rows now pj e c res ?n (pd_db pd))" using add_chat_rows_frame [OF add] by auto
  have "fk_steps (pd_db pd1)" using assms(3) by (simp add: fk_steps_def tables)
  from materialize_stores [OF m this] show "stored_plan (pt_event_id p) (pd_db pd') = map without_purpose (pv_steps v)"
    by (simp add: i db)
  obtain e1 where "find_event (pd_db pd1) (ev_id e) = Some e1"
    using turn_rows_event [of "pd_db pd" e now pj c res ?n] e(1) i tables(3) by (auto simp: find_event_def)
  with materialize_review [OF m] e(2) i db show "\<exists>e' r. find_event (pd_db pd') (pt_event_id p) = Some e' \<and> find_plan_review (pd_db pd') (pt_event_id p) = Some r \<and>
      pr_generated_revision r = ev_plan_revision e' \<and> pr_status r = Review_NOT_REQUESTED \<and>
      pr_baseline r = snapshot_plan (pt_event_id p) (pd_db pd')" by fastforce
qed

section \<open>What became of a request\<close>

definition request_rows :: "ident \<Rightarrow> ident \<Rightarrow> pystr \<Rightarrow> idempotency_key list \<Rightarrow> idempotency_key list" where
  "request_rows eid mid key rows =
     filter (\<lambda>r. idm_member_id r = mid \<and> idm_endpoint r \<in> {chat_endpoint eid, generate_endpoint eid} \<and> idm_key r = key) rows"

lemma lookup_request_rows:
  "lookup_request now eid mid key rows =
     (case request_rows eid mid key rows of
        [] \<Rightarrow> Not_saved
      | r # _ \<Rightarrow> if idm_status r = Key_COMPLETED then Completed (idm_response_body r) else if is_stale now r then Not_saved else Processing)"
proof -
  have "find P xs = (case filter P xs of [] \<Rightarrow> None | x # _ \<Rightarrow> Some x)" for P and xs :: "idempotency_key list"
    by (induction xs) auto
  then show ?thesis by (simp add: lookup_request_def request_rows_def split: list.split)
qed

definition completed :: "instant \<Rightarrow> dict \<Rightarrow> idempotency_key \<Rightarrow> idempotency_key" where
  "completed now out r =
     r\<lparr>idm_status := Key_COMPLETED, idm_response_status := Some 200, idm_response_body := Some out, idm_modified_at := now\<rparr>"

lemma request_rows_saved:
  "request_rows eid mid key (save_response now i 200 out rows) =
     map (\<lambda>r. if idm_id r = i then completed now out r else r) (request_rows eid mid key rows)"
  unfolding save_response_def request_rows_def completed_def by (induction rows) auto

lemma request_rows_released: "request_rows eid mid key (release i rows) = filter (\<lambda>r. idm_id r \<noteq> i) (request_rows eid mid key rows)"
  unfolding release_def request_rows_def by (induction rows) auto

lemma finish_saves_key:
  assumes "finish_prepared g now pj p res user (Some i) pd = Inr (out, pd')"
  shows "pd_keys pd' = save_response now i 200 out (pd_keys pd)"
proof -
  obtain e c pd1 where save: "save_turn g now pj e c res (pt_base_revision p + 1) user pd = Inr pd1"
    and pd': "pd' = (case Some i of None \<Rightarrow> pd1 | Some i \<Rightarrow> pd1\<lparr>pd_keys := save_response now i 200 out (pd_keys pd1)\<rparr>)"
    using assms by (rule finish_Inr)
  show ?thesis using save_turn_conversation(2) [OF save] pd' by simp
qed

text \<open>Right after a turn, its key tells whether it was saved; a turn that failed has changed nothing else.\<close>

lemma finish_turn_Inr: "finish_turn g now pj p key user answer pd = (Inr out, pd') \<longleftrightarrow>
    (\<exists>res. answer = Inr res \<and> finish_prepared g now pj p res user key pd = Inr (out, pd'))"
  by (auto simp: finish_turn_def split: sum.splits prod.splits)

lemma finish_turn_Inl: "finish_turn g now pj p key user answer pd = (Inl e, pd') \<Longrightarrow> pd' = release_key key pd"
  by (auto simp: finish_turn_def split: sum.splits prod.splits)

lemma turn_outcome_known:
  assumes "finish_turn g now pj p (Some i) user answer pd = (outcome, pd')"
    and "request_rows eid mid key (pd_keys pd) = [r]" and "idm_id r = i"
  shows "lookup_request t eid mid key (pd_keys pd') = (case outcome of Inl e \<Rightarrow> Not_saved | Inr out \<Rightarrow> Completed (Some out))"
    and "\<exists>e. outcome = Inl e \<Longrightarrow> pd_db pd' = pd_db pd \<and> pd_messages pd' = pd_messages pd"
proof -
  show "lookup_request t eid mid key (pd_keys pd') = (case outcome of Inl e \<Rightarrow> Not_saved | Inr out \<Rightarrow> Completed (Some out))"
  proof (cases outcome)
    case (Inl e)
    then show ?thesis using finish_turn_Inl [of g now pj p "Some i" user answer pd e pd'] assms
      by (simp add: lookup_request_rows release_key_def request_rows_released)
  next
    case (Inr out)
    then obtain res where "finish_prepared g now pj p res user (Some i) pd = Inr (out, pd')" using assms(1) by (auto simp: finish_turn_Inr)
    from finish_saves_key [OF this] show ?thesis using assms(2,3) Inr
      by (simp add: lookup_request_rows request_rows_saved completed_def)
  qed
  show "pd_db pd' = pd_db pd \<and> pd_messages pd' = pd_messages pd" if "\<exists>e. outcome = Inl e"
    using that assms(1) finish_turn_Inl by (fastforce simp: release_key_def)
qed

text \<open>
  Two requests that hold the same key, the second having taken it over: the first one to end saves its
  turn, the other one fails and deletes the key of the saved turn.
\<close>

lemma second_finish_fails:
  assumes "finish_prepared g now pj p res user key pd = Inr (out, pd1)" and "pk_conversations (pd_db pd)"
    and "pt_event_id p' = pt_event_id p" and "pt_base_revision p' = pt_base_revision p"
  shows "\<exists>e. finish_turn g' now' pj' p' key' user' answer pd1 = (Inl e, release_key key' pd1)"
proof (cases "finish_turn g' now' pj' p' key' user' answer pd1")
  case (Pair outcome pd2)
  show ?thesis
  proof (cases outcome)
    case (Inl e)
    then show ?thesis using Pair finish_turn_Inl [of g' now' pj' p' key' user' answer pd1 e pd2] by simp
  next
    case (Inr out')
    with Pair obtain res' where fin: "finish_prepared g' now' pj' p' res' user' key' pd1 = Inr (out', pd2)" by (auto simp: finish_turn_Inr)
    obtain c where "latest_conversation (pd_db pd1) (pt_event_id p') = Some c" "cv_base_revision c = pt_base_revision p'"
      using fin by (rule finish_Inr)
    then show ?thesis using finish_conversation(1) [OF assms(1,2)] assms(3,4) by auto
  qed
qed

lemma late_failure_deletes_key:
  assumes "finish_prepared g now pj p res user (Some i) pd = Inr (out, pd1)" and "pk_conversations (pd_db pd)"
    and "pt_event_id p' = pt_event_id p" and "pt_base_revision p' = pt_base_revision p"
    and "request_rows eid mid key (pd_keys pd) = [r]" and "idm_id r = i"
    and "finish_turn g' now' pj' p' (Some i) user' answer pd1 = (outcome, pd2)"
  shows "lookup_request t eid mid key (pd_keys pd2) = Not_saved" and "pd_db pd2 = pd_db pd1"
proof -
  obtain e where "finish_turn g' now' pj' p' (Some i) user' answer pd1 = (Inl e, release_key (Some i) pd1)"
    using second_finish_fails [OF assms(1-4)] by blast
  then have pd2: "pd2 = release_key (Some i) pd1" using assms(7) by simp
  show "lookup_request t eid mid key (pd_keys pd2) = Not_saved"
    using finish_saves_key [OF assms(1)] assms(5,6)
    by (simp add: pd2 release_key_def lookup_request_rows request_rows_released request_rows_saved completed_def)
  show "pd_db pd2 = pd_db pd1" by (simp add: pd2 release_key_def)
qed

section \<open>The next turn\<close>

lemma prepare_Inr:
  assumes "prepare g now pj check q pd = Inr (p, pd')"
  shows "pt_event_id p = tr_event_id q" and "pt_club_id p = tr_club_id q" and "pt_base_revision p = tr_base_revision q"
    and "cx_club_id (pt_request p) = tr_club_id q" and "cx_event_id (pt_request p) = tr_event_id q"
    and "cx_draft (pt_request p) = basis_draft (cx_resume_state (pt_request p))" and "check (pt_request p) = Inr ()"
    and "cx_base_revision (pt_request p) = tr_base_revision q"
proof -
  from assms obtain e where e: "find_event (pd_db pd) (tr_event_id q) = Some e" by (auto simp: prepare_def split: option.splits)
  then have i: "ev_id e = tr_event_id q" by (simp add: find_event_def get_row_key)
  have "pt_event_id p = tr_event_id q \<and> pt_club_id p = tr_club_id q \<and> pt_base_revision p = tr_base_revision q \<and>
    cx_club_id (pt_request p) = tr_club_id q \<and> cx_event_id (pt_request p) = tr_event_id q \<and>
    cx_draft (pt_request p) = basis_draft (cx_resume_state (pt_request p)) \<and> check (pt_request p) = Inr () \<and>
    cx_base_revision (pt_request p) = tr_base_revision q"
    using assms e i by (auto simp: prepare_def Let_def and_then_eq_Inr split: if_splits sum.splits)
  then show "pt_event_id p = tr_event_id q" "pt_club_id p = tr_club_id q" "pt_base_revision p = tr_base_revision q"
    "cx_club_id (pt_request p) = tr_club_id q" "cx_event_id (pt_request p) = tr_event_id q"
    "cx_draft (pt_request p) = basis_draft (cx_resume_state (pt_request p))" "check (pt_request p) = Inr ()"
    "cx_base_revision (pt_request p) = tr_base_revision q" by simp_all
qed

text \<open>
  A conversation whose stored state is of the event, and of the conversation itself: it is what the next
  request is built from, and the request validates.
\<close>

lemma prepare_resumes:
  assumes "find_event (pd_db pd) (tr_event_id q) = Some e" and "ev_club_id e = tr_club_id q" and "ev_status e = PLANNING"
    and "latest_conversation (pd_db pd) (tr_event_id q) = Some c" and "cv_base_revision c = tr_base_revision q"
    and "cv_resume_state c = Some (pj_state pj st)" and "parse_resume_state pj (pj_state pj st) = Inr st"
    and "rs_club_id st = tr_club_id q" and "rs_event_id st = tr_event_id q" and "rs_conversation_id st = cv_id c"
  shows "\<exists>p pd'. prepare g now pj validate_resume q pd = Inr (p, pd') \<and> cx_resume_state (pt_request p) = Some st"
proof -
  have "ev_id e = tr_event_id q" using assms(1) by (simp add: find_event_def get_row_key)
  then show ?thesis
    using assms by (simp add: prepare_def get_or_create_conversation_def conversation_state_def validate_resume_def basis_draft_def Let_def)
qed

lemma saved_turn_resumes:
  assumes "finish_prepared g now pj p res user key pd = Inr (out, pd')" and "pk_conversations (pd_db pd)"
    and "latest_conversation (pd_db pd) (pt_event_id p) = Some c"
    and "parse_resume_state pj (pj_state pj (pb_next_state res)) = Inr (pb_next_state res)"
    and "rs_club_id (pb_next_state res) = pt_club_id p" and "rs_event_id (pb_next_state res) = pt_event_id p"
    and "rs_conversation_id (pb_next_state res) = cv_id c"
    and "q = \<lparr>tr_club_id = pt_club_id p, tr_event_id = pt_event_id p, tr_member_id = m, tr_base_revision = pt_base_revision p + 1\<rparr>"
  shows "\<exists>p' pd''. prepare g' now' pj validate_resume q pd' = Inr (p', pd'') \<and> cx_resume_state (pt_request p') = Some (pb_next_state res)"
proof -
  obtain e' where e': "find_event (pd_db pd') (pt_event_id p) = Some e'" "ev_club_id e' = pt_club_id p" "ev_status e' = PLANNING"
    using finish_event [OF assms(1)] by auto
  have "latest_conversation (pd_db pd') (pt_event_id p) = Some (saved_conversation pj res (pt_base_revision p + 1) c)"
    using finish_conversation(1) [OF assms(1,2)] assms(3) by auto
  then show ?thesis using e' assms(4-8) by (intro prepare_resumes [where c = "saved_conversation pj res (pt_base_revision p + 1) c"]) auto
qed

section \<open>Failures before the model is asked\<close>

text \<open>A stored state that cannot be read is an error no handler knows.\<close>

lemma unreadable_state:
  assumes "find_event (pd_db pd) (tr_event_id q) = Some e" and "ev_club_id e = tr_club_id q" and "ev_status e = PLANNING"
    and "latest_conversation (pd_db pd) (tr_event_id q) = Some c" and "cv_base_revision c = tr_base_revision q"
    and "cv_resume_state c = Some v" and "parse_resume_state pj v = Inl x"
  shows "prepare g now pj check q pd = Inl (Unhandled ''PlanningStateError'')"
proof -
  have "ev_id e = tr_event_id q" using assms(1) by (simp add: find_event_def get_row_key)
  then show ?thesis using assms by (simp add: prepare_def get_or_create_conversation_def conversation_state_def)
qed

lemma repeated_message:
  assumes "find_event (pd_db pd) (tr_event_id q) = Some e" and "ev_club_id e = tr_club_id q" and "ev_status e = PLANNING"
    and "latest_conversation (pd_db pd) (tr_event_id q) = Some c" and "cv_base_revision c = tr_base_revision q"
    and "cv_resume_state c = Some v" and "parse_resume_state pj v = Inr st" and "m \<in> set (sp_history (rs_payload st))" and "sm_id m = Some mid"
  shows "prepare g now pj (\<lambda>cx. validate_chat cx mid content) q pd = Inl (Unhandled ''ValidationError'')"
proof -
  have refused: "\<exists>x. validate_chat cx mid content = Inl x" if "cx_resume_state cx = Some st" for cx
  proof (cases "validate_resume cx")
    case (Inr u)
    moreover have "list_ex (\<lambda>m. sm_id m = Some mid) (stored_history (cx_resume_state cx))"
      using assms(8,9) that by (auto simp: stored_history_def list_ex_iff)
    ultimately show ?thesis by (simp add: validate_chat_def)
  qed (simp add: validate_chat_def)
  moreover have "ev_id e = tr_event_id q" using assms(1) by (simp add: find_event_def get_row_key)
  moreover have "(case validate_chat cx mid content of Inl _ \<Rightarrow> a | Inr u \<Rightarrow> f u) = a" if "cx_resume_state cx = Some st"
    for cx and a :: "api_error + prepared_turn \<times> plan_db" and f using refused [OF that] by auto
  ultimately show ?thesis using assms(1-7)
    by (simp add: prepare_def get_or_create_conversation_def conversation_state_def Let_def)
qed

text \<open>An amount beyond the width of the column: the answer of the model is lost.\<close>

lemma unstorable_turn:
  assumes "find_event (pd_db pd) (pt_event_id p) = Some e" and "ev_club_id e = pt_club_id p" and "ev_status e = PLANNING"
    and "latest_conversation (pd_db pd) (pt_event_id p) = Some c" and "cv_base_revision c = pt_base_revision p"
    and "pc_budget_total (dr_conditions (vw_draft (pb_view res))) = Some n" and "2147483647 < n"
  shows "finish_prepared g now pj p res user key pd = Inl (Unhandled ''DataError'')"
proof -
  have "ev_id e = pt_event_id p" using assms(1) by (simp add: find_event_def get_row_key)
  moreover have "ev_budget_total (turn_event now res e) = Some n"
    using assms(6) by (simp add: turn_event_def Let_def touch_def with_conditions_def) (auto dest: arg_cong [of _ _ ev_budget_total])
  then have "\<not> storable_event (turn_event now res e)"
    using assms(7) by (simp add: storable_event_def fits_int4_def)
  ultimately show ?thesis using assms(1-5) by (simp add: finish_prepared_def Let_def save_turn_def)
qed

end
