(* ===== verification/Demo_Plan.thy ===== *)
theory Demo_Plan
  imports Demo Plan_Turn_Facts
begin

text \<open>
  A planning conversation for the witnesses: one message that names the kind of event and the number of
  people, a model that calls the tool once and then answers, and a composition of two steps.
\<close>

definition demo_mid :: pystr where
  "demo_mid = lit ''m1''"

definition demo_text :: pystr where
  "demo_text = lit ''MT for 20 people''"

definition demo_evidence :: "string \<Rightarrow> message_evidence" where
  "demo_evidence s = \<lparr>evi_message_id = demo_mid, evi_quote = lit s\<rparr>"

definition demo_input :: conditions_input where
  "demo_input =
     \<lparr>ci_changes = [SetCondition (EventTypeValue Type_MT) Specified (demo_evidence ''MT''),
                    SetCondition (HeadcountValue 20) Tentative (demo_evidence ''20 people'')],
      ci_defer_topics = [\<lparr>tu_topic = Topic_dates, tu_evidence = demo_evidence ''MT''\<rparr>,
                         \<lparr>tu_topic = Topic_location, tu_evidence = demo_evidence ''MT''\<rparr>],
      ci_resume_topics = []\<rparr>"

definition demo_codec :: codec where
  "demo_codec =
     \<lparr>cd_conditions = (\<lambda>args. if args = [] then None else Some demo_input), cd_search = (\<lambda>_. None), cd_offer = (\<lambda>_. None),
      cd_generate = (\<lambda>_. None), cd_lookup = (\<lambda>_. None), cd_dump = (\<lambda>_. JStr []),
      cd_text = (\<lambda>c. case c of JStr s \<Rightarrow> s | _ \<Rightarrow> [])\<rparr>"

definition demo_model :: "agent_state \<Rightarrow> bool \<Rightarrow> ai_exn + message" where
  "demo_model s allow =
     Inr (if ag_model_calls s = 0
          then AIMessage None None (JStr []) [\<lparr>tc_id = lit ''c1'', tc_name = TOOL_NAME, tc_args = [(''changes'', JNull)]\<rparr>] False
          else AIMessage None None (JStr (lit ''Noted'')) [] False)"

text \<open>An identifier that is longer than all others.\<close>

definition demo_message_id :: "message list \<Rightarrow> pystr" where
  "demo_message_id ms = replicate (Suc (sum_list (map (\<lambda>m. case msg_id m of None \<Rightarrow> 0 | Some i \<Rightarrow> length i) ms))) 97"

fun demo_number :: "message list \<Rightarrow> message list \<Rightarrow> message list" where
  "demo_number used [] = []"
| "demo_number used (m # new) =
     (let n = (if msg_id m = None then set_msg_id (demo_message_id used) m else m) in n # demo_number (n # used) new)"

definition demo_add_messages :: "message list \<Rightarrow> message list \<Rightarrow> message list" where
  "demo_add_messages ms new = ms @ demo_number (ms @ new) new"

definition demo_plan_step :: "step_code \<Rightarrow> plan_step" where
  "demo_plan_step c =
     \<lparr>ps_code = c, ps_purpose = lit ''p'', ps_starts_at = None, ps_deadline = None,
      ps_plan_actions = map (\<lambda>t. \<lparr>pa_type = t, pa_title = lit ''do'', pa_due_date = None\<rparr>) (cat_actions (the (BY_CODE c)))\<rparr>"

definition demo_composition :: composition where
  "demo_composition =
     \<lparr>co_steps = map demo_plan_step [RECRUIT_NOTICE, EVENT_DAY],
      co_excluded_steps = map (\<lambda>c. \<lparr>xp_code = c, xp_reason = lit ''no''\<rparr>)
        (filter (\<lambda>c. c \<noteq> RECRUIT_NOTICE \<and> c \<noteq> EVENT_DAY) planning_codes),
      co_assumptions = [], co_open_questions = [], co_warnings = [lit ''w'']\<rparr>"

definition demo_services :: services where
  "demo_services =
     \<lparr>sv_invoke = demo_model, sv_records = None, sv_compose = (\<lambda>_. Inr demo_composition), sv_zone = (\<lambda>_ t. the (kst_date (Some t))),
      sv_preview_id = (\<lambda>_. lit ''v1''), sv_offer_id = (\<lambda>_. lit ''o1''), sv_add_messages = demo_add_messages\<rparr>"

lemma demo_message_id_fresh: "Some (demo_message_id ms) \<notin> msg_id ` set ms"
proof
  assume "Some (demo_message_id ms) \<in> msg_id ` set ms"
  then obtain m where m: "m \<in> set ms" "msg_id m = Some (demo_message_id ms)" by auto
  then have "length (demo_message_id ms) \<le> sum_list (map (\<lambda>m. case msg_id m of None \<Rightarrow> 0 | Some i \<Rightarrow> length i) ms)"
    by (intro member_le_sum_list) (force, simp)
  then show False by (simp add: demo_message_id_def)
qed

lemma demo_number_new:
  assumes "distinct (filter (\<lambda>i. i \<noteq> None) (map msg_id new))" and "msg_id ` set new - {None} \<subseteq> msg_id ` set used"
  shows "list_all2 numbered new (demo_number used new) \<and> distinct (map msg_id (demo_number used new)) \<and>
    msg_id ` set (demo_number used new) \<subseteq> (msg_id ` set new - {None}) \<union> - (msg_id ` set used)"
  using assms
proof (induction new arbitrary: used)
  case (Cons m new)
  define n where "n = (if msg_id m = None then set_msg_id (demo_message_id used) m else m)"
  define ns where "ns = demo_number (n # used) new"
  have ih: "list_all2 numbered new ns" "distinct (map msg_id ns)"
    "msg_id ` set ns \<subseteq> (msg_id ` set new - {None}) \<union> - (msg_id ` set (n # used))"
    using Cons.IH [of "n # used"] Cons.prems by (auto simp: ns_def split: if_splits)
  have n: "numbered m n" by (auto simp: numbered_def n_def)
  have id: "msg_id n \<in> (msg_id ` set (m # new) - {None}) \<union> - (msg_id ` set used)"
    using demo_message_id_fresh [of used] by (simp add: n_def)
  have "msg_id n \<notin> msg_id ` set ns"
    using ih(3) Cons.prems demo_message_id_fresh [of used] unfolding n_def by (cases "msg_id m = None") auto
  then have "distinct (map msg_id (n # ns))" using ih(2) by simp
  moreover have "msg_id ` set (n # ns) \<subseteq> (msg_id ` set (m # new) - {None}) \<union> - (msg_id ` set used)" using ih(3) id by auto
  moreover have "demo_number used (m # new) = n # ns" by (simp only: demo_number.simps Let_def n_def ns_def)
  ultimately show ?case using ih(1) n by (simp only: list.rel_inject)
qed simp

lemma demo_add_messages_appends: "appends demo_add_messages"
proof -
  have "list_all2 numbered new (demo_number (ms @ new) new) \<and> distinct (map msg_id (demo_number (ms @ new) new)) \<and>
    msg_id ` set (demo_number (ms @ new) new) \<inter> msg_id ` set ms = {}" if "appendable ms new" for ms new
  proof -
    have "msg_id ` set new - {None} \<subseteq> msg_id ` set (ms @ new)" by auto
    moreover have "(msg_id ` set new - {None}) \<inter> msg_id ` set ms = {}" using that unfolding appendable_def by blast
    ultimately show ?thesis using demo_number_new [of new "ms @ new"] that unfolding appendable_def by fastforce
  qed
  then show ?thesis unfolding appends_def demo_add_messages_def by blast
qed

lemma demo_drawn_ids: "drawn_ids demo_services"
  using demo_add_messages_appends
  by (auto simp: drawn_ids_def fresh_ids_def ports_of_def demo_services_def demo_model_def split: if_splits)

lemma demo_parses_valid: "parses_valid demo_codec"
proof -
  have "valid_input demo_input" by code_simp
  then show ?thesis by (simp add: parses_valid_def demo_codec_def)
qed

section \<open>Requests\<close>

text \<open>Two requests with the same key; the second one takes the key over six minutes later.\<close>

definition demo_stored :: json where
  "demo_stored = JObj [(''schema_version'', JInt 1)]"

definition demo_json :: "resume_state \<Rightarrow> plan_json" where
  "demo_json st =
     \<lparr>pj_state = (\<lambda>_. demo_stored), pj_validate = (\<lambda>_. Some st), pj_lookup = (\<lambda>_. JNull), pj_reason = (\<lambda>_. []), pj_digest = (\<lambda>_. ''h'')\<rparr>"

definition demo_meta :: "condition_field \<Rightarrow> condition_meta option" where
  "demo_meta = (\<lambda>_. None)(Field_event_type := Some \<lparr>cm_status = Specified, cm_evidence = demo_evidence ''MT''\<rparr>,
     Field_headcount := Some \<lparr>cm_status = Tentative, cm_evidence = demo_evidence ''20 people''\<rparr>)"

definition demo_draft :: draft where
  "demo_draft =
     \<lparr>dr_conditions = no_conditions\<lparr>pc_event_type := Some Type_MT, pc_headcount := Some 20\<rparr>, dr_condition_meta = demo_meta,
      dr_deferred_topics = [Topic_dates, Topic_location]\<rparr>"

definition demo_history :: "message list" where
  "demo_history =
     [HumanMessage (Some demo_mid) None (JStr demo_text),
      AIMessage (Some (replicate 3 97)) None (JStr []) [\<lparr>tc_id = lit ''c1'', tc_name = TOOL_NAME, tc_args = [(''changes'', JNull)]\<rparr>] False,
      ToolMessage (Some (replicate 6 97)) (Some TOOL_NAME) (JStr []) (lit ''c1'') True,
      AIMessage (Some (replicate 12 97)) None (JStr (lit ''Noted'')) [] False]"

definition demo_state :: "generation_state \<Rightarrow> resume_state" where
  "demo_state gen =
     \<lparr>rs_club_id = ''clb_1'', rs_event_id = ''evt_p'', rs_conversation_id = ''cnv_'',
      rs_payload = \<lparr>sp_basis_draft = demo_draft, sp_history = map store_message demo_history, sp_generation = gen\<rparr>\<rparr>"

definition demo_pj :: plan_json where
  "demo_pj = demo_json (demo_state no_generation)"

definition demo_plan_db :: plan_db where
  "demo_plan_db =
     \<lparr>pd_db = empty_db\<lparr>clubs := [demo_club], members := [demo_owner], events := [demo_event ''evt_p'' PLANNING],
         steps := [demo_step ''stp_1'' ''evt_p'' 1 COLLECT_FEES RECRUITING], actions := [demo_action ''act_1'' ''evt_p'' ''stp_1'' NOTICE None]\<rparr>,
      pd_messages = [], pd_keys = []\<rparr>"

definition demo_turn_request :: "int \<Rightarrow> turn_request" where
  "demo_turn_request n = \<lparr>tr_club_id = ''clb_1'', tr_event_id = ''evt_p'', tr_member_id = ''mem_1'', tr_base_revision = n\<rparr>"

definition demo_context :: "nat \<Rightarrow> resume_state option \<Rightarrow> instant \<Rightarrow> int \<Rightarrow> request_context" where
  "demo_context n st now v =
     \<lparr>cx_request_id = lit (''req_'' @ nanoid demo_rnd n), cx_club_id = ''clb_1'', cx_event_id = ''evt_p'', cx_conversation_id = ''cnv_'',
      cx_base_revision = v, cx_draft = basis_draft st, cx_resume_state = st, cx_reference_date = today_kst now, cx_timezone = SEOUL\<rparr>"

definition demo_prepared :: "nat \<Rightarrow> resume_state option \<Rightarrow> instant \<Rightarrow> int \<Rightarrow> prepared_turn" where
  "demo_prepared n st now v =
     \<lparr>pt_request = demo_context n st now v, pt_club_id = ''clb_1'', pt_event_id = ''evt_p'', pt_member_id = ''mem_1'', pt_base_revision = v\<rparr>"

definition demo_first :: prepared_turn where
  "demo_first = demo_prepared 1 None 0 0"

definition demo_second :: prepared_turn where
  "demo_second = demo_prepared 2 None (minutes 6) 0"

definition demo_turn_key :: "instant \<Rightarrow> idempotency_key" where
  "demo_turn_key now =
     new_key ''idk_1'' now \<lparr>kr_member = ''mem_1'', kr_endpoint = chat_endpoint ''evt_p'', kr_key = lit ''k'', kr_club = Some ''clb_1'', kr_hash = ''h''\<rparr>"

definition demo_conversation :: conversation where
  "demo_conversation = new_conversation demo_rnd 0 ''mem_1'' ''evt_p'' 0 (pd_db demo_plan_db)"

definition demo_pd :: "nat \<Rightarrow> instant \<Rightarrow> plan_db" where
  "demo_pd n now =
     demo_plan_db\<lparr>pd_db := (pd_db demo_plan_db)\<lparr>conversations := [demo_conversation], draws := n\<rparr>, pd_keys := [demo_turn_key now]\<rparr>"

definition demo_chat :: "instant \<Rightarrow> plan_db \<Rightarrow> (api_error + plan_turn) \<times> plan_db" where
  "demo_chat now pd = open_chat demo_rnd now demo_pj ''idk_1'' (demo_turn_request 0) demo_mid demo_text (Some (lit ''k'')) pd"

lemma demo_opens:
  "demo_chat 0 demo_plan_db = (Inr (Opened demo_first (Some ''idk_1'')), demo_pd 2 0)"
  "demo_chat (minutes 6) (demo_pd 2 0) = (Inr (Opened demo_second (Some ''idk_1'')), demo_pd 3 (minutes 6))"
  by code_simp+

definition demo_pd2 :: plan_db where
  "demo_pd2 = demo_pd 3 (minutes 6)"

lemma demo_keys:
  "request_rows ''evt_p'' ''mem_1'' (lit ''k'') (pd_keys demo_pd2) = [demo_turn_key (minutes 6)]" "idm_id (demo_turn_key (minutes 6)) = ''idk_1''"
  by code_simp+

lemma demo_conversations: "pk_conversations (pd_db demo_pd2)" "latest_conversation (pd_db demo_pd2) ''evt_p'' = Some demo_conversation"
  by (simp_all add: pk_conversations_def latest_conversation_def demo_pd2_def demo_pd_def demo_conversation_def new_conversation_def)

lemma demo_scope: "pt_event_id demo_second = ''evt_p''" "pt_base_revision demo_second = 0" "pt_club_id demo_second = ''clb_1''"
  "pt_event_id demo_first = ''evt_p''" "pt_base_revision demo_first = 0"
  by (simp_all add: demo_first_def demo_second_def demo_prepared_def)

section \<open>The answer and its storage\<close>

definition demo_view :: "pystr option \<Rightarrow> condition_field list \<Rightarrow> generation_result option \<Rightarrow> plan_view" where
  "demo_view reply changed gen =
     \<lparr>vw_reply = reply, vw_draft = demo_draft, vw_changed_fields = changed, vw_record_lookup = None,
      vw_generation_readiness = \<lparr>rd_can_generate = True, rd_reasons = []\<rparr>, vw_generation_result = gen,
      vw_preview_is_current = (gen \<noteq> None), vw_history_usage = Some (usage_of 4)\<rparr>"

definition demo_answer :: public_result where
  "demo_answer =
     \<lparr>pb_request_id = lit ''req_nn'', pb_base_revision = 0,
      pb_view = demo_view (Some (lit ''Noted'')) [Field_event_type, Field_headcount] None, pb_next_state = demo_state no_generation\<rparr>"

lemma demo_answers: "chat_answer demo_services demo_codec demo_second demo_mid demo_text = Inr demo_answer"
  by code_simp

definition demo_saved_event :: event where
  "demo_saved_event =
     (demo_event ''evt_p'' PLANNING)\<lparr>ev_event_type := Some Type_MT, ev_start_date := None, ev_expected_headcount := Some 20,
        ev_plan_revision := 1, ev_modified_at := minutes 7\<rparr>"

definition demo_saved_conversation :: conversation where
  "demo_saved_conversation = saved_conversation demo_pj demo_answer 1 demo_conversation"

definition demo_line :: "ident \<Rightarrow> int \<Rightarrow> message_role \<Rightarrow> pystr \<Rightarrow> chat_row" where
  "demo_line i n r t = \<lparr>ms_id = i, ms_conversation_id = Some ''cnv_'', ms_step_id = None, ms_action_id = None, ms_seq = Some n, ms_role = r, ms_content = t\<rparr>"

definition demo_saved :: plan_db where
  "demo_saved =
     \<lparr>pd_db = (pd_db demo_plan_db)\<lparr>events := [demo_saved_event], conversations := [demo_saved_conversation], draws := 5\<rparr>,
      pd_messages = [demo_line ''msg_nnn'' 1 Role_USER demo_text, demo_line ''msg_nnnn'' 2 Role_ASSISTANT (lit ''Noted'')],
      pd_keys = [completed (minutes 7) (view_out demo_pj demo_answer 1) (demo_turn_key (minutes 6))]\<rparr>"

lemma demo_finishes:
  "finish_prepared demo_rnd (minutes 7) demo_pj demo_second demo_answer (Some demo_text) (Some ''idk_1'') demo_pd2 =
     Inr (view_out demo_pj demo_answer 1, demo_saved)"
  by code_simp

text \<open>The plan that is generated from the saved conversation.\<close>

definition demo_third :: prepared_turn where
  "demo_third = demo_prepared 5 (Some (demo_state no_generation)) (minutes 8) 1"

definition demo_preview :: plan_preview where
  "demo_preview =
     \<lparr>pv_id = lit ''v1'', pv_basis_draft = demo_draft, pv_trigger = Button_Trigger (lit ''req_nnnnn''),
      pv_steps = map (\<lambda>s. catalogued s (the (BY_CODE (ps_code s)))) (co_steps demo_composition),
      pv_excluded_steps = map named_exclusion (co_excluded_steps demo_composition), pv_assumptions = [],
      pv_open_questions = [EVENT_DATE], pv_warnings = [lit ''w'']\<rparr>"

definition demo_generated :: public_result where
  "demo_generated =
     \<lparr>pb_request_id = lit ''req_nnnnn'', pb_base_revision = 1, pb_view = demo_view None [] (Some (generated demo_preview 1)),
      pb_next_state = demo_state (no_generation\<lparr>gs_preview := Some demo_preview\<rparr>)\<rparr>"

lemma demo_generation: "generate_answer demo_services demo_codec demo_third False = Inr demo_generated"
  by code_simp

definition demo_planned :: plan_db where
  "demo_planned = snd (finish_turn demo_rnd (minutes 9) demo_pj demo_third None None (Inr demo_generated) demo_saved)"

lemma demo_plans:
  "\<exists>out. finish_prepared demo_rnd (minutes 9) demo_pj demo_third demo_generated None None demo_saved = Inr (out, demo_planned)"
proof -
  let ?r = "finish_prepared demo_rnd (minutes 9) demo_pj demo_third demo_generated None None demo_saved"
  have "\<not> isl ?r" by code_simp
  then obtain out pd' where r: "?r = Inr (out, pd')" by (cases ?r) auto
  then show ?thesis by (simp add: demo_planned_def finish_turn_def)
qed

lemma demo_fk: "fk_steps (pd_db demo_saved)"
  by (simp add: fk_steps_def demo_saved_def demo_plan_db_def demo_step_def demo_action_def)

end
