(* ===== verification/Plan_Claims.thy ===== *)
theory Plan_Claims
  imports Demo_Plan
begin

text \<open>The properties of the planning conversation, with their witnesses on the conversation of \<open>Demo_Plan\<close>.\<close>

section \<open>Turns and their storage\<close>

text \<open>
  C9. No planning turn is lost: whatever turns are saved to a conversation, in whatever order and with
  whatever results, its revision has moved by exactly the number of the saved ones, and of the turns that
  were prepared at the same revision at most one is saved.
\<close>

theorem planning_turns_are_not_lost:
  assumes "pk_conversations (pd_db pd)" and "latest_conversation (pd_db pd) eid = Some c"
  shows "(\<exists>c'. latest_conversation (pd_db (plan_saves.run eid pd qs)) eid = Some c' \<and>
             cv_base_revision c' = cv_base_revision c + int (plan_saves.wins eid pd qs)) \<and>
         ((\<forall>(q, w) \<in> set qs. w = v) \<longrightarrow> plan_saves.wins eid pd qs \<le> 1)"
  using plan_saves.version_counts_wins [OF assms] plan_saves.at_most_one_win [OF assms(1)] by blast

theorem planning_turns_are_not_lost_witness:
  "plan_saves.wins ''evt_p'' demo_pd2
     [(\<lparr>sq_rnd = demo_rnd, sq_now = minutes 7, sq_json = demo_pj, sq_turn = demo_second, sq_result = demo_answer,
        sq_user = Some demo_text, sq_key = Some ''idk_1''\<rparr>, 0),
      (\<lparr>sq_rnd = demo_rnd, sq_now = minutes 8, sq_json = demo_pj, sq_turn = demo_first, sq_result = demo_answer,
        sq_user = Some demo_text, sq_key = Some ''idk_1''\<rparr>, 0)] \<le> 1"
  by (rule mp [OF conjunct2 [OF planning_turns_are_not_lost [OF demo_conversations, where v = 0]]]) simp

text \<open>
  C10. The stored plan is the generated one: after a turn whose generation succeeded, the steps and actions
  of the event, read back from the tables, are the steps and actions of the preview in its order, whatever
  plan the event had before, and the baseline of the plan review is the new plan at the new revision.
\<close>

theorem stored_plan_is_the_generated_one:
  assumes "finish_prepared g now pj p r user key pd = Inr (out, pd')" and "generated_preview r = Some v" and "fk_steps (pd_db pd)"
  shows "stored_plan (pt_event_id p) (pd_db pd') = map without_purpose (pv_steps v) \<and>
    (\<exists>e b. find_event (pd_db pd') (pt_event_id p) = Some e \<and> find_plan_review (pd_db pd') (pt_event_id p) = Some b \<and>
       pr_generated_revision b = ev_plan_revision e \<and> pr_status b = Review_NOT_REQUESTED \<and>
       pr_baseline b = snapshot_plan (pt_event_id p) (pd_db pd'))"
  using finish_stores_plan [OF assms] by blast

theorem stored_plan_is_the_generated_one_witness:
  "stored_plan ''evt_p'' (pd_db demo_planned) = map without_purpose (pv_steps demo_preview)"
proof -
  have v: "generated_preview demo_generated = Some demo_preview" by (simp add: generated_preview_def demo_generated_def demo_view_def generated_def)
  obtain out where fin: "finish_prepared demo_rnd (minutes 9) demo_pj demo_third demo_generated None None demo_saved = Inr (out, demo_planned)"
    using demo_plans by blast
  show ?thesis
    using stored_plan_is_the_generated_one [OF fin v demo_fk] by (simp add: demo_third_def demo_prepared_def)
qed

text \<open>
  Right after a planning turn its request key tells what became of it: the lookup answers with the
  response that was sent when the turn was saved, and with "not saved" when it failed, and then neither
  the tables nor the messages have changed.
\<close>

theorem turn_outcome_is_known:
  assumes "finish_turn g now pj p (Some i) user answer pd = (outcome, pd')"
    and "request_rows eid mid key (pd_keys pd) = [r]" and "idm_id r = i"
  shows "lookup_request t eid mid key (pd_keys pd') = (case outcome of Inl e \<Rightarrow> Not_saved | Inr out \<Rightarrow> Completed (Some out)) \<and>
    (\<forall>e. outcome = Inl e \<longrightarrow> pd_db pd' = pd_db pd \<and> pd_messages pd' = pd_messages pd)"
  using turn_outcome_known [OF assms] by blast

theorem turn_outcome_is_known_witness:
  "lookup_request (minutes 60) ''evt_p'' ''mem_1'' (lit ''k'') (pd_keys demo_saved) = Completed (Some (view_out demo_pj demo_answer 1))"
proof -
  have "finish_turn demo_rnd (minutes 7) demo_pj demo_second (Some ''idk_1'') (Some demo_text) (Inr demo_answer) demo_pd2 =
      (Inr (view_out demo_pj demo_answer 1), demo_saved)"
    using demo_finishes by (simp add: finish_turn_def)
  from turn_outcome_is_known [OF this demo_keys(1) demo_keys(2)] show ?thesis by simp
qed

text \<open>
  C29. A saved turn is where the next one starts: the request that is prepared from a conversation right
  after a turn was saved carries the state the assistant returned for it, and it validates, provided that
  the stored form of the state reads back.
\<close>

theorem saved_turn_is_resumed:
  assumes "finish_prepared g now pj p r user key pd = Inr (out, pd')" and "pk_conversations (pd_db pd)"
    and "latest_conversation (pd_db pd) (pt_event_id p) = Some c"
    and "parse_resume_state pj (pj_state pj (pb_next_state r)) = Inr (pb_next_state r)"
    and "rs_club_id (pb_next_state r) = pt_club_id p" and "rs_event_id (pb_next_state r) = pt_event_id p"
    and "rs_conversation_id (pb_next_state r) = cv_id c"
    and "q = \<lparr>tr_club_id = pt_club_id p, tr_event_id = pt_event_id p, tr_member_id = m, tr_base_revision = pt_base_revision p + 1\<rparr>"
  shows "\<exists>p' pd''. prepare g' now' pj validate_resume q pd' = Inr (p', pd'') \<and> cx_resume_state (pt_request p') = Some (pb_next_state r)"
  using assms by (rule saved_turn_resumes)

theorem saved_turn_is_resumed_witness:
  "\<exists>p' pd''. prepare demo_rnd (minutes 8) demo_pj validate_resume (demo_turn_request 1) demo_saved = Inr (p', pd'') \<and>
     cx_resume_state (pt_request p') = Some (pb_next_state demo_answer)"
proof -
  have c: "latest_conversation (pd_db demo_pd2) (pt_event_id demo_second) = Some demo_conversation"
    using demo_conversations(2) by (simp add: demo_scope)
  have scope: "parse_resume_state demo_pj (pj_state demo_pj (pb_next_state demo_answer)) = Inr (pb_next_state demo_answer)"
    "rs_club_id (pb_next_state demo_answer) = pt_club_id demo_second" "rs_event_id (pb_next_state demo_answer) = pt_event_id demo_second"
    "rs_conversation_id (pb_next_state demo_answer) = cv_id demo_conversation" by code_simp+
  have q: "demo_turn_request 1 = \<lparr>tr_club_id = pt_club_id demo_second, tr_event_id = pt_event_id demo_second, tr_member_id = ''mem_1'',
      tr_base_revision = pt_base_revision demo_second + 1\<rparr>" by (simp add: demo_turn_request_def demo_scope)
  show ?thesis by (rule saved_turn_is_resumed [OF demo_finishes demo_conversations(1) c scope q])
qed

section \<open>The assistant\<close>

text \<open>
  C16. A composed plan is accepted exactly when it is sound: every step of the catalogue is planned or
  excluded and none twice, the phases are in order, the steps and actions keep to the dates of the event
  and to the types the catalogue allows, and every assumption cites a fact that was given. An accepted
  plan is the composition with the names of the catalogue, for the draft and the request it was asked for.
\<close>

theorem accepted_plan_is_sound:
  "((\<exists>p. validate_plan uuid zone r co = Inr p) \<longleftrightarrow> sound_plan (zone (gi_timezone r)) r co) \<and>
   (\<forall>p. validate_plan uuid zone r co = Inr p \<longrightarrow>
      pv_steps p = map (\<lambda>s. catalogued s (the (BY_CODE (ps_code s)))) (co_steps co) \<and>
      pv_basis_draft p = gi_basis_draft r \<and> pv_trigger p = gi_trigger r)"
  using validate_plan_iff validate_plan_Inr(2,5,6) by blast

theorem accepted_plan_is_sound_witness:
  "sound_plan (the \<circ> kst_date \<circ> Some)
     \<lparr>gi_basis_draft = empty_draft, gi_trigger = Button_Trigger [], gi_messages = [], gi_reference_date = 0, gi_timezone = SEOUL,
      gi_reference_facts = []\<rparr> demo_composition"
proof -
  let ?z = "\<lambda>_. the \<circ> kst_date \<circ> Some" and ?r = "\<lparr>gi_basis_draft = empty_draft, gi_trigger = Button_Trigger [], gi_messages = [],
    gi_reference_date = 0, gi_timezone = SEOUL, gi_reference_facts = []\<rparr>"
  have "\<not> isl (validate_plan [] (\<lambda>_. the \<circ> kst_date \<circ> Some) ?r demo_composition)" by code_simp
  then obtain p where "validate_plan [] ?z ?r demo_composition = Inr p" by (cases "validate_plan [] ?z ?r demo_composition") auto
  then show ?thesis using conjunct1 [OF accepted_plan_is_sound [of "[]" ?z ?r demo_composition]] by blast
qed

text \<open>
  C18. A turn of the assistant ends: whatever the model answers, it is asked at most four times and at most
  three of its tool calls are executed, so the recursion limit of the graph is never reached. The
  identifiers of messages are assumed to be new.
\<close>

theorem planning_turn_ends:
  assumes "fresh_ids po"
  shows "run_planning_agent_turn po cd r \<noteq> Inl GraphRecursion \<and>
    (\<forall>s. run_planning_agent_turn po cd r = Inr s \<longrightarrow> ag_model_calls s \<le> 4 \<and> ag_tool_calls s \<le> 3)"
  using turn_ends [OF assms] by blast

definition demo_agent_turn :: turn_input where
  "demo_agent_turn = projr (to_agent_input (pt_request demo_second) demo_mid demo_text)"

definition demo_agent_end :: agent_state where
  "demo_agent_end = projr (run_planning_agent_turn (ports_of demo_services ''clb_1'') demo_codec demo_agent_turn)"

lemma demo_agent_runs:
  "run_planning_agent_turn (ports_of demo_services ''clb_1'') demo_codec demo_agent_turn = Inr demo_agent_end"
proof -
  have "\<not> isl (run_planning_agent_turn (ports_of demo_services ''clb_1'') demo_codec demo_agent_turn)" by code_simp
  then show ?thesis unfolding demo_agent_end_def by (simp add: sum.collapse(2))
qed

theorem planning_turn_ends_witness:
  "ag_model_calls demo_agent_end \<le> 4 \<and> ag_tool_calls demo_agent_end \<le> 3"
proof -
  have "fresh_ids (ports_of demo_services ''clb_1'')" using demo_drawn_ids unfolding drawn_ids_def by blast
  from planning_turn_ends [OF this, of demo_codec demo_agent_turn] show ?thesis using demo_agent_runs by blast
qed

text \<open>
  C19. The draft of a conversation stays well formed: a turn that starts from a valid draft and a
  consistent generation state ends with such a draft and such a state, whatever tools the model calls with
  whatever arguments. Parsed arguments satisfy their model.
\<close>

theorem planning_drafts_stay_valid:
  assumes "run_planning_agent_turn po cd r = Inr s" and "parses_valid cd"
    and "valid_draft (ti_draft r)" and "consistent_generation_state (ti_generation r)"
  shows "valid_draft (ag_draft s) \<and> consistent_generation_state (ag_generation s)"
  using turn_good [OF assms] by (simp add: good_state_def)

theorem planning_drafts_stay_valid_witness:
  "valid_draft (ag_draft demo_agent_end) \<and> consistent_generation_state (ag_generation demo_agent_end)"
proof -
  have "valid_draft (ti_draft demo_agent_turn)" "consistent_generation_state (ti_generation demo_agent_turn)" by code_simp+
  from planning_drafts_stay_valid [OF demo_agent_runs demo_parses_valid this] show ?thesis .
qed



text \<open>
  C27. A chat leaves a state that can be resumed: its history validates in both of its forms, every message
  has an identifier, the payload satisfies the contract, and it belongs to the club, the event and the
  conversation of the request. If it fails, it is neither for the recursion limit nor for a history that
  is out of order.
\<close>

theorem chat_leaves_a_resumable_state:
  assumes "drawn_ids sv" and "resumable (cx_resume_state q)"
  shows "case chat_planning sv cd q mid content of
      Inl e \<Rightarrow> e \<noteq> HistoryError \<and> e \<noteq> GraphRecursion
    | Inr r \<Rightarrow> resumable (Some (pb_next_state r)) \<and> (\<exists>ms. restore_history (Some (pb_next_state r)) = Inr ms) \<and>
        (rs_club_id (pb_next_state r), rs_event_id (pb_next_state r), rs_conversation_id (pb_next_state r)) =
        (cx_club_id q, cx_event_id q, cx_conversation_id q)"
proof (cases "chat_planning sv cd q mid content")
  case (Inl e)
  then show ?thesis using chat_planning_errors [OF assms, of cd mid content] by auto
next
  case (Inr r)
  then show ?thesis
    using chat_planning_Inr [OF assms Inr] restore_resumable [of "Some (pb_next_state r)"] by auto
qed

theorem chat_leaves_a_resumable_state_witness:
  "resumable (Some (pb_next_state demo_answer))"
proof -
  have "resumable (cx_resume_state (pt_request demo_second))"
    by (simp add: resumable_def demo_second_def demo_prepared_def demo_context_def)
  from chat_leaves_a_resumable_state [OF demo_drawn_ids this, of demo_codec demo_mid demo_text] show ?thesis
    using demo_answers by (simp add: chat_answer_def)
qed

section \<open>Failures\<close>

text \<open>
  C32. A late failure hides a saved turn. When a second request has taken over the key of a first one that
  is still running, and its turn is saved, the first one cannot save any more; as it ends, it deletes the
  key although the key is completed, and the lookup answers "not saved" for the turn that is stored.
\<close>

theorem late_failure_hides_saved_turn:
  assumes "finish_prepared g now pj p r user (Some i) pd = Inr (out, pd1)" and "pk_conversations (pd_db pd)"
    and "pt_event_id p' = pt_event_id p" and "pt_base_revision p' = pt_base_revision p"
    and "request_rows eid mid key (pd_keys pd) = [k]" and "idm_id k = i"
    and "finish_turn g' now' pj' p' (Some i) user' answer pd1 = (outcome, pd2)"
  shows "lookup_request t eid mid key (pd_keys pd1) = Completed (Some out) \<and>
    lookup_request t eid mid key (pd_keys pd2) = Not_saved \<and> pd_db pd2 = pd_db pd1"
proof -
  have "finish_turn g now pj p (Some i) user (Inr r) pd = (Inr out, pd1)" using assms(1) by (simp add: finish_turn_def)
  from turn_outcome_known(1) [OF this assms(5,6)] late_failure_deletes_key [OF assms] show ?thesis by simp
qed

theorem late_failure_hides_saved_turn_witness:
  "fst (demo_chat 0 demo_plan_db) = Inr (Opened demo_first (Some ''idk_1'')) \<and>
   fst (demo_chat (minutes 6) (snd (demo_chat 0 demo_plan_db))) = Inr (Opened demo_second (Some ''idk_1'')) \<and>
   lookup_request (minutes 10) ''evt_p'' ''mem_1'' (lit ''k'')
     (pd_keys (snd (finish_turn demo_rnd (minutes 9) demo_pj demo_first (Some ''idk_1'') (Some demo_text) (Inl (AIFailure AITimeoutError)) demo_saved))) =
   Not_saved"
proof -
  obtain outcome pd2 where late: "finish_turn demo_rnd (minutes 9) demo_pj demo_first (Some ''idk_1'') (Some demo_text)
      (Inl (AIFailure AITimeoutError)) demo_saved = (outcome, pd2)" by fastforce
  have "pt_event_id demo_first = pt_event_id demo_second" "pt_base_revision demo_first = pt_base_revision demo_second"
    by (simp_all add: demo_scope)
  from late_failure_hides_saved_turn [OF demo_finishes demo_conversations(1) this demo_keys late, of "minutes 10"]
  show ?thesis using late demo_opens by simp
qed

text \<open>
  A conversation that cannot be continued is an internal error: when the stored state does not read
  back, or the message that is sent is already part of it, the request ends with an exception that no
  handler turns into an answer, although the errors of the state have one of their own.
\<close>

theorem unreadable_conversation_is_unhandled:
  assumes "find_event (pd_db pd) (tr_event_id q) = Some e" and "ev_club_id e = tr_club_id q" and "ev_status e = PLANNING"
    and "latest_conversation (pd_db pd) (tr_event_id q) = Some c" and "cv_base_revision c = tr_base_revision q"
    and "cv_resume_state c = Some v"
    and "(\<exists>x. parse_resume_state pj v = Inl x) \<or> (\<exists>st m. parse_resume_state pj v = Inr st \<and> m \<in> set (sp_history (rs_payload st)) \<and> sm_id m = Some mid)"
  shows "\<exists>what. prepare g now pj (\<lambda>cx. validate_chat cx mid content) q pd = Inl (Unhandled what) \<and> status_code (Unhandled what) = 500"
  using assms(7) unreadable_state [OF assms(1-6)] repeated_message [OF assms(1-6)] by fastforce

theorem unreadable_conversation_is_unhandled_witness:
  "\<exists>what. prepare demo_rnd (minutes 8) demo_pj (\<lambda>cx. validate_chat cx demo_mid demo_text) (demo_turn_request 1) demo_saved =
     Inl (Unhandled what) \<and> status_code (Unhandled what) = 500"
proof -
  have e: "find_event (pd_db demo_saved) (tr_event_id (demo_turn_request 1)) = Some demo_saved_event"
    "ev_club_id demo_saved_event = tr_club_id (demo_turn_request 1)" "ev_status demo_saved_event = PLANNING" by code_simp+
  have c: "latest_conversation (pd_db demo_saved) (tr_event_id (demo_turn_request 1)) = Some demo_saved_conversation"
    "cv_base_revision demo_saved_conversation = tr_base_revision (demo_turn_request 1)"
    "cv_resume_state demo_saved_conversation = Some demo_stored" by code_simp+
  have "list_ex (\<lambda>m. sm_id m = Some demo_mid) (sp_history (rs_payload (demo_state no_generation)))" by code_simp
  moreover have "parse_resume_state demo_pj demo_stored = Inr (demo_state no_generation)"
    by (simp add: demo_pj_def demo_json_def demo_stored_def parse_resume_state_def)
  ultimately have "\<exists>st m. parse_resume_state demo_pj demo_stored = Inr st \<and> m \<in> set (sp_history (rs_payload st)) \<and> sm_id m = Some demo_mid"
    by (auto simp: list_ex_iff)
  from unreadable_conversation_is_unhandled [OF e c disjI2 [OF this]] show ?thesis .
qed

text \<open>
  C34. An amount that is too large loses the turn: the contracts of the assistant bound a budget only from
  below, the column has 32 bits, so the answer of the model is dropped with an unhandled exception.
\<close>

theorem oversized_budget_loses_the_turn:
  assumes "find_event (pd_db pd) (pt_event_id p) = Some e" and "ev_club_id e = pt_club_id p" and "ev_status e = PLANNING"
    and "latest_conversation (pd_db pd) (pt_event_id p) = Some c" and "cv_base_revision c = pt_base_revision p"
    and "pc_budget_total (dr_conditions (vw_draft (pb_view r))) = Some n" and "2147483647 < n"
  shows "finish_turn g now pj p key user (Inr r) pd = (Inl (Unhandled ''DataError''), release_key key pd)"
  using unstorable_turn [OF assms] by (simp add: finish_turn_def)

definition demo_budget :: public_result where
  "demo_budget = demo_answer\<lparr>pb_view := (pb_view demo_answer)\<lparr>vw_draft := empty_draft\<lparr>dr_conditions := no_conditions\<lparr>pc_budget_total := Some 3000000000\<rparr>\<rparr>\<rparr>\<rparr>"

theorem oversized_budget_loses_the_turn_witness:
  "valid_conditions (dr_conditions (vw_draft (pb_view demo_budget))) \<and>
   finish_turn demo_rnd (minutes 7) demo_pj demo_second None None (Inr demo_budget) demo_pd2 = (Inl (Unhandled ''DataError''), demo_pd2)"
proof -
  have e: "find_event (pd_db demo_pd2) (pt_event_id demo_second) = Some (demo_event ''evt_p'' PLANNING)"
    "ev_club_id (demo_event ''evt_p'' PLANNING) = pt_club_id demo_second" "ev_status (demo_event ''evt_p'' PLANNING) = PLANNING" by code_simp+
  have c: "latest_conversation (pd_db demo_pd2) (pt_event_id demo_second) = Some demo_conversation"
    "cv_base_revision demo_conversation = pt_base_revision demo_second" by code_simp+
  have "valid_conditions (dr_conditions (vw_draft (pb_view demo_budget)))" by code_simp
  moreover have "pc_budget_total (dr_conditions (vw_draft (pb_view demo_budget))) = Some 3000000000" by (simp add: demo_budget_def)
  ultimately show ?thesis using oversized_budget_loses_the_turn [OF e c] by (simp add: release_key_def)
qed

end
