(* ===== verification/Regex.thy ===== *)
theory Regex
  imports Expense_Csv
begin

text \<open>
  The part of Python's \<open>re\<close> that the record components use. A pattern is a datatype; \<open>rx_matches\<close> lists
  its matches at the start of a text in the order in which the backtracking matcher tries them, each with
  its named groups, what it consumed and the rest. Repetitions are over character classes only, so the
  matcher is primitive recursive. \<open>re.match\<close> takes the first match, \<open>re.search\<close> the first one of the
  leftmost start.
\<close>

datatype rx =
    One "int \<Rightarrow> bool"
  | Many "int \<Rightarrow> bool"
  | Follows rx rx
  | Either rx rx
  | Maybe rx
  | Ahead rx
  | Ends
  | Group string rx

type_synonym rx_match = "(string \<times> pystr) list \<times> pystr \<times> pystr"

primrec rx_matches :: "rx \<Rightarrow> pystr \<Rightarrow> rx_match list" where
  "rx_matches (One p) s = (case s of [] \<Rightarrow> [] | c # t \<Rightarrow> if p c then [([], [c], t)] else [])"
| "rx_matches (Many p) s = map (\<lambda>n. ([], take n s, drop n s)) (rev [0..<Suc (length (takeWhile p s))])"
| "rx_matches (Follows a b) s =
     concat (map (\<lambda>(g, x, t). map (\<lambda>(h, y, r). (g @ h, x @ y, r)) (rx_matches b t)) (rx_matches a s))"
| "rx_matches (Either a b) s = rx_matches a s @ rx_matches b s"
| "rx_matches (Maybe a) s = rx_matches a s @ [([], [], s)]"
| "rx_matches (Ahead a) s = (if rx_matches a s = [] then [] else [([], [], s)])"
| "rx_matches Ends s = (if s = [] \<or> s = [10] then [([], [], s)] else [])"
| "rx_matches (Group n a) s = map (\<lambda>(g, x, t). ((n, x) # g, x, t)) (rx_matches a s)"

definition rx_match :: "rx \<Rightarrow> pystr \<Rightarrow> rx_match option" where
  "rx_match r s = (case rx_matches r s of [] \<Rightarrow> None | m # _ \<Rightarrow> Some m)"

fun rx_search :: "rx \<Rightarrow> pystr \<Rightarrow> rx_match option" where
  "rx_search r [] = rx_match r []"
| "rx_search r (c # s) = (case rx_match r (c # s) of Some m \<Rightarrow> Some m | None \<Rightarrow> rx_search r s)"

text \<open>Abbreviations for a sequence of patterns, \<open>x+\<close> over a class, a literal and the usual classes.\<close>

fun rx_seq :: "rx list \<Rightarrow> rx" where
  "rx_seq [] = Many (\<lambda>_. False)"
| "rx_seq [r] = r"
| "rx_seq (r # rs) = Follows r (rx_seq rs)"

definition many1 :: "(int \<Rightarrow> bool) \<Rightarrow> rx" where
  "many1 p = Follows (One p) (Many p)"

definition exactly :: "int \<Rightarrow> rx" where
  "exactly c = One (\<lambda>x. x = c)"

definition literal :: "pystr \<Rightarrow> rx" where
  "literal s = rx_seq (map exactly s)"

definition digit :: "unicode \<Rightarrow> int \<Rightarrow> bool" where
  "digit u c \<longleftrightarrow> decimal u c \<noteq> None"

text \<open>A match splits the text it was found in.\<close>

lemma rx_matches_splits: "(g, x, t) \<in> set (rx_matches r s) \<Longrightarrow> x @ t = s"
proof (induction r arbitrary: s g x t)
  case (Follows a b)
  then show ?case by fastforce
qed (auto split: list.splits if_splits)

lemma rx_match_splits: "rx_match r s = Some (g, x, t) \<Longrightarrow> x @ t = s"
  using rx_matches_splits [of g x t r s] by (auto simp: rx_match_def split: list.splits)

end
