(* ===== verification/Chunking.thy ===== *)
theory Chunking
  imports Regex
begin

text \<open>
  Splitting a parsed record into search chunks, \<open>app/ai/features/retrieval/chunking.py\<close>: rows of a ledger
  are grouped by sheet into parts of similar size, pages of a document are divided at their headings and
  cut into overlapping windows. The contract classes refuse blank texts, so making a chunk can raise.
\<close>

section \<open>Blocks and chunks\<close>

record record_block =
  rb_text :: pystr
  rb_label :: pystr

record text_chunk =
  tk_text :: pystr
  tk_label :: pystr
  tk_block_indexes :: "nat list"

text \<open>\<open>ValidationError\<close> of the contract classes and \<open>ValueError\<close> of \<open>int\<close> on more than 4300 digits.\<close>

datatype chunk_error = BlankText | TooManyDigits

definition valid_block :: "record_block \<Rightarrow> bool" where
  "valid_block b \<longleftrightarrow> py_strip (rb_text b) \<noteq> [] \<and> py_strip (rb_label b) \<noteq> []"

definition make_chunk :: "pystr \<Rightarrow> pystr \<Rightarrow> nat list \<Rightarrow> chunk_error + text_chunk" where
  "make_chunk text label indexes =
     (if py_strip text = [] \<or> py_strip label = [] \<or> indexes = [] then Inl BlankText
      else Inr \<lparr>tk_text = text, tk_label = label, tk_block_indexes = indexes\<rparr>)"

fun make_all :: "('a \<Rightarrow> 'e + 'b) \<Rightarrow> 'a list \<Rightarrow> 'e + 'b list" where
  "make_all f [] = Inr []"
| "make_all f (x # xs) = and_then (f x) (\<lambda>y. and_then (make_all f xs) (\<lambda>ys. Inr (y # ys)))"

definition CHUNK_MAX_CHARS :: nat where
  "CHUNK_MAX_CHARS = 1000"

definition CHUNK_OVERLAP_CHARS :: nat where
  "CHUNK_OVERLAP_CHARS = 150"

text \<open>\<open>"\n".join(lines)\<close> and its length\<close>

fun join_lines :: "pystr list \<Rightarrow> pystr" where
  "join_lines [] = []"
| "join_lines [l] = l"
| "join_lines (l # ls) = l @ [10] @ join_lines ls"

definition joined_length :: "pystr list \<Rightarrow> int" where
  "joined_length ls = sum_list (map (\<lambda>l. int (length l)) ls) + int (length ls) - 1"

section \<open>Ledgers\<close>

definition row_label :: "unicode \<Rightarrow> rx" where
  "row_label u =
     rx_seq [Maybe (Follows (Group ''sheet'' (many1 (\<lambda>c. c \<noteq> 10))) (literal [32, 183, 32])),
             Group ''row'' (many1 (digit u)), exactly 54665, Ends]"

record ledger_row =
  lr_index :: nat
  lr_sheet :: "pystr option"
  lr_number :: int
  lr_text :: pystr

definition parse_ledger_row :: "unicode \<Rightarrow> nat \<Rightarrow> record_block \<Rightarrow> chunk_error + ledger_row option" where
  "parse_ledger_row u i b =
     (case rx_match (row_label u) (rb_label b) of
        None \<Rightarrow> Inr None
      | Some (g, _, _) \<Rightarrow>
          (case py_int u (the (map_of g ''row'')) of
             None \<Rightarrow> Inl TooManyDigits
           | Some n \<Rightarrow> Inr (Some \<lparr>lr_index = i, lr_sheet = map_of g ''sheet'', lr_number = n, lr_text = rb_text b\<rparr>)))"

text \<open>
  \<open>_split_evenly\<close>. The target size is \<open>total / ceil(total / CHUNK_MAX_CHARS)\<close> in floating point; a size
  reaches it exactly when \<open>size * parts \<ge> total\<close>, since both quotients are far below the precision of a
  double.
\<close>

definition total_size :: "ledger_row list \<Rightarrow> int" where
  "total_size rows = sum_list (map (\<lambda>r. int (length (lr_text r))) rows) + int (length rows) - 1"

definition parts_needed :: "int \<Rightarrow> int" where
  "parts_needed tot = (tot + int CHUNK_MAX_CHARS - 1) div int CHUNK_MAX_CHARS"

fun split_loop :: "int \<Rightarrow> ledger_row list \<Rightarrow> int \<Rightarrow> ledger_row list \<Rightarrow> ledger_row list list" where
  "split_loop tot current sz [] = [current]"
| "split_loop tot current sz (r # rs) =
     (let added = int (length (lr_text r)) + (if current \<noteq> [] then 1 else 0) in
      if current \<noteq> [] \<and> (sz * parts_needed tot \<ge> tot \<or> sz + added > int CHUNK_MAX_CHARS)
      then current # split_loop tot [r] (int (length (lr_text r))) rs
      else split_loop tot (current @ [r]) (sz + added) rs)"

definition split_evenly :: "ledger_row list \<Rightarrow> ledger_row list list" where
  "split_evenly rows = split_loop (total_size rows) [] 0 rows"

definition ledger_chunk :: "ledger_row list \<Rightarrow> chunk_error + text_chunk" where
  "ledger_chunk rows =
     (let first = hd rows; final = last rows;
          span = (if length rows = 1 then int_text (lr_number first) @ [54665]
                  else int_text (lr_number first) @ [126] @ int_text (lr_number final) @ [54665]);
          label = (case lr_sheet first of None \<Rightarrow> span | Some sheet \<Rightarrow> sheet @ [32, 183, 32] @ span)
      in make_chunk (join_lines (map lr_text rows)) label (map lr_index rows))"

definition flush_run :: "ledger_row list \<Rightarrow> chunk_error + text_chunk list" where
  "flush_run run = (if run = [] then Inr [] else make_all ledger_chunk (split_evenly run))"

fun ledger_loop :: "unicode \<Rightarrow> nat \<Rightarrow> ledger_row list \<Rightarrow> record_block list \<Rightarrow> chunk_error + text_chunk list" where
  "ledger_loop u i run [] = flush_run run"
| "ledger_loop u i run (b # bs) =
     and_then (parse_ledger_row u i b) (\<lambda>row.
       let ends = (run \<noteq> [] \<and> (case row of None \<Rightarrow> True | Some r \<Rightarrow> lr_sheet r \<noteq> lr_sheet (last run))) in
       and_then (if ends then flush_run run else Inr []) (\<lambda>done.
         let run' = (if ends then [] else run) in
         case row of
           None \<Rightarrow> and_then (make_chunk (rb_text b) (rb_label b) [i]) (\<lambda>c.
                     and_then (ledger_loop u (Suc i) run' bs) (\<lambda>cs. Inr (done @ c # cs)))
         | Some r \<Rightarrow> and_then (ledger_loop u (Suc i) (run' @ [r]) bs) (\<lambda>cs. Inr (done @ cs))))"

definition chunk_ledger :: "unicode \<Rightarrow> record_block list \<Rightarrow> chunk_error + text_chunk list" where
  "chunk_ledger u bs = ledger_loop u 0 [] bs"

section \<open>Headings of documents\<close>

definition open_bracket :: "int \<Rightarrow> bool" where
  "open_bracket c \<longleftrightarrow> c \<in> {40, 65288, 91}"

definition close_bracket :: "int \<Rightarrow> bool" where
  "close_bracket c \<longleftrightarrow> c \<in> {41, 65289, 93}"

definition bracketed :: rx where
  "bracketed = rx_seq [One open_bracket, Many (\<lambda>c. \<not> close_bracket c), One close_bracket]"

definition chapter_line :: "unicode \<Rightarrow> rx" where
  "chapter_line u = rx_seq [exactly 51228, Many py_space, many1 (digit u), Many py_space, exactly 51109,
     Ahead (Either (One py_space) (Either Ends bracketed))]"

definition article_line :: "unicode \<Rightarrow> rx" where
  "article_line u = rx_seq [exactly 51228, Many py_space, many1 (digit u), Many py_space, exactly 51312,
     Maybe (rx_seq [exactly 51032, Many py_space, many1 (digit u)]),
     Maybe (Group ''title'' (Follows (Many py_space) bracketed)),
     Ahead (Either (One py_space) Ends)]"

definition article_reference :: "unicode \<Rightarrow> rx" where
  "article_reference u = Follows (Many py_space)
     (Either (rx_seq [exactly 51228, Many py_space, many1 (digit u), Many py_space, One (\<lambda>c. c \<in> {54637, 54840})])
     (Either (literal [48143]) (Either (literal [46608, 45716]) (Either (literal [45236, 51648])
     (Either (literal [48512, 53552]) (literal [126]))))))"

definition numbered_line :: "unicode \<Rightarrow> rx" where
  "numbered_line u = rx_seq [Group ''1'' (many1 (digit u)), exactly 46, many1 py_space, One (\<lambda>c. \<not> py_space c)]"

definition TITLE_MAX_CHARS :: nat where
  "TITLE_MAX_CHARS = 30"

text \<open>A heading in brackets is never a reference; \<open>rest\<close> is the line from the end of the match.\<close>

definition is_reference :: "unicode \<Rightarrow> (string \<times> pystr) list \<Rightarrow> pystr \<Rightarrow> bool" where
  "is_reference u g rest \<longleftrightarrow> map_of g ''title'' = None \<and> rx_match (article_reference u) rest \<noteq> None"

definition is_numbered_title :: "unicode \<Rightarrow> pystr \<Rightarrow> bool" where
  "is_numbered_title u line \<longleftrightarrow>
     rx_match (numbered_line u) line \<noteq> None \<and> length line \<le> TITLE_MAX_CHARS \<and> 58 \<notin> set line \<and>
     (case dropWhile (\<lambda>c. c = 46) (rev line) of c # _ \<Rightarrow> c \<noteq> 45796 | [] \<Rightarrow> True)"

section \<open>Sections\<close>

record doc_section =
  sx_title :: "pystr option"
  sx_lines :: "pystr list"
  sx_has_body :: bool

record reading =
  rd_in_article :: bool
  rd_last_number :: "int option"

definition start_reading :: reading where
  "start_reading = \<lparr>rd_in_article = False, rd_last_number = None\<rparr>"

definition opened :: "pystr option \<Rightarrow> pystr \<Rightarrow> bool \<Rightarrow> doc_section" where
  "opened title line body = \<lparr>sx_title = title, sx_lines = [line], sx_has_body = body\<rparr>"

text \<open>\<open>sections[-1].lines.append(line)\<close>, which makes the section one with a body\<close>

definition continue_last :: "pystr \<Rightarrow> doc_section list \<Rightarrow> doc_section list" where
  "continue_last line xs =
     butlast xs @ [(last xs)\<lparr>sx_lines := sx_lines (last xs) @ [line], sx_has_body := True\<rparr>]"

definition read_line :: "unicode \<Rightarrow> pystr \<Rightarrow> reading \<times> doc_section list \<Rightarrow> reading \<times> doc_section list" where
  "read_line u line = (\<lambda>(rd, xs).
     let stripped = py_strip line; art = rx_match (article_line u) stripped in
     if stripped = [] then (rd, xs)
     else if rx_match (chapter_line u) stripped \<noteq> None
     then (rd\<lparr>rd_in_article := False, rd_last_number := None\<rparr>, xs @ [opened (Some stripped) line False])
     else if art \<noteq> None \<and> \<not> is_reference u (fst (the art)) (snd (snd (the art)))
     then (rd\<lparr>rd_in_article := True\<rparr>,
           xs @ [opened (Some (fst (snd (the art)))) line (stripped \<noteq> fst (snd (the art)))])
     else if \<not> rd_in_article rd \<and> is_numbered_title u stripped
     then let number = the (py_int u (the (map_of (fst (the (rx_match (numbered_line u) stripped))) ''1''))) in
          if rd_last_number rd = None \<or> number > the (rd_last_number rd)
          then (rd\<lparr>rd_last_number := Some number\<rparr>, xs @ [opened (Some stripped) line False])
          else if xs \<noteq> [] \<and> sx_title (last xs) = None then (rd, continue_last line xs)
          else (rd, xs @ [opened None line True])
     else if xs \<noteq> [] then (rd, continue_last line xs)
     else (rd, [opened None line True]))"

text \<open>\<open>str.splitlines()\<close>: the line boundaries of Python, a carriage return with line feed counting once.\<close>

definition line_break :: "int \<Rightarrow> bool" where
  "line_break c \<longleftrightarrow> c \<in> {10, 11, 12, 13, 28, 29, 30, 133, 8232, 8233}"

function split_lines :: "pystr \<Rightarrow> pystr list" where
  "split_lines [] = []"
| "split_lines (c # s) =
     (if line_break c then [] # split_lines (case s of d # t \<Rightarrow> if c = 13 \<and> d = 10 then t else s | [] \<Rightarrow> s)
      else case split_lines s of [] \<Rightarrow> [[c]] | l # ls \<Rightarrow> (c # l) # ls)"
  by pat_completeness auto
termination
  by (relation "measure length") (auto split: list.split)

definition page_sections :: "unicode \<Rightarrow> pystr \<Rightarrow> bool \<Rightarrow> reading \<Rightarrow> reading \<times> doc_section list" where
  "page_sections u text first_page rd =
     (let (rd', xs) = fold (read_line u) (split_lines text) (rd, []) in
      case xs of
        x # rest \<Rightarrow>
          if first_page \<and> sx_title x = None \<and> length (sx_lines x) = 1
          then (rd', x\<lparr>sx_has_body := length (py_strip (hd (sx_lines x))) > TITLE_MAX_CHARS\<rparr> # rest)
          else (rd', xs)
      | [] \<Rightarrow> (rd', xs))"

text \<open>\<open>_attach_titles\<close>; \<open>final\<close> is the title of the last section.\<close>

fun attach_loop :: "pystr option \<Rightarrow> pystr list \<Rightarrow> doc_section list \<Rightarrow> (pystr option \<times> pystr list) list" where
  "attach_loop final pending [] = (if pending = [] then [] else [(final, pending)])"
| "attach_loop final pending (x # xs) =
     (if sx_has_body x then (sx_title x, pending @ sx_lines x) # attach_loop final [] xs
      else attach_loop final (pending @ sx_lines x) xs)"

definition attach_titles :: "doc_section list \<Rightarrow> (pystr option \<times> pystr list) list" where
  "attach_titles xs = attach_loop (if xs = [] then None else sx_title (last xs)) [] xs"

section \<open>Windows\<close>

text \<open>\<open>_SENTENCE_END.split(line)\<close>: white space after a full stop, an exclamation or a question mark.\<close>

definition sentence_end :: "int \<Rightarrow> bool" where
  "sentence_end c \<longleftrightarrow> c \<in> {46, 33, 63}"

function split_sentences :: "pystr \<Rightarrow> pystr \<Rightarrow> pystr list" where
  "split_sentences acc [] = [acc]"
| "split_sentences acc (c # s) =
     (if py_space c \<and> acc \<noteq> [] \<and> sentence_end (last acc) then acc # split_sentences [] (dropWhile py_space s)
      else split_sentences (acc @ [c]) s)"
  by pat_completeness auto
termination
  by (relation "measure (\<lambda>(acc, s). length s)") (auto simp: less_Suc_eq_le length_dropWhile_le)

function slices :: "pystr \<Rightarrow> pystr list" where
  "slices s = (if s = [] then [] else take CHUNK_MAX_CHARS s # slices (drop CHUNK_MAX_CHARS s))"
  by auto
termination
  by (relation "measure length") (auto simp: CHUNK_MAX_CHARS_def)

declare slices.simps [simp del]

fun add_part :: "pystr \<Rightarrow> pystr list \<times> pystr \<Rightarrow> pystr list \<times> pystr" where
  "add_part part (out, piece) =
     (if piece \<noteq> [] \<and> length piece + 1 + length part > CHUNK_MAX_CHARS then (out @ [piece], part)
      else (out, if piece \<noteq> [] then piece @ [32] @ part else part))"

definition fit_line :: "pystr \<Rightarrow> pystr list" where
  "fit_line line =
     (if length line \<le> CHUNK_MAX_CHARS then [line]
      else case fold add_part (concat (map slices (split_sentences [] line))) ([], []) of (out, piece) \<Rightarrow> out @ [piece])"

definition fit_lines :: "pystr list \<Rightarrow> pystr list" where
  "fit_lines ls = concat (map fit_line ls)"

fun overlap_loop :: "pystr list \<Rightarrow> pystr list \<Rightarrow> pystr list" where
  "overlap_loop tail [] = tail"
| "overlap_loop tail (l # ls) =
     (if joined_length (l # tail) > int CHUNK_OVERLAP_CHARS then tail else overlap_loop (l # tail) ls)"

definition overlap :: "pystr list \<Rightarrow> pystr list" where
  "overlap ls = overlap_loop [] (rev (tl ls))"

fun window_loop :: "pystr list \<Rightarrow> pystr list \<Rightarrow> pystr list list" where
  "window_loop current [] = [current]"
| "window_loop current (l # ls) =
     (if current \<noteq> [] \<and> joined_length (current @ [l]) > int CHUNK_MAX_CHARS
      then let kept = overlap current;
               kept' = (if joined_length (kept @ [l]) > int CHUNK_MAX_CHARS then [] else kept)
           in current # window_loop (kept' @ [l]) ls
      else window_loop (current @ [l]) ls)"

definition windows :: "pystr list \<Rightarrow> pystr list list" where
  "windows ls = window_loop [] (fit_lines ls)"

section \<open>Documents\<close>

definition section_label :: "pystr \<Rightarrow> pystr option \<Rightarrow> pystr" where
  "section_label page title = (case title of None \<Rightarrow> page | Some t \<Rightarrow> page @ [32, 183, 32] @ t)"

definition section_chunks :: "pystr \<Rightarrow> nat \<Rightarrow> pystr option \<times> pystr list \<Rightarrow> chunk_error + text_chunk list" where
  "section_chunks page i = (\<lambda>(title, ls).
     make_all (\<lambda>w. make_chunk (join_lines w) (section_label page title) [i]) (windows ls))"

fun document_loop :: "unicode \<Rightarrow> nat \<Rightarrow> reading \<Rightarrow> record_block list \<Rightarrow> chunk_error + text_chunk list" where
  "document_loop u i rd [] = Inr []"
| "document_loop u i rd (b # bs) =
     (let (rd', xs) = page_sections u (rb_text b) (i = 0) rd in
      and_then (make_all (section_chunks (rb_label b) i) (attach_titles xs)) (\<lambda>css.
      and_then (document_loop u (Suc i) rd' bs) (\<lambda>rest. Inr (concat css @ rest))))"

definition chunk_document :: "unicode \<Rightarrow> record_block list \<Rightarrow> chunk_error + text_chunk list" where
  "chunk_document u bs = document_loop u 0 start_reading bs"

end
