(* ===== verification/Chunking_Facts.thy ===== *)
theory Chunking_Facts
  imports Chunking
begin

text \<open>
  What the chunks of a record are: their sizes, that nothing of the record is lost, and when making them
  can fail.
\<close>

section \<open>Lists of results\<close>

lemma make_all_Inr: "make_all f xs = Inr ys \<longleftrightarrow> list_all2 (\<lambda>x y. f x = Inr y) xs ys"
  by (induction xs arbitrary: ys) (auto simp: and_then_eq_Inr list_all2_Cons1)

lemma list_all2_member: "list_all2 P xs ys \<Longrightarrow> y \<in> set ys \<Longrightarrow> \<exists>x \<in> set xs. P x y"
  by (induction rule: list_all2_induct) auto

lemma make_all_Inl: "make_all f xs = Inl e \<Longrightarrow> \<exists>x \<in> set xs. f x = Inl e"
  by (induction xs) (auto simp: and_then_def split: sum.splits)

lemma make_chunk_Inr:
  "make_chunk text label is = Inr c \<longleftrightarrow>
     py_strip text \<noteq> [] \<and> py_strip label \<noteq> [] \<and> is \<noteq> [] \<and> c = \<lparr>tk_text = text, tk_label = label, tk_block_indexes = is\<rparr>"
  by (auto simp: make_chunk_def)

lemma length_join_lines: "ls \<noteq> [] \<Longrightarrow> int (length (join_lines ls)) = joined_length ls"
  by (induction ls rule: join_lines.induct) (auto simp: joined_length_def)

lemma set_join_lines: "l \<in> set ls \<Longrightarrow> set l \<subseteq> set (join_lines ls)"
  by (induction ls rule: join_lines.induct) auto

lemma py_strip_mono: "py_strip a \<noteq> [] \<Longrightarrow> set a \<subseteq> set b \<Longrightarrow> py_strip b \<noteq> []"
  by (auto simp: py_strip_empty_iff)

section \<open>Ledgers\<close>

lemma total_size_append: "total_size (a @ b) = total_size a + total_size b + 1"
  by (simp add: total_size_def)

lemma total_size_single: "total_size [r] = int (length (lr_text r))"
  by (simp add: total_size_def)

lemma total_size_text: "rows \<noteq> [] \<Longrightarrow> int (length (join_lines (map lr_text rows))) = total_size rows"
  using length_join_lines [of "map lr_text rows"] by (simp add: joined_length_def total_size_def comp_def)

lemma split_loop_concat: "concat (split_loop t cur sz rs) = cur @ rs"
  by (induction t cur sz rs rule: split_loop.induct) (simp_all add: Let_def)

lemma split_loop_parts: "cur \<noteq> [] \<or> rs \<noteq> [] \<Longrightarrow> [] \<notin> set (split_loop t cur sz rs)"
  by (induction t cur sz rs rule: split_loop.induct) (auto simp: Let_def)

definition fits_chunk :: "ledger_row list \<Rightarrow> bool" where
  "fits_chunk g \<longleftrightarrow> total_size g \<le> int CHUNK_MAX_CHARS \<or> length g = 1"

lemma split_loop_size:
  assumes "sz = (if cur = [] then 0 else total_size cur)" and "fits_chunk cur"
  shows "\<forall>g \<in> set (split_loop t cur sz rs). fits_chunk g"
  using assms
proof (induction rs arbitrary: cur sz)
  case (Cons r rs)
  have one: "fits_chunk [r]" by (simp add: fits_chunk_def)
  have new: "\<forall>g \<in> set (split_loop t [r] (int (length (lr_text r))) rs). fits_chunk g"
    using Cons.IH [OF _ one] by (simp add: total_size_single)
  show ?case
  proof (cases "cur = []")
    case True
    then show ?thesis using new Cons.prems(1) by (simp add: Let_def)
  next
    case False
    let ?n = "sz + (int (length (lr_text r)) + 1)"
    have tot: "total_size (cur @ [r]) = ?n"
      using Cons.prems(1) False by (simp add: total_size_append total_size_single)
    show ?thesis
    proof (cases "sz * parts_needed t \<ge> t \<or> ?n > int CHUNK_MAX_CHARS")
      case True
      then have "split_loop t cur sz (r # rs) = cur # split_loop t [r] (int (length (lr_text r))) rs"
        using False by (auto simp: Let_def)
      then show ?thesis using new Cons.prems(2) by simp
    next
      case fits: False
      then have "split_loop t cur sz (r # rs) = split_loop t (cur @ [r]) ?n rs" using False by (simp add: Let_def)
      moreover have "fits_chunk (cur @ [r])" using tot fits by (simp add: fits_chunk_def)
      ultimately show ?thesis using Cons.IH [of ?n "cur @ [r]"] tot by simp
    qed
  qed
qed simp

lemma split_evenly_parts:
  assumes "rows \<noteq> []"
  shows "concat (split_evenly rows) = rows" and "[] \<notin> set (split_evenly rows)" and "g \<in> set (split_evenly rows) \<Longrightarrow> fits_chunk g"
proof -
  have "fits_chunk []" by (simp add: fits_chunk_def total_size_def)
  then show "g \<in> set (split_evenly rows) \<Longrightarrow> fits_chunk g" using split_loop_size by (simp add: split_evenly_def)
qed (use assms split_loop_concat split_loop_parts in \<open>simp_all add: split_evenly_def\<close>)

text \<open>
  A chunk is one block as it stands, or the rows of one sheet, joined line by line and labelled with the
  sheet and the first and the last row.
\<close>

definition rows_of :: "unicode \<Rightarrow> record_block list \<Rightarrow> ledger_row list \<Rightarrow> bool" where
  "rows_of u bs rows \<longleftrightarrow>
     (\<forall>r \<in> set rows. lr_index r < length bs \<and> parse_ledger_row u (lr_index r) (bs ! lr_index r) = Inr (Some r)) \<and>
     (\<exists>sheet. \<forall>r \<in> set rows. lr_sheet r = sheet)"

definition ledger_part :: "unicode \<Rightarrow> record_block list \<Rightarrow> text_chunk \<Rightarrow> bool" where
  "ledger_part u bs c \<longleftrightarrow>
     (\<exists>i < length bs. make_chunk (rb_text (bs ! i)) (rb_label (bs ! i)) [i] = Inr c \<and> parse_ledger_row u i (bs ! i) = Inr None) \<or>
     (\<exists>rows. rows \<noteq> [] \<and> rows_of u bs rows \<and> fits_chunk rows \<and> ledger_chunk rows = Inr c)"

lemma ledger_chunk_Inr:
  assumes "ledger_chunk rows = Inr c"
  shows "tk_block_indexes c = map lr_index rows" and "tk_text c = join_lines (map lr_text rows)"
  using assms by (auto simp: ledger_chunk_def Let_def make_chunk_Inr)

lemma flush_run_Inr:
  assumes "flush_run run = Inr cs" and "rows_of u bs run"
  shows "concat (map tk_block_indexes cs) = map lr_index run" and "\<forall>c \<in> set cs. ledger_part u bs c"
proof -
  have "concat (map tk_block_indexes cs) = map lr_index run \<and> (\<forall>c \<in> set cs. ledger_part u bs c)"
  proof (cases "run = []")
    case True
    then show ?thesis using assms(1) by (simp add: flush_run_def)
  next
    case False
    let ?gs = "split_evenly run"
    have all: "list_all2 (\<lambda>g c. ledger_chunk g = Inr c) ?gs cs"
      using assms(1) False by (simp add: flush_run_def make_all_Inr)
    then have "map tk_block_indexes cs = map (map lr_index) ?gs"
      by (intro nth_equalityI) (auto simp: list_all2_conv_all_nth ledger_chunk_Inr)
    then have idx: "concat (map tk_block_indexes cs) = map lr_index run"
      by (simp add: split_evenly_parts(1) [OF False] flip: map_concat)
    have "(\<Union>g \<in> set ?gs. set g) = set run" using arg_cong [OF split_evenly_parts(1) [OF False], of set] by simp
    then have sub: "set g \<subseteq> set run" if "g \<in> set ?gs" for g using that by blast
    have "ledger_part u bs c" if c: "c \<in> set cs" for c
    proof -
      obtain g where g: "g \<in> set ?gs" "ledger_chunk g = Inr c"
        using list_all2_member [OF all c] by blast
      then have "g \<noteq> []" using split_evenly_parts(2) [OF False] by blast
      moreover have "rows_of u bs g" using assms(2) sub [OF g(1)] unfolding rows_of_def by blast
      ultimately show ?thesis using split_evenly_parts(3) [OF False g(1)] g(2) unfolding ledger_part_def by blast
    qed
    then show ?thesis using idx by blast
  qed
  then show "concat (map tk_block_indexes cs) = map lr_index run" "\<forall>c \<in> set cs. ledger_part u bs c" by blast+
qed

lemma parse_ledger_row_index: "parse_ledger_row u i b = Inr (Some r) \<Longrightarrow> lr_index r = i"
  by (auto simp: parse_ledger_row_def split: option.splits prod.splits)

text \<open>The loop by cases: a block that is no row, the first row of another sheet, and a row of the same sheet.\<close>

lemma ledger_loop_step:
  assumes "ledger_loop u i run (b # bs) = Inr cs"
  obtains (Block) c ds es where "parse_ledger_row u i b = Inr None" and "flush_run run = Inr ds"
      and "make_chunk (rb_text b) (rb_label b) [i] = Inr c" and "ledger_loop u (Suc i) [] bs = Inr es" and "cs = ds @ c # es"
    | (Other_Sheet) r ds es where "parse_ledger_row u i b = Inr (Some r)" and "flush_run run = Inr ds"
      and "ledger_loop u (Suc i) [r] bs = Inr es" and "cs = ds @ es"
    | (Same_Sheet) r where "parse_ledger_row u i b = Inr (Some r)" and "run \<noteq> []" and "lr_sheet r = lr_sheet (last run)"
      and "ledger_loop u (Suc i) (run @ [r]) bs = Inr cs"
proof -
  from assms obtain row where row: "parse_ledger_row u i b = Inr row" by (auto simp: and_then_eq_Inr)
  show thesis
  proof (cases row)
    case None
    then show thesis using assms row Block
      by (cases "run = []") (auto simp: and_then_eq_Inr Let_def flush_run_def [of "[]"])
  next
    case (Some r)
    then show thesis using assms row Other_Sheet Same_Sheet
      by (cases "run = []"; cases "lr_sheet r = lr_sheet (last run)") (auto simp: and_then_eq_Inr Let_def flush_run_def [of "[]"])
  qed
qed

lemma ledger_loop_Inr:
  assumes "ledger_loop u i run bs' = Inr cs" and "bs' = drop i bs" and "i \<le> length bs" and "rows_of u bs run"
  shows "concat (map tk_block_indexes cs) = map lr_index run @ [i..<length bs] \<and> (\<forall>c \<in> set cs. ledger_part u bs c)"
  using assms
proof (induction bs' arbitrary: i run cs)
  case Nil
  then show ?case using flush_run_Inr [of run cs u bs] by simp
next
  case (Cons b bs')
  have i: "i < length bs" using Cons.prems(2) by (metis drop_all leI list.distinct(1))
  then have b: "b = bs ! i" "bs' = drop (Suc i) bs" using Cons.prems(2) Cons_nth_drop_Suc [OF i] by (metis list.inject)+
  have upt: "[i..<length bs] = i # [Suc i..<length bs]" using i by (rule upt_conv_Cons)
  note ih = Cons.IH [OF _ b(2) Suc_leI [OF i]]
  note flush = flush_run_Inr [OF _ Cons.prems(4)]
  from Cons.prems(1) show ?case
  proof (cases rule: ledger_loop_step)
    case (Block c ds es)
    have "ledger_part u bs c" using Block(1,3) i b(1) unfolding ledger_part_def by blast
    moreover have "tk_block_indexes c = [i]" using Block(3) by (auto simp: make_chunk_Inr)
    moreover have "rows_of u bs []" by (simp add: rows_of_def)
    ultimately show ?thesis using ih [OF Block(4)] flush [OF Block(2)] upt by (auto simp: Block(5))
  next
    case (Other_Sheet r ds es)
    then have "rows_of u bs [r]" "lr_index r = i" using i b(1) parse_ledger_row_index by (auto simp: rows_of_def)
    then show ?thesis using ih [OF Other_Sheet(3)] flush [OF Other_Sheet(2)] upt by (auto simp: Other_Sheet(4))
  next
    case (Same_Sheet r)
    have "lr_index r = i" using Same_Sheet(1) by (rule parse_ledger_row_index)
    moreover have "\<forall>q \<in> set (run @ [r]). lr_sheet q = lr_sheet r"
      using Cons.prems(4) Same_Sheet(2,3) last_in_set [of run] unfolding rows_of_def by auto
    then have "rows_of u bs (run @ [r])"
      using Cons.prems(4) Same_Sheet(1) i b(1) \<open>lr_index r = i\<close> unfolding rows_of_def by auto
    ultimately show ?thesis using ih [OF Same_Sheet(4)] upt by simp
  qed
qed

lemma ledger_chunk_total:
  assumes "rows \<noteq> []" and "\<forall>r \<in> set rows. py_strip (lr_text r) \<noteq> []"
  shows "\<exists>c. ledger_chunk rows = Inr c"
proof -
  have "py_strip (join_lines (map lr_text rows)) \<noteq> []"
    using assms py_strip_mono [OF _ set_join_lines [of "lr_text (hd rows)" "map lr_text rows"]] by simp
  then show ?thesis
    using assms(1) by (auto simp: ledger_chunk_def Let_def make_chunk_def py_strip_empty_iff py_space_def split: option.split)
qed

lemma flush_run_total: "\<forall>r \<in> set run. py_strip (lr_text r) \<noteq> [] \<Longrightarrow> \<exists>cs. flush_run run = Inr cs"
proof (cases "run = []")
  case False
  assume texts: "\<forall>r \<in> set run. py_strip (lr_text r) \<noteq> []"
  have "ledger_chunk g \<noteq> Inl e" if "g \<in> set (split_evenly run)" for g e
  proof -
    have "g \<noteq> []" using that split_evenly_parts(2) [OF False] by blast
    moreover have "set g \<subseteq> set run" using that arg_cong [OF split_evenly_parts(1) [OF False], of set] by auto
    ultimately obtain c where "ledger_chunk g = Inr c" using ledger_chunk_total [of g] texts by blast
    then show ?thesis by simp
  qed
  then show ?thesis
    using make_all_Inl [of ledger_chunk "split_evenly run"] False
    by (cases "make_all ledger_chunk (split_evenly run)") (auto simp: flush_run_def)
qed (simp add: flush_run_def)

lemma parse_ledger_row_text: "parse_ledger_row u i b = Inr (Some r) \<Longrightarrow> lr_text r = rb_text b"
  by (auto simp: parse_ledger_row_def split: option.splits prod.splits)

lemma ledger_loop_total:
  assumes "\<forall>b \<in> set bs. valid_block b \<and> (\<forall>i. parse_ledger_row u i b \<noteq> Inl TooManyDigits)" and "\<forall>r \<in> set run. py_strip (lr_text r) \<noteq> []"
  shows "\<exists>cs. ledger_loop u i run bs = Inr cs"
  using assms
proof (induction bs arbitrary: i run)
  case Nil
  then show ?case using flush_run_total by simp
next
  case (Cons b bs)
  obtain ds where ds: "flush_run run = Inr ds" using flush_run_total [OF Cons.prems(2)] by blast
  have "parse_ledger_row u i b \<noteq> Inl e" for e using Cons.prems(1) by (cases e) (auto simp: parse_ledger_row_def split: option.splits prod.splits)
  then obtain row where row: "parse_ledger_row u i b = Inr row" by (cases "parse_ledger_row u i b") auto
  note ih = Cons.IH [of _ "Suc i"]
  show ?case
  proof (cases row)
    case None
    obtain es where "ledger_loop u (Suc i) [] bs = Inr es" using ih [of "[]"] Cons.prems(1) by auto
    moreover have "\<exists>c. make_chunk (rb_text b) (rb_label b) [i] = Inr c" using Cons.prems(1) by (simp add: make_chunk_def valid_block_def)
    ultimately show ?thesis using row None ds by (cases "run = []") (auto simp: Let_def)
  next
    case (Some r)
    have r: "py_strip (lr_text r) \<noteq> []" using Cons.prems(1) parse_ledger_row_text row Some by (simp add: valid_block_def)
    obtain es where "ledger_loop u (Suc i) [r] bs = Inr es" using ih [of "[r]"] Cons.prems(1) r by auto
    moreover obtain fs where "ledger_loop u (Suc i) (run @ [r]) bs = Inr fs" using ih [of "run @ [r]"] Cons.prems r by auto
    ultimately show ?thesis using row Some ds by (cases "run = []") (auto simp: Let_def)
  qed
qed

end
