(* ===== verification/Document_Facts.thy ===== *)
theory Document_Facts
  imports Chunking_Facts
begin

text \<open>
  Documents: the chunks of a page are at most \<open>CHUNK_MAX_CHARS\<close> long and spell its text, white space and
  the announced overlap apart; making them fails only on a run of blanks inside an overlong line.
\<close>

section \<open>Text without white space\<close>

definition solid :: "pystr \<Rightarrow> pystr" where
  "solid s = filter (\<lambda>c. \<not> py_space c) s"

lemma solid_simps [simp]:
  "solid [] = []" "solid (a @ b) = solid a @ solid b" "solid (c # s) = (if py_space c then solid s else c # solid s)"
  by (simp_all add: solid_def)

lemma solid_empty: "solid s = [] \<longleftrightarrow> py_strip s = []"
  by (simp add: solid_def py_strip_empty_iff filter_empty_conv)

lemma solid_concat: "solid (concat xs) = concat (map solid xs)"
  by (induction xs) auto

lemma concat_concat: "concat (concat xs) = concat (map concat xs)"
  by (induction xs) auto

lemma solid_join: "solid (join_lines ls) = solid (concat ls)"
  by (induction ls rule: join_lines.induct) (auto simp: py_space_def)

lemma solid_dropWhile: "solid (dropWhile py_space s) = solid s"
  by (induction s) auto

lemma solid_split_lines: "solid (concat (split_lines s)) = solid s"
proof (induction s rule: split_lines.induct)
  case (2 c s)
  have space: "line_break c \<Longrightarrow> py_space c" by (auto simp: line_break_def py_space_def)
  show ?case
  proof (cases "line_break c")
    case True
    have "solid (case s of [] \<Rightarrow> s | d # t \<Rightarrow> if c = 13 \<and> d = 10 then t else s) = solid s"
      by (auto simp: py_space_def split: list.split)
    then show ?thesis using 2(1) True space by simp
  next
    case False
    then show ?thesis using 2(2) by (auto split: list.split)
  qed
qed simp

section \<open>Sections\<close>

lemma read_line_lines:
  "concat (map sx_lines (snd (read_line u l (rd, xs)))) = concat (map sx_lines xs) @ (if py_strip l = [] then [] else [l])"
proof -
  have "xs \<noteq> [] \<Longrightarrow> concat (map sx_lines (continue_last l xs)) = concat (map sx_lines xs) @ [l]"
    by (cases xs rule: rev_cases) (simp_all add: continue_last_def)
  then show ?thesis by (simp add: read_line_def opened_def Let_def)
qed

lemma read_lines_lines:
  "concat (map sx_lines (snd (fold (read_line u) ls (rd, xs)))) = concat (map sx_lines xs) @ filter (\<lambda>l. py_strip l \<noteq> []) ls"
proof (induction ls arbitrary: rd xs)
  case (Cons l ls)
  obtain rd' xs' where s: "read_line u l (rd, xs) = (rd', xs')" by fastforce
  then show ?case using Cons.IH [of rd' xs'] read_line_lines [of u l rd xs] by simp
qed simp

lemma page_sections_lines:
  "concat (map sx_lines (snd (page_sections u text first rd))) = filter (\<lambda>l. py_strip l \<noteq> []) (split_lines text)"
proof -
  obtain rd' xs where s: "fold (read_line u) (split_lines text) (rd, []) = (rd', xs)" by fastforce
  then show ?thesis
    using read_lines_lines [of u "split_lines text" rd "[]"] by (auto simp: page_sections_def split: list.split)
qed

lemma attach_loop_lines: "concat (map snd (attach_loop f p xs)) = p @ concat (map sx_lines xs)"
  by (induction f p xs rule: attach_loop.induct) auto

lemma attach_titles_lines: "concat (map snd (attach_titles xs)) = concat (map sx_lines xs)"
  by (simp add: attach_titles_def attach_loop_lines)

section \<open>Long lines\<close>

lemma solid_split_sentences: "solid (concat (split_sentences acc s)) = solid (acc @ s)"
  by (induction acc s rule: split_sentences.induct) (auto simp: solid_dropWhile)

lemma concat_slices: "concat (slices s) = s"
  by (induction s rule: slices.induct) (subst slices.simps, simp)

lemma slices_length: "p \<in> set (slices s) \<Longrightarrow> length p \<le> CHUNK_MAX_CHARS"
  by (induction s rule: slices.induct) (subst (asm) (2) slices.simps, auto split: if_splits)

lemma add_part_step:
  assumes "length p \<le> CHUNK_MAX_CHARS" and "\<forall>q \<in> set (out @ [piece]). length q \<le> CHUNK_MAX_CHARS" and "add_part p (out, piece) = (out', piece')"
  shows "(\<forall>q \<in> set (out' @ [piece']). length q \<le> CHUNK_MAX_CHARS) \<and> solid (concat (out' @ [piece'])) = solid (concat (out @ [piece]) @ p)"
  using assms by (auto simp: py_space_def split: if_splits)

lemma add_part_inv:
  assumes "\<forall>p \<in> set ps. length p \<le> CHUNK_MAX_CHARS" and "\<forall>q \<in> set (out @ [piece]). length q \<le> CHUNK_MAX_CHARS"
    and "fold add_part ps (out, piece) = (out', piece')"
  shows "(\<forall>q \<in> set (out' @ [piece']). length q \<le> CHUNK_MAX_CHARS) \<and>
    solid (concat (out' @ [piece'])) = solid (concat (out @ [piece]) @ concat ps)"
  using assms
proof (induction ps arbitrary: out piece)
  case (Cons p ps)
  obtain o1 p1 where one: "add_part p (out, piece) = (o1, p1)" by (cases "add_part p (out, piece)")
  have p: "length p \<le> CHUNK_MAX_CHARS" using Cons.prems(1) by simp
  have rest: "fold add_part ps (o1, p1) = (out', piece')" using Cons.prems(3) one by simp
  note step = add_part_step [OF p Cons.prems(2) one]
  then show ?case using Cons.IH [OF _ conjunct1 [OF step] rest] Cons.prems(1) by simp
qed simp

lemma fit_line_inv: "(\<forall>p \<in> set (fit_line l). length p \<le> CHUNK_MAX_CHARS) \<and> solid (concat (fit_line l)) = solid l"
proof (cases "length l \<le> CHUNK_MAX_CHARS")
  case False
  define ps where "ps = concat (map slices (split_sentences [] l))"
  obtain out piece where f: "fold add_part ps ([], []) = (out, piece)" by fastforce
  have fit: "fit_line l = out @ [piece]" using False f by (simp add: fit_line_def ps_def)
  have "concat ps = concat (split_sentences [] l)" by (simp add: ps_def concat_concat comp_def concat_slices)
  then have sol: "solid (concat ps) = solid l" using solid_split_sentences [of "[]" l] by simp
  have "\<forall>p \<in> set ps. length p \<le> CHUNK_MAX_CHARS" using slices_length by (auto simp: ps_def)
  from add_part_inv [OF this _ f] show ?thesis by (simp add: fit sol)
qed (simp add: fit_line_def)

lemma fit_lines_length: "p \<in> set (fit_lines ls) \<Longrightarrow> length p \<le> CHUNK_MAX_CHARS"
  using fit_line_inv by (auto simp: fit_lines_def)

lemma solid_fit_lines: "solid (concat (fit_lines ls)) = solid (concat ls)"
  using fit_line_inv by (simp add: fit_lines_def concat_concat solid_concat comp_def)

lemma fit_lines_short: "\<forall>l \<in> set ls. length l \<le> CHUNK_MAX_CHARS \<Longrightarrow> fit_lines ls = ls"
  by (induction ls) (auto simp: fit_lines_def fit_line_def)

section \<open>Windows\<close>

lemma joined_length_append: "joined_length (a @ b) = joined_length a + joined_length b + 1"
  by (simp add: joined_length_def)

lemma joined_length_single: "joined_length [l] = int (length l)"
  by (simp add: joined_length_def)

text \<open>\<open>cut prev ws ls\<close>: the windows \<open>ws\<close> spell the lines \<open>ls\<close>, each after an end of the window before it.\<close>

inductive cut :: "pystr list \<Rightarrow> pystr list list \<Rightarrow> pystr list \<Rightarrow> bool" where
  Cut_End: "cut prev [] []"
| Cut_Window: "prev = front @ kept \<Longrightarrow> kept = [] \<or> joined_length kept \<le> int CHUNK_OVERLAP_CHARS \<Longrightarrow> new \<noteq> [] \<Longrightarrow>
    cut (kept @ new) ws ls \<Longrightarrow> cut prev ((kept @ new) # ws) (new @ ls)"

lemma cut_member: "cut prev ws ls \<Longrightarrow> w \<in> set ws \<Longrightarrow> \<exists>l \<in> set ls. l \<in> set w"
proof (induction rule: cut.induct)
  case (Cut_Window prev front kept new ws ls)
  then show ?case by (cases new) auto
qed simp

lemma overlap_loop_suffix:
  assumes "tail = [] \<or> joined_length tail \<le> int CHUNK_OVERLAP_CHARS" and "ls = rev front"
  shows "\<exists>f. front @ tail = f @ overlap_loop tail ls \<and>
    (overlap_loop tail ls = [] \<or> joined_length (overlap_loop tail ls) \<le> int CHUNK_OVERLAP_CHARS)"
  using assms
proof (induction tail ls arbitrary: front rule: overlap_loop.induct)
  case (2 tail l ls)
  show ?case
  proof (cases "joined_length (l # tail) > int CHUNK_OVERLAP_CHARS")
    case True
    then show ?thesis using 2(2) by auto
  next
    case False
    have front: "front = rev ls @ [l]" using 2(3) by (metis rev_rev_ident rev.simps(2))
    then show ?thesis using 2(1) [OF False, of "rev ls"] False by simp
  qed
qed simp

lemma overlap_suffix: "\<exists>f. ls = f @ overlap ls \<and> (overlap ls = [] \<or> joined_length (overlap ls) \<le> int CHUNK_OVERLAP_CHARS)"
proof (cases ls)
  case (Cons l rest)
  then show ?thesis using overlap_loop_suffix [of "[]" "rev (tl ls)" "tl ls"] by (auto simp: overlap_def intro: exI [of _ "l # _"])
qed (simp add: overlap_def)

lemma window_loop_cut:
  assumes "cut_open = kept @ new" and "prev = front @ kept" and "kept = [] \<or> joined_length kept \<le> int CHUNK_OVERLAP_CHARS"
    and "new \<noteq> []"
  shows "cut prev (window_loop cut_open ls) (new @ ls)"
  using assms
proof (induction ls arbitrary: cut_open kept new prev front)
  case Nil
  then show ?case using Cut_Window [of prev front kept new "[]" "[]"] Cut_End by simp
next
  case (Cons l ls)
  have grown: "cut prev (window_loop (cut_open @ [l]) ls) (new @ l # ls)"
    using Cons.IH [of "cut_open @ [l]" kept "new @ [l]" prev front] Cons.prems by simp
  define k where "k = (if joined_length (overlap cut_open @ [l]) > int CHUNK_MAX_CHARS then [] else overlap cut_open)"
  obtain f where f: "cut_open = f @ k" "k = [] \<or> joined_length k \<le> int CHUNK_OVERLAP_CHARS"
    using overlap_suffix [of cut_open] by (cases "k = []") (auto simp: k_def split: if_splits)
  have "cut cut_open (window_loop (k @ [l]) ls) ([l] @ ls)" by (rule Cons.IH [OF refl f]) simp
  then have "cut prev (cut_open # window_loop (k @ [l]) ls) (new @ [l] @ ls)"
    using Cut_Window [OF Cons.prems(2-4)] Cons.prems(1) by simp
  then show ?case using grown by (simp add: Let_def k_def)
qed

lemma windows_cut: "ls \<noteq> [] \<Longrightarrow> cut prev (window_loop [] ls) ls"
  using window_loop_cut [of "[hd ls]" "[]" "[hd ls]" prev prev "tl ls"] by (cases ls) simp_all

lemma window_loop_length:
  assumes "\<forall>l \<in> set ls. length l \<le> CHUNK_MAX_CHARS" and "joined_length cur \<le> int CHUNK_MAX_CHARS"
  shows "\<forall>w \<in> set (window_loop cur ls). joined_length w \<le> int CHUNK_MAX_CHARS"
  using assms
proof (induction ls arbitrary: cur)
  case (Cons l ls)
  have l: "joined_length [l] \<le> int CHUNK_MAX_CHARS" using Cons.prems(1) by (simp add: joined_length_single)
  have ih: "\<And>c. joined_length c \<le> int CHUNK_MAX_CHARS \<Longrightarrow> \<forall>w \<in> set (window_loop c ls). joined_length w \<le> int CHUNK_MAX_CHARS"
    using Cons.IH Cons.prems(1) by simp
  from l have first: "cur = [] \<Longrightarrow> joined_length (cur @ [l]) \<le> int CHUNK_MAX_CHARS" by simp
  show ?case
  proof (cases "cur \<noteq> [] \<and> joined_length (cur @ [l]) > int CHUNK_MAX_CHARS")
    case True
    define k where "k = (if joined_length (overlap cur @ [l]) > int CHUNK_MAX_CHARS then [] else overlap cur)"
    have "joined_length (k @ [l]) \<le> int CHUNK_MAX_CHARS" using l by (simp add: k_def)
    moreover have "window_loop cur (l # ls) = cur # window_loop (k @ [l]) ls"
      using True by (simp only: window_loop.simps Let_def k_def) simp
    ultimately show ?thesis using ih Cons.prems(2) by simp
  next
    case False
    then have "joined_length (cur @ [l]) \<le> int CHUNK_MAX_CHARS" using first by linarith
    moreover have "window_loop cur (l # ls) = window_loop (cur @ [l]) ls" using False by (simp only: window_loop.simps if_False)
    ultimately show ?thesis using ih by simp
  qed
qed simp

section \<open>The text of a page\<close>

text \<open>
  \<open>spells prev ts s\<close>: the chunk texts \<open>ts\<close> spell \<open>s\<close>, each after at most \<open>CHUNK_OVERLAP_CHARS\<close> characters of
  the end of the chunk before it and a line break.
\<close>

inductive spells :: "pystr \<Rightarrow> pystr list \<Rightarrow> pystr \<Rightarrow> bool" where
  Spells_End: "spells prev [] []"
| Spells_Chunk: "kept = [] \<or> (\<exists>front tail. prev = front @ tail \<and> kept = tail @ [10] \<and> length tail \<le> CHUNK_OVERLAP_CHARS) \<Longrightarrow>
    spells (kept @ new) ts s \<Longrightarrow> spells prev ((kept @ new) # ts) (solid new @ s)"

lemma join_append: "a \<noteq> [] \<Longrightarrow> b \<noteq> [] \<Longrightarrow> join_lines (a @ b) = join_lines a @ [10] @ join_lines b"
proof (induction a rule: join_lines.induct)
  case (2 l)
  then show ?case by (cases b) simp_all
qed auto

lemma cut_spells: "cut prev ws ls \<Longrightarrow> spells (join_lines prev) (map join_lines ws) (solid (concat ls))"
proof (induction rule: cut.induct)
  case (Cut_Window prev front kept new ws ls)
  define k where "k = (if kept = [] then [] else join_lines kept @ [10])"
  have split: "join_lines (kept @ new) = k @ join_lines new" using Cut_Window(3) by (simp add: k_def join_append)
  have "k = [] \<or> (\<exists>f tail. join_lines prev = f @ tail \<and> k = tail @ [10] \<and> length tail \<le> CHUNK_OVERLAP_CHARS)"
  proof (cases "kept = []")
    case False
    have "\<exists>f. join_lines prev = f @ join_lines kept"
      using Cut_Window(1) False join_append [of front kept] by (cases "front = []") auto
    moreover have "length (join_lines kept) \<le> CHUNK_OVERLAP_CHARS" using Cut_Window(2) False length_join_lines [OF False] by simp
    ultimately show ?thesis using False by (auto simp: k_def)
  qed (simp add: k_def)
  from Spells_Chunk [OF this Cut_Window.IH [unfolded split]] show ?case by (simp add: split solid_join)
qed (simp add: Spells_End)

lemma spells_append: "spells p ts s \<Longrightarrow> (\<And>q. spells q ts' s') \<Longrightarrow> spells p (ts @ ts') (s @ s')"
  by (induction rule: spells.induct) (auto intro: Spells_Chunk)

lemma fit_lines_Nil: "fit_lines ls = [] \<longleftrightarrow> ls = []"
  by (cases ls) (auto simp: fit_lines_def fit_line_def split: prod.split)

lemma section_chunks_Inr:
  assumes "section_chunks page i (title, ls) = Inr cs"
  shows "map tk_text cs = map join_lines (windows ls)" and "ls \<noteq> []"
    and "\<forall>c \<in> set cs. tk_label c = section_label page title \<and> tk_block_indexes c = [i]"
proof -
  have all: "list_all2 (\<lambda>w c. make_chunk (join_lines w) (section_label page title) [i] = Inr c) (windows ls) cs"
    using assms by (simp add: section_chunks_def make_all_Inr)
  then show "map tk_text cs = map join_lines (windows ls)"
    by (intro nth_equalityI) (auto simp: list_all2_conv_all_nth make_chunk_Inr)
  show "\<forall>c \<in> set cs. tk_label c = section_label page title \<and> tk_block_indexes c = [i]"
    using list_all2_member [OF all] by (fastforce simp: make_chunk_Inr)
  show "ls \<noteq> []" using all by (auto simp: windows_def fit_lines_def list_all2_Cons1 make_chunk_Inr)
qed

lemma section_chunks_spell:
  assumes "section_chunks page i (title, ls) = Inr cs"
  shows "spells prev (map tk_text cs) (solid (concat ls))" and "\<forall>c \<in> set cs. length (tk_text c) \<le> CHUNK_MAX_CHARS"
proof -
  have ne: "fit_lines ls \<noteq> []" using section_chunks_Inr(2) [OF assms] by (simp add: fit_lines_Nil)
  have cut: "cut [] (windows ls) (fit_lines ls)" using windows_cut [OF ne] by (simp add: windows_def)
  have any: "spells q (map join_lines (windows ls)) (solid (concat ls))" for q
    using cut_spells [OF windows_cut [OF ne, of "[q]"]] by (simp add: windows_def solid_fit_lines)
  then show "spells prev (map tk_text cs) (solid (concat ls))" by (simp add: section_chunks_Inr(1) [OF assms])
  have "w \<noteq> []" if "w \<in> set (windows ls)" for w
    using cut_member [OF cut that] by auto
  moreover have "\<forall>w \<in> set (windows ls). joined_length w \<le> int CHUNK_MAX_CHARS"
    using window_loop_length [of "fit_lines ls" "[]"] fit_lines_length by (simp add: windows_def joined_length_def)
  ultimately have "\<forall>t \<in> set (map join_lines (windows ls)). length t \<le> CHUNK_MAX_CHARS"
    using length_join_lines by fastforce
  then show "\<forall>c \<in> set cs. length (tk_text c) \<le> CHUNK_MAX_CHARS" by (simp flip: section_chunks_Inr(1) [OF assms])
qed

definition page_part :: "record_block list \<Rightarrow> nat \<Rightarrow> text_chunk \<Rightarrow> bool" where
  "page_part bs i c \<longleftrightarrow> length (tk_text c) \<le> CHUNK_MAX_CHARS \<and>
     (\<exists>k < length bs. tk_block_indexes c = [i + k] \<and> (\<exists>title. tk_label c = section_label (rb_label (bs ! k)) title))"

lemma sections_spell:
  assumes "make_all (section_chunks page i) xs = Inr css"
  shows "spells prev (map tk_text (concat css)) (solid (concat (concat (map snd xs))))"
    and "\<forall>c \<in> set (concat css). tk_block_indexes c = [i] \<and> length (tk_text c) \<le> CHUNK_MAX_CHARS \<and> (\<exists>t. tk_label c = section_label page t)"
proof -
  have all: "list_all2 (\<lambda>x cs. section_chunks page i x = Inr cs) xs css" using assms by (simp add: make_all_Inr)
  from all show "spells prev (map tk_text (concat css)) (solid (concat (concat (map snd xs))))"
  proof (induction arbitrary: prev rule: list_all2_induct)
    case (Cons x xs cs css)
    then show ?case using spells_append [OF section_chunks_spell(1) [of page i "fst x" "snd x" cs prev] Cons(3)] by simp
  qed (simp add: Spells_End)
  show "\<forall>c \<in> set (concat css). tk_block_indexes c = [i] \<and> length (tk_text c) \<le> CHUNK_MAX_CHARS \<and> (\<exists>t. tk_label c = section_label page t)"
  proof
    fix c assume "c \<in> set (concat css)"
    then obtain cs where cs: "cs \<in> set css" "c \<in> set cs" by auto
    obtain x where "section_chunks page i x = Inr cs" using list_all2_member [OF all cs(1)] by blast
    then show "tk_block_indexes c = [i] \<and> length (tk_text c) \<le> CHUNK_MAX_CHARS \<and> (\<exists>t. tk_label c = section_label page t)"
      using section_chunks_Inr(3) [of page i "fst x" "snd x" cs] section_chunks_spell(2) [of page i "fst x" "snd x" cs] cs(2) by auto
  qed
qed

lemma solid_page: "solid (concat (concat (map snd (attach_titles (snd (page_sections u text first rd)))))) = solid text"
proof -
  have "solid (concat (filter (\<lambda>l. py_strip l \<noteq> []) ls)) = solid (concat ls)" for ls
    by (induction ls) (auto simp flip: solid_empty)
  then show ?thesis by (simp add: attach_titles_lines page_sections_lines solid_split_lines)
qed

lemma document_loop_Inr:
  assumes "document_loop u i rd bs = Inr cs"
  shows "(\<forall>c \<in> set cs. page_part bs i c) \<and>
    (\<forall>k < length bs. spells [] (map tk_text (filter (\<lambda>c. tk_block_indexes c = [i + k]) cs)) (solid (rb_text (bs ! k))))"
  using assms
proof (induction bs arbitrary: i rd cs)
  case (Cons b bs)
  obtain rd' xs where p: "page_sections u (rb_text b) (i = 0) rd = (rd', xs)" by fastforce
  then obtain css rest where css: "make_all (section_chunks (rb_label b) i) (attach_titles xs) = Inr css"
    and rest: "document_loop u (Suc i) rd' bs = Inr rest" and cs: "cs = concat css @ rest"
    using Cons.prems by (auto simp: and_then_eq_Inr)
  note ih = Cons.IH [OF rest]
  note sec = sections_spell [OF css]
  have idx: "\<forall>c \<in> set (concat css). tk_block_indexes c = [i]" using sec(2) by blast
  have later: "\<forall>c \<in> set rest. \<exists>k. tk_block_indexes c = [Suc i + k]" using ih unfolding page_part_def by blast
  have "page_part (b # bs) i c" if "c \<in> set cs" for c
  proof (cases "c \<in> set rest")
    case True
    then obtain k t where k: "k < length bs" "tk_block_indexes c = [Suc i + k]" "tk_label c = section_label (rb_label (bs ! k)) t"
      and len: "length (tk_text c) \<le> CHUNK_MAX_CHARS" using ih unfolding page_part_def by blast
    then show ?thesis unfolding page_part_def by (intro conjI len exI [of _ "Suc k"]) auto
  next
    case False
    then have "c \<in> set (concat css)" using that cs by simp
    then show ?thesis using sec(2) unfolding page_part_def by (force intro: exI [of _ 0])
  qed
  moreover have "spells [] (map tk_text (filter (\<lambda>c. tk_block_indexes c = [i + k]) cs)) (solid (rb_text ((b # bs) ! k)))"
    if "k < length (b # bs)" for k
  proof (cases k)
    case 0
    have "filter (\<lambda>c. tk_block_indexes c = [i]) (concat css) = concat css" using idx by (simp add: filter_id_conv)
    moreover have "filter (\<lambda>c. tk_block_indexes c = [i]) rest = []" using later by (fastforce simp: filter_empty_conv)
    moreover have "solid (concat (concat (map snd (attach_titles xs)))) = solid (rb_text b)"
      using solid_page [of u "rb_text b" "i = 0" rd] p by simp
    ultimately show ?thesis using sec(1) [of "[]"] 0 cs by simp
  next
    case (Suc j)
    have "filter (\<lambda>c. tk_block_indexes c = [Suc (i + j)]) (concat css) = []" using idx by (auto simp: filter_empty_conv)
    then show ?thesis using ih Suc that cs by simp
  qed
  ultimately show ?case by blast
qed simp

section \<open>Lines of normal length\<close>

lemma read_line_parts: "\<forall>x \<in> set xs. sx_lines x \<noteq> [] \<Longrightarrow> \<forall>x \<in> set (snd (read_line u l (rd, xs))). sx_lines x \<noteq> []"
  by (auto simp: read_line_def opened_def continue_last_def Let_def dest: in_set_butlastD)

lemma page_sections_parts: "\<forall>x \<in> set (snd (page_sections u text first rd)). sx_lines x \<noteq> []"
proof -
  have "\<forall>x \<in> set (snd (fold (read_line u) ls (r, xs))). sx_lines x \<noteq> []" if "\<forall>x \<in> set xs. sx_lines x \<noteq> []" for ls r xs
    using that
  proof (induction ls arbitrary: r xs)
    case (Cons l ls)
    then show ?case using read_line_parts [of xs u l r] by (cases "read_line u l (r, xs)") auto
  qed simp
  from this [where xs = "[]" and r = rd and ls = "split_lines text"] show ?thesis
    by (cases "fold (read_line u) (split_lines text) (rd, [])") (auto simp: page_sections_def split: list.splits)
qed

lemma attach_loop_parts:
  "\<forall>x \<in> set xs. sx_lines x \<noteq> [] \<Longrightarrow> \<forall>y \<in> set (attach_loop f p xs). snd y \<noteq> []"
  by (induction f p xs rule: attach_loop.induct) auto

lemma section_chunks_total:
  assumes "ls \<noteq> []" and "\<forall>l \<in> set ls. py_strip l \<noteq> [] \<and> length l \<le> CHUNK_MAX_CHARS" and "py_strip page \<noteq> []"
  shows "\<exists>cs. section_chunks page i (title, ls) = Inr cs"
proof -
  have cut: "cut [] (windows ls) ls" using windows_cut [OF assms(1)] fit_lines_short [of ls] assms(2) by (simp add: windows_def)
  have "make_chunk (join_lines w) (section_label page title) [i] \<noteq> Inl e" if w: "w \<in> set (windows ls)" for w e
  proof -
    obtain l where "l \<in> set ls" "l \<in> set w" using cut_member [OF cut w] by blast
    then have "py_strip (join_lines w) \<noteq> []" using assms(2) py_strip_mono set_join_lines by blast
    moreover have "py_strip (section_label page title) \<noteq> []"
      by (rule py_strip_mono [OF assms(3)]) (auto simp: section_label_def split: option.split)
    ultimately show ?thesis by (simp add: make_chunk_def)
  qed
  then show ?thesis
    using make_all_Inl by (cases "section_chunks page i (title, ls)") (fastforce simp: section_chunks_def)+
qed

lemma document_loop_total:
  assumes "\<forall>b \<in> set bs. valid_block b \<and> (\<forall>l \<in> set (split_lines (rb_text b)). length l \<le> CHUNK_MAX_CHARS)"
  shows "\<exists>cs. document_loop u i rd bs = Inr cs"
  using assms
proof (induction bs arbitrary: i rd)
  case (Cons b bs)
  obtain rd' xs where p: "page_sections u (rb_text b) (i = 0) rd = (rd', xs)" by fastforce
  have lines: "concat (map snd (attach_titles xs)) = filter (\<lambda>l. py_strip l \<noteq> []) (split_lines (rb_text b))"
    using page_sections_lines [of u "rb_text b" "i = 0" rd] p by (simp add: attach_titles_lines)
  have parts: "\<forall>y \<in> set (attach_titles xs). snd y \<noteq> []"
    using attach_loop_parts page_sections_parts [of u "rb_text b" "i = 0" rd] p by (simp add: attach_titles_def)
  have "section_chunks (rb_label b) i y \<noteq> Inl e" if y: "y \<in> set (attach_titles xs)" for y e
  proof -
    have "set (snd y) \<subseteq> set (filter (\<lambda>l. py_strip l \<noteq> []) (split_lines (rb_text b)))" using y by (auto simp flip: lines)
    then have "\<forall>l \<in> set (snd y). py_strip l \<noteq> [] \<and> length l \<le> CHUNK_MAX_CHARS" using Cons.prems by auto
    then obtain cs where "section_chunks (rb_label b) i (fst y, snd y) = Inr cs"
      using section_chunks_total parts y Cons.prems by (metis list.set_intros(1) valid_block_def)
    then show ?thesis by simp
  qed
  then obtain css where "make_all (section_chunks (rb_label b) i) (attach_titles xs) = Inr css"
    using make_all_Inl [of "section_chunks (rb_label b) i" "attach_titles xs"]
    by (cases "make_all (section_chunks (rb_label b) i) (attach_titles xs)") blast+
  moreover obtain rest where "document_loop u (Suc i) rd' bs = Inr rest" using Cons.IH [of "Suc i" rd'] Cons.prems by auto
  ultimately show ?case using p by simp
qed simp

end
