(* ===== verification/Record_Parser.thy ===== *)
theory Record_Parser
  imports Chunking_Facts Enums
begin

text \<open>
  Reading an uploaded record, \<open>app/services/record_parser.py\<close>. The PDF and spreadsheet libraries, the CP949
  table and the decimal format of numbers are parameters (\<open>office\<close>): what they hand out for a file is a
  value of \<open>pdf_outcome\<close> or \<open>xlsx_outcome\<close>.
\<close>

section \<open>What the libraries return\<close>

text \<open>
  A cell value as \<open>_cell_text\<close> tells them apart. A date and time carries its day, hour, minute and the
  microseconds beyond; a \<open>float\<close> its texts under the formats \<open>.15g\<close> and \<open>,.nf\<close>; everything else its
  \<open>str()\<close>.
\<close>

datatype cell_value =
    Cell_None
  | Cell_Datetime date int int int
  | Cell_Date date
  | Cell_Time int int
  | Cell_Int int
  | Cell_Float pystr "nat \<Rightarrow> pystr"
  | Cell_Text pystr

record sheet =
  sheet_title :: pystr
  sheet_visible :: bool
  sheet_rows :: "(cell_value \<times> pystr option) list list"

datatype pdf_outcome = Pdf_Unreadable | Pdf_Crashed | Pdf_Locked | Pdf_Pages "pystr list"

datatype xlsx_outcome = Xlsx_Unreadable | Xlsx_Crashed | Xlsx_Broken | Xlsx_Sheets "sheet list"

record office =
  of_pdf :: "int list \<Rightarrow> pdf_outcome"
  of_xlsx :: "int list \<Rightarrow> xlsx_outcome"
  of_cp949 :: "int list \<Rightarrow> pystr option"
  of_fixed :: "int \<Rightarrow> nat \<Rightarrow> pystr"

text \<open>\<open>RecordParseError\<close> with its reason, or any other exception\<close>

datatype parse_failure = RecordParseError record_parse_error_reason | Parser_Crashed

section \<open>Cells and rows\<close>

definition clean_text :: "pystr \<Rightarrow> pystr" where
  "clean_text s = py_strip (filter (\<lambda>c. c \<noteq> 0) s)"

definition thousands_format :: rx where
  "thousands_format =
     Follows (literal [35, 44, 35, 35, 48]) (Maybe (Follows (exactly 46) (Group ''1'' (many1 (\<lambda>c. c = 48)))))"

definition format_decimals :: "pystr option \<Rightarrow> nat option" where
  "format_decimals fmt =
     (case rx_search thousands_format (case fmt of None \<Rightarrow> [] | Some f \<Rightarrow> f) of
        None \<Rightarrow> None
      | Some (g, _, _) \<Rightarrow> Some (case map_of g ''1'' of None \<Rightarrow> 0 | Some z \<Rightarrow> length z))"

definition day_text :: "date \<Rightarrow> pystr" where
  "day_text day = (case ord2ymd day of (y, m, dd) \<Rightarrow> int_text y @ [45] @ pad 2 m @ [45] @ pad 2 dd)"

definition cell_text :: "office \<Rightarrow> cell_value \<Rightarrow> pystr option \<Rightarrow> pystr" where
  "cell_text f v fmt =
     (case v of
        Cell_None \<Rightarrow> []
      | Cell_Datetime day h m rest \<Rightarrow>
          if h = 0 \<and> m = 0 \<and> rest = 0 then iso_date day
          else day_text day @ [32] @ pad 2 h @ [58] @ pad 2 m
      | Cell_Date day \<Rightarrow> iso_date day
      | Cell_Time h m \<Rightarrow> pad 2 h @ [58] @ pad 2 m
      | Cell_Int n \<Rightarrow> (case format_decimals fmt of Some k \<Rightarrow> of_fixed f n k | None \<Rightarrow> int_text n)
      | Cell_Float general fixed \<Rightarrow> (case format_decimals fmt of Some k \<Rightarrow> fixed k | None \<Rightarrow> general)
      | Cell_Text s \<Rightarrow> clean_text s)"

fun join_with :: "pystr \<Rightarrow> pystr list \<Rightarrow> pystr" where
  "join_with sep [] = []"
| "join_with sep [x] = x"
| "join_with sep (x # xs) = x @ sep @ join_with sep xs"

definition at_or_empty :: "pystr list \<Rightarrow> nat \<Rightarrow> pystr" where
  "at_or_empty xs i = (if i < length xs then xs ! i else [])"

definition row_pair :: "pystr list \<Rightarrow> pystr list \<Rightarrow> nat \<Rightarrow> pystr option" where
  "row_pair header vs i =
     (let name = at_or_empty header i; v = at_or_empty vs i;
          shown = (if name = [] then 50676 # int_text (int i + 1) else name)
      in if name = [] \<and> v = [] then None
         else Some (if v \<noteq> [] then shown @ [58, 32] @ v else shown @ [58]))"

definition row_text :: "pystr list \<Rightarrow> pystr list \<Rightarrow> pystr" where
  "row_text header vs =
     join_with [44, 32] (List.map_filter (row_pair header vs) [0..<max (length header) (length vs)])"

fun table_blocks :: "(nat \<Rightarrow> pystr) \<Rightarrow> pystr list option \<Rightarrow> (nat \<times> pystr list) list \<Rightarrow> record_block list" where
  "table_blocks label header [] = []"
| "table_blocks label header ((n, vs) # rows) =
     (if list_all (\<lambda>v. v = []) vs then table_blocks label header rows
      else case header of
             None \<Rightarrow> table_blocks label (Some vs) rows
           | Some h \<Rightarrow> \<lparr>rb_text = row_text h vs, rb_label = label n\<rparr> # table_blocks label header rows)"

section \<open>Files\<close>

definition pages_to_blocks :: "pystr list \<Rightarrow> record_block list" where
  "pages_to_blocks pages =
     map (\<lambda>(n, text). \<lparr>rb_text = text, rb_label = int_text (int n) @ [51901]\<rparr>)
         (filter (\<lambda>(n, text). text \<noteq> []) (enumerate 1 (map clean_text pages)))"

definition parse_pdf :: "office \<Rightarrow> int list \<Rightarrow> parse_failure + record_block list" where
  "parse_pdf f content =
     (case of_pdf f content of
        Pdf_Unreadable \<Rightarrow> Inl (RecordParseError Reason_UNSUPPORTED_FORMAT)
      | Pdf_Crashed \<Rightarrow> Inl Parser_Crashed
      | Pdf_Locked \<Rightarrow> Inl (RecordParseError Reason_UNSUPPORTED_FORMAT)
      | Pdf_Pages pages \<Rightarrow>
          let blocks = pages_to_blocks pages in
          if blocks = [] then Inl (RecordParseError Reason_IMAGE_NOT_READABLE) else Inr blocks)"

definition sheet_label :: "pystr \<Rightarrow> nat \<Rightarrow> pystr" where
  "sheet_label title n = title @ [32, 183, 32] @ int_text (int n) @ [54665]"

definition sheet_blocks :: "office \<Rightarrow> sheet \<Rightarrow> record_block list" where
  "sheet_blocks f sh =
     table_blocks (sheet_label (sheet_title sh)) None
       (enumerate 1 (map (map (\<lambda>(v, fmt). cell_text f v fmt)) (sheet_rows sh)))"

definition parse_xlsx :: "office \<Rightarrow> int list \<Rightarrow> parse_failure + record_block list" where
  "parse_xlsx f content =
     (case of_xlsx f content of
        Xlsx_Unreadable \<Rightarrow> Inl (RecordParseError Reason_UNSUPPORTED_FORMAT)
      | Xlsx_Crashed \<Rightarrow> Inl Parser_Crashed
      | Xlsx_Broken \<Rightarrow> Inl (RecordParseError Reason_UNSUPPORTED_FORMAT)
      | Xlsx_Sheets sheets \<Rightarrow> Inr (concat (map (sheet_blocks f) (filter sheet_visible sheets))))"

definition row_number_label :: "nat \<Rightarrow> pystr" where
  "row_number_label n = int_text (int n) @ [54665]"

definition csv_table :: "office \<Rightarrow> int list \<Rightarrow> parse_failure + pystr list list" where
  "csv_table f content =
     (case (case utf8_sig_decode content of Some text \<Rightarrow> Some text | None \<Rightarrow> of_cp949 f content) of
        None \<Rightarrow> Inl (RecordParseError Reason_UNSUPPORTED_FORMAT)
      | Some text \<Rightarrow>
          (case read_records (str_lines text) of
             Inl e \<Rightarrow> Inl (RecordParseError Reason_UNSUPPORTED_FORMAT)
           | Inr rows \<Rightarrow> Inr rows))"

definition parse_csv :: "office \<Rightarrow> int list \<Rightarrow> parse_failure + record_block list" where
  "parse_csv f content =
     and_then (csv_table f content) (\<lambda>rows.
       Inr (table_blocks row_number_label None
              (enumerate 1 (map (map (\<lambda>s. cell_text f (Cell_Text s) None)) rows))))"

definition parse_record :: "office \<Rightarrow> int list \<Rightarrow> record_file_type \<Rightarrow> parse_failure + record_block list" where
  "parse_record f content t =
     (if t = File_PDF then parse_pdf f content
      else if t = File_CSV then parse_csv f content
      else if t = File_XLSX then parse_xlsx f content
      else Inl (RecordParseError Reason_UNSUPPORTED_FORMAT))"

end
