(* ===== verification/Record_Parser_Facts.thy ===== *)
theory Record_Parser_Facts
  imports Record_Parser Expense_Export
begin

text \<open>
  What the parser hands to the chunker: blocks that are never blank, with labels the chunker reads back.
\<close>

section \<open>Matches as decompositions\<close>

lemma take_all_prefix: "n \<le> length s \<Longrightarrow> (\<forall>c \<in> set (take n s). p c) \<longleftrightarrow> n \<le> length (takeWhile p s)"
proof (induction n arbitrary: s)
  case (Suc n)
  then show ?case by (cases s) auto
qed simp

lemma in_Many: "(g, x, t) \<in> set (rx_matches (Many p) s) \<longleftrightarrow> g = [] \<and> x @ t = s \<and> (\<forall>c \<in> set x. p c)"
proof
  assume "(g, x, t) \<in> set (rx_matches (Many p) s)"
  then obtain n where n: "n \<le> length (takeWhile p s)" "g = []" "x = take n s" "t = drop n s"
    by (auto simp: less_Suc_eq_le simp del: upt_Suc)
  moreover have "n \<le> length s" using n(1) length_takeWhile_le [of p s] by linarith
  ultimately show "g = [] \<and> x @ t = s \<and> (\<forall>c \<in> set x. p c)" using take_all_prefix [of n s p] by simp
next
  assume r: "g = [] \<and> x @ t = s \<and> (\<forall>c \<in> set x. p c)"
  then have "length x \<le> length (takeWhile p s)" using take_all_prefix [of "length x" s p] by auto
  then have "length x \<in> set (rev [0..<Suc (length (takeWhile p s))])" by (simp add: less_Suc_eq_le del: upt_Suc)
  moreover have "(g, x, t) = ([], take (length x) s, drop (length x) s)" using r by auto
  ultimately show "(g, x, t) \<in> set (rx_matches (Many p) s)" 
    unfolding rx_matches.simps set_map by (intro image_eqI)
qed

lemma in_One: "(g, x, t) \<in> set (rx_matches (One p) s) \<longleftrightarrow> (\<exists>c. g = [] \<and> x = [c] \<and> s = c # t \<and> p c)"
  by (cases s) auto

lemma in_Follows:
  "(g, x, t) \<in> set (rx_matches (Follows a b) s) \<longleftrightarrow>
     (\<exists>h k y z r. g = h @ k \<and> x = y @ z \<and> (h, y, r) \<in> set (rx_matches a s) \<and> (k, z, t) \<in> set (rx_matches b r))"
proof
  assume "(g, x, t) \<in> set (rx_matches (Follows a b) s)"
  then obtain m where m: "m \<in> set (rx_matches a s)"
    "(g, x, t) \<in> (\<lambda>(h, y, r). (fst m @ h, fst (snd m) @ y, r)) ` set (rx_matches b (snd (snd m)))"
    by (auto simp: split_beta)
  then show "\<exists>h k y z r. g = h @ k \<and> x = y @ z \<and> (h, y, r) \<in> set (rx_matches a s) \<and> (k, z, t) \<in> set (rx_matches b r)"
  proof -
    obtain h y r where h: "m = (h, y, r)" by (cases m)
    with m(2) obtain k z where "g = h @ k" "x = y @ z" "(k, z, t) \<in> set (rx_matches b r)" by auto
    then show ?thesis using m(1) h by blast
  qed
next
  assume "\<exists>h k y z r. g = h @ k \<and> x = y @ z \<and> (h, y, r) \<in> set (rx_matches a s) \<and> (k, z, t) \<in> set (rx_matches b r)"
  then obtain h k y z r where "g = h @ k" "x = y @ z" "(h, y, r) \<in> set (rx_matches a s)" "(k, z, t) \<in> set (rx_matches b r)" by blast
  then show "(g, x, t) \<in> set (rx_matches (Follows a b) s)"
    by (simp add: split_beta) (rule bexI [of _ "(h, y, r)"], auto intro: rev_image_eqI)
qed

lemma in_Group: "(g, x, t) \<in> set (rx_matches (Group n a) s) \<longleftrightarrow> (\<exists>h. g = (n, x) # h \<and> (h, x, t) \<in> set (rx_matches a s))"
  by force

lemma in_Maybe: "(g, x, t) \<in> set (rx_matches (Maybe a) s) \<longleftrightarrow> (g, x, t) \<in> set (rx_matches a s) \<or> (g = [] \<and> x = [] \<and> t = s)"
  by auto

lemma in_Ends: "(g, x, t) \<in> set (rx_matches Ends s) \<longleftrightarrow> g = [] \<and> x = [] \<and> t = s \<and> (s = [] \<or> s = [10])"
  by auto

lemma in_many1: "(g, x, t) \<in> set (rx_matches (many1 p) s) \<longleftrightarrow> g = [] \<and> x \<noteq> [] \<and> x @ t = s \<and> (\<forall>c \<in> set x. p c)"
  by (cases x) (auto simp: many1_def in_Follows in_One in_Many simp del: rx_matches.simps)

lemma in_exactly: "(g, x, t) \<in> set (rx_matches (exactly c) s) \<longleftrightarrow> g = [] \<and> x = [c] \<and> s = c # t"
  by (auto simp: exactly_def in_One simp del: rx_matches.simps)

lemmas rx_in = in_Follows in_Group in_Maybe in_Ends in_many1 in_exactly

section \<open>Labels\<close>

lemma in_separator: "(g, x, t) \<in> set (rx_matches (literal [32, 183, 32]) s) \<longleftrightarrow> g = [] \<and> x = [32, 183, 32] \<and> s = 32 # 183 # 32 # t"
  by (auto simp: literal_def rx_in simp del: rx_matches.simps)

definition row_end :: "pystr \<Rightarrow> bool" where
  "row_end t \<longleftrightarrow> t = [] \<or> t = [10]"

lemma in_row_part:
  "(g, x, t) \<in> set (rx_matches (Follows (Group ''row'' (many1 (digit u))) (Follows (exactly 54665) Ends)) s) \<longleftrightarrow>
     (\<exists>ds. g = [(''row'', ds)] \<and> x = ds @ [54665] \<and> ds \<noteq> [] \<and> (\<forall>c \<in> set ds. digit u c) \<and> s = ds @ 54665 # t \<and> row_end t)"
  unfolding rx_in row_end_def by auto

lemma in_sheet_part:
  "(g, x, t) \<in> set (rx_matches (Follows (Group ''sheet'' (many1 (\<lambda>c. c \<noteq> 10))) (literal [32, 183, 32])) s) \<longleftrightarrow>
     (\<exists>sh. g = [(''sheet'', sh)] \<and> x = sh @ [32, 183, 32] \<and> sh \<noteq> [] \<and> 10 \<notin> set sh \<and> s = sh @ 32 # 183 # 32 # t)"
  unfolding in_Follows in_Group in_many1 in_separator by auto

lemma row_labelD:
  assumes "(g, x, t) \<in> set (rx_matches (row_label u) s)"
  shows "\<exists>ds. ds \<noteq> [] \<and> (\<forall>c \<in> set ds. digit u c) \<and> row_end t \<and>
       ((g = [(''row'', ds)] \<and> s = ds @ 54665 # t) \<or>
        (\<exists>sh. sh \<noteq> [] \<and> 10 \<notin> set sh \<and> g = [(''sheet'', sh), (''row'', ds)] \<and> s = sh @ 32 # 183 # 32 # ds @ 54665 # t))"
  using assms unfolding row_label_def rx_seq.simps in_Follows [of _ _ _ "Maybe _"] in_Maybe in_sheet_part in_row_part by auto

lemma row_label_plain:
  assumes "ds \<noteq> []" and "\<forall>c \<in> set ds. digit u c"
  shows "([(''row'', ds)], ds @ [54665], []) \<in> set (rx_matches (row_label u) (ds @ [54665]))"
proof -
  have "([(''row'', ds)], ds @ [54665], []) \<in> set (rx_matches (Follows (Group ''row'' (many1 (digit u))) (Follows (exactly 54665) Ends)) (ds @ [54665]))"
    using assms unfolding in_row_part by (simp add: row_end_def)
  then show ?thesis unfolding row_label_def rx_seq.simps in_Follows [of _ _ _ "Maybe _"] in_Maybe by (metis append_Nil)
qed

lemma row_label_sheet:
  assumes "ds \<noteq> []" and "\<forall>c \<in> set ds. digit u c" and "sh \<noteq> []" and "10 \<notin> set sh"
  shows "([(''sheet'', sh), (''row'', ds)], sh @ [32, 183, 32] @ ds @ [54665], []) \<in>
    set (rx_matches (row_label u) (sh @ [32, 183, 32] @ ds @ [54665]))"
proof -
  have "([(''row'', ds)], ds @ [54665], []) \<in> set (rx_matches (Follows (Group ''row'' (many1 (digit u))) (Follows (exactly 54665) Ends)) (ds @ [54665]))"
    using assms(1,2) unfolding in_row_part by (simp add: row_end_def)
  moreover have "([(''sheet'', sh)], sh @ [32, 183, 32], ds @ [54665]) \<in>
      set (rx_matches (Follows (Group ''sheet'' (many1 (\<lambda>c. c \<noteq> 10))) (literal [32, 183, 32])) (sh @ [32, 183, 32] @ ds @ [54665]))"
    using assms(3,4) unfolding in_sheet_part by simp
  then have "([(''sheet'', sh)], sh @ [32, 183, 32], ds @ [54665]) \<in>
      set (rx_matches (Maybe (Follows (Group ''sheet'' (many1 (\<lambda>c. c \<noteq> 10))) (literal [32, 183, 32]))) (sh @ [32, 183, 32] @ ds @ [54665]))"
    unfolding in_Maybe by (rule disjI1)
  ultimately have "([(''sheet'', sh)] @ [(''row'', ds)], (sh @ [32, 183, 32]) @ ds @ [54665], []) \<in>
    set (rx_matches (row_label u) (sh @ [32, 183, 32] @ ds @ [54665]))"
    unfolding row_label_def rx_seq.simps in_Follows [of _ _ _ "Maybe _"] by blast
  then show ?thesis by simp
qed

lemma rx_match_unique:
  assumes "m \<in> set (rx_matches r s)" and "\<And>h y q. (h, y, q) \<in> set (rx_matches r s) \<Longrightarrow> h = fst m"
  shows "\<exists>y q. rx_match r s = Some (fst m, y, q)"
proof -
  obtain h y q ms where ms: "rx_matches r s = (h, y, q) # ms" using assms(1) by (cases "rx_matches r s") auto
  then show ?thesis using assms(2) [of h y q] by (simp add: rx_match_def)
qed

text \<open>A digit is neither a space nor the letter that ends a label.\<close>

definition plain_digits :: "unicode \<Rightarrow> bool" where
  "plain_digits u \<longleftrightarrow> conservative u \<and> \<not> digit u 54665"

lemma last_split:
  assumes "a @ x # v = b @ x # w" and "x \<notin> set v" and "x \<notin> set w"
  shows "a = b \<and> v = w"
  using assms
proof (induction a arbitrary: b)
  case Nil
  then show ?case by (cases b) auto
next
  case (Cons c a)
  then show ?case by (cases b) (auto dest: arg_cong [of _ _ set])
qed

lemma digit_facts:
  assumes "plain_digits u" and "\<forall>c \<in> set ds. digit u c"
  shows "32 \<notin> set ds" and "54665 \<notin> set ds"
proof -
  have "\<not> digit u 32" "\<not> digit u 54665" using assms(1) by (simp_all add: plain_digits_def conservative_def digit_def ascii_decimal_def)
  then show "32 \<notin> set ds" "54665 \<notin> set ds" using assms(2) by blast+
qed

lemma int_text_digits: "conservative u \<Longrightarrow> c \<in> set (int_text (int n)) \<Longrightarrow> digit u c"
  using nat_digits_range [of c n] by (auto simp: int_text_def conservative_def digit_def ascii_decimal_def)

lemma row_number_label_match:
  assumes "plain_digits u"
  shows "\<exists>y q. rx_match (row_label u) (row_number_label n) = Some ([(''row'', int_text (int n))], y, q)"
proof -
  let ?d = "int_text (int n)"
  have d: "?d \<noteq> []" "\<forall>c \<in> set ?d. digit u c" using int_text_digits assms by (auto simp: int_text_def plain_digits_def)
  have unique: "h = [(''row'', ?d)]" if h: "(h, y, q) \<in> set (rx_matches (row_label u) (?d @ [54665]))" for h y q
  proof -
    have no: "32 \<notin> set (?d @ [54665])" using digit_facts(1) [OF assms d(2)] by simp
    obtain ds where ds: "\<forall>c \<in> set ds. digit u c" "row_end q"
      and shape: "(h = [(''row'', ds)] \<and> ?d @ [54665] = ds @ 54665 # q) \<or> (\<exists>sh. ?d @ [54665] = sh @ 32 # 183 # 32 # ds @ 54665 # q)"
      using row_labelD [OF h] by blast
    have "?d @ [54665] \<noteq> sh @ 32 # 183 # 32 # ds @ 54665 # q" for sh
    proof
      assume eq: "?d @ [54665] = sh @ 32 # 183 # 32 # ds @ 54665 # q"
      have "32 \<in> set (?d @ [54665])" unfolding eq by simp
      then show False using no by contradiction
    qed
    then have h': "h = [(''row'', ds)]" and eq: "?d @ 54665 # [] = ds @ 54665 # q" using shape by auto
    have "54665 \<notin> set q" using ds(2) by (auto simp: row_end_def)
    then show ?thesis using last_split [OF eq] h' by simp
  qed
  show ?thesis unfolding row_number_label_def using rx_match_unique [OF row_label_plain [OF d]] unique by (metis fst_conv)
qed

lemma sheet_label_match:
  assumes "plain_digits u" and "title \<noteq> []" and "10 \<notin> set title"
  shows "\<exists>y q. rx_match (row_label u) (sheet_label title n) = Some ([(''sheet'', title), (''row'', int_text (int n))], y, q)"
proof -
  let ?d = "int_text (int n)"
  let ?s = "title @ [32, 183, 32] @ ?d @ [54665]"
  have d: "?d \<noteq> []" "\<forall>c \<in> set ?d. digit u c" using int_text_digits assms by (auto simp: int_text_def plain_digits_def)
  have unique: "h = [(''sheet'', title), (''row'', ?d)]" if h: "(h, y, q) \<in> set (rx_matches (row_label u) ?s)" for h y q
  proof -
    obtain ds where ds: "\<forall>c \<in> set ds. digit u c" "row_end q"
      and shape: "?s = ds @ 54665 # q \<or> (\<exists>sh. h = [(''sheet'', sh), (''row'', ds)] \<and> ?s = sh @ 32 # 183 # 32 # ds @ 54665 # q)"
      using row_labelD [OF h] by blast
    have q: "32 \<notin> set q" "54665 \<notin> set q" using ds(2) by (auto simp: row_end_def)
    have "32 \<notin> set (ds @ 54665 # q)" using digit_facts(1) [OF assms(1) ds(1)] q by simp
    moreover have "32 \<in> set ?s" by simp
    ultimately have "?s \<noteq> ds @ 54665 # q" by metis
    then obtain sh where h': "h = [(''sheet'', sh), (''row'', ds)]" and eq: "?s = sh @ 32 # 183 # 32 # ds @ 54665 # q" using shape by blast
    have "(title @ [32, 183]) @ 32 # ?d @ [54665] = (sh @ [32, 183]) @ 32 # ds @ 54665 # q" using eq by simp
    moreover have "32 \<notin> set (?d @ [54665])" using digit_facts(1) [OF assms(1) d(2)] by simp
    ultimately have "title = sh" and tl: "?d @ 54665 # [] = ds @ 54665 # q"
      using last_split \<open>32 \<notin> set (ds @ 54665 # q)\<close> by (metis append_same_eq)+
    then show ?thesis using last_split [OF tl _ q(2)] h' by simp
  qed
  show ?thesis unfolding sheet_label_def using rx_match_unique [OF row_label_sheet [OF d assms(2,3)]] unique by (metis fst_conv)
qed

section \<open>Blocks\<close>

lemma set_join_with: "x \<in> set xs \<Longrightarrow> set x \<subseteq> set (join_with sep xs)"
  by (induction xs rule: join_with.induct [of _ sep]) auto

lemma row_text_nonblank:
  assumes "v \<in> set vs" and "py_strip v \<noteq> []"
  shows "py_strip (row_text header vs) \<noteq> []"
proof -
  obtain i where i: "i < length vs" "v = vs ! i" using assms(1) by (auto simp: in_set_conv_nth)
  have "v \<noteq> []" using assms(2) by auto
  then obtain p where p: "row_pair header vs i = Some p" "set v \<subseteq> set p"
    using i by (auto simp: row_pair_def at_or_empty_def Let_def split: if_splits)
  have "p \<in> set (List.map_filter (row_pair header vs) [0..<max (length header) (length vs)])"
    using p(1) i(1) by (force simp: List.map_filter_def)
  then have "set v \<subseteq> set (row_text header vs)" using set_join_with p(2) unfolding row_text_def by blast
  then show ?thesis using assms(2) by (rule py_strip_mono [rotated])
qed

lemma table_blocks_mem:
  "b \<in> set (table_blocks label header rows) \<Longrightarrow>
     \<exists>n vs h. (n, vs) \<in> set rows \<and> (\<exists>v \<in> set vs. v \<noteq> []) \<and> b = \<lparr>rb_text = row_text h vs, rb_label = label n\<rparr>"
proof (induction label header rows rule: table_blocks.induct)
  case (2 label header n vs rows)
  show ?case
  proof (cases "list_all (\<lambda>v. v = []) vs")
    case True
    then show ?thesis using 2(1) 2(4) by auto
  next
    case False
    then have filled: "\<exists>v \<in> set vs. v \<noteq> []" by (auto simp: list_all_iff)
    show ?thesis
    proof (cases header)
      case None
      then show ?thesis using 2(2) [OF False None] 2(4) False by auto
    next
      case (Some h)
      then show ?thesis using 2(3) [OF False Some] 2(4) False filled by auto
    qed
  qed
qed simp

lemma set_dropWhile_keeps: "c \<in> set s \<Longrightarrow> \<not> P c \<Longrightarrow> c \<in> set (dropWhile P s)"
  by (induction s) auto

lemma clean_text_nonblank: "clean_text s \<noteq> [] \<Longrightarrow> py_strip (clean_text s) \<noteq> []"
proof -
  assume "clean_text s \<noteq> []"
  then obtain c where "c \<in> set (filter (\<lambda>c. c \<noteq> 0) s)" "\<not> py_space c" unfolding clean_text_def py_strip_empty_iff by blast
  then have "c \<in> set (clean_text s)" unfolding clean_text_def py_strip_def by (simp add: set_dropWhile_keeps)
  then show ?thesis using \<open>\<not> py_space c\<close> by (auto simp: py_strip_empty_iff)
qed

lemma pdf_blocks_valid: "b \<in> set (pages_to_blocks pages) \<Longrightarrow> valid_block b"
  using clean_text_nonblank
  by (auto simp: pages_to_blocks_def valid_block_def in_set_enumerate_eq py_strip_empty_iff py_space_def int_text_def)

lemma csv_blocks:
  assumes "parse_csv f content = Inr blocks" and "csv_table f content = Inr rows" and "b \<in> set blocks"
  shows "\<exists>n \<le> length rows. valid_block b \<and> rb_label b = row_number_label n"
proof -
  let ?rows = "enumerate 1 (map (map (\<lambda>s. cell_text f (Cell_Text s) None)) rows)"
  have "b \<in> set (table_blocks row_number_label None ?rows)" using assms by (simp add: parse_csv_def)
  then obtain n vs h where b: "(n, vs) \<in> set ?rows" "\<exists>v \<in> set vs. v \<noteq> []"
    "b = \<lparr>rb_text = row_text h vs, rb_label = row_number_label n\<rparr>" using table_blocks_mem by blast
  then have n: "n \<le> length rows" and vs: "\<exists>r. vs = map clean_text r"
    by (auto simp: in_set_enumerate_eq cell_text_def)
  then obtain v where "v \<in> set vs" "py_strip v \<noteq> []" using b(2) clean_text_nonblank by (metis (no_types, lifting) ex_map_conv)
  then have "py_strip (row_text h vs) \<noteq> []" by (rule row_text_nonblank)
  then show ?thesis using n b(3) by (auto simp: valid_block_def row_number_label_def py_strip_empty_iff py_space_def)
qed

lemma row_label_read:
  assumes "plain_digits u" and "n < 10000000000" and "rb_label b = row_number_label n"
  shows "parse_ledger_row u i b = Inr (Some \<lparr>lr_index = i, lr_sheet = None, lr_number = int n, lr_text = rb_text b\<rparr>)"
proof -
  obtain y q where "rx_match (row_label u) (rb_label b) = Some ([(''row'', int_text (int n))], y, q)"
    using row_number_label_match [OF assms(1), of n] assms(3) by auto
  moreover have "py_int u (int_text (int n)) = Some (int n)"
    using assms(1,2) by (intro py_int_text) (simp_all add: plain_digits_def)
  ultimately show ?thesis by (simp add: parse_ledger_row_def)
qed

lemma csv_record_chunks:
  assumes "plain_digits u" and "parse_csv f content = Inr blocks" and "csv_table f content = Inr rows" and "length rows < 10000000000"
  shows "\<exists>cs. chunk_ledger u blocks = Inr cs \<and> concat (map tk_block_indexes cs) = [0..<length blocks] \<and>
    (\<forall>c \<in> set cs. \<exists>rs. rs \<noteq> [] \<and> fits_chunk rs \<and> ledger_chunk rs = Inr c \<and>
       (\<forall>r \<in> set rs. lr_sheet r = None \<and> lr_index r < length blocks \<and> rb_label (blocks ! lr_index r) = row_number_label (nat (lr_number r)) \<and>
          lr_text r = rb_text (blocks ! lr_index r)))"
proof -
  have read: "\<exists>n. valid_block b \<and> rb_label b = row_number_label n \<and>
      (\<forall>i. parse_ledger_row u i b = Inr (Some \<lparr>lr_index = i, lr_sheet = None, lr_number = int n, lr_text = rb_text b\<rparr>))"
    if "b \<in> set blocks" for b
    using csv_blocks [OF assms(2,3) that] row_label_read [OF assms(1)] assms(4) by (metis order_le_less_trans)
  then obtain cs where cs: "chunk_ledger u blocks = Inr cs"
    using ledger_loop_total [of blocks u "[]" 0] unfolding chunk_ledger_def by fastforce
  have parts: "concat (map tk_block_indexes cs) = [0..<length blocks]" "\<forall>c \<in> set cs. ledger_part u blocks c"
    using ledger_loop_Inr [OF cs [unfolded chunk_ledger_def], of blocks] by (simp_all add: rows_of_def)
  have "\<exists>rs. rs \<noteq> [] \<and> fits_chunk rs \<and> ledger_chunk rs = Inr c \<and>
       (\<forall>r \<in> set rs. lr_sheet r = None \<and> lr_index r < length blocks \<and> rb_label (blocks ! lr_index r) = row_number_label (nat (lr_number r)) \<and>
          lr_text r = rb_text (blocks ! lr_index r))" if c: "c \<in> set cs" for c
  proof -
    have "parse_ledger_row u i (blocks ! i) \<noteq> Inr None" if "i < length blocks" for i using read [OF nth_mem [OF that]] by auto
    then obtain rs where rs: "rs \<noteq> []" "rows_of u blocks rs" "fits_chunk rs" "ledger_chunk rs = Inr c"
      using parts(2) c unfolding ledger_part_def by blast
    have "lr_sheet r = None \<and> lr_index r < length blocks \<and> rb_label (blocks ! lr_index r) = row_number_label (nat (lr_number r)) \<and>
        lr_text r = rb_text (blocks ! lr_index r)" if r: "r \<in> set rs" for r
    proof -
      have i: "lr_index r < length blocks" "parse_ledger_row u (lr_index r) (blocks ! lr_index r) = Inr (Some r)"
        using rs(2) r unfolding rows_of_def by auto
      obtain n where n: "rb_label (blocks ! lr_index r) = row_number_label n"
        "parse_ledger_row u (lr_index r) (blocks ! lr_index r) =
           Inr (Some \<lparr>lr_index = lr_index r, lr_sheet = None, lr_number = int n, lr_text = rb_text (blocks ! lr_index r)\<rparr>)"
        using read [OF nth_mem [OF i(1)]] by auto
      then have "r = \<lparr>lr_index = lr_index r, lr_sheet = None, lr_number = int n, lr_text = rb_text (blocks ! lr_index r)\<rparr>" using i(2) by simp
      then have "lr_sheet r = None" "lr_number r = int n" "lr_text r = rb_text (blocks ! lr_index r)"
        by (metis ledger_row.select_convs(2), metis ledger_row.select_convs(3), metis ledger_row.select_convs(4))
      then show ?thesis using i(1) n(1) by simp
    qed
    then show ?thesis using rs by blast
  qed
  then show ?thesis using cs parts(1) by blast
qed

end
