(* ===== verification/Record_Desk.thy ===== *)
theory Record_Desk
  imports Receipt_Import Access Document_Facts Record_Parser_Facts
begin

text \<open>
  Uploaded records and their search chunks: \<open>app/services/record_service.py\<close>, \<open>app/routers/records.py\<close> and
  \<open>app/ai/features/retrieval/indexing.py\<close>. Indexing waits for the embedding model between two
  transactions, \<open>index_begin\<close> and \<open>index_finish\<close>; any other request may run in between. The object storage
  is a table of files, and a \<open>None\<close> for the key of a new file means that storing it failed; the embedding
  model is a parameter.
\<close>

section \<open>State\<close>

text \<open>A Python \<open>float\<close>: a finite one has a mantissa and an exponent.\<close>

datatype pyfloat = Finite int int | Infinite | Not_A_Number

type_synonym embedding = "pyfloat list"

record chunk_row =
  rk_id :: ident
  rk_record_id :: ident
  rk_chunk_index :: nat
  rk_text :: pystr
  rk_label :: pystr
  rk_block_indexes :: "nat list"
  rk_embedding :: embedding

record shelf =
  sh_db :: db
  sh_chunks :: "chunk_row list"
  sh_files :: "(pystr \<times> int list) list"

section \<open>Indexing\<close>

definition EMBEDDING_DIMENSIONS :: nat where
  "EMBEDDING_DIMENSIONS = 1536"

record index_request =
  ir_file_name :: pystr
  ir_file_type :: record_file_type
  ir_blocks :: "record_block list"

record indexed_chunk =
  ix_chunk :: text_chunk
  ix_embedding :: embedding

definition embedding_input :: "pystr \<Rightarrow> text_chunk \<Rightarrow> pystr" where
  "embedding_input file_name c =
     [47928, 49436, 58, 32] @ file_name @ [10, 50948, 52824, 58, 32] @ tk_label c @ [10, 10] @ tk_text c"

fun chunk_exn :: "chunk_error \<Rightarrow> ai_exn" where
  "chunk_exn BlankText = PydanticValidationError"
| "chunk_exn TooManyDigits = OtherException"

text \<open>\<open>index_record_chunks\<close>; \<open>zip(strict=True)\<close> refuses a different number of vectors.\<close>

definition index_record_chunks ::
  "unicode \<Rightarrow> (pystr list \<Rightarrow> ai_exn + embedding list) \<Rightarrow> index_request \<Rightarrow> ai_exn + indexed_chunk list" where
  "index_record_chunks u emb r =
     (if ir_blocks r = [] then Inl AIEmptyRecordError
      else case (if ir_file_type r \<in> {File_CSV, File_XLSX} then chunk_ledger u (ir_blocks r) else chunk_document u (ir_blocks r)) of
             Inl e \<Rightarrow> Inl (chunk_exn e)
           | Inr cs \<Rightarrow>
               and_then (emb (map (embedding_input (ir_file_name r)) cs)) (\<lambda>vs.
                 if length vs \<noteq> length cs then Inl OtherException
                 else if list_ex (\<lambda>v. length v \<noteq> EMBEDDING_DIMENSIONS) vs \<or> cs = [] then Inl PydanticValidationError
                 else Inr (map (\<lambda>(c, v). \<lparr>ix_chunk = c, ix_embedding = v\<rparr>) (zip cs vs))))"

definition usable_embedding :: "embedding \<Rightarrow> bool" where
  "usable_embedding v \<longleftrightarrow> list_all (\<lambda>x. x \<noteq> Infinite \<and> x \<noteq> Not_A_Number) v \<and> list_ex (\<lambda>x. case x of Finite m e \<Rightarrow> m \<noteq> 0 | _ \<Rightarrow> True) v"

definition index_outcome ::
  "unicode \<Rightarrow> (pystr list \<Rightarrow> ai_exn + embedding list) \<Rightarrow> index_request \<Rightarrow> ai_exn + indexed_chunk list" where
  "index_outcome u emb r =
     and_then (index_record_chunks u emb r) (\<lambda>cs.
       if list_all (\<lambda>c. usable_embedding (ix_embedding c)) cs then Inr cs else Inl AIInvalidResponseError)"

section \<open>Stored blocks\<close>

definition block_json :: "record_block \<Rightarrow> json" where
  "block_json b = JObj [(''text'', JStr (rb_text b)), (''location'', JObj [(''label'', JStr (rb_label b))])]"

definition blocks_json :: "record_block list \<Rightarrow> dict" where
  "blocks_json bs = [(''blocks'', JList (map block_json bs))]"

text \<open>\<open>RecordBlock.model_validate\<close>: both texts, no other keys, neither blank.\<close>

definition validate_block :: "json \<Rightarrow> record_block option" where
  "validate_block j =
     (case j of
        JObj kvs \<Rightarrow>
          (case (map_of kvs ''text'', map_of kvs ''location'') of
             (Some (JStr t), Some (JObj ls)) \<Rightarrow>
               (case map_of ls ''label'' of
                  Some (JStr l) \<Rightarrow>
                    (let b = \<lparr>rb_text = t, rb_label = l\<rparr> in
                     if valid_block b \<and> set (map fst kvs) \<subseteq> {''text'', ''location''} \<and> set (map fst ls) \<subseteq> {''label''}
                     then Some b else None)
                | _ \<Rightarrow> None)
           | _ \<Rightarrow> None)
      | _ \<Rightarrow> None)"

fun validate_blocks :: "json list \<Rightarrow> record_block list option" where
  "validate_blocks [] = Some []"
| "validate_blocks (j # js) =
     (case validate_block j of None \<Rightarrow> None | Some b \<Rightarrow> map_option (\<lambda>bs. b # bs) (validate_blocks js))"

text \<open>\<open>(record.parse_result or {}).get("blocks", [])\<close>, each item validated\<close>

definition stored_blocks :: "dict option \<Rightarrow> record_block list option" where
  "stored_blocks r =
     (case r of
        None \<Rightarrow> Some []
      | Some kvs \<Rightarrow> (case map_of kvs ''blocks'' of None \<Rightarrow> Some [] | Some (JList js) \<Rightarrow> validate_blocks js | Some _ \<Rightarrow> None))"

section \<open>Operations\<close>

definition get_record :: "ident \<Rightarrow> shelf \<Rightarrow> api_error + record_row" where
  "get_record i s = (case find_record (sh_db s) i of None \<Rightarrow> Inl RecordNotFound | Some r \<Rightarrow> Inr r)"

text \<open>\<open>index_record\<close> up to the call of the model: the finished record, or a request.\<close>

definition index_begin :: "ident \<Rightarrow> shelf \<Rightarrow> api_error + (record_row + index_request)" where
  "index_begin i s =
     and_then (get_record i s) (\<lambda>r.
       if rc_parse_status r = Parse_INDEXED then Inr (Inl r)
       else if rc_parse_status r \<noteq> Parse_COMPLETED then Inl (ValidationFailed [''recordId''])
       else case stored_blocks (rc_parse_result r) of
              None \<Rightarrow> Inl (Unhandled ''ValidationError'')
            | Some bs \<Rightarrow> Inr (Inr \<lparr>ir_file_name = rc_file_name r, ir_file_type = rc_file_type r, ir_blocks = bs\<rparr>))"

fun ai_exn_name :: "ai_exn \<Rightarrow> string" where
  "ai_exn_name AIError = ''AIError''"
| "ai_exn_name AIConfigError = ''AIConfigError''"
| "ai_exn_name AIEmptyRecordError = ''AIEmptyRecordError''"
| "ai_exn_name AIRetryableError = ''AIRetryableError''"
| "ai_exn_name AITimeoutError = ''AITimeoutError''"
| "ai_exn_name AIInvalidResponseError = ''AIInvalidResponseError''"
| "ai_exn_name AIOutputLimitError = ''AIOutputLimitError''"
| "ai_exn_name PydanticValidationError = ''ValidationError''"
| "ai_exn_name OtherException = ''Exception''"

definition index_error_body :: "ai_exn \<Rightarrow> dict" where
  "index_error_body e = [(''code'', JStr (lit (ai_exn_name e)))]"

fun new_chunks :: "rnd \<Rightarrow> ident \<Rightarrow> nat \<Rightarrow> indexed_chunk list \<Rightarrow> db \<Rightarrow> chunk_row list \<times> db" where
  "new_chunks g i n [] d = ([], d)"
| "new_chunks g i n (c # cs) d =
     (let row = \<lparr>rk_id = new_id g d ''rck'', rk_record_id = i, rk_chunk_index = n, rk_text = tk_text (ix_chunk c),
                 rk_label = tk_label (ix_chunk c), rk_block_indexes = tk_block_indexes (ix_chunk c), rk_embedding = ix_embedding c\<rparr>;
          (rows, d') = new_chunks g i (Suc n) cs (drawn d)
      in (row # rows, d'))"

text \<open>\<open>index_record\<close> after the call: what the model did is stored unless the record is gone or finished.\<close>

definition index_finish :: "rnd \<Rightarrow> ident \<Rightarrow> ai_exn + indexed_chunk list \<Rightarrow> shelf \<Rightarrow> api_error + (record_row \<times> shelf)" where
  "index_finish g i outcome s =
     (case outcome of
        Inl e \<Rightarrow>
          if \<not> is_ai_error e then Inl (Unhandled (ai_exn_name e))
          else (case find_record (sh_db s) i of
                  None \<Rightarrow> Inl RecordNotFound
                | Some r \<Rightarrow>
                    if rc_parse_status r \<noteq> Parse_INDEXED
                    then let r' = r\<lparr>rc_index_error := Some (index_error_body e)\<rparr>
                         in Inr (r', s\<lparr>sh_db := put_record r' (sh_db s)\<rparr>)
                    else Inr (r, s))
      | Inr cs \<Rightarrow>
          (case find_record (sh_db s) i of
             None \<Rightarrow> Inl RecordNotFound
           | Some r \<Rightarrow>
               if rc_parse_status r \<noteq> Parse_INDEXED
               then let (rows, d) = new_chunks g i 0 cs (sh_db s);
                        kept = filter (\<lambda>c. rk_record_id c \<noteq> i) (sh_chunks s);
                        r' = r\<lparr>rc_parse_status := Parse_INDEXED, rc_index_error := None\<rparr>
                    in Inr (r', s\<lparr>sh_db := put_record r' d, sh_chunks := kept @ rows\<rparr>)
               else Inr (r, s)))"

text \<open>The whole call when nothing runs in between.\<close>

definition index_record ::
  "rnd \<Rightarrow> unicode \<Rightarrow> (pystr list \<Rightarrow> ai_exn + embedding list) \<Rightarrow> ident \<Rightarrow> shelf \<Rightarrow> api_error + (record_row \<times> shelf)" where
  "index_record g u emb i s =
     and_then (index_begin i s) (\<lambda>b.
       case b of Inl r \<Rightarrow> Inr (r, s) | Inr req \<Rightarrow> index_finish g i (index_outcome u emb req) s)"

section \<open>Uploading and deleting\<close>

text \<open>\<open>Path(file_name).suffix\<close>: of the last component that is neither empty nor a dot.\<close>

fun path_parts :: "pystr \<Rightarrow> pystr list" where
  "path_parts [] = [[]]"
| "path_parts (c # s) =
     (if c = 47 then [] # path_parts s else case path_parts s of [] \<Rightarrow> [[c]] | p # ps \<Rightarrow> (c # p) # ps)"

definition path_name :: "pystr \<Rightarrow> pystr" where
  "path_name s = (case rev (filter (\<lambda>p. p \<noteq> [] \<and> p \<noteq> [46]) (path_parts s)) of [] \<Rightarrow> [] | p # _ \<Rightarrow> p)"

definition path_suffix :: "pystr \<Rightarrow> pystr" where
  "path_suffix s =
     (let name = path_name s; ext = rev (takeWhile (\<lambda>c. c \<noteq> 46) (rev name)) in
      if 46 \<in> set name \<and> ext \<noteq> [] \<and> length ext + 1 < length name then 46 # ext else [])"

definition FILE_TYPES :: "(pystr \<times> record_file_type) list" where
  "FILE_TYPES =
     [(lit ''.csv'', File_CSV), (lit ''.pdf'', File_PDF), (lit ''.xlsx'', File_XLSX), (lit ''.hwp'', File_HWP),
      (lit ''.jpg'', File_IMAGE), (lit ''.jpeg'', File_IMAGE), (lit ''.png'', File_IMAGE)]"

fun reason_name :: "record_parse_error_reason \<Rightarrow> string" where
  "reason_name Reason_COLUMN_MISMATCH = ''COLUMN_MISMATCH''"
| "reason_name Reason_IMAGE_NOT_READABLE = ''IMAGE_NOT_READABLE''"
| "reason_name Reason_UNSUPPORTED_FORMAT = ''UNSUPPORTED_FORMAT''"
| "reason_name Reason_UNKNOWN = ''UNKNOWN''"

definition parse_error_body :: "record_parse_error_reason \<Rightarrow> dict" where
  "parse_error_body r = [(''reason'', JStr (lit (reason_name r))), (''params'', JObj [])]"

definition new_record ::
  "rnd \<Rightarrow> instant \<Rightarrow> ident \<Rightarrow> ident option \<Rightarrow> record_category \<Rightarrow> pystr \<Rightarrow> record_file_type \<Rightarrow> pystr \<Rightarrow> int list
     \<Rightarrow> parse_failure + record_block list \<Rightarrow> db \<Rightarrow> record_row" where
  "new_record g now club eid cat file_name t storage_key content parsed d =
     \<lparr>rc_id = new_id g d ''rec'', rc_club_id = club, rc_event_id = eid, rc_file_name = file_name, rc_file_type = t,
      rc_category = cat, rc_storage_key = storage_key, rc_size = length content,
      rc_parse_status = (case parsed of Inl _ \<Rightarrow> Parse_FAILED | Inr _ \<Rightarrow> Parse_COMPLETED),
      rc_parse_result = (case parsed of Inl _ \<Rightarrow> None | Inr bs \<Rightarrow> Some (blocks_json bs)),
      rc_parse_error = (case parsed of Inl (RecordParseError r) \<Rightarrow> Some (parse_error_body r) | _ \<Rightarrow> None),
      rc_index_error = None, rc_created_at = now\<rparr>"

text \<open>
  \<open>upload_record\<close> up to its first commit: the record, or the error together with the shelf it leaves (the
  file is removed again when the parser or the insertion fails).
\<close>

definition upload_record ::
  "office \<Rightarrow> unicode \<Rightarrow> rnd \<Rightarrow> instant \<Rightarrow> pystr option \<Rightarrow> ident \<Rightarrow> ident option \<Rightarrow> record_category \<Rightarrow> pystr \<Rightarrow> int list
     \<Rightarrow> shelf \<Rightarrow> (api_error + record_row) \<times> shelf" where
  "upload_record f u g now storage club eid cat file_name content s =
     (case map_of FILE_TYPES (lower u (path_suffix file_name)) of
        None \<Rightarrow> (Inl (ValidationFailed [''file'']), s)
      | Some t \<Rightarrow>
          if (case eid of None \<Rightarrow> False
              | Some e \<Rightarrow> (case find_event (sh_db s) e of None \<Rightarrow> True | Some ev \<Rightarrow> ev_club_id ev \<noteq> club))
          then (Inl (ValidationFailed [''eventId'']), s)
          else (case storage of
                  None \<Rightarrow> (Inl (Unhandled ''StorageError''), s)
                | Some key \<Rightarrow>
                    (case parse_record f content t of
                       Inl Parser_Crashed \<Rightarrow> (Inl (Unhandled ''Exception''), s)
                     | parsed \<Rightarrow>
                         let rec = new_record g now club eid cat file_name t key content parsed (sh_db s) in
                         (case (if length file_name > 255 \<or> length key > 512 then Inl (Unhandled ''DataError'')
                                else insert_record rec (drawn (sh_db s))) of
                            Inl e \<Rightarrow> (Inl e, s)
                          | Inr d \<Rightarrow> (Inr rec, s\<lparr>sh_db := d, sh_files := (key, content) # sh_files s\<rparr>)))))"

definition delete_record :: "bool \<Rightarrow> ident \<Rightarrow> shelf \<Rightarrow> api_error + shelf" where
  "delete_record file_deleted i s =
     (case find_record (sh_db s) i of
        None \<Rightarrow> Inl RecordNotFound
      | Some r \<Rightarrow>
          let d = sh_db s in
          Inr (s\<lparr>sh_db := d\<lparr>records := filter (\<lambda>q. rc_id q \<noteq> i) (records d),
                            expenses := map (\<lambda>x. if ex_receipt_record_id x = Some i then x\<lparr>ex_receipt_record_id := None\<rparr> else x) (expenses d),
                            receipt_imports := map (\<lambda>x. if rim_record_id x = Some i then x\<lparr>rim_record_id := None\<rparr> else x) (receipt_imports d)\<rparr>,
                 sh_chunks := filter (\<lambda>c. rk_record_id c \<noteq> i) (sh_chunks s),
                 sh_files := (if file_deleted then filter (\<lambda>(k, _). k \<noteq> rc_storage_key r) (sh_files s) else sh_files s)\<rparr>))"

section \<open>Lists\<close>

text \<open>The pages of a club's records, the newest first.\<close>

definition club_records :: "ident \<Rightarrow> record_category option \<Rightarrow> shelf \<Rightarrow> record_row list" where
  "club_records club cat s =
     filter (\<lambda>r. rc_club_id r = club \<and> (case cat of None \<Rightarrow> True | Some c \<Rightarrow> rc_category r = c)) (records (sh_db s))"

definition list_records :: "ident \<Rightarrow> record_category option \<Rightarrow> int \<Rightarrow> int \<Rightarrow> shelf \<Rightarrow> record_row list \<times> nat" where
  "list_records club cat page n s =
     (paginate page n (sort_key (\<lambda>r. - rc_created_at r) (club_records club cat s)),
      length (club_records club cat s))"

definition record_categories :: "record_category list" where
  "record_categories = [Record_LEDGER, Record_ETC, Record_RULES, Record_EVENT_HISTORY, Record_RECEIPT]"

definition count_records_by_category :: "ident \<Rightarrow> shelf \<Rightarrow> (record_category \<times> nat) list" where
  "count_records_by_category club s = map (\<lambda>c. (c, length (club_records club (Some c) s))) record_categories"

section \<open>Routes\<close>

text \<open>The routes by record first look the record up and then check the membership in its club.\<close>

definition record_for_account :: "ident \<Rightarrow> ident \<Rightarrow> shelf \<Rightarrow> api_error + record_row" where
  "record_for_account i account s =
     and_then (get_record i s) (\<lambda>r. and_then (ensure_member (rc_club_id r) account None (sh_db s)) (\<lambda>_. Inr r))"

definition retry_index_begin :: "ident \<Rightarrow> ident \<Rightarrow> shelf \<Rightarrow> api_error + (record_row + index_request)" where
  "retry_index_begin i account s = and_then (record_for_account i account s) (\<lambda>_. index_begin i s)"

definition delete_record_endpoint :: "bool \<Rightarrow> ident \<Rightarrow> ident \<Rightarrow> shelf \<Rightarrow> api_error + shelf" where
  "delete_record_endpoint file_deleted i account s =
     and_then (record_for_account i account s) (\<lambda>_. delete_record file_deleted i s)"

definition upload_record_endpoint ::
  "office \<Rightarrow> unicode \<Rightarrow> rnd \<Rightarrow> instant \<Rightarrow> pystr option \<Rightarrow> ident \<Rightarrow> ident \<Rightarrow> ident option \<Rightarrow> record_category \<Rightarrow> pystr option
     \<Rightarrow> int list \<Rightarrow> shelf \<Rightarrow> (api_error + record_row) \<times> shelf" where
  "upload_record_endpoint f u g now storage account club eid cat file_name content s =
     (case ensure_member club account None (sh_db s) of
        Inl e \<Rightarrow> (Inl e, s)
      | Inr _ \<Rightarrow>
          upload_record f u g now storage club eid cat
            (case file_name of None \<Rightarrow> lit ''upload'' | Some n \<Rightarrow> if n = [] then lit ''upload'' else n) content s)"

definition category_counts :: "ident \<Rightarrow> ident \<Rightarrow> shelf \<Rightarrow> api_error + (nat \<times> (record_category \<times> nat) list)" where
  "category_counts club account s =
     and_then (ensure_member club account None (sh_db s)) (\<lambda>_.
       let counts = count_records_by_category club s in Inr (sum_list (map snd counts), counts))"

end
