(* ===== verification/Record_Protocol.thy ===== *)
theory Record_Protocol
  imports Record_Desk
begin

text \<open>
  Uploads, indexing and deletion of records as they interleave. A run keeps the shelf and the index calls
  that wait for the model, each with the record it is for and the request it sent; the answer of a call
  may be stored at any later time, or never.
\<close>

type_synonym waiting = "(ident \<times> index_request) list"

text \<open>\<open>Other_Request\<close> is any request that changes neither the records nor their chunks.\<close>

inductive shelf_step :: "unicode \<Rightarrow> shelf \<times> waiting \<Rightarrow> shelf \<times> waiting \<Rightarrow> bool" for u where
  File_Uploaded: "upload_record f u g now st club eid cat fn content s = (Inr r, s') \<Longrightarrow> rc_id r \<notin> fst ` set ws \<Longrightarrow>
    shelf_step u (s, ws) (s', ws)"
| File_Refused: "upload_record f u g now st club eid cat fn content s = (Inl e, s') \<Longrightarrow> shelf_step u (s, ws) (s', ws)"
| Index_Begun: "index_begin i s = Inr (Inr req) \<Longrightarrow> shelf_step u (s, ws) (s, (i, req) # ws)"
| Index_Finished: "(i, req) \<in> set ws \<Longrightarrow> index_finish g i (index_outcome u emb req) s = Inr (r, s') \<Longrightarrow>
    shelf_step u (s, ws) (s', remove1 (i, req) ws)"
| Index_Lost: "shelf_step u (s, ws) (s, remove1 w ws)"
| Was_Deleted: "delete_record fd i s = Inr s' \<Longrightarrow> shelf_step u (s, ws) (s', ws)"
| Receipt_Stored: "open_import g now key club eid t fn content by' (sh_db s) = Inr (item, d) \<Longrightarrow> new_id g (sh_db s) ''rec'' \<notin> fst ` set ws \<Longrightarrow>
    shelf_step u (s, ws) (s\<lparr>sh_db := d\<rparr>, ws)"
| Other_Request: "records d = records (sh_db s) \<Longrightarrow> shelf_step u (s, ws) (s\<lparr>sh_db := d\<rparr>, ws)"

definition request_of :: "record_row \<Rightarrow> record_block list \<Rightarrow> index_request" where
  "request_of r bs = \<lparr>ir_file_name = rc_file_name r, ir_file_type = rc_file_type r, ir_blocks = bs\<rparr>"

text \<open>The chunks of a record by its stored blocks, without the embeddings.\<close>

definition record_chunks :: "unicode \<Rightarrow> record_row \<Rightarrow> (chunk_error + text_chunk list) option" where
  "record_chunks u r =
     map_option (\<lambda>bs. if rc_file_type r \<in> {File_CSV, File_XLSX} then chunk_ledger u bs else chunk_document u bs)
       (stored_blocks (rc_parse_result r))"

definition stored_chunk :: "chunk_row \<Rightarrow> text_chunk" where
  "stored_chunk k = \<lparr>tk_text = rk_text k, tk_label = rk_label k, tk_block_indexes = rk_block_indexes k\<rparr>"

definition chunks_for :: "ident \<Rightarrow> chunk_row list \<Rightarrow> chunk_row list" where
  "chunks_for i ks = filter (\<lambda>k. rk_record_id k = i) ks"

definition indexed_as_stored :: "unicode \<Rightarrow> chunk_row list \<Rightarrow> record_row \<Rightarrow> bool" where
  "indexed_as_stored u ks r \<longleftrightarrow>
     (\<exists>cs. record_chunks u r = Some (Inr cs) \<and> cs \<noteq> [] \<and> map stored_chunk ks = cs \<and> map rk_chunk_index ks = [0..<length cs])"

text \<open>An indexed record has the chunks of its stored text, in order; any other record has none.\<close>

definition searchable :: "unicode \<Rightarrow> chunk_row list \<Rightarrow> record_row \<Rightarrow> bool" where
  "searchable u ks r \<longleftrightarrow> (if rc_parse_status r = Parse_INDEXED then indexed_as_stored u ks r else ks = [])"

definition chunks_ok :: "unicode \<Rightarrow> shelf \<Rightarrow> bool" where
  "chunks_ok u s \<longleftrightarrow>
     distinct (map rc_id (records (sh_db s))) \<and>
     (\<forall>r \<in> set (records (sh_db s)). searchable u (chunks_for (rc_id r) (sh_chunks s)) r) \<and>
     (\<forall>k \<in> set (sh_chunks s). rk_record_id k \<in> rc_id ` set (records (sh_db s)))"

definition waits_ok :: "shelf \<Rightarrow> waiting \<Rightarrow> bool" where
  "waits_ok s ws \<longleftrightarrow> (\<forall>i req r. (i, req) \<in> set ws \<longrightarrow> find_record (sh_db s) i = Some r \<longrightarrow>
     (\<exists>bs. stored_blocks (rc_parse_result r) = Some bs \<and> req = request_of r bs))"

definition shelf_ok :: "unicode \<Rightarrow> shelf \<times> waiting \<Rightarrow> bool" where
  "shelf_ok u x \<longleftrightarrow> chunks_ok u (fst x) \<and> waits_ok (fst x) (snd x)"

section \<open>Single operations\<close>

lemma record_chunks_cong:
  "rc_file_type r' = rc_file_type r \<Longrightarrow> rc_parse_result r' = rc_parse_result r \<Longrightarrow> record_chunks u r' = record_chunks u r"
  by (simp add: record_chunks_def)

lemma new_chunks_rows:
  assumes "new_chunks g i n cs d = (rows, d')"
  shows "map stored_chunk rows = map ix_chunk cs \<and> map rk_chunk_index rows = [n..<n + length cs] \<and>
    (\<forall>k \<in> set rows. rk_record_id k = i) \<and> records d' = records d"
  using assms
proof (induction cs arbitrary: n d rows)
  case (Cons c cs)
  obtain rows1 d1 where r: "new_chunks g i (Suc n) cs (drawn d) = (rows1, d1)" by fastforce
  have "[n..<n + length (c # cs)] = n # [Suc n..<Suc n + length cs]" by (simp add: upt_conv_Cons del: upt_Suc)
  then show ?case using Cons.IH [of "Suc n" "drawn d" rows1] r Cons.prems by (auto simp: stored_chunk_def drawn_def)
qed simp

lemma index_outcome_Inr:
  assumes "index_outcome u emb (request_of r bs) = Inr cs" and "stored_blocks (rc_parse_result r) = Some bs"
  shows "record_chunks u r = Some (Inr (map ix_chunk cs))" and "cs \<noteq> []"
proof -
  from assms(1) obtain tcs vs where t: "(if rc_file_type r \<in> {File_CSV, File_XLSX} then chunk_ledger u bs else chunk_document u bs) = Inr tcs"
    and l: "length vs = length tcs" "tcs \<noteq> []" and cs: "cs = map (\<lambda>(c, v). \<lparr>ix_chunk = c, ix_embedding = v\<rparr>) (zip tcs vs)"
    by (auto simp: index_outcome_def index_record_chunks_def request_of_def and_then_eq_Inr split: if_splits sum.splits)
  have "map ix_chunk cs = tcs" unfolding cs using l(1) by (intro nth_equalityI) auto
  then show "record_chunks u r = Some (Inr (map ix_chunk cs))" using t assms(2) by (simp add: record_chunks_def)
  show "cs \<noteq> []" using l cs by auto
qed

lemma index_begin_request:
  assumes "index_begin i s = Inr (Inr req)"
  shows "\<exists>r bs. find_record (sh_db s) i = Some r \<and> stored_blocks (rc_parse_result r) = Some bs \<and> req = request_of r bs"
  using assms by (auto simp: index_begin_def get_record_def and_then_eq_Inr request_of_def split: option.splits if_splits)

lemma upload_Inr:
  assumes "upload_record f u g now st club eid cat fn content s = (Inr r, s')"
  shows "records (sh_db s') = records (sh_db s) @ [r] \<and> rc_id r \<notin> rc_id ` set (records (sh_db s)) \<and> sh_chunks s' = sh_chunks s \<and>
    rc_parse_status r \<noteq> Parse_INDEXED"
  using assms
  by (auto simp: upload_record_def insert_record_def and_then_eq_Inr insert_row_Inr drawn_def new_record_def Let_def
      split: option.splits if_splits sum.splits parse_failure.splits)

lemma upload_Inl:
  assumes "upload_record f u g now st club eid cat fn content s = (Inl e, s')"
  shows "s' = s"
  using assms by (auto simp: upload_record_def Let_def split: option.splits if_splits sum.splits parse_failure.splits)

lemma find_record_append: "rc_id r \<noteq> i \<Longrightarrow> records d' = records d @ [r] \<Longrightarrow> find_record d' i = find_record d i"
  by (simp add: find_record_def get_row_append split: option.split)

lemma chunks_ok_same:
  "chunks_ok u s \<Longrightarrow> records (sh_db s') = records (sh_db s) \<Longrightarrow> sh_chunks s' = sh_chunks s \<Longrightarrow> chunks_ok u s'"
  by (simp add: chunks_ok_def)

lemma waits_ok_same: "waits_ok s ws \<Longrightarrow> records (sh_db s') = records (sh_db s) \<Longrightarrow> set ws' \<subseteq> set ws \<Longrightarrow> waits_ok s' ws'"
  unfolding waits_ok_def find_record_def by auto

lemma chunks_ok_new_record:
  assumes "chunks_ok u s" and "records (sh_db s') = records (sh_db s) @ [r]" and "rc_id r \<notin> rc_id ` set (records (sh_db s))"
    and "sh_chunks s' = sh_chunks s" and "rc_parse_status r \<noteq> Parse_INDEXED"
  shows "chunks_ok u s'"
proof -
  have "\<forall>k \<in> set (sh_chunks s). rk_record_id k \<noteq> rc_id r" using assms(1,3) unfolding chunks_ok_def by metis
  then have "chunks_for (rc_id r) (sh_chunks s) = []" by (simp add: chunks_for_def filter_empty_conv)
  then have "searchable u (chunks_for (rc_id r) (sh_chunks s)) r" using assms(5) by (simp add: searchable_def)
  then show ?thesis using assms(1-4) by (simp add: chunks_ok_def)
qed

lemma waits_ok_new_record:
  assumes "waits_ok s ws" and "records (sh_db s') = records (sh_db s) @ [r]" and "rc_id r \<notin> fst ` set ws"
  shows "waits_ok s' ws"
  unfolding waits_ok_def
proof (intro allI impI)
  fix i req q assume w: "(i, req) \<in> set ws" and q: "find_record (sh_db s') i = Some q"
  have "rc_id r \<noteq> i" using w assms(3) by force
  then have "find_record (sh_db s) i = Some q" using q find_record_append [OF _ assms(2)] by simp
  then show "\<exists>bs. stored_blocks (rc_parse_result q) = Some bs \<and> req = request_of q bs" using assms(1) w unfolding waits_ok_def by blast
qed

text \<open>Writing back a row that keeps its file, with its chunks replaced or not.\<close>

lemma find_record_mem: "find_record d i = Some r \<Longrightarrow> r \<in> set (records d) \<and> rc_id r = i"
  using get_row_SomeD [of rc_id "records d" i r] by (simp add: find_record_def)

lemma waits_ok_put:
  assumes "waits_ok s ws" and "find_record (sh_db s) i = Some r" and "records d = records (sh_db s)"
    and "rc_id r' = i" and "rc_parse_result r' = rc_parse_result r" and "rc_file_name r' = rc_file_name r" and "rc_file_type r' = rc_file_type r"
    and "sh_db s' = put_record r' d"
  shows "waits_ok s' ws"
proof -
  have same: "find_record d k = find_record (sh_db s) k" for k using assms(3) by (simp add: find_record_def)
  have put: "find_record (sh_db s') k = (if k = i then Some r' else find_record (sh_db s) k)" for k
    using record_table.get_put [of d r' r k] assms(2,4,8) same by simp
  show ?thesis unfolding waits_ok_def put
    using assms(1,2,5-7) unfolding waits_ok_def by (auto simp: request_of_def)
qed

lemma chunks_ok_put:
  assumes "chunks_ok u s" and "find_record (sh_db s) i = Some r" and "rc_id r' = i"
    and "records (sh_db s') = put_row rc_id r' (records (sh_db s))"
    and "searchable u (chunks_for i (sh_chunks s')) r'" and "\<And>k. k \<noteq> i \<Longrightarrow> chunks_for k (sh_chunks s') = chunks_for k (sh_chunks s)"
    and "\<forall>k \<in> set (sh_chunks s'). rk_record_id k = i \<or> k \<in> set (sh_chunks s)"
  shows "chunks_ok u s'"
proof -
  have keys: "map rc_id (records (sh_db s')) = map rc_id (records (sh_db s))"
    using assms(4) by (simp add: map_key_put_row)
  then have ids: "rc_id ` set (records (sh_db s')) = rc_id ` set (records (sh_db s))" by (metis set_map)
  have "searchable u (chunks_for (rc_id q) (sh_chunks s')) q" if q: "q \<in> set (records (sh_db s'))" for q
  proof (cases "rc_id q = i")
    case True
    then have "q = r'" using q assms(1,3,4) by (auto simp: put_row_def chunks_ok_def dest!: put_row_memE)
    then show ?thesis using assms(3,5) by simp
  next
    case False
    then have "q \<in> set (records (sh_db s))" using q assms(3,4) put_row_memE by metis
    then show ?thesis using assms(1) assms(6) [OF False] by (simp add: chunks_ok_def)
  qed
  moreover have "rk_record_id k \<in> rc_id ` set (records (sh_db s))" if "k \<in> set (sh_chunks s')" for k
    using that assms(1,7) find_record_mem [OF assms(2)] unfolding chunks_ok_def by blast
  ultimately show ?thesis using assms(1) keys ids by (simp add: chunks_ok_def)
qed

lemma index_finish_cases:
  assumes "index_finish g i outcome s = Inr (q, s')"
  obtains (Kept) r where "find_record (sh_db s) i = Some r" and "s' = s"
    | (Failed) r e where "find_record (sh_db s) i = Some r" and "rc_parse_status r \<noteq> Parse_INDEXED"
        and "s' = s\<lparr>sh_db := put_record (r\<lparr>rc_index_error := Some (index_error_body e)\<rparr>) (sh_db s)\<rparr>"
    | (Stored) r cs rows d where "find_record (sh_db s) i = Some r" and "rc_parse_status r \<noteq> Parse_INDEXED" and "outcome = Inr cs"
        and "new_chunks g i 0 cs (sh_db s) = (rows, d)"
        and "s' = s\<lparr>sh_db := put_record (r\<lparr>rc_parse_status := Parse_INDEXED, rc_index_error := None\<rparr>) d,
                    sh_chunks := filter (\<lambda>c. rk_record_id c \<noteq> i) (sh_chunks s) @ rows\<rparr>"
proof (cases "find_record (sh_db s) i")
  case None
  then show thesis using assms by (simp add: index_finish_def split: sum.splits if_splits)
next
  case (Some r)
  show thesis
  proof (cases "rc_parse_status r = Parse_INDEXED")
    case True
    then have "s' = s" using assms Some by (simp add: index_finish_def split: sum.splits if_splits)
    then show thesis using that(1) Some by blast
  next
    case False
    show thesis
    proof (cases outcome)
      case (Inl e)
      then have "s' = s\<lparr>sh_db := put_record (r\<lparr>rc_index_error := Some (index_error_body e)\<rparr>) (sh_db s)\<rparr>"
        using assms Some False by (auto simp: index_finish_def Let_def split: if_splits)
      then show thesis by (rule that(2) [OF Some False])
    next
      case (Inr cs)
      obtain rows d where nc: "new_chunks g i 0 cs (sh_db s) = (rows, d)" by fastforce
      then have "s' = s\<lparr>sh_db := put_record (r\<lparr>rc_parse_status := Parse_INDEXED, rc_index_error := None\<rparr>) d,
                    sh_chunks := filter (\<lambda>c. rk_record_id c \<noteq> i) (sh_chunks s) @ rows\<rparr>"
        using assms Some False Inr by (auto simp: index_finish_def Let_def)
      then show thesis by (rule that(3) [OF Some False Inr nc])
    qed
  qed
qed

lemma index_finish_ok:
  assumes "index_finish g i (index_outcome u emb req) s = Inr (q, s')" and "shelf_ok u (s, ws)" and "(i, req) \<in> set ws"
  shows "shelf_ok u (s', ws)"
proof -
  have ok: "chunks_ok u s" "waits_ok s ws" using assms(2) by (simp_all add: shelf_ok_def)
  from assms(1) show ?thesis
  proof (cases rule: index_finish_cases)
    case (Kept r)
    then show ?thesis using assms(2) by simp
  next
    case (Failed r e)
    let ?r = "r\<lparr>rc_index_error := Some (index_error_body e)\<rparr>"
    have r: "r \<in> set (records (sh_db s))" "rc_id r = i" using find_record_mem [OF Failed(1)] by auto
    then have "searchable u (chunks_for i (sh_chunks s)) r" using ok(1) unfolding chunks_ok_def by blast
    then have "searchable u (chunks_for i (sh_chunks s')) ?r" using Failed(2,3) by (simp add: searchable_def)
    then have "chunks_ok u s'" using Failed(3) r(2) by (intro chunks_ok_put [OF ok(1) Failed(1)]) (auto simp: put_record_def)
    moreover have "waits_ok s' ws" using Failed(3) r(2) by (intro waits_ok_put [OF ok(2) Failed(1) refl]) auto
    ultimately show ?thesis by (simp add: shelf_ok_def)
  next
    case (Stored r cs rows d)
    let ?r = "r\<lparr>rc_parse_status := Parse_INDEXED, rc_index_error := None\<rparr>"
    have r: "rc_id r = i" using find_record_mem [OF Stored(1)] by auto
    note rows = new_chunks_rows [OF Stored(4)]
    obtain bs where bs: "stored_blocks (rc_parse_result r) = Some bs" "req = request_of r bs"
      using ok(2) assms(3) Stored(1) unfolding waits_ok_def by blast
    note out = index_outcome_Inr [OF Stored(3) [unfolded bs(2)] bs(1)]
    have "record_chunks u ?r = Some (Inr (map ix_chunk cs))" using out(1) record_chunks_cong [of ?r r u] by simp
    then have "indexed_as_stored u rows ?r" using rows out(2) by (simp add: indexed_as_stored_def)
    moreover have "chunks_for i (sh_chunks s') = rows" using rows Stored(5) by (simp add: chunks_for_def filter_id_conv)
    ultimately have "searchable u (chunks_for i (sh_chunks s')) ?r" by (simp add: searchable_def)
    moreover have "chunks_for k (sh_chunks s') = chunks_for k (sh_chunks s)" if "k \<noteq> i" for k
      using rows Stored(5) that by (auto simp: chunks_for_def filter_empty_conv conj_commute intro: filter_cong)
    ultimately have "chunks_ok u s'" using Stored(5) rows r by (intro chunks_ok_put [OF ok(1) Stored(1)]) (auto simp: put_record_def)
    moreover have "waits_ok s' ws" using Stored(5) rows r by (intro waits_ok_put [OF ok(2) Stored(1)]) auto
    ultimately show ?thesis by (simp add: shelf_ok_def)
  qed
qed

lemma delete_record_ok:
  assumes "delete_record fd i s = Inr s'" and "shelf_ok u (s, ws)"
  shows "shelf_ok u (s', ws)"
proof -
  have recs: "records (sh_db s') = filter (\<lambda>q. rc_id q \<noteq> i) (records (sh_db s))"
    and ks: "sh_chunks s' = filter (\<lambda>c. rk_record_id c \<noteq> i) (sh_chunks s)"
    using assms(1) by (auto simp: delete_record_def Let_def split: option.splits)
  have for_same: "chunks_for k (sh_chunks s') = chunks_for k (sh_chunks s)" if "k \<noteq> i" for k
    using that by (auto simp: chunks_for_def ks conj_commute intro: filter_cong)
  have "find_record (sh_db s) k = Some r" if "find_record (sh_db s') k = Some r" for k r
  proof -
    have "r \<in> set (records (sh_db s))" "rc_id r = k" using find_record_mem [OF that] recs by auto
    then show ?thesis using assms(2) get_row_distinct [of rc_id "records (sh_db s)" r]
      by (simp add: shelf_ok_def chunks_ok_def find_record_def)
  qed
  then have "waits_ok s' ws" using assms(2) unfolding shelf_ok_def waits_ok_def by auto
  moreover have "chunks_ok u s'"
    using assms(2) for_same by (auto simp: shelf_ok_def chunks_ok_def recs ks distinct_map_filter)
  ultimately show ?thesis by (simp add: shelf_ok_def)
qed

lemma open_import_records:
  assumes "open_import g now key club eid t fn content by' d = Inr (item, d')"
  shows "\<exists>r. records d' = records d @ [r] \<and> rc_id r = new_id g d ''rec'' \<and> rc_id r \<notin> rc_id ` set (records d) \<and> rc_parse_status r = Parse_COMPLETED"
  using assms
  by (auto simp: open_import_def Let_def and_then_eq_Inr insert_record_def insert_receipt_import_def insert_row_Inr drawn_def new_id_def)

lemma shelf_step_ok:
  assumes "shelf_step u x y" and "shelf_ok u x"
  shows "shelf_ok u y"
  using assms
proof (cases rule: shelf_step.cases)
  case (File_Uploaded f g now st club eid cat fn content s r s' ws)
  then show ?thesis using upload_Inr [OF File_Uploaded(3)] assms(2) chunks_ok_new_record [of u s s' r] waits_ok_new_record [of s ws s' r]
    by (simp add: shelf_ok_def)
next
  case (File_Refused f g now st club eid cat fn content s e s' ws)
  then show ?thesis using upload_Inl [OF File_Refused(3)] assms(2) by simp
next
  case (Index_Begun i s req ws)
  obtain r bs where "find_record (sh_db s) i = Some r" "stored_blocks (rc_parse_result r) = Some bs" "req = request_of r bs"
    using index_begin_request [OF Index_Begun(3)] by blast
  then have "waits_ok s ws \<Longrightarrow> waits_ok s ((i, req) # ws)" unfolding waits_ok_def by auto
  then show ?thesis using assms(2) Index_Begun(1,2) by (simp add: shelf_ok_def)
next
  case (Index_Finished i req ws g emb s r s')
  have "shelf_ok u (s', ws)" using index_finish_ok [OF Index_Finished(4) _ Index_Finished(3)] assms(2) Index_Finished(1) by simp
  then show ?thesis using waits_ok_same [of s' ws s' "remove1 (i, req) ws"] Index_Finished(2)
    by (simp add: shelf_ok_def set_remove1_subset)
next
  case (Index_Lost s ws w)
  then show ?thesis using assms(2) waits_ok_same [of s ws s "remove1 w ws"] by (simp add: shelf_ok_def set_remove1_subset)
next
  case (Was_Deleted fd i s s' ws)
  then show ?thesis using delete_record_ok assms(2) by simp
next
  case (Receipt_Stored g now key club eid t fn content by' s item d ws)
  obtain r where r: "records d = records (sh_db s) @ [r]" "rc_id r = new_id g (sh_db s) ''rec''" "rc_id r \<notin> rc_id ` set (records (sh_db s))"
    "rc_parse_status r = Parse_COMPLETED" using open_import_records [OF Receipt_Stored(3)] by blast
  then show ?thesis
    using assms(2) Receipt_Stored chunks_ok_new_record [of u s "s\<lparr>sh_db := d\<rparr>" r] waits_ok_new_record [of s ws "s\<lparr>sh_db := d\<rparr>" r]
    by (simp add: shelf_ok_def)
next
  case (Other_Request d s ws)
  then show ?thesis using assms(2) chunks_ok_same [of u s "s\<lparr>sh_db := d\<rparr>"] waits_ok_same [of s ws "s\<lparr>sh_db := d\<rparr>" ws] by (simp add: shelf_ok_def)
qed

lemma shelf_run_ok: "(shelf_step u)\<^sup>*\<^sup>* x y \<Longrightarrow> shelf_ok u x \<Longrightarrow> shelf_ok u y"
  by (induction rule: rtranclp_induct) (auto intro: shelf_step_ok)

end
