(* ===== verification/Record_Claims.thy ===== *)
theory Record_Claims
  imports Record_Protocol Record_Parser_Facts Document_Facts Demo_Desk
begin

text \<open>The properties of uploaded records and their search chunks, with witnesses on small files.\<close>

section \<open>Shared facts\<close>



lemma upload_row:
  assumes "upload_record f u g now st club eid cat fn content s = (Inr r, s')"
  shows "find_record (sh_db s') (rc_id r) = Some r" and "rc_parse_status r \<noteq> Parse_INDEXED"
    and "rc_parse_status r = Parse_COMPLETED \<Longrightarrow>
      \<exists>bs. parse_record f content (rc_file_type r) = Inr bs \<and> rc_parse_result r = Some (blocks_json bs)"
proof -
  note up = upload_Inr [OF assms]
  then have "get_row rc_id (records (sh_db s)) (rc_id r) = None" by (simp add: get_row_None_iff)
  then show "find_record (sh_db s') (rc_id r) = Some r" using up by (simp add: find_record_def get_row_append)
  show "rc_parse_status r \<noteq> Parse_INDEXED" using up by simp
  show "rc_parse_status r = Parse_COMPLETED \<Longrightarrow>
      \<exists>bs. parse_record f content (rc_file_type r) = Inr bs \<and> rc_parse_result r = Some (blocks_json bs)"
    using assms by (auto simp: upload_record_def Let_def new_record_def split: option.splits if_splits sum.splits parse_failure.splits)
qed

text \<open>An embedding model that answers every request with one usable vector per text.\<close>

definition embeds_all :: "(pystr list \<Rightarrow> ai_exn + embedding list) \<Rightarrow> bool" where
  "embeds_all emb \<longleftrightarrow>
     (\<forall>ts. \<exists>vs. emb ts = Inr vs \<and> length vs = length ts \<and> (\<forall>v \<in> set vs. length v = EMBEDDING_DIMENSIONS \<and> usable_embedding v))"

lemma index_outcome_embeds:
  assumes "embeds_all emb" and "ir_blocks req \<noteq> []" and "cs \<noteq> []"
    and "(if ir_file_type req \<in> {File_CSV, File_XLSX} then chunk_ledger u (ir_blocks req) else chunk_document u (ir_blocks req)) = Inr cs"
  shows "\<exists>xs. index_outcome u emb req = Inr xs \<and> map ix_chunk xs = cs"
proof -
  obtain vs where vs: "emb (map (embedding_input (ir_file_name req)) cs) = Inr vs" "length vs = length cs"
    "\<forall>v \<in> set vs. length v = EMBEDDING_DIMENSIONS \<and> usable_embedding v"
    using assms(1) unfolding embeds_all_def by (metis length_map)
  let ?xs = "map (\<lambda>(c, v). \<lparr>ix_chunk = c, ix_embedding = v\<rparr>) (zip cs vs)"
  have "index_record_chunks u emb req = Inr ?xs"
    using assms(2-4) vs by (simp add: index_record_chunks_def list_ex_iff)
  moreover have "list_all (\<lambda>c. usable_embedding (ix_embedding c)) ?xs"
    using vs(3) by (auto simp: list_all_iff dest: set_zip_rightD)
  ultimately have "index_outcome u emb req = Inr ?xs" by (simp add: index_outcome_def)
  moreover have "map ix_chunk ?xs = cs" using vs(2) by (intro nth_equalityI) auto
  ultimately show ?thesis by blast
qed

lemma index_finish_stored:
  assumes "find_record (sh_db s) i = Some r" and "rc_parse_status r \<noteq> Parse_INDEXED"
  shows "\<exists>r' s'. index_finish g i (Inr xs) s = Inr (r', s') \<and> rc_parse_status r' = Parse_INDEXED \<and>
    map stored_chunk (chunks_for i (sh_chunks s')) = map ix_chunk xs"
proof -
  obtain rows d where nc: "new_chunks g i 0 xs (sh_db s) = (rows, d)" by fastforce
  have "filter (\<lambda>k. rk_record_id k = i) rows = rows" using new_chunks_rows [OF nc] by (simp add: filter_id_conv)
  then show ?thesis using new_chunks_rows [OF nc] assms nc by (simp add: index_finish_def chunks_for_def Let_def)
qed







section \<open>Small files\<close>

text \<open>A CSV file of a header and two rows, and a PDF file with one page; the libraries are total stand-ins.\<close>

definition demo_page :: pystr where
  "demo_page = [97, 10] @ replicate 1000 32 @ [98]"

definition demo_office :: office where
  "demo_office = \<lparr>of_pdf = (\<lambda>_. Pdf_Pages [demo_page]), of_xlsx = (\<lambda>_. Xlsx_Unreadable), of_cp949 = (\<lambda>_. None), of_fixed = (\<lambda>n d. int_text n)\<rparr>"

definition demo_embedder :: "pystr list \<Rightarrow> ai_exn + embedding list" where
  "demo_embedder ts = Inr (map (\<lambda>_. replicate EMBEDDING_DIMENSIONS (Finite 1 0)) ts)"

definition demo_csv :: "int list" where
  "demo_csv = lit ''n,w'' @ [10] @ lit ''A,10'' @ [10] @ lit ''B,20'' @ [10]"

definition demo_table :: "pystr list list" where
  "demo_table = [[lit ''n'', lit ''w''], [lit ''A'', lit ''10''], [lit ''B'', lit ''20'']]"

definition demo_blocks :: "record_block list" where
  "demo_blocks = [\<lparr>rb_text = lit ''n: A, w: 10'', rb_label = [50, 54665]\<rparr>, \<lparr>rb_text = lit ''n: B, w: 20'', rb_label = [51, 54665]\<rparr>]"

definition demo_shelf :: shelf where
  "demo_shelf = \<lparr>sh_db = demo, sh_chunks = [], sh_files = []\<rparr>"

definition demo_put :: "pystr \<Rightarrow> int list \<Rightarrow> (api_error + record_row) \<times> shelf" where
  "demo_put name content =
     upload_record demo_office demo_unicode demo_rnd 50 (Some (lit ''key'')) ''clb_1'' None Record_LEDGER name content demo_shelf"

definition demo_file_row :: "pystr \<Rightarrow> record_file_type \<Rightarrow> nat \<Rightarrow> record_block list \<Rightarrow> record_row" where
  "demo_file_row name t n bs =
     \<lparr>rc_id = ''rec_'', rc_club_id = ''clb_1'', rc_event_id = None, rc_file_name = name, rc_file_type = t,
      rc_category = Record_LEDGER, rc_storage_key = lit ''key'', rc_size = n, rc_parse_status = Parse_COMPLETED,
      rc_parse_result = Some (blocks_json bs), rc_parse_error = None, rc_index_error = None, rc_created_at = 50\<rparr>"

lemma demo_csv_read:
  "csv_table demo_office demo_csv = Inr demo_table" "parse_csv demo_office demo_csv = Inr demo_blocks"
  by code_simp+

lemma demo_csv_put: "fst (demo_put (lit ''a.csv'') demo_csv) = Inr (demo_file_row (lit ''a.csv'') File_CSV 14 demo_blocks)"
  by code_simp

lemma demo_pdf_read: "parse_pdf demo_office [] = Inr [\<lparr>rb_text = demo_page, rb_label = [49, 51901]\<rparr>]"
  by code_simp


lemma demo_digits: "plain_digits demo_unicode"
  using demo_unicode_conservative by (simp add: plain_digits_def digit_def demo_unicode_def ascii_decimal_def)

lemma demo_embeds: "embeds_all demo_embedder"
  by (auto simp: embeds_all_def demo_embedder_def usable_embedding_def list_all_iff list_ex_iff EMBEDDING_DIMENSIONS_def)

section \<open>Properties\<close>



text \<open>
  C21. Cutting a document into chunks loses nothing: every chunk lies on one page, has at most a thousand
  characters, and the chunks of a page spell its text (white space aside), each after at most 150 repeated
  characters of the one before. A document whose lines have at most a thousand characters is always cut.
\<close>

theorem document_chunks_spell_the_pages:
  "(\<forall>cs. chunk_document u bs = Inr cs \<longrightarrow>
      (\<forall>c \<in> set cs. page_part bs 0 c) \<and>
      (\<forall>k < length bs. spells [] (map tk_text (filter (\<lambda>c. tk_block_indexes c = [k]) cs)) (solid (rb_text (bs ! k))))) \<and>
   ((\<forall>b \<in> set bs. valid_block b \<and> (\<forall>l \<in> set (split_lines (rb_text b)). length l \<le> CHUNK_MAX_CHARS)) \<longrightarrow>
      (\<exists>cs. chunk_document u bs = Inr cs))"
  using document_loop_Inr [of u 0 start_reading bs] document_loop_total [of bs u 0 start_reading]
  by (simp add: chunk_document_def)

theorem document_chunks_spell_the_pages_witness:
  "\<exists>c. chunk_document demo_unicode [\<lparr>rb_text = lit ''a b'', rb_label = lit ''p''\<rparr>] = Inr [c] \<and> page_part [\<lparr>rb_text = lit ''a b'', rb_label = lit ''p''\<rparr>] 0 c"
proof -
  let ?bs = "[\<lparr>rb_text = lit ''a b'', rb_label = lit ''p''\<rparr>]"
  have cut: "chunk_document demo_unicode ?bs = Inr [\<lparr>tk_text = lit ''a b'', tk_label = lit ''p'', tk_block_indexes = [0]\<rparr>]" by code_simp
  then show ?thesis using conjunct1 [OF document_chunks_spell_the_pages [of demo_unicode ?bs]] by simp
qed



text \<open>
  C23. In every interleaving of uploads, index calls, deletions and other requests, an indexed record has
  exactly the chunks of its stored text, numbered in order, a record that is not indexed has none, and no
  chunk is left of a deleted record. A late answer of the model for a record that was deleted or indexed
  meanwhile changes nothing of this.
\<close>

theorem chunks_follow_the_records:
  assumes "(shelf_step u)\<^sup>*\<^sup>* (s, []) (s', ws)" and "chunks_ok u s"
  shows "chunks_ok u s'"
  using shelf_run_ok [OF assms(1)] assms(2) by (simp add: shelf_ok_def waits_ok_def)

theorem chunks_follow_the_records_witness:
  "\<exists>s ws. (shelf_step demo_unicode)\<^sup>*\<^sup>* (demo_shelf, []) (s, ws) \<and> sh_chunks s \<noteq> [] \<and> chunks_ok demo_unicode s"
proof -
  have up: "upload_record demo_office demo_unicode demo_rnd 50 (Some (lit ''key'')) ''clb_1'' None Record_LEDGER (lit ''a.csv'') demo_csv demo_shelf =
      (Inr (demo_file_row (lit ''a.csv'') File_CSV 14 demo_blocks), snd (demo_put (lit ''a.csv'') demo_csv))" (is "_ = (Inr ?r, ?s)")
    using demo_csv_put unfolding demo_put_def by (metis prod.collapse)
  have row: "find_record (sh_db ?s) ''rec_'' = Some ?r" "rc_parse_status ?r \<noteq> Parse_INDEXED"
    using upload_row(1) [OF up] by (simp_all add: demo_file_row_def)
  have bs: "stored_blocks (Some (blocks_json demo_blocks)) = Some demo_blocks" by code_simp
  then have begun: "index_begin ''rec_'' ?s = Inr (Inr (request_of ?r demo_blocks))" (is "_ = Inr (Inr ?q)")
    using row(1) by (simp add: index_begin_def get_record_def request_of_def demo_file_row_def)
  obtain cs where cs: "chunk_ledger demo_unicode demo_blocks = Inr cs" "concat (map tk_block_indexes cs) = [0..<length demo_blocks]"
    using csv_record_chunks [OF demo_digits demo_csv_read(2,1)] by (auto simp: demo_table_def)
  then have ne: "cs \<noteq> []" by (auto simp: demo_blocks_def)
  obtain xs where xs: "index_outcome demo_unicode demo_embedder ?q = Inr xs" "map ix_chunk xs = cs"
    using index_outcome_embeds [OF demo_embeds _ ne, of ?q demo_unicode] cs(1) by (auto simp: request_of_def demo_file_row_def demo_blocks_def)
  obtain r' s' where fin: "index_finish demo_rnd ''rec_'' (index_outcome demo_unicode demo_embedder ?q) ?s = Inr (r', s')"
    "map stored_chunk (chunks_for ''rec_'' (sh_chunks s')) = cs"
    using index_finish_stored [OF row, of demo_rnd xs] xs by auto
  have "shelf_step demo_unicode (demo_shelf, []) (?s, [])" by (rule File_Uploaded [OF up]) simp
  moreover have "shelf_step demo_unicode (?s, []) (?s, [(''rec_'', ?q)])" by (rule Index_Begun [OF begun])
  moreover have "shelf_step demo_unicode (?s, [(''rec_'', ?q)]) (s', [])" using Index_Finished [OF _ fin(1), of "[(''rec_'', ?q)]"] by simp
  ultimately have run: "(shelf_step demo_unicode)\<^sup>*\<^sup>* (demo_shelf, []) (s', [])"
    by (meson converse_rtranclp_into_rtranclp rtranclp.rtrancl_refl)
  have "chunks_ok demo_unicode demo_shelf" by (simp add: chunks_ok_def demo_shelf_def demo_def empty_db_def)
  then have "chunks_ok demo_unicode s'" by (rule chunks_follow_the_records [OF run])
  moreover have "sh_chunks s' \<noteq> []" using fin(2) ne by (auto simp: chunks_for_def)
  ultimately show ?thesis using run by blast
qed

end
