(* ===== verification/Meeting_Desk.thy ===== *)
theory Meeting_Desk
  imports Task_Desk Agent_Jobs "HOL-Library.List_Lexorder" "HOL-Library.Char_ord"
begin

text \<open>
  Meetings and their transcripts: \<open>app/services/meeting_service.py\<close> without the development fixtures of the
  HTTP audio path, and the routes of \<open>routers/meetings.py\<close> that call it. One definition is one transaction;
  the SHA-256, the key under which an audio file is stored and whether a recorder is connected are arguments.
  The broadcasts to connected sockets change no table and are left out.
\<close>

section \<open>Rows\<close>

definition find_meeting :: "desk \<Rightarrow> ident \<Rightarrow> meeting_row option" where
  "find_meeting k i = get_row mtg_id (meetings k) i"

definition put_meeting :: "meeting_row \<Rightarrow> desk \<Rightarrow> desk" where
  "put_meeting r k = k\<lparr>meetings := put_row mtg_id r (meetings k)\<rparr>"

interpretation meeting_table: row_store mtg_id find_meeting put_meeting
  by unfold_locales (auto simp: find_meeting_def put_meeting_def get_row_key get_put_row)

definition draw_desk :: "desk \<Rightarrow> desk" where
  "draw_desk k = k\<lparr>base := drawn (base k)\<rparr>"

section \<open>Meetings\<close>

text \<open>
  \<open>create_meeting\<close>. The request class bounds neither the title nor the language, so the columns refuse
  what is too long; the event must exist, of whichever club.
\<close>

definition create_meeting ::
  "rnd \<Rightarrow> instant \<Rightarrow> ident \<Rightarrow> ident option \<Rightarrow> pystr option \<Rightarrow> pystr \<Rightarrow> bool \<Rightarrow> ident \<Rightarrow> desk \<Rightarrow> api_error + (meeting_row \<times> desk)" where
  "create_meeting g now club eid title language consent by' k =
     (let m = \<lparr>mtg_id = new_id g (base k) ''mtg'', mtg_club_id = club, mtg_event_id = eid, mtg_title = title,
               mtg_language = language, mtg_status = Meeting_RECORDING, mtg_started_at = Some now, mtg_ended_at = None,
               mtg_consent_by = (if consent then Some by' else None),
               mtg_consent_at = (if consent then Some now else None), mtg_created_by = by', mtg_version = 1,
               mtg_transcript_cursor = 0, mtg_created_at = now\<rparr>
      in if (case title of None \<Rightarrow> False | Some t \<Rightarrow> length t > 200) \<or> length language > 10
         then Inl (Unhandled ''DataError'')
         else if (case eid of None \<Rightarrow> False | Some e \<Rightarrow> find_event (base k) e = None)
         then Inl (Unhandled ''IntegrityError'')
         else and_then (insert_row mtg_id m (meetings k)) (\<lambda>ms. Inr (m, draw_desk (k\<lparr>meetings := ms\<rparr>))))"

definition get_meeting :: "ident \<Rightarrow> ident \<Rightarrow> desk \<Rightarrow> api_error + meeting_row" where
  "get_meeting club i k =
     (case find_meeting k i of
        None \<Rightarrow> Inl MeetingNotFound
      | Some m \<Rightarrow> if mtg_club_id m \<noteq> club then Inl MeetingNotFound else Inr m)"

definition list_meetings :: "ident \<Rightarrow> meeting_status option \<Rightarrow> int \<Rightarrow> int \<Rightarrow> desk \<Rightarrow> meeting_row list \<times> nat" where
  "list_meetings club st page n k =
     (let rows = filter (\<lambda>m. mtg_club_id m = club \<and> (case st of None \<Rightarrow> True | Some x \<Rightarrow> mtg_status m = x)) (meetings k)
      in (paginate page n (rev (sort_key mtg_created_at (sort_key mtg_id rows))), length rows))"

definition finish_meeting :: "instant \<Rightarrow> bool \<Rightarrow> ident \<Rightarrow> ident \<Rightarrow> desk \<Rightarrow> api_error + (meeting_row \<times> desk)" where
  "finish_meeting now recording club i k =
     and_then (get_meeting club i k) (\<lambda>m.
       if mtg_status m \<noteq> Meeting_RECORDING then Inl MeetingNotRecording
       else if recording then Inl AudioStreamActive
       else let m' = m\<lparr>mtg_status := Meeting_COMPLETED, mtg_ended_at := Some now\<rparr> in Inr (m', put_meeting m' k))"

definition set_stream_status :: "instant \<Rightarrow> ident \<Rightarrow> meeting_status \<Rightarrow> desk \<Rightarrow> api_error + desk" where
  "set_stream_status now i st k =
     (case find_meeting k i of
        None \<Rightarrow> Inl MeetingNotFound
      | Some m \<Rightarrow>
          Inr (put_meeting
                 (m\<lparr>mtg_status := st,
                    mtg_ended_at := (if st = Meeting_COMPLETED \<or> st = Meeting_FAILED then Some now else mtg_ended_at m)\<rparr>) k))"

section \<open>Transcripts\<close>

definition find_seq :: "desk \<Rightarrow> ident \<Rightarrow> int \<Rightarrow> transcript_segment option" where
  "find_seq k i seq = find (\<lambda>g. tsg_meeting_id g = i \<and> tsg_seq g = seq) (segments k)"

text \<open>\<open>(max(seq) or 0) + 1\<close>\<close>

definition next_number :: "int list \<Rightarrow> int" where
  "next_number ns = (if ns = [] then 0 else Max (set ns)) + 1"

definition next_segment :: "ident \<Rightarrow> desk \<Rightarrow> int" where
  "next_segment i k = next_number (map tsg_seq (filter (\<lambda>g. tsg_meeting_id g = i) (segments k)))"

definition next_chunk :: "ident \<Rightarrow> desk \<Rightarrow> int" where
  "next_chunk i k = next_number (map auc_seq (filter (\<lambda>c. auc_meeting_id c = i) (audio_chunks k)))"

text \<open>\<open>mark_segment_decisions_stale\<close> of \<open>context_service.py\<close>\<close>

definition from_source :: "ident \<Rightarrow> context_decision \<Rightarrow> bool" where
  "from_source sid c \<longleftrightarrow> list_ex (\<lambda>src. source_id src = Some (lit sid)) (cdc_sources c)"

definition mark_segment_decisions_stale :: "ident \<Rightarrow> ident \<Rightarrow> desk \<Rightarrow> desk" where
  "mark_segment_decisions_stale i sid k =
     k\<lparr>decisions := map (\<lambda>c. if cdc_meeting_id c = Some i \<and> cdc_status c \<in> {Decision_SUCCEEDED, Decision_PARTIAL} \<and> from_source sid c
                             then c\<lparr>cdc_status := Decision_STALE\<rparr> else c) (decisions k)\<rparr>"

text \<open>
  \<open>_save_segment\<close> up to the decision. The meeting is the row the request has read: only its cursor is
  written back. A new segment has version 1; a correction needs the current version.
\<close>

record segment_input =
  si_text :: pystr
  si_is_final :: bool
  si_expected_version :: "int option"
  si_speaker_label :: "pystr option"
  si_start_ms :: "int option"
  si_end_ms :: "int option"
  si_audio_chunk_id :: "ident option"

definition set_cursor :: "ident \<Rightarrow> int \<Rightarrow> desk \<Rightarrow> desk" where
  "set_cursor i c k = k\<lparr>meetings := map (\<lambda>m. if mtg_id m = i then m\<lparr>mtg_transcript_cursor := c\<rparr> else m) (meetings k)\<rparr>"

definition new_segment :: "rnd \<Rightarrow> meeting_row \<Rightarrow> int \<Rightarrow> segment_input \<Rightarrow> desk \<Rightarrow> transcript_segment" where
  "new_segment g m seq x k =
     \<lparr>tsg_id = new_id g (base k) ''tsg'', tsg_meeting_id = mtg_id m, tsg_seq = seq, tsg_text = si_text x,
      tsg_is_final = si_is_final x, tsg_version = 1, tsg_speaker_label = si_speaker_label x,
      tsg_start_ms = si_start_ms x, tsg_end_ms = si_end_ms x, tsg_change_seq = mtg_transcript_cursor m + 1,
      tsg_audio_chunk_id = si_audio_chunk_id x, tsg_decision_job_id = None\<rparr>"

definition corrected_segment :: "meeting_row \<Rightarrow> segment_input \<Rightarrow> transcript_segment \<Rightarrow> transcript_segment" where
  "corrected_segment m x s =
     s\<lparr>tsg_text := si_text x, tsg_is_final := si_is_final x, tsg_speaker_label := si_speaker_label x,
       tsg_start_ms := si_start_ms x, tsg_end_ms := si_end_ms x, tsg_version := tsg_version s + 1,
       tsg_change_seq := mtg_transcript_cursor m + 1, tsg_decision_job_id := None\<rparr>"

definition save_segment ::
  "rnd \<Rightarrow> meeting_row \<Rightarrow> int \<Rightarrow> segment_input \<Rightarrow> desk \<Rightarrow> api_error + (transcript_segment \<times> desk)" where
  "save_segment g m seq x k =
     (let moved = set_cursor (mtg_id m) (mtg_transcript_cursor m + 1) k in
      case find_seq k (mtg_id m) seq of
        None \<Rightarrow>
          let s = new_segment g m seq x k in
          and_then (insert_row tsg_id s (segments k)) (\<lambda>rows. Inr (s, draw_desk (moved\<lparr>segments := rows\<rparr>)))
      | Some s \<Rightarrow>
          if si_expected_version x \<noteq> Some (tsg_version s) then Inl VersionConflict
          else let s' = corrected_segment m x s in
               Inr (s', mark_segment_decisions_stale (mtg_id m) (tsg_id s)
                          (moved\<lparr>segments := put_row tsg_id s' (segments k)\<rparr>)))"

text \<open>\<open>list_transcripts\<close> with the cursor that its route returns beside the list.\<close>

definition list_transcripts :: "ident \<Rightarrow> int \<Rightarrow> desk \<Rightarrow> transcript_segment list" where
  "list_transcripts i after k =
     sort_key tsg_change_seq (filter (\<lambda>g. tsg_meeting_id g = i \<and> tsg_change_seq g > after) (segments k))"

section \<open>Recorded utterances\<close>

text \<open>
  \<open>begin_stream_utterance\<close>: the file is stored and an STT job started before the provider is asked.
\<close>

definition begin_stream_utterance ::
  "rnd \<Rightarrow> (int list \<Rightarrow> string) \<Rightarrow> instant \<Rightarrow> pystr \<Rightarrow> ident \<Rightarrow> int list \<Rightarrow> int \<Rightarrow> int \<Rightarrow> desk \<Rightarrow> api_error + (ident \<times> ident \<times> desk)" where
  "begin_stream_utterance g sha now key i wav start_ms end_ms k =
     (case find_meeting k i of
        None \<Rightarrow> Inl MeetingNotFound
      | Some m \<Rightarrow>
          if mtg_status m \<notin> {Meeting_RECORDING, Meeting_FINALIZING} then Inl MeetingNotRecording
          else and_then (create_job g (mtg_club_id m) Job_MEETING_STT None (base k)) (\<lambda>(j, d).
            let d' = start now (Some Stage_TRANSCRIBING) j d;
                c = \<lparr>auc_id = new_id g d' ''auc'', auc_meeting_id = i, auc_seq = next_chunk i k, auc_start_ms = start_ms,
                     auc_end_ms = end_ms, auc_storage_key = Some key, auc_sha256 = sha wav,
                     auc_mime_type = Some (lit ''audio/wav''), auc_size = length wav, auc_job_id = jb_id j\<rparr>
            in if length key > 512 then Inl (Unhandled ''DataError'')
               else and_then (insert_row auc_id c (audio_chunks k)) (\<lambda>cs.
                 Inr (auc_id c, jb_id j, draw_desk (k\<lparr>base := d', audio_chunks := cs\<rparr>)))))"

definition fail_stream_stt :: "instant \<Rightarrow> ident \<Rightarrow> dict \<Rightarrow> desk \<Rightarrow> api_error + desk" where
  "fail_stream_stt now jid error k =
     and_then (get_job jid (base k)) (\<lambda>j. Inr (k\<lparr>base := fail now error j (base k)\<rparr>))"

text \<open>\<open>save_stream_transcript\<close>: an empty text is a gap, never a row. The meeting is read under a lock.\<close>

definition utterance_input :: "pystr \<Rightarrow> int \<Rightarrow> int \<Rightarrow> ident \<Rightarrow> segment_input" where
  "utterance_input clean start_ms end_ms chunk =
     \<lparr>si_text = clean, si_is_final = True, si_expected_version = None, si_speaker_label = None,
      si_start_ms = Some start_ms, si_end_ms = Some end_ms, si_audio_chunk_id = Some chunk\<rparr>"

definition save_stream_transcript ::
  "rnd \<Rightarrow> instant \<Rightarrow> ident \<Rightarrow> ident \<Rightarrow> ident \<Rightarrow> pystr \<Rightarrow> int \<Rightarrow> int \<Rightarrow> desk \<Rightarrow> api_error + (ident option \<times> desk)" where
  "save_stream_transcript g now i chunk jid text start_ms end_ms k =
     (case find_meeting k i of
        None \<Rightarrow> Inl MeetingNotFound
      | Some m \<Rightarrow>
          and_then (get_job jid (base k)) (\<lambda>j.
            let clean = py_strip text in
            if clean = []
            then Inr (None, k\<lparr>base := succeed now [(''audioChunkId'', JStr (lit chunk)), (''segmentIds'', JList []),
                                                   (''emptyTranscript'', JBool True)] j (base k)\<rparr>)
            else and_then (save_segment g m (next_segment i k) (utterance_input clean start_ms end_ms chunk) k) (\<lambda>(s, k').
                   Inr (Some (tsg_id s),
                        k'\<lparr>base := succeed now [(''audioChunkId'', JStr (lit chunk)), (''segmentIds'', JList [JStr (lit (tsg_id s))]),
                                                (''emptyTranscript'', JBool False)] j (base k')\<rparr>))))"

section \<open>Routes\<close>

definition meeting_for_account :: "ident \<Rightarrow> ident \<Rightarrow> desk \<Rightarrow> api_error + meeting_row" where
  "meeting_for_account i account k =
     (case find_meeting k i of
        None \<Rightarrow> Inl MeetingNotFound
      | Some m \<Rightarrow> and_then (ensure_member (mtg_club_id m) account None (base k)) (\<lambda>_. Inr m))"

definition create_meeting_endpoint ::
  "rnd \<Rightarrow> instant \<Rightarrow> ident \<Rightarrow> ident \<Rightarrow> ident option \<Rightarrow> pystr option \<Rightarrow> pystr \<Rightarrow> bool \<Rightarrow> desk \<Rightarrow> api_error + (meeting_row \<times> desk)" where
  "create_meeting_endpoint g now account club eid title language consent k =
     and_then (require_member club account (base k)) (\<lambda>mb. create_meeting g now club eid title language consent (mb_id mb) k)"

definition finish_meeting_endpoint :: "instant \<Rightarrow> bool \<Rightarrow> ident \<Rightarrow> ident \<Rightarrow> desk \<Rightarrow> api_error + (meeting_row \<times> desk)" where
  "finish_meeting_endpoint now recording account i k =
     and_then (meeting_for_account i account k) (\<lambda>m. finish_meeting now recording (mtg_club_id m) i k)"

definition list_transcripts_endpoint :: "ident \<Rightarrow> ident \<Rightarrow> int \<Rightarrow> desk \<Rightarrow> api_error + (int \<times> transcript_segment list)" where
  "list_transcripts_endpoint account i after k =
     and_then (meeting_for_account i account k) (\<lambda>m. Inr (mtg_transcript_cursor m, list_transcripts i after k))"

text \<open>
  The start of a recording by the socket: whether it may begin, and its offset in the meeting.
  \<open>to_ms\<close> is \<open>int(delta.total_seconds() * 1000)\<close>, computed in floating point.
\<close>

datatype audio_refusal = MEETING_NOT_RECORDING | RECORDING_CONSENT_REQUIRED | AUDIO_RESUME_UNSUPPORTED

definition start_recording :: "(instant \<Rightarrow> int) \<Rightarrow> instant \<Rightarrow> ident \<Rightarrow> desk \<Rightarrow> audio_refusal + int" where
  "start_recording to_ms received i k =
     (case find_meeting k i of
        None \<Rightarrow> Inl MEETING_NOT_RECORDING
      | Some m \<Rightarrow>
          if mtg_status m \<noteq> Meeting_RECORDING then Inl MEETING_NOT_RECORDING
          else if mtg_consent_at m = None then Inl RECORDING_CONSENT_REQUIRED
          else if list_ex (\<lambda>c. auc_meeting_id c = i) (audio_chunks k) then Inl AUDIO_RESUME_UNSUPPORTED
          else Inr (case mtg_started_at m of None \<Rightarrow> 0 | Some t \<Rightarrow> max 0 (to_ms (received - t))))"

end
