(* ===== verification/Live_Judgment.thy ===== *)
theory Live_Judgment
  imports Meeting_Desk
begin

text \<open>
  The judgement of a live utterance, \<open>judge_live_meeting_segment\<close> and \<open>finish_live_meeting_extraction\<close> of
  \<open>app/services/context_service.py\<close> with \<open>process_saved_segment\<close> of \<open>meeting_service.py\<close>. The call has three
  transactions: the job is opened, the decision is stored once the lookup and the event question are answered,
  and the job is closed once the extraction of tasks is done. What the models answered is an argument; the text
  of a datetime in JSON is a parameter.
\<close>

section \<open>What the features return\<close>

record judge_trace =
  jt_model :: pystr
  jt_prompt_version :: pystr
  jt_tool_calls :: "dict list"
  jt_judge_ms :: int

record judge_answer =
  ja_route :: judge_route
  ja_kind :: judge_kind
  ja_question :: "pystr option"
  ja_answer :: "pystr option"
  ja_sources :: "dict list"
  ja_trace :: judge_trace

text \<open>A failed feature has the code or the class name of its exception, and perhaps a trace.\<close>

record feature_error =
  fe_code :: pystr
  fe_trace :: "judge_trace option"

record event_reply =
  er_answer :: pystr
  er_citations :: "dict list"

record candidate_draft =
  cd_kind :: item_kind
  cd_title :: pystr
  cd_description :: "pystr option"
  cd_suggested_assignee :: "pystr option"
  cd_due_date :: "date option"
  cd_due_at :: "instant option"
  cd_scheduled_at :: "instant option"
  cd_unresolved_fields :: "pystr list"

definition failure_item :: "string \<Rightarrow> feature_error \<Rightarrow> dict" where
  "failure_item tool e = [(''tool'', JStr (lit tool)), (''status'', JStr (lit ''FAILED'')), (''code'', JStr (fe_code e))]"

definition PARTIAL_REASON :: pystr where
  "PARTIAL_REASON = [51068, 48512, 32, 65, 73, 32, 52376, 47532, 47484, 32, 50756, 47308, 54616, 51648, 32, 47803, 54664,
     49845, 45768, 45796, 46, 32, 44592, 45733, 48324, 32, 50724, 47448, 47484, 32, 54869, 51064, 54644, 32, 51452, 49464, 50836, 46]"

section \<open>Opening the job\<close>

record live_call =
  lv_job_id :: ident
  lv_club_id :: ident
  lv_meeting_id :: ident
  lv_segment_id :: ident
  lv_source_version :: int
  lv_payload :: dict

text \<open>\<open>x or y\<close> on integers that may be missing: 0 counts as missing.\<close>

definition or_int :: "int option \<Rightarrow> int \<Rightarrow> int" where
  "or_int a b = (case a of None \<Rightarrow> b | Some n \<Rightarrow> if n = 0 then b else n)"

definition utterance_json :: "(instant \<Rightarrow> pystr) \<Rightarrow> instant \<Rightarrow> transcript_segment \<Rightarrow> dict" where
  "utterance_json iso_text started s =
     [(''utterance_id'', JStr (lit (tsg_id s))), (''seq'', JInt (tsg_seq s)), (''version'', JInt (tsg_version s)),
      (''text'', JStr (tsg_text s)),
      (''started_at'', JStr (iso_text (started + 1000 * or_int (tsg_start_ms s) 0))),
      (''ended_at'', JStr (iso_text (started + 1000 * or_int (tsg_end_ms s) (or_int (tsg_start_ms s) 0))))]"

text \<open>The four final utterances before this one, the oldest first.\<close>

definition earlier_segments :: "ident \<Rightarrow> int \<Rightarrow> desk \<Rightarrow> transcript_segment list" where
  "earlier_segments i seq k =
     rev (take 4 (rev (sort_key tsg_seq
       (filter (\<lambda>s. tsg_meeting_id s = i \<and> tsg_seq s < seq \<and> tsg_is_final s \<and> tsg_text s \<noteq> []) (segments k)))))"

definition source_json :: "ident \<Rightarrow> int \<Rightarrow> dict" where
  "source_json sid v = [(''sourceId'', JStr (lit sid)), (''sourceVersion'', JInt v)]"

definition find_segment :: "desk \<Rightarrow> ident \<Rightarrow> transcript_segment option" where
  "find_segment k i = get_row tsg_id (segments k) i"

definition put_segment :: "transcript_segment \<Rightarrow> desk \<Rightarrow> desk" where
  "put_segment s k = k\<lparr>segments := put_row tsg_id s (segments k)\<rparr>"

interpretation segment_table: row_store tsg_id find_segment put_segment
  by unfold_locales (auto simp: find_segment_def put_segment_def get_row_key get_put_row)

definition find_decision :: "desk \<Rightarrow> ident \<Rightarrow> context_decision option" where
  "find_decision k i = get_row cdc_id (decisions k) i"

definition put_decision :: "context_decision \<Rightarrow> desk \<Rightarrow> desk" where
  "put_decision c k = k\<lparr>decisions := put_row cdc_id c (decisions k)\<rparr>"

interpretation decision_table: row_store cdc_id find_decision put_decision
  by unfold_locales (auto simp: find_decision_def put_decision_def get_row_key get_put_row)

definition judge_begin ::
  "rnd \<Rightarrow> instant \<Rightarrow> (instant \<Rightarrow> pystr) \<Rightarrow> ident \<Rightarrow> ident \<Rightarrow> desk \<Rightarrow> api_error + (live_call \<times> desk)" where
  "judge_begin g now iso_text i sid k =
     (case (find_meeting k i, find_segment k sid) of
        (Some m, Some s) \<Rightarrow>
          and_then (create_job g (mtg_club_id m) Job_CONTEXT_DECISION None (base k)) (\<lambda>(j, d).
            case mtg_started_at m of
              None \<Rightarrow> Inl (Unhandled ''TypeError'')
            | Some started \<Rightarrow>
                let payload = [(''meeting_id'', JStr (lit (mtg_id m))), (''club_id'', JStr (lit (mtg_club_id m))),
                               (''utterance'', JObj (utterance_json iso_text started s)),
                               (''context'', JList (map (JObj \<circ> utterance_json iso_text started) (earlier_segments (mtg_id m) (tsg_seq s) k)))]
                in Inr (\<lparr>lv_job_id = jb_id j, lv_club_id = mtg_club_id m, lv_meeting_id = mtg_id m, lv_segment_id = sid,
                         lv_source_version = tsg_version s, lv_payload = payload\<rparr>,
                        put_segment (s\<lparr>tsg_decision_job_id := Some (jb_id j)\<rparr>)
                          (k\<lparr>base := start now (Some Stage_DECIDING) j d\<rparr>)))
      | _ \<Rightarrow> Inl MeetingNotFound)"

section \<open>Storing the decision\<close>

type_synonym lookup_outcome = "feature_error + judge_answer"
type_synonym event_outcome = "feature_error + (event_reply option \<times> judge_trace)"

definition lookup_trace :: "lookup_outcome \<Rightarrow> judge_trace option" where
  "lookup_trace lo = (case lo of Inl e \<Rightarrow> fe_trace e | Inr a \<Rightarrow> Some (ja_trace a))"

definition event_tools :: "event_outcome \<Rightarrow> dict list" where
  "event_tools ev =
     (case (case ev of Inl e \<Rightarrow> fe_trace e | Inr (_, t) \<Rightarrow> Some t) of
        None \<Rightarrow> []
      | Some t \<Rightarrow> [[(''tool'', JStr (lit ''event.classify'')), (''status'', JStr (if isl ev then lit ''FAILED'' else lit ''OK'')),
                    (''durationMs'', JInt (jt_judge_ms t))]])
     @ (case ev of Inl e \<Rightarrow> [failure_item ''event.lookup'' e] | Inr _ \<Rightarrow> [])"

definition judge_tools :: "lookup_outcome \<Rightarrow> event_outcome \<Rightarrow> dict list" where
  "judge_tools lo ev =
     (case lo of Inl e \<Rightarrow> [failure_item ''meeting.lookup'' e] | Inr _ \<Rightarrow> [])
     @ (case lookup_trace lo of None \<Rightarrow> [] | Some t \<Rightarrow> jt_tool_calls t) @ event_tools ev"

definition first_status :: "bool \<Rightarrow> lookup_outcome \<Rightarrow> context_decision_status" where
  "first_status stale lo = (if stale then Decision_STALE else if isl lo then Decision_FAILED else Decision_SUCCEEDED)"

text \<open>\<open>'\n'.join(filter(None, (a, b)))\<close>\<close>

definition join_texts :: "pystr option \<Rightarrow> pystr \<Rightarrow> pystr" where
  "join_texts a b = (case a of None \<Rightarrow> b | Some x \<Rightarrow> if x = [] then b else if b = [] then x else x @ [10] @ b)"

definition judge_decision ::
  "rnd \<Rightarrow> instant \<Rightarrow> live_call \<Rightarrow> lookup_outcome \<Rightarrow> event_outcome \<Rightarrow> bool \<Rightarrow> desk \<Rightarrow> context_decision" where
  "judge_decision g now lc lo ev stale k =
     \<lparr>cdc_id = new_id g (base k) ''cdc'', cdc_club_id = lv_club_id lc, cdc_job_id = lv_job_id lc,
      cdc_source_type = MEETING_TRANSCRIPT, cdc_meeting_id = Some (lv_meeting_id lc), cdc_discord_connection_id = None,
      cdc_sources = [source_json (lv_segment_id lc) (lv_source_version lc)], cdc_status = first_status stale lo,
      cdc_route = (case lo of Inl _ \<Rightarrow> Route_ERROR | Inr a \<Rightarrow> ja_route a),
      cdc_kind = (case lo of Inl _ \<Rightarrow> Kind_FAILED | Inr a \<Rightarrow> ja_kind a),
      cdc_reason_summary = (case lo of Inl _ \<Rightarrow> Some PARTIAL_REASON | Inr _ \<Rightarrow> None),
      cdc_question = (case lo of Inl _ \<Rightarrow> None | Inr a \<Rightarrow> ja_question a),
      cdc_output = (case lo of Inl _ \<Rightarrow> None | Inr a \<Rightarrow> ja_answer a),
      cdc_citations = (case lo of Inl _ \<Rightarrow> None | Inr a \<Rightarrow> Some (ja_sources a)),
      cdc_tool_calls = judge_tools lo ev,
      cdc_model_version = (case lo of Inl _ \<Rightarrow> lit ''unavailable'' | Inr a \<Rightarrow> jt_model (ja_trace a)),
      cdc_policy_version = (case lo of Inl _ \<Rightarrow> lit ''unavailable'' | Inr a \<Rightarrow> jt_prompt_version (ja_trace a)),
      cdc_judge_input = Some (lv_payload lc), cdc_judge_ms = map_option jt_judge_ms (lookup_trace lo), cdc_created_at = now\<rparr>"

text \<open>The answer to a question about an event is joined to a decision that is not outdated.\<close>

definition with_event :: "lookup_outcome \<Rightarrow> event_outcome \<Rightarrow> pystr \<Rightarrow> context_decision \<Rightarrow> context_decision" where
  "with_event lo ev text c =
     (if cdc_status c = Decision_STALE then c
      else case ev of
        Inl _ \<Rightarrow> c\<lparr>cdc_status := (if isl lo then Decision_FAILED else Decision_PARTIAL), cdc_reason_summary := Some PARTIAL_REASON\<rparr>
      | Inr (None, _) \<Rightarrow> c
      | Inr (Some r, _) \<Rightarrow>
          c\<lparr>cdc_output := Some (join_texts (cdc_output c) (er_answer r)),
            cdc_question := (case cdc_question c of Some (q # qs) \<Rightarrow> Some (q # qs) | _ \<Rightarrow> Some text),
            cdc_route := Route_LLM, cdc_kind := Kind_ANSWER,
            cdc_citations := Some ((case cdc_citations c of None \<Rightarrow> [] | Some xs \<Rightarrow> xs) @ er_citations r),
            cdc_status := (if isl lo then Decision_PARTIAL else cdc_status c)\<rparr>)"

record live_judgment =
  lj_job_id :: ident
  lj_decision_id :: ident
  lj_lookup_failure :: "dict option"
  lj_event_failure :: "dict option"
  lj_segment_id :: ident
  lj_source_version :: int

definition judge_finish ::
  "rnd \<Rightarrow> instant \<Rightarrow> live_call \<Rightarrow> lookup_outcome \<Rightarrow> event_outcome \<Rightarrow> desk \<Rightarrow> api_error + (live_judgment \<times> desk)" where
  "judge_finish g now lc lo ev k =
     (case find_segment k (lv_segment_id lc) of
        None \<Rightarrow> Inl (Unhandled ''AttributeError'')
      | Some s \<Rightarrow>
          let stale = (tsg_version s \<noteq> lv_source_version lc);
              c = with_event lo ev (tsg_text s) (judge_decision g now lc lo ev stale k)
          in and_then (insert_row cdc_id c (decisions k)) (\<lambda>rows.
               Inr (\<lparr>lj_job_id = lv_job_id lc, lj_decision_id = cdc_id c,
                     lj_lookup_failure = (case lo of Inl e \<Rightarrow> Some (failure_item ''meeting.lookup'' e) | Inr _ \<Rightarrow> None),
                     lj_event_failure = (case ev of Inl e \<Rightarrow> Some (failure_item ''event.lookup'' e) | Inr _ \<Rightarrow> None),
                     lj_segment_id = lv_segment_id lc, lj_source_version = lv_source_version lc\<rparr>,
                    let k' = draw_desk (k\<lparr>decisions := rows\<rparr>) in
                    if stale then k' else put_segment (s\<lparr>tsg_decision_job_id := Some (lv_job_id lc)\<rparr>) k')))"

section \<open>Closing the job\<close>

type_synonym extraction_outcome = "feature_error + candidate_draft list"

definition extraction_call :: "int option \<Rightarrow> extraction_outcome \<Rightarrow> dict" where
  "extraction_call ms ex =
     (case ex of
        Inl e \<Rightarrow> failure_item ''tasks.extract'' e
      | Inr ds \<Rightarrow> [(''tool'', JStr (lit ''tasks.extract'')), (''status'', JStr (lit ''OK'')), (''resultCount'', JInt (int (length ds)))])
     @ (case ms of None \<Rightarrow> [] | Some n \<Rightarrow> [(''durationMs'', JInt n)])"

definition judgment_failures :: "int option \<Rightarrow> live_judgment \<Rightarrow> extraction_outcome \<Rightarrow> dict list" where
  "judgment_failures ms lj ex =
     (case lj_lookup_failure lj of None \<Rightarrow> [] | Some f \<Rightarrow> [f]) @ (case lj_event_failure lj of None \<Rightarrow> [] | Some f \<Rightarrow> [f])
     @ (if isl ex then [extraction_call ms ex] else [])"

definition final_decision :: "int option \<Rightarrow> live_judgment \<Rightarrow> extraction_outcome \<Rightarrow> bool \<Rightarrow> context_decision \<Rightarrow> context_decision" where
  "final_decision ms lj ex stale c =
     (let c' = c\<lparr>cdc_tool_calls := cdc_tool_calls c @ [extraction_call ms ex]\<rparr> in
      if stale then c'\<lparr>cdc_status := Decision_STALE\<rparr>
      else if judgment_failures ms lj ex \<noteq> []
      then c'\<lparr>cdc_status := (if lj_lookup_failure lj = None \<or> \<not> isl ex then Decision_PARTIAL else Decision_FAILED),
              cdc_reason_summary := Some PARTIAL_REASON\<rparr>
      else c')"

definition extracted_suggestion :: "rnd \<Rightarrow> instant \<Rightarrow> ident \<Rightarrow> ident \<Rightarrow> dict \<Rightarrow> candidate_draft \<Rightarrow> desk \<Rightarrow> task_suggestion" where
  "extracted_suggestion g now club did source x k =
     \<lparr>tsk_id = new_id g (base k) ''tsk'', tsk_club_id = club, tsk_decision_id = did, tsk_source_type = MEETING_TRANSCRIPT,
      tsk_title = cd_title x, tsk_description = cd_description x, tsk_suggested_assignee = cd_suggested_assignee x,
      tsk_suggested_assignee_member_id = None, tsk_due_date = cd_due_date x, tsk_kind = Some (cd_kind x),
      tsk_due_at = cd_due_at x, tsk_scheduled_at = cd_scheduled_at x, tsk_unresolved_fields = cd_unresolved_fields x,
      tsk_evidence = [source], tsk_status = Suggestion_PROPOSED, tsk_version = 1, tsk_accepted_by = None,
      tsk_accepted_at = None, tsk_created_at = now\<rparr>"

definition insert_suggestion :: "task_suggestion \<Rightarrow> desk \<Rightarrow> api_error + desk" where
  "insert_suggestion t k = and_then (insert_row tsk_id t (suggestions k)) (\<lambda>rows. Inr (draw_desk (k\<lparr>suggestions := rows\<rparr>)))"

fun insert_extracted ::
  "rnd \<Rightarrow> instant \<Rightarrow> ident \<Rightarrow> ident \<Rightarrow> dict \<Rightarrow> candidate_draft list \<Rightarrow> desk \<Rightarrow> api_error + (ident list \<times> desk)" where
  "insert_extracted g now club did source [] k = Inr ([], k)"
| "insert_extracted g now club did source (x # xs) k =
     (let t = extracted_suggestion g now club did source x k in
      and_then (insert_suggestion t k) (\<lambda>k'.
        and_then (insert_extracted g now club did source xs k') (\<lambda>(is', k''). Inr (tsk_id t # is', k''))))"

definition extraction_finish ::
  "rnd \<Rightarrow> instant \<Rightarrow> int option \<Rightarrow> live_judgment \<Rightarrow> extraction_outcome \<Rightarrow> desk \<Rightarrow> api_error + desk" where
  "extraction_finish g now ms lj ex k =
     (case (find_segment k (lj_segment_id lj), find_decision k (lj_decision_id lj), find_agent_job (base k) (lj_job_id lj)) of
        (Some s, Some c, Some j) \<Rightarrow>
          let stale = (tsg_version s \<noteq> lj_source_version lj);
              c' = final_decision ms lj ex stale c;
              drafts = (case ex of Inl _ \<Rightarrow> [] | Inr ds \<Rightarrow> if stale \<or> cdc_status c' = Decision_STALE then [] else ds)
          in and_then (insert_extracted g now (jb_club_id j) (cdc_id c) (source_json (lj_segment_id lj) (lj_source_version lj)) drafts
                         (put_decision c' k)) (\<lambda>(is', k').
               let result = [(''contextDecisionId'', JStr (lit (cdc_id c))), (''taskSuggestionIds'', JList (map (JStr \<circ> lit) is'))];
                   fs = judgment_failures ms lj ex
               in Inr (k'\<lparr>base :=
                    (if fs \<noteq> []
                     then fail now [(''code'', JStr (lit ''MEETING_AI_FAILED'')), (''features'', JList (map JObj fs))]
                            (j\<lparr>jb_result := Some result\<rparr>) (base k')
                     else succeed now result j (base k'))\<rparr>))
      | _ \<Rightarrow> Inl (Unhandled ''AttributeError''))"

end
