(* ===== verification/Meeting_Review.thy ===== *)
theory Meeting_Review
  imports Live_Judgment
begin

text \<open>
  The review after a meeting, \<open>app/services/meeting_review_service.py\<close> with its routes in
  \<open>routers/meetings.py\<close>: the audio is sent to a diarization provider, people name the speakers, a draft of
  the minutes is generated and tasks are taken over. One definition is one transaction; a call of the provider
  or of the model stands between the \<open>_begin\<close> and the \<open>_finish\<close> of an operation, and its outcome is an
  argument. The SHA-256 of a list of candidates is a parameter.
\<close>

section \<open>Rows\<close>

definition find_review :: "desk \<Rightarrow> ident \<Rightarrow> meeting_review option" where
  "find_review k i = get_row mrv_id (meeting_reviews k) i"

definition put_review :: "meeting_review \<Rightarrow> desk \<Rightarrow> desk" where
  "put_review r k = k\<lparr>meeting_reviews := put_row mrv_id r (meeting_reviews k)\<rparr>"

interpretation review_table: row_store mrv_id find_review put_review
  by unfold_locales (auto simp: find_review_def put_review_def get_row_key get_put_row)

text \<open>\<open>get\<close>: by the meeting or by its own identifier\<close>

definition get_review :: "ident \<Rightarrow> desk \<Rightarrow> meeting_review option" where
  "get_review i k = find (\<lambda>r. mrv_meeting_id r = i \<or> mrv_id r = i) (meeting_reviews k)"

definition has_job :: "meeting_review \<Rightarrow> bool" where
  "has_job r \<longleftrightarrow> mrv_provider_job_id r \<noteq> None \<and> mrv_provider_job_id r \<noteq> Some []"

definition bumped :: "meeting_review \<Rightarrow> meeting_review" where
  "bumped r = r\<lparr>mrv_version := mrv_version r + 1\<rparr>"

section \<open>Starting\<close>

definition start_review :: "rnd \<Rightarrow> ident \<Rightarrow> ident \<Rightarrow> desk \<Rightarrow> api_error + (meeting_review \<times> desk)" where
  "start_review g i by' k =
     (case find_meeting k i of
        None \<Rightarrow> Inl (Unhandled ''AttributeError'')
      | Some m \<Rightarrow>
          if mtg_status m \<noteq> Meeting_COMPLETED then Inl ReviewConflict
          else case find (\<lambda>r. mrv_meeting_id r = i) (meeting_reviews k) of
                 Some r \<Rightarrow> Inr (r, k)
               | None \<Rightarrow>
                   and_then (create_job g (mtg_club_id m) Job_MEETING_REVIEW (Some by') (base k)) (\<lambda>(j, d).
                     let r = \<lparr>mrv_id = new_id g d ''mrv'', mrv_meeting_id = i, mrv_job_id = jb_id j, mrv_status = RS_QUEUED,
                              mrv_version = 1, mrv_provider_job_id = None, mrv_duration_ms = None, mrv_turns = None,
                              mrv_speaker_names = None, mrv_speaker_mappings = None, mrv_draft = None, mrv_error_code = None,
                              mrv_candidate_request_id = None, mrv_candidate_hash = None, mrv_candidate_ids = None\<rparr>
                     in and_then (insert_row mrv_id r (meeting_reviews k)) (\<lambda>rows.
                          Inr (r, draw_desk (k\<lparr>base := d, meeting_reviews := rows\<rparr>)))))"

section \<open>Alignment\<close>

record aligned_row =
  al_segment_id :: ident
  al_seq :: int
  al_text :: pystr
  al_start_ms :: "int option"
  al_end_ms :: "int option"
  al_label :: "pystr option"

definition overlapping_labels :: "transcript_segment \<Rightarrow> speaker_turn list \<Rightarrow> pystr list" where
  "overlapping_labels s turns =
     (case (tsg_start_ms s, tsg_end_ms s) of
        (Some a, Some b) \<Rightarrow> remdups (map tn_label (filter (\<lambda>t. tn_start_ms t < b \<and> tn_end_ms t > a) turns))
      | _ \<Rightarrow> [])"

definition align_segments :: "transcript_segment list \<Rightarrow> speaker_turn list \<Rightarrow> aligned_row list" where
  "align_segments ss turns =
     map (\<lambda>s. \<lparr>al_segment_id = tsg_id s, al_seq = tsg_seq s, al_text = tsg_text s, al_start_ms = tsg_start_ms s,
               al_end_ms = tsg_end_ms s,
               al_label = (case overlapping_labels s turns of [l] \<Rightarrow> Some l | _ \<Rightarrow> None)\<rparr>) ss"

definition final_segments :: "ident \<Rightarrow> desk \<Rightarrow> transcript_segment list" where
  "final_segments i k = sort_key tsg_seq (filter (\<lambda>s. tsg_meeting_id s = i \<and> tsg_is_final s) (segments k))"

definition turns_of :: "meeting_review \<Rightarrow> speaker_turn list" where
  "turns_of r = (case mrv_turns r of None \<Rightarrow> [] | Some ts \<Rightarrow> ts)"

definition names_of :: "meeting_review \<Rightarrow> (pystr \<times> pystr) list" where
  "names_of r = (case mrv_speaker_names r of None \<Rightarrow> [] | Some ns \<Rightarrow> ns)"

definition mappings_of :: "meeting_review \<Rightarrow> (pystr \<times> speaker_mapping) list" where
  "mappings_of r = (case mrv_speaker_mappings r of None \<Rightarrow> [] | Some ms \<Rightarrow> ms)"

definition speaker_labels :: "meeting_review \<Rightarrow> pystr list" where
  "speaker_labels r = remdups (map tn_label (turns_of r))"

record speaker_view =
  spk_label :: pystr
  spk_name :: "pystr option"
  spk_member :: "(ident \<times> bool) option"

record review_view =
  rvw_review :: meeting_review
  rvw_speakers :: "speaker_view list"
  rvw_segments :: "aligned_row list"

definition review_output :: "meeting_review \<Rightarrow> desk \<Rightarrow> review_view" where
  "review_output r k =
     \<lparr>rvw_review = r,
      rvw_speakers = map (\<lambda>l. \<lparr>spk_label = l, spk_name = map_of (names_of r) l,
                               spk_member = (case map_of (mappings_of r) l of
                                               None \<Rightarrow> None
                                             | Some m \<Rightarrow> map_option (\<lambda>i. (i, spm_confirmed m)) (spm_member_id m))\<rparr>)
                         (sort (speaker_labels r)),
      rvw_segments = align_segments (final_segments (mrv_meeting_id r) k) (turns_of r)\<rparr>"

section \<open>Naming the speakers\<close>

definition given_member :: "(pystr \<times> ident option \<times> bool) list \<Rightarrow> pystr \<Rightarrow> ident option" where
  "given_member ms l = (case map_of ms l of None \<Rightarrow> None | Some (i, _) \<Rightarrow> i)"

definition given_confirmed :: "(pystr \<times> ident option \<times> bool) list \<Rightarrow> pystr \<Rightarrow> bool" where
  "given_confirmed ms l = (case map_of ms l of None \<Rightarrow> False | Some (_, c) \<Rightarrow> c)"

definition active_members :: "ident \<Rightarrow> ident list \<Rightarrow> desk \<Rightarrow> member list" where
  "active_members club is' k =
     filter (\<lambda>m. mb_id m \<in> set is' \<and> mb_club_id m = club \<and> mb_status m = Member_ACTIVE) (members (base k))"

definition named :: "ident option \<Rightarrow> bool" where
  "named i \<longleftrightarrow> i \<noteq> None \<and> i \<noteq> Some []"

text \<open>One speaker: the name of the member or the typed one, \<open>None\<close> when a confirmed speaker has no name.\<close>

definition map_speaker ::
  "member list \<Rightarrow> (pystr \<times> pystr) list \<Rightarrow> (pystr \<times> ident option \<times> bool) list \<Rightarrow> pystr \<Rightarrow> speaker_mapping option" where
  "map_speaker rows names ms l =
     (let i = given_member ms l;
          name = (if named i then map_option mb_name (find (\<lambda>m. Some (mb_id m) = i) rows) else map_of names l);
          clean = (case name of None \<Rightarrow> [] | Some n \<Rightarrow> py_strip n)
      in if clean = []
         then (if named i \<or> given_confirmed ms l then None
               else Some \<lparr>spm_member_id = None, spm_name = None, spm_confirmed = False\<rparr>)
         else Some \<lparr>spm_member_id = i, spm_name = Some clean, spm_confirmed = given_confirmed ms l\<rparr>)"

fun map_speakers ::
  "member list \<Rightarrow> (pystr \<times> pystr) list \<Rightarrow> (pystr \<times> ident option \<times> bool) list \<Rightarrow> pystr list \<Rightarrow> (pystr \<times> speaker_mapping) list option" where
  "map_speakers rows names ms [] = Some []"
| "map_speakers rows names ms (l # ls) =
     (case (map_speaker rows names ms l, map_speakers rows names ms ls) of
        (Some m, Some rest) \<Rightarrow> Some ((l, m) # rest)
      | _ \<Rightarrow> None)"

definition set_names ::
  "ident \<Rightarrow> int \<Rightarrow> (pystr \<times> pystr) list \<Rightarrow> (pystr \<times> ident option \<times> bool) list \<Rightarrow> desk \<Rightarrow> api_error + (meeting_review \<times> desk)" where
  "set_names i v names ms k =
     (case get_review i k of
        None \<Rightarrow> Inl (Unhandled ''AttributeError'')
      | Some r \<Rightarrow>
          if mrv_version r \<noteq> v then Inl VersionConflict
          else if mrv_status r \<notin> {RS_NEEDS_REVIEW, RS_DRAFT_READY} then Inl ReviewConflict
          else if \<not> set (map fst names) \<union> set (map fst ms) \<subseteq> set (speaker_labels r) then Inl ReviewConflict
          else case find_meeting k (mrv_meeting_id r) of
                 None \<Rightarrow> Inl (Unhandled ''AttributeError'')
               | Some mt \<Rightarrow>
                   let is' = remdups (map the (filter named (map (given_member ms \<circ> fst) ms)));
                       rows = active_members (mtg_club_id mt) is' k
                   in if length (remdups (map mb_id rows)) \<noteq> length is' then Inl ReviewConflict
                      else case map_speakers rows names ms (speaker_labels r) of
                             None \<Rightarrow> Inl ReviewConflict
                           | Some mapped \<Rightarrow>
                               let r' = bumped (r\<lparr>mrv_speaker_names := Some (concat (map (\<lambda>(l, m). case spm_name m of None \<Rightarrow> [] | Some n \<Rightarrow> [(l, n)]) mapped)),
                                                  mrv_speaker_mappings := Some mapped, mrv_draft := None, mrv_status := RS_NEEDS_REVIEW\<rparr>)
                               in Inr (r', put_review r' k))"

section \<open>Taking tasks over\<close>

record review_candidate =
  cn_title :: pystr
  cn_description :: "pystr option"
  cn_assignee :: "ident option"
  cn_due :: "date option"
  cn_evidence :: "ident list"

definition all_confirmed :: "meeting_review \<Rightarrow> bool" where
  "all_confirmed r \<longleftrightarrow> speaker_labels r \<noteq> [] \<and>
     list_all (\<lambda>l. case map_of (mappings_of r) l of None \<Rightarrow> False | Some m \<Rightarrow> spm_confirmed m) (speaker_labels r)"

definition review_decision :: "rnd \<Rightarrow> instant \<Rightarrow> meeting_row \<Rightarrow> ident \<Rightarrow> transcript_segment list \<Rightarrow> desk \<Rightarrow> context_decision" where
  "review_decision g now m jid ss k =
     \<lparr>cdc_id = new_id g (base k) ''cdc'', cdc_club_id = mtg_club_id m, cdc_job_id = jid, cdc_source_type = MEETING_TRANSCRIPT,
      cdc_meeting_id = Some (mtg_id m), cdc_discord_connection_id = None,
      cdc_sources = map (\<lambda>s. source_json (tsg_id s) (tsg_version s)) ss, cdc_status = Decision_SUCCEEDED,
      cdc_route = Route_LLM, cdc_kind = Kind_ANSWER,
      cdc_reason_summary = Some [54924, 51032, 32, 51333, 47308, 32, 44160, 53664, 32, 54980, 48372],
      cdc_question = None, cdc_output = None, cdc_citations = None, cdc_tool_calls = [],
      cdc_model_version = lit ''meeting-review'', cdc_policy_version = lit ''meeting-review-v1'',
      cdc_judge_input = None, cdc_judge_ms = None, cdc_created_at = now\<rparr>"

definition candidate_suggestion ::
  "rnd \<Rightarrow> instant \<Rightarrow> ident \<Rightarrow> ident \<Rightarrow> ident \<Rightarrow> member list \<Rightarrow> transcript_segment list \<Rightarrow> review_candidate \<Rightarrow> desk \<Rightarrow> task_suggestion" where
  "candidate_suggestion g now club did by' mems ss c k =
     (let mem = (if named (cn_assignee c) then find (\<lambda>m. Some (mb_id m) = cn_assignee c) mems else None) in
      \<lparr>tsk_id = new_id g (base k) ''tsk'', tsk_club_id = club, tsk_decision_id = did, tsk_source_type = MEETING_TRANSCRIPT,
       tsk_title = py_strip (cn_title c), tsk_description = cn_description c, tsk_suggested_assignee = map_option mb_name mem,
       tsk_suggested_assignee_member_id = cn_assignee c, tsk_due_date = cn_due c, tsk_kind = Some Item_TASK, tsk_due_at = None,
       tsk_scheduled_at = None,
       tsk_unresolved_fields = (if cn_due c = None then [lit ''dueDate''] else []) @ (if mem = None then [lit ''assignee''] else []),
       tsk_evidence = concat (map (\<lambda>i. case find (\<lambda>s. tsg_id s = i) ss of None \<Rightarrow> [] | Some s \<Rightarrow> [source_json i (tsg_version s)]) (cn_evidence c)),
       tsk_status = Suggestion_ACCEPTED, tsk_version = 1, tsk_accepted_by = Some by', tsk_accepted_at = Some now, tsk_created_at = now\<rparr>)"

fun insert_candidates ::
  "rnd \<Rightarrow> instant \<Rightarrow> ident \<Rightarrow> ident \<Rightarrow> ident \<Rightarrow> member list \<Rightarrow> transcript_segment list \<Rightarrow> review_candidate list \<Rightarrow> desk
     \<Rightarrow> api_error + (task_suggestion list \<times> desk)" where
  "insert_candidates g now club did by' mems ss [] k = Inr ([], k)"
| "insert_candidates g now club did by' mems ss (c # cs) k =
     (let t = candidate_suggestion g now club did by' mems ss c k in
      and_then (if cn_assignee c = Some [] then Inl (Unhandled ''IntegrityError'') else insert_suggestion t k) (\<lambda>k'.
        and_then (insert_candidates g now club did by' mems ss cs k') (\<lambda>(ts, k''). Inr (t # ts, k''))))"

definition save_candidates ::
  "rnd \<Rightarrow> instant \<Rightarrow> (review_candidate list \<Rightarrow> string) \<Rightarrow> ident \<Rightarrow> int \<Rightarrow> pystr \<Rightarrow> review_candidate list \<Rightarrow> ident \<Rightarrow> desk
     \<Rightarrow> api_error + (task_suggestion list \<times> desk)" where
  "save_candidates g now hash_of rid v req cs by' k =
     (case find_review k rid of
        None \<Rightarrow> Inl ReviewConflict
      | Some r \<Rightarrow>
          if mrv_candidate_request_id r \<noteq> None \<and> mrv_candidate_request_id r \<noteq> Some []
          then (if mrv_candidate_request_id r \<noteq> Some req \<or> mrv_candidate_hash r \<noteq> Some (hash_of cs) then Inl IdempotencyConflict
                else Inr (filter (\<lambda>t. tsk_id t \<in> set (case mrv_candidate_ids r of None \<Rightarrow> [] | Some is' \<Rightarrow> is')) (suggestions k), k))
          else if mrv_version r \<noteq> v then Inl VersionConflict
          else if mrv_status r \<notin> {RS_NEEDS_REVIEW, RS_DRAFT_READY} then Inl ReviewConflict
          else if \<not> all_confirmed r then Inl ReviewConflict
          else case find_meeting k (mrv_meeting_id r) of
                 None \<Rightarrow> Inl ReviewConflict
               | Some m \<Rightarrow>
                   let eids = remdups (concat (map cn_evidence cs));
                       ss = filter (\<lambda>s. tsg_meeting_id s = mtg_id m \<and> tsg_id s \<in> set eids \<and> tsg_is_final s) (segments k);
                       mids = remdups (map the (filter named (map cn_assignee cs)));
                       mems = active_members (mtg_club_id m) mids k
                   in if length (remdups (map tsg_id ss)) \<noteq> length eids then Inl ReviewConflict
                      else if length (remdups (map mb_id mems)) \<noteq> length mids then Inl ReviewConflict
                      else and_then
                        (case find (\<lambda>c. cdc_job_id c = mrv_job_id r) (decisions k) of
                           Some c \<Rightarrow> Inr (c, k)
                         | None \<Rightarrow>
                             let c = review_decision g now m (mrv_job_id r) ss k in
                             and_then (insert_row cdc_id c (decisions k)) (\<lambda>rows. Inr (c, draw_desk (k\<lparr>decisions := rows\<rparr>)))) (\<lambda>(c, k1).
                        and_then (insert_candidates g now (mtg_club_id m) (cdc_id c) by' mems ss cs k1) (\<lambda>(ts, k2).
                          Inr (ts, put_review (bumped (r\<lparr>mrv_candidate_request_id := Some req, mrv_candidate_hash := Some (hash_of cs),
                                                        mrv_candidate_ids := Some (map tsk_id ts)\<rparr>)) k2))))"

section \<open>Diarization\<close>

text \<open>The errors of the provider that are shown outside begin with \<open>DIARIZATION_\<close>.\<close>

definition provider_error_code :: "string option \<Rightarrow> string" where
  "provider_error_code code =
     (case code of
        Some c \<Rightarrow> if take 12 c = ''DIARIZATION_'' then c else ''DIARIZATION_PROVIDER_ERROR''
      | None \<Rightarrow> ''DIARIZATION_PROVIDER_ERROR'')"

definition fail_diarization :: "ident \<Rightarrow> string \<Rightarrow> desk \<Rightarrow> api_error + (meeting_review \<times> desk)" where
  "fail_diarization rid code k =
     (case find_review k rid of
        None \<Rightarrow> Inl ReviewConflict
      | Some r \<Rightarrow>
          if mrv_status r \<in> {RS_QUEUED, RS_PROCESSING, RS_SUBMITTING}
          then let r' = bumped (r\<lparr>mrv_status := RS_FAILED, mrv_error_code := Some code\<rparr>) in Inr (r', put_review r' k)
          else Inr (r, k))"

definition retry_diarization :: "ident \<Rightarrow> desk \<Rightarrow> api_error + (meeting_review \<times> desk)" where
  "retry_diarization rid k =
     (case find_review k rid of
        None \<Rightarrow> Inl ReviewConflict
      | Some r \<Rightarrow>
          if mrv_status r \<noteq> RS_FAILED then Inr (r, k)
          else let r' = bumped (r\<lparr>mrv_status := (if has_job r then RS_PROCESSING else RS_QUEUED), mrv_error_code := None\<rparr>)
               in Inr (r', put_review r' k))"

text \<open>\<open>isinstance(x, int)\<close> holds of the truth values too.\<close>

fun json_int_value :: "json option \<Rightarrow> int option" where
  "json_int_value (Some (JInt n)) = Some n"
| "json_int_value (Some (JBool b)) = Some (if b then 1 else 0)"
| "json_int_value _ = None"

definition read_turn :: "dict \<Rightarrow> speaker_turn option" where
  "read_turn t =
     (case (json_int_value (map_of t ''start_ms''), json_int_value (map_of t ''end_ms''), map_of t ''speaker_label'') of
        (Some a, Some b, Some (JStr l)) \<Rightarrow>
          if b \<le> a \<or> py_strip l = [] then None else Some \<lparr>tn_start_ms = a, tn_end_ms = b, tn_label = l\<rparr>
      | _ \<Rightarrow> None)"

fun read_turns :: "dict list \<Rightarrow> speaker_turn list option" where
  "read_turns [] = Some []"
| "read_turns (t # ts) =
     (case (read_turn t, read_turns ts) of (Some x, Some xs) \<Rightarrow> Some (x # xs) | _ \<Rightarrow> None)"

definition apply_diarization :: "ident \<Rightarrow> pystr \<Rightarrow> dict list \<Rightarrow> int option \<Rightarrow> desk \<Rightarrow> api_error + (meeting_review \<times> desk)" where
  "apply_diarization rid job turns duration k =
     (case find_review k rid of
        None \<Rightarrow> Inl ReviewConflict
      | Some r \<Rightarrow>
          if mrv_status r \<noteq> RS_PROCESSING \<or> mrv_provider_job_id r \<noteq> Some job then Inl ReviewConflict
          else case read_turns turns of
                 None \<Rightarrow> Inl ReviewConflict
               | Some ts \<Rightarrow>
                   let r' = bumped (r\<lparr>mrv_provider_job_id := Some job, mrv_turns := Some ts, mrv_duration_ms := duration,
                                      mrv_status := RS_NEEDS_REVIEW\<rparr>)
                   in Inr (r', put_review r' k))"

definition submit_begin :: "ident \<Rightarrow> desk \<Rightarrow> api_error + desk" where
  "submit_begin rid k =
     (case find_review k rid of
        None \<Rightarrow> Inl ReviewConflict
      | Some r \<Rightarrow>
          if mrv_status r \<noteq> RS_QUEUED \<or> has_job r then Inl ReviewConflict
          else Inr (put_review (bumped (r\<lparr>mrv_status := RS_SUBMITTING\<rparr>)) k))"

text \<open>The provider raised: what it did is not known. The exception goes on after this transaction.\<close>

definition submit_failed :: "ident \<Rightarrow> string option \<Rightarrow> desk \<Rightarrow> desk" where
  "submit_failed rid code k =
     (case find_review k rid of
        None \<Rightarrow> k
      | Some r \<Rightarrow>
          if mrv_status r \<noteq> RS_SUBMITTING then k
          else put_review (bumped (r\<lparr>mrv_status := RS_SUBMISSION_UNKNOWN, mrv_error_code := Some (provider_error_code code)\<rparr>)) k)"

definition submit_accepted :: "ident \<Rightarrow> pystr \<Rightarrow> desk \<Rightarrow> api_error + (meeting_review \<times> desk)" where
  "submit_accepted rid job k =
     (case find_review k rid of
        None \<Rightarrow> Inl ReviewConflict
      | Some r \<Rightarrow>
          if mrv_status r \<noteq> RS_SUBMITTING then Inl ReviewConflict
          else let r' = bumped (r\<lparr>mrv_provider_job_id := Some job, mrv_status := RS_PROCESSING\<rparr>) in Inr (r', put_review r' k))"

definition poll_begin :: "ident \<Rightarrow> desk \<Rightarrow> api_error + pystr" where
  "poll_begin rid k =
     (case find_review k rid of
        None \<Rightarrow> Inl ReviewConflict
      | Some r \<Rightarrow>
          if mrv_status r \<noteq> RS_PROCESSING \<or> \<not> has_job r then Inl ReviewConflict
          else Inr (the (mrv_provider_job_id r)))"

text \<open>The turns were read: they are stored, or the review fails in a transaction of its own.\<close>

definition poll_finish :: "ident \<Rightarrow> pystr \<Rightarrow> dict list \<Rightarrow> int \<Rightarrow> desk \<Rightarrow> (api_error + meeting_review) \<times> desk" where
  "poll_finish rid job turns duration k =
     (case apply_diarization rid job turns (Some duration) k of
        Inr (r, k') \<Rightarrow> (Inr r, k')
      | Inl e \<Rightarrow>
          (case fail_diarization rid ''DIARIZATION_INVALID_RESPONSE'' k of
             Inl e' \<Rightarrow> (Inl e', k)
           | Inr (_, k') \<Rightarrow> (Inl e, k')))"

section \<open>The draft\<close>

record review_transcript =
  vt_segment_id :: ident
  vt_text :: pystr
  vt_label :: "pystr option"
  vt_name :: "pystr option"

definition draft_transcripts :: "meeting_review \<Rightarrow> transcript_segment list \<Rightarrow> review_transcript list" where
  "draft_transcripts r ss =
     map (\<lambda>a. \<lparr>vt_segment_id = al_segment_id a, vt_text = al_text a, vt_label = al_label a,
               vt_name = (case al_label a of None \<Rightarrow> None | Some l \<Rightarrow> map_of (names_of r) l)\<rparr>)
         (align_segments ss (turns_of r))"

definition minutes_segments :: "ident \<Rightarrow> desk \<Rightarrow> transcript_segment list" where
  "minutes_segments i k = filter (\<lambda>s. tsg_text s \<noteq> []) (final_segments i k)"

text \<open>The contract of the request refuses an empty list and blank texts.\<close>

definition draft_begin :: "ident \<Rightarrow> int \<Rightarrow> desk \<Rightarrow> api_error + (ident \<times> review_transcript list)" where
  "draft_begin i v k =
     (case get_review i k of
        None \<Rightarrow> Inl (Unhandled ''AttributeError'')
      | Some r \<Rightarrow>
          if mrv_version r \<noteq> v \<or> mrv_status r \<noteq> RS_NEEDS_REVIEW then Inl ReviewConflict
          else let ts = draft_transcripts r (minutes_segments (mrv_meeting_id r) k) in
               if ts = [] \<or> list_ex (\<lambda>t. py_strip (vt_text t) = []) ts then Inl (Unhandled ''ValidationError'')
               else Inr (mrv_id r, ts))"

definition draft_finish :: "ident \<Rightarrow> ident \<Rightarrow> int \<Rightarrow> dict \<Rightarrow> desk \<Rightarrow> api_error + (meeting_review \<times> desk)" where
  "draft_finish i rid v draft k =
     (case get_review i k of
        None \<Rightarrow> Inl (Unhandled ''AttributeError'')
      | Some r \<Rightarrow>
          if mrv_id r \<noteq> rid \<or> mrv_version r \<noteq> v \<or> mrv_status r \<noteq> RS_NEEDS_REVIEW then Inl ReviewConflict
          else let r' = bumped (r\<lparr>mrv_draft := Some draft, mrv_status := RS_DRAFT_READY\<rparr>) in Inr (r', put_review r' k))"

section \<open>Routes\<close>

definition review_for_account :: "ident \<Rightarrow> ident \<Rightarrow> desk \<Rightarrow> api_error + meeting_review" where
  "review_for_account i account k =
     and_then (meeting_for_account i account k) (\<lambda>m.
       case get_review (mtg_id m) k of None \<Rightarrow> Inl ReviewConflict | Some r \<Rightarrow> Inr r)"

definition start_review_endpoint :: "rnd \<Rightarrow> ident \<Rightarrow> ident \<Rightarrow> desk \<Rightarrow> api_error + (review_view \<times> desk)" where
  "start_review_endpoint g i account k =
     and_then (meeting_for_account i account k) (\<lambda>m.
     and_then (ensure_member (mtg_club_id m) account None (base k)) (\<lambda>mb.
     and_then (start_review g (mtg_id m) (mb_id mb) k) (\<lambda>(r, k'). Inr (review_output r k', k'))))"

text \<open>
  \<open>submit_review_diarization\<close> up to the assembly of the audio: the review to answer with, or the review to
  submit. A failed review is retried first.
\<close>

definition submit_route_begin :: "ident \<Rightarrow> ident \<Rightarrow> desk \<Rightarrow> api_error + ((meeting_review + ident) \<times> desk)" where
  "submit_route_begin i account k =
     and_then (review_for_account i account k) (\<lambda>r.
       if mrv_status r = RS_SUBMISSION_UNKNOWN then Inr (Inl r, k)
       else and_then (if mrv_status r = RS_FAILED then retry_diarization (mrv_id r) k else Inr (r, k)) (\<lambda>(r', k').
         if mrv_status r' \<noteq> RS_QUEUED then Inr (Inl r', k') else Inr (Inr (mrv_id r'), k')))"

text \<open>A provider that is not configured, found by either route: the review fails, the answer is a 503.\<close>

definition not_configured :: "ident \<Rightarrow> desk \<Rightarrow> (api_error + meeting_review) \<times> desk" where
  "not_configured rid k =
     (case fail_diarization rid ''DIARIZATION_NOT_CONFIGURED'' k of
        Inl e \<Rightarrow> (Inl e, k)
      | Inr (_, k') \<Rightarrow> (Inl (DiarizationUnavailable ''DIARIZATION_NOT_CONFIGURED''), k'))"

text \<open>How the routes answer when the provider raised one of its errors, or any other exception.\<close>

definition report_provider_error :: "ident \<Rightarrow> string \<Rightarrow> desk \<Rightarrow> (api_error + meeting_review) \<times> desk" where
  "report_provider_error rid code k =
     (case fail_diarization rid code k of
        Inl e \<Rightarrow> (Inl e, k)
      | Inr (_, k') \<Rightarrow> (Inl (DiarizationUnavailable (if take 12 code = ''DIARIZATION_'' then code else ''DIARIZATION_UNAVAILABLE'')), k'))"

definition report_other_error :: "review_state \<Rightarrow> ident \<Rightarrow> api_error \<Rightarrow> desk \<Rightarrow> api_error" where
  "report_other_error st rid e k =
     (case get_review rid k of
        None \<Rightarrow> e
      | Some r \<Rightarrow> if mrv_status r = st then DiarizationUnavailable ''DIARIZATION_PROVIDER_ERROR'' else e)"

definition audio_snapshot :: "ident \<Rightarrow> desk \<Rightarrow> (int \<times> int \<times> pystr option) list" where
  "audio_snapshot i k =
     map (\<lambda>c. (auc_start_ms c, auc_end_ms c, auc_storage_key c))
         (sort_key auc_start_ms (sort_key auc_seq (filter (\<lambda>c. auc_meeting_id c = i) (audio_chunks k))))"

definition meeting_duration :: "ident \<Rightarrow> desk \<Rightarrow> int" where
  "meeting_duration i k = (let es = map (\<lambda>(_, e, _). e) (audio_snapshot i k) in if es = [] then 0 else Max (set es))"

end
