(* ===== verification/Review_Room.thy ===== *)
theory Review_Room
  imports Meeting_Review
begin

text \<open>
  The requests on a review as they interleave. A run keeps, beside the tables, the calls under way: the
  submissions the provider has not answered, the submissions whose error is still to be reported, the polls
  and the drafts that wait for an answer. \<open>rm_calls\<close> records for which review the provider was asked to
  start a paid job. The configuration of the provider does not change during a run.
\<close>

record room =
  rm_desk :: desk
  rm_submits :: "ident list"
  rm_reports :: "ident list"
  rm_polls :: "(ident \<times> pystr) list"
  rm_drafts :: "(ident \<times> ident \<times> int \<times> review_transcript list) list"
  rm_calls :: "ident list"

text \<open>\<open>made ts d\<close>: the model may answer a request with the transcripts \<open>ts\<close> by the draft \<open>d\<close>.\<close>

inductive room_step :: "bool \<Rightarrow> (review_transcript list \<Rightarrow> dict \<Rightarrow> bool) \<Rightarrow> room \<Rightarrow> room \<Rightarrow> bool" for configured made where
  Review_Started: "start_review g i by' (rm_desk x) = Inr (r, k) \<Longrightarrow> room_step configured made x (x\<lparr>rm_desk := k\<rparr>)"
| Review_Retried: "retry_diarization rid (rm_desk x) = Inr (r, k) \<Longrightarrow> room_step configured made x (x\<lparr>rm_desk := k\<rparr>)"
| Not_Configured: "\<not> configured \<Longrightarrow> not_configured rid (rm_desk x) = (res, k) \<Longrightarrow> room_step configured made x (x\<lparr>rm_desk := k\<rparr>)"
| Job_Submitted: "configured \<Longrightarrow> submit_begin rid (rm_desk x) = Inr k \<Longrightarrow>
    room_step configured made x (x\<lparr>rm_desk := k, rm_submits := rid # rm_submits x, rm_calls := rid # rm_calls x\<rparr>)"
| Job_Accepted: "rid \<in> set (rm_submits x) \<Longrightarrow> job \<noteq> [] \<Longrightarrow> submit_accepted rid job (rm_desk x) = Inr (r, k) \<Longrightarrow>
    room_step configured made x (x\<lparr>rm_desk := k, rm_submits := remove1 rid (rm_submits x)\<rparr>)"
| Job_Unknown: "rid \<in> set (rm_submits x) \<Longrightarrow>
    room_step configured made x (x\<lparr>rm_desk := submit_failed rid code (rm_desk x), rm_submits := remove1 rid (rm_submits x),
      rm_reports := rid # rm_reports x\<rparr>)"
| Unknown_Reported: "rid \<in> set (rm_reports x) \<Longrightarrow> report_provider_error rid code (rm_desk x) = (res, k) \<Longrightarrow>
    room_step configured made x (x\<lparr>rm_desk := k, rm_reports := remove1 rid (rm_reports x)\<rparr>)"
| Call_Lost: "room_step configured made x (x\<lparr>rm_submits := remove1 rid (rm_submits x), rm_reports := remove1 rid' (rm_reports x)\<rparr>)"
| Poll_Begun: "configured \<Longrightarrow> poll_begin rid (rm_desk x) = Inr job \<Longrightarrow> room_step configured made x (x\<lparr>rm_polls := (rid, job) # rm_polls x\<rparr>)"
| Poll_Failed: "(rid, job) \<in> set (rm_polls x) \<Longrightarrow> fail_diarization rid code (rm_desk x) = Inr (r, k) \<Longrightarrow>
    room_step configured made x (x\<lparr>rm_desk := k\<rparr>)"
| Poll_Finished: "(rid, job) \<in> set (rm_polls x) \<Longrightarrow> poll_finish rid job turns duration (rm_desk x) = (res, k) \<Longrightarrow>
    room_step configured made x (x\<lparr>rm_desk := k, rm_polls := remove1 (rid, job) (rm_polls x)\<rparr>)"
| Names_Set: "set_names i v names ms (rm_desk x) = Inr (r, k) \<Longrightarrow> room_step configured made x (x\<lparr>rm_desk := k\<rparr>)"
| Draft_Begun: "draft_begin i v (rm_desk x) = Inr (rid, ts) \<Longrightarrow> room_step configured made x (x\<lparr>rm_drafts := (i, rid, v, ts) # rm_drafts x\<rparr>)"
| Draft_Finished: "(i, rid, v, ts) \<in> set (rm_drafts x) \<Longrightarrow> made ts d \<Longrightarrow> draft_finish i rid v d (rm_desk x) = Inr (r, k) \<Longrightarrow>
    room_step configured made x (x\<lparr>rm_desk := k\<rparr>)"
| Candidates_Saved: "save_candidates g now hash_of rid v req cs by' (rm_desk x) = Inr (ts, k) \<Longrightarrow> room_step configured made x (x\<lparr>rm_desk := k\<rparr>)"
| Elsewhere: "meeting_reviews k = meeting_reviews (rm_desk x) \<Longrightarrow> room_step configured made x (x\<lparr>rm_desk := k\<rparr>)"

section \<open>What an operation does to the rows\<close>

lemma find_review_id: "find_review k i = Some r \<Longrightarrow> mrv_id r = i"
  by (simp add: find_review_def get_row_key)

lemma find_review_mem: "find_review k i = Some r \<Longrightarrow> r \<in> set (meeting_reviews k)"
  by (simp add: find_review_def get_row_SomeD)

lemma get_review_find:
  assumes "get_review i k = Some r" and "distinct (map mrv_id (meeting_reviews k))"
  shows "find_review k (mrv_id r) = Some r"
  using assms by (auto simp: get_review_def find_review_def find_Some_iff in_set_conv_nth intro!: get_row_distinct)

lemma meeting_reviews_put [simp]: "meeting_reviews (put_review r k) = put_row mrv_id r (meeting_reviews k)"
  by (simp add: put_review_def)

lemma bumped_simps [simp]:
  "mrv_id (bumped r) = mrv_id r" "mrv_meeting_id (bumped r) = mrv_meeting_id r" "mrv_version (bumped r) = mrv_version r + 1"
  "mrv_status (bumped r) = mrv_status r" "mrv_provider_job_id (bumped r) = mrv_provider_job_id r"
  "mrv_turns (bumped r) = mrv_turns r" "mrv_speaker_names (bumped r) = mrv_speaker_names r"
  "mrv_speaker_mappings (bumped r) = mrv_speaker_mappings r" "mrv_draft (bumped r) = mrv_draft r"
  "mrv_candidate_request_id (bumped r) = mrv_candidate_request_id r" "mrv_candidate_hash (bumped r) = mrv_candidate_hash r"
  "mrv_candidate_ids (bumped r) = mrv_candidate_ids r"
  by (simp_all add: bumped_def)

text \<open>A review whose tasks were taken over remembers the request and what it created.\<close>

definition taken :: "meeting_review \<Rightarrow> bool" where
  "taken r \<longleftrightarrow> mrv_candidate_request_id r \<noteq> None \<and> mrv_candidate_request_id r \<noteq> Some []"

definition candidate_part :: "meeting_review \<Rightarrow> pystr option \<times> string option \<times> ident list option" where
  "candidate_part r = (mrv_candidate_request_id r, mrv_candidate_hash r, mrv_candidate_ids r)"

lemma retry_cases:
  assumes "retry_diarization rid k = Inr (r', k')"
  obtains (Same) "k' = k"
    | (Moved) r where "find_review k rid = Some r" and "mrv_status r = RS_FAILED"
        and "r' = bumped (r\<lparr>mrv_status := (if has_job r then RS_PROCESSING else RS_QUEUED), mrv_error_code := None\<rparr>)" and "k' = put_review r' k"
  using assms by (cases "find_review k rid") (auto simp: retry_diarization_def Let_def split: if_splits)

lemma fail_cases:
  assumes "fail_diarization rid code k = Inr (r', k')"
  obtains (Same) "k' = k"
    | (Moved) r where "find_review k rid = Some r" and "mrv_status r \<in> {RS_QUEUED, RS_PROCESSING, RS_SUBMITTING}"
        and "r' = bumped (r\<lparr>mrv_status := RS_FAILED, mrv_error_code := Some code\<rparr>)" and "k' = put_review r' k"
proof (cases "find_review k rid")
  case (Some r)
  show ?thesis
  proof (cases "mrv_status r \<in> {RS_QUEUED, RS_PROCESSING, RS_SUBMITTING}")
    case True
    then have "r' = bumped (r\<lparr>mrv_status := RS_FAILED, mrv_error_code := Some code\<rparr>) \<and> k' = put_review r' k"
      using assms Some by (auto simp: fail_diarization_def Let_def)
    then show ?thesis using that(2) [OF Some True] by blast
  next
    case False
    then show ?thesis using assms Some that(1) by (simp add: fail_diarization_def)
  qed
qed (use assms in \<open>simp add: fail_diarization_def\<close>)

lemma not_configured_desk: "not_configured rid k = (res, k') \<Longrightarrow> k' = k \<or> (\<exists>r code. fail_diarization rid code k = Inr (r, k'))"
  by (auto simp: not_configured_def split: sum.splits)

lemma report_desk: "report_provider_error rid code k = (res, k') \<Longrightarrow> k' = k \<or> (\<exists>r. fail_diarization rid code k = Inr (r, k'))"
  by (auto simp: report_provider_error_def split: sum.splits)

lemma apply_cases:
  assumes "apply_diarization rid job turns dur k = Inr (r', k')"
  obtains r ts where "find_review k rid = Some r" and "mrv_status r = RS_PROCESSING" and "mrv_provider_job_id r = Some job"
    and "r' = bumped (r\<lparr>mrv_provider_job_id := Some job, mrv_turns := Some ts, mrv_duration_ms := dur, mrv_status := RS_NEEDS_REVIEW\<rparr>)"
    and "k' = put_review r' k"
  using assms by (auto simp: apply_diarization_def Let_def split: option.splits if_splits)

lemma poll_finish_desk:
  assumes "poll_finish rid job turns dur k = (res, k')"
  shows "k' = k \<or> (\<exists>r. apply_diarization rid job turns (Some dur) k = Inr (r, k')) \<or> (\<exists>r code. fail_diarization rid code k = Inr (r, k'))"
  using assms by (auto simp: poll_finish_def split: sum.splits)

lemma submit_begin_cases:
  assumes "submit_begin rid k = Inr k'"
  obtains r where "find_review k rid = Some r" and "mrv_status r = RS_QUEUED" and "\<not> has_job r"
    and "k' = put_review (bumped (r\<lparr>mrv_status := RS_SUBMITTING\<rparr>)) k"
  using assms by (auto simp: submit_begin_def split: option.splits if_splits)

lemma submit_accepted_cases:
  assumes "submit_accepted rid job k = Inr (r', k')"
  obtains r where "find_review k rid = Some r" and "mrv_status r = RS_SUBMITTING"
    and "r' = bumped (r\<lparr>mrv_provider_job_id := Some job, mrv_status := RS_PROCESSING\<rparr>)" and "k' = put_review r' k"
  using assms by (auto simp: submit_accepted_def Let_def split: option.splits if_splits)

lemma poll_begin_job: "poll_begin rid k = Inr job \<Longrightarrow> \<exists>r. find_review k rid = Some r \<and> has_job r"
  by (auto simp: poll_begin_def split: option.splits if_splits)

lemma start_review_cases:
  assumes "start_review g i by' k = Inr (r, k')"
  obtains (Same) "k' = k"
    | (Fresh) "mrv_id r \<notin> mrv_id ` set (meeting_reviews k)" and "meeting_reviews k' = meeting_reviews k @ [r]" and "mrv_status r = RS_QUEUED"
        and "mrv_provider_job_id r = None" and "mrv_speaker_mappings r = None" and "mrv_candidate_request_id r = None"
proof (cases "find_meeting k i")
  case (Some m)
  note m = this
  show ?thesis
  proof (cases "find (\<lambda>r. mrv_meeting_id r = i) (meeting_reviews k)")
    case None
    then show ?thesis using assms m that(2) 
      by (auto simp: start_review_def and_then_eq_Inr insert_row_Inr draw_desk_def Let_def split: if_splits)
  next
    case (Some r0)
    then show ?thesis using assms m that(1) by (auto simp: start_review_def split: if_splits)
  qed
qed (use assms in \<open>simp add: start_review_def\<close>)

lemma set_names_cases:
  assumes "set_names i v names ms k = Inr (r', k')"
  obtains r ns mapped rows where "get_review i k = Some r" and "mrv_status r \<in> {RS_NEEDS_REVIEW, RS_DRAFT_READY}"
    and "map_speakers rows names ms (speaker_labels r) = Some mapped"
    and "r' = bumped (r\<lparr>mrv_speaker_names := Some ns, mrv_speaker_mappings := Some mapped, mrv_draft := None, mrv_status := RS_NEEDS_REVIEW\<rparr>)"
    and "k' = put_review r' k"
proof -
  obtain r where r: "get_review i k = Some r" using assms by (auto simp: set_names_def split: option.splits)
  have st: "mrv_status r \<in> {RS_NEEDS_REVIEW, RS_DRAFT_READY}" using assms r by (auto simp: set_names_def split: if_splits)
  obtain mt where mt: "find_meeting k (mrv_meeting_id r) = Some mt" using assms r by (auto simp: set_names_def split: if_splits option.splits)
  define rows where "rows = active_members (mtg_club_id mt) (remdups (map the (filter named (map (given_member ms \<circ> fst) ms)))) k"
  obtain mapped where mapped: "map_speakers rows names ms (speaker_labels r) = Some mapped"
    using assms r mt by (auto simp: set_names_def Let_def rows_def split: if_splits option.splits)
  define ns where "ns = concat (map (\<lambda>(l, m). case spm_name m of None \<Rightarrow> [] | Some n \<Rightarrow> [(l, n)]) mapped)"
  have "r' = bumped (r\<lparr>mrv_speaker_names := Some ns, mrv_speaker_mappings := Some mapped, mrv_draft := None, mrv_status := RS_NEEDS_REVIEW\<rparr>) \<and>
      k' = put_review r' k"
    using assms r mt mapped unfolding rows_def ns_def by (auto simp: set_names_def Let_def split: if_splits)
  then show ?thesis using that r st mapped by blast
qed

lemma draft_begin_cases:
  assumes "draft_begin i v k = Inr (rid, ts)"
  obtains r ss where "get_review i k = Some r" and "mrv_id r = rid" and "mrv_version r = v" and "ts = draft_transcripts r ss"
  using assms by (auto simp: draft_begin_def Let_def split: option.splits if_splits)

lemma draft_finish_cases:
  assumes "draft_finish i rid v d k = Inr (r', k')"
  obtains r where "get_review i k = Some r" and "mrv_id r = rid" and "mrv_version r = v" and "mrv_status r = RS_NEEDS_REVIEW"
    and "r' = bumped (r\<lparr>mrv_draft := Some d, mrv_status := RS_DRAFT_READY\<rparr>)" and "k' = put_review r' k"
  using assms by (auto simp: draft_finish_def Let_def split: option.splits if_splits)

lemma insert_candidates_reviews:
  "insert_candidates g now club did by' mems ss cs k = Inr (ts, k') \<Longrightarrow> meeting_reviews k' = meeting_reviews k"
proof (induction cs arbitrary: k ts)
  case (Cons c cs)
  then show ?case by (auto simp: Let_def and_then_eq_Inr insert_suggestion_def draw_desk_def split: if_splits)
qed simp

text \<open>A first save: the rows of the tasks, and the row of the review that remembers them.\<close>

lemma save_candidates_cases:
  assumes "save_candidates g now hash_of rid v req cs by' k = Inr (ts, k')"
  obtains (Replayed) r where "find_review k rid = Some r" and "taken r" and "mrv_candidate_request_id r = Some req"
        and "mrv_candidate_hash r = Some (hash_of cs)" and "k' = k"
        and "ts = filter (\<lambda>t. tsk_id t \<in> set (case mrv_candidate_ids r of None \<Rightarrow> [] | Some is' \<Rightarrow> is')) (suggestions k)"
    | (Fresh) r where "find_review k rid = Some r" and "\<not> taken r" and "mrv_version r = v" and "mrv_status r \<in> {RS_NEEDS_REVIEW, RS_DRAFT_READY}"
        and "all_confirmed r"
        and "meeting_reviews k' = put_row mrv_id (bumped (r\<lparr>mrv_candidate_request_id := Some req, mrv_candidate_hash := Some (hash_of cs),
              mrv_candidate_ids := Some (map tsk_id ts)\<rparr>)) (meeting_reviews k)"
proof -
  obtain r where r: "find_review k rid = Some r" using assms by (auto simp: save_candidates_def split: option.splits)
  show ?thesis
  proof (cases "taken r")
    case True
    then have t: "mrv_candidate_request_id r \<noteq> None \<and> mrv_candidate_request_id r \<noteq> Some []" by (simp add: taken_def)
    then have "mrv_candidate_request_id r = Some req" "mrv_candidate_hash r = Some (hash_of cs)" "k' = k"
      "ts = filter (\<lambda>t. tsk_id t \<in> set (case mrv_candidate_ids r of None \<Rightarrow> [] | Some is' \<Rightarrow> is')) (suggestions k)"
      using assms r unfolding save_candidates_def by (auto split: if_splits)
    then show ?thesis using that(1) r True by blast
  next
    case False
    then have t: "\<not> (mrv_candidate_request_id r \<noteq> None \<and> mrv_candidate_request_id r \<noteq> Some [])" by (simp add: taken_def)
    have v: "mrv_version r = v" "mrv_status r \<in> {RS_NEEDS_REVIEW, RS_DRAFT_READY}" "all_confirmed r"
      using assms r t unfolding save_candidates_def by (simp_all split: if_splits)
    obtain m where m: "find_meeting k (mrv_meeting_id r) = Some m"
      using assms r t unfolding save_candidates_def by (auto split: if_splits option.splits)
    define ss where "ss = filter (\<lambda>s. tsg_meeting_id s = mtg_id m \<and> tsg_id s \<in> set (remdups (concat (map cn_evidence cs))) \<and> tsg_is_final s) (segments k)"
    define mems where "mems = active_members (mtg_club_id m) (remdups (map the (filter named (map cn_assignee cs)))) k"
    define c1 where "c1 = (case find (\<lambda>c. cdc_job_id c = mrv_job_id r) (decisions k) of
                           Some c \<Rightarrow> Inr (c, k)
                         | None \<Rightarrow>
                             let c = review_decision g now m (mrv_job_id r) ss k in
                             and_then (insert_row cdc_id c (decisions k)) (\<lambda>rows. Inr (c, draw_desk (k\<lparr>decisions := rows\<rparr>))))"
    have "and_then c1 (\<lambda>(c, k1). and_then (insert_candidates g now (mtg_club_id m) (cdc_id c) by' mems ss cs k1) (\<lambda>(ts, k2).
        Inr (ts, put_review (bumped (r\<lparr>mrv_candidate_request_id := Some req, mrv_candidate_hash := Some (hash_of cs),
              mrv_candidate_ids := Some (map tsk_id ts)\<rparr>)) k2))) = Inr (ts, k')"
      using assms r t v m unfolding save_candidates_def c1_def ss_def mems_def by (simp add: Let_def split: if_splits)
    then obtain c k1 k2 where c1: "c1 = Inr (c, k1)" and ic: "insert_candidates g now (mtg_club_id m) (cdc_id c) by' mems ss cs k1 = Inr (ts, k2)"
      and k': "k' = put_review (bumped (r\<lparr>mrv_candidate_request_id := Some req, mrv_candidate_hash := Some (hash_of cs),
              mrv_candidate_ids := Some (map tsk_id ts)\<rparr>)) k2"
      by (auto simp: and_then_eq_Inr)
    have "meeting_reviews k1 = meeting_reviews k" using c1 by (auto simp: c1_def Let_def and_then_eq_Inr draw_desk_def split: option.splits)
    then show ?thesis using that(2) r False v k' insert_candidates_reviews [OF ic] by simp
  qed
qed

section \<open>The invariant of a run\<close>

definition speakers_ok :: "meeting_review \<Rightarrow> bool" where
  "speakers_ok r \<longleftrightarrow> (\<forall>(l, m) \<in> set (mappings_of r). spm_confirmed m \<longrightarrow> spm_name m \<noteq> None \<and> spm_name m \<noteq> Some [])"

definition draft_ok :: "(review_transcript list \<Rightarrow> dict \<Rightarrow> bool) \<Rightarrow> meeting_review \<Rightarrow> bool" where
  "draft_ok made r \<longleftrightarrow>
     (mrv_status r = RS_DRAFT_READY \<longrightarrow> (\<exists>d ss. mrv_draft r = Some d \<and> made (draft_transcripts r ss) d))"

text \<open>A row in the context of the calls under way.\<close>

definition phase_ok :: "room \<Rightarrow> ident \<Rightarrow> review_state \<Rightarrow> bool \<Rightarrow> bool" where
  "phase_ok x i st job \<longleftrightarrow>
     count_list (rm_calls x) i \<le> 1 \<and>
     (i \<in> set (rm_calls x) \<longrightarrow> st \<noteq> RS_QUEUED \<and> st \<noteq> RS_FAILED \<or> job) \<and>
     (st = RS_PROCESSING \<or> st = RS_NEEDS_REVIEW \<or> st = RS_DRAFT_READY \<longrightarrow> job) \<and>
     (i \<in> set (rm_submits x) \<longrightarrow> st = RS_SUBMITTING) \<and>
     (st = RS_SUBMITTING \<longrightarrow> \<not> job) \<and>
     (i \<in> set (rm_reports x) \<longrightarrow> st = RS_SUBMISSION_UNKNOWN) \<and>
     (i \<in> fst ` set (rm_polls x) \<longrightarrow> job)"

definition submits_ok :: "room \<Rightarrow> meeting_review \<Rightarrow> bool" where
  "submits_ok x r \<longleftrightarrow> phase_ok x (mrv_id r) (mrv_status r) (has_job r)"

lemma has_job_simps [simp]:
  "has_job (bumped r) = has_job r" "has_job (r\<lparr>mrv_status := st\<rparr>) = has_job r" "has_job (r\<lparr>mrv_error_code := c\<rparr>) = has_job r"
  "has_job (r\<lparr>mrv_turns := t\<rparr>) = has_job r" "has_job (r\<lparr>mrv_duration_ms := d\<rparr>) = has_job r" "has_job (r\<lparr>mrv_draft := f\<rparr>) = has_job r"
  "has_job (r\<lparr>mrv_speaker_names := n\<rparr>) = has_job r" "has_job (r\<lparr>mrv_speaker_mappings := m\<rparr>) = has_job r"
  "has_job (r\<lparr>mrv_candidate_request_id := q\<rparr>) = has_job r" "has_job (r\<lparr>mrv_candidate_hash := h\<rparr>) = has_job r"
  "has_job (r\<lparr>mrv_candidate_ids := is'\<rparr>) = has_job r"
  by (simp_all add: has_job_def bumped_def)

lemma phase_fail:
  assumes "phase_ok x i st job" and "st \<in> {RS_QUEUED, RS_PROCESSING, RS_SUBMITTING}"
    and "rm_calls x = [] \<and> rm_submits x = [] \<or> i \<in> fst ` set (rm_polls x) \<or> i \<in> set (rm_reports x)"
  shows "phase_ok x i RS_FAILED job"
  using assms by (cases job; cases st) (auto simp: phase_ok_def)

lemma phase_retry: "phase_ok x i RS_FAILED job \<Longrightarrow> phase_ok x i (if job then RS_PROCESSING else RS_QUEUED) job"
  by (cases job) (auto simp: phase_ok_def)

lemma phase_review:
  assumes "phase_ok x i st job" and "st = RS_PROCESSING \<or> st = RS_NEEDS_REVIEW \<or> st = RS_DRAFT_READY" and "st' = RS_NEEDS_REVIEW \<or> st' = RS_DRAFT_READY"
  shows "phase_ok x i st' job"
  using assms by (cases job; cases st) (auto simp: phase_ok_def)

definition pending_ok :: "room \<Rightarrow> meeting_review \<Rightarrow> bool" where
  "pending_ok x r \<longleftrightarrow>
     (\<forall>(i, rid, v, ts) \<in> set (rm_drafts x). rid = mrv_id r \<longrightarrow>
        v \<le> mrv_version r \<and> (v = mrv_version r \<longrightarrow> (\<exists>ss. ts = draft_transcripts r ss)))"

definition entry_ok :: "(review_transcript list \<Rightarrow> dict \<Rightarrow> bool) \<Rightarrow> room \<Rightarrow> meeting_review \<Rightarrow> bool" where
  "entry_ok made x r \<longleftrightarrow> submits_ok x r \<and> pending_ok x r \<and> draft_ok made r \<and> speakers_ok r"

definition lists_ok :: "bool \<Rightarrow> room \<Rightarrow> bool" where
  "lists_ok configured x \<longleftrightarrow>
     distinct (rm_submits x) \<and>
     set (rm_calls x) \<union> set (rm_submits x) \<union> set (rm_reports x) \<union> fst ` set (rm_polls x) \<union> (\<lambda>(i, rid, v, ts). rid) ` set (rm_drafts x)
       \<subseteq> mrv_id ` set (meeting_reviews (rm_desk x)) \<and>
     (\<not> configured \<longrightarrow> rm_calls x = [] \<and> rm_submits x = [] \<and> rm_polls x = [])"

definition room_ok :: "bool \<Rightarrow> (review_transcript list \<Rightarrow> dict \<Rightarrow> bool) \<Rightarrow> room \<Rightarrow> bool" where
  "room_ok configured made x \<longleftrightarrow>
     distinct (map mrv_id (meeting_reviews (rm_desk x))) \<and> lists_ok configured x \<and>
     (\<forall>r \<in> set (meeting_reviews (rm_desk x)). entry_ok made x r)"

lemma room_ok_find: "room_ok configured made x \<Longrightarrow> find_review (rm_desk x) rid = Some r \<Longrightarrow> entry_ok made x r \<and> mrv_id r = rid"
  using find_review_mem find_review_id unfolding room_ok_def by blast

lemma draft_transcripts_cong:
  "turns_of r' = turns_of r \<Longrightarrow> names_of r' = names_of r \<Longrightarrow> draft_transcripts r' ss = draft_transcripts r ss"
  by (auto simp: draft_transcripts_def split: option.split)

text \<open>One row is written, and the calls of that review may change.\<close>

lemma room_change:
  assumes "room_ok configured made x" and "find_review (rm_desk x) rid = Some r" and "mrv_id r' = rid"
    and "meeting_reviews (rm_desk y) = put_row mrv_id r' (meeting_reviews (rm_desk x))"
    and "entry_ok made y r'" and "\<And>q. mrv_id q \<noteq> rid \<Longrightarrow> entry_ok made x q \<Longrightarrow> entry_ok made y q"
    and "lists_ok configured x \<Longrightarrow> lists_ok configured y"
  shows "room_ok configured made y"
proof -
  have dist: "distinct (map mrv_id (meeting_reviews (rm_desk y)))" using assms(1,4) by (simp add: room_ok_def map_key_put_row)
  have "entry_ok made y q" if q: "q \<in> set (meeting_reviews (rm_desk y))" for q
  proof (cases "mrv_id q = rid")
    case True
    have "q \<in> set (put_row mrv_id r' (meeting_reviews (rm_desk x)))" using q assms(4) by simp
    then have "q = r'" using True assms(3) by (elim put_row_memE) simp_all
    then show ?thesis using assms(5) by simp
  next
    case False
    then have "q \<in> set (meeting_reviews (rm_desk x))" using q assms(3,4) put_row_memE by metis
    then show ?thesis using assms(1,6) False by (simp add: room_ok_def)
  qed
  then show ?thesis using dist assms(1,7) by (simp add: room_ok_def)
qed

lemma room_put:
  assumes "room_ok configured made x" and "find_review (rm_desk x) rid = Some r" and "mrv_id r' = rid"
    and "entry_ok made x r'" and "meeting_reviews k = put_row mrv_id r' (meeting_reviews (rm_desk x))"
  shows "room_ok configured made (x\<lparr>rm_desk := k\<rparr>)"
proof (rule room_change [OF assms(1-3)])
  have ids: "mrv_id ` set (meeting_reviews k) = mrv_id ` set (meeting_reviews (rm_desk x))" using assms(5) by (metis map_key_put_row set_map)
  then show "lists_ok configured x \<Longrightarrow> lists_ok configured (x\<lparr>rm_desk := k\<rparr>)" by (simp add: lists_ok_def)
qed (use assms in \<open>simp_all add: entry_ok_def submits_ok_def phase_ok_def pending_ok_def\<close>)

lemma room_same:
  "room_ok configured made x \<Longrightarrow> meeting_reviews k = meeting_reviews (rm_desk x) \<Longrightarrow> room_ok configured made (x\<lparr>rm_desk := k\<rparr>)"
  by (simp add: room_ok_def lists_ok_def entry_ok_def submits_ok_def phase_ok_def pending_ok_def)

lemma pending_ok_bump: "pending_ok x r \<Longrightarrow> mrv_id r' = mrv_id r \<Longrightarrow> mrv_version r' = mrv_version r + 1 \<Longrightarrow> pending_ok x r'"
  unfolding pending_ok_def by fastforce

text \<open>The usual move: the next version of a row, with a status that fits the calls under way.\<close>

lemma room_move:
  assumes "room_ok configured made x" and "find_review (rm_desk x) rid = Some r" and "mrv_id r' = rid" and "mrv_version r' = mrv_version r + 1"
    and "phase_ok x rid (mrv_status r) (has_job r) \<Longrightarrow> phase_ok x rid (mrv_status r') (has_job r')"
    and "speakers_ok r \<Longrightarrow> speakers_ok r'" and "draft_ok made r \<Longrightarrow> draft_ok made r'"
    and "meeting_reviews k = put_row mrv_id r' (meeting_reviews (rm_desk x))"
  shows "room_ok configured made (x\<lparr>rm_desk := k\<rparr>)"
proof (rule room_put [OF assms(1-3)])
  have e: "entry_ok made x r" "mrv_id r = rid" using room_ok_find [OF assms(1,2)] by simp_all
  then have "pending_ok x r'" using pending_ok_bump [of x r r'] assms(3,4) by (simp add: entry_ok_def)
  then show "entry_ok made x r'" using e assms(3,5-7) by (simp add: entry_ok_def submits_ok_def)
qed (rule assms(8))

text \<open>
  A review fails, by a request that is allowed to do so: no submission of it is under way unless its job is
  known, or the provider is not configured and nothing was ever submitted.
\<close>

lemma room_fail:
  assumes "room_ok configured made x" and "fail_diarization rid code (rm_desk x) = Inr (r', k)"
    and "\<not> configured \<or> rid \<in> fst ` set (rm_polls x) \<or> rid \<in> set (rm_reports x)"
  shows "room_ok configured made (x\<lparr>rm_desk := k\<rparr>)"
  using assms(2)
proof (cases rule: fail_cases)
  case Same
  then show ?thesis using assms(1) by simp
next
  case (Moved r)
  have "\<not> configured \<Longrightarrow> rm_calls x = [] \<and> rm_submits x = []" using assms(1) by (simp add: room_ok_def lists_ok_def)
  then have "phase_ok x rid (mrv_status r) (has_job r) \<Longrightarrow> phase_ok x rid RS_FAILED (has_job r)"
    using phase_fail [OF _ Moved(2), of x rid "has_job r"] assms(3) by blast
  then show ?thesis using find_review_id [OF Moved(1)] Moved(3,4)
    by (intro room_move [OF assms(1) Moved(1), of r']) (simp_all add: draft_ok_def speakers_ok_def mappings_of_def)
qed

lemma room_retry_ok:
  assumes "room_ok configured made x" and "retry_diarization rid (rm_desk x) = Inr (r', k)"
  shows "room_ok configured made (x\<lparr>rm_desk := k\<rparr>)"
  using assms(2)
proof (cases rule: retry_cases)
  case Same
  then show ?thesis using assms(1) by simp
next
  case (Moved r)
  then show ?thesis using find_review_id [OF Moved(1)] phase_retry [of x rid "has_job r"]
    by (intro room_move [OF assms(1) Moved(1), of r']) (simp_all add: draft_ok_def speakers_ok_def mappings_of_def)
qed

lemma apply_ok:
  assumes "room_ok configured made x" and "apply_diarization rid job turns dur (rm_desk x) = Inr (r', k)"
  shows "room_ok configured made (x\<lparr>rm_desk := k\<rparr>)"
  using assms(2)
proof (cases rule: apply_cases)
  case (1 r ts)
  have "has_job r' = has_job r" using 1(3,4) by (simp add: has_job_def)
  then show ?thesis using 1 find_review_id [OF 1(1)] phase_review [of x rid "mrv_status r" "has_job r" RS_NEEDS_REVIEW]
    by (intro room_move [OF assms(1) 1(1), of r']) (simp_all add: draft_ok_def speakers_ok_def mappings_of_def)
qed

lemma map_speakers_ok:
  "map_speakers rows names ms ls = Some mapped \<Longrightarrow> \<forall>(l, m) \<in> set mapped. spm_confirmed m \<longrightarrow> spm_name m \<noteq> None \<and> spm_name m \<noteq> Some []"
proof (induction ls arbitrary: mapped)
  case (Cons l ls)
  then obtain m rest where m: "map_speaker rows names ms l = Some m" and rest: "map_speakers rows names ms ls = Some rest" "mapped = (l, m) # rest"
    by (auto split: option.splits)
  have "spm_confirmed m \<longrightarrow> spm_name m \<noteq> None \<and> spm_name m \<noteq> Some []"
    using m by (auto simp: map_speaker_def Let_def split: if_splits)
  then show ?case using Cons.IH [OF rest(1)] rest(2) by simp
qed simp

lemma set_names_ok:
  assumes "room_ok configured made x" and "set_names i v names ms (rm_desk x) = Inr (r', k)"
  shows "room_ok configured made (x\<lparr>rm_desk := k\<rparr>)"
  using assms(2)
proof (cases rule: set_names_cases)
  case (1 r ns mapped rows)
  have f: "find_review (rm_desk x) (mrv_id r) = Some r" using get_review_find [OF 1(1)] assms(1) by (simp add: room_ok_def)
  show ?thesis
    using 1 phase_review [of x "mrv_id r" "mrv_status r" "has_job r" RS_NEEDS_REVIEW] map_speakers_ok [OF 1(3)]
    by (intro room_move [OF assms(1) f, of r']) (auto simp: draft_ok_def speakers_ok_def mappings_of_def)
qed

lemma candidates_ok:
  assumes "room_ok configured made x" and "save_candidates g now hash_of rid v req cs by' (rm_desk x) = Inr (ts, k)"
  shows "room_ok configured made (x\<lparr>rm_desk := k\<rparr>)"
  using assms(2)
proof (cases rule: save_candidates_cases)
  case (Replayed r)
  then show ?thesis using assms(1) by simp
next
  case (Fresh r)
  let ?r = "bumped (r\<lparr>mrv_candidate_request_id := Some req, mrv_candidate_hash := Some (hash_of cs), mrv_candidate_ids := Some (map tsk_id ts)\<rparr>)"
  have "draft_transcripts ?r ss = draft_transcripts r ss" for ss
    by (rule draft_transcripts_cong) (simp_all add: turns_of_def names_of_def)
  then show ?thesis using Fresh find_review_id [OF Fresh(1)]
    by (intro room_move [OF assms(1) Fresh(1), of ?r]) (simp_all add: draft_ok_def speakers_ok_def mappings_of_def)
qed

lemma draft_finish_ok:
  assumes "room_ok configured made x" and "draft_finish i rid v d (rm_desk x) = Inr (r', k)" and "(i, rid, v, ts) \<in> set (rm_drafts x)" and "made ts d"
  shows "room_ok configured made (x\<lparr>rm_desk := k\<rparr>)"
  using assms(2)
proof (cases rule: draft_finish_cases)
  case (1 r)
  have f: "find_review (rm_desk x) (mrv_id r) = Some r" using get_review_find [OF 1(1)] assms(1) by (simp add: room_ok_def)
  have "pending_ok x r" using room_ok_find [OF assms(1) f] by (simp add: entry_ok_def)
  then obtain ss where ss: "ts = draft_transcripts r ss" using assms(3) 1(2,3) unfolding pending_ok_def by blast
  have "draft_transcripts r' ss = draft_transcripts r ss" using 1(5)
    by (intro draft_transcripts_cong) (simp_all add: turns_of_def names_of_def)
  then have "made (draft_transcripts r' ss) d" using ss assms(4) by simp
  moreover have "mrv_draft r' = Some d" using 1(5) by simp
  ultimately have "draft_ok made r'" unfolding draft_ok_def by blast
  then show ?thesis using 1 phase_review [of x "mrv_id r" "mrv_status r" "has_job r" RS_DRAFT_READY]
    by (intro room_move [OF assms(1) f, of r']) (simp_all add: speakers_ok_def mappings_of_def)
qed

text \<open>The submission of a job and its answer change the calls of one review.\<close>

lemma entry_ok_lists:
  assumes "entry_ok made x q" and "mrv_id q \<noteq> rid"
    and "\<And>i. i \<noteq> rid \<Longrightarrow> count_list (rm_calls y) i = count_list (rm_calls x) i" and "\<And>i. i \<noteq> rid \<Longrightarrow> i \<in> set (rm_submits y) \<longleftrightarrow> i \<in> set (rm_submits x)"
    and "\<And>i. i \<noteq> rid \<Longrightarrow> i \<in> set (rm_reports y) \<longleftrightarrow> i \<in> set (rm_reports x)" and "rm_polls y = rm_polls x" and "rm_drafts y = rm_drafts x"
  shows "entry_ok made y q"
proof -
  have "mrv_id q \<in> set (rm_calls y) \<longleftrightarrow> mrv_id q \<in> set (rm_calls x)" using assms(2,3) by (metis count_list_0_iff)
  then have "phase_ok x (mrv_id q) st job \<Longrightarrow> phase_ok y (mrv_id q) st job" for st job
    using assms(2-6) unfolding phase_ok_def by simp
  then show ?thesis using assms(1,7) by (simp add: entry_ok_def submits_ok_def pending_ok_def)
qed

lemma set_remove1_other: "i \<noteq> rid \<Longrightarrow> i \<in> set (remove1 rid xs) \<longleftrightarrow> i \<in> set xs"
  by (induction xs) auto

lemma submit_ok:
  assumes "room_ok configured made x" and "configured" and "submit_begin rid (rm_desk x) = Inr k"
  shows "room_ok configured made (x\<lparr>rm_desk := k, rm_submits := rid # rm_submits x, rm_calls := rid # rm_calls x\<rparr>)"
  using assms(3)
proof (cases rule: submit_begin_cases)
  case (1 r)
  let ?r = "bumped (r\<lparr>mrv_status := RS_SUBMITTING\<rparr>)"
  let ?y = "x\<lparr>rm_desk := k, rm_submits := rid # rm_submits x, rm_calls := rid # rm_calls x\<rparr>"
  have e: "entry_ok made x r" "mrv_id r = rid" using room_ok_find [OF assms(1) 1(1)] by simp_all
  have ph: "phase_ok x rid RS_QUEUED False" using e 1(2,3) by (simp add: entry_ok_def submits_ok_def)
  then have new: "rid \<notin> set (rm_calls x)" "rid \<notin> set (rm_submits x)" by (auto simp: phase_ok_def)
  then have "phase_ok ?y rid RS_SUBMITTING False" using ph by (auto simp: phase_ok_def count_list_0_iff)
  then have "submits_ok ?y ?r" using e(2) 1(3) by (simp add: submits_ok_def)
  moreover have "pending_ok ?y ?r" using pending_ok_bump [of x r ?r] e(1) by (simp add: entry_ok_def pending_ok_def)
  ultimately have entry: "entry_ok made ?y ?r" using e(1) by (simp add: entry_ok_def draft_ok_def speakers_ok_def mappings_of_def)
  show ?thesis
  proof (rule room_change [OF assms(1) 1(1) _ _ entry])
    show "entry_ok made ?y q" if "mrv_id q \<noteq> rid" "entry_ok made x q" for q
      using entry_ok_lists [OF that(2,1), of ?y] by simp
    have ids: "mrv_id ` set (meeting_reviews k) = mrv_id ` set (meeting_reviews (rm_desk x))" using 1(4) by (metis map_key_put_row meeting_reviews_put set_map)
    have "rid \<in> mrv_id ` set (meeting_reviews (rm_desk x))" using find_review_mem [OF 1(1)] e(2) by blast
    then show "lists_ok configured x \<Longrightarrow> lists_ok configured ?y" using ids new(2) assms(2) by (simp add: lists_ok_def)
  qed (use 1(4) e(2) in simp_all)
qed

lemma accepted_ok:
  assumes "room_ok configured made x" and "rid \<in> set (rm_submits x)" and "job \<noteq> []" and "submit_accepted rid job (rm_desk x) = Inr (r', k)"
  shows "room_ok configured made (x\<lparr>rm_desk := k, rm_submits := remove1 rid (rm_submits x)\<rparr>)"
  using assms(4)
proof (cases rule: submit_accepted_cases)
  case (1 r)
  let ?y = "x\<lparr>rm_desk := k, rm_submits := remove1 rid (rm_submits x)\<rparr>"
  have e: "entry_ok made x r" "mrv_id r = rid" using room_ok_find [OF assms(1) 1(1)] by simp_all
  have "distinct (rm_submits x)" using assms(1) by (simp add: room_ok_def lists_ok_def)
  then have gone: "rid \<notin> set (remove1 rid (rm_submits x))" by simp
  have "phase_ok x rid RS_SUBMITTING (has_job r)" using e 1(2) by (simp add: entry_ok_def submits_ok_def)
  then have "phase_ok ?y rid RS_PROCESSING True" using gone by (auto simp: phase_ok_def)
  moreover have "has_job r'" using 1(3) assms(3) by (simp add: has_job_def)
  ultimately have "submits_ok ?y r'" using e(2) 1(3) by (simp add: submits_ok_def)
  moreover have "pending_ok ?y r'" using pending_ok_bump [of x r r'] e(1) 1(3) by (simp add: entry_ok_def pending_ok_def)
  ultimately have entry: "entry_ok made ?y r'" using e(1) 1(3) by (simp add: entry_ok_def draft_ok_def speakers_ok_def mappings_of_def)
  show ?thesis
  proof (rule room_change [OF assms(1) 1(1) _ _ entry])
    show "entry_ok made ?y q" if "mrv_id q \<noteq> rid" "entry_ok made x q" for q
      using entry_ok_lists [OF that(2,1), of ?y] by (simp add: set_remove1_other)
    have ids: "mrv_id ` set (meeting_reviews k) = mrv_id ` set (meeting_reviews (rm_desk x))" using 1(4) by (metis map_key_put_row meeting_reviews_put set_map)
    then show "lists_ok configured x \<Longrightarrow> lists_ok configured ?y" using set_remove1_subset [of rid "rm_submits x"] by (auto simp: lists_ok_def)
  qed (use 1(3,4) e(2) in simp_all)
qed

lemma unknown_ok:
  assumes "room_ok configured made x" and "rid \<in> set (rm_submits x)"
  shows "room_ok configured made (x\<lparr>rm_desk := submit_failed rid code (rm_desk x), rm_submits := remove1 rid (rm_submits x), rm_reports := rid # rm_reports x\<rparr>)"
    (is "room_ok configured made ?y")
proof -
  have "rid \<in> mrv_id ` set (meeting_reviews (rm_desk x))" using assms by (auto simp: room_ok_def lists_ok_def)
  then obtain r where r: "find_review (rm_desk x) rid = Some r" using get_row_None_iff [of mrv_id "meeting_reviews (rm_desk x)" rid]
    by (cases "find_review (rm_desk x) rid") (auto simp: find_review_def)
  have e: "entry_ok made x r" "mrv_id r = rid" using room_ok_find [OF assms(1) r] by simp_all
  have ph: "phase_ok x rid (mrv_status r) (has_job r)" using e by (simp add: entry_ok_def submits_ok_def)
  then have st: "mrv_status r = RS_SUBMITTING" using assms(2) by (auto simp: phase_ok_def)
  define r' where "r' = bumped (r\<lparr>mrv_status := RS_SUBMISSION_UNKNOWN, mrv_error_code := Some (provider_error_code code)\<rparr>)"
  have k: "submit_failed rid code (rm_desk x) = put_review r' (rm_desk x)" using r st by (simp add: submit_failed_def r'_def)
  have "distinct (rm_submits x)" using assms(1) by (simp add: room_ok_def lists_ok_def)
  then have gone: "rid \<notin> set (remove1 rid (rm_submits x))" by simp
  have "phase_ok ?y rid RS_SUBMISSION_UNKNOWN (has_job r)" using ph st gone by (auto simp: phase_ok_def)
  then have "submits_ok ?y r'" using e(2) by (simp add: submits_ok_def r'_def)
  moreover have "pending_ok ?y r'" using pending_ok_bump [of x r r'] e(1) by (simp add: entry_ok_def pending_ok_def r'_def)
  ultimately have entry: "entry_ok made ?y r'" using e(1) by (simp add: entry_ok_def draft_ok_def speakers_ok_def mappings_of_def r'_def)
  show ?thesis
  proof (rule room_change [OF assms(1) r _ _ entry])
    show "entry_ok made ?y q" if "mrv_id q \<noteq> rid" "entry_ok made x q" for q
      using entry_ok_lists [OF that(2,1), of ?y] by (simp add: set_remove1_other)
    have ids: "mrv_id ` set (meeting_reviews (put_review r' (rm_desk x))) = mrv_id ` set (meeting_reviews (rm_desk x))"
      by (metis map_key_put_row meeting_reviews_put set_map)
    then show "lists_ok configured x \<Longrightarrow> lists_ok configured ?y"
      using set_remove1_subset [of rid "rm_submits x"] assms(2) by (auto simp: lists_ok_def k)
  qed (use e(2) in \<open>simp_all add: k r'_def\<close>)
qed

lemma room_shrink:
  assumes "room_ok configured made x" and "set (rm_submits y) \<subseteq> set (rm_submits x)" and "distinct (rm_submits y)" and "set (rm_reports y) \<subseteq> set (rm_reports x)"
    and "set (rm_polls y) \<subseteq> set (rm_polls x)" and "rm_desk y = rm_desk x" and "rm_calls y = rm_calls x" and "rm_drafts y = rm_drafts x"
  shows "room_ok configured made y"
proof -
  have polls: "i \<in> fst ` set (rm_polls x)" if "i \<in> fst ` set (rm_polls y)" for i using that assms(5) by blast
  have "phase_ok y i st job" if "phase_ok x i st job" for i st job
    using that assms(2,4,7) polls [of i] unfolding phase_ok_def by (simp add: subset_iff)
  then have "entry_ok made y r" if "entry_ok made x r" for r
    using that assms(8) by (simp add: entry_ok_def submits_ok_def pending_ok_def)
  moreover have "lists_ok configured y"
  proof -
    have l: "lists_ok configured x" using assms(1) by (simp add: room_ok_def)
    then have none: "\<not> configured \<longrightarrow> rm_calls y = [] \<and> rm_submits y = [] \<and> rm_polls y = []" using assms(2,5,7) by (auto simp: lists_ok_def)
    have "set (rm_calls y) \<union> set (rm_submits y) \<union> set (rm_reports y) \<union> fst ` set (rm_polls y) \<union> (\<lambda>(i, rid, v, ts). rid) ` set (rm_drafts y)
       \<subseteq> set (rm_calls x) \<union> set (rm_submits x) \<union> set (rm_reports x) \<union> fst ` set (rm_polls x) \<union> (\<lambda>(i, rid, v, ts). rid) ` set (rm_drafts x)"
      using assms(2,4,7,8) image_mono [OF assms(5), of fst] by (intro Un_mono) simp_all
    also have "\<dots> \<subseteq> mrv_id ` set (meeting_reviews (rm_desk y))" using l unfolding lists_ok_def assms(6) by (elim conjE)
    finally show ?thesis unfolding lists_ok_def using none assms(3) by (intro conjI)
  qed
  ultimately show ?thesis using assms(1,6) by (simp add: room_ok_def)
qed

lemma start_ok:
  assumes "room_ok configured made x" and "start_review g i by' (rm_desk x) = Inr (r, k)"
  shows "room_ok configured made (x\<lparr>rm_desk := k\<rparr>)"
  using assms(2)
proof (cases rule: start_review_cases)
  case Same
  then show ?thesis using assms(1) by simp
next
  case Fresh
  have l: "lists_ok configured x" using assms(1) by (simp add: room_ok_def)
  then have unused: "mrv_id r \<notin> set (rm_calls x)" "mrv_id r \<notin> set (rm_submits x)" "mrv_id r \<notin> set (rm_reports x)"
    "mrv_id r \<notin> fst ` set (rm_polls x)" "mrv_id r \<notin> (\<lambda>(i, rid, v, ts). rid) ` set (rm_drafts x)"
    using Fresh(1) unfolding lists_ok_def by blast+
  have "phase_ok x (mrv_id r) RS_QUEUED False" using unused by (auto simp: phase_ok_def count_list_0_iff)
  then have "submits_ok x r" using Fresh(3,4) by (simp add: submits_ok_def has_job_def)
  moreover have "pending_ok x r" using unused(5) unfolding pending_ok_def by (auto simp: image_iff)
  ultimately have "entry_ok made x r" using Fresh(3,5) by (simp add: entry_ok_def draft_ok_def speakers_ok_def mappings_of_def)
  moreover have "entry_ok made (x\<lparr>rm_desk := k\<rparr>) q \<longleftrightarrow> entry_ok made x q" for q
    by (simp add: entry_ok_def submits_ok_def phase_ok_def pending_ok_def)
  ultimately show ?thesis using assms(1) Fresh(1,2) by (auto simp: room_ok_def lists_ok_def)
qed

lemma poll_begun_ok:
  assumes "room_ok configured made x" and "configured" and "poll_begin rid (rm_desk x) = Inr job"
  shows "room_ok configured made (x\<lparr>rm_polls := (rid, job) # rm_polls x\<rparr>)" (is "room_ok configured made ?y")
proof -
  obtain r where r: "find_review (rm_desk x) rid = Some r" "has_job r" using poll_begin_job [OF assms(3)] by blast
  have "entry_ok made ?y q" if q: "q \<in> set (meeting_reviews (rm_desk x))" for q
  proof -
    have e: "entry_ok made x q" using assms(1) q by (simp add: room_ok_def)
    have "has_job q" if "mrv_id q = rid"
      using get_row_distinct [of mrv_id "meeting_reviews (rm_desk x)" q] assms(1) q r that by (simp add: room_ok_def find_review_def)
    then have "phase_ok ?y (mrv_id q) (mrv_status q) (has_job q)" using e unfolding entry_ok_def submits_ok_def phase_ok_def by auto
    then show ?thesis using e by (simp add: entry_ok_def submits_ok_def pending_ok_def)
  qed
  moreover have "rid \<in> mrv_id ` set (meeting_reviews (rm_desk x))" using find_review_mem [OF r(1)] find_review_id [OF r(1)] by blast
  ultimately show ?thesis using assms(1,2) by (simp add: room_ok_def lists_ok_def)
qed

lemma draft_begun_ok:
  assumes "room_ok configured made x" and "draft_begin i v (rm_desk x) = Inr (rid, ts)"
  shows "room_ok configured made (x\<lparr>rm_drafts := (i, rid, v, ts) # rm_drafts x\<rparr>)" (is "room_ok configured made ?y")
  using assms(2)
proof (cases rule: draft_begin_cases)
  case (1 r ss)
  have f: "find_review (rm_desk x) rid = Some r" using get_review_find [OF 1(1)] assms(1) 1(2) by (simp add: room_ok_def)
  have "entry_ok made ?y q" if q: "q \<in> set (meeting_reviews (rm_desk x))" for q
  proof -
    have e: "entry_ok made x q" using assms(1) q by (simp add: room_ok_def)
    have "q = r" if "mrv_id q = rid"
      using get_row_distinct [of mrv_id "meeting_reviews (rm_desk x)" q] assms(1) q f that by (simp add: room_ok_def find_review_def)
    then have "pending_ok ?y q" using e 1(3,4) unfolding entry_ok_def pending_ok_def by auto
    then show ?thesis using e by (simp add: entry_ok_def submits_ok_def phase_ok_def)
  qed
  moreover have "rid \<in> mrv_id ` set (meeting_reviews (rm_desk x))" using find_review_mem [OF f] 1(2) by blast
  ultimately show ?thesis using assms(1) by (simp add: room_ok_def lists_ok_def)
qed

lemma room_step_ok:
  assumes "room_step configured made x y" and "room_ok configured made x"
  shows "room_ok configured made y"
  using assms(1)
proof cases
  case (Not_Configured rid res k)
  then show ?thesis using not_configured_desk [OF Not_Configured(3)] room_fail [OF assms(2)] assms(2) by auto
next
  case (Unknown_Reported rid code res k)
  have "room_ok configured made (x\<lparr>rm_desk := k\<rparr>)" using report_desk [OF Unknown_Reported(3)] room_fail [OF assms(2)] Unknown_Reported(2) assms(2) by auto
  then show ?thesis unfolding Unknown_Reported(1)
    by (rule room_shrink) (use assms(2) in \<open>simp_all add: set_remove1_subset room_ok_def lists_ok_def\<close>)
next
  case (Call_Lost rid rid')
  show ?thesis unfolding Call_Lost using assms(2)
    by (rule room_shrink) (use assms(2) in \<open>simp_all add: set_remove1_subset room_ok_def lists_ok_def\<close>)
next
  case (Poll_Failed rid job code r k)
  have "rid \<in> fst ` set (rm_polls x)" using Poll_Failed(2) by force
  then show ?thesis using room_fail [OF assms(2) Poll_Failed(3)] Poll_Failed(1) by simp
next
  case (Poll_Finished rid job turns duration res k)
  have "rid \<in> fst ` set (rm_polls x)" using Poll_Finished(2) by force
  then have "room_ok configured made (x\<lparr>rm_desk := k\<rparr>)"
    using poll_finish_desk [OF Poll_Finished(3)] room_fail [OF assms(2)] apply_ok [OF assms(2)] assms(2) by (metis room_same)
  then show ?thesis unfolding Poll_Finished(1)
    by (rule room_shrink) (use assms(2) in \<open>simp_all add: set_remove1_subset room_ok_def lists_ok_def\<close>)
qed (use assms(2) in \<open>auto intro: start_ok room_retry_ok submit_ok accepted_ok unknown_ok poll_begun_ok set_names_ok draft_begun_ok draft_finish_ok
    candidates_ok room_same\<close>)

lemma room_run_ok: "(room_step configured made)\<^sup>*\<^sup>* x y \<Longrightarrow> room_ok configured made x \<Longrightarrow> room_ok configured made y"
  by (induction rule: rtranclp_induct) (auto intro: room_step_ok)

section \<open>What was taken over stays\<close>

lemma taken_put:
  assumes "find_review k i = Some r" and "taken r" and "find_review k j = Some q" and "mrv_id q' = j"
    and "taken q \<Longrightarrow> candidate_part q' = candidate_part q" and "meeting_reviews k' = put_row mrv_id q' (meeting_reviews k)"
  shows "\<exists>r'. find_review k' i = Some r' \<and> candidate_part r' = candidate_part r"
proof -
  have "find_review k' i = (if i = j then Some q' else find_review k i)"
    using get_put_row [of mrv_id "meeting_reviews k" q' q i] assms(3,4,6) by (simp add: find_review_def)
  then show ?thesis using assms(1-3,5) by auto
qed

text \<open>An operation keeps what was taken over.\<close>

definition keeps_taken :: "desk \<Rightarrow> desk \<Rightarrow> bool" where
  "keeps_taken k k' \<longleftrightarrow>
     (\<forall>i r. find_review k i = Some r \<longrightarrow> taken r \<longrightarrow> (\<exists>r'. find_review k' i = Some r' \<and> candidate_part r' = candidate_part r))"

lemma keeps_same: "meeting_reviews k' = meeting_reviews k \<Longrightarrow> keeps_taken k k'"
  by (simp add: keeps_taken_def find_review_def)

lemma keeps_put:
  assumes "find_review k j = Some q" and "mrv_id q' = j" and "taken q \<Longrightarrow> candidate_part q' = candidate_part q"
    and "meeting_reviews k' = put_row mrv_id q' (meeting_reviews k)"
  shows "keeps_taken k k'"
  using taken_put [OF _ _ assms] unfolding keeps_taken_def by blast

lemma keeps_moved:
  assumes "find_review k j = Some q" and "mrv_id q' = mrv_id q" and "candidate_part q' = candidate_part q"
  shows "keeps_taken k (put_review q' k)"
  using assms find_review_id [OF assms(1)] by (intro keeps_put [OF assms(1)]) simp_all

lemma fail_taken: "fail_diarization j code k = Inr (q', k') \<Longrightarrow> keeps_taken k k'"
  by (erule fail_cases) (simp add: keeps_same, simp, rule keeps_moved, assumption, simp_all add: candidate_part_def)

lemma retry_taken:
  assumes "retry_diarization j k = Inr (q', k')"
  shows "keeps_taken k k'"
  using assms
proof (cases rule: retry_cases)
  case (Moved q)
  then show ?thesis using keeps_moved [OF Moved(1), of q'] by (simp add: candidate_part_def)
qed (simp add: keeps_same)

lemma apply_taken: "apply_diarization j job turns dur k = Inr (q', k') \<Longrightarrow> keeps_taken k k'"
  by (erule apply_cases) (simp, rule keeps_moved, assumption, simp_all add: candidate_part_def)

lemma submit_taken: "submit_begin j k = Inr k' \<Longrightarrow> keeps_taken k k'"
  by (erule submit_begin_cases) (simp, rule keeps_moved, assumption, simp_all add: candidate_part_def)

lemma accepted_taken: "submit_accepted j job k = Inr (q', k') \<Longrightarrow> keeps_taken k k'"
  by (erule submit_accepted_cases) (simp, rule keeps_moved, assumption, simp_all add: candidate_part_def)

lemma unknown_taken: "keeps_taken k (submit_failed j code k)"
proof (cases "find_review k j")
  case (Some r)
  then show ?thesis by (auto simp: submit_failed_def candidate_part_def keeps_same intro: keeps_moved [OF Some])
qed (simp add: submit_failed_def keeps_same)

lemma start_taken:
  assumes "start_review g m by' k = Inr (q, k')"
  shows "keeps_taken k k'"
  using assms
proof (cases rule: start_review_cases)
  case Fresh
  then show ?thesis by (simp add: keeps_taken_def find_review_def get_row_append)
qed (simp add: keeps_same)

lemma names_taken:
  assumes "set_names m v names ms k = Inr (q', k')" and "distinct (map mrv_id (meeting_reviews k))"
  shows "keeps_taken k k'"
  using assms(1)
proof (cases rule: set_names_cases)
  case (1 q ns mapped rows)
  then show ?thesis by (intro keeps_put [OF get_review_find [OF 1(1) assms(2)], of q']) (simp_all add: candidate_part_def)
qed

lemma draft_taken:
  assumes "draft_finish m rid v d k = Inr (q', k')" and "distinct (map mrv_id (meeting_reviews k))"
  shows "keeps_taken k k'"
  using assms(1)
proof (cases rule: draft_finish_cases)
  case (1 q)
  then show ?thesis by (intro keeps_put [OF get_review_find [OF 1(1) assms(2)], of q']) (simp_all add: candidate_part_def)
qed

lemma save_taken:
  assumes "save_candidates g now hash_of rid v req cs by' k = Inr (ts, k')"
  shows "keeps_taken k k'"
  using assms
proof (cases rule: save_candidates_cases)
  case (Fresh q)
  then show ?thesis using find_review_id [OF Fresh(1)] by (intro keeps_put [OF Fresh(1) _ _ Fresh(6)]) simp_all
qed (simp add: keeps_same)

lemma step_taken:
  assumes "room_step configured made x y" and "room_ok configured made x"
  shows "keeps_taken (rm_desk x) (rm_desk y)"
  using assms(1)
proof cases
  case (Not_Configured rid res k)
  then show ?thesis using not_configured_desk [OF Not_Configured(3)] by (auto intro: fail_taken keeps_same)
next
  case (Unknown_Reported rid code res k)
  then show ?thesis using report_desk [OF Unknown_Reported(3)] by (auto intro: fail_taken keeps_same)
next
  case (Poll_Finished rid job turns duration res k)
  then show ?thesis using poll_finish_desk [OF Poll_Finished(3)] by (auto intro: fail_taken apply_taken keeps_same)
qed (use assms(2) in \<open>auto simp: room_ok_def intro: keeps_same start_taken retry_taken submit_taken accepted_taken unknown_taken fail_taken
    names_taken draft_taken save_taken\<close>)

lemma run_taken:
  assumes "(room_step configured made)\<^sup>*\<^sup>* x y" and "room_ok configured made x" and "find_review (rm_desk x) i = Some r" and "taken r"
  shows "\<exists>r'. find_review (rm_desk y) i = Some r' \<and> candidate_part r' = candidate_part r"
  using assms(1)
proof (induction rule: rtranclp_induct)
  case base
  then show ?case using assms(3) by blast
next
  case (step y z)
  obtain r' where r': "find_review (rm_desk y) i = Some r'" "candidate_part r' = candidate_part r" using step.IH by blast
  then have "taken r'" using assms(4) by (simp add: taken_def candidate_part_def)
  then show ?case using step_taken [OF step.hyps(2) room_run_ok [OF step.hyps(1) assms(2)]] r' unfolding keeps_taken_def by fastforce
qed

end
