(* ===== verification/Meeting_Talk.thy ===== *)
theory Meeting_Talk
  imports Meeting_Review
begin

text \<open>
  A meeting while it is recorded: utterances are transcribed, corrected and judged by requests that
  interleave. A run keeps the judgements whose models have not answered (\<open>tl_calls\<close>) and those whose
  extraction is still running (\<open>tl_open\<close>).
\<close>

record talk =
  tl_desk :: desk
  tl_calls :: "live_call list"
  tl_open :: "live_judgment list"

text \<open>\<open>Segment_Saved\<close> reads the meeting under the lock; \<open>Beside\<close> is any request on other tables.\<close>

inductive talk_step :: "talk \<Rightarrow> talk \<Rightarrow> bool" where
  Meeting_Created: "create_meeting g now club eid title lang consent by' (tl_desk x) = Inr (m, k) \<Longrightarrow> talk_step x (x\<lparr>tl_desk := k\<rparr>)"
| Meeting_Finished: "finish_meeting now rec club i (tl_desk x) = Inr (m, k) \<Longrightarrow> talk_step x (x\<lparr>tl_desk := k\<rparr>)"
| Status_Set: "set_stream_status now i st (tl_desk x) = Inr k \<Longrightarrow> talk_step x (x\<lparr>tl_desk := k\<rparr>)"
| Utterance_Begun: "begin_stream_utterance g sha now key i wav a b (tl_desk x) = Inr (cid, jid, k) \<Longrightarrow> talk_step x (x\<lparr>tl_desk := k\<rparr>)"
| Utterance_Failed: "fail_stream_stt now jid err (tl_desk x) = Inr k \<Longrightarrow> talk_step x (x\<lparr>tl_desk := k\<rparr>)"
| Utterance_Saved: "save_stream_transcript g now i cid jid text a b (tl_desk x) = Inr (res, k) \<Longrightarrow> talk_step x (x\<lparr>tl_desk := k\<rparr>)"
| Segment_Saved: "find_meeting (tl_desk x) i = Some m \<Longrightarrow> save_segment g m seq inp (tl_desk x) = Inr (s, k) \<Longrightarrow> talk_step x (x\<lparr>tl_desk := k\<rparr>)"
| Judge_Begun: "judge_begin g now iso_text i sid (tl_desk x) = Inr (lc, k) \<Longrightarrow> find_segment (tl_desk x) sid = Some s \<Longrightarrow> tsg_meeting_id s = i \<Longrightarrow>
    talk_step x (x\<lparr>tl_desk := k, tl_calls := lc # tl_calls x\<rparr>)"
| Judge_Finished: "lc \<in> set (tl_calls x) \<Longrightarrow> judge_finish g now lc lo ev (tl_desk x) = Inr (lj, k) \<Longrightarrow>
    talk_step x (x\<lparr>tl_desk := k, tl_calls := remove1 lc (tl_calls x), tl_open := lj # tl_open x\<rparr>)"
| Extraction_Finished: "lj \<in> set (tl_open x) \<Longrightarrow> extraction_finish g now ms lj ex (tl_desk x) = Inr k \<Longrightarrow>
    talk_step x (x\<lparr>tl_desk := k, tl_open := remove1 lj (tl_open x)\<rparr>)"
| Beside: "segments k = segments (tl_desk x) \<Longrightarrow> meetings k = meetings (tl_desk x) \<Longrightarrow> decisions k = decisions (tl_desk x) \<Longrightarrow>
    talk_step x (x\<lparr>tl_desk := k\<rparr>)"

section \<open>Transcripts and cursors\<close>

text \<open>What a client sees of a segment, its decision job aside.\<close>

definition visible :: "transcript_segment \<Rightarrow> transcript_segment" where
  "visible s = s\<lparr>tsg_decision_job_id := None\<rparr>"

definition cursors_ok :: "desk \<Rightarrow> bool" where
  "cursors_ok k \<longleftrightarrow>
     distinct (map tsg_id (segments k)) \<and> distinct (map mtg_id (meetings k)) \<and>
     (\<forall>s \<in> set (segments k). \<exists>m. find_meeting k (tsg_meeting_id s) = Some m \<and> tsg_change_seq s \<le> mtg_transcript_cursor m)"

text \<open>
  From one state to a later one: meetings stay and their cursors do not fall, segments stay, and a segment
  that is new or different carries a number above the cursor its meeting had.
\<close>

definition continues_talk :: "desk \<Rightarrow> desk \<Rightarrow> bool" where
  "continues_talk k k' \<longleftrightarrow>
     (\<forall>i m. find_meeting k i = Some m \<longrightarrow> (\<exists>m'. find_meeting k' i = Some m' \<and> mtg_transcript_cursor m \<le> mtg_transcript_cursor m')) \<and>
     (\<forall>s \<in> set (segments k'). visible s \<in> visible ` set (segments k) \<or>
        (\<forall>m. find_meeting k (tsg_meeting_id s) = Some m \<longrightarrow> mtg_transcript_cursor m < tsg_change_seq s))"

lemma talk_continues_refl: "continues_talk k k"
  by (auto simp: continues_talk_def)

lemma visible_simps [simp]:
  "tsg_meeting_id (visible s) = tsg_meeting_id s" "tsg_change_seq (visible s) = tsg_change_seq s" "tsg_id (visible s) = tsg_id s"
  "tsg_version (visible s) = tsg_version s"
  by (simp_all add: visible_def)

lemma visible_eqD:
  "visible s = visible t \<Longrightarrow> tsg_meeting_id s = tsg_meeting_id t \<and> tsg_change_seq s = tsg_change_seq t \<and> tsg_id s = tsg_id t \<and> tsg_version s = tsg_version t"
  by (metis visible_simps)

lemma continues_trans:
  assumes "continues_talk k k'" and "continues_talk k' k''"
  shows "continues_talk k k''"
proof -
  have m: "\<exists>m'. find_meeting k'' i = Some m' \<and> mtg_transcript_cursor m \<le> mtg_transcript_cursor m'" if "find_meeting k i = Some m" for i m
    using assms that unfolding continues_talk_def by (meson order_trans)
  have "visible s \<in> visible ` set (segments k) \<or> mtg_transcript_cursor m < tsg_change_seq s"
    if s: "s \<in> set (segments k'')" and f: "find_meeting k (tsg_meeting_id s) = Some m" for s m
  proof (cases "visible s \<in> visible ` set (segments k')")
    case True
    then obtain t where t: "t \<in> set (segments k')" "visible s = visible t" by auto
    then show ?thesis using assms(1) f visible_eqD [OF t(2)] unfolding continues_talk_def by metis
  next
    case False
    obtain m' where m': "find_meeting k' (tsg_meeting_id s) = Some m'" "mtg_transcript_cursor m \<le> mtg_transcript_cursor m'"
      using assms(1) f unfolding continues_talk_def by blast
    then have "mtg_transcript_cursor m' < tsg_change_seq s" using assms(2) s False unfolding continues_talk_def by blast
    then show ?thesis using m'(2) by simp
  qed
  then show ?thesis using m unfolding continues_talk_def by blast
qed

text \<open>Operations that leave segments as they are seen and meetings with their cursors.\<close>

lemma continues_quiet:
  assumes "map visible (segments k') = map visible (segments k)"
    and "\<And>i m. find_meeting k i = Some m \<Longrightarrow> \<exists>m'. find_meeting k' i = Some m' \<and> mtg_transcript_cursor m' = mtg_transcript_cursor m"
  shows "continues_talk k k'"
proof -
  have "visible ` set (segments k') = visible ` set (segments k)" using assms(1) by (metis set_map)
  then show ?thesis using assms(2) unfolding continues_talk_def by fastforce
qed

lemma cursors_quiet:
  assumes "cursors_ok k" and "map visible (segments k') = map visible (segments k)" and "distinct (map mtg_id (meetings k'))"
    and "\<And>i m. find_meeting k i = Some m \<Longrightarrow> \<exists>m'. find_meeting k' i = Some m' \<and> mtg_transcript_cursor m' = mtg_transcript_cursor m"
  shows "cursors_ok k'"
proof -
  have "map tsg_id (segments k') = map tsg_id (segments k)" using arg_cong [OF assms(2), of "map tsg_id"] by (simp add: comp_def)
  moreover have "\<exists>m. find_meeting k' (tsg_meeting_id s) = Some m \<and> tsg_change_seq s \<le> mtg_transcript_cursor m" if s: "s \<in> set (segments k')" for s
  proof -
    have "visible s \<in> visible ` set (segments k)" using s assms(2) by (metis image_eqI set_map)
    then obtain t where t: "t \<in> set (segments k)" "visible s = visible t" by auto
    then obtain m where "find_meeting k (tsg_meeting_id s) = Some m" "tsg_change_seq s \<le> mtg_transcript_cursor m"
      using assms(1) visible_eqD [OF t(2)] unfolding cursors_ok_def by metis
    then show ?thesis using assms(4) by force
  qed
  ultimately show ?thesis using assms(1,3) by (simp add: cursors_ok_def)
qed

lemma quiet_same: "meetings k' = meetings k \<Longrightarrow> find_meeting k i = Some m \<Longrightarrow> \<exists>m'. find_meeting k' i = Some m' \<and> mtg_transcript_cursor m' = mtg_transcript_cursor m"
  by (simp add: find_meeting_def)

lemma quiet_put:
  assumes "find_meeting k j = Some q" and "mtg_id q' = j" and "mtg_transcript_cursor q' = mtg_transcript_cursor q" and "find_meeting k i = Some m"
  shows "\<exists>m'. find_meeting (put_meeting q' k) i = Some m' \<and> mtg_transcript_cursor m' = mtg_transcript_cursor m"
  using meeting_table.get_put [of k q' q i] assms by auto

lemma visible_put_row:
  assumes "distinct (map tsg_id ss)" and "s \<in> set ss" and "visible s' = visible s"
  shows "map visible (put_row tsg_id s' ss) = map visible ss"
proof -
  have id: "tsg_id s' = tsg_id s" using visible_eqD [OF assms(3)] by simp
  have "visible (if tsg_id t = tsg_id s' then s' else t) = visible t" if "t \<in> set ss" for t
  proof (cases "tsg_id t = tsg_id s'")
    case True
    then have "tsg_id t = tsg_id s" using id by (rule trans)
    then have "Some t = Some s" by (metis get_row_distinct assms(1,2) that)
    then show ?thesis using assms(3) True by simp
  qed simp
  then show ?thesis by (simp add: put_row_def)
qed

lemma find_set_cursor:
  "find_meeting (set_cursor i c k) j = map_option (\<lambda>m. if mtg_id m = i then m\<lparr>mtg_transcript_cursor := c\<rparr> else m) (find_meeting k j)"
  unfolding find_meeting_def set_cursor_def by (simp, rule get_row_map) simp

lemma ids_set_cursor: "map mtg_id (meetings (set_cursor i c k)) = map mtg_id (meetings k)"
  by (auto simp: set_cursor_def)

text \<open>What a save does to the segments, and that it raises the cursor of its meeting by one.\<close>

lemma save_segment_cases:
  assumes "save_segment g m seq inp k = Inr (s, k')"
  shows "meetings k' = meetings (set_cursor (mtg_id m) (mtg_transcript_cursor m + 1) k)"
    and "tsg_meeting_id s = mtg_id m" and "tsg_change_seq s = mtg_transcript_cursor m + 1"
    and "segments k' = segments k @ [s] \<and> tsg_id s \<notin> tsg_id ` set (segments k) \<and> decisions k' = decisions k \<or>
      (\<exists>t \<in> set (segments k). tsg_id t = tsg_id s \<and> tsg_meeting_id t = mtg_id m \<and> segments k' = put_row tsg_id s (segments k) \<and>
         tsg_version s = tsg_version t + 1 \<and> decisions k' = decisions (mark_segment_decisions_stale (mtg_id m) (tsg_id s) k))"
proof -
  have "meetings k' = meetings (set_cursor (mtg_id m) (mtg_transcript_cursor m + 1) k) \<and> tsg_meeting_id s = mtg_id m \<and>
      tsg_change_seq s = mtg_transcript_cursor m + 1 \<and>
      (segments k' = segments k @ [s] \<and> tsg_id s \<notin> tsg_id ` set (segments k) \<and> decisions k' = decisions k \<or>
      (\<exists>t \<in> set (segments k). tsg_id t = tsg_id s \<and> tsg_meeting_id t = mtg_id m \<and> segments k' = put_row tsg_id s (segments k) \<and>
         tsg_version s = tsg_version t + 1 \<and> decisions k' = decisions (mark_segment_decisions_stale (mtg_id m) (tsg_id s) k)))"
  proof (cases "find_seq k (mtg_id m) seq")
    case None
    then show ?thesis using assms
      by (auto simp: save_segment_def Let_def and_then_eq_Inr insert_row_Inr draw_desk_def new_segment_def set_cursor_def)
  next
    case (Some t)
    then have t: "t \<in> set (segments k)" "tsg_meeting_id t = mtg_id m" by (auto simp: find_seq_def find_Some_iff)
    have s: "s = corrected_segment m inp t" and k': "k' = mark_segment_decisions_stale (mtg_id m) (tsg_id t)
        ((set_cursor (mtg_id m) (mtg_transcript_cursor m + 1) k)\<lparr>segments := put_row tsg_id s (segments k)\<rparr>)"
      using assms Some by (auto simp: save_segment_def Let_def split: if_splits)
    then show ?thesis using t by (auto simp: mark_segment_decisions_stale_def set_cursor_def corrected_segment_def)
  qed
  then show "meetings k' = meetings (set_cursor (mtg_id m) (mtg_transcript_cursor m + 1) k)" "tsg_meeting_id s = mtg_id m"
    "tsg_change_seq s = mtg_transcript_cursor m + 1"
    "segments k' = segments k @ [s] \<and> tsg_id s \<notin> tsg_id ` set (segments k) \<and> decisions k' = decisions k \<or>
      (\<exists>t \<in> set (segments k). tsg_id t = tsg_id s \<and> tsg_meeting_id t = mtg_id m \<and> segments k' = put_row tsg_id s (segments k) \<and>
         tsg_version s = tsg_version t + 1 \<and> decisions k' = decisions (mark_segment_decisions_stale (mtg_id m) (tsg_id s) k))"
    by blast+
qed

lemma save_segment_talk:
  assumes "save_segment g m seq inp k = Inr (s, k')" and "find_meeting k (mtg_id m) = Some m" and "cursors_ok k"
  shows "continues_talk k k' \<and> cursors_ok k'"
proof -
  note sv = save_segment_cases [OF assms(1)]
  have find: "find_meeting k' j = map_option (\<lambda>q. if mtg_id q = mtg_id m then q\<lparr>mtg_transcript_cursor := mtg_transcript_cursor m + 1\<rparr> else q) (find_meeting k j)" for j
    using find_set_cursor [of "mtg_id m" "mtg_transcript_cursor m + 1" k j] sv(1) by (simp add: find_meeting_def)
  have up: "\<exists>q'. find_meeting k' j = Some q' \<and> mtg_transcript_cursor q \<le> mtg_transcript_cursor q'" if q: "find_meeting k j = Some q" for j q
  proof (cases "mtg_id q = mtg_id m")
    case True
    then have "Some q = Some m" by (metis q assms(2) meeting_table.get_key)
    then have "q = m" by simp
    then show ?thesis using find [of j] q by simp
  qed (use find [of j] q in simp)
  have mem: "t = s \<or> t \<in> set (segments k) \<and> tsg_id t \<noteq> tsg_id s" if "t \<in> set (segments k')" for t
    using sv(4)
  proof
    assume "segments k' = segments k @ [s] \<and> tsg_id s \<notin> tsg_id ` set (segments k) \<and> decisions k' = decisions k"
    then show ?thesis using that by (metis Un_iff empty_iff empty_set image_eqI list.simps(15) set_append singletonD)
  qed (use that in \<open>auto elim!: put_row_memE\<close>)
  have at_m: "find_meeting k (tsg_meeting_id s) = Some q \<Longrightarrow> q = m" for q using sv(2) assms(2) by simp
  have "continues_talk k k'" unfolding continues_talk_def using up mem at_m sv(3) by fastforce
  moreover have "distinct (map tsg_id (segments k'))" using sv(4) assms(3) by (auto simp: cursors_ok_def)
  moreover have "\<exists>q. find_meeting k' (tsg_meeting_id t) = Some q \<and> tsg_change_seq t \<le> mtg_transcript_cursor q" if t: "t \<in> set (segments k')" for t
  proof (cases "t = s")
    case True
    then show ?thesis using find [of "mtg_id m"] assms(2) sv(2,3) by simp
  next
    case False
    then obtain q where "find_meeting k (tsg_meeting_id t) = Some q" "tsg_change_seq t \<le> mtg_transcript_cursor q"
      using mem [OF t] assms(3) unfolding cursors_ok_def by blast
    then show ?thesis using up by (meson order_trans)
  qed
  moreover have "distinct (map mtg_id (meetings k'))" using assms(3) sv(1) by (simp add: ids_set_cursor cursors_ok_def)
  ultimately show ?thesis by (simp add: cursors_ok_def)
qed

section \<open>Judgements\<close>

text \<open>
  A judgement that is shown as valid is about the current version of its utterances. A call under way knows
  the meeting of its segment, and one whose extraction runs knows the source of its decision.
\<close>

definition valid_decision :: "context_decision \<Rightarrow> bool" where
  "valid_decision c \<longleftrightarrow> cdc_status c \<in> {Decision_SUCCEEDED, Decision_PARTIAL}"

definition current_sources :: "desk \<Rightarrow> context_decision \<Rightarrow> bool" where
  "current_sources k c \<longleftrightarrow>
     (\<forall>src \<in> set (cdc_sources c). \<exists>s \<in> set (segments k). src = source_json (tsg_id s) (tsg_version s) \<and> cdc_meeting_id c = Some (tsg_meeting_id s))"

definition judged_ok :: "desk \<Rightarrow> bool" where
  "judged_ok k \<longleftrightarrow> distinct (map cdc_id (decisions k)) \<and>
     (\<forall>c \<in> set (decisions k). cdc_source_type c = MEETING_TRANSCRIPT \<and> valid_decision c \<longrightarrow> current_sources k c)"

definition calls_ok :: "talk \<Rightarrow> bool" where
  "calls_ok x \<longleftrightarrow>
     (\<forall>lc \<in> set (tl_calls x). \<exists>s. find_segment (tl_desk x) (lv_segment_id lc) = Some s \<and> tsg_meeting_id s = lv_meeting_id lc) \<and>
     (\<forall>lj \<in> set (tl_open x). \<exists>s c. find_segment (tl_desk x) (lj_segment_id lj) = Some s \<and>
        find_decision (tl_desk x) (lj_decision_id lj) = Some c \<and> cdc_meeting_id c = Some (tsg_meeting_id s) \<and>
        cdc_sources c = [source_json (lj_segment_id lj) (lj_source_version lj)])"

definition talk_ok :: "talk \<Rightarrow> bool" where
  "talk_ok x \<longleftrightarrow> cursors_ok (tl_desk x) \<and> judged_ok (tl_desk x) \<and> calls_ok x"

text \<open>Segments that stay in place with their meeting and version keep all of this.\<close>

definition places :: "desk \<Rightarrow> (ident \<times> ident \<times> int) list" where
  "places k = map (\<lambda>s. (tsg_id s, tsg_meeting_id s, tsg_version s)) (segments k)"

lemma visible_places:
  assumes "map visible (segments k') = map visible (segments k)"
  shows "places k' = places k"
proof -
  have "map (\<lambda>s. (tsg_id s, tsg_meeting_id s, tsg_version s)) (map visible (segments k')) =
      map (\<lambda>s. (tsg_id s, tsg_meeting_id s, tsg_version s)) (map visible (segments k))" using assms by (rule arg_cong)
  then show ?thesis by (simp add: places_def comp_def)
qed

lemma places_mem: "s \<in> set (segments k) \<Longrightarrow> (tsg_id s, tsg_meeting_id s, tsg_version s) \<in> set (places k)"
  by (force simp: places_def)

lemma current_sources_places:
  "current_sources k c \<longleftrightarrow>
     (\<forall>src \<in> set (cdc_sources c). \<exists>(i, m, v) \<in> set (places k). src = source_json i v \<and> cdc_meeting_id c = Some m)"
  by (fastforce simp: current_sources_def places_def)

lemma current_sources_cong:
  "set (places k) \<subseteq> set (places k') \<Longrightarrow> cdc_sources c' = cdc_sources c \<Longrightarrow> cdc_meeting_id c' = cdc_meeting_id c \<Longrightarrow>
   current_sources k c \<Longrightarrow> current_sources k' c'"
  unfolding current_sources_places by (simp, blast)

text \<open>Only the places of the segments matter to the calls.\<close>

lemma find_segment_place:
  assumes "find_segment k i = Some s" and "\<exists>v. (i, tsg_meeting_id s, v) \<in> set (places k')" and "distinct (map tsg_id (segments k'))"
  shows "\<exists>s'. find_segment k' i = Some s' \<and> tsg_meeting_id s' = tsg_meeting_id s"
proof -
  obtain s' where s': "s' \<in> set (segments k')" "tsg_id s' = i" "tsg_meeting_id s' = tsg_meeting_id s" using assms(2) by (auto simp: places_def)
  then show ?thesis using get_row_distinct [OF assms(3) s'(1)] by (auto simp: find_segment_def)
qed

lemma find_segment_mem: "find_segment k i = Some s \<Longrightarrow> s \<in> set (segments k) \<and> tsg_id s = i"
  using get_row_SomeD [of tsg_id "segments k" i s] by (simp add: find_segment_def)

lemma calls_ok_mono:
  assumes "calls_ok x" and "\<And>i m v. (i, m, v) \<in> set (places (tl_desk x)) \<Longrightarrow> \<exists>v'. (i, m, v') \<in> set (places (tl_desk y))"
    and "distinct (map tsg_id (segments (tl_desk y)))"
    and "\<And>i c. find_decision (tl_desk x) i = Some c \<Longrightarrow>
           \<exists>c'. find_decision (tl_desk y) i = Some c' \<and> cdc_sources c' = cdc_sources c \<and> cdc_meeting_id c' = cdc_meeting_id c"
    and "set (tl_calls y) \<subseteq> set (tl_calls x)" and "set (tl_open y) \<subseteq> set (tl_open x)"
  shows "calls_ok y"
proof -
  have seg: "\<exists>s'. find_segment (tl_desk y) i = Some s' \<and> tsg_meeting_id s' = tsg_meeting_id s" if "find_segment (tl_desk x) i = Some s" for i s
    using find_segment_place [OF that _ assms(3)] find_segment_mem [OF that] assms(2) places_mem by metis
  have "\<exists>s. find_segment (tl_desk y) (lv_segment_id lc) = Some s \<and> tsg_meeting_id s = lv_meeting_id lc" if "lc \<in> set (tl_calls y)" for lc
    using assms(1,5) that seg unfolding calls_ok_def by (metis subset_iff)
  moreover have "\<exists>s c. find_segment (tl_desk y) (lj_segment_id lj) = Some s \<and>
        find_decision (tl_desk y) (lj_decision_id lj) = Some c \<and> cdc_meeting_id c = Some (tsg_meeting_id s) \<and>
        cdc_sources c = [source_json (lj_segment_id lj) (lj_source_version lj)]" if lj: "lj \<in> set (tl_open y)" for lj
  proof -
    obtain s c where sc: "find_segment (tl_desk x) (lj_segment_id lj) = Some s" "find_decision (tl_desk x) (lj_decision_id lj) = Some c"
      "cdc_meeting_id c = Some (tsg_meeting_id s)" "cdc_sources c = [source_json (lj_segment_id lj) (lj_source_version lj)]"
      using assms(1,6) lj unfolding calls_ok_def by blast
    then show ?thesis using seg [OF sc(1)] assms(4) [OF sc(2)] by fastforce
  qed
  ultimately show ?thesis unfolding calls_ok_def by blast
qed

lemma talk_quiet:
  assumes "talk_ok x" and "map visible (segments (tl_desk y)) = map visible (segments (tl_desk x))" and "decisions (tl_desk y) = decisions (tl_desk x)"
    and "distinct (map mtg_id (meetings (tl_desk y)))"
    and "\<And>i m. find_meeting (tl_desk x) i = Some m \<Longrightarrow> \<exists>m'. find_meeting (tl_desk y) i = Some m' \<and> mtg_transcript_cursor m' = mtg_transcript_cursor m"
    and "set (tl_calls y) \<subseteq> set (tl_calls x)" and "set (tl_open y) \<subseteq> set (tl_open x)"
  shows "continues_talk (tl_desk x) (tl_desk y) \<and> talk_ok y"
proof -
  have c: "cursors_ok (tl_desk y)" using cursors_quiet [OF _ assms(2,4,5)] assms(1) by (simp add: talk_ok_def)
  have p: "places (tl_desk y) = places (tl_desk x)" by (rule visible_places [OF assms(2)])
  then have "current_sources (tl_desk y) d = current_sources (tl_desk x) d" for d by (simp add: current_sources_places)
  then have "judged_ok (tl_desk y)" using assms(1,3) by (simp add: talk_ok_def judged_ok_def)
  moreover have "calls_ok y"
    using assms(1) p c by (intro calls_ok_mono [OF _ _ _ _ assms(6,7)]) (auto simp: talk_ok_def cursors_ok_def find_decision_def assms(3))
  ultimately show ?thesis using c continues_quiet [OF assms(2,5)] by (simp add: talk_ok_def)
qed

lemma mark_stale_find:
  "find_decision (mark_segment_decisions_stale i sid k) j =
   map_option (\<lambda>c. if cdc_meeting_id c = Some i \<and> cdc_status c \<in> {Decision_SUCCEEDED, Decision_PARTIAL} \<and> from_source sid c
                    then c\<lparr>cdc_status := Decision_STALE\<rparr> else c) (find_decision k j)"
  unfolding find_decision_def mark_segment_decisions_stale_def by (simp, rule get_row_map) simp

lemma source_id_json: "source_id (source_json i v) = Some (lit i)"
  by (simp add: source_json_def)

lemma corrected_judged:
  assumes "judged_ok k" and "t \<in> set (segments k)" and "tsg_id t = tsg_id s" and "tsg_meeting_id t = i" and "tsg_meeting_id s = i"
    and "segments k' = put_row tsg_id s (segments k)" and "decisions k' = decisions (mark_segment_decisions_stale i (tsg_id s) k)"
    and "distinct (map tsg_id (segments k))"
  shows "judged_ok k'"
proof -
  have "current_sources k' c" if c: "c \<in> set (decisions k')" "cdc_source_type c = MEETING_TRANSCRIPT" "valid_decision c" for c
  proof -
    have c0: "c \<in> set (decisions k)" "\<not> (cdc_meeting_id c = Some i \<and> from_source (tsg_id s) c)"
      using c(1,3) assms(7) by (auto simp: mark_segment_decisions_stale_def valid_decision_def split: if_splits)
    then have cur: "current_sources k c" using assms(1) c(2,3) by (simp add: judged_ok_def)
    show ?thesis unfolding current_sources_def
    proof
      fix src assume src: "src \<in> set (cdc_sources c)"
      then obtain u where u: "u \<in> set (segments k)" "src = source_json (tsg_id u) (tsg_version u)" "cdc_meeting_id c = Some (tsg_meeting_id u)"
        using cur unfolding current_sources_def by blast
      have "tsg_id u \<noteq> tsg_id s"
      proof
        assume same: "tsg_id u = tsg_id s"
        then have "Some u = Some t" by (metis get_row_distinct assms(2,3,8) u(1))
        then have "cdc_meeting_id c = Some i" using u(3) assms(4) by simp
        moreover have "from_source (tsg_id s) c" using src u(2) same unfolding from_source_def list_ex_iff by (metis source_id_json)
        ultimately show False using c0(2) by blast
      qed
      then have "u \<in> set (segments k')" using u(1) assms(6) by (auto simp: put_row_def)
      then show "\<exists>s \<in> set (segments k'). src = source_json (tsg_id s) (tsg_version s) \<and> cdc_meeting_id c = Some (tsg_meeting_id s)" using u(2,3) by blast
    qed
  qed
  moreover have "distinct (map cdc_id (decisions k'))"
  proof -
    have "map cdc_id (decisions (mark_segment_decisions_stale i (tsg_id s) k)) = map cdc_id (decisions k)"
      by (auto simp: mark_segment_decisions_stale_def)
    then show ?thesis using assms(1,7) by (simp add: judged_ok_def)
  qed
  ultimately show ?thesis by (simp add: judged_ok_def)
qed

lemma talk_save:
  assumes "talk_ok x" and "find_meeting (tl_desk x) (mtg_id m) = Some m" and "save_segment g m seq inp (tl_desk x) = Inr (s, k)"
  shows "continues_talk (tl_desk x) k \<and> talk_ok (x\<lparr>tl_desk := k\<rparr>)"
proof -
  let ?k = "tl_desk x"
  have ok: "cursors_ok ?k" "judged_ok ?k" "calls_ok x" using assms(1) by (simp_all add: talk_ok_def)
  note sv = save_segment_cases [OF assms(3)] and tk = save_segment_talk [OF assms(3,2) ok(1)]
  have dist: "distinct (map tsg_id (segments ?k))" "distinct (map tsg_id (segments k))" using ok(1) tk by (simp_all add: cursors_ok_def)
  have res: "judged_ok k \<and> (\<forall>i q v. (i, q, v) \<in> set (places ?k) \<longrightarrow> (\<exists>v'. (i, q, v') \<in> set (places k))) \<and>
      (\<forall>i c. find_decision ?k i = Some c \<longrightarrow> (\<exists>c'. find_decision k i = Some c' \<and> cdc_sources c' = cdc_sources c \<and> cdc_meeting_id c' = cdc_meeting_id c))"
    using sv(4)
  proof
    assume new: "segments k = segments ?k @ [s] \<and> tsg_id s \<notin> tsg_id ` set (segments ?k) \<and> decisions k = decisions ?k"
    then have "set (places ?k) \<subseteq> set (places k)" by (auto simp: places_def)
    then show ?thesis using ok(2) new current_sources_cong [of ?k k] by (fastforce simp: judged_ok_def find_decision_def)
  next
    assume "\<exists>t \<in> set (segments ?k). tsg_id t = tsg_id s \<and> tsg_meeting_id t = mtg_id m \<and> segments k = put_row tsg_id s (segments ?k) \<and>
         tsg_version s = tsg_version t + 1 \<and> decisions k = decisions (mark_segment_decisions_stale (mtg_id m) (tsg_id s) ?k)"
    then obtain t where t: "t \<in> set (segments ?k)" "tsg_id t = tsg_id s" "tsg_meeting_id t = mtg_id m"
      "segments k = put_row tsg_id s (segments ?k)" "decisions k = decisions (mark_segment_decisions_stale (mtg_id m) (tsg_id s) ?k)" by blast
    have "\<exists>v'. (i, q, v') \<in> set (places k)" if p: "(i, q, v) \<in> set (places ?k)" for i q v
    proof -
      obtain u where u: "u \<in> set (segments ?k)" "i = tsg_id u" "q = tsg_meeting_id u" using p by (auto simp: places_def)
      show ?thesis
      proof (cases "i = tsg_id s")
        case True
        then have "Some u = Some t" by (metis get_row_distinct dist(1) t(1,2) u(1,2))
        then have "q = tsg_meeting_id s" using u(3) t(3) sv(2) by simp
        moreover have "s \<in> set (segments k)" using t(1,2,4) by (force simp: put_row_def)
        ultimately show ?thesis using places_mem [of s k] True by blast
      next
        case False
        then have "u \<in> set (segments k)" using u(1,2) t(4) by (auto simp: put_row_def)
        then show ?thesis using places_mem [of u k] u(2,3) by blast
      qed
    qed
    moreover have "\<exists>c'. find_decision k i = Some c' \<and> cdc_sources c' = cdc_sources c \<and> cdc_meeting_id c' = cdc_meeting_id c" if "find_decision ?k i = Some c" for i c
      using mark_stale_find [of "mtg_id m" "tsg_id s" ?k i] that t(5) by (simp add: find_decision_def)
    ultimately show ?thesis using corrected_judged [OF ok(2) t(1-3) sv(2) t(4,5) dist(1)] by blast
  qed
  have "calls_ok (x\<lparr>tl_desk := k\<rparr>)" by (rule calls_ok_mono [OF ok(3)]) (use res dist(2) in \<open>simp_all, blast\<close>)
  then show ?thesis using tk res by (simp add: talk_ok_def)
qed

text \<open>The transactions of a judgement.\<close>

lemma judge_begin_cases:
  assumes "judge_begin g now iso_text i sid k = Inr (lc, k')"
  obtains m s jid where "find_meeting k i = Some m" and "find_segment k sid = Some s" and "lv_meeting_id lc = i" and "lv_segment_id lc = sid"
    and "segments k' = put_row tsg_id (s\<lparr>tsg_decision_job_id := Some jid\<rparr>) (segments k)" and "meetings k' = meetings k" and "decisions k' = decisions k"
proof -
  obtain m s where ms: "find_meeting k i = Some m" "find_segment k sid = Some s" using assms
    by (auto simp: judge_begin_def split: option.splits)
  then obtain j d where jd: "create_job g (mtg_club_id m) Job_CONTEXT_DECISION None (base k) = Inr (j, d)"
    using assms by (auto simp: judge_begin_def and_then_eq_Inr)
  have "mtg_id m = i" using ms(1) meeting_table.get_key by blast
  then have "lv_meeting_id lc = i" "lv_segment_id lc = sid" "meetings k' = meetings k" "decisions k' = decisions k"
    "segments k' = put_row tsg_id (s\<lparr>tsg_decision_job_id := Some (jb_id j)\<rparr>) (segments k)"
    using assms ms jd by (auto simp: judge_begin_def Let_def put_segment_def split: option.splits)
  then show thesis using that ms by blast
qed

lemma segment_put_visible:
  assumes "cursors_ok k" and "find_segment k sid = Some s" and "segments k' = put_row tsg_id (s\<lparr>tsg_decision_job_id := j\<rparr>) (segments k)"
  shows "map visible (segments k') = map visible (segments k)"
proof -
  have "map visible (put_row tsg_id (s\<lparr>tsg_decision_job_id := j\<rparr>) (segments k)) = map visible (segments k)"
    using assms(1) find_segment_mem [OF assms(2)] by (intro visible_put_row) (auto simp: cursors_ok_def visible_def)
  then show ?thesis using assms(3) by simp
qed

lemma talk_judge_begin:
  assumes "talk_ok x" and "judge_begin g now iso_text i sid (tl_desk x) = Inr (lc, k)" and "find_segment (tl_desk x) sid = Some s" and "tsg_meeting_id s = i"
  shows "continues_talk (tl_desk x) k \<and> talk_ok (x\<lparr>tl_desk := k, tl_calls := lc # tl_calls x\<rparr>)"
  using assms(2)
proof (cases rule: judge_begin_cases)
  case (1 m s' jid)
  have c: "cursors_ok (tl_desk x)" using assms(1) by (simp add: talk_ok_def)
  have vis: "map visible (segments k) = map visible (segments (tl_desk x))" by (rule segment_put_visible [OF c 1(2,5)])
  have quiet: "continues_talk (tl_desk x) k \<and> talk_ok (x\<lparr>tl_desk := k\<rparr>)"
    using talk_quiet [of x "x\<lparr>tl_desk := k\<rparr>"] assms(1) vis 1(6,7) c quiet_same [OF 1(6)] by (simp add: cursors_ok_def)
  then have "distinct (map tsg_id (segments k))" by (simp add: talk_ok_def cursors_ok_def)
  moreover have "(sid, i, tsg_version s) \<in> set (places k)"
    using visible_places [OF vis] places_mem [of s "tl_desk x"] find_segment_mem [OF assms(3)] assms(4) by simp
  ultimately have "\<exists>s''. find_segment k sid = Some s'' \<and> tsg_meeting_id s'' = i"
    using find_segment_place [OF assms(3), of k] assms(4) by blast
  then show ?thesis using quiet 1(3,4) by (simp add: talk_ok_def calls_ok_def)
qed

lemma with_event_simps:
  "cdc_id (with_event lo ev t c) = cdc_id c" "cdc_sources (with_event lo ev t c) = cdc_sources c" "cdc_meeting_id (with_event lo ev t c) = cdc_meeting_id c"
  "cdc_status c = Decision_STALE \<Longrightarrow> cdc_status (with_event lo ev t c) = Decision_STALE"
  by (auto simp: with_event_def split: sum.split option.split)

lemma judge_finish_cases:
  assumes "judge_finish g now lc lo ev k = Inr (lj, k')"
  obtains s c j where "find_segment k (lv_segment_id lc) = Some s" and "decisions k' = decisions k @ [c]" and "cdc_id c \<notin> cdc_id ` set (decisions k)"
    and "cdc_sources c = [source_json (lv_segment_id lc) (lv_source_version lc)]" and "cdc_meeting_id c = Some (lv_meeting_id lc)"
    and "tsg_version s \<noteq> lv_source_version lc \<Longrightarrow> \<not> valid_decision c" and "meetings k' = meetings k"
    and "segments k' = put_row tsg_id (s\<lparr>tsg_decision_job_id := j\<rparr>) (segments k) \<or> segments k' = segments k"
    and "lj_decision_id lj = cdc_id c" and "lj_segment_id lj = lv_segment_id lc" and "lj_source_version lj = lv_source_version lc"
proof -
  obtain s where s: "find_segment k (lv_segment_id lc) = Some s" using assms by (auto simp: judge_finish_def split: option.splits)
  define stale where "stale = (tsg_version s \<noteq> lv_source_version lc)"
  define c where "c = with_event lo ev (tsg_text s) (judge_decision g now lc lo ev stale k)"
  have fin: "and_then (insert_row cdc_id c (decisions k)) (\<lambda>rows.
      Inr (\<lparr>lj_job_id = lv_job_id lc, lj_decision_id = cdc_id c,
                     lj_lookup_failure = (case lo of Inl e \<Rightarrow> Some (failure_item ''meeting.lookup'' e) | Inr _ \<Rightarrow> None),
                     lj_event_failure = (case ev of Inl e \<Rightarrow> Some (failure_item ''event.lookup'' e) | Inr _ \<Rightarrow> None),
                     lj_segment_id = lv_segment_id lc, lj_source_version = lv_source_version lc\<rparr>,
           let k' = draw_desk (k\<lparr>decisions := rows\<rparr>) in
           if stale then k' else put_segment (s\<lparr>tsg_decision_job_id := Some (lv_job_id lc)\<rparr>) k')) = Inr (lj, k')"
    using assms s by (simp add: judge_finish_def Let_def c_def stale_def)
  have "\<not> valid_decision c" if "stale"
    using that with_event_simps(4) [of "judge_decision g now lc lo ev stale k" lo ev "tsg_text s"]
    by (simp add: valid_decision_def c_def judge_decision_def first_status_def)
  moreover have "cdc_sources c = [source_json (lv_segment_id lc) (lv_source_version lc)]" "cdc_meeting_id c = Some (lv_meeting_id lc)"
    by (simp_all add: c_def with_event_simps judge_decision_def)
  ultimately show thesis using fin s
    by (intro that [of s c "Some (lv_job_id lc)"]) (auto simp: and_then_eq_Inr insert_row_Inr Let_def draw_desk_def put_segment_def stale_def split: if_splits)
qed

lemma talk_judge_finish:
  assumes "talk_ok x" and "lc \<in> set (tl_calls x)" and "judge_finish g now lc lo ev (tl_desk x) = Inr (lj, k)"
  shows "continues_talk (tl_desk x) k \<and> talk_ok (x\<lparr>tl_desk := k, tl_calls := remove1 lc (tl_calls x), tl_open := lj # tl_open x\<rparr>)"
  using assms(3)
proof (cases rule: judge_finish_cases)
  case (1 s c j)
  let ?k = "tl_desk x"
  have ok: "cursors_ok ?k" "judged_ok ?k" "calls_ok x" using assms(1) by (simp_all add: talk_ok_def)
  have vis: "map visible (segments k) = map visible (segments ?k)" using segment_put_visible [OF ok(1) 1(1)] 1(8) by metis
  have p: "places k = places ?k" by (rule visible_places [OF vis])
  have s: "tsg_meeting_id s = lv_meeting_id lc" "s \<in> set (segments ?k)" "tsg_id s = lv_segment_id lc"
    using ok(3) assms(2) 1(1) find_segment_mem [OF 1(1)] by (auto simp: calls_ok_def)
  have "current_sources ?k c" if valid: "valid_decision c"
  proof -
    have "tsg_version s = lv_source_version lc" using 1(6) valid by blast
    then have "source_json (lv_segment_id lc) (lv_source_version lc) = source_json (tsg_id s) (tsg_version s)" using s(3) by simp
    then show ?thesis using s(1,2) 1(4,5) unfolding current_sources_def by auto
  qed
  then have j: "judged_ok k" using ok(2) 1(2,3) p by (auto simp: judged_ok_def current_sources_places)
  have cur: "cursors_ok k" using cursors_quiet [OF ok(1) vis _ quiet_same [OF 1(7)]] ok(1) 1(7) by (simp add: cursors_ok_def)
  have find: "find_decision k i = Some d" if "find_decision ?k i = Some d" for i d using that 1(2) by (simp add: find_decision_def get_row_append)
  have old: "calls_ok (x\<lparr>tl_desk := k, tl_calls := remove1 lc (tl_calls x)\<rparr>)"
    by (rule calls_ok_mono [OF ok(3)]) (use p cur find in \<open>auto simp: cursors_ok_def set_remove1_subset\<close>)
  have "find_decision k (cdc_id c) = Some c" using 1(2,3) get_row_None_iff [of cdc_id "decisions ?k" "cdc_id c"]
    by (simp add: find_decision_def get_row_append)
  moreover have "\<exists>s'. find_segment k (lv_segment_id lc) = Some s' \<and> tsg_meeting_id s' = lv_meeting_id lc"
    using find_segment_place [OF 1(1), of k] places_mem [OF s(2)] s(1,3) p cur by (auto simp: cursors_ok_def)
  ultimately have "calls_ok (x\<lparr>tl_desk := k, tl_calls := remove1 lc (tl_calls x), tl_open := lj # tl_open x\<rparr>)"
    using old 1(4,5,9-11) by (auto simp: calls_ok_def)
  then show ?thesis using cur j continues_quiet [OF vis quiet_same [OF 1(7)]] by (simp add: talk_ok_def)
qed

lemma insert_extracted_frame:
  "insert_extracted g now club did src xs k = Inr (is', k') \<Longrightarrow> segments k' = segments k \<and> meetings k' = meetings k \<and> decisions k' = decisions k"
proof (induction xs arbitrary: k is')
  case (Cons y ys)
  then show ?case by (fastforce simp: Let_def and_then_eq_Inr insert_suggestion_def draw_desk_def)
qed simp

lemma final_decision_simps:
  "cdc_id (final_decision ms lj ex st c) = cdc_id c" "cdc_sources (final_decision ms lj ex st c) = cdc_sources c"
  "cdc_meeting_id (final_decision ms lj ex st c) = cdc_meeting_id c" "st \<Longrightarrow> cdc_status (final_decision ms lj ex st c) = Decision_STALE"
  by (simp_all add: final_decision_def Let_def)

lemma extraction_finish_cases:
  assumes "extraction_finish g now ms lj ex k = Inr k'"
  obtains s c where "find_segment k (lj_segment_id lj) = Some s" and "find_decision k (lj_decision_id lj) = Some c"
    and "decisions k' = put_row cdc_id (final_decision ms lj ex (tsg_version s \<noteq> lj_source_version lj) c) (decisions k)"
    and "segments k' = segments k" and "meetings k' = meetings k"
proof -
  obtain s c j where f: "find_segment k (lj_segment_id lj) = Some s" "find_decision k (lj_decision_id lj) = Some c" "find_agent_job (base k) (lj_job_id lj) = Some j"
    using assms by (auto simp: extraction_finish_def split: option.splits)
  let ?c = "final_decision ms lj ex (tsg_version s \<noteq> lj_source_version lj) c"
  obtain drafts is' k1 where ins: "insert_extracted g now (jb_club_id j) (cdc_id c) (source_json (lj_segment_id lj) (lj_source_version lj)) drafts
      (put_decision ?c k) = Inr (is', k1)" and k': "segments k' = segments k1" "meetings k' = meetings k1" "decisions k' = decisions k1"
    using assms f by (auto simp: extraction_finish_def Let_def and_then_eq_Inr)
  show thesis using that f insert_extracted_frame [OF ins] k' by (simp add: put_decision_def)
qed

lemma talk_extraction:
  assumes "talk_ok x" and "lj \<in> set (tl_open x)" and "extraction_finish g now ms lj ex (tl_desk x) = Inr k"
  shows "continues_talk (tl_desk x) k \<and> talk_ok (x\<lparr>tl_desk := k, tl_open := remove1 lj (tl_open x)\<rparr>)"
  using assms(3)
proof (cases rule: extraction_finish_cases)
  case (1 s c)
  let ?k = "tl_desk x" and ?c = "final_decision ms lj ex (tsg_version s \<noteq> lj_source_version lj) c"
  have ok: "cursors_ok ?k" "judged_ok ?k" "calls_ok x" using assms(1) by (simp_all add: talk_ok_def)
  have p: "places k = places ?k" using 1(4) by (simp add: places_def)
  have src: "cdc_sources c = [source_json (lj_segment_id lj) (lj_source_version lj)]" "cdc_meeting_id c = Some (tsg_meeting_id s)"
    using ok(3) assms(2) 1(1,2) by (auto simp: calls_ok_def)
  have sm: "s \<in> set (segments ?k)" "tsg_id s = lj_segment_id lj" using find_segment_mem [OF 1(1)] by simp_all
  have new: "current_sources k ?c" if "valid_decision ?c"
  proof -
    have "tsg_version s = lj_source_version lj"
    proof (rule ccontr)
      assume "tsg_version s \<noteq> lj_source_version lj"
      then have "cdc_status ?c = Decision_STALE" by (rule final_decision_simps(4))
      then show False using that by (simp add: valid_decision_def)
    qed
    then have "source_json (lj_segment_id lj) (lj_source_version lj) = source_json (tsg_id s) (tsg_version s)" using sm(2) by simp
    then show ?thesis using src sm(1) 1(4) unfolding current_sources_def final_decision_simps by auto
  qed
  have "current_sources k d" if d: "d \<in> set (decisions k)" "cdc_source_type d = MEETING_TRANSCRIPT" "valid_decision d" for d
  proof (cases "d = ?c")
    case True
    then show ?thesis using new d(3) by simp
  next
    case False
    then have "d \<in> set (decisions ?k)" using d(1) 1(3) by (auto elim!: put_row_memE)
    then have "current_sources ?k d" using ok(2) d(2,3) by (simp add: judged_ok_def)
    then show ?thesis by (simp add: current_sources_places p)
  qed
  moreover have "distinct (map cdc_id (decisions k))" using ok(2) 1(3) by (simp add: judged_ok_def)
  ultimately have j: "judged_ok k" by (simp add: judged_ok_def)
  have cid: "cdc_id c = lj_decision_id lj" using 1(2) decision_table.get_key by blast
  have find: "\<exists>d'. find_decision k i = Some d' \<and> cdc_sources d' = cdc_sources d \<and> cdc_meeting_id d' = cdc_meeting_id d" if d: "find_decision ?k i = Some d" for i d
    using get_put_row [of cdc_id "decisions ?k" ?c c i] d 1(2,3) cid by (auto simp: find_decision_def final_decision_simps)
  have "calls_ok (x\<lparr>tl_desk := k, tl_open := remove1 lj (tl_open x)\<rparr>)"
    by (rule calls_ok_mono [OF ok(3)]) (use p ok(1) 1(4) find in \<open>auto simp: cursors_ok_def set_remove1_subset\<close>)
  moreover have "cursors_ok k" using ok(1) 1(4,5) by (simp add: cursors_ok_def find_meeting_def)
  ultimately show ?thesis using j continues_quiet [of k ?k] quiet_same [OF 1(5)] 1(4) by (simp add: talk_ok_def)
qed

section \<open>Runs\<close>

lemma create_meeting_quiet:
  assumes "create_meeting g now club eid title lang consent by' k = Inr (m, k')" and "distinct (map mtg_id (meetings k))"
  shows "segments k' = segments k" and "decisions k' = decisions k" and "distinct (map mtg_id (meetings k'))"
    and "find_meeting k i = Some q \<Longrightarrow> find_meeting k' i = Some q"
  using assms by (auto simp: create_meeting_def Let_def and_then_eq_Inr insert_row_Inr draw_desk_def find_meeting_def get_row_append split: if_splits)

lemma begin_utterance_quiet:
  "begin_stream_utterance g sha now key i wav a b k = Inr (cid, jid, k') \<Longrightarrow>
   segments k' = segments k \<and> meetings k' = meetings k \<and> decisions k' = decisions k"
  by (auto simp: begin_stream_utterance_def Let_def and_then_eq_Inr draw_desk_def split: option.splits if_splits)

lemma fail_stt_quiet:
  "fail_stream_stt now jid err k = Inr k' \<Longrightarrow> segments k' = segments k \<and> meetings k' = meetings k \<and> decisions k' = decisions k"
  by (auto simp: fail_stream_stt_def and_then_eq_Inr)

lemma talk_base:
  assumes "talk_ok (x\<lparr>tl_desk := k\<rparr>)" and "continues_talk q k" and "segments k' = segments k" and "meetings k' = meetings k" and "decisions k' = decisions k"
  shows "continues_talk q k' \<and> talk_ok (x\<lparr>tl_desk := k'\<rparr>)"
  using assms by (simp add: continues_talk_def talk_ok_def cursors_ok_def judged_ok_def calls_ok_def current_sources_def find_meeting_def find_segment_def find_decision_def)

lemma save_stream_cases:
  assumes "save_stream_transcript g now i cid jid text a b k = Inr (res, k')"
  obtains "segments k' = segments k" and "meetings k' = meetings k" and "decisions k' = decisions k"
    | m s k1 where "find_meeting k i = Some m" and "save_segment g m (next_segment i k) (utterance_input (py_strip text) a b cid) k = Inr (s, k1)"
        and "segments k' = segments k1" and "meetings k' = meetings k1" and "decisions k' = decisions k1"
proof -
  obtain m j where mj: "find_meeting k i = Some m" "get_job jid (base k) = Inr j"
    using assms by (auto simp: save_stream_transcript_def and_then_eq_Inr split: option.splits)
  show thesis
  proof (cases "py_strip text = []")
    case True
    then show thesis using assms mj that(1) by (auto simp: save_stream_transcript_def Let_def)
  next
    case False
    then show thesis using assms mj that(2) [OF mj(1)] by (auto simp: save_stream_transcript_def Let_def and_then_eq_Inr)
  qed
qed

lemma talk_meeting_put:
  assumes "talk_ok x" and "find_meeting (tl_desk x) i = Some m" and "mtg_id m' = mtg_id m" and "mtg_transcript_cursor m' = mtg_transcript_cursor m"
  shows "continues_talk (tl_desk x) (put_meeting m' (tl_desk x)) \<and> talk_ok (x\<lparr>tl_desk := put_meeting m' (tl_desk x)\<rparr>)"
proof -
  have i: "mtg_id m' = i" using assms(2,3) meeting_table.get_key by fastforce
  show ?thesis
    using talk_quiet [OF assms(1), of "x\<lparr>tl_desk := put_meeting m' (tl_desk x)\<rparr>"] quiet_put [OF assms(2) i assms(4)] assms(1)
    by (simp add: put_meeting_def talk_ok_def cursors_ok_def)
qed

lemma talk_step_ok:
  assumes "talk_step x y" and "talk_ok x"
  shows "continues_talk (tl_desk x) (tl_desk y) \<and> talk_ok y"
  using assms(1)
proof cases
  case (Meeting_Created g now club eid title lang consent by' m k)
  have "distinct (map mtg_id (meetings (tl_desk x)))" using assms(2) by (simp add: talk_ok_def cursors_ok_def)
  note q = create_meeting_quiet [OF Meeting_Created(2) this]
  show ?thesis unfolding Meeting_Created(1) by (rule talk_quiet [OF assms(2)]) (use q in \<open>auto\<close>)
next
  case (Meeting_Finished now rec club i m k)
  then obtain q where "find_meeting (tl_desk x) i = Some q" "k = put_meeting (q\<lparr>mtg_status := Meeting_COMPLETED, mtg_ended_at := Some now\<rparr>) (tl_desk x)"
    by (auto simp: finish_meeting_def get_meeting_def and_then_eq_Inr Let_def split: option.splits if_splits)
  then show ?thesis using talk_meeting_put [OF assms(2)] Meeting_Finished(1) by simp
next
  case (Status_Set now i st k)
  then obtain q where "find_meeting (tl_desk x) i = Some q" "k = put_meeting (q\<lparr>mtg_status := st,
      mtg_ended_at := (if st = Meeting_COMPLETED \<or> st = Meeting_FAILED then Some now else mtg_ended_at q)\<rparr>) (tl_desk x)"
    by (auto simp: set_stream_status_def split: option.splits)
  then show ?thesis using talk_meeting_put [OF assms(2)] Status_Set(1) by simp
next
  case (Utterance_Begun g sha now key i wav a b cid jid k)
  then show ?thesis using begin_utterance_quiet [OF Utterance_Begun(2)] talk_base [where x = x and k = "tl_desk x" and q = "tl_desk x" and k' = k] assms(2) talk_continues_refl by simp
next
  case (Utterance_Failed now jid err k)
  then show ?thesis using fail_stt_quiet [OF Utterance_Failed(2)] talk_base [where x = x and k = "tl_desk x" and q = "tl_desk x" and k' = k] assms(2) talk_continues_refl by simp
next
  case (Utterance_Saved g now i cid jid tx a b res k)
  from Utterance_Saved(2) show ?thesis
  proof (cases rule: save_stream_cases)
    case 1
    then show ?thesis using talk_base [where x = x and k = "tl_desk x" and q = "tl_desk x" and k' = k] assms(2) talk_continues_refl Utterance_Saved(1) by simp
  next
    case (2 m s k1)
    have m: "find_meeting (tl_desk x) (mtg_id m) = Some m" using 2(1) meeting_table.get_key [OF 2(1)] by simp
    show ?thesis using talk_base [where x = x and k = k1 and q = "tl_desk x" and k' = k] talk_save [OF assms(2) m 2(2)] 2(3-5) Utterance_Saved(1) by simp
  qed
next
  case (Segment_Saved i m g seq inp s k)
  have m: "find_meeting (tl_desk x) (mtg_id m) = Some m" using Segment_Saved(2) meeting_table.get_key [OF Segment_Saved(2)] by simp
  show ?thesis using talk_save [OF assms(2) m Segment_Saved(3)] Segment_Saved(1) by simp
next
  case (Beside k)
  then show ?thesis using talk_base [where x = x and k = "tl_desk x" and q = "tl_desk x" and k' = k] assms(2) talk_continues_refl by simp
qed (use assms(2) talk_judge_begin talk_judge_finish talk_extraction in auto)

lemma talk_run_ok:
  assumes "talk_step\<^sup>*\<^sup>* x y" and "talk_ok x"
  shows "continues_talk (tl_desk x) (tl_desk y) \<and> talk_ok y"
  using assms(1)
proof (induction rule: rtranclp_induct)
  case base
  then show ?case using assms(2) talk_continues_refl by simp
next
  case (step y z)
  then show ?case using talk_step_ok [OF step.hyps(2)] continues_trans by blast
qed

text \<open>A client that asks for what changed after its cursor gets exactly that.\<close>

lemma poll_exact:
  assumes "talk_step\<^sup>*\<^sup>* x y" and "talk_ok x" and "find_meeting (tl_desk x) i = Some m"
  shows "set (list_transcripts i (mtg_transcript_cursor m) (tl_desk y)) =
    {s \<in> set (segments (tl_desk y)). tsg_meeting_id s = i \<and> visible s \<notin> visible ` set (segments (tl_desk x))}"
proof -
  have "continues_talk (tl_desk x) (tl_desk y)" using talk_run_ok [OF assms(1,2)] by simp
  then have new: "mtg_transcript_cursor m < tsg_change_seq s"
    if "s \<in> set (segments (tl_desk y))" "tsg_meeting_id s = i" "visible s \<notin> visible ` set (segments (tl_desk x))" for s
    using that assms(3) unfolding continues_talk_def by blast
  have old: "tsg_change_seq s \<le> mtg_transcript_cursor m" if s: "tsg_meeting_id s = i" "visible s = visible t" "t \<in> set (segments (tl_desk x))" for s t
  proof -
    have "tsg_change_seq t \<le> mtg_transcript_cursor m" using assms(2,3) s visible_eqD [OF s(2)] by (fastforce simp: talk_ok_def cursors_ok_def)
    then show ?thesis using visible_eqD [OF s(2)] by simp
  qed
  show ?thesis unfolding list_transcripts_def using new old by (fastforce simp: not_le)
qed

end
