(* ===== verification/Meeting_Claims.thy ===== *)
theory Meeting_Claims
  imports Review_Room Meeting_Talk Demo_Desk
begin

text \<open>The properties of recorded meetings and of their reviews, with witnesses on a meeting of two utterances.\<close>

section \<open>A small meeting\<close>

definition demo_segment :: "ident \<Rightarrow> int \<Rightarrow> pystr \<Rightarrow> int \<Rightarrow> int \<Rightarrow> transcript_segment" where
  "demo_segment i n t a b = \<lparr>tsg_id = i, tsg_meeting_id = ''mtg_1'', tsg_seq = n, tsg_text = t, tsg_is_final = True, tsg_version = 1,
     tsg_speaker_label = None, tsg_start_ms = Some a, tsg_end_ms = Some b, tsg_change_seq = n, tsg_audio_chunk_id = None,
     tsg_decision_job_id = None\<rparr>"

definition demo_meeting :: "meeting_status \<Rightarrow> meeting_row" where
  "demo_meeting st = \<lparr>mtg_id = ''mtg_1'', mtg_club_id = ''clb_1'', mtg_event_id = None, mtg_title = None, mtg_language = lit ''ko'',
     mtg_status = st, mtg_started_at = Some 0, mtg_ended_at = None, mtg_consent_by = None, mtg_consent_at = None,
     mtg_created_by = ''mem_1'', mtg_version = 1, mtg_transcript_cursor = 2, mtg_created_at = 0\<rparr>"

definition demo_held :: "meeting_status \<Rightarrow> desk" where
  "demo_held st = demo_desk\<lparr>meetings := [demo_meeting st],
     segments := [demo_segment ''tsg_1'' 1 (lit ''book it'') 0 900, demo_segment ''tsg_2'' 2 (lit ''sure'') 1000 1500]\<rparr>"

section \<open>A review from its start to the taken tasks\<close>

definition demo_turns :: "dict list" where
  "demo_turns =
     [[(''start_ms'', JInt 0), (''end_ms'', JInt 950), (''speaker_label'', JStr (lit ''A''))],
      [(''start_ms'', JInt 960), (''end_ms'', JInt 1600), (''speaker_label'', JStr (lit ''B''))]]"

definition demo_made :: "review_transcript list \<Rightarrow> dict \<Rightarrow> bool" where
  "demo_made ts d \<longleftrightarrow> d = [(''summary'', JStr (concat (map vt_text ts)))]"


definition demo_open_review :: "api_error + (meeting_review \<times> desk)" where
  "demo_open_review = start_review demo_rnd ''mtg_1'' ''mem_1'' (demo_held Meeting_COMPLETED)"

definition demo_queued :: desk where
  "demo_queued = value_of demo_desk demo_open_review"

definition demo_review_id :: ident where
  "demo_review_id = mrv_id (hd (meeting_reviews demo_queued))"

definition demo_submitting :: desk where
  "demo_submitting = (case submit_begin demo_review_id demo_queued of Inl _ \<Rightarrow> demo_desk | Inr k \<Rightarrow> k)"

definition demo_accepted :: "api_error + (meeting_review \<times> desk)" where
  "demo_accepted = submit_accepted demo_review_id (lit ''job'') demo_submitting"

definition demo_processing :: desk where
  "demo_processing = value_of demo_desk demo_accepted"

definition demo_read :: desk where
  "demo_read = snd (poll_finish demo_review_id (lit ''job'') demo_turns 1600 demo_processing)"

definition demo_naming :: "api_error + (meeting_review \<times> desk)" where
  "demo_naming = set_names ''mtg_1'' 4 [(lit ''B'', lit ''Guest'')] [(lit ''A'', Some ''mem_1'', True), (lit ''B'', None, True)] demo_read"

definition demo_named :: desk where
  "demo_named = value_of demo_desk demo_naming"

definition demo_transcripts :: "review_transcript list" where
  "demo_transcripts = (case draft_begin ''mtg_1'' 5 demo_named of Inl _ \<Rightarrow> [] | Inr (_, ts) \<Rightarrow> ts)"

definition demo_minutes :: dict where
  "demo_minutes = [(''summary'', JStr (concat (map vt_text demo_transcripts)))]"

definition demo_drafting :: "api_error + (meeting_review \<times> desk)" where
  "demo_drafting = draft_finish ''mtg_1'' demo_review_id 5 demo_minutes demo_named"

definition demo_drafted :: desk where
  "demo_drafted = value_of demo_desk demo_drafting"



definition demo_room :: "desk \<Rightarrow> room" where
  "demo_room k = \<lparr>rm_desk = k, rm_submits = [], rm_reports = [], rm_polls = [], rm_drafts = [], rm_calls = []\<rparr>"

text \<open>The room in which the provider was asked once and the draft is waiting.\<close>

definition demo_asked :: "desk \<Rightarrow> room" where
  "demo_asked k = \<lparr>rm_desk = k, rm_submits = [], rm_reports = [], rm_polls = [], rm_drafts = [], rm_calls = [demo_review_id]\<rparr>"

definition demo_waiting :: "desk \<Rightarrow> room" where
  "demo_waiting k = (demo_asked k)\<lparr>rm_drafts := [(''mtg_1'', demo_review_id, 5, demo_transcripts)]\<rparr>"

lemma demo_room_ok: "meeting_reviews k = [] \<Longrightarrow> room_ok c made (demo_room k)"
  by (simp add: room_ok_def lists_ok_def demo_room_def)

lemma demo_submit_steps: "(room_step True demo_made)\<^sup>*\<^sup>* (demo_room (demo_held Meeting_COMPLETED)) (demo_asked demo_processing)"
proof -
  let ?x = "demo_room (demo_held Meeting_COMPLETED)"
  have "ok demo_open_review" by code_simp
  then obtain r where r: "demo_open_review = Inr (r, demo_queued)" using ok_value [of demo_open_review demo_desk] by (auto simp: demo_queued_def)
  have "room_step True demo_made ?x (?x\<lparr>rm_desk := demo_queued\<rparr>)" (is "room_step _ _ _ ?y")
    by (rule room_step.Review_Started [of demo_rnd "''mtg_1''" "''mem_1''" _ r]) (use r in \<open>simp add: demo_open_review_def demo_room_def\<close>)
  moreover have "ok (submit_begin demo_review_id demo_queued)" by code_simp
  then have "submit_begin demo_review_id demo_queued = Inr demo_submitting" by (auto simp: demo_submitting_def ok_def split: sum.splits)
  then have "room_step True demo_made ?y (?y\<lparr>rm_desk := demo_submitting, rm_submits := demo_review_id # rm_submits ?y, rm_calls := demo_review_id # rm_calls ?y\<rparr>)"
    (is "room_step _ _ _ ?z") by (intro room_step.Job_Submitted) simp_all
  moreover have "ok demo_accepted" by code_simp
  then obtain q where q: "demo_accepted = Inr (q, demo_processing)" using ok_value [of demo_accepted demo_desk] by (auto simp: demo_processing_def)
  have "room_step True demo_made ?z (?z\<lparr>rm_desk := demo_processing, rm_submits := remove1 demo_review_id (rm_submits ?z)\<rparr>)"
    by (rule room_step.Job_Accepted [of _ _ "lit ''job''" q]) (use q in \<open>simp_all add: demo_accepted_def lit_def\<close>)
  moreover have "?z\<lparr>rm_desk := demo_processing, rm_submits := remove1 demo_review_id (rm_submits ?z)\<rparr> = demo_asked demo_processing"
    by (simp add: demo_room_def demo_asked_def)
  ultimately show ?thesis by (metis (no_types, lifting) rtranclp.simps)
qed

lemma demo_read_steps: "(room_step True demo_made)\<^sup>*\<^sup>* (demo_asked demo_processing) (demo_asked demo_read)"
proof -
  let ?x = "demo_asked demo_processing"
  have "poll_begin demo_review_id demo_processing = Inr (lit ''job'')" by code_simp
  then have "room_step True demo_made ?x (?x\<lparr>rm_polls := (demo_review_id, lit ''job'') # rm_polls ?x\<rparr>)" (is "room_step _ _ _ ?y")
    by (intro room_step.Poll_Begun) (simp_all add: demo_asked_def)
  moreover have "poll_finish demo_review_id (lit ''job'') demo_turns 1600 demo_processing =
      (fst (poll_finish demo_review_id (lit ''job'') demo_turns 1600 demo_processing), demo_read)" by (simp add: demo_read_def)
  then have "room_step True demo_made ?y (?y\<lparr>rm_desk := demo_read, rm_polls := remove1 (demo_review_id, lit ''job'') (rm_polls ?y)\<rparr>)"
    by (intro room_step.Poll_Finished) (simp_all add: demo_asked_def)
  moreover have "?y\<lparr>rm_desk := demo_read, rm_polls := remove1 (demo_review_id, lit ''job'') (rm_polls ?y)\<rparr> = demo_asked demo_read"
    by (simp add: demo_asked_def)
  ultimately show ?thesis by (metis (no_types, lifting) rtranclp.simps)
qed

lemma demo_draft_steps: "(room_step True demo_made)\<^sup>*\<^sup>* (demo_asked demo_read) (demo_waiting demo_drafted)"
proof -
  let ?x = "demo_asked demo_read"
  have "ok demo_naming" by code_simp
  then obtain r where r: "demo_naming = Inr (r, demo_named)" using ok_value [of demo_naming demo_desk] by (auto simp: demo_named_def)
  have "room_step True demo_made ?x (?x\<lparr>rm_desk := demo_named\<rparr>)" (is "room_step _ _ _ ?y")
    by (rule room_step.Names_Set) (use r in \<open>simp add: demo_naming_def demo_asked_def\<close>)
  moreover have "draft_begin ''mtg_1'' 5 demo_named = Inr (demo_review_id, demo_transcripts)" by code_simp
  then have "room_step True demo_made ?y (?y\<lparr>rm_drafts := (''mtg_1'', demo_review_id, 5, demo_transcripts) # rm_drafts ?y\<rparr>)" (is "room_step _ _ _ ?z")
    by (intro room_step.Draft_Begun) simp
  moreover have "ok demo_drafting" by code_simp
  then obtain q where q: "demo_drafting = Inr (q, demo_drafted)" using ok_value [of demo_drafting demo_desk] by (auto simp: demo_drafted_def)
  have "room_step True demo_made ?z (?z\<lparr>rm_desk := demo_drafted\<rparr>)"
    by (rule room_step.Draft_Finished [of "''mtg_1''" demo_review_id 5 demo_transcripts _ _ demo_minutes q])
      (use q in \<open>simp_all add: demo_drafting_def demo_made_def demo_minutes_def\<close>)
  moreover have "?z\<lparr>rm_desk := demo_drafted\<rparr> = demo_waiting demo_drafted" by (simp add: demo_asked_def demo_waiting_def)
  ultimately show ?thesis by (metis (no_types, lifting) rtranclp.simps)
qed

lemmas demo_review_steps = rtranclp_trans [OF rtranclp_trans [OF demo_submit_steps demo_read_steps] demo_draft_steps]




section \<open>Reviews\<close>

text \<open>
  C11. However requests on reviews interleave - starting, submitting, retrying after a failure, polling, answers
  that are lost or reported late - the paid job of the diarization provider is asked for at most once per review.
\<close>

theorem provider_asked_once:
  assumes "(room_step configured made)\<^sup>*\<^sup>* x y" and "room_ok configured made x"
  shows "count_list (rm_calls y) rid \<le> 1"
proof (cases "rid \<in> set (rm_calls y)")
  case True
  have y: "room_ok configured made y" by (rule room_run_ok [OF assms])
  then obtain r where "r \<in> set (meeting_reviews (rm_desk y))" "mrv_id r = rid" using True unfolding room_ok_def lists_ok_def by blast
  then show ?thesis using y by (auto simp: room_ok_def entry_ok_def submits_ok_def phase_ok_def)
qed (simp add: count_list_0_iff)

theorem provider_asked_once_witness: "count_list (rm_calls (demo_waiting demo_drafted)) demo_review_id \<le> 1 \<and> rm_calls (demo_waiting demo_drafted) = [demo_review_id]"
  using provider_asked_once [OF demo_review_steps, of demo_review_id] demo_room_ok [of "demo_held Meeting_COMPLETED"]
  by (simp add: demo_waiting_def demo_asked_def)







lemma remdups_single: "remdups xs = [l] \<longleftrightarrow> xs \<noteq> [] \<and> set xs = {l}"
proof
  assume "remdups xs = [l]"
  then show "xs \<noteq> [] \<and> set xs = {l}" by (metis list.set(1) list.set(2) list.simps(3) remdups.simps(1) set_remdups)
next
  assume "xs \<noteq> [] \<and> set xs = {l}"
  then have e: "set (remdups xs) = {l}" by simp
  moreover have "length (remdups xs) = 1" using distinct_card [OF distinct_remdups, of xs] e by simp
  ultimately show "remdups xs = [l]" by (cases "remdups xs") auto
qed

text \<open>
  C31. The speaker of an utterance is told exactly when it is beyond doubt: an aligned row names the speaker \<open>l\<close>
  iff the times of the utterance are known, some turn of the provider overlaps them, and every turn that
  overlaps them is one of \<open>l\<close>.
\<close>

theorem alignment_is_unambiguous:
  assumes "i < length ss"
  shows "al_label (align_segments ss turns ! i) = Some l \<longleftrightarrow>
    (\<exists>a b. tsg_start_ms (ss ! i) = Some a \<and> tsg_end_ms (ss ! i) = Some b \<and>
       (\<exists>t \<in> set turns. tn_start_ms t < b \<and> a < tn_end_ms t) \<and>
       (\<forall>t \<in> set turns. tn_start_ms t < b \<and> a < tn_end_ms t \<longrightarrow> tn_label t = l))"
proof -
  have "al_label (align_segments ss turns ! i) = Some l \<longleftrightarrow> overlapping_labels (ss ! i) turns = [l]"
    using assms by (auto simp: align_segments_def split: list.splits)
  also have "\<dots> \<longleftrightarrow> (\<exists>a b. tsg_start_ms (ss ! i) = Some a \<and> tsg_end_ms (ss ! i) = Some b \<and>
      remdups (map tn_label (filter (\<lambda>t. tn_start_ms t < b \<and> tn_end_ms t > a) turns)) = [l])"
    by (cases "tsg_start_ms (ss ! i)"; cases "tsg_end_ms (ss ! i)") (simp_all add: overlapping_labels_def)
  also have "\<dots> \<longleftrightarrow> (\<exists>a b. tsg_start_ms (ss ! i) = Some a \<and> tsg_end_ms (ss ! i) = Some b \<and>
       (\<exists>t \<in> set turns. tn_start_ms t < b \<and> a < tn_end_ms t) \<and>
       (\<forall>t \<in> set turns. tn_start_ms t < b \<and> a < tn_end_ms t \<longrightarrow> tn_label t = l))"
    unfolding remdups_single by (intro iff_exI conj_cong refl) (auto simp: filter_empty_conv)
  finally show ?thesis .
qed

theorem alignment_is_unambiguous_witness:
  "al_label (align_segments (segments (demo_held Meeting_COMPLETED))
     [\<lparr>tn_start_ms = 0, tn_end_ms = 950, tn_label = lit ''A''\<rparr>, \<lparr>tn_start_ms = 890, tn_end_ms = 1600, tn_label = lit ''B''\<rparr>] ! 1) = Some (lit ''B'')"
  using alignment_is_unambiguous [of 1 "segments (demo_held Meeting_COMPLETED)"
     "[\<lparr>tn_start_ms = 0, tn_end_ms = 950, tn_label = lit ''A''\<rparr>, \<lparr>tn_start_ms = 890, tn_end_ms = 1600, tn_label = lit ''B''\<rparr>]" "lit ''B''"]
  by (simp add: demo_held_def demo_segment_def)

section \<open>The transcript and its judgements\<close>

definition demo_talk :: talk where
  "demo_talk = \<lparr>tl_desk = demo_held Meeting_RECORDING, tl_calls = [], tl_open = []\<rparr>"

lemma demo_talk_ok: "talk_ok demo_talk"
  by (simp add: talk_ok_def cursors_ok_def judged_ok_def calls_ok_def demo_talk_def demo_held_def demo_desk_def demo_segment_def demo_meeting_def
      find_meeting_def)

text \<open>The second utterance is judged; the first one is corrected while the model answers.\<close>

definition demo_judging :: "api_error + (live_call \<times> desk)" where
  "demo_judging = judge_begin demo_rnd 100 (\<lambda>_. []) ''mtg_1'' ''tsg_2'' (demo_held Meeting_RECORDING)"

definition demo_call :: live_call where
  "demo_call = fst (projr demo_judging)"

definition demo_asking :: desk where
  "demo_asking = snd (projr demo_judging)"

definition demo_correction :: "api_error + (transcript_segment \<times> desk)" where
  "demo_correction = save_segment demo_rnd (demo_meeting Meeting_RECORDING) 1
     \<lparr>si_text = lit ''book the bus'', si_is_final = True, si_expected_version = Some 1, si_speaker_label = None, si_start_ms = Some 0,
      si_end_ms = Some 900, si_audio_chunk_id = None\<rparr> demo_asking"

definition demo_corrected :: desk where
  "demo_corrected = value_of demo_desk demo_correction"

definition demo_trace :: judge_trace where
  "demo_trace = \<lparr>jt_model = lit ''m'', jt_prompt_version = lit ''p'', jt_tool_calls = [], jt_judge_ms = 5\<rparr>"

definition demo_judged :: "api_error + (live_judgment \<times> desk)" where
  "demo_judged = judge_finish demo_rnd 110 demo_call
     (Inr \<lparr>ja_route = Route_LLM, ja_kind = Kind_ANSWER, ja_question = None, ja_answer = None, ja_sources = [], ja_trace = demo_trace\<rparr>)
     (Inr (None, demo_trace)) demo_corrected"

definition demo_spoken :: talk where
  "demo_spoken = \<lparr>tl_desk = snd (projr demo_judged), tl_calls = [], tl_open = [fst (projr demo_judged)]\<rparr>"

lemma ok_projr: "ok r \<Longrightarrow> r = Inr (projr r)"
  by (cases r) (simp_all add: ok_def)

lemma demo_talk_steps: "talk_step\<^sup>*\<^sup>* demo_talk demo_spoken"
proof -
  have "ok demo_judging" by code_simp
  then have j: "demo_judging = Inr (demo_call, demo_asking)" using ok_projr [of demo_judging] by (simp add: demo_call_def demo_asking_def)
  have sg: "find_segment (tl_desk demo_talk) ''tsg_2'' = Some (demo_segment ''tsg_2'' 2 (lit ''sure'') 1000 1500)" by code_simp
  have at: "tsg_meeting_id (demo_segment ''tsg_2'' 2 (lit ''sure'') 1000 1500) = ''mtg_1''" by (simp add: demo_segment_def)
  have jb: "judge_begin demo_rnd 100 (\<lambda>_. []) ''mtg_1'' ''tsg_2'' (tl_desk demo_talk) = Inr (demo_call, demo_asking)"
    using j by (simp add: demo_judging_def demo_talk_def)
  have "talk_step demo_talk (demo_talk\<lparr>tl_desk := demo_asking, tl_calls := demo_call # tl_calls demo_talk\<rparr>)" (is "talk_step _ ?y")
    by (rule talk_step.Judge_Begun [OF jb sg at])
  moreover have "ok demo_correction" by code_simp
  then obtain s where c: "demo_correction = Inr (s, demo_corrected)" using ok_value [of demo_correction demo_desk] by (auto simp: demo_corrected_def)
  have "find_meeting demo_asking ''mtg_1'' = Some (demo_meeting Meeting_RECORDING)" by code_simp
  then have "talk_step ?y (?y\<lparr>tl_desk := demo_corrected\<rparr>)" (is "talk_step _ ?z")
    by (intro talk_step.Segment_Saved) (use c in \<open>simp_all add: demo_correction_def\<close>)
  moreover have "ok demo_judged" by code_simp
  then have "demo_judged = Inr (fst (projr demo_judged), snd (projr demo_judged))" using ok_projr [of demo_judged] by simp
  then have "talk_step ?z (?z\<lparr>tl_desk := snd (projr demo_judged), tl_calls := remove1 demo_call (tl_calls ?z),
      tl_open := fst (projr demo_judged) # tl_open ?z\<rparr>)" (is "talk_step _ ?w")
    by (intro talk_step.Judge_Finished) (simp_all add: demo_judged_def)
  moreover have "?w = demo_spoken" by (simp add: demo_spoken_def demo_talk_def)
  ultimately show ?thesis by (metis (no_types, lifting) rtranclp.simps)
qed



text \<open>
  C13. A judgement that counts as succeeded or partly succeeded speaks of the transcript as it is: each source it
  names is a segment of its meeting in the version the segment has now. A correction outdates the judgements of
  the segment, and a judgement that was under way meanwhile is stored as stale.
\<close>

theorem judgements_are_current:
  assumes "talk_step\<^sup>*\<^sup>* x y" and "talk_ok x"
    and "c \<in> set (decisions (tl_desk y))" and "cdc_source_type c = MEETING_TRANSCRIPT" and "cdc_status c \<in> {Decision_SUCCEEDED, Decision_PARTIAL}"
    and "src \<in> set (cdc_sources c)"
  shows "\<exists>s \<in> set (segments (tl_desk y)). src = source_json (tsg_id s) (tsg_version s) \<and> cdc_meeting_id c = Some (tsg_meeting_id s)"
  using talk_run_ok [OF assms(1,2)] assms(3-6) unfolding talk_ok_def judged_ok_def valid_decision_def current_sources_def by blast

theorem judgements_are_current_witness:
  "\<exists>c \<in> set (decisions (tl_desk demo_spoken)). cdc_status c = Decision_SUCCEEDED \<and>
     (\<exists>s \<in> set (segments (tl_desk demo_spoken)). source_json ''tsg_2'' 1 = source_json (tsg_id s) (tsg_version s) \<and> cdc_meeting_id c = Some (tsg_meeting_id s))"
proof -
  let ?c = "decisions (tl_desk demo_spoken) ! 1"
  have "length (decisions (tl_desk demo_spoken)) = 2" by code_simp
  then have mem: "?c \<in> set (decisions (tl_desk demo_spoken))" by simp
  have st: "cdc_source_type ?c = MEETING_TRANSCRIPT" "cdc_status ?c = Decision_SUCCEEDED" by code_simp+
  then have st': "cdc_status ?c \<in> {Decision_SUCCEEDED, Decision_PARTIAL}" by simp
  have "cdc_sources ?c = [source_json ''tsg_2'' 1]" by code_simp
  then have src: "source_json ''tsg_2'' 1 \<in> set (cdc_sources ?c)" by simp
  show ?thesis using judgements_are_current [OF demo_talk_steps demo_talk_ok mem st(1) st' src] st(2) mem by blast
qed

end
