(* ===== verification/Spec2Isabelle.thy ===== *)
theory Spec2Isabelle
  imports Ledger Plan_Edit Review_Protocol Cancel_Checklist Action_Results Agent_Jobs Demo Demo_Desk Plan_Claims
    Record_Claims Meeting_Claims
    "HOL-Library.Multiset"
begin

text \<open>
  A verification of the backend of a service that plans and runs events of student clubs
  (\<open>src/be/app\<close>). People and an AI assistant prepare an event as a plan of steps with actions; people
  approve actions, execute them and record the execution; the service keeps the ledger, drafts texts in
  the background, lets the model review a plan, and works off a checklist when an event is cancelled. The
  plan itself comes out of a conversation with the assistant, turn by turn. Records of past events are
  uploaded, parsed and cut into chunks for the search; meetings are recorded, transcribed and judged while
  they run and reviewed when they have ended.

  \<^bold>\<open>The model.\<close> The database is one record of tables, each a list of rows, each row a record with the
  columns of the mapped class (\<open>Models\<close>). A request is a function from its arguments and the database to
  an error or a new database (with the answer where the route has one); the error type has a constructor
  per exception of \<open>core/exceptions.py\<close>, and \<open>and_then\<close> chains the checks in the order of the code. A
  request takes the row lock of the action or event it changes, so the committed requests of one row are
  sequential and a run is a sequence of them. What the code does not decide is a parameter: the current
  time, the identifiers that \<open>new_id\<close> draws, the texts and failures of the language model, the transport
  of push messages, the object storage, SHA-256, the Unicode and the time zone database, the message
  reducer of the graph library, and how the contract classes read and write JSON. Strings are
  lists of code points, integers unbounded as in Python, with the width of the database column written
  out where it is checked.

  \<^bold>\<open>Theories.\<close>
  \<^item> \<open>Prelude\<close>: strings, instants and dates, JSON values, tables with a primary key (locale
    \<open>row_store\<close>), optimistic locking (locale \<open>optimistic_lock\<close>, extended by \<open>versioned_requests\<close> and its
    relatives).
  \<^item> \<open>Enums\<close>, \<open>Errors\<close>, \<open>Catalog\<close>, \<open>Models\<close>: \<open>core/enums.py\<close>, \<open>core/exceptions.py\<close> and
    \<open>ai/errors.py\<close>, the step catalogue of \<open>ai/planning_catalog.py\<close> and
    \<open>ai/features/planning/generation/catalog.py\<close>, \<open>models/*.py\<close>.
  \<^item> \<open>Event_Rules\<close>: \<open>services/event_rules.py\<close>, the pure rules that both views and handlers use.
  \<^item> \<open>Access\<close>: membership and roles of \<open>core/deps.py\<close>.
  \<^item> \<open>Action_Service\<close>: \<open>services/action_service.py\<close>, \<open>routers/actions.py\<close>, \<open>routers/steps.py\<close>.
  \<^item> \<open>Action_Draft\<close>: \<open>services/action_draft_service.py\<close>, the background drafts.
  \<^item> \<open>Event_Service\<close>: \<open>services/event_service.py\<close>, \<open>routers/plan_items.py\<close>, \<open>routers/events.py\<close>.
  \<^item> \<open>Plan_Review\<close>: \<open>services/plan_review_service.py\<close>.
  \<^item> \<open>Accounting\<close>: the expenses of \<open>services/accounting_service.py\<close>; \<open>Receipt_Import\<close>: the import of
    expense files and receipt images of the same file, \<open>routers/accounting.py\<close>.
  \<^item> \<open>Calendar\<close>, \<open>Utf8\<close>, \<open>Csv_Reader\<close>, \<open>Expense_Csv\<close>: \<open>services/expense_csv_parser.py\<close> with what it
    uses of the standard library (dates, the UTF-8 decoder, the \<open>csv\<close> module, \<open>strptime\<close>, \<open>int\<close>);
    \<open>Expense_Export\<close>: the round trip.
  \<^item> \<open>Task_Desk\<close>: \<open>services/task_service.py\<close>, \<open>services/reminder_service.py\<close>, \<open>routers/tasks.py\<close>,
    \<open>routers/confirmed_tasks.py\<close>; \<open>Push_Dispatch\<close>: \<open>services/push_service.py\<close>.
  \<^item> \<open>Idempotency\<close>: \<open>core/idempotency.py\<close>.
  \<^item> \<open>Agent_Jobs\<close>: \<open>services/agent_job_service.py\<close>.
  \<^item> \<open>Action_Requests\<close>: the requests that carry a version, as interpretations of the locking locales.
  \<^item> \<open>Lifecycle\<close>: the step relation \<open>progress\<close>, in which every committed request and every background
    task is one step; \<open>Event_Lifecycle\<close> and \<open>Ledger\<close> hold its invariants.
  \<^item> \<open>Action_Results\<close>, \<open>Draft_Protocol\<close>, \<open>Plan_Edit\<close>, \<open>Review_Protocol\<close>, \<open>Cancel_Checklist\<close>,
    \<open>Receipt_Protocol\<close> (step relation \<open>import_step\<close>), \<open>Reminder_Protocol\<close> (\<open>desk_step\<close>): the behaviour of the
    single operations and of the protocols between them.
  \<^item> The planning assistant (\<open>ai/features/planning\<close>, \<open>ai/contracts.py\<close>): \<open>Plan_Contracts\<close> (the models of a
    turn with their validators), \<open>Plan_Conditions\<close> (\<open>agent/tools.py\<close>), \<open>Plan_Generation\<close>
    (\<open>generation/*.py\<close>), \<open>Plan_State\<close> (messages, histories, requests and \<open>state_codec.py\<close>), \<open>Plan_Agent\<close>
    (\<open>agent/nodes.py\<close>, \<open>agent/graph.py\<close>) with its theory \<open>Plan_Agent_Facts\<close>, \<open>Plan_Workflow\<close>
    (\<open>public_workflow.py\<close>).
  \<^item> The planning conversation: \<open>Plan_Turn\<close> (\<open>services/planning_service.py\<close>), \<open>Plan_Turn_Facts\<close> (saving turns as an
    interpretation of \<open>optimistic_lock\<close>, the stored plan, the request keys), \<open>Plan_Claims\<close> (its properties).
  \<^item> Operation records: \<open>Regex\<close> (what the code uses of \<open>re\<close>), \<open>Chunking\<close> (\<open>ai/features/retrieval/chunking.py\<close>,
    \<open>indexing.py\<close>) with \<open>Chunking_Facts\<close> and \<open>Document_Facts\<close>, \<open>Record_Parser\<close> (\<open>services/record_parser.py\<close>) with
    \<open>Record_Parser_Facts\<close>, \<open>Record_Desk\<close> (\<open>services/record_service.py\<close>, \<open>routers/records.py\<close>), \<open>Record_Protocol\<close>
    (step relation \<open>shelf_step\<close>), \<open>Record_Claims\<close> (its properties).
  \<^item> Meetings: \<open>Meeting_Desk\<close> (\<open>services/meeting_service.py\<close>, \<open>routers/meetings.py\<close>), \<open>Live_Judgment\<close> (the live path
    of \<open>services/context_service.py\<close>), \<open>Meeting_Talk\<close> (step relation \<open>talk_step\<close>: utterances, corrections and
    judgements as they interleave), \<open>Meeting_Review\<close> (\<open>services/meeting_review_service.py\<close>), \<open>Review_Room\<close> (step
    relation \<open>room_step\<close>: submissions, polls, names, drafts and taken tasks as they interleave),
    \<open>Meeting_Claims\<close> (its properties).
  \<^item> \<open>Demo\<close>, \<open>Demo_Desk\<close>, \<open>Demo_Plan\<close>: a concrete club on which the theorems are applied.

  \<^bold>\<open>What is shown.\<close> C1 to C8 are about every run: what is executed was approved as it
  stands, only members approve, an edit withdraws an approval, of competing requests with the same version
  one wins, the status of an event only moves forward and its states are sound, the ledger follows the
  executions. C9, C10 and C29 are about planning turns and their storage: none is lost, the
  stored plan is the generated one, the next turn starts where the last one ended. C16, C18, C19,
  C25 and C27 are about the assistant: which plans it accepts, that a turn ends whatever the model
  answers, that drafts stay valid, that conditions only change on what the user wrote, that a chat leaves
  a state that can be resumed. C15, C17 and C24 are about drafts and the flags shown to a member,
  C26 about plan edits, C28 about cancelling. C35, C36 and C37 are about imports into the
  ledger: an exported ledger reads back, an import is booked once and as confirmed, an overtaken reading is
  dropped. C38 and C39 bound how often a reminder is sent and show that a cancelled item stays silent,
  C40 that a finished request with a key is replayed. C13 and C14 are about meetings while they are
  recorded: judgements speak of the transcript as it is, and a client that polls sees exactly what changed.
  C11, C12, C20, C30 and C31 are about their review: the paid diarization is asked for once, tasks
  are taken over once and only with confirmed speakers, the minutes use the names that are stored, and a
  speaker is named exactly when the turns leave no doubt. C21, C22 and C23 are about records and
  their search index: cutting a document loses nothing, an uploaded table becomes searchable, the chunks of
  the index belong to indexed records. C32, C33 and C34 prove failures of the code. Theorems
  without a number describe the same operations further; some of them record behaviours that the comments
  or the interface do not announce (\<open>uncatalogued_step_is_an_internal_error\<close>, \<open>deny_ignores_approve_needed\<close>,
  \<open>stepless_edit_commits_then_404\<close>, \<open>unreadable_conversation_is_unhandled\<close>).

  \<^bold>\<open>Bounds and termination.\<close> Every loop of the modelled code runs over a table, a list of the request or a
  finite catalogue, and is a structural recursion, a fold or a map, with two exceptions: the CSV reader
  consumes a line per record and terminates by the number of lines left, and the graph of the assistant
  (\<open>run_graph\<close>) takes the recursion limit of the source as its fuel, 11 steps, running out of which is the
  exception \<open>GraphRecursion\<close>; C14 shows that it never occurs. Columns
  bounded by the schema are checked where the code checks them (\<open>fits_varchar\<close>, \<open>fits_int4\<close>).

  \<^bold>\<open>Not modelled.\<close> Clubs and accounts, the stream of planning progress, the operation cases and the discovery
  of records, Discord and its decisions, the sockets and buffers of the audio stream, and the fixtures of
  the test mode (\<open>submit_transcript\<close>, \<open>add_audio_chunk\<close>) are not modelled, nor the polling loop around the
  reminder dispatcher. Object storage, PDF and spreadsheet readers, speech recognition, diarization, push
  delivery, the language model client, prompts, migrations and offline scripts are input and output or
  external services: where their answers matter they are parameters.
\<close>

section \<open>Safety of execution\<close>

text \<open>
  C1. Nothing that needs an approval is executed without one: in every run of the service, if an action
  that needs approval (and is no confirmation question) is found DONE, then either it was DONE at the
  beginning with the same title, body, amount, due date and payload, or there was a state in between in
  which it stood APPROVED with exactly the work that was executed. Edits, drafts, plan replacement,
  cancellation and lost background tasks in any order do not break this.
\<close>

theorem executed_only_as_approved:
  assumes "progress\<^sup>*\<^sup>* d0 d" and "pk_actions d0" and "find_action d i = Some b" and "ac_status b = DONE"
    and "ac_approve_needed b" and "ac_type b \<noteq> CONFIRMATION"
  shows "(\<exists>a. find_action d0 i = Some a \<and> ac_status a = DONE \<and> same_work a b) \<or>
         (\<exists>d1 a. progress\<^sup>*\<^sup>* d0 d1 \<and> progress\<^sup>*\<^sup>* d1 d \<and> find_action d1 i = Some a \<and>
                 ac_status a = APPROVED \<and> same_work a b)"
  using assms by (rule executed_was_approved)


lemma demo_run: "progress\<^sup>*\<^sup>* demo demo_done"
proof -
  have "progress demo demo_approved" using demo_approve by (rule Approved)
  moreover have "progress demo_approved demo_done" using demo_mark_done by (rule Executed)
  ultimately show ?thesis by (meson rtranclp.simps)
qed

theorem executed_only_as_approved_witness:
  "\<exists>d1 a. progress\<^sup>*\<^sup>* demo d1 \<and> progress\<^sup>*\<^sup>* d1 demo_done \<and> find_action d1 ''act_2'' = Some a \<and>
          ac_status a = APPROVED \<and> same_work a (demo_row demo_done ''act_2'')"
  using executed_only_as_approved [OF demo_run demo_rows(1) demo_rows(5-8)] demo_rows(3,4) by force

text \<open>
  C2. Only people approve: when a step of the service turns an action APPROVED, that step is the approval
  request of an account that is an active owner or manager of the event's club, made while the event is
  running; the row names that member as the resolver and its version is one higher.
\<close>

theorem approval_is_a_members_act:
  assumes "progress d d'" and "pk_actions d" and "find_action d i = Some a" and "ac_status a \<noteq> APPROVED"
    and "find_action d' i = Some b" and "ac_status b = APPROVED"
  shows "\<exists>m e acc. m \<in> set (members d) \<and> mb_account_id m = Some acc \<and> mb_status m = Member_ACTIVE \<and>
           mb_role m \<in> {OWNER, MANAGER} \<and> find_event d (ac_event_id a) = Some e \<and> mb_club_id m = ev_club_id e \<and>
           ev_status e = ON_GOING \<and> ac_resolved_by b = Some (mb_id m) \<and> ac_version b = ac_version a + 1"
proof -
  from progress_approval [OF assms(1)] obtain now acc aid v where
    ap: "approve_action now acc aid v d = Inr d'"
  proof (elim disjE)
    assume "no_new_approval d d'"
    then obtain a' where "a' \<in> set (actions d)" "ac_id a' = ac_id b" "ac_status a' = APPROVED"
      using find_action_mem [OF assms(5)] assms(6) by (auto simp: no_new_approval_def)
    then have "a' = a" using pk_actions_get [OF assms(2)] assms(3) find_action_id [OF assms(5)] by force
    with \<open>ac_status a' = APPROVED\<close> assms(4) show ?thesis by simp
  qed blast
  from endpoint_core(1) [OF ap] obtain e m where op: "operating_member aid acc d = Inr (e, m)"
    and core: "approve now m aid v d = Inr d'" by blast
  from core obtain a1 where a1: "find_action d aid = Some a1" "d' = put_action (set_resolution now m APPROVED a1) d"
    by (auto simp: approve_Inr)
  have id: "ac_id (set_resolution now m APPROVED a1) = aid" using find_action_id [OF a1(1)] by simp
  have "i = aid"
  proof (rule ccontr)
    assume "i \<noteq> aid"
    then have "find_action d' i = find_action d i"
      unfolding a1(2) using action_table.get_put_other [OF a1(1) id] by blast
    with assms(3-6) show False by simp
  qed
  then have b: "b = set_resolution now m APPROVED a" "a1 = a"
    using action_table.get_put_same [OF a1(1) id] a1 assms(3,5) by simp_all
  from op obtain a2 where "find_action d aid = Some a2" "find_event d (ac_event_id a2) = Some e" "ev_status e = ON_GOING"
    "ensure_member (ev_club_id e) acc None d = Inr m" by (rule operating_member_Inr)
  with \<open>i = aid\<close> assms(3) b show ?thesis
    using ensure_member_Inr [of "ev_club_id e" acc None d m] ensure_member_role [of "ev_club_id e" acc None d m]
    by (auto simp: set_resolution_def)
qed

theorem approval_is_a_members_act_witness:
  "\<exists>m e acc. m \<in> set (members demo) \<and> mb_account_id m = Some acc \<and> mb_status m = Member_ACTIVE \<and>
           mb_role m \<in> {OWNER, MANAGER} \<and> find_event demo (ac_event_id (demo_row demo ''act_2'')) = Some e \<and>
           mb_club_id m = ev_club_id e \<and> ev_status e = ON_GOING \<and>
           ac_resolved_by (demo_row demo_approved ''act_2'') = Some (mb_id m) \<and>
           ac_version (demo_row demo_approved ''act_2'') = ac_version (demo_row demo ''act_2'') + 1"
  by (rule approval_is_a_members_act [OF Approved [OF demo_approve] demo_rows(1) demo_rows(3)]) code_simp+

text \<open>
  C3. Editing an approved action takes the approval back: after any accepted edit of an action that needs
  approval, the request to record its execution is refused whatever version it carries, until it is
  approved again.
\<close>

theorem edit_withdraws_approval:
  assumes "update_action g now vals pv mid aid v d = Inr d'" and "find_action d aid = Some a"
    and "ac_approve_needed a" and "ac_type a \<noteq> CONFIRMATION"
  shows "mark_done g' now' m aid v' d' = Inl AlreadyResolved"
  using assms(1)
proof (rule update_action_actions)
  fix a'
  assume *: "find_action d aid = Some a'" "is_editable (ac_status a')"
    "actions d' = put_row ac_id (edited_row vals pv a') (actions d)"
  then have "a' = a" using assms(2) by simp
  then have "find_action d' aid = Some (edited_row vals pv a)"
    using * get_put_row [of ac_id "actions d" "edited_row vals pv a" a aid] find_action_id [OF assms(2)] assms(2)
    by (simp add: find_action_def)
  moreover have "ac_status (edited_row vals pv a) = PENDING"
    using * \<open>a' = a\<close> by (auto simp: is_editable_def)
  ultimately show ?thesis
    using assms(3,4)
    by (simp add: mark_done_def lock_action_def not_confirmation_def is_confirmation_def can_mark_done_def)
qed

theorem edit_withdraws_approval_witness:
  "mark_done demo_rnd 40 demo_owner ''act_2'' 3 demo_edited = Inl AlreadyResolved"
proof (rule edit_withdraws_approval)
  show "update_action demo_rnd 30 demo_edit [] ''mem_1'' ''act_2'' 2 demo_approved = Inr demo_edited"
    unfolding demo_edited_def by (rule ok_res) code_simp
  show "find_action demo_approved ''act_2'' = Some (demo_row demo_approved ''act_2'')" by code_simp
  show "ac_approve_needed (demo_row demo_approved ''act_2'')" by code_simp
  show "ac_type (demo_row demo_approved ''act_2'') \<noteq> CONFIRMATION" by code_simp
qed

section \<open>Concurrent requests\<close>

text \<open>
  C4. Of all the requests on an action that carry the same version (approvals, denials, answers,
  executions, redrafts and edits by any members, in any order of arrival), at most one takes effect.
\<close>

theorem same_version_one_winner:
  assumes "pk_actions d" and "\<forall>(q, w) \<in> set qs. w = v"
  shows "action_requests.wins aid d qs \<le> 1"
  using assms by (rule action_requests.at_most_one_win)

theorem same_version_one_winner_witness:
  "action_requests.wins ''act_2'' demo
     [(Deny 5 demo_owner None, 1), (Approve 6 demo_owner, 1), (Edit demo_rnd 7 demo_edit [] ''mem_1'', 1)] \<le> 1"
  by (rule same_version_one_winner [where v = 1]) (simp_all add: demo_rows)

text \<open>
  C5. No update is lost: after any sequence of requests on an action, with whatever versions, the stored
  version has grown by exactly the number of requests that took effect.
\<close>

theorem version_counts_accepted_requests:
  assumes "pk_actions d" and "find_action d aid = Some a"
  shows "\<exists>b. find_action (action_requests.run aid d qs) aid = Some b \<and>
             ac_version b = ac_version a + int (action_requests.wins aid d qs)"
  using assms by (rule action_requests.version_counts_wins)

theorem version_counts_accepted_requests_witness:
  "\<exists>b. find_action (action_requests.run ''act_2'' demo [(Approve 6 demo_owner, 1), (Deny 7 demo_owner None, 1)]) ''act_2'' = Some b \<and>
       ac_version b = ac_version (demo_row demo ''act_2'') +
         int (action_requests.wins ''act_2'' demo [(Approve 6 demo_owner, 1), (Deny 7 demo_owner None, 1)])"
  by (rule version_counts_accepted_requests [OF demo_rows(1,3)])

section \<open>Events\<close>

text \<open>
  C6. The status of an event only moves forward, from planning to running to complete, or from running
  to cancelling to cancelled, one move per step, and the club and the identity stay; it starts only
  with a start date and steps, completes only when no step and no action is left, and is cancelled only
  when the checklist has no open task.
\<close>

theorem event_status_moves:
  assumes "progress d d'" and "find_event d i = Some e"
  shows "\<exists>e'. find_event d' i = Some e' \<and> ev_club_id e' = ev_club_id e \<and>
     (ev_status e' = ev_status e \<or>
      ev_status e = PLANNING \<and> ev_status e' = ON_GOING \<and> ev_start_date e' \<noteq> None \<and> (\<exists>s \<in> set (steps d'). st_event_id s = i) \<or>
      ev_status e = ON_GOING \<and> ev_status e' = COMPLETE \<and> finished d' i \<or>
      ev_status e = ON_GOING \<and> ev_status e' = CANCELLING \<or>
      ev_status e = CANCELLING \<and> ev_status e' = CANCELLED \<and> no_open_cancel_tasks d' i)"
proof -
  from progress_events [OF assms(1)] assms(2) obtain e' where e': "find_event d' i = Some e'" "event_law d' e e'"
    by (cases "find_event d' i") (auto simp: events_by_def dest: spec [of _ i])
  have "ev_id e' = i" using e'(1) by (rule event_table.get_key)
  with e'(2) have "ev_club_id e' = ev_club_id e \<and>
     (ev_status e' = ev_status e \<or>
      ev_status e = PLANNING \<and> ev_status e' = ON_GOING \<and> ev_start_date e' \<noteq> None \<and> (\<exists>s \<in> set (steps d'). st_event_id s = i) \<or>
      ev_status e = ON_GOING \<and> ev_status e' = COMPLETE \<and> finished d' i \<or>
      ev_status e = ON_GOING \<and> ev_status e' = CANCELLING \<or>
      ev_status e = CANCELLING \<and> ev_status e' = CANCELLED \<and> no_open_cancel_tasks d' i)"
    by (auto simp: event_law_def event_moves_def entry_guard_def)
  with e'(1) show ?thesis by blast
qed

theorem event_status_moves_witness:
  "\<exists>e'. find_event demo_started ''evt_p'' = Some e' \<and> ev_club_id e' = ''clb_1'' \<and> ev_status e' = ON_GOING"
proof -
  have "find_event demo ''evt_p'' = Some (demo_event ''evt_p'' PLANNING)" by code_simp
  from event_status_moves [OF Started [OF demo_start] this] obtain e' where
    "find_event demo_started ''evt_p'' = Some e'" "ev_club_id e' = ev_club_id (demo_event ''evt_p'' PLANNING)" by blast
  moreover have "map_option ev_status (find_event demo_started ''evt_p'') = Some ON_GOING" by code_simp
  ultimately show ?thesis by (simp add: demo_event_def)
qed



section \<open>The ledger\<close>



text \<open>
  Recording the execution of a transfer with a positive amount books exactly one new entry: the
  amount and the title of the action, the club and the event, dated now and created by the member; any
  other action leaves the ledger as it is.
\<close>

theorem execution_books_transfer:
  assumes "mark_done g now m aid v d = Inr d'" and "find_action d aid = Some a"
  shows "if ac_type a = TRANSFER \<and> (\<exists>n. ac_amount a = Some n \<and> 0 < n)
     then (\<exists>x e. expenses d' = expenses d @ [x] \<and> find_event d (ac_event_id a) = Some e \<and>
             ex_action_id x = Some aid \<and> Some (ex_amount x) = ac_amount a \<and> ex_club_id x = ev_club_id e \<and>
             ex_event_id x = Some (ac_event_id a) \<and> ex_source x = Expense_ACTION \<and>
             ex_description x = Some (ac_title a) \<and> ex_created_by x = mb_id m \<and> ex_spent_at x = now)
     else expenses d' = expenses d"
  using assms by (rule mark_done_expenses)

theorem execution_books_transfer_witness:
  "\<exists>x. expenses (res (mark_done demo_rnd 20 demo_owner ''act_2'' 2 demo_approved)) = expenses demo_approved @ [x] \<and>
       ex_amount x = 30000 \<and> ex_action_id x = Some ''act_2''"
proof -
  have "ok (mark_done demo_rnd 20 demo_owner ''act_2'' 2 demo_approved)" by code_simp
  note run = ok_res [OF this]
  have a: "find_action demo_approved ''act_2'' = Some (demo_row demo_approved ''act_2'')"
    "ac_type (demo_row demo_approved ''act_2'') = TRANSFER" "ac_amount (demo_row demo_approved ''act_2'') = Some 30000"
    by code_simp+
  show ?thesis using execution_books_transfer [OF run a(1)] a(2,3) by auto
qed

text \<open>
  Recording an execution completes the action's open step, at that moment, exactly when all actions
  of the step are DONE afterwards.
\<close>

theorem last_execution_completes_step:
  assumes "mark_done g now m aid v d = Inr d'" and "pk_actions d" and "find_action d aid = Some a"
    and "ac_step_id a = Some sid" and "find_step d sid = Some s" and "st_completed_at s = None"
  shows "(\<exists>s'. find_step d' sid = Some s' \<and> st_completed_at s' = Some now) \<longleftrightarrow>
     (\<forall>a \<in> set (step_actions d' sid). ac_status a = DONE) \<and> step_actions d' sid \<noteq> []"
  using assms by (rule mark_done_step)

theorem last_execution_completes_step_witness:
  "\<not> (\<exists>s'. find_step (res (mark_done demo_rnd 20 demo_owner ''act_2'' 2 demo_approved)) ''stp_3'' = Some s' \<and>
          st_completed_at s' = Some 20)"
proof -
  let ?d = "res (mark_done demo_rnd 20 demo_owner ''act_2'' 2 demo_approved)"
  have "ok (mark_done demo_rnd 20 demo_owner ''act_2'' 2 demo_approved)" by code_simp
  note run = ok_res [OF this]
  have a: "find_action demo_approved ''act_2'' = Some (demo_row demo_approved ''act_2'')"
    "ac_step_id (demo_row demo_approved ''act_2'') = Some ''stp_3''"
    "find_step demo_approved ''stp_3'' = Some (demo_step ''stp_3'' ''evt_o'' 1 SETTLE_EXPENSES EXECUTION)"
    "st_completed_at (demo_step ''stp_3'' ''evt_o'' 1 SETTLE_EXPENSES EXECUTION) = None"
    by code_simp+
  have "\<not> list_all (\<lambda>a. ac_status a = DONE) (step_actions ?d ''stp_3'')" by code_simp
  then have "\<not> ((\<forall>a \<in> set (step_actions ?d ''stp_3''). ac_status a = DONE) \<and> step_actions ?d ''stp_3'' \<noteq> [])"
    by (simp add: list_all_iff)
  with last_execution_completes_step [OF run demo_rows(2) a] show ?thesis by blast
qed

section \<open>Drafts\<close>



text \<open>
  A redraft supersedes the task that is still running: after an accepted redraft, the result of any
  attempt other than the new one changes no row, whatever the model answered.
\<close>

theorem redraft_supersedes:
  assumes "request_redraft g now aid v d = Inr d'" and "att \<noteq> uuid4_hex g (draws d)"
  shows "actions (run_draft ai input aid att d') = actions d'"
  using assms(1)
proof (rule request_redraft_Inr)
  fix a e
  assume a: "find_action d aid = Some a" and d': "d' = spawn_draft aid (uuid4_hex g (draws d))
      (put_action (redraft_row (uuid4_hex g (draws d)) now a) (drawn d))"
  let ?b = "redraft_row (uuid4_hex g (draws d)) now a"
  have "find_action (put_action ?b (drawn d)) aid = Some ?b"
    using a find_action_id [OF a] by (intro action_table.get_put_same) simp_all
  then have "find_action d' aid = Some ?b" by (simp add: d' find_action_def)
  then have "finish aid att oc d' = d'" for oc
    using assms(2) by (simp add: finish_def split: option.split)
  then show ?thesis by (simp add: run_draft_actions split: option.split)
qed

theorem redraft_supersedes_witness:
  "actions (run_draft (\<lambda>_. Inr (lit ''old'', [])) (draft_input ''act_3'' 739000 demo_redrafted) ''act_3'' ''stale'' demo_redrafted) = actions demo_redrafted"
  by (rule redraft_supersedes [OF demo_redraft]) code_simp

text \<open>
  C17. A redraft that nothing comes in between reaches the page: when the task of the new attempt ends
  with a text, the action is READY with that text, written by the AI, two versions up.
\<close>

theorem redraft_is_delivered:
  assumes "request_redraft g now aid v d = Inr d'" and "find_action d aid = Some a"
    and "draft_input aid today d' = Some rq" and "ai rq = Inr (content, unknowns)"
  shows "\<exists>b. find_action (run_draft ai (draft_input aid today d') aid (uuid4_hex g (draws d)) d') aid = Some b \<and>
     ac_content b = Some content \<and> ac_content_status b = Content_READY \<and> ac_content_source b = Some Source_AI \<and>
     ac_content_unknowns b = unknowns \<and> ac_status b = PENDING \<and> ac_version b = ac_version a + 2"
  using assms(1)
proof (rule request_redraft_Inr)
  fix a' e
  assume a': "find_action d aid = Some a'" and e: "find_event d (ac_event_id a') = Some e"
    and can: "can_request_draft (ev_status e) (ac_status a') (ac_type a') (ac_content_status a')
           (ac_content_source a') (ac_draft_started_at a') now"
    and d': "d' = spawn_draft aid (uuid4_hex g (draws d)) (put_action (redraft_row (uuid4_hex g (draws d)) now a') (drawn d))"
  have a: "a' = a" using a' assms(2) by simp
  let ?b = "redraft_row (uuid4_hex g (draws d)) now a"
  have "find_action (put_action ?b (drawn d)) aid = Some ?b"
    using assms(2) find_action_id [OF assms(2)] by (intro action_table.get_put_same) simp_all
  then have b: "find_action d' aid = Some ?b" by (simp add: d' a find_action_def)
  have ev: "find_event d' (ac_event_id ?b) = Some e" using e a by (simp add: d' find_event_def put_action_def)
  have "writable e ?b" using can a by (simp add: writable_def can_request_draft_iff blank_def py_strip_def)
  with finish_find [OF b ev, of "uuid4_hex g (draws d)" "Draft_Result content unknowns"]
  have "find_action (finish aid (uuid4_hex g (draws d)) (Draft_Result content unknowns) d') aid =
      Some (store_outcome (Draft_Result content unknowns) ?b)" by simp
  moreover have "find_action (forget aid t D) aid = find_action D aid" for t D by (simp add: forget_def find_action_def)
  ultimately show ?thesis
    using assms(3,4) can a by (simp add: run_draft_def draft_outcome_of_def store_outcome_def can_request_draft_iff)
qed

theorem redraft_is_delivered_witness:
  "\<exists>b. find_action (run_draft (\<lambda>_. Inr (lit ''body'', [])) (draft_input ''act_3'' 739000 demo_redrafted) ''act_3''
          (uuid4_hex demo_rnd (draws demo_failed)) demo_redrafted) ''act_3'' = Some b \<and>
     ac_content b = Some (lit ''body'') \<and> ac_content_status b = Content_READY \<and> ac_content_source b = Some Source_AI \<and>
     ac_content_unknowns b = [] \<and> ac_status b = PENDING \<and> ac_version b = ac_version (demo_row demo_failed ''act_3'') + 2"
proof (rule redraft_is_delivered [OF demo_redraft])
  show "find_action demo_failed ''act_3'' = Some (demo_row demo_failed ''act_3'')" by code_simp
  have "draft_input ''act_3'' 739000 demo_redrafted \<noteq> None" by code_simp
  then show "draft_input ''act_3'' 739000 demo_redrafted = Some (the (draft_input ''act_3'' 739000 demo_redrafted))" by simp
qed simp

text \<open>
  Asking for the drafts of the current step again right away starts nothing: no action is drafted
  twice at the same time, whatever completed, started or retried the step.
\<close>

theorem current_step_drafted_once:
  assumes "pk_actions d"
  shows "request_current_step_drafts g' now' eid (request_current_step_drafts g now eid d) =
           request_current_step_drafts g now eid d"
  using drafts_not_repeated [OF assms] by (simp add: request_current_step_drafts_def [of g'])

theorem current_step_drafted_once_witness:
  "request_current_step_drafts demo_rnd 50 ''evt_o'' (request_current_step_drafts demo_rnd 40 ''evt_o'' demo) =
     request_current_step_drafts demo_rnd 40 ''evt_o'' demo"
  by (rule current_step_drafted_once [OF demo_rows(1)])

text \<open>
  A draft that hangs (lost with its process) can be asked for again once three minutes have passed, and
  not before: of a pending notice or send action of a running event whose body no person wrote, a
  redraft with the current version succeeds exactly when the mark is at least three minutes old.
\<close>

theorem hanging_draft_retry:
  assumes "find_action d aid = Some a" and "find_event d (ac_event_id a) = Some e" and "ev_status e = ON_GOING"
    and "ac_status a = PENDING" and "ac_type a \<in> {NOTICE, EXTERNAL_SEND}" and "ac_content_source a \<noteq> Some Source_USER"
    and "ac_content_status a = Content_DRAFTING" and "ac_draft_started_at a = Some t"
  shows "(\<exists>d'. request_redraft g now aid (ac_version a) d = Inr d') \<longleftrightarrow> now - t \<ge> 180000000"
  using redraft_accepts [OF assms(1,2), of g now] assms(3-8)
  by (auto simp: can_request_draft_def is_draft_stale_def is_operating_def DRAFT_ACTION_TYPES_def DRAFT_TIMEOUT_def
      minutes_def seconds_def)

theorem hanging_draft_retry_witness:
  "(\<exists>d'. request_redraft demo_rnd 180000040 ''act_3'' 1 (request_current_step_drafts demo_rnd 40 ''evt_o'' demo) = Inr d') \<and>
   \<not> (\<exists>d'. request_redraft demo_rnd 180000039 ''act_3'' 1 (request_current_step_drafts demo_rnd 40 ''evt_o'' demo) = Inr d')"
proof -
  let ?d = "request_current_step_drafts demo_rnd 40 ''evt_o'' demo" and ?a = "demo_row (request_current_step_drafts demo_rnd 40 ''evt_o'' demo) ''act_3''"
  have a: "find_action ?d ''act_3'' = Some ?a" "find_event ?d (ac_event_id ?a) = Some (demo_event ''evt_o'' ON_GOING)"
    "ev_status (demo_event ''evt_o'' ON_GOING) = ON_GOING" "ac_status ?a = PENDING" "ac_type ?a \<in> {NOTICE, EXTERNAL_SEND}"
    "ac_content_source ?a \<noteq> Some Source_USER" "ac_content_status ?a = Content_DRAFTING" "ac_draft_started_at ?a = Some 40"
    by code_simp+
  have "ac_version ?a = 1" by code_simp
  then show ?thesis
    using hanging_draft_retry [OF a, of demo_rnd 180000040] hanging_draft_retry [OF a, of demo_rnd 180000039] by simp
qed

section \<open>The flags of the views\<close>

text \<open>
  C24. The flag \<open>canApprove\<close> that a member sees on an action (other than a confirmation question) says
  exactly whether that member's approval, sent with the shown version, is accepted.
\<close>

theorem can_approve_flag_exact:
  assumes "find_action d aid = Some a" and "find_event d (ac_event_id a) = Some e"
    and "ensure_member (ev_club_id e) acc None d = Inr m" and "ac_type a \<noteq> CONFIRMATION"
  shows "ao_can_approve (action_out now m (ev_status e) d a) \<longleftrightarrow>
           (\<exists>d'. approve_action now acc aid (ac_version a) d = Inr d')"
  using approve_accepts [OF assms] by (simp add: action_out_def Let_def)

theorem can_approve_flag_exact_witness:
  "ao_can_approve (action_out 9 demo_owner ON_GOING demo (demo_row demo ''act_2'')) \<longleftrightarrow>
     (\<exists>d'. approve_action 9 ''acc_1'' ''act_2'' (ac_version (demo_row demo ''act_2'')) demo = Inr d')"
proof -
  have "find_event demo (ac_event_id (demo_row demo ''act_2'')) = Some (demo_event ''evt_o'' ON_GOING)"
    "ensure_member (ev_club_id (demo_event ''evt_o'' ON_GOING)) ''acc_1'' None demo = Inr demo_owner"
    "ac_type (demo_row demo ''act_2'') \<noteq> CONFIRMATION" "ev_status (demo_event ''evt_o'' ON_GOING) = ON_GOING"
    by code_simp+
  then show ?thesis using can_approve_flag_exact [OF demo_rows(3), of "demo_event ''evt_o'' ON_GOING" "''acc_1''" demo_owner 9] by simp
qed

text \<open>
  The flag \<open>canRequestDraft\<close> says exactly whether a redraft with the shown version is accepted.
\<close>

theorem can_request_draft_flag_exact:
  assumes "find_action d aid = Some a" and "find_event d (ac_event_id a) = Some e"
  shows "ao_can_request_draft (action_out now m (ev_status e) d a) \<longleftrightarrow>
           (\<exists>d'. request_redraft g now aid (ac_version a) d = Inr d')"
  using redraft_accepts [OF assms] by (simp add: action_out_def Let_def)

theorem can_request_draft_flag_exact_witness:
  "ao_can_request_draft (action_out 9 demo_owner ON_GOING demo (demo_row demo ''act_2'')) \<longleftrightarrow>
     (\<exists>d'. request_redraft demo_rnd 9 ''act_2'' (ac_version (demo_row demo ''act_2'')) demo = Inr d')"
proof -
  have "find_event demo (ac_event_id (demo_row demo ''act_2'')) = Some (demo_event ''evt_o'' ON_GOING)"
    "ev_status (demo_event ''evt_o'' ON_GOING) = ON_GOING"
    by code_simp+
  then show ?thesis using can_request_draft_flag_exact [OF demo_rows(3)] by metis
qed

section \<open>Plans\<close>

text \<open>
  C26. Replacing the steps of a plan yields exactly the steps asked for: in the order of the phases and,
  within a phase, of the request, numbered from 1 without gaps; a step that stays keeps everything but
  its number, and steps of other events are untouched.
\<close>

theorem replaced_plan_is_the_requested_one:
  assumes "replace_plan_steps g now mid eid codes v d = Inr d'" and "pk_steps d" and "unique_codes eid d"
  shows "map st_code (ordered_steps d' eid) = sort_key (\<lambda>c. the (code_rank c)) codes \<and>
         map st_step_order (ordered_steps d' eid) = map int [1..<Suc (length codes)] \<and>
         (\<forall>s. s \<in> set (steps d) \<and> (st_event_id s = eid \<longrightarrow> st_code s \<in> set codes) \<longrightarrow>
            (if st_event_id s = eid then \<exists>n. s\<lparr>st_step_order := n\<rparr> \<in> set (steps d') else s \<in> set (steps d')))"
  using replaced_plan_codes(1) [OF assms] replaced_plan_numbers [OF assms] replaced_plan_keeps [OF assms] by blast

theorem replaced_plan_is_the_requested_one_witness:
  "map st_code (ordered_steps demo_replaced ''evt_p'') = [ASSIGN_ROLES, COLLECT_FEES, RECRUIT_NOTICE] \<and>
   map st_step_order (ordered_steps demo_replaced ''evt_p'') = [1, 2, 3]"
proof -
  have "pk_steps demo" "unique_codes ''evt_p'' demo" by code_simp+
  note plan = replaced_plan_is_the_requested_one [OF demo_replace this]
  then have "map st_code (ordered_steps demo_replaced ''evt_p'') =
      sort_key (\<lambda>c. the (code_rank c)) [COLLECT_FEES, ASSIGN_ROLES, RECRUIT_NOTICE]" by (rule conjunct1)
  also have "\<dots> = [ASSIGN_ROLES, COLLECT_FEES, RECRUIT_NOTICE]" by code_simp
  finally show ?thesis using plan by (simp add: upt_rec)
qed

text \<open>
  Ordering the requested codes never drops, adds or duplicates one, puts the phases in their order,
  and keeps the order of the request inside each phase; it is refused exactly when a code is not in the
  catalogue.
\<close>

theorem order_codes_stable_by_phase:
  "case order_codes codes of
     Inl err \<Rightarrow> err = Unhandled ''KeyError'' \<and> (\<exists>c \<in> set codes. code_rank c = None)
   | Inr ordered \<Rightarrow> mset ordered = mset codes \<and> sorted (map (\<lambda>c. the (code_rank c)) ordered) \<and>
       (\<forall>r. filter (\<lambda>c. the (code_rank c) = r) ordered = filter (\<lambda>c. the (code_rank c) = r) codes)"
  by (auto simp: order_codes_def list_all_iff sort_key_stable split: sum.splits)

text \<open>
  A plan that asks for a step outside the planning catalogue (the codes of the cancellation phase,
  which the request schema admits) is not refused as a validation error: the lookup raises and the
  request ends as an internal error.
\<close>

theorem uncatalogued_step_is_an_internal_error:
  assumes "find_event d eid = Some e" and "ev_status e = PLANNING" and "latest_conversation d eid = Some c"
    and "distinct codes" and "code \<in> set codes" and "BY_CODE code = None"
  shows "replace_plan_steps g now mid eid codes (cv_base_revision c) d = Inl (Unhandled ''KeyError'')"
proof -
  have "code_rank code = None" using assms(6) by (simp add: code_rank_def)
  then have "order_codes codes = Inl (Unhandled ''KeyError'')"
    using assms(5) by (auto simp: order_codes_def list_all_iff)
  then show ?thesis
    using assms by (auto simp: replace_plan_steps_def plan_conversation_def rebuild_plan_def Let_def)
qed

theorem uncatalogued_step_is_an_internal_error_witness:
  "replace_plan_steps demo_rnd 60 ''mem_1'' ''evt_p'' [CANCEL_VENUE] 1 demo_replaced = Inl (Unhandled ''KeyError'')"
proof -
  let ?c = "the (latest_conversation demo_replaced ''evt_p'')"
  have "find_event demo_replaced ''evt_p'' = Some (the (find_event demo_replaced ''evt_p''))"
    "ev_status (the (find_event demo_replaced ''evt_p'')) = PLANNING" "latest_conversation demo_replaced ''evt_p'' = Some ?c"
    "distinct [CANCEL_VENUE]" "CANCEL_VENUE \<in> set [CANCEL_VENUE]" "BY_CODE CANCEL_VENUE = None"
    by code_simp+
  note run = uncatalogued_step_is_an_internal_error [OF this, of demo_rnd 60 "''mem_1''"]
  have "cv_base_revision ?c = 1" by code_simp
  with run show ?thesis by simp
qed

section \<open>The plan review\<close>

text \<open>
  The model is asked once per revision: after a review request has gone to the model, the same
  request within the 90 seconds, or at any time after its result was stored, is answered from the stored
  row and changes nothing.
\<close>

theorem review_asked_once:
  assumes "request_review g now draft eid v d = Inr (Ask rq rid, d1)"
  shows "(now' - now \<le> 90000000 \<longrightarrow>
           (\<exists>out. request_review g' now' draft' eid v d1 = Inr (Answer out, d1))) \<and>
         (\<exists>out. request_review g' now' draft' eid v (snd (store_result at eid rid (Review_Result oc items) d1)) =
           Inr (Answer (Some out), snd (store_result at eid rid (Review_Result oc items) d1)) \<and>
           ro_status out = Review_DONE \<and> ro_outcome out = Some oc \<and> map fst (ro_items out) = items)"
proof (rule conjI)
  from assms obtain e r where e: "ev_status e = PLANNING" "ev_plan_revision e = v"
    and r: "find_plan_review d1 eid = Some (reviewing now v rid r)" "find_event d1 eid = Some e"
    by (rule request_review_Ask)
  show "now' - now \<le> 90000000 \<longrightarrow> (\<exists>out. request_review g' now' draft' eid v d1 = Inr (Answer out, d1))"
  proof
    assume "now' - now \<le> 90000000"
    then have "\<not> timed_out (reviewing now v rid r) now'"
      by (simp add: timed_out_def reviewing_def REVIEW_TIMEOUT_def seconds_def)
    then show "\<exists>out. request_review g' now' draft' eid v d1 = Inr (Answer out, d1)"
      using request_review_answered [OF r(2) e r(1), of now'] by (auto simp: reviewing_def)
  qed
  let ?r = "finish_review at (Review_Result oc items) (reviewing now v rid r)"
  let ?d2 = "put_plan_review ?r d1"
  have store: "snd (store_result at eid rid (Review_Result oc items) d1) = ?d2"
    using r(1) by (simp add: store_result_def reviewing_def)
  have "pr_event_id ?r = eid"
    using plan_review_table.get_key [OF r(1)] by (simp add: finish_review_def)
  then have r2: "find_plan_review ?d2 eid = Some ?r" using r(1) by (intro plan_review_table.get_put_same)
  have e2: "find_event ?d2 eid = Some e" using r(2) by (simp add: find_event_def put_plan_review_def)
  have f: "pr_reviewed_revision ?r = Some v" "pr_status ?r = Review_DONE" "pr_outcome ?r = Some oc" "pr_items ?r = Some items"
    by (simp_all add: finish_review_def reviewing_def)
  have "\<exists>out. review_out (Some ?r) now' = Some out \<and> ro_status out = Review_DONE \<and> ro_outcome out = Some oc \<and>
      map fst (ro_items out) = items"
    by (simp add: review_out_def Let_def f comp_def)
  then show "(\<exists>out. request_review g' now' draft' eid v (snd (store_result at eid rid (Review_Result oc items) d1)) =
           Inr (Answer (Some out), snd (store_result at eid rid (Review_Result oc items) d1)) \<and>
           ro_status out = Review_DONE \<and> ro_outcome out = Some oc \<and> map fst (ro_items out) = items)"
    unfolding store using request_review_answered [OF e2 e r2 f(1), of now' g' draft'] f(2) by auto
qed

theorem review_asked_once_witness:
  "\<exists>out. request_review demo_rnd 100 (\<lambda>_. ()) ''evt_p'' 0 demo_reviewing = Inr (Answer out, demo_reviewing)"
  using review_asked_once [OF demo_review_ask, of 100 demo_rnd "\<lambda>_. ()"] by simp

text \<open>
  The result of a superseded review is dropped: once a newer request is on its way, whatever the
  older call answers or fails with leaves the database as it is.
\<close>

theorem superseded_review_dropped:
  assumes "request_review g now draft eid v d = Inr (Ask rq rid, d1)" and "old \<noteq> rid"
  shows "snd (finish_request_review now' eid old answer d1) = d1"
proof -
  from assms(1) obtain r where r: "find_plan_review d1 eid = Some (reviewing now v rid r)"
    by (rule request_review_Ask)
  have "snd (store_result now' eid old res d1) = d1" for res
    using store_result_other [OF r, of old now' res] assms(2) by (simp add: reviewing_def)
  then show ?thesis
    by (auto simp: finish_request_review_def map_prod_def case_prod_unfold split: sum.split option.split)
qed

theorem superseded_review_dropped_witness:
  "snd (finish_request_review 100 ''evt_p'' ''older'' (Inr (''REVIEWED'', [])) demo_reviewing) = demo_reviewing"
  by (rule superseded_review_dropped [OF demo_review_ask]) code_simp

text \<open>
  A review never covers an edit it has not seen: after an edit of an action that changes something in a
  plan still open, a review request for the old revision is refused with a version conflict.
\<close>

theorem edit_outdates_review:
  assumes "update_action g now vals pv mid aid v d = Inr d'" and "find_action d aid = Some a"
    and "find_event d (ac_event_id a) = Some e" and "ev_status e = PLANNING" and "edit_changed vals pv a"
  shows "request_review g' now' draft (ac_event_id a) (ev_plan_revision e) d' = Inl VersionConflict"
proof -
  from update_action_revision [OF assms] obtain e' where e': "find_event d' (ac_event_id a) = Some e'"
    "ev_status e' = PLANNING" "ev_plan_revision e' = ev_plan_revision e + 1" by blast
  show ?thesis by (rule request_review_stale [OF e'(1,2)]) (simp add: e'(3))
qed

theorem edit_outdates_review_witness:
  "request_review demo_rnd 90 (\<lambda>_. ()) ''evt_p'' 0
     (res (update_action demo_rnd 80 demo_edit [] ''mem_1'' ''act_1'' 1 demo)) = Inl VersionConflict"
proof -
  have "ok (update_action demo_rnd 80 demo_edit [] ''mem_1'' ''act_1'' 1 demo)" by code_simp
  note run = ok_res [OF this]
  have a: "find_action demo ''act_1'' = Some (demo_row demo ''act_1'')"
    "find_event demo (ac_event_id (demo_row demo ''act_1'')) = Some (demo_event ''evt_p'' PLANNING)"
    "ev_status (demo_event ''evt_p'' PLANNING) = PLANNING" "edit_changed demo_edit [] (demo_row demo ''act_1'')"
    "ac_event_id (demo_row demo ''act_1'') = ''evt_p''" "ev_plan_revision (demo_event ''evt_p'' PLANNING) = 0"
    by code_simp+
  from edit_outdates_review [OF run a(1-4)] show ?thesis unfolding a(5,6) .
qed

text \<open>
  The review request reports steps as moved exactly when some phase has the common steps of the
  current plan and of the baseline in a different order; taking steps out of a plan never reports the
  remaining ones as moved.
\<close>

theorem moved_codes_exact:
  assumes "distinct current" and "distinct baseline"
  shows "(moved_codes current baseline = [] \<longleftrightarrow>
     (\<forall>ph. phase_sequences (filter (\<lambda>c. c \<in> set baseline) current) ph =
           phase_sequences (filter (\<lambda>c. c \<in> set current) baseline) ph)) \<and>
     moved_codes (filter p baseline) baseline = []"
  using moved_codes_empty_iff [OF assms] moved_codes_subplan by (simp add: common_def)

theorem moved_codes_exact_witness:
  "moved_codes (filter (\<lambda>c. c \<noteq> COLLECT_FEES) [RECRUIT_NOTICE, COLLECT_FEES, SETTLE_EXPENSES])
     [RECRUIT_NOTICE, COLLECT_FEES, SETTLE_EXPENSES] = [] \<and>
   (moved_codes [COLLECT_FEES, RECRUIT_NOTICE] [RECRUIT_NOTICE, COLLECT_FEES] = []) =
     (\<forall>ph. phase_sequences (filter (\<lambda>c. c \<in> set [RECRUIT_NOTICE, COLLECT_FEES]) [COLLECT_FEES, RECRUIT_NOTICE]) ph =
           phase_sequences (filter (\<lambda>c. c \<in> set [COLLECT_FEES, RECRUIT_NOTICE]) [RECRUIT_NOTICE, COLLECT_FEES]) ph)"
  using moved_codes_exact [of "[RECRUIT_NOTICE]" "[RECRUIT_NOTICE, COLLECT_FEES, SETTLE_EXPENSES]" "\<lambda>c. c \<noteq> COLLECT_FEES"]
    moved_codes_exact [of "[COLLECT_FEES, RECRUIT_NOTICE]" "[RECRUIT_NOTICE, COLLECT_FEES]"] by simp

section \<open>Starting, finishing and cancelling an event\<close>

text \<open>
  An event starts exactly when it is in planning, has a start date and has at least one step; with
  something missing the answer names what: \<open>startDate\<close>, \<open>steps\<close>, in this order.
\<close>

theorem start_event_exact:
  assumes "find_event d eid = Some e"
  shows "((\<exists>d'. start_event g now eid d = Inr d') \<longleftrightarrow>
           ev_status e = PLANNING \<and> ev_start_date e \<noteq> None \<and> (\<exists>s \<in> set (steps d). st_event_id s = eid)) \<and>
         (start_event g now eid d = Inl (PlanIncomplete missing) \<longleftrightarrow>
           ev_status e = PLANNING \<and> missing \<noteq> [] \<and>
           missing = (if ev_start_date e = None then [''startDate''] else []) @
                     (if \<forall>s \<in> set (steps d). st_event_id s \<noteq> eid then [''steps''] else []))"
  using assms by (auto simp: start_event_def Let_def filter_empty_conv)

theorem start_event_exact_witness: "\<exists>d'. start_event demo_rnd 10 ''evt_p'' demo = Inr d'"
proof -
  have "find_event demo ''evt_p'' = Some (demo_event ''evt_p'' PLANNING)" "ev_status (demo_event ''evt_p'' PLANNING) = PLANNING"
    "ev_start_date (demo_event ''evt_p'' PLANNING) \<noteq> None" "\<exists>s \<in> set (steps demo). st_event_id s = ''evt_p''"
    by code_simp+
  then show ?thesis using start_event_exact by blast
qed

text \<open>
  C28. A cancellation can always be brought to its end: beginning it creates the checklist of four tasks,
  numbered from 1 and open, and completing the task that is shown as current four times, by any member,
  leaves the event CANCELLED.
\<close>

theorem cancellation_reaches_its_end:
  assumes "begin_event_cancellation g now eid d = Inr d'" and "\<forall>t \<in> set (cancel_tasks d). ct_event_id t \<noteq> eid"
    and "distinct (map ct_id (cancel_tasks d))"
  shows "map ct_task_order (list_cancel_tasks eid d') = [1, 2, 3, 4] \<and>
         (\<exists>e. find_event (work_off now' m eid 4 d') eid = Some e \<and> ev_status e = CANCELLED)"
proof (rule conjI)
  note begun = begin_event_cancellation_checklist [OF assms]
  have "map ct_task_order (open_cancel_tasks d' eid) = map fst (map (\<lambda>t. (ct_task_order t, ct_name t)) (open_cancel_tasks d' eid))"
    by (simp add: comp_def)
  also have "\<dots> = [1, 2, 3, 4]" unfolding begun(1) by (simp add: CANCEL_TASKS_def)
  finally have orders: "map ct_task_order (open_cancel_tasks d' eid) = [1, 2, 3, 4]" .
  then show "map ct_task_order (list_cancel_tasks eid d') = [1, 2, 3, 4]" unfolding begun(2) .
  have "length (open_cancel_tasks d' eid) = Suc 3"
    using arg_cong [OF orders, of length] by simp
  with begun(3) show "\<exists>e. find_event (work_off now' m eid 4 d') eid = Some e \<and> ev_status e = CANCELLED"
    using work_off_cancels [OF _ _ begun(4), of eid _ 3] by (auto simp: numeral_eq_Suc)
qed

theorem cancellation_reaches_its_end_witness:
  "\<exists>e. find_event (work_off 90 demo_owner ''evt_o'' 4 demo_cancelling) ''evt_o'' = Some e \<and> ev_status e = CANCELLED"
  by (rule cancellation_reaches_its_end [OF demo_cancel, THEN conjunct2]) code_simp+

text \<open>
  Completing a cancellation task twice is harmless: the second request, by whomever and whenever,
  answers with the same task and changes nothing.
\<close>

theorem cancel_task_completion_idempotent:
  assumes "complete_cancel_task now eid tid m d = Inr (t, d')"
  shows "complete_cancel_task now' eid tid m' d' = Inr (t, d')"
  using assms
proof (cases rule: complete_cancel_task_Inr)
  case repeated
  with assms show ?thesis
    by (auto simp: complete_cancel_task_def split: option.splits if_splits)
next
  case (first t0 e d1)
  have id: "ct_id t = tid" using cancel_task_table.get_key [OF first(1)] first(7) by simp
  have ev: "\<exists>e'. find_event d' eid = Some e' \<and> ev_id e' = eid"
  proof -
    have f1: "find_event d1 eid = Some e" using first(3,8) by (simp add: find_event_def put_cancel_task_def)
    have "ev_id e = eid" using event_table.get_key [OF first(3)] .
    then show ?thesis
      using f1 first(9) event_table.get_put_same [OF f1, of "touch now (e\<lparr>ev_status := CANCELLED\<rparr>)"]
      by auto
  qed
  have "find_cancel_task d1 tid = Some t" unfolding first(8) using first(1) id by (rule cancel_task_table.get_put_same)
  then have "find_cancel_task d' tid = Some t" using first(9) by (simp add: find_cancel_task_def put_event_def)
  moreover have "ct_event_id t = eid" "ct_completed_at t \<noteq> None" using first(2,7) by simp_all
  ultimately show ?thesis using ev by (auto simp: complete_cancel_task_def)
qed

theorem cancel_task_completion_idempotent_witness:
  "\<exists>t d'. complete_cancel_task 90 ''evt_o'' (ct_id (hd (cancel_tasks demo_cancelling))) demo_owner demo_cancelling = Inr (t, d') \<and>
     complete_cancel_task 99 ''evt_o'' (ct_id (hd (cancel_tasks demo_cancelling))) demo_owner d' = Inr (t, d')"
proof -
  let ?run = "complete_cancel_task 90 ''evt_o'' (ct_id (hd (cancel_tasks demo_cancelling))) demo_owner demo_cancelling"
  have "ok ?run" by code_simp
  then obtain t d' where "?run = Inr (t, d')" by (auto simp: ok_def split: sum.splits)
  with cancel_task_completion_idempotent [OF this] show ?thesis by blast
qed

section \<open>Who may act\<close>

text \<open>
  An account that is not an active owner or manager of the event's club is refused with \<open>Forbidden\<close>
  by every request on its actions and steps, before anything is read of the request's own guards; the
  edit leaves the database as it is.
\<close>

theorem outsiders_are_forbidden:
  assumes "find_action d aid = Some a" and "find_event d (ac_event_id a) = Some e"
    and "find_step d sid = Some s" and "st_event_id s = ac_event_id a"
    and "\<not> (\<exists>m \<in> set (members d). mb_club_id m = ev_club_id e \<and> mb_account_id m = Some acc \<and>
             mb_status m = Member_ACTIVE \<and> mb_role m \<in> {OWNER, MANAGER})"
  shows "approve_action now acc aid v d = Inl Forbidden \<and> deny_action now acc reason aid v d = Inl Forbidden \<and>
         resolve_action g now acc choice mv aid v d = Inl Forbidden \<and> mark_action_done g now acc aid v d = Inl Forbidden \<and>
         request_action_draft g now acc aid v d = Inl Forbidden \<and>
         update_action_endpoint g now vals pv acc aid v d = (Inl Forbidden, d) \<and>
         complete_step_endpoint g now acc sid d = Inl Forbidden \<and> update_step_endpoint g now u acc sid v d = Inl Forbidden"
proof (intro conjI)
  have mem: "ensure_member (ev_club_id e) acc None d = Inl Forbidden"
    using assms(5) ensure_member_Inr [of "ev_club_id e" acc None d] ensure_member_role [of "ev_club_id e" acc None d]
      ensure_member_Inl [of "ev_club_id e" acc None d]
    by (cases "ensure_member (ev_club_id e) acc None d") blast+
  have ev: "action_event aid d = Inr e" "step_event sid d = Inr e"
    using assms(1-4) by (simp_all add: action_event_def step_event_def)
  have op: "operating_member aid acc d = Inl Forbidden" using ev mem by (simp add: operating_member_def)
  show "approve_action now acc aid v d = Inl Forbidden" "deny_action now acc reason aid v d = Inl Forbidden"
    "resolve_action g now acc choice mv aid v d = Inl Forbidden" "mark_action_done g now acc aid v d = Inl Forbidden"
    using op by (simp_all add: approve_action_def deny_action_def resolve_action_def mark_action_done_def)
  show "request_action_draft g now acc aid v d = Inl Forbidden"
    "update_action_endpoint g now vals pv acc aid v d = (Inl Forbidden, d)"
    "complete_step_endpoint g now acc sid d = Inl Forbidden" "update_step_endpoint g now u acc sid v d = Inl Forbidden"
    using ev mem
    by (simp_all add: request_action_draft_def update_action_endpoint_def complete_step_endpoint_def
        update_step_endpoint_def writer_of_def)
qed

theorem outsiders_are_forbidden_witness: "approve_action 9 ''stranger'' ''act_2'' 1 demo = Inl Forbidden"
proof (rule outsiders_are_forbidden [OF demo_rows(3), THEN conjunct1])
  show "find_event demo (ac_event_id (demo_row demo ''act_2'')) = Some (demo_event ''evt_o'' ON_GOING)" by code_simp
  show "find_step demo ''stp_3'' = Some (demo_step ''stp_3'' ''evt_o'' 1 SETTLE_EXPENSES EXECUTION)" by code_simp
  show "st_event_id (demo_step ''stp_3'' ''evt_o'' 1 SETTLE_EXPENSES EXECUTION) = ac_event_id (demo_row demo ''act_2'')" by code_simp
  show "\<not> (\<exists>m \<in> set (members demo). mb_club_id m = ev_club_id (demo_event ''evt_o'' ON_GOING) \<and>
      mb_account_id m = Some ''stranger'' \<and> mb_status m = Member_ACTIVE \<and> mb_role m \<in> {OWNER, MANAGER})" by code_simp
qed

section \<open>Answers, ledger edits and jobs\<close>

text \<open>
  An accepted answer to a confirmation question is one of the question's options, or a non-empty
  manual value where the question allows one; the row becomes DONE with the answer in its payload under
  \<open>resolved_choice\<close> and \<open>manual_value\<close>, and every other key of the payload stays.
\<close>

theorem answer_is_an_option:
  assumes "resolve g now m choice mv aid v d = Inr d'" and "pk_actions d" and "find_action d aid = Some a"
  shows "\<exists>b keys. find_action d' aid = Some b \<and> ac_status b = DONE \<and> ac_version b = ac_version a + 1 \<and>
     option_keys (case ac_payload a of None \<Rightarrow> [] | Some p \<Rightarrow> p) = Inr keys \<and>
     (if choice = MANUAL_CHOICE then mv \<noteq> None \<and> mv \<noteq> Some [] else JStr choice \<in> set keys) \<and>
     (case ac_payload b of None \<Rightarrow> False
      | Some p \<Rightarrow> map_of p ''resolved_choice'' = Some (JStr choice) \<and>
          map_of p ''manual_value'' = Some (if choice = MANUAL_CHOICE then JStr (the mv) else JNull) \<and>
          (\<forall>k. k \<notin> {''resolved_choice'', ''manual_value''} \<longrightarrow>
               map_of p k = map_of (case ac_payload a of None \<Rightarrow> [] | Some q \<Rightarrow> q) k))"
  using assms(1)
proof (rule resolve_Inr)
  fix a' keys payload
  assume a': "find_action d aid = Some a'" "payload = (case ac_payload a' of None \<Rightarrow> [] | Some p \<Rightarrow> p)"
    and ks: "option_keys payload = Inr keys" and ch: "check_choice payload keys choice mv = Inr ()"
    and d': "d' = request_current_step_drafts g now (ac_event_id a') (finish_step_if_done now (ac_step_id a')
           (put_action (set_resolution now m DONE (a'\<lparr>ac_payload := Some (answered_payload payload choice mv)\<rparr>)) d))"
  have a: "a' = a" using a'(1) assms(3) by simp
  let ?b = "set_resolution now m DONE (a\<lparr>ac_payload := Some (answered_payload payload choice mv)\<rparr>)"
  let ?d1 = "finish_step_if_done now (ac_step_id a) (put_action ?b d)"
  have "find_action (put_action ?b d) aid = Some ?b"
    using assms(3) find_action_id [OF assms(3)] by (intro action_table.get_put_same) simp_all
  then have "find_action ?d1 aid = Some ?b" "pk_actions ?d1" using assms(2) by simp_all
  then have b: "find_action d' aid = Some ?b"
    unfolding d' a by (elim request_current_step_drafts_find) (auto simp: needs_draft_def)
  have valid: "if choice = MANUAL_CHOICE then mv \<noteq> None \<and> mv \<noteq> Some [] else JStr choice \<in> set keys"
    using ch by (auto simp: check_choice_def split: if_splits)
  have keep: "map_of (answered_payload payload choice mv) k =
      (if k = ''manual_value'' then Some (if choice = MANUAL_CHOICE then (case mv of None \<Rightarrow> JNull | Some x \<Rightarrow> JStr x) else JNull)
       else if k = ''resolved_choice'' then Some (JStr choice) else map_of payload k)" for k
    by (simp add: answered_payload_def update_conv')
  show ?thesis
    using b ks valid a'(2) a keep
    by (intro exI [of _ ?b] exI [of _ keys]) (auto simp: set_resolution_def split: option.splits if_splits)
qed

theorem answer_is_an_option_witness:
  "\<exists>b keys. find_action (res (resolve demo_rnd 30 demo_owner (lit ''A'') None ''act_4'' 1 demo_question)) ''act_4'' = Some b \<and>
     ac_status b = DONE \<and> option_keys (the (ac_payload (demo_row demo_question ''act_4''))) = Inr keys \<and> JStr (lit ''A'') \<in> set keys"
proof -
  have "ok (resolve demo_rnd 30 demo_owner (lit ''A'') None ''act_4'' 1 demo_question)" by code_simp
  note run = ok_res [OF this]
  have a: "find_action demo_question ''act_4'' = Some (demo_row demo_question ''act_4'')" "pk_actions demo_question" by code_simp+
  have "lit ''A'' \<noteq> MANUAL_CHOICE" "ac_payload (demo_row demo_question ''act_4'') \<noteq> None" by code_simp+
  with answer_is_an_option [OF run a(2,1)] show ?thesis by (auto split: option.splits)
qed

text \<open>
  Editing a ledger entry is confined to it and to its club: from another club the entry does not
  exist; an accepted edit keeps the entry's origin (source, receipt, action, creator, club), raises its
  version by one and leaves every other entry as it was.
\<close>

theorem ledger_edit_confined:
  assumes "find_expense d xid = Some x" and "missing_fields c = []" and "c \<noteq> no_changes"
  shows "(club \<noteq> ex_club_id x \<longrightarrow> update_expense c club xid v d = Inl ExpenseNotFound) \<and>
         (update_expense c club xid v d = Inr (y, d') \<longrightarrow>
           find_expense d' xid = Some y \<and> ex_version y = ex_version x + 1 \<and> ex_club_id y = ex_club_id x \<and>
           ex_source y = ex_source x \<and> ex_action_id y = ex_action_id x \<and>
           ex_receipt_record_id y = ex_receipt_record_id x \<and> ex_created_by y = ex_created_by x \<and>
           (\<forall>i. i \<noteq> xid \<longrightarrow> find_expense d' i = find_expense d i))"
proof (intro conjI impI)
  show "update_expense c club xid v d = Inl ExpenseNotFound" if "club \<noteq> ex_club_id x"
    using that assms by (simp add: update_expense_def)
  assume "update_expense c club xid v d = Inr (y, d')"
  then obtain x' where x': "find_expense d xid = Some x'" "ex_version x' = v"
      "y = (apply_changes c x')\<lparr>ex_version := v + 1\<rparr>" "d' = put_expense y d"
    using assms(3) by (rule update_expense_Inr)
  then have [simp]: "x' = x" using assms(1) by simp
  have id: "ex_id y = xid" using x'(3) expense_table.get_key [OF assms(1)] by simp
  have "find_expense d' xid = Some y" unfolding x'(4) using assms(1) id by (rule expense_table.get_put_same)
  moreover have "find_expense d' i = find_expense d i" if "i \<noteq> xid" for i
    unfolding x'(4) using assms(1) id that by (rule expense_table.get_put_other)
  ultimately show "find_expense d' xid = Some y" "\<forall>i. i \<noteq> xid \<longrightarrow> find_expense d' i = find_expense d i"
    by simp_all
  show "ex_version y = ex_version x + 1" "ex_club_id y = ex_club_id x" "ex_source y = ex_source x"
    "ex_action_id y = ex_action_id x" "ex_receipt_record_id y = ex_receipt_record_id x" "ex_created_by y = ex_created_by x"
    using x'(2,3) by simp_all
qed

theorem ledger_edit_confined_witness:
  "update_expense (no_changes\<lparr>xc_amount := Some (Some 5)\<rparr>) ''other'' (ex_id (hd (expenses demo_done))) 1 demo_done = Inl ExpenseNotFound"
proof (rule ledger_edit_confined [THEN conjunct1, rule_format])
  show "find_expense demo_done (ex_id (hd (expenses demo_done))) = Some (hd (expenses demo_done))" by code_simp
  show "missing_fields (no_changes\<lparr>xc_amount := Some (Some 5)\<rparr>) = []" by code_simp
  show "no_changes\<lparr>xc_amount := Some (Some 5)\<rparr> \<noteq> no_changes" by (simp add: no_changes_def)
  show "''other'' \<noteq> ex_club_id (hd (expenses demo_done))" by code_simp
qed

text \<open>
  Turning the pages of the ledger shows every entry of the club exactly once, newest first, and
  nothing of another club.
\<close>

theorem ledger_pages_partition:
  assumes "0 < sz" and "length (filter (\<lambda>x. ex_club_id x = club) (expenses d)) \<le> n * nat sz"
  shows "concat (map (\<lambda>p. fst (list_expenses club (int p) sz d)) [1..<Suc n]) =
           sort_key (\<lambda>x. - ex_spent_at x) (filter (\<lambda>x. ex_club_id x = club) (expenses d))"
  using paginate_concat [OF assms(1), of "sort_key (\<lambda>x. - ex_spent_at x) (filter (\<lambda>x. ex_club_id x = club) (expenses d))" n]
    assms(2)
  by (simp add: list_expenses_def Let_def del: upt_Suc)

theorem ledger_pages_partition_witness:
  "concat (map (\<lambda>p. fst (list_expenses ''clb_1'' (int p) 20 demo_done)) [1..<Suc 1]) =
     sort_key (\<lambda>x. - ex_spent_at x) (filter (\<lambda>x. ex_club_id x = ''clb_1'') (expenses demo_done))"
  by (rule ledger_pages_partition) code_simp+

text \<open>
  In every state the job operations reach, the last activity event of a job tells the job's stored
  status and stage: the event stream never runs ahead of or behind the table.
\<close>

theorem activity_mirrors_jobs:
  assumes "job_step\<^sup>*\<^sup>* d d'" and "mirrored d"
  shows "mirrored d'"
  using assms by (induction rule: rtranclp_induct) (auto intro: mirrored_job_step)

theorem activity_mirrors_jobs_witness: "mirrored demo_job"
proof (rule activity_mirrors_jobs)
  have "job_step demo demo_job" unfolding demo_job_def by (rule Running)
  then show "job_step\<^sup>*\<^sup>* demo demo_job" by blast
  show "mirrored demo" by (simp add: mirrored_def demo_def empty_db_def)
qed

text \<open>
  The view and the handler of a denial disagree: of an action that needs no approval the view
  says \<open>canApprove = false\<close>, and yet its denial is accepted.
\<close>

theorem deny_ignores_approve_needed:
  assumes "find_action d aid = Some a" and "ac_type a \<noteq> CONFIRMATION" and "\<not> ac_approve_needed a"
    and "ac_status a = PENDING" and "mb_role m \<in> {OWNER, MANAGER}"
  shows "\<not> ao_can_approve (action_out now m es d a) \<and>
         (\<exists>d'. deny now m reason aid (ac_version a) d = Inr d')"
  using assms
  by (auto simp: action_out_def Let_def can_approve_def is_confirmation_def deny_Inr can_resolve_def
      RESOLVER_ROLES_def SERVICE_ROLES_def)

theorem deny_ignores_approve_needed_witness:
  "\<exists>d'. deny 9 demo_owner None ''act_2'' 1 demo_unapproved = Inr d'"
proof -
  have a: "find_action demo_unapproved ''act_2'' = Some (demo_row demo_unapproved ''act_2'')"
    "ac_type (demo_row demo_unapproved ''act_2'') \<noteq> CONFIRMATION" "\<not> ac_approve_needed (demo_row demo_unapproved ''act_2'')"
    "ac_status (demo_row demo_unapproved ''act_2'') = PENDING" "mb_role demo_owner \<in> {OWNER, MANAGER}"
    "ac_version (demo_row demo_unapproved ''act_2'') = 1"
    by code_simp+
  show ?thesis using deny_ignores_approve_needed [OF a(1-5), where now = 9 and reason = None] a(6) by simp
qed

text \<open>
  An edit of an action that belongs to no step is committed and then answered with 404: the reply is
  \<open>ActionNotFound\<close>, the stored row is edited and its version has moved.
\<close>

theorem stepless_edit_commits_then_404:
  assumes "find_action d aid = Some a" and "ac_step_id a = None"
    and "update_action_endpoint g now vals pv acc aid v d = (reply, d')" and "d' \<noteq> d"
  shows "reply = Inl ActionNotFound \<and> (\<exists>b. find_action d' aid = Some b \<and> ac_version b = ac_version a + 1)"
proof -
  from assms(3,4) obtain mid where up: "update_action g now vals pv mid aid v d = Inr d'"
    using endpoint_core(12) by blast
  then obtain a' where "find_action d aid = Some a'" "actions d' = put_row ac_id (edited_row vals pv a') (actions d)"
    by (rule update_action_actions)
  then have b: "find_action d' aid = Some (edited_row vals pv a)"
    using assms(1) get_put_row [of ac_id "actions d" "edited_row vals pv a" a aid] find_action_id [OF assms(1)]
    by (simp add: find_action_def)
  then have "Option.bind (find_action d' aid) (\<lambda>a. Option.bind (ac_step_id a) (find_step d')) = None"
    using assms(2) by simp
  then have "reply = Inl ActionNotFound"
    using assms(3,4) by (auto simp: update_action_endpoint_def split: sum.splits option.splits)
  with b show ?thesis by simp
qed

theorem stepless_edit_commits_then_404_witness:
  "fst (update_action_endpoint demo_rnd 30 demo_edit [] ''acc_1'' ''act_2'' 1 demo_stepless) = Inl ActionNotFound \<and>
   (\<exists>b. find_action (snd (update_action_endpoint demo_rnd 30 demo_edit [] ''acc_1'' ''act_2'' 1 demo_stepless)) ''act_2'' = Some b \<and>
        ac_version b = ac_version (demo_row demo_stepless ''act_2'') + 1)"
proof -
  let ?run = "update_action_endpoint demo_rnd 30 demo_edit [] ''acc_1'' ''act_2'' 1 demo_stepless"
  have a: "find_action demo_stepless ''act_2'' = Some (demo_row demo_stepless ''act_2'')"
    "ac_step_id (demo_row demo_stepless ''act_2'') = None" by code_simp+
  have "map ac_version (actions (snd ?run)) \<noteq> map ac_version (actions demo_stepless)" by code_simp
  then have "snd ?run \<noteq> demo_stepless" by auto
  with stepless_edit_commits_then_404 [OF a, of demo_rnd 30 demo_edit "[]" "''acc_1''" 1 "fst ?run" "snd ?run"]
  show ?thesis by simp
qed



text \<open>
  C36. Imported expenses are booked exactly as confirmed and only once. After any sequence of uploads,
  readings by the model, retries, lost source files, draft edits and confirmations that starts without
  imports, an import that has entries in the ledger is no longer under review, and its entries are its rows
  in order: date, merchant, amount, currency, category, description and the identifier the row remembers.
  No two imports share the stored file their entries refer to.
\<close>

theorem imports_are_booked_once:
  assumes "import_step\<^sup>*\<^sup>* d0 d" and "receipt_imports d0 = []" and "receipt_rows d0 = []" and "expenses d0 = []"
    and "item \<in> set (receipt_imports d)" and "rim_record_id item = Some rid" and "booked d rid \<noteq> []"
  shows "map entry_of (booked d rid) = map row_entry (import_rows d (rim_id item)) \<and>
         rim_status item \<noteq> Import_NEEDS_REVIEW \<and> distinct (map rim_record_id (receipt_imports d))"
proof -
  have "imports_ok d0" by (simp add: imports_ok_def tables_ok_def assms(2-4))
  with assms(1) have "imports_ok d" by (rule imports_reachable)
  then show ?thesis using assms(5-7) by (auto simp: imports_ok_def tables_ok_def import_ok_def)
qed

theorem imports_are_booked_once_witness:
  "map entry_of (expenses demo_booked) = map row_entry (import_rows demo_booked demo_import_id)"
proof -
  have run: "import_step\<^sup>*\<^sup>* demo demo_booked" using demo_import_steps by (meson converse_rtranclp_into_rtranclp rtranclp.rtrancl_refl)
  have start: "receipt_imports demo = []" "receipt_rows demo = []" "expenses demo = []" by code_simp+
  let ?item = "hd (receipt_imports demo_booked)"
  have item: "rim_id ?item = demo_import_id" "receipt_imports demo_booked \<noteq> []" "rim_record_id ?item \<noteq> None"
    "booked demo_booked (the (rim_record_id ?item)) = expenses demo_booked \<and> expenses demo_booked \<noteq> []"
    by code_simp+
  then show ?thesis
    using imports_are_booked_once [OF run start, of ?item "the (rim_record_id ?item)"] by auto
qed

text \<open>
  C37. A reading that was overtaken changes nothing: once a retry has started a new job for an import, the
  result of any other job, whatever the model answered, leaves the database as it is.
\<close>

theorem overtaken_reading_is_dropped:
  assumes "retry_begin g now club iid by' d = Inr ((jid, name, key), d1)" and "other \<noteq> jid"
  shows "run_receipt_ocr g' now' midnight answer club iid other d1 = Inr d1"
proof -
  from assms(1) obtain item where "club_import club iid d1 = Some item" "rim_job_id item = Some jid"
    by (rule retry_begin_item)
  then show ?thesis using assms(2) by (intro ocr_of_other_job) auto
qed

theorem overtaken_reading_is_dropped_witness:
  "run_receipt_ocr demo_rnd 130 (\<lambda>_. 0) (Inl AIConfigError) ''clb_1'' demo_image_id demo_first_job demo_retried = Inr demo_retried"
proof -
  have "case demo_retry of Inl _ \<Rightarrow> False | Inr ((jid, _), _) \<Rightarrow> demo_first_job \<noteq> jid" by code_simp
  then obtain jid name key d1 where r: "demo_retry = Inr ((jid, name, key), d1)" "demo_first_job \<noteq> jid"
    by (auto split: sum.splits)
  have "d1 = demo_retried" unfolding demo_retried_def value_of_def r(1) by simp
  with overtaken_reading_is_dropped [OF r(1) [unfolded demo_retry_def] r(2)] show ?thesis by simp
qed

text \<open>
  C38. A reminder is sent at most once for its confirmation and once for each later change of its item:
  in every run of the desk that starts without reminders, however confirmations, changes, cancellations and
  dispatcher rounds interleave, the dispatcher claims it at most that often.
\<close>

theorem reminder_is_sent_once:
  assumes "desk_run k ls k'" and "reminders k = []"
  shows "sent rid ls \<le> 1 + edits rid ls"
proof -
  have "pk_reminders k" by (simp add: pk_reminders_def assms(2))
  from run_account [OF assms(1) this, of rid] show ?thesis
    by (auto simp: pending_def existing_def assms(2) split: if_splits)
qed

theorem reminder_is_sent_once_witness:
  "sent (rmd_id demo_reminder) [Quiet, Claim (rmd_id demo_reminder)] = 1 \<and>
   sent (rmd_id demo_reminder) [Quiet, Claim (rmd_id demo_reminder)] \<le> 1 + edits (rmd_id demo_reminder) [Quiet, Claim (rmd_id demo_reminder)]"
proof -
  have "reminders demo_desk = []" by code_simp
  from reminder_is_sent_once [OF demo_desk_run this] show ?thesis by (simp add: sent_def)
qed

text \<open>
  C39. A cancelled item stays silent: when its cancellation is accepted, its reminder is not being sent,
  and no later run claims it, whether it was pending or not.
\<close>

theorem cancelled_item_stays_silent:
  assumes "cancel_confirmed_task club iid v k = Inr (i, k1)" and "item_reminder k iid = Some r" and "pk_reminders k"
    and "desk_run k1 ls k2"
  shows "rmd_status r \<noteq> Reminder_SENDING \<and> sent (rmd_id r) ls = 0"
  using cancelled_is_silent [OF assms(1-3)] silent_run [OF assms(4)] by blast

theorem cancelled_item_stays_silent_witness:
  "rmd_status demo_reminder \<noteq> Reminder_SENDING \<and> sent (rmd_id demo_reminder) [Quiet] = 0"
proof -
  let ?k = "value_of demo_desk demo_cancelled"
  have "ok demo_cancelled" by code_simp
  then obtain i where c: "demo_cancelled = Inr (i, ?k)" using ok_value [of demo_cancelled demo_desk] by auto
  have r: "item_reminder demo_confirmed (rmd_item_id demo_reminder) = Some demo_reminder" "pk_reminders demo_confirmed"
    by code_simp+
  have "desk_run ?k [Quiet] ?k" using desk_run.Go [OF desk_run.Stop, of ?k Quiet ?k] desk_step.Elsewhere [of ?k ?k] by simp
  from cancelled_item_stays_silent [OF trans [OF demo_cancelled_def [symmetric] c] r this] show ?thesis .
qed

text \<open>
  C40. A finished request is replayed: when the response of a request with an idempotency key has been
  saved, every later request of the member with the same key, endpoint and body gets that response and
  changes nothing, whatever other requests insert, take over, save or release in between, as long as
  nobody saves or releases this very row again.
\<close>

theorem saved_response_is_replayed:
  assumes "find_key q rows = Some r" and "idm_request_body_hash r = kr_hash q" and "kr_key q \<noteq> []"
    and "list_all (leaves_alone (idm_id r)) ws"
  shows "resolve_key i now q (key_run ws (save_response at (idm_id r) st body' rows)) =
    Inr (Some \<lparr>res_record = r\<lparr>idm_status := Key_COMPLETED, idm_response_status := Some st,
                                idm_response_body := Some body', idm_modified_at := at\<rparr>, res_is_replay = True\<rparr>,
         key_run ws (save_response at (idm_id r) st body' rows))"
proof -
  let ?r = "r\<lparr>idm_status := Key_COMPLETED, idm_response_status := Some st, idm_response_body := Some body', idm_modified_at := at\<rparr>"
  have "find_key q (key_run ws (save_response at (idm_id r) st body' rows)) = Some ?r"
    using completed_run [OF save_response_find [OF assms(1)]] assms(4) by simp
  then show ?thesis using assms(2,3) by (intro resolve_completed) simp_all
qed

theorem saved_response_is_replayed_witness:
  "resolve_key ''idm_9'' 20 demo_key (save_response 10 ''idm_1'' 200 [] [new_key ''idm_1'' 0 demo_key]) =
    Inr (Some \<lparr>res_record = (new_key ''idm_1'' 0 demo_key)\<lparr>idm_status := Key_COMPLETED, idm_response_status := Some 200,
                              idm_response_body := Some [], idm_modified_at := 10\<rparr>, res_is_replay = True\<rparr>,
         save_response 10 ''idm_1'' 200 [] [new_key ''idm_1'' 0 demo_key])"
proof -
  let ?r = "new_key ''idm_1'' 0 demo_key"
  have "find_key demo_key [?r] = Some ?r" "idm_request_body_hash ?r = kr_hash demo_key" "kr_key demo_key \<noteq> []" "idm_id ?r = ''idm_1''"
    by code_simp+
  then show ?thesis using saved_response_is_replayed [of demo_key "[?r]" ?r "[]"] by (simp add: key_run_def)
qed

end
